(* ===== verification/Prelude.thy ===== *)
theory Prelude
  imports Complex_Main "HOL-Library.Word"
begin

text \<open>
  Shared vocabulary of the development: results with errors as values (a thrown
  JavaScript exception is an \<open>Inl\<close>), the array and string operations of the
  JavaScript standard library that the modelled code calls, and the generic lemmas
  about them. Nothing here is specific to Ceramic.
\<close>

section \<open>Results: a value or a thrown error\<close>

named_theorems res_simps \<open>inversion rules for results\<close>

definition bindR :: "'e + 'a \<Rightarrow> ('a \<Rightarrow> 'e + 'b) \<Rightarrow> 'e + 'b" where
  "bindR m f = (case m of Inl e \<Rightarrow> Inl e | Inr x \<Rightarrow> f x)"

lemma bindR_simps [simp]:
  "bindR (Inl e) f = Inl e"
  "bindR (Inr x) f = f x"
  by (simp_all add: bindR_def)

lemma bindR_Inr_iff [res_simps]: "bindR m f = Inr y \<longleftrightarrow> (\<exists>x. m = Inr x \<and> f x = Inr y)"
  by (simp add: bindR_def split: sum.split)

lemma ex_unit: "(\<exists>u :: unit. P u) \<longleftrightarrow> P ()"
  by auto

lemma bindR_Inl_iff [res_simps]:
  "bindR m f = Inl e \<longleftrightarrow> m = Inl e \<or> (\<exists>x. m = Inr x \<and> f x = Inl e)"
  by (auto simp: bindR_def split: sum.split)

lemma bindR_cong [fundef_cong]:
  "m = m' \<Longrightarrow> (\<And>x. m' = Inr x \<Longrightarrow> f x = g x) \<Longrightarrow> bindR m f = bindR m' g"
  by (simp add: bindR_def split: sum.split)

lemma bindR_assoc: "bindR (bindR m f) g = bindR m (\<lambda>x. bindR (f x) g)"
  by (simp add: bindR_def split: sum.split)

text \<open>\<open>if (b) throw e\<close>\<close>

definition throwIf :: "bool \<Rightarrow> 'e \<Rightarrow> 'e + unit" where
  "throwIf b e = (if b then Inl e else Inr ())"

lemma throwIf_simps [simp]:
  "throwIf True e = Inl e"
  "throwIf False e = Inr ()"
  by (simp_all add: throwIf_def)

lemma throwIf_Inr_iff [res_simps]: "throwIf b e = Inr u \<longleftrightarrow> \<not> b"
  by (simp add: throwIf_def)

lemma throwIf_Inl_iff [res_simps]: "throwIf b e = Inl e' \<longleftrightarrow> b \<and> e' = e"
  by (auto simp: throwIf_def)

text \<open>A loop that maps a throwing function over an array.\<close>

fun mapR :: "('a \<Rightarrow> 'e + 'b) \<Rightarrow> 'a list \<Rightarrow> 'e + 'b list" where
  "mapR f [] = Inr []"
| "mapR f (x # xs) = bindR (f x) (\<lambda>y. bindR (mapR f xs) (\<lambda>ys. Inr (y # ys)))"

lemma mapR_cong [fundef_cong]:
  "xs = ys \<Longrightarrow> (\<And>x. x \<in> set ys \<Longrightarrow> f x = g x) \<Longrightarrow> mapR f xs = mapR g ys"
  by (induction ys arbitrary: xs) auto

lemma mapR_length: "mapR f xs = Inr ys \<Longrightarrow> length ys = length xs"
  by (induction xs arbitrary: ys) (auto simp: res_simps)

lemma mapR_nth: "mapR f xs = Inr ys \<Longrightarrow> i < length xs \<Longrightarrow> f (xs ! i) = Inr (ys ! i)"
  by (induction xs arbitrary: ys i) (auto simp: res_simps less_Suc_eq_0_disj)

lemma mapR_Inr_map: "(\<And>x. x \<in> set xs \<Longrightarrow> f x = Inr (g x)) \<Longrightarrow> mapR f xs = Inr (map g xs)"
  by (induction xs) auto

text \<open>A loop that runs a throwing check on each element.\<close>

fun forEachR :: "('a \<Rightarrow> 'e + unit) \<Rightarrow> 'a list \<Rightarrow> 'e + unit" where
  "forEachR f [] = Inr ()"
| "forEachR f (x # xs) = bindR (f x) (\<lambda>_. forEachR f xs)"

lemma forEachR_cong [fundef_cong]:
  "xs = ys \<Longrightarrow> (\<And>x. x \<in> set ys \<Longrightarrow> f x = g x) \<Longrightarrow> forEachR f xs = forEachR g ys"
  by (induction ys arbitrary: xs) auto

lemma forEachR_Inr_iff [res_simps]:
  "forEachR f xs = Inr u \<longleftrightarrow> (\<forall>x \<in> set xs. f x = Inr ())"
  by (induction xs) (auto simp: res_simps)

section \<open>Arrays\<close>

text \<open>\<open>Array.prototype.findIndex\<close>: \<open>-1\<close> when no element satisfies the predicate.\<close>

fun findIndex :: "('a \<Rightarrow> bool) \<Rightarrow> 'a list \<Rightarrow> int" where
  "findIndex p [] = -1"
| "findIndex p (x # xs) =
     (if p x then 0 else let r = findIndex p xs in if r < 0 then -1 else r + 1)"

lemma findIndex_ge: "- 1 \<le> findIndex p xs"
  by (induction xs) (auto simp: Let_def)

lemma findIndex_lt: "findIndex p xs < int (length xs)"
  by (induction xs) (auto simp: Let_def)

lemma findIndex_neg_iff: "findIndex p xs < 0 \<longleftrightarrow> (\<forall>x \<in> set xs. \<not> p x)"
  by (induction xs) (auto simp: Let_def)

lemma findIndex_nonneg_iff: "0 \<le> findIndex p xs \<longleftrightarrow> (\<exists>x \<in> set xs. p x)"
  using findIndex_neg_iff [of p xs] by auto

lemma findIndex_nth: "0 \<le> findIndex p xs \<Longrightarrow> p (xs ! nat (findIndex p xs))"
proof (induction xs)
  case Nil
  then show ?case by simp
next
  case (Cons x xs)
  show ?case
  proof (cases "p x")
    case True
    then show ?thesis by simp
  next
    case False
    with Cons.prems have ge: "0 \<le> findIndex p xs"
      by (auto simp: Let_def split: if_splits)
    with Cons.IH have "p (xs ! nat (findIndex p xs))" .
    with False ge show ?thesis by (simp add: Let_def nat_add_distrib)
  qed
qed

lemma findIndex_take: "0 \<le> findIndex p xs \<Longrightarrow> \<forall>x \<in> set (take (nat (findIndex p xs)) xs). \<not> p x"
proof (induction xs)
  case Nil
  then show ?case by simp
next
  case (Cons x xs)
  show ?case
  proof (cases "p x")
    case True
    then show ?thesis by simp
  next
    case False
    with Cons.prems have ge: "0 \<le> findIndex p xs"
      by (auto simp: Let_def split: if_splits)
    with False have eq: "take (nat (findIndex p (x # xs))) (x # xs)
        = x # take (nat (findIndex p xs)) xs"
      by (simp add: Let_def nat_add_distrib)
    show ?thesis unfolding eq using False Cons.IH [OF ge] by simp
  qed
qed

lemma findIndex_cong [fundef_cong]:
  assumes "xs = ys" and "\<And>x. x \<in> set ys \<Longrightarrow> p x = q x"
  shows "findIndex p xs = findIndex q ys"
proof -
  from assms(2) have "findIndex p ys = findIndex q ys"
  proof (induction ys)
    case Nil
    then show ?case by simp
  next
    case (Cons y ys)
    from Cons.prems have "p y = q y" by simp
    moreover have "findIndex p ys = findIndex q ys" using Cons by simp
    ultimately show ?case by simp
  qed
  with assms(1) show ?thesis by simp
qed

lemma findIndex_append_left: "0 \<le> findIndex p xs \<Longrightarrow> findIndex p (xs @ ys) = findIndex p xs"
  by (induction xs) (auto simp: Let_def split: if_splits)

section \<open>Strings\<close>

text \<open>\<open>String.prototype.split\<close> with a one-character separator: never empty.\<close>

fun jsSplit :: "char \<Rightarrow> string \<Rightarrow> string list" where
  "jsSplit c [] = [[]]"
| "jsSplit c (x # xs) =
     (if x = c then [] # jsSplit c xs
      else case jsSplit c xs of [] \<Rightarrow> [[x]] | w # ws \<Rightarrow> (x # w) # ws)"

text \<open>\<open>Array.prototype.join\<close> on strings.\<close>

fun jsJoin :: "string \<Rightarrow> string list \<Rightarrow> string" where
  "jsJoin sep [] = []"
| "jsJoin sep [w] = w"
| "jsJoin sep (w # v # ws) = w @ sep @ jsJoin sep (v # ws)"

lemma jsSplit_nonempty [simp]: "jsSplit c xs \<noteq> []"
  by (induction xs) (auto split: list.splits)

lemma jsSplit_no_sep: "c \<notin> set w \<Longrightarrow> jsSplit c w = [w]"
  by (induction w) auto

lemma jsSplit_append_sep: "c \<notin> set w \<Longrightarrow> jsSplit c (w @ c # v) = w # jsSplit c v"
  by (induction w) auto

lemma jsSplit_jsJoin:
  "ws \<noteq> [] \<Longrightarrow> \<forall>w \<in> set ws. c \<notin> set w \<Longrightarrow> jsSplit c (jsJoin [c] ws) = ws"
  by (induction "[c]" ws rule: jsJoin.induct) (auto simp: jsSplit_no_sep jsSplit_append_sep)

lemma jsJoin_Cons: "ws \<noteq> [] \<Longrightarrow> jsJoin sep (w # ws) = w @ sep @ jsJoin sep ws"
  by (cases ws) auto

lemma jsJoin_jsSplit: "jsJoin [c] (jsSplit c s) = s"
proof (induction s)
  case Nil
  then show ?case by simp
next
  case (Cons x s)
  then show ?case
    by (cases "jsSplit c s"; cases "tl (jsSplit c s)") (auto simp: jsJoin_Cons)
qed

lemma jsSplit_parts: "w \<in> set (jsSplit c s) \<Longrightarrow> c \<notin> set w"
  by (induction s arbitrary: w) (auto split: list.splits if_splits)

definition includesChar :: "string \<Rightarrow> char \<Rightarrow> bool" where
  "includesChar s c \<longleftrightarrow> c \<in> set s"

definition startsWith :: "string \<Rightarrow> string \<Rightarrow> bool" where
  "startsWith s p \<longleftrightarrow> take (length p) s = p"

text \<open>Decimal rendering of a natural number, as \<open>String(n)\<close> gives it.\<close>

definition digitChar :: "nat \<Rightarrow> char" where
  "digitChar d = char_of (48 + d)"

fun natStr :: "nat \<Rightarrow> string" where
  "natStr n = (if n < 10 then [digitChar n] else natStr (n div 10) @ [digitChar (n mod 10)])"

declare natStr.simps [simp del]

definition digitVal :: "char \<Rightarrow> nat" where
  "digitVal c = of_char c - 48"

fun strNat :: "string \<Rightarrow> nat" where
  "strNat cs = foldl (\<lambda>acc c. 10 * acc + digitVal c) 0 cs"

declare strNat.simps [simp del]

lemma of_char_digitChar: "d < 10 \<Longrightarrow> of_char (digitChar d) = 48 + d"
  by (simp add: digitChar_def of_char_of)

lemma digitVal_digitChar: "d < 10 \<Longrightarrow> digitVal (digitChar d) = d"
  by (simp add: digitVal_def of_char_digitChar)

lemma strNat_snoc: "strNat (cs @ [c]) = 10 * strNat cs + digitVal c"
  by (simp add: strNat.simps)

lemma strNat_natStr: "strNat (natStr n) = n"
proof (induction n rule: natStr.induct)
  case (1 n)
  show ?case
  proof (cases "n < 10")
    case True
    then show ?thesis
      by (simp add: natStr.simps [of n] strNat.simps digitVal_digitChar)
  next
    case False
    with 1 have "strNat (natStr (n div 10)) = n div 10" by simp
    with False show ?thesis
      by (simp add: natStr.simps [of n] strNat_snoc digitVal_digitChar)
  qed
qed

lemma natStr_inject [simp]: "natStr m = natStr n \<longleftrightarrow> m = n"
  by (metis strNat_natStr)

lemma natStr_nonempty [simp]: "natStr n \<noteq> []"
  by (simp add: natStr.simps [of n])

lemma natStr_digits: "c \<in> set (natStr n) \<Longrightarrow> 48 \<le> (of_char c :: nat) \<and> (of_char c :: nat) < 58"
proof (induction n rule: natStr.induct)
  case (1 n)
  show ?case
  proof (cases "n < 10")
    case True
    with 1 show ?thesis by (simp add: natStr.simps [of n] of_char_digitChar)
  next
    case False
    with 1 show ?thesis
      by (auto simp: natStr.simps [of n] of_char_digitChar)
  qed
qed

text \<open>
  JavaScript's \<open><\<close> on strings: lexicographic by code unit. It is a strict total order.
\<close>

fun strLess :: "string \<Rightarrow> string \<Rightarrow> bool" where
  "strLess xs [] = False"
| "strLess [] (y # ys) = True"
| "strLess (x # xs) (y # ys) =
     (if x = y then strLess xs ys else (of_char x :: nat) < of_char y)"

lemma strLess_irrefl [simp]: "\<not> strLess s s"
  by (induction s) auto

lemma strLess_asym: "strLess s t \<Longrightarrow> \<not> strLess t s"
  by (induction s t rule: strLess.induct) (auto split: if_splits)

lemma strLess_total: "s \<noteq> t \<Longrightarrow> strLess s t \<or> strLess t s"
proof (induction s t rule: strLess.induct)
  case (1 xs)
  then show ?case by (cases xs) auto
next
  case (3 x xs y ys)
  show ?case
  proof (cases "x = y")
    case True
    with 3 show ?thesis by auto
  next
    case False
    then have "(of_char x :: nat) \<noteq> of_char y" by simp
    then have "(of_char x :: nat) < of_char y \<or> (of_char y :: nat) < of_char x" by linarith
    with False show ?thesis by auto
  qed
qed auto

lemma strLess_trans: "strLess s t \<Longrightarrow> strLess t u \<Longrightarrow> strLess s u"
proof (induction s t arbitrary: u rule: strLess.induct)
  case (2 y ys)
  then show ?case by (cases u) auto
next
  case (3 x xs y ys)
  then show ?case by (cases u) (auto split: if_splits)
qed auto

section \<open>Byte arrays\<close>

type_synonym byte = "8 word"

text \<open>
  \<open>Uint8Array.prototype.toString\<close>: the elements in decimal, joined by commas. The relational
  operators of JavaScript convert a typed array to this string before they compare it.
\<close>

definition uint8Str :: "byte list \<Rightarrow> string" where
  "uint8Str bs = jsJoin '','' (map (\<lambda>b. natStr (unat b)) bs)"

definition uint8Less :: "byte list \<Rightarrow> byte list \<Rightarrow> bool" where
  "uint8Less xs ys = strLess (uint8Str xs) (uint8Str ys)"

lemma comma_notin_natStr: "CHR '','' \<notin> set (natStr n)"
  using natStr_digits [of "CHR '',''" n] by auto

lemma uint8Str_split: "bs \<noteq> [] \<Longrightarrow> jsSplit CHR '','' (uint8Str bs) = map (\<lambda>b. natStr (unat b)) bs"
  unfolding uint8Str_def by (rule jsSplit_jsJoin) (auto simp: comma_notin_natStr)

lemma uint8Str_Nil_iff: "uint8Str bs = [] \<longleftrightarrow> bs = []"
proof (cases bs)
  case Nil
  then show ?thesis by (simp add: uint8Str_def)
next
  case (Cons b cs)
  then show ?thesis by (cases cs) (simp_all add: uint8Str_def)
qed

lemma uint8Str_inject [simp]: "uint8Str xs = uint8Str ys \<longleftrightarrow> xs = ys"
proof
  assume eq: "uint8Str xs = uint8Str ys"
  show "xs = ys"
  proof (cases "xs = [] \<or> ys = []")
    case True
    with eq show ?thesis by (metis uint8Str_Nil_iff)
  next
    case False
    then have "map (\<lambda>b. natStr (unat b)) xs = map (\<lambda>b. natStr (unat b)) ys"
      using eq uint8Str_split [of xs] uint8Str_split [of ys] by simp
    moreover have "inj (\<lambda>b :: byte. natStr (unat b))"
      by (rule injI) (simp add: word_unat_eq_iff)
    ultimately show ?thesis by (simp add: inj_map_eq_map)
  qed
qed simp

lemma uint8Less_irrefl [simp]: "\<not> uint8Less xs xs"
  by (simp add: uint8Less_def)

lemma uint8Less_asym: "uint8Less xs ys \<Longrightarrow> \<not> uint8Less ys xs"
  by (simp add: uint8Less_def strLess_asym)

lemma uint8Less_total: "xs \<noteq> ys \<Longrightarrow> uint8Less xs ys \<or> uint8Less ys xs"
  unfolding uint8Less_def by (rule strLess_total) simp

lemma uint8Less_trans: "uint8Less xs ys \<Longrightarrow> uint8Less ys zs \<Longrightarrow> uint8Less xs zs"
  unfolding uint8Less_def by (rule strLess_trans)

section \<open>Numbers that may be missing\<close>

text \<open>
  An optional numeric field: \<open>undefined\<close>, \<open>null\<close>, NaN or an integer. The relational operators
  convert \<open>undefined\<close> to NaN, which compares false with everything, and \<open>null\<close> to 0.
\<close>

datatype onum = NUndef | NNull | NNaN | NVal int

fun onumVal :: "onum \<Rightarrow> int option" where
  "onumVal NUndef = None"
| "onumVal NNull = Some 0"
| "onumVal NNaN = None"
| "onumVal (NVal n) = Some n"

definition onumLess :: "onum \<Rightarrow> onum \<Rightarrow> bool" where
  "onumLess a b = (case (onumVal a, onumVal b) of (Some x, Some y) \<Rightarrow> x < y | _ \<Rightarrow> False)"

definition onumLeq :: "onum \<Rightarrow> onum \<Rightarrow> bool" where
  "onumLeq a b = (case (onumVal a, onumVal b) of (Some x, Some y) \<Rightarrow> x \<le> y | _ \<Rightarrow> False)"

lemma onumLess_NVal [simp]: "onumLess (NVal a) (NVal b) \<longleftrightarrow> a < b"
  by (simp add: onumLess_def)

lemma onumLeq_NVal [simp]: "onumLeq (NVal a) (NVal b) \<longleftrightarrow> a \<le> b"
  by (simp add: onumLeq_def)

lemma onumLess_asym: "onumLess a b \<Longrightarrow> \<not> onumLess b a"
  by (auto simp: onumLess_def split: option.splits)

fun onumTruthy :: "onum \<Rightarrow> bool" where
  "onumTruthy (NVal n) = (n \<noteq> 0)"
| "onumTruthy _ = False"

text \<open>\<open>x ?? d\<close>\<close>

fun onumOr :: "onum \<Rightarrow> onum \<Rightarrow> onum" where
  "onumOr NUndef d = d"
| "onumOr NNull d = d"
| "onumOr n d = n"

end
