(* ===== verification/JsValue.thy ===== *)
theory JsValue
  imports Prelude
begin

text \<open>
  The dynamically typed values the code passes around: commit payloads, stream content and
  stream metadata are typed \<open>any\<close> in the source and are inspected with property access,
  truthiness, optional chaining and object spread. An object is its own enumerable
  properties, in insertion order; inherited properties of \<open>Object.prototype\<close> are not
  modelled. A CID is identified with its binary form (\<open>CID.equals\<close> holds exactly when the
  bytes agree).
\<close>

section \<open>Identifiers\<close>

datatype cid = CID (cid_bytes: "byte list")

datatype stream_id = StreamID (sid_type: nat) (sid_cid: cid)

section \<open>Errors\<close>

text \<open>
  \<open>TypeErr\<close> is the TypeError of reading a property of \<open>undefined\<close> or \<open>null\<close>; \<open>Err\<close> carries
  the (static part of the) message of a thrown \<open>Error\<close>; \<open>AggErr\<close> is an AggregateError.
  \<open>Diverged\<close> is no exception: it is the outcome of a loop that ran out of the fuel the model gives
  it, and nothing catches it.
\<close>

datatype js_error = TypeErr | Err string | AggErr string "js_error list" | Diverged

section \<open>Values\<close>

datatype js =
    Undef | Null | Bool bool | Num rat | Str string | Bytes "byte list"
  | CidV cid | SidV stream_id | Arr "js list" | Obj "(string \<times> js) list"

fun jsTruthy :: "js \<Rightarrow> bool" where
  "jsTruthy Undef = False"
| "jsTruthy Null = False"
| "jsTruthy (Bool b) = b"
| "jsTruthy (Num n) = (n \<noteq> 0)"
| "jsTruthy (Str s) = (s \<noteq> [])"
| "jsTruthy _ = True"

fun jsNullish :: "js \<Rightarrow> bool" where
  "jsNullish Undef = True"
| "jsNullish Null = True"
| "jsNullish _ = False"

lemma jsTruthy_not_nullish: "jsTruthy v \<Longrightarrow> \<not> jsNullish v"
  by (cases v) auto

fun lookupField :: "(string \<times> js) list \<Rightarrow> string \<Rightarrow> js" where
  "lookupField fs k = (case map_of fs k of None \<Rightarrow> Undef | Some v \<Rightarrow> v)"

text \<open>\<open>v.k\<close>\<close>

fun jsGet :: "js \<Rightarrow> string \<Rightarrow> js_error + js" where
  "jsGet Undef k = Inl TypeErr"
| "jsGet Null k = Inl TypeErr"
| "jsGet (Obj fs) k = Inr (lookupField fs k)"
| "jsGet (Arr xs) k = Inr (if k = ''length'' then Num (of_nat (length xs)) else Undef)"
| "jsGet (Str s) k = Inr (if k = ''length'' then Num (of_nat (length s)) else Undef)"
| "jsGet (Bytes bs) k = Inr (if k = ''length'' then Num (of_nat (length bs)) else Undef)"
| "jsGet _ k = Inr Undef"

text \<open>\<open>v?.k\<close>\<close>

definition jsGetOpt :: "js \<Rightarrow> string \<Rightarrow> js" where
  "jsGetOpt v k = (if jsNullish v then Undef else case jsGet v k of Inl _ \<Rightarrow> Undef | Inr w \<Rightarrow> w)"

text \<open>\<open>v[i]\<close> for a number \<open>i\<close>\<close>

fun jsIndex :: "js \<Rightarrow> nat \<Rightarrow> js_error + js" where
  "jsIndex Undef i = Inl TypeErr"
| "jsIndex Null i = Inl TypeErr"
| "jsIndex (Arr xs) i = Inr (if i < length xs then xs ! i else Undef)"
| "jsIndex (Str s) i = Inr (if i < length s then Str [s ! i] else Undef)"
| "jsIndex (Bytes bs) i = Inr (if i < length bs then Num (of_nat (unat (bs ! i))) else Undef)"
| "jsIndex _ i = Inr Undef"

text \<open>\<open>o[k] = v\<close> on the properties of an object\<close>

fun setField :: "(string \<times> js) list \<Rightarrow> string \<Rightarrow> js \<Rightarrow> (string \<times> js) list" where
  "setField [] k v = [(k, v)]"
| "setField ((l, w) # fs) k v = (if l = k then (k, v) # fs else (l, w) # setField fs k v)"

fun jsFields :: "js \<Rightarrow> (string \<times> js) list" where
  "jsFields (Obj fs) = fs"
| "jsFields (Arr xs) = zip (map natStr [0..<length xs]) xs"
| "jsFields (Str s) = zip (map natStr [0..<length s]) (map (\<lambda>c. Str [c]) s)"
| "jsFields _ = []"

definition jsKeys :: "js \<Rightarrow> string list" where
  "jsKeys v = map fst (jsFields v)"

text \<open>\<open>{...a, ...b}\<close>: the properties of \<open>b\<close> are assigned over those of \<open>a\<close>\<close>

definition jsSpread :: "js \<Rightarrow> js \<Rightarrow> js" where
  "jsSpread a b = Obj (foldl (\<lambda>fs (k, v). setField fs k v) (foldl (\<lambda>fs (k, v). setField fs k v) []
     (jsFields a)) (jsFields b))"

definition jsSetProp :: "js \<Rightarrow> string \<Rightarrow> js \<Rightarrow> js" where
  "jsSetProp o1 k v = (case o1 of Obj fs \<Rightarrow> Obj (setField fs k v) | _ \<Rightarrow> o1)"

lemma map_of_setField: "map_of (setField fs k v) = (map_of fs)(k \<mapsto> v)"
  by (induction fs k v rule: setField.induct) auto

lemma lookupField_setField [simp]:
  "lookupField (setField fs k v) l = (if l = k then v else lookupField fs l)"
  by (simp add: map_of_setField)

lemma map_of_foldl_setField:
  "map_of (foldl (\<lambda>fs (k, v). setField fs k v) fs gs) = map_of fs ++ map_of (rev gs)"
  by (induction gs arbitrary: fs) (auto simp: map_of_setField map_add_def fun_eq_iff split: option.splits)

lemma setField_keys: "distinct (map fst fs) \<Longrightarrow> distinct (map fst (setField fs k v))"
proof (induction fs k v rule: setField.induct)
  case (2 l w fs k v)
  have "fst ` set (setField fs k v) = insert k (fst ` set fs)" for fs k v
    by (induction fs k v rule: setField.induct) auto
  with 2 show ?case by auto
qed simp

text \<open>
  \<open>String(v)\<close> for the primitive values that occur as content fields. The rendering of
  numbers that are not natural numbers is left to the parameter \<open>fmt\<close>.
\<close>

fun jsString :: "(js \<Rightarrow> string) \<Rightarrow> js \<Rightarrow> string" where
  "jsString fmt (Str s) = s"
| "jsString fmt (Bool True) = ''true''"
| "jsString fmt (Bool False) = ''false''"
| "jsString fmt Null = ''null''"
| "jsString fmt Undef = ''undefined''"
| "jsString fmt (Num n) =
     (if n = of_nat (nat \<lfloor>n\<rfloor>) then natStr (nat \<lfloor>n\<rfloor>) else fmt (Num n))"
| "jsString fmt v = fmt v"

text \<open>\<open>typeof v == 'string' && v.startsWith('did:')\<close>, \<open>StreamUtils.validDIDString\<close>\<close>

definition validDIDString :: "js \<Rightarrow> bool" where
  "validDIDString did = (case did of Str s \<Rightarrow> startsWith s ''did:'' | _ \<Rightarrow> False)"

text \<open>
  \<open>a === b\<close> on values that come from different documents: primitive values are compared by
  value; objects, arrays and buffers are different references.
\<close>

fun jsStrictEq :: "js \<Rightarrow> js \<Rightarrow> bool" where
  "jsStrictEq Undef v = (v = Undef)"
| "jsStrictEq Null v = (v = Null)"
| "jsStrictEq (Bool b) v = (v = Bool b)"
| "jsStrictEq (Num n) v = (v = Num n)"
| "jsStrictEq (Str s) v = (v = Str s)"
| "jsStrictEq _ v = False"

lemma jsStrictEq_eq: "jsStrictEq a b \<Longrightarrow> a = b"
  by (cases a) auto

lemma jsStrictEq_Num [simp]: "jsStrictEq a (Num n) \<longleftrightarrow> a = Num n"
  by (cases a) auto

lemma jsStrictEq_Str [simp]: "jsStrictEq a (Str s) \<longleftrightarrow> a = Str s"
  by (cases a) auto

lemma jsStrictEq_Bool [simp]: "jsStrictEq a (Bool s) \<longleftrightarrow> a = Bool s"
  by (cases a) auto

text \<open>
  \<open>arr.includes(v)\<close>; on a string it searches for a substring, which the modelled code
  never does. A value without the method raises a TypeError.
\<close>

fun jsIncludes :: "js \<Rightarrow> js \<Rightarrow> js_error + bool" where
  "jsIncludes (Arr xs) v = Inr (\<exists>x \<in> set xs. jsStrictEq x v)"
| "jsIncludes _ v = Inl TypeErr"

text \<open>Iterating with \<open>for (const x of v)\<close> or \<open>v.map\<close>: anything but an array is a TypeError.\<close>

fun jsArray :: "js \<Rightarrow> js_error + js list" where
  "jsArray (Arr xs) = Inr xs"
| "jsArray _ = Inl TypeErr"

text \<open>\<open>v?.[i]\<close>\<close>

definition jsIndexOpt :: "js \<Rightarrow> nat \<Rightarrow> js" where
  "jsIndexOpt v i = (if jsNullish v then Undef else case jsIndex v i of Inl _ \<Rightarrow> Undef | Inr w \<Rightarrow> w)"

text \<open>The elements reached by indexing from 0 up to \<open>v.length\<close>.\<close>

fun jsElems :: "js \<Rightarrow> js_error + js list" where
  "jsElems Undef = Inl TypeErr"
| "jsElems Null = Inl TypeErr"
| "jsElems (Arr xs) = Inr xs"
| "jsElems (Str s) = Inr (map (\<lambda>c. Str [c]) s)"
| "jsElems _ = Inr []"

text \<open>\<open>a || b\<close>\<close>

definition jsOr :: "js \<Rightarrow> js \<Rightarrow> js" where
  "jsOr a b = (if jsTruthy a then a else b)"

text \<open>\<open>a ?? b\<close>\<close>

definition jsNullishOr :: "js \<Rightarrow> js \<Rightarrow> js" where
  "jsNullishOr a b = (if jsNullish a then b else a)"

section \<open>Relational operators\<close>

text \<open>
  The numeric value an operand of \<open><\<close> is converted to; \<open>None\<close> is NaN. Of the strings, the empty
  one and the decimal naturals are converted.
\<close>

fun jsToNum :: "js \<Rightarrow> rat option" where
  "jsToNum (Num n) = Some n"
| "jsToNum Null = Some 0"
| "jsToNum (Bool b) = Some (if b then 1 else 0)"
| "jsToNum (Str s) = (if \<forall>c \<in> set s. 48 \<le> (of_char c :: nat) \<and> (of_char c :: nat) \<le> 57
     then Some (of_nat (strNat s)) else None)"
| "jsToNum _ = None"

definition jsLess :: "js \<Rightarrow> js \<Rightarrow> bool" where
  "jsLess a b = (case (a, b) of (Str s, Str t) \<Rightarrow> strLess s t
     | _ \<Rightarrow> (case (jsToNum a, jsToNum b) of (Some x, Some y) \<Rightarrow> x < y | _ \<Rightarrow> False))"

definition jsLeq :: "js \<Rightarrow> js \<Rightarrow> bool" where
  "jsLeq a b = (case (a, b) of (Str s, Str t) \<Rightarrow> \<not> strLess t s
     | _ \<Rightarrow> (case (jsToNum a, jsToNum b) of (Some x, Some y) \<Rightarrow> x \<le> y | _ \<Rightarrow> False))"

lemma jsLess_Num [simp]: "jsLess (Num x) (Num y) \<longleftrightarrow> x < y"
  by (simp add: jsLess_def)

lemma jsLeq_Num [simp]: "jsLeq (Num x) (Num y) \<longleftrightarrow> x \<le> y"
  by (simp add: jsLeq_def)

end
