(* ===== verification/StreamIds.thy ===== *)
theory StreamIds
  imports JsValue
begin

text \<open>
  The package \<open>streamid\<close>: StreamIDs and CommitIDs, their binary and textual encodings and the
  parsers for both (\<open>stream-id.ts\<close>, \<open>commit-id.ts\<close>, \<open>stream-ref.ts\<close>,
  \<open>stream-ref-parsing.ts\<close>, \<open>reading-bytes.ts\<close>, \<open>stream-type.ts\<close>). The third-party codecs
  (\<open>varint\<close>, \<open>multiformats\<close>) are the fields of the record \<open>codec_lib\<close>; what the code relies on is
  the predicate \<open>codec_lib_ok\<close>.
\<close>

section \<open>The codecs the package calls\<close>

text \<open>
  A decoded multihash is identified with its bytes. \<open>varintDecode\<close> returns the value and the
  number of bytes read (\<open>varint.decode.bytes\<close>).
\<close>

record codec_lib =
  varintEncode :: "nat \<Rightarrow> byte list"
  varintDecode :: "byte list \<Rightarrow> js_error + (nat \<times> nat)"
  decodeMultiHash :: "byte list \<Rightarrow> js_error + byte list"
  cidCreate :: "nat \<Rightarrow> nat \<Rightarrow> byte list \<Rightarrow> js_error + cid"
  cidParse :: "string \<Rightarrow> js_error + cid"
  cidToString :: "cid \<Rightarrow> string"
  base36Encode :: "byte list \<Rightarrow> string"
  base36Decode :: "string \<Rightarrow> js_error + byte list"

definition maxSafe :: nat where
  "maxSafe = 2 ^ 53"

definition isAlnum :: "char \<Rightarrow> bool" where
  "isAlnum c = (let n = (of_char c :: nat) in
     (97 \<le> n \<and> n \<le> 122) \<or> (65 \<le> n \<and> n \<le> 90) \<or> (48 \<le> n \<and> n \<le> 57))"

lemma isAlnum_literals [simp]:
  "\<not> isAlnum CHR '':''" "\<not> isAlnum CHR ''/''" "\<not> isAlnum CHR ''?''" "isAlnum CHR ''0''"
  "isAlnum CHR ''k''" "isAlnum CHR ''b''"
  by (simp_all add: isAlnum_def)

text \<open>The documented behaviour of the codecs on the values the package produces.\<close>

definition multihashBytes :: "codec_lib \<Rightarrow> nat \<Rightarrow> byte list \<Rightarrow> byte list" where
  "multihashBytes lib mhc d = varintEncode lib mhc @ varintEncode lib (length d) @ d"

definition codec_lib_ok :: "codec_lib \<Rightarrow> bool" where
  "codec_lib_ok lib \<longleftrightarrow>
     (\<forall>n rest. n < maxSafe \<longrightarrow>
        varintDecode lib (varintEncode lib n @ rest) = Inr (n, length (varintEncode lib n))) \<and>
     (\<forall>n. varintEncode lib n \<noteq> []) \<and>
     (\<forall>c d. c < maxSafe \<longrightarrow> length d < maxSafe \<longrightarrow>
        decodeMultiHash lib (multihashBytes lib c d) = Inr (multihashBytes lib c d)) \<and>
     (\<forall>code mh. code < maxSafe \<longrightarrow>
        cidCreate lib 1 code mh = Inr (CID (varintEncode lib 1 @ varintEncode lib code @ mh))) \<and>
     (\<forall>bs. base36Decode lib (base36Encode lib bs) = Inr bs) \<and>
     (\<forall>bs. base36Encode lib bs \<noteq> [] \<and> (\<forall>c \<in> set (base36Encode lib bs). isAlnum c)) \<and>
     (\<forall>c. cidParse lib (cidToString lib c) = Inr c) \<and>
     (\<forall>c. cidToString lib c \<notin> {[], ''0''} \<and> (\<forall>x \<in> set (cidToString lib c). isAlnum x))"

text \<open>A version 1 CID: the version, the codec and a multihash, each length-prefixed.\<close>

definition isCidV1 :: "codec_lib \<Rightarrow> cid \<Rightarrow> bool" where
  "isCidV1 lib c \<longleftrightarrow> (\<exists>code mhc d. code < maxSafe \<and> mhc < maxSafe \<and> length d < maxSafe \<and>
     cid_bytes c = varintEncode lib 1 @ varintEncode lib code @ multihashBytes lib mhc d)"

section \<open>Stream types\<close>

definition registry :: "(string \<times> nat) list" where
  "registry = [(''tile'', 0), (''caip10-link'', 1), (''model'', 2), (''MID'', 3), (''UNLOADABLE'', 4)]"

definition codeByName :: "string \<Rightarrow> js_error + nat" where
  "codeByName name = (case map_of registry name of
     Some index \<Rightarrow> Inr index
   | None \<Rightarrow> Inl (Err ''No stream type registered for name''))"

definition nameByCode :: "nat \<Rightarrow> js_error + string" where
  "nameByCode index = (case find (\<lambda>(_, v). v = index) registry of
     Some pair \<Rightarrow> Inr (fst pair)
   | None \<Rightarrow> Inl (Err ''No stream type registered for index''))"

section \<open>Reading bytes\<close>

definition readVarint :: "codec_lib \<Rightarrow> byte list \<Rightarrow> js_error + (nat \<times> byte list \<times> nat)" where
  "readVarint lib bytes = bindR (varintDecode lib bytes) (\<lambda>(value, readLength).
     Inr (value, drop readLength bytes, readLength))"

definition isCidVersion :: "nat \<Rightarrow> bool" where
  "isCidVersion input \<longleftrightarrow> input = 0 \<or> input = 1"

definition readCid :: "codec_lib \<Rightarrow> byte list \<Rightarrow> js_error + (cid \<times> byte list)" where
  "readCid lib bytes =
     bindR (readVarint lib bytes) (\<lambda>(cidVersion, cidVersionRemainder, _).
     bindR (throwIf (\<not> isCidVersion cidVersion) (Err ''Unknown CID version'')) (\<lambda>_.
     bindR (readVarint lib cidVersionRemainder) (\<lambda>(codec, codecRemainder, _).
     bindR (readVarint lib codecRemainder) (\<lambda>(_, mhCodecRemainder, mhCodecLength).
     bindR (readVarint lib mhCodecRemainder) (\<lambda>(mhLength, _, mhLengthLength).
     let n = mhCodecLength + mhLengthLength + mhLength;
         mhBytes = take n codecRemainder;
         mhBytesRemainder = drop n codecRemainder
     in bindR (decodeMultiHash lib mhBytes) (\<lambda>mh.
        bindR (cidCreate lib cidVersion codec mh) (\<lambda>c. Inr (c, mhBytesRemainder))))))))"

section \<open>Parsing stream references\<close>

datatype components =
    StreamIDComponents nat cid
  | CommitIDComponents nat cid "cid option"

fun comp_type :: "components \<Rightarrow> nat" where
  "comp_type (StreamIDComponents t g) = t"
| "comp_type (CommitIDComponents t g c) = t"

fun comp_genesis :: "components \<Rightarrow> cid" where
  "comp_genesis (StreamIDComponents t g) = g"
| "comp_genesis (CommitIDComponents t g c) = g"

definition STREAMID_CODEC :: nat where
  "STREAMID_CODEC = 206"

definition parseBytes :: "codec_lib \<Rightarrow> byte list \<Rightarrow> string \<Rightarrow> js_error + components" where
  "parseBytes lib input title =
     bindR (readVarint lib input) (\<lambda>(streamCodec, streamCodecRemainder, _).
     bindR (throwIf (streamCodec \<noteq> STREAMID_CODEC)
              (Err (''Invalid '' @ title @ '', does not include streamid codec''))) (\<lambda>_.
     bindR (readVarint lib streamCodecRemainder) (\<lambda>(type, streamtypeRemainder, _).
     bindR (readCid lib streamtypeRemainder) (\<lambda>(genesis, genesisRemainder).
     if length genesisRemainder = 0 then Inr (StreamIDComponents type genesis)
     else if length genesisRemainder = 1 \<and> genesisRemainder ! 0 = 0
     then Inr (CommitIDComponents type genesis None)
     else bindR (readCid lib genesisRemainder) (\<lambda>(commit, _).
            Inr (CommitIDComponents type genesis (Some commit)))))))"

text \<open>
  \<open>URL_PATTERN\<close>: an optional \<open>ceramic://\<close> or \<open>/ceramic/\<close>, a run of alphanumerics, and an
  optional \<open>?commit=\<close> with another run. The expression is not anchored: \<open>exec\<close> tries every
  position from the left.
\<close>

fun alnumRun :: "string \<Rightarrow> string \<times> string" where
  "alnumRun [] = ([], [])"
| "alnumRun (c # s) = (if isAlnum c then let (r, t) = alnumRun s in (c # r, t) else ([], c # s))"

definition commitGroup :: "string \<Rightarrow> string option" where
  "commitGroup s = (if startsWith s ''?commit=''
     then let (r, _) = alnumRun (drop 8 s) in if r = [] then None else Some r else None)"

definition baseGroup :: "string \<Rightarrow> (string \<times> string option) option" where
  "baseGroup s = (let (r, t) = alnumRun s in if r = [] then None else Some (r, commitGroup t))"

definition matchAt :: "string \<Rightarrow> (string \<times> string option) option" where
  "matchAt s =
     (case (if startsWith s ''ceramic://'' then baseGroup (drop 10 s)
            else if startsWith s ''/ceramic/'' then baseGroup (drop 9 s) else None) of
        Some m \<Rightarrow> Some m
      | None \<Rightarrow> baseGroup s)"

fun urlExec :: "string \<Rightarrow> (string \<times> string option) option" where
  "urlExec [] = matchAt []"
| "urlExec (c # s) = (case matchAt (c # s) of Some m \<Rightarrow> Some m | None \<Rightarrow> urlExec s)"

text \<open>A commit argument: \<open>null\<close>, a number, a string or a CID.\<close>

datatype commit_arg = NoCommit | CommitNum rat | CommitStr string | CommitCid cid

fun parseCID :: "codec_lib \<Rightarrow> commit_arg \<Rightarrow> cid option" where
  "parseCID lib (CommitStr s) = (case cidParse lib s of Inl _ \<Rightarrow> None | Inr c \<Rightarrow> Some c)"
| "parseCID lib (CommitCid c) = Some c"
| "parseCID lib _ = None"

fun commitArgFalsy :: "commit_arg \<Rightarrow> bool" where
  "commitArgFalsy NoCommit = True"
| "commitArgFalsy (CommitNum n) = (n = 0)"
| "commitArgFalsy (CommitStr s) = (s = [])"
| "commitArgFalsy (CommitCid c) = False"

definition parseCommit :: "codec_lib \<Rightarrow> cid \<Rightarrow> commit_arg \<Rightarrow> js_error + cid option" where
  "parseCommit lib genesis commit =
     (if commitArgFalsy commit then Inr None
      else if commit = CommitStr ''0'' then Inr None
      else case parseCID lib commit of
        Some commitCID \<Rightarrow> if genesis = commitCID then Inr None else Inr (Some commitCID)
      | None \<Rightarrow> Inl (Err ''Cannot specify commit as a number except to request commit 0 (the genesis commit)''))"

definition parseString :: "codec_lib \<Rightarrow> string \<Rightarrow> string \<Rightarrow> js_error + components" where
  "parseString lib input title =
     (case urlExec input of
        None \<Rightarrow> Inl (Err (''Malformed '' @ title @ '' string''))
      | Some (base, commit) \<Rightarrow>
          bindR (base36Decode lib base) (\<lambda>bytes.
          bindR (parseBytes lib bytes ''StreamRef'') (\<lambda>streamRef.
          case commit of
            Some c \<Rightarrow> bindR (parseCommit lib (comp_genesis streamRef) (CommitStr c)) (\<lambda>pc.
              Inr (CommitIDComponents (comp_type streamRef) (comp_genesis streamRef) pc))
          | None \<Rightarrow> Inr streamRef)))"

section \<open>StreamID\<close>

datatype type_arg = TypeName string | TypeCode nat

datatype cid_arg = CidObj cid | CidString string

fun resolveType :: "type_arg \<Rightarrow> js_error + nat" where
  "resolveType (TypeName n) = codeByName n"
| "resolveType (TypeCode c) = Inr c"

fun resolveCid :: "codec_lib \<Rightarrow> cid_arg \<Rightarrow> js_error + cid" where
  "resolveCid lib (CidObj c) = Inr c"
| "resolveCid lib (CidString s) = cidParse lib s"

definition newStreamID :: "codec_lib \<Rightarrow> type_arg \<Rightarrow> cid_arg \<Rightarrow> js_error + stream_id" where
  "newStreamID lib type c =
     bindR (throwIf (type = TypeName []) (Err ''StreamID constructor: type required'')) (\<lambda>_.
     bindR (throwIf (c = CidString []) (Err ''StreamID constructor: cid required'')) (\<lambda>_.
     bindR (resolveType type) (\<lambda>t.
     bindR (resolveCid lib c) (\<lambda>g. Inr (StreamID t g)))))"

definition streamIDBytes :: "codec_lib \<Rightarrow> stream_id \<Rightarrow> byte list" where
  "streamIDBytes lib sid =
     varintEncode lib STREAMID_CODEC @ varintEncode lib (sid_type sid) @ cid_bytes (sid_cid sid)"

definition streamIDToString :: "codec_lib \<Rightarrow> stream_id \<Rightarrow> string" where
  "streamIDToString lib sid = base36Encode lib (streamIDBytes lib sid)"

definition streamIDToUrl :: "codec_lib \<Rightarrow> stream_id \<Rightarrow> string" where
  "streamIDToUrl lib sid = ''ceramic://'' @ streamIDToString lib sid"

definition streamIDEquals :: "stream_id \<Rightarrow> stream_id \<Rightarrow> bool" where
  "streamIDEquals a b \<longleftrightarrow> sid_type a = sid_type b \<and> sid_cid a = sid_cid b"

definition streamIDFromBytes :: "codec_lib \<Rightarrow> byte list \<Rightarrow> js_error + stream_id" where
  "streamIDFromBytes lib bytes = bindR (parseBytes lib bytes ''StreamID'') (\<lambda>parsed.
     case parsed of
       StreamIDComponents type genesis \<Rightarrow> newStreamID lib (TypeCode type) (CidObj genesis)
     | CommitIDComponents _ _ _ \<Rightarrow> Inl (Err ''Invalid StreamID bytes: contains commit''))"

definition streamIDFromString :: "codec_lib \<Rightarrow> string \<Rightarrow> js_error + stream_id" where
  "streamIDFromString lib input = bindR (parseString lib input ''StreamID'') (\<lambda>parsed.
     case parsed of
       StreamIDComponents type genesis \<Rightarrow> newStreamID lib (TypeCode type) (CidObj genesis)
     | CommitIDComponents _ _ _ \<Rightarrow> Inl (Err ''Invalid StreamID string: contains commit''))"

section \<open>CommitID\<close>

datatype commit_id = CommitID (com_type: nat) (com_cid: cid) (com_commit: "cid option")

definition newCommitID ::
  "codec_lib \<Rightarrow> type_arg \<Rightarrow> cid_arg \<Rightarrow> commit_arg \<Rightarrow> js_error + commit_id" where
  "newCommitID lib type c commit =
     bindR (throwIf (type = TypeName []) (Err ''constructor: type required'')) (\<lambda>_.
     bindR (throwIf (c = CidString []) (Err ''constructor: cid required'')) (\<lambda>_.
     bindR (resolveType type) (\<lambda>t.
     bindR (resolveCid lib c) (\<lambda>g.
     bindR (parseCommit lib g commit) (\<lambda>pc. Inr (CommitID t g pc))))))"

definition makeCommitID :: "codec_lib \<Rightarrow> stream_id \<Rightarrow> commit_arg \<Rightarrow> js_error + commit_id" where
  "makeCommitID lib stream commit =
     newCommitID lib (TypeCode (sid_type stream)) (CidObj (sid_cid stream)) commit"

definition commitIDBase :: "commit_id \<Rightarrow> stream_id" where
  "commitIDBase c = StreamID (com_type c) (com_cid c)"

definition commitIDCommit :: "commit_id \<Rightarrow> cid" where
  "commitIDCommit c = (case com_commit c of Some x \<Rightarrow> x | None \<Rightarrow> com_cid c)"

definition commitIDBytes :: "codec_lib \<Rightarrow> commit_id \<Rightarrow> byte list" where
  "commitIDBytes lib c =
     varintEncode lib STREAMID_CODEC @ varintEncode lib (com_type c) @ cid_bytes (com_cid c) @
     (case com_commit c of Some x \<Rightarrow> cid_bytes x | None \<Rightarrow> [0])"

definition commitIDToString :: "codec_lib \<Rightarrow> commit_id \<Rightarrow> string" where
  "commitIDToString lib c = base36Encode lib (commitIDBytes lib c)"

definition commitIDToUrl :: "codec_lib \<Rightarrow> commit_id \<Rightarrow> string" where
  "commitIDToUrl lib c = ''ceramic://'' @ commitIDToString lib c"

definition commitIDEquals :: "commit_id \<Rightarrow> commit_id \<Rightarrow> bool" where
  "commitIDEquals a b \<longleftrightarrow> com_type a = com_type b \<and> com_cid a = com_cid b \<and>
     commitIDCommit a = commitIDCommit b"

fun optionArg :: "cid option \<Rightarrow> commit_arg" where
  "optionArg None = NoCommit"
| "optionArg (Some c) = CommitCid c"

definition commitIDFromBytes :: "codec_lib \<Rightarrow> byte list \<Rightarrow> js_error + commit_id" where
  "commitIDFromBytes lib bytes = bindR (parseBytes lib bytes ''CommitID'') (\<lambda>parsed.
     case parsed of
       CommitIDComponents type genesis commit \<Rightarrow>
         newCommitID lib (TypeCode type) (CidObj genesis) (optionArg commit)
     | StreamIDComponents _ _ \<Rightarrow>
         Inl (Err ''Error while parsing CommitID from bytes: no commit information provided''))"

definition commitIDFromString :: "codec_lib \<Rightarrow> string \<Rightarrow> js_error + commit_id" where
  "commitIDFromString lib input = bindR (parseString lib input ''CommitID'') (\<lambda>parsed.
     case parsed of
       CommitIDComponents type genesis commit \<Rightarrow>
         newCommitID lib (TypeCode type) (CidObj genesis) (optionArg commit)
     | StreamIDComponents _ _ \<Rightarrow>
         Inl (Err ''Error while parsing CommitID from string: no commit information provided''))"

section \<open>StreamRef\<close>

datatype stream_ref = RefStream stream_id | RefCommit commit_id

definition refOfComponents :: "codec_lib \<Rightarrow> components \<Rightarrow> js_error + stream_ref" where
  "refOfComponents lib parsed = (case parsed of
     CommitIDComponents type genesis commit \<Rightarrow>
       bindR (newCommitID lib (TypeCode type) (CidObj genesis) (optionArg commit)) (\<lambda>c. Inr (RefCommit c))
   | StreamIDComponents type genesis \<Rightarrow>
       bindR (newStreamID lib (TypeCode type) (CidObj genesis)) (\<lambda>s. Inr (RefStream s)))"

definition streamRefFromBytes :: "codec_lib \<Rightarrow> byte list \<Rightarrow> js_error + stream_ref" where
  "streamRefFromBytes lib input = bindR (parseBytes lib input ''StreamRef'') (refOfComponents lib)"

definition streamRefFromString :: "codec_lib \<Rightarrow> string \<Rightarrow> js_error + stream_ref" where
  "streamRefFromString lib input = bindR (parseString lib input ''StreamRef'') (refOfComponents lib)"

datatype ref_arg = ArgStream stream_id | ArgCommit commit_id | ArgBytes "byte list" | ArgString string
  | ArgOther

fun streamRefFrom :: "codec_lib \<Rightarrow> ref_arg \<Rightarrow> js_error + stream_ref" where
  "streamRefFrom lib (ArgStream s) = Inr (RefStream s)"
| "streamRefFrom lib (ArgCommit c) = Inr (RefCommit c)"
| "streamRefFrom lib (ArgBytes bs) = streamRefFromBytes lib bs"
| "streamRefFrom lib (ArgString s) = streamRefFromString lib s"
| "streamRefFrom lib ArgOther = Inl (Err ''Can not build CommitID or StreamID'')"

fun refType :: "stream_ref \<Rightarrow> nat" where
  "refType (RefStream s) = sid_type s"
| "refType (RefCommit c) = com_type c"

section \<open>Lemmas: reading what was written\<close>

lemma codec_lib_okD:
  assumes "codec_lib_ok lib"
  shows "n < maxSafe \<Longrightarrow> varintDecode lib (varintEncode lib n @ rest) = Inr (n, length (varintEncode lib n))"
    and "varintEncode lib n \<noteq> []"
    and "c < maxSafe \<Longrightarrow> length d < maxSafe \<Longrightarrow>
      decodeMultiHash lib (multihashBytes lib c d) = Inr (multihashBytes lib c d)"
    and "c < maxSafe \<Longrightarrow>
      cidCreate lib 1 c mh = Inr (CID (varintEncode lib 1 @ varintEncode lib c @ mh))"
    and "base36Decode lib (base36Encode lib bs) = Inr bs"
    and "base36Encode lib bs \<noteq> []"
    and "x \<in> set (base36Encode lib bs) \<Longrightarrow> isAlnum x"
    and "cidParse lib (cidToString lib g) = Inr g"
    and "cidToString lib g \<notin> {[], ''0''}"
    and "x \<in> set (cidToString lib g) \<Longrightarrow> isAlnum x"
  using assms unfolding codec_lib_ok_def by blast+

lemma readVarint_varintEncode:
  assumes "codec_lib_ok lib" and "n < maxSafe"
  shows "readVarint lib (varintEncode lib n @ rest) = Inr (n, rest, length (varintEncode lib n))"
  using codec_lib_okD(1) [OF assms] by (simp add: readVarint_def)

lemma maxSafe_small: "1 < maxSafe" "206 < maxSafe" "18 < maxSafe"
  by (simp_all add: maxSafe_def)

lemma readCid_cidV1:
  assumes ok: "codec_lib_ok lib" and v1: "isCidV1 lib c"
  shows "readCid lib (cid_bytes c @ rest) = Inr (c, rest)"
proof -
  from v1 obtain code mhc d where b: "code < maxSafe" "mhc < maxSafe" "length d < maxSafe"
    and eq: "cid_bytes c = varintEncode lib 1 @ varintEncode lib code @ multihashBytes lib mhc d"
    by (auto simp: isCidV1_def)
  have c: "c = CID (varintEncode lib 1 @ varintEncode lib code @ multihashBytes lib mhc d)"
    using eq by (metis cid.collapse)
  have len: "length (multihashBytes lib mhc d)
      = length (varintEncode lib mhc) + length (varintEncode lib (length d)) + length d"
    by (simp add: multihashBytes_def)
  have r: "readVarint lib (multihashBytes lib mhc d @ rest)
        = Inr (mhc, varintEncode lib (length d) @ d @ rest, length (varintEncode lib mhc))"
    using readVarint_varintEncode [OF ok b(2)] by (simp add: multihashBytes_def)
  show ?thesis
    unfolding readCid_def c
    by (simp add: readVarint_varintEncode [OF ok] b maxSafe_small r isCidVersion_def
        codec_lib_okD [OF ok] len [symmetric] del: One_nat_def)
qed

lemma cidV1_not_zero:
  assumes "codec_lib_ok lib" and "isCidV1 lib c"
  shows "length (cid_bytes c) \<ge> 2"
proof -
  have "Suc 0 \<le> length (varintEncode lib n)" for n
    using codec_lib_okD(2) [OF assms(1), of n] by (simp add: Suc_le_eq)
  note len = this
  from assms(2) obtain code mhc d where
    "cid_bytes c = varintEncode lib 1 @ varintEncode lib code @ multihashBytes lib mhc d"
    by (auto simp: isCidV1_def)
  then show ?thesis using len [of 1] len [of code] by simp
qed

lemma parseBytes_prefix:
  assumes ok: "codec_lib_ok lib" and "type < maxSafe" and "isCidV1 lib g"
  shows "parseBytes lib (varintEncode lib STREAMID_CODEC @ varintEncode lib type @ cid_bytes g @ rest) title =
    (if length rest = 0 then Inr (StreamIDComponents type g)
     else if length rest = 1 \<and> rest ! 0 = 0 then Inr (CommitIDComponents type g None)
     else bindR (readCid lib rest) (\<lambda>(commit, _). Inr (CommitIDComponents type g (Some commit))))"
  unfolding parseBytes_def
  by (simp add: readVarint_varintEncode [OF ok] assms readCid_cidV1 maxSafe_small STREAMID_CODEC_def)

lemma parseBytes_streamIDBytes:
  assumes "codec_lib_ok lib" and "sid_type sid < maxSafe" and "isCidV1 lib (sid_cid sid)"
  shows "parseBytes lib (streamIDBytes lib sid) title = Inr (StreamIDComponents (sid_type sid) (sid_cid sid))"
  using parseBytes_prefix [OF assms, of "[]"] by (simp add: streamIDBytes_def)

definition commitOk :: "codec_lib \<Rightarrow> commit_id \<Rightarrow> bool" where
  "commitOk lib c \<longleftrightarrow> com_type c < maxSafe \<and> isCidV1 lib (com_cid c) \<and>
     (\<forall>x. com_commit c = Some x \<longrightarrow> isCidV1 lib x \<and> x \<noteq> com_cid c)"

lemma parseBytes_commitIDBytes:
  assumes ok: "codec_lib_ok lib" and c: "commitOk lib c"
  shows "parseBytes lib (commitIDBytes lib c) title =
    Inr (CommitIDComponents (com_type c) (com_cid c) (com_commit c))"
proof (cases "com_commit c")
  case None
  with c show ?thesis
    using parseBytes_prefix [OF ok, of "com_type c" "com_cid c" "[0]"]
    by (simp add: commitIDBytes_def commitOk_def)
next
  case (Some x)
  with c have x: "isCidV1 lib x" by (simp add: commitOk_def)
  from cidV1_not_zero [OF ok x] have "length (cid_bytes x) \<noteq> 0" "length (cid_bytes x) \<noteq> 1" by auto
  with c Some x show ?thesis
    using parseBytes_prefix [OF ok, of "com_type c" "com_cid c" "cid_bytes x"]
      readCid_cidV1 [OF ok x, of "[]"]
    by (simp add: commitIDBytes_def commitOk_def)
qed

section \<open>Lemmas: matching URLs\<close>

lemma alnumRun_append:
  "\<forall>c \<in> set r. isAlnum c \<Longrightarrow> (t = [] \<or> \<not> isAlnum (hd t)) \<Longrightarrow> alnumRun (r @ t) = (r, t)"
proof (induction r)
  case Nil
  then show ?case by (cases t) auto
next
  case (Cons c r)
  then show ?case by simp
qed

lemma urlExec_matchAt: "matchAt s = Some m \<Longrightarrow> urlExec s = Some m"
  by (cases s) auto

lemma baseGroup_run:
  assumes "r \<noteq> []" and "\<forall>c \<in> set r. isAlnum c" and "t = [] \<or> \<not> isAlnum (hd t)"
  shows "baseGroup (r @ t) = Some (r, commitGroup t)"
  using assms alnumRun_append [OF assms(2,3)] by (simp add: baseGroup_def)

lemma commitGroup_empty [simp]: "commitGroup [] = None"
  by (simp add: commitGroup_def startsWith_def)

lemma commitGroup_commit:
  assumes "r \<noteq> []" and "\<forall>c \<in> set r. isAlnum c"
  shows "commitGroup (''?commit='' @ r) = Some r"
  using assms alnumRun_append [OF assms(2), of "[]"] by (simp add: commitGroup_def startsWith_def)

lemma startsWith_append [simp]: "startsWith (p @ s) p"
  by (simp add: startsWith_def)

text \<open>The head of an alphanumeric run rules out the slash; a whole run cannot contain a colon.\<close>

lemma urlExec_plain:
  assumes "r \<noteq> []" and al: "\<forall>c \<in> set r. isAlnum c"
  shows "urlExec r = Some (r, None)"
proof -
  have base: "baseGroup r = Some (r, None)"
    using baseGroup_run [OF assms, of "[]"] by simp
  have "\<not> startsWith r ''ceramic://''"
  proof
    assume "startsWith r ''ceramic://''"
    then have "take (length ''ceramic://'') r = ''ceramic://''" by (simp only: startsWith_def)
    then have "CHR '':'' \<in> set r" by (metis in_set_takeD list.set_intros)
    with al show False by auto
  qed
  moreover have "\<not> startsWith r ''/ceramic/''"
  proof
    assume "startsWith r ''/ceramic/''"
    then have "take (length ''/ceramic/'') r = ''/ceramic/''" by (simp only: startsWith_def)
    then have "CHR ''/'' \<in> set r" by (metis in_set_takeD list.set_intros(1))
    with al show False by auto
  qed
  ultimately show ?thesis
    using base by (intro urlExec_matchAt) (simp add: matchAt_def)
qed

lemma urlExec_url:
  assumes "r \<noteq> []" and "\<forall>c \<in> set r. isAlnum c" and "t = [] \<or> \<not> isAlnum (hd t)"
  shows "urlExec (''ceramic://'' @ r @ t) = Some (r, commitGroup t)"
proof (rule urlExec_matchAt)
  have "startsWith (''ceramic://'' @ r @ t) ''ceramic://''" by (rule startsWith_append)
  moreover have "drop 10 (''ceramic://'' @ r @ t) = r @ t" by (simp add: eval_nat_numeral)
  ultimately show "matchAt (''ceramic://'' @ r @ t) = Some (r, commitGroup t)"
    unfolding matchAt_def by (simp only: if_True baseGroup_run [OF assms] option.case)
qed

lemma parseString_plain:
  assumes ok: "codec_lib_ok lib" and "parseBytes lib bs ''StreamRef'' = Inr p"
  shows "parseString lib (base36Encode lib bs) title = Inr p"
    and "parseString lib (''ceramic://'' @ base36Encode lib bs) title = Inr p"
proof -
  have al: "base36Encode lib bs \<noteq> []" "\<forall>c \<in> set (base36Encode lib bs). isAlnum c"
    using codec_lib_okD(6,7) [OF ok] by auto
  show "parseString lib (base36Encode lib bs) title = Inr p"
    using assms(2) by (simp add: parseString_def urlExec_plain [OF al] codec_lib_okD [OF ok])
  show "parseString lib (''ceramic://'' @ base36Encode lib bs) title = Inr p"
    using assms(2) urlExec_url [OF al, of "[]"] by (simp add: parseString_def codec_lib_okD [OF ok])
qed

lemma newStreamID_code [simp]: "newStreamID lib (TypeCode t) (CidObj g) = Inr (StreamID t g)"
  by (simp add: newStreamID_def)

lemma newCommitID_normal:
  "(\<forall>x. c = Some x \<longrightarrow> x \<noteq> g) \<Longrightarrow>
    newCommitID lib (TypeCode t) (CidObj g) (optionArg c) = Inr (CommitID t g c)"
  by (cases c) (auto simp: newCommitID_def parseCommit_def)

section \<open>A concrete set of codecs\<close>

text \<open>
  LEB128 varints and a textual encoding with two letters per byte: an instance of
  \<open>codec_lib_ok\<close>, used to evaluate the parsers on concrete inputs.
\<close>

fun lebEncode :: "nat \<Rightarrow> byte list" where
  "lebEncode n = (if n < 128 then [of_nat n] else of_nat (n mod 128 + 128) # lebEncode (n div 128))"

declare lebEncode.simps [simp del]

fun lebDecode :: "byte list \<Rightarrow> js_error + (nat \<times> nat)" where
  "lebDecode [] = Inl (Err ''Could not decode varint'')"
| "lebDecode (b # bs) = (if unat b < 128 then Inr (unat b, 1)
     else bindR (lebDecode bs) (\<lambda>(v, k). Inr (unat b - 128 + 128 * v, k + 1)))"

definition nibbleChar :: "nat \<Rightarrow> char" where
  "nibbleChar n = char_of (97 + n)"

fun letters :: "byte list \<Rightarrow> string" where
  "letters [] = []"
| "letters (b # bs) = nibbleChar (unat b div 16) # nibbleChar (unat b mod 16) # letters bs"

fun unletters :: "string \<Rightarrow> js_error + byte list" where
  "unletters [] = Inr []"
| "unletters [c] = Inl (Err ''Non-base36 character'')"
| "unletters (c # d # cs) = bindR (unletters cs) (\<lambda>bs.
     Inr (of_nat (16 * (of_char c - 97) + (of_char d - 97)) # bs))"

definition sampleLib :: codec_lib where
  "sampleLib = \<lparr> varintEncode = lebEncode, varintDecode = lebDecode, decodeMultiHash = Inr,
     cidCreate = (\<lambda>v code mh. Inr (CID (lebEncode v @ lebEncode code @ mh))),
     cidParse = (\<lambda>s. bindR (unletters (tl s)) (\<lambda>bs. Inr (CID bs))),
     cidToString = (\<lambda>c. CHR ''b'' # letters (cid_bytes c)),
     base36Encode = (\<lambda>bs. CHR ''k'' # letters bs), base36Decode = (\<lambda>s. unletters (tl s)) \<rparr>"

lemma lebDecode_lebEncode: "lebDecode (lebEncode n @ rest) = Inr (n, length (lebEncode n))"
proof (induction n rule: lebEncode.induct)
  case (1 n)
  show ?case
  proof (cases "n < 128")
    case True
    then show ?thesis by (simp add: lebEncode.simps [of n] unat_of_nat)
  next
    case False
    have "unat (of_nat (n mod 128 + 128) :: byte) = n mod 128 + 128"
      by (simp only: unat_of_nat) simp
    with False 1 show ?thesis
      by (simp add: lebEncode.simps [of n] del: of_nat_add)
  qed
qed

lemma of_char_nibbleChar: "n < 16 \<Longrightarrow> of_char (nibbleChar n) = 97 + n"
  by (simp add: nibbleChar_def of_char_of)

lemma unat_byte_less: "unat (b :: byte) < 256"
  using unsigned_less [of b] by simp

lemma unletters_letters: "unletters (letters bs) = Inr bs"
proof (induction bs)
  case (Cons b bs)
  have "unat b div 16 < 16" "unat b mod 16 < 16" using unat_byte_less [of b] by auto
  with Cons show ?case by (simp add: of_char_nibbleChar)
qed simp

lemma letters_alnum: "x \<in> set (letters bs) \<Longrightarrow> isAlnum x"
proof (induction bs)
  case (Cons b bs)
  have "unat b div 16 < 16" "unat b mod 16 < 16" using unat_byte_less [of b] by auto
  with Cons show ?case by (auto simp: of_char_nibbleChar isAlnum_def)
qed simp

lemma lebEncode_nonempty [simp]: "lebEncode n \<noteq> []"
  by (subst lebEncode.simps) simp

lemma sampleLib_ok: "codec_lib_ok sampleLib"
  unfolding codec_lib_ok_def
  by (auto simp: sampleLib_def lebDecode_lebEncode unletters_letters letters_alnum)

definition sampleCid :: "byte list \<Rightarrow> cid" where
  "sampleCid d = CID (lebEncode 1 @ lebEncode 113 @ multihashBytes sampleLib 18 d)"

lemma sampleCid_v1: "length d < maxSafe \<Longrightarrow> isCidV1 sampleLib (sampleCid d)"
  unfolding isCidV1_def
  by (rule exI [of _ 113], rule exI [of _ 18], rule exI [of _ d])
    (simp add: sampleCid_def maxSafe_def sampleLib_def)

lemma streamIDFromString_toString:
  assumes "codec_lib_ok lib" and "sid_type sid < maxSafe" and "isCidV1 lib (sid_cid sid)"
  shows "streamIDFromString lib (streamIDToString lib sid) = Inr sid"
  using parseString_plain [OF assms(1) parseBytes_streamIDBytes [OF assms]]
  by (simp add: streamIDFromString_def streamIDToString_def)

section \<open>Properties\<close>

text \<open>
  C22: A StreamID over a version 1 CID survives every encoding the package offers: parsing its
  bytes, its base36 string or its \<open>ceramic://\<close> URL gives back the same StreamID.
\<close>

theorem streamID_roundtrip:
  assumes "codec_lib_ok lib" and "sid_type sid < maxSafe" and "isCidV1 lib (sid_cid sid)"
  shows "streamIDFromBytes lib (streamIDBytes lib sid) = Inr sid
    \<and> streamIDFromString lib (streamIDToString lib sid) = Inr sid
    \<and> streamIDFromString lib (streamIDToUrl lib sid) = Inr sid"
proof -
  note p = parseBytes_streamIDBytes [OF assms]
  show ?thesis
    using parseString_plain [OF assms(1) p]
    by (simp add: streamIDFromBytes_def streamIDFromString_def streamIDToString_def
        streamIDToUrl_def p)
qed

theorem streamID_roundtrip_witness:
  "streamIDFromBytes sampleLib (streamIDBytes sampleLib (StreamID 2 (sampleCid [7, 255])))
     = Inr (StreamID 2 (sampleCid [7, 255]))"
  using streamID_roundtrip [OF sampleLib_ok, of "StreamID 2 (sampleCid [7, 255])"]
    sampleCid_v1 [of "[7, 255]"] by (simp add: maxSafe_def)

text \<open>
  Whatever commit argument a CommitID is built from (nothing, 0, a string or a CID), the
  constructor normalises the genesis commit to \<open>null\<close>, and the CommitID it returns survives its
  bytes, string and URL encodings.
\<close>

theorem commitID_roundtrip:
  assumes "codec_lib_ok lib" and "newCommitID lib (TypeCode t) (CidObj g) arg = Inr c"
    and "t < maxSafe" and "isCidV1 lib g" and "isCidV1 lib (commitIDCommit c)"
  shows "commitIDBase c = StreamID t g
    \<and> (com_commit c = None \<longleftrightarrow> commitIDCommit c = g)
    \<and> commitIDFromBytes lib (commitIDBytes lib c) = Inr c
    \<and> commitIDFromString lib (commitIDToString lib c) = Inr c
    \<and> commitIDFromString lib (commitIDToUrl lib c) = Inr c"
proof -
  from assms(2) have c: "com_type c = t" "com_cid c = g" "com_commit c \<noteq> Some g"
    by (auto simp: newCommitID_def parseCommit_def res_simps split: if_splits option.splits)
  with assms(3-5) have ok: "commitOk lib c"
    by (auto simp: commitOk_def commitIDCommit_def split: option.splits)
  note p = parseBytes_commitIDBytes [OF assms(1) ok]
  have "newCommitID lib (TypeCode (com_type c)) (CidObj (com_cid c)) (optionArg (com_commit c)) = Inr c"
    using c by (subst newCommitID_normal) auto
  with c show ?thesis
    using parseString_plain [OF assms(1) p]
    by (auto simp: commitIDFromBytes_def commitIDFromString_def commitIDToString_def
        commitIDToUrl_def p commitIDBase_def commitIDCommit_def split: option.splits)
qed

theorem commitID_roundtrip_witness:
  "commitIDFromBytes sampleLib (commitIDBytes sampleLib (CommitID 0 (sampleCid [1]) (Some (sampleCid [2]))))
     = Inr (CommitID 0 (sampleCid [1]) (Some (sampleCid [2])))"
  using commitID_roundtrip [OF sampleLib_ok, of 0 "sampleCid [1]" "CommitCid (sampleCid [2])"
      "CommitID 0 (sampleCid [1]) (Some (sampleCid [2]))"]
    sampleCid_v1 [of "[1]"] sampleCid_v1 [of "[2]"]
  by (simp add: maxSafe_def newCommitID_def parseCommit_def commitIDCommit_def sampleCid_def
      multihashBytes_def)

text \<open>
  StreamIDs and CommitIDs are never mistaken for one another: the bytes of one kind are
  rejected by the parser of the other kind, and \<open>StreamRef.from\<close> returns the kind that was
  written.
\<close>

theorem stream_ref_kinds:
  assumes "codec_lib_ok lib" and "sid_type sid < maxSafe" and "isCidV1 lib (sid_cid sid)"
    and "commitOk lib c"
  shows "commitIDFromBytes lib (streamIDBytes lib sid)
      = Inl (Err ''Error while parsing CommitID from bytes: no commit information provided'')
    \<and> streamIDFromBytes lib (commitIDBytes lib c) = Inl (Err ''Invalid StreamID bytes: contains commit'')
    \<and> streamRefFrom lib (ArgString (streamIDToString lib sid)) = Inr (RefStream sid)
    \<and> streamRefFrom lib (ArgString (commitIDToString lib c)) = Inr (RefCommit c)
    \<and> streamIDBytes lib sid \<noteq> commitIDBytes lib c"
proof -
  note p = parseBytes_streamIDBytes [OF assms(1-3)] parseBytes_commitIDBytes [OF assms(1,4)]
  have "newCommitID lib (TypeCode (com_type c)) (CidObj (com_cid c)) (optionArg (com_commit c)) = Inr c"
    using assms(4) by (subst newCommitID_normal) (auto simp: commitOk_def)
  moreover have "streamIDBytes lib sid \<noteq> commitIDBytes lib c"
    using p(1) [of "[]"] p(2) [of "[]"] by auto
  ultimately show ?thesis
    using parseString_plain(1) [OF assms(1) p(1)] parseString_plain(1) [OF assms(1) p(2)]
    by (simp add: commitIDFromBytes_def streamIDFromBytes_def streamRefFromString_def
        streamIDToString_def commitIDToString_def refOfComponents_def p)
qed

theorem stream_ref_kinds_witness:
  "streamRefFrom sampleLib (ArgString (commitIDToString sampleLib (CommitID 3 (sampleCid [1]) None)))
     = Inr (RefCommit (CommitID 3 (sampleCid [1]) None))"
  using stream_ref_kinds [OF sampleLib_ok, of "StreamID 3 (sampleCid [1])" "CommitID 3 (sampleCid [1]) None"]
    sampleCid_v1 [of "[1]"] by (simp add: maxSafe_def commitOk_def)

text \<open>
  A URL with a \<open>?commit=\<close> query parses to the CommitID of that commit, and to the genesis
  CommitID when the query names the genesis CID or \<open>0\<close>.
\<close>

theorem url_with_commit:
  assumes "codec_lib_ok lib" and "sid_type sid < maxSafe" and "isCidV1 lib (sid_cid sid)"
  shows "commitIDFromString lib (streamIDToUrl lib sid @ ''?commit='' @ cidToString lib x)
      = Inr (CommitID (sid_type sid) (sid_cid sid) (if x = sid_cid sid then None else Some x))
    \<and> commitIDFromString lib (streamIDToUrl lib sid @ ''?commit=0'')
      = Inr (CommitID (sid_type sid) (sid_cid sid) None)"
proof -
  define r where "r = base36Encode lib (streamIDBytes lib sid)"
  have r: "r \<noteq> []" "\<forall>c \<in> set r. isAlnum c"
    using codec_lib_okD(6,7) [OF assms(1)] by (auto simp: r_def)
  have x: "cidToString lib x \<noteq> []" "\<forall>c \<in> set (cidToString lib x). isAlnum c" "cidToString lib x \<noteq> ''0''"
    using codec_lib_okD(9,10) [OF assms(1)] by auto
  note p = parseBytes_streamIDBytes [OF assms]
  have parse: "parseString lib (streamIDToUrl lib sid @ ''?commit='' @ q) t
      = bindR (parseCommit lib (sid_cid sid) (CommitStr q))
          (\<lambda>pc. Inr (CommitIDComponents (sid_type sid) (sid_cid sid) pc))"
    if "q \<noteq> []" and "\<forall>c \<in> set q. isAlnum c" for q t
    using urlExec_url [OF r, of "''?commit='' @ q"] commitGroup_commit [OF that]
    by (simp add: parseString_def streamIDToUrl_def streamIDToString_def r_def [symmetric])
      (simp add: r_def codec_lib_okD [OF assms(1)] p)
  have "parseCommit lib (sid_cid sid) (CommitStr (cidToString lib x))
      = Inr (if x = sid_cid sid then None else Some x)"
    using x by (auto simp: parseCommit_def codec_lib_okD [OF assms(1)])
  moreover have "parseCommit lib (sid_cid sid) (CommitStr ''0'') = Inr None"
    by (simp add: parseCommit_def)
  ultimately show ?thesis
    using parse [OF x(1,2)] parse [of "''0''"]
    by (simp add: commitIDFromString_def newCommitID_def parseCommit_def)
qed

theorem url_with_commit_witness:
  "commitIDFromString sampleLib (streamIDToUrl sampleLib (StreamID 0 (sampleCid [1])) @ ''?commit=0'')
     = Inr (CommitID 0 (sampleCid [1]) None)"
  using url_with_commit [OF sampleLib_ok, of "StreamID 0 (sampleCid [1])"]
    sampleCid_v1 [of "[1]"] by (simp add: maxSafe_def)

text \<open>
  The constructor accepts a version 0 CID, whose bytes are a bare SHA-256 multihash without
  version and codec, but the bytes of such a StreamID cannot be parsed: the parser reads the
  hash code 18 as the CID version and rejects it.
\<close>

theorem cidV0_not_parsable:
  assumes "codec_lib_ok lib" and "t < maxSafe" and "cid_bytes g = multihashBytes lib 18 d"
  shows "newStreamID lib (TypeCode t) (CidObj g) = Inr (StreamID t g)
    \<and> streamIDFromBytes lib (streamIDBytes lib (StreamID t g)) = Inl (Err ''Unknown CID version'')"
  unfolding streamIDFromBytes_def parseBytes_def streamIDBytes_def
  by (simp add: readVarint_varintEncode [OF assms(1)] assms(2,3) maxSafe_small STREAMID_CODEC_def
      readCid_def multihashBytes_def isCidVersion_def)

theorem cidV0_not_parsable_witness:
  "streamIDFromBytes sampleLib (streamIDBytes sampleLib (StreamID 0 (CID (multihashBytes sampleLib 18 [5]))))
     = Inl (Err ''Unknown CID version'')"
  using cidV0_not_parsable [OF sampleLib_ok, of 0 "CID (multihashBytes sampleLib 18 [5])" "[5]"]
  by (simp add: maxSafe_def)

end
