(* ===== verification/StreamTypes.thy ===== *)
theory StreamTypes
  imports StreamIds
begin

text \<open>
  The data model of the protocol (\<open>common/src/stream.ts\<close>, \<open>common/src/anchor-service.ts\<close>) and the
  helpers of \<open>common/src/utils/stream-utils.ts\<close> that read a stream state. A commit payload, the
  content and the metadata are values of type \<open>js\<close>; everything the source gives a static type
  is a record or a datatype.
\<close>

section \<open>Enumerations\<close>

datatype signature_status = GENESIS | PARTIAL | SIGNED

datatype event_type = INIT | DATA | TIME

text \<open>\<open>ANCHOR_UNDEFINED\<close> is the \<open>undefined\<close> that looking up an unknown name in the enum gives.\<close>

datatype anchor_status = NOT_REQUESTED | PENDING | PROCESSING | ANCHORED | FAILED | REPLACED
  | ANCHOR_UNDEFINED

definition anchorStatusNames :: "(anchor_status \<times> string) list" where
  "anchorStatusNames = [(NOT_REQUESTED, ''NOT_REQUESTED''), (PENDING, ''PENDING''),
     (PROCESSING, ''PROCESSING''), (ANCHORED, ''ANCHORED''), (FAILED, ''FAILED''),
     (REPLACED, ''REPLACED'')]"

section \<open>Logs and commits\<close>

record log_entry =
  le_cid :: cid
  le_type :: event_type
  le_timestamp :: onum
  le_expiration :: onum

text \<open>
  \<open>CommitData\<close> extends \<open>LogEntry\<close>, as in the source. An absent envelope, proof or capability is
  \<open>Undef\<close>.
\<close>

record commit_data = log_entry +
  cd_commit :: js
  cd_envelope :: js
  cd_proof :: js
  cd_anchorError :: "js_error option"
  cd_capability :: js

text \<open>The two kinds of synced logs differ only in their \<open>timestampStatus\<close> tag.\<close>

datatype appliable_log = AppliableStreamLog (appliable_commits: "commit_data list")

datatype unappliable_log = UnappliableStreamLog (unappliable_commits: "commit_data list")

section \<open>Stream state\<close>

record stream_next =
  nx_content :: js
  nx_metadata :: js

text \<open>
  \<open>log\<close> is a \<open>NonEmptyArray\<close>: its first entry is the genesis commit, its last the tip.
\<close>

record stream_state =
  st_type :: nat
  st_content :: js
  st_next :: "stream_next option"
  st_metadata :: js
  st_signature :: signature_status
  st_anchorStatus :: anchor_status
  st_anchorProof :: js
  st_log :: "log_entry list"

section \<open>Reading a state\<close>

definition genesisCid :: "stream_state \<Rightarrow> cid" where
  "genesisCid s = le_cid (hd (st_log s))"

definition streamIdFromState :: "stream_state \<Rightarrow> stream_id" where
  "streamIdFromState s = StreamID (st_type s) (le_cid (hd (st_log s)))"

definition tipFromState :: "stream_state \<Rightarrow> cid" where
  "tipFromState s = le_cid (last (st_log s))"

definition isStateSupersetOf :: "stream_state \<Rightarrow> stream_state \<Rightarrow> bool" where
  "isStateSupersetOf state base =
     (if length (st_log state) < length (st_log base) then False
      else if \<exists>i \<in> set [0..<length (st_log base)].
        le_cid (st_log state ! i) \<noteq> le_cid (st_log base ! i) then False
      else if length (st_log state) = length (st_log base) \<and>
        st_anchorStatus state \<noteq> st_anchorStatus base then False
      else True)"

text \<open>\<open>x.equals(cid)\<close> for a dynamically typed \<open>x\<close>: only CIDs and StreamIDs have the method.\<close>

fun jsCidEquals :: "js \<Rightarrow> cid \<Rightarrow> js_error + bool" where
  "jsCidEquals (CidV c) d = Inr (c = d)"
| "jsCidEquals (SidV _) d = Inr False"
| "jsCidEquals _ d = Inl TypeErr"

definition assertCommitLinksToState :: "stream_state \<Rightarrow> js \<Rightarrow> js_error + unit" where
  "assertCommitLinksToState state commit =
     bindR (jsGet commit ''id'') (\<lambda>id.
     bindR (if jsTruthy id then jsCidEquals id (le_cid (hd (st_log state))) else Inr True) (\<lambda>sameId.
     bindR (throwIf (\<not> sameId) (Err ''Invalid genesis CID in commit'')) (\<lambda>_.
     bindR (jsGet commit ''prev'') (\<lambda>prev.
     bindR (jsCidEquals prev (le_cid (last (st_log state)))) (\<lambda>samePrev.
     throwIf (\<not> samePrev) (Err ''Commit doesn't properly point to previous commit in log''))))))"

definition isSignedCommitContainer :: "js \<Rightarrow> js_error + bool" where
  "isSignedCommitContainer commit =
     (if \<not> jsTruthy commit then Inr False
      else bindR (jsGet commit ''jws'') (\<lambda>v. Inr (v \<noteq> Undef)))"

definition isSignedCommit :: "js \<Rightarrow> js_error + bool" where
  "isSignedCommit commit =
     (if \<not> jsTruthy commit then Inr False
      else bindR (jsGet commit ''link'') (\<lambda>v. Inr (v \<noteq> Undef)))"

definition isAnchorCommit :: "js \<Rightarrow> js_error + bool" where
  "isAnchorCommit commit =
     (if \<not> jsTruthy commit then Inr False
      else bindR (jsGet commit ''proof'') (\<lambda>v. Inr (v \<noteq> Undef)))"

definition isSignedCommitData :: "commit_data \<Rightarrow> bool" where
  "isSignedCommitData cd \<longleftrightarrow> cd_envelope cd \<noteq> Undef"

definition isAnchorCommitData :: "commit_data \<Rightarrow> bool" where
  "isAnchorCommitData cd \<longleftrightarrow> cd_proof cd \<noteq> Undef"

text \<open>\<open>Math.floor(n / 1000)\<close>\<close>

fun floorSeconds :: "onum \<Rightarrow> onum" where
  "floorSeconds (NVal n) = NVal (n div 1000)"
| "floorSeconds NNull = NVal 0"
| "floorSeconds n = NNaN"

text \<open>
  \<open>dateParse\<close> stands for \<open>Date.parse\<close>, in milliseconds. A falsy timestamp or expiration is left
  out of the entry.
\<close>

definition commitDataToLogEntry ::
  "(js \<Rightarrow> onum) \<Rightarrow> commit_data \<Rightarrow> event_type \<Rightarrow> log_entry" where
  "commitDataToLogEntry dateParse cd eventType =
     (let exp = jsGetOpt (jsGetOpt (cd_capability cd) ''p'') ''exp'' in
      \<lparr> le_cid = le_cid cd, le_type = eventType,
        le_timestamp = (if onumTruthy (le_timestamp cd) then le_timestamp cd else NUndef),
        le_expiration = (if jsTruthy exp then floorSeconds (dateParse exp) else NUndef) \<rparr>)"

definition anchorTimestampFromState :: "stream_state \<Rightarrow> onum" where
  "anchorTimestampFromState s =
     (case find (\<lambda>e. onumTruthy (le_timestamp e)) (rev (st_log s)) of
        Some e \<Rightarrow> le_timestamp e | None \<Rightarrow> NNull)"

definition stateContainsCommit :: "stream_state \<Rightarrow> cid \<Rightarrow> bool" where
  "stateContainsCommit s c = (find (\<lambda>e. le_cid e = c) (st_log s) \<noteq> None)"

definition commitIdFromStreamState :: "codec_lib \<Rightarrow> stream_state \<Rightarrow> js_error + commit_id" where
  "commitIdFromStreamState lib s =
     newCommitID lib (TypeCode (st_type s)) (CidObj (le_cid (hd (st_log s))))
       (CommitCid (le_cid (last (st_log s))))"

section \<open>The stream handle\<close>

text \<open>Getters of the abstract class \<open>Stream\<close>, over the state it holds.\<close>

definition streamContent :: "stream_state \<Rightarrow> js" where
  "streamContent s = (case st_next s of
     Some n \<Rightarrow> if jsNullish (nx_content n) then st_content s else nx_content n
   | None \<Rightarrow> st_content s)"

definition allCommitIds :: "codec_lib \<Rightarrow> stream_state \<Rightarrow> js_error + commit_id list" where
  "allCommitIds lib s =
     mapR (\<lambda>e. makeCommitID lib (streamIdFromState s) (CommitCid (le_cid e))) (st_log s)"

definition anchorCommitIds :: "codec_lib \<Rightarrow> stream_state \<Rightarrow> js_error + commit_id list" where
  "anchorCommitIds lib s =
     mapR (\<lambda>e. makeCommitID lib (streamIdFromState s) (CommitCid (le_cid e)))
       (filter (\<lambda>e. le_type e = TIME) (st_log s))"

section \<open>Lemmas\<close>

named_theorems state_simps \<open>selectors of the helpers on states\<close>

definition logCids :: "stream_state \<Rightarrow> cid list" where
  "logCids s = map le_cid (st_log s)"

text \<open>A state that can occur: a non-empty log that starts with the only init event.\<close>

definition wfState :: "stream_state \<Rightarrow> bool" where
  "wfState s \<longleftrightarrow> st_log s \<noteq> [] \<and> le_type (hd (st_log s)) = INIT \<and>
     (\<forall>e \<in> set (tl (st_log s)). le_type e \<noteq> INIT)"

lemma wfState_types: "wfState s \<longleftrightarrow> (\<exists>ts. map le_type (st_log s) = INIT # ts \<and> INIT \<notin> set ts)"
proof (cases "st_log s")
  case Nil
  then show ?thesis by (simp add: wfState_def)
next
  case (Cons e es)
  have "(\<forall>x \<in> set es. le_type x \<noteq> INIT) \<longleftrightarrow> INIT \<notin> set (map le_type es)" by force
  with Cons show ?thesis by (auto simp: wfState_def)
qed

lemma wfState_nonempty: "wfState s \<Longrightarrow> st_log s \<noteq> []"
  by (simp add: wfState_def)

lemma tipFromState_logCids: "st_log s \<noteq> [] \<Longrightarrow> tipFromState s = last (logCids s)"
  by (simp add: tipFromState_def logCids_def last_map)

lemma genesisCid_logCids: "st_log s \<noteq> [] \<Longrightarrow> genesisCid s = hd (logCids s)"
  by (simp add: genesisCid_def logCids_def list.map_sel)

lemma streamIdFromState_genesisCid: "streamIdFromState s = StreamID (st_type s) (genesisCid s)"
  by (simp add: streamIdFromState_def genesisCid_def)

lemma assertCommitLinksToState_Inr:
  "assertCommitLinksToState s commit = Inr u \<Longrightarrow> jsGet commit ''prev'' = Inr (CidV (tipFromState s))"
  unfolding assertCommitLinksToState_def tipFromState_def
  by (auto simp: res_simps elim!: jsCidEquals.elims)

lemma stateContainsCommit_iff: "stateContainsCommit s c \<longleftrightarrow> c \<in> set (logCids s)"
  by (auto simp: stateContainsCommit_def logCids_def find_None_iff)

lemma isStateSupersetOf_iff:
  "isStateSupersetOf state base \<longleftrightarrow>
     (\<exists>rest. logCids state = logCids base @ rest \<and>
        (rest = [] \<longrightarrow> st_anchorStatus state = st_anchorStatus base))"
proof -
  have agree: "(\<not> length xs < length ys \<and> (\<forall>i < length ys. le_cid (xs ! i) = le_cid (ys ! i)))
      \<longleftrightarrow> take (length ys) (map le_cid xs) = map le_cid ys" for xs ys :: "log_entry list"
    by (auto simp: list_eq_iff_nth_eq not_less)
  have pre: "(\<exists>rest. zs = ys @ rest \<and> (rest = [] \<longrightarrow> P)) \<longleftrightarrow>
      take (length ys) zs = ys \<and> (length zs = length ys \<longrightarrow> P)" for zs ys :: "cid list" and P
    by (metis append_eq_conv_conj append_Nil2 append_take_drop_id length_append self_append_conv
        append_same_eq take_all_iff order_refl)
  have "isStateSupersetOf state base \<longleftrightarrow>
      (\<not> length (st_log state) < length (st_log base) \<and>
        (\<forall>i < length (st_log base). le_cid (st_log state ! i) = le_cid (st_log base ! i))) \<and>
      (length (st_log state) = length (st_log base) \<longrightarrow> st_anchorStatus state = st_anchorStatus base)"
    unfolding isStateSupersetOf_def set_upt by (auto simp: Ball_def)
  also have "\<dots> \<longleftrightarrow> take (length (logCids base)) (logCids state) = logCids base \<and>
      (length (logCids state) = length (logCids base) \<longrightarrow> st_anchorStatus state = st_anchorStatus base)"
    unfolding agree by (simp add: logCids_def)
  finally show ?thesis unfolding pre .
qed

end
