(* ===== verification/Signatures.thy ===== *)
theory Signatures
  imports StreamTypes
begin

text \<open>
  The package \<open>stream-handler-common\<close>: verification of commit signatures and capabilities,
  expiration of CACAOs (\<open>signature_utils.ts\<close>) and application of anchor commits
  (\<open>anchor-commit-utils.ts\<close>); and the environment the stream handlers run in.
\<close>

section \<open>The environment of the handlers\<close>

text \<open>
  What the handlers call outside the modelled code: the clock, the signer, the JSON patch, JSON
  schema and JSON pointer libraries, and the reader that loads other streams. \<open>e_jsonPatch d p\<close>
  returns the document \<open>d\<close> as the call leaves it (the library patches in place) together with the
  new document or the error it throws. \<open>e_stackDepth\<close> is the number of nested calls the JavaScript
  engine allows before it raises a RangeError. A loaded stream is its StreamID, content and metadata and
  the string form of its CommitID.
\<close>

record loaded_stream =
  ls_id :: stream_id
  ls_content :: js
  ls_metadata :: js
  ls_commitId :: string

record env =
  e_lib :: codec_lib
  e_rust :: bool
  e_now :: int
  e_dateParse :: "js \<Rightarrow> onum"
  e_fmt :: "js \<Rightarrow> string"
  e_verifyJWS :: "js \<Rightarrow> onum \<Rightarrow> js \<Rightarrow> js \<Rightarrow> js_error + unit"
  e_jsonPatch :: "js \<Rightarrow> js \<Rightarrow> js \<times> (js_error + js)"
  e_loadStream :: "stream_ref \<Rightarrow> js_error + loaded_stream"
  e_validateContent :: "js \<Rightarrow> js \<Rightarrow> js_error + bool"
  e_validateSchema :: "js \<Rightarrow> bool"
  e_decodeModel :: "js \<Rightarrow> js_error + unit"
  e_decodeRelations :: "js \<Rightarrow> js_error + unit"
  e_validateLink :: "js \<Rightarrow> js_error + js"
  e_resolveRef :: "js \<Rightarrow> js \<Rightarrow> js_error + js"
  e_isModelV2 :: "js \<Rightarrow> bool"
  e_isMatch :: "js \<Rightarrow> js \<Rightarrow> bool"
  e_stackDepth :: nat
  e_bytesToString :: "js \<Rightarrow> js_error + string"
  e_jsonLength :: "js \<Rightarrow> nat"

section \<open>Capabilities\<close>

definition DEFAULT_CACAO_REVOCATION_PHASE_OUT_SECS :: int where
  "DEFAULT_CACAO_REVOCATION_PHASE_OUT_SECS = 24 * 60 * 60"

text \<open>\<open>x.toString()\<close> where the code expects a CID\<close>

fun jsCidString :: "codec_lib \<Rightarrow> js \<Rightarrow> js_error + string" where
  "jsCidString lib (CidV c) = Inr (cidToString lib c)"
| "jsCidString lib (SidV s) = Inr (streamIDToString lib s)"
| "jsCidString lib (Str s) = Inr s"
| "jsCidString lib (Bytes bs) = Inr (uint8Str bs)"
| "jsCidString lib (Obj fs) = Inr ''[object Object]''"
| "jsCidString lib _ = Inl TypeErr"

text \<open>The resources that permit a write, in the order the code tries them.\<close>

definition permittingResources :: "codec_lib \<Rightarrow> stream_id \<Rightarrow> string \<Rightarrow> stream_id option \<Rightarrow> string list" where
  "permittingResources lib streamId payloadCID model =
     [''ceramic://*'', ''ceramic://'' @ streamIDToString lib streamId,
      ''ceramic://'' @ streamIDToString lib streamId @ ''?payload='' @ payloadCID]
     @ (case model of None \<Rightarrow> [] | Some m \<Rightarrow> [''ceramic://*?model='' @ streamIDToString lib m])"

definition verifyCapabilityAuthz ::
  "codec_lib \<Rightarrow> commit_data \<Rightarrow> stream_id \<Rightarrow> stream_id option \<Rightarrow> js_error + js" where
  "verifyCapabilityAuthz lib cd streamId model =
     (if \<not> jsTruthy (cd_capability cd) then Inr Null
      else bindR (jsGet (cd_capability cd) ''p'') (\<lambda>p.
      bindR (jsGet p ''resources'') (\<lambda>resources.
      bindR (jsGet (cd_envelope cd) ''link'') (\<lambda>link.
      bindR (jsCidString lib link) (\<lambda>payloadCID.
      bindR (jsArray resources) (\<lambda>granted.
      bindR (throwIf (\<forall>r \<in> set (permittingResources lib streamId payloadCID model). Str r \<notin> set granted)
        (Err ''Capability does not have appropriate permissions to update this Stream'')) (\<lambda>_.
      Inr (cd_capability cd))))))))"

text \<open>\<open>commitData.timestamp ? new Date(commitData.timestamp * 1000) : undefined\<close>\<close>

fun atTimeOf :: "onum \<Rightarrow> onum" where
  "atTimeOf (NVal n) = (if n \<noteq> 0 then NVal (n * 1000) else NUndef)"
| "atTimeOf _ = NUndef"

definition verifyCommitSignature ::
  "env \<Rightarrow> commit_data \<Rightarrow> js \<Rightarrow> stream_id option \<Rightarrow> stream_id \<Rightarrow> js_error + unit" where
  "verifyCommitSignature env cd controller model streamId =
     (case bindR (verifyCapabilityAuthz (e_lib env) cd streamId model) (\<lambda>cacao.
             e_verifyJWS env (cd_envelope cd) (atTimeOf (le_timestamp cd)) controller cacao) of
        Inr _ \<Rightarrow> Inr ()
      | Inl _ \<Rightarrow> Inl (Err ''Can not verify signature for commit''))"

section \<open>Expiration of CACAOs\<close>

text \<open>
  \<open>now\<close> is \<open>Date.now()\<close> in milliseconds. The loop stops at the first expired entry, whose CID is
  part of the message.
\<close>

fun addSeconds :: "onum \<Rightarrow> int \<Rightarrow> onum" where
  "addSeconds (NVal n) k = NVal (n + k)"
| "addSeconds NNull k = NVal k"
| "addSeconds n k = NNaN"

definition entryExpired :: "int \<Rightarrow> log_entry \<Rightarrow> bool" where
  "entryExpired now e \<longleftrightarrow>
     (let timestamp = onumOr (le_timestamp e) (NVal (now div 1000)) in
      onumTruthy (le_expiration e) \<and>
      onumLess (addSeconds (le_expiration e) DEFAULT_CACAO_REVOCATION_PHASE_OUT_SECS) timestamp)"

definition checkForCacaoExpiration :: "int \<Rightarrow> stream_state \<Rightarrow> js_error + unit" where
  "checkForCacaoExpiration now s =
     forEachR (\<lambda>e. throwIf (entryExpired now e) (Err ''CACAO expired'')) (st_log s)"

section \<open>Anchor commits\<close>

text \<open>
  The loop runs from the newest entry to the oldest; \<open>stampBack\<close> gets the reversed log and the
  timestamp of the last anchor it passed.
\<close>

fun stampBack :: "onum \<Rightarrow> log_entry list \<Rightarrow> log_entry list" where
  "stampBack t [] = []"
| "stampBack t (e # es) =
     (if le_type e = TIME then e # stampBack (le_timestamp e) es
      else e\<lparr>le_timestamp := t\<rparr> # stampBack t es)"

definition applyAnchorTimestampsToLog :: "log_entry list \<Rightarrow> log_entry list" where
  "applyAnchorTimestampsToLog lg = rev (stampBack NUndef (rev lg))"

text \<open>
  A handler may modify the state it is given. Its result is the new state, or the error it throws
  together with what the given state has become by then.
\<close>

type_synonym 's handled = "(js_error \<times> 's) + 's"

definition adoptNext :: "stream_state \<Rightarrow> stream_state" where
  "adoptNext s = (case st_next s of
     None \<Rightarrow> s
   | Some n \<Rightarrow> s\<lparr>st_content := (if jsTruthy (nx_content n) then nx_content n else st_content s),
                st_metadata := (if jsTruthy (nx_metadata n) then nx_metadata n else st_metadata s),
                st_next := None\<rparr>)"

definition applyAnchorCommit :: "commit_data \<Rightarrow> stream_state \<Rightarrow> stream_state handled" where
  "applyAnchorCommit cd s =
     (case assertCommitLinksToState s (cd_commit cd) of
        Inl e \<Rightarrow> Inl (e, s)
      | Inr _ \<Rightarrow> (case cd_anchorError cd of
          Some e \<Rightarrow> Inl (e, s)
        | None \<Rightarrow> Inr (adoptNext (s\<lparr>st_anchorStatus := ANCHORED, st_anchorProof := cd_proof cd,
            st_log := applyAnchorTimestampsToLog (st_log s @
              [\<lparr>le_cid = le_cid cd, le_type = TIME, le_timestamp = le_timestamp cd,
                le_expiration = NUndef\<rparr>])\<rparr>))))"

section \<open>Lemmas\<close>

lemma length_stampBack [simp]: "length (stampBack t es) = length es"
  by (induction t es rule: stampBack.induct) auto

lemma map_cid_stampBack [simp]: "map le_cid (stampBack t es) = map le_cid es"
  by (induction t es rule: stampBack.induct) auto

lemma map_type_stampBack [simp]: "map le_type (stampBack t es) = map le_type es"
  by (induction t es rule: stampBack.induct) auto

lemma map_expiration_stampBack [simp]: "map le_expiration (stampBack t es) = map le_expiration es"
  by (induction t es rule: stampBack.induct) auto

lemma length_applyAnchorTimestamps [simp]: "length (applyAnchorTimestampsToLog lg) = length lg"
  by (simp add: applyAnchorTimestampsToLog_def)

lemma map_applyAnchorTimestamps [simp]:
  "map le_cid (applyAnchorTimestampsToLog lg) = map le_cid lg"
  "map le_type (applyAnchorTimestampsToLog lg) = map le_type lg"
  "map le_expiration (applyAnchorTimestampsToLog lg) = map le_expiration lg"
  by (simp_all add: applyAnchorTimestampsToLog_def rev_map [symmetric])

lemma applyAnchorTimestamps_Nil_iff [simp]: "applyAnchorTimestampsToLog lg = [] \<longleftrightarrow> lg = []"
  by (metis length_applyAnchorTimestamps length_0_conv)

text \<open>The timestamp of the first anchor in a log, or \<open>undefined\<close>.\<close>

definition firstAnchorTimestamp :: "log_entry list \<Rightarrow> onum" where
  "firstAnchorTimestamp es = (case find (\<lambda>e. le_type e = TIME) es of
     Some e \<Rightarrow> le_timestamp e | None \<Rightarrow> NUndef)"

lemma firstAnchorTimestamp_simps [simp]:
  "firstAnchorTimestamp [] = NUndef"
  "firstAnchorTimestamp (e # es) = (if le_type e = TIME then le_timestamp e else firstAnchorTimestamp es)"
  by (simp_all add: firstAnchorTimestamp_def)

text \<open>The result entry by entry: an anchor keeps its timestamp, every other entry takes that of
  the first anchor after it.\<close>

fun stampForward :: "log_entry list \<Rightarrow> log_entry list" where
  "stampForward [] = []"
| "stampForward (e # es) =
     (if le_type e = TIME then e else e\<lparr>le_timestamp := firstAnchorTimestamp es\<rparr>) # stampForward es"

lemma stampBack_append:
  "stampBack t (xs @ ys) = stampBack t xs @
     stampBack (case find (\<lambda>e. le_type e = TIME) (rev xs) of Some e \<Rightarrow> le_timestamp e | None \<Rightarrow> t) ys"
proof (induction xs arbitrary: t)
  case (Cons x xs)
  have "find P (zs @ [z]) = (case find P zs of None \<Rightarrow> if P z then Some z else None | Some e \<Rightarrow> Some e)"
    for P and zs :: "log_entry list" and z
    by (induction zs) auto
  with Cons show ?case by (auto split: option.splits)
qed simp

lemma applyAnchorTimestamps_forward: "applyAnchorTimestampsToLog lg = stampForward lg"
proof (induction lg)
  case Nil
  then show ?case by (simp add: applyAnchorTimestampsToLog_def)
next
  case (Cons e lg)
  then show ?case
    by (simp add: applyAnchorTimestampsToLog_def stampBack_append firstAnchorTimestamp_def)
qed

lemma length_stampForward [simp]: "length (stampForward es) = length es"
  by (induction es) auto

lemma stampForward_nth:
  "i < length es \<Longrightarrow> stampForward es ! i =
     (if le_type (es ! i) = TIME then es ! i
      else (es ! i)\<lparr>le_timestamp := firstAnchorTimestamp (drop (Suc i) es)\<rparr>)"
  by (induction es arbitrary: i) (auto simp: nth_Cons split: nat.splits)

lemma adoptNext_simps [simp]:
  "st_log (adoptNext s) = st_log s" "st_type (adoptNext s) = st_type s" "st_next (adoptNext s) = None"
  "st_anchorStatus (adoptNext s) = st_anchorStatus s" "st_signature (adoptNext s) = st_signature s"
  "st_anchorProof (adoptNext s) = st_anchorProof s"
  by (auto simp: adoptNext_def split: option.splits)

lemma applyAnchorCommit_Inl: "applyAnchorCommit cd s = Inl (e, s') \<Longrightarrow> s' = s"
  by (auto simp: applyAnchorCommit_def split: sum.splits option.splits)

lemma applyAnchorCommit_Inr:
  assumes "applyAnchorCommit cd s = Inr s'"
  shows "jsGet (cd_commit cd) ''prev'' = Inr (CidV (tipFromState s))"
    and "cd_anchorError cd = None"
    and "logCids s' = logCids s @ [le_cid cd]"
    and "map le_type (st_log s') = map le_type (st_log s) @ [TIME]"
    and "st_type s' = st_type s" and "st_next s' = None" and "st_anchorStatus s' = ANCHORED"
    and "st_anchorProof s' = cd_proof cd" and "st_signature s' = st_signature s"
  using assms assertCommitLinksToState_Inr [of s "cd_commit cd"]
  by (auto simp: applyAnchorCommit_def logCids_def split: sum.splits option.splits)

lemma checkForCacaoExpiration_Inr_iff:
  "checkForCacaoExpiration now s = Inr u \<longleftrightarrow> (\<forall>e \<in> set (st_log s). \<not> entryExpired now e)"
  by (auto simp: checkForCacaoExpiration_def res_simps)

section \<open>A concrete environment\<close>

text \<open>
  An instance of the environment for evaluating the handlers: an envelope carries the DID of its
  signer, a patch is the new document unless it is a string, and no stream can be loaded.
\<close>

definition sampleEnv :: env where
  "sampleEnv = \<lparr> e_lib = sampleLib, e_rust = False, e_now = 0, e_dateParse = (\<lambda>_. NNaN),
     e_fmt = (\<lambda>_. []),
     e_verifyJWS = (\<lambda>envelope t controller cacao.
       if jsGetOpt envelope ''by'' = controller then Inr () else Inl (Err ''invalid_jws'')),
     e_jsonPatch = (\<lambda>d p. case p of Str s \<Rightarrow> (d, Inl (Err ''invalid patch'')) | _ \<Rightarrow> (p, Inr p)),
     e_loadStream = (\<lambda>_. Inl (Err ''not found'')),
     e_validateContent = (\<lambda>_ _. Inr True), e_validateSchema = (\<lambda>_. True),
     e_decodeModel = (\<lambda>_. Inr ()), e_decodeRelations = (\<lambda>_. Inr ()),
     e_validateLink = Inr, e_resolveRef = (\<lambda>_ _. Inr Null), e_isModelV2 = (\<lambda>_. True),
     e_isMatch = (\<lambda>_ _. True), e_stackDepth = 10,
     e_bytesToString = (\<lambda>v. case v of Bytes bs \<Rightarrow> Inr (map (\<lambda>b. char_of (unat b)) bs) | _ \<Rightarrow> Inl TypeErr),
     e_jsonLength = (\<lambda>_. 0) \<rparr>"

lemma sampleEnv_simps [simp]:
  "e_lib sampleEnv = sampleLib" "e_rust sampleEnv = False"
  "e_verifyJWS sampleEnv envelope t controller cacao =
     (if jsGetOpt envelope ''by'' = controller then Inr () else Inl (Err ''invalid_jws''))"
  "e_jsonPatch sampleEnv d p = (case p of Str s \<Rightarrow> (d, Inl (Err ''invalid patch'')) | _ \<Rightarrow> (p, Inr p))"
  "e_validateContent sampleEnv x y = Inr True" "e_validateLink sampleEnv x = Inr x"
  "e_validateSchema sampleEnv x = True" "e_decodeModel sampleEnv x = Inr ()"
  "e_dateParse sampleEnv v = NNaN" "e_stackDepth sampleEnv = 10" "e_isModelV2 sampleEnv v = True"
  "e_isMatch sampleEnv v w = True" "e_jsonLength sampleEnv v = 0" "e_resolveRef sampleEnv v w = Inr Null"
  "e_fmt sampleEnv v = []" "e_decodeRelations sampleEnv v = Inr ()"
  by (simp_all add: sampleEnv_def)

definition sampleCommitData :: "cid \<Rightarrow> js \<Rightarrow> js \<Rightarrow> js \<Rightarrow> commit_data" where
  "sampleCommitData c commit envelope proof =
     \<lparr> le_cid = c, le_type = (if proof = Undef then DATA else TIME), le_timestamp = NUndef,
       le_expiration = NUndef, cd_commit = commit, cd_envelope = envelope, cd_proof = proof,
       cd_anchorError = None, cd_capability = Undef \<rparr>"

lemma sampleCommitData_simps [simp]:
  "le_cid (sampleCommitData c commit envelope proof) = c"
  "cd_commit (sampleCommitData c commit envelope proof) = commit"
  "cd_envelope (sampleCommitData c commit envelope proof) = envelope"
  "cd_proof (sampleCommitData c commit envelope proof) = proof"
  "cd_capability (sampleCommitData c commit envelope proof) = Undef"
  "cd_anchorError (sampleCommitData c commit envelope proof) = None"
  "le_timestamp (sampleCommitData c commit envelope proof) = NUndef"
  "isAnchorCommitData (sampleCommitData c commit envelope proof) \<longleftrightarrow> proof \<noteq> Undef"
  "isSignedCommitData (sampleCommitData c commit envelope proof) \<longleftrightarrow> envelope \<noteq> Undef"
  by (simp_all add: sampleCommitData_def isAnchorCommitData_def isSignedCommitData_def)

definition sampleEntry :: "cid \<Rightarrow> event_type \<Rightarrow> onum \<Rightarrow> log_entry" where
  "sampleEntry c t ts = \<lparr>le_cid = c, le_type = t, le_timestamp = ts, le_expiration = NUndef\<rparr>"

lemma sampleEntry_simps [simp]:
  "le_cid (sampleEntry c t ts) = c" "le_type (sampleEntry c t ts) = t"
  "le_timestamp (sampleEntry c t ts) = ts" "le_expiration (sampleEntry c t ts) = NUndef"
  by (simp_all add: sampleEntry_def)

lemma verifyCommitSignature_sample [simp]:
  "verifyCommitSignature sampleEnv (sampleCommitData c commit envelope proof) controller m sid =
     (if jsGetOpt envelope ''by'' = controller then Inr ()
      else Inl (Err ''Can not verify signature for commit''))"
  by (simp add: verifyCommitSignature_def verifyCapabilityAuthz_def)

section \<open>Properties\<close>

text \<open>
  C20: A commit signed with a capability is only accepted if the capability grants write access:
  to every stream, to the stream itself, to this very payload, or to all streams of the model when
  the caller names one. Without a capability there is nothing to check.
\<close>

theorem capability_grants_write:
  assumes "verifyCommitSignature env cd controller model streamId = Inr ()"
    and "jsTruthy (cd_capability cd)"
  shows "\<exists>p granted link payloadCID.
    jsGet (cd_capability cd) ''p'' = Inr p \<and> jsGet p ''resources'' = Inr (Arr granted) \<and>
    jsGet (cd_envelope cd) ''link'' = Inr link \<and> jsCidString (e_lib env) link = Inr payloadCID \<and>
    (Str ''ceramic://*'' \<in> set granted
     \<or> Str (''ceramic://'' @ streamIDToString (e_lib env) streamId) \<in> set granted
     \<or> Str (''ceramic://'' @ streamIDToString (e_lib env) streamId @ ''?payload='' @ payloadCID) \<in> set granted
     \<or> (\<exists>m. model = Some m \<and>
          Str (''ceramic://*?model='' @ streamIDToString (e_lib env) m) \<in> set granted)) \<and>
    e_verifyJWS env (cd_envelope cd) (atTimeOf (le_timestamp cd)) controller (cd_capability cd) = Inr ()"
proof -
  from assms(1) obtain cacao where v: "verifyCapabilityAuthz (e_lib env) cd streamId model = Inr cacao"
    and j: "e_verifyJWS env (cd_envelope cd) (atTimeOf (le_timestamp cd)) controller cacao = Inr ()"
    by (auto simp: verifyCommitSignature_def bindR_Inr_iff split: sum.splits)
  from v assms(2) obtain p r granted link payloadCID where
    g: "jsGet (cd_capability cd) ''p'' = Inr p" "jsGet p ''resources'' = Inr r" "jsArray r = Inr granted"
    "jsGet (cd_envelope cd) ''link'' = Inr link" "jsCidString (e_lib env) link = Inr payloadCID"
    "\<exists>x \<in> set (permittingResources (e_lib env) streamId payloadCID model). Str x \<in> set granted"
    "cacao = cd_capability cd"
    unfolding verifyCapabilityAuthz_def by (simp add: bindR_Inr_iff throwIf_Inr_iff) blast
  from g(3) have "r = Arr granted" by (cases r) auto
  with g j show ?thesis
    by (auto simp: permittingResources_def split: option.splits)
qed

definition sampleCapability :: js where
  "sampleCapability = Obj [(''p'', Obj [(''resources'', Arr [Str ''ceramic://*''])])]"

theorem capability_grants_write_witness:
  "\<exists>p granted. jsGet sampleCapability ''p'' = Inr p \<and> jsGet p ''resources'' = Inr (Arr granted)"
  using capability_grants_write [of sampleEnv
      "(sampleCommitData (CID [1]) Undef (Obj [(''by'', Str ''did:a''), (''link'', CidV (CID [2]))]) Undef)
        \<lparr>cd_capability := sampleCapability\<rparr>" "Str ''did:a''" None "StreamID 0 (CID [0])"]
  by (auto simp: verifyCommitSignature_def verifyCapabilityAuthz_def sampleCapability_def
      permittingResources_def jsGetOpt_def)

text \<open>
  Applying anchor timestamps to a log changes nothing but timestamps, keeps those of the anchor
  commits, and gives every other commit the timestamp of the first anchor after it (none if no
  anchor follows).
\<close>

theorem anchor_timestamps:
  "length (applyAnchorTimestampsToLog lg) = length lg
   \<and> (\<forall>i < length lg. applyAnchorTimestampsToLog lg ! i =
        (if le_type (lg ! i) = TIME then lg ! i
         else (lg ! i)\<lparr>le_timestamp := firstAnchorTimestamp (drop (Suc i) lg)\<rparr>))"
  by (simp add: applyAnchorTimestamps_forward stampForward_nth)

text \<open>
  A state passes the expiration check exactly when no entry of its log has a CACAO whose
  expiration, extended by the one-day phase-out, lies before the entry's anchor time (before the
  current time for an entry that is not anchored).
\<close>

theorem cacao_expiration:
  "checkForCacaoExpiration now s = Inr () \<longleftrightarrow>
     (\<forall>e \<in> set (st_log s). \<forall>x. le_expiration e = NVal x \<longrightarrow> x \<noteq> 0 \<longrightarrow>
        \<not> onumLess (NVal (x + 86400)) (onumOr (le_timestamp e) (NVal (now div 1000))))"
proof -
  have "entryExpired now e \<longleftrightarrow> (\<exists>x. le_expiration e = NVal x \<and> x \<noteq> 0 \<and>
      onumLess (NVal (x + 86400)) (onumOr (le_timestamp e) (NVal (now div 1000))))" for e
    by (cases "le_expiration e")
      (simp_all add: entryExpired_def Let_def DEFAULT_CACAO_REVOCATION_PHASE_OUT_SECS_def)
  then show ?thesis by (auto simp: checkForCacaoExpiration_Inr_iff)
qed

theorem cacao_expiration_witness:
  "checkForCacaoExpiration 200000000
     \<lparr>st_type = 0, st_content = Null, st_next = None, st_metadata = Null, st_signature = SIGNED,
      st_anchorStatus = NOT_REQUESTED, st_anchorProof = Undef,
      st_log = [\<lparr>le_cid = CID [1], le_type = DATA, le_timestamp = NUndef, le_expiration = NVal 1000\<rparr>]\<rparr>
     \<noteq> Inr ()"
  by (subst cacao_expiration) simp

theorem anchor_timestamps_witness:
  "applyAnchorTimestampsToLog [sampleEntry (CID [1]) INIT NUndef, sampleEntry (CID [2]) TIME (NVal 7)] ! 0
     = sampleEntry (CID [1]) INIT (NVal 7)"
  using anchor_timestamps [of "[sampleEntry (CID [1]) INIT NUndef, sampleEntry (CID [2]) TIME (NVal 7)]"]
  by (simp add: sampleEntry_def)

end
