(* ===== verification/LogApplication.thy ===== *)
theory LogApplication
  imports Signatures
begin

text \<open>
  The interface \<open>StreamHandler\<close> between the state manipulator and the stream types, and the loop
  \<open>StateManipulator._applyLog\<close> that feeds a log to a handler. The locale \<open>stream_handler\<close> states
  what every handler promises about the log of the state it returns; \<open>atomic_handler\<close> adds that a
  rejected commit leaves the given state alone. The lemmas about the loop are proved once, for
  every handler, and the theories of the handlers interpret the locales.
\<close>

text \<open>A handler result on the state alone, for the handlers' own operations.\<close>

fun liftHandled :: "stream_state handled \<Rightarrow> (js_error \<times> stream_state option) + stream_state" where
  "liftHandled (Inl (e, s)) = Inl (e, Some s)"
| "liftHandled (Inr s) = Inr s"

lemma commitDataToLogEntry_simps [simp]:
  "le_cid (commitDataToLogEntry dp cd t) = le_cid cd"
  "le_type (commitDataToLogEntry dp cd t) = t"
  by (simp_all add: commitDataToLogEntry_def Let_def)

lemma liftHandled_Inr [simp]: "liftHandled r = Inr s \<longleftrightarrow> r = Inr s"
  by (cases r rule: liftHandled.cases) auto

lemma liftHandled_Inl: "liftHandled r = Inl (e, m) \<longleftrightarrow> (\<exists>s. r = Inl (e, s) \<and> m = Some s)"
  by (cases r rule: liftHandled.cases) auto

text \<open>\<open>!(controllers && controllers.length === 1)\<close> throws\<close>

definition exactlyOneController :: "js \<Rightarrow> js_error + unit" where
  "exactlyOneController controllers =
     bindR (if jsTruthy controllers then bindR (jsGet controllers ''length'') (\<lambda>n. Inr (n = Num 1))
            else Inr False) (\<lambda>one.
     throwIf (\<not> one) (Err ''Exactly one controller must be specified''))"

type_synonym apply_commit = "commit_data \<Rightarrow> stream_state option \<Rightarrow> (js_error \<times> stream_state option) + stream_state"

text \<open>
  \<open>_applyLog\<close>: on an error it either throws or returns the state as the failed handler left it.
\<close>

fun applyLog :: "apply_commit \<Rightarrow> stream_state option \<Rightarrow> commit_data list \<Rightarrow> bool \<Rightarrow>
    js_error + stream_state option" where
  "applyLog h state [] throwOnInvalidCommit = Inr state"
| "applyLog h state (commit # commits) throwOnInvalidCommit =
     (case h commit state of
        Inr s \<Rightarrow> applyLog h (Some s) commits throwOnInvalidCommit
      | Inl (err, mutated) \<Rightarrow>
          if throwOnInvalidCommit \<or> state = None then Inl err else Inr mutated)"

text \<open>Each commit points to the one before it; the first to \<open>tip\<close>.\<close>

fun linkedFrom :: "cid \<Rightarrow> commit_data list \<Rightarrow> bool" where
  "linkedFrom tip [] = True"
| "linkedFrom tip (cd # cds) = (jsGet (cd_commit cd) ''prev'' = Inr (CidV tip) \<and> linkedFrom (le_cid cd) cds)"

locale stream_handler =
  fixes apply_commit :: apply_commit
    and handler_type :: nat
  assumes genesis_result: "apply_commit cd None = Inr s \<Longrightarrow>
      st_type s = handler_type \<and> logCids s = [le_cid cd] \<and> map le_type (st_log s) = [INIT]"
    and genesis_error: "apply_commit cd None = Inl (e, m) \<Longrightarrow> m = None"
    and step_log: "apply_commit cd (Some s) = Inr s' \<Longrightarrow> logCids s' = logCids s @ [le_cid cd]"
    and step_types: "apply_commit cd (Some s) = Inr s' \<Longrightarrow>
      map le_type (st_log s') = map le_type (st_log s) @ [if isAnchorCommitData cd then TIME else DATA]"
    and step_type: "apply_commit cd (Some s) = Inr s' \<Longrightarrow> st_type s' = st_type s"
    and step_link: "apply_commit cd (Some s) = Inr s' \<Longrightarrow>
      jsGet (cd_commit cd) ''prev'' = Inr (CidV (tipFromState s))"
    and step_error: "apply_commit cd (Some s) = Inl (e, m) \<Longrightarrow> \<exists>s'. m = Some s' \<and>
      st_type s' = st_type s \<and>
      ((logCids s' = logCids s \<and> map le_type (st_log s') = map le_type (st_log s)) \<or>
       (logCids s' = logCids s @ [le_cid cd] \<and>
        map le_type (st_log s') = map le_type (st_log s) @ [DATA]))"
begin

lemma step_wf:
  assumes "wfState s" and "apply_commit cd (Some s) = Inr s'"
  shows "wfState s'"
proof -
  from assms(1) obtain ts where "map le_type (st_log s) = INIT # ts" "INIT \<notin> set ts"
    by (auto simp: wfState_types)
  with step_types [OF assms(2)] show ?thesis by (auto simp: wfState_types)
qed

lemma genesis_wf: "apply_commit cd None = Inr s \<Longrightarrow> wfState s"
  using genesis_result [of cd s] by (simp add: wfState_types)

lemma applyLog_throw:
  assumes "applyLog apply_commit (Some s) cds True = Inr r"
  shows "\<exists>s'. r = Some s' \<and> logCids s' = logCids s @ map le_cid cds \<and> st_type s' = st_type s"
  using assms
proof (induction cds arbitrary: s)
  case Nil
  then show ?case by auto
next
  case (Cons cd cds)
  then obtain s1 where s1: "apply_commit cd (Some s) = Inr s1"
    and rest: "applyLog apply_commit (Some s1) cds True = Inr r"
    by (auto split: sum.splits)
  from Cons.IH [OF rest] step_log [OF s1] step_type [OF s1] show ?case by auto
qed

lemma applyLog_throw_wf:
  assumes "applyLog apply_commit (Some s) cds True = Inr (Some s')" and "wfState s"
  shows "wfState s'"
  using assms
proof (induction cds arbitrary: s)
  case (Cons cd cds)
  then show ?case by (auto split: sum.splits dest: step_wf)
qed simp

lemma applyLog_linked:
  assumes "applyLog apply_commit (Some s) cds True = Inr r"
  shows "linkedFrom (tipFromState s) cds"
  using assms
proof (induction cds arbitrary: s)
  case Nil
  then show ?case by auto
next
  case (Cons cd cds)
  then obtain s1 where s1: "apply_commit cd (Some s) = Inr s1"
    and rest: "applyLog apply_commit (Some s1) cds True = Inr r"
    by (auto split: sum.splits)
  from step_log [OF s1] have "st_log s1 \<noteq> []" by (auto simp: logCids_def)
  then have "tipFromState s1 = le_cid cd"
    using step_log [OF s1] by (simp add: tipFromState_logCids)
  with Cons.IH [OF rest] step_link [OF s1] show ?case by simp
qed

text \<open>Without throwing, the log grows by a prefix of the new commits; nothing is dropped.\<close>

lemma applyLog_prefix:
  assumes "applyLog apply_commit (Some s) cds t = Inr r"
  shows "\<exists>s' k. r = Some s' \<and> k \<le> length cds \<and> logCids s' = logCids s @ map le_cid (take k cds) \<and>
    st_type s' = st_type s"
  using assms
proof (induction cds arbitrary: s)
  case Nil
  then show ?case by auto
next
  case (Cons cd cds)
  show ?case
  proof (cases "apply_commit cd (Some s)")
    case (Inr s1)
    with Cons.prems have rest: "applyLog apply_commit (Some s1) cds t = Inr r" by simp
    from Cons.IH [OF rest] obtain s' k where "r = Some s'" "k \<le> length cds"
      "logCids s' = logCids s1 @ map le_cid (take k cds)" "st_type s' = st_type s1" by blast
    with step_log [OF Inr] step_type [OF Inr] show ?thesis
      by (intro exI [of _ s'] exI [of _ "Suc k"]) simp
  next
    case (Inl p)
    obtain e m where p: "p = (e, m)" by (cases p)
    with Inl Cons.prems have r: "r = m" by (simp split: if_splits)
    from step_error [of cd s e m] Inl p obtain s' where s': "m = Some s'" "st_type s' = st_type s"
      and lg: "logCids s' = logCids s \<or> logCids s' = logCids s @ [le_cid cd]" by auto
    from lg show ?thesis
    proof
      assume "logCids s' = logCids s"
      with r s' show ?thesis by (intro exI [of _ s'] exI [of _ 0]) simp
    next
      assume "logCids s' = logCids s @ [le_cid cd]"
      with r s' show ?thesis by (intro exI [of _ s'] exI [of _ 1]) simp
    qed
  qed
qed

text \<open>Applied from nothing, the log is the commits themselves and its type is the handler's.\<close>

lemma applyLog_genesis:
  assumes "applyLog apply_commit None (cd # cds) t = Inr r"
  shows "\<exists>s k. r = Some s \<and> k \<le> length cds \<and> (t \<longrightarrow> k = length cds) \<and>
    logCids s = le_cid cd # map le_cid (take k cds) \<and> st_type s = handler_type"
proof -
  from assms obtain s1 where s1: "apply_commit cd None = Inr s1"
    and rest: "applyLog apply_commit (Some s1) cds t = Inr r"
    by (auto split: sum.splits)
  note g = genesis_result [OF s1]
  show ?thesis
  proof (cases t)
    case True
    with rest have "applyLog apply_commit (Some s1) cds True = Inr r" by simp
    from applyLog_throw [OF this] obtain s where "r = Some s" "logCids s = logCids s1 @ map le_cid cds"
      "st_type s = st_type s1" by blast
    with g show ?thesis by (intro exI [of _ s] exI [of _ "length cds"]) simp
  next
    case False
    from applyLog_prefix [OF rest] obtain s k where "r = Some s" "k \<le> length cds"
      "logCids s = logCids s1 @ map le_cid (take k cds)" "st_type s = st_type s1" by blast
    with g False show ?thesis by (intro exI [of _ s] exI [of _ k]) simp
  qed
qed

end

locale atomic_handler = stream_handler +
  assumes step_error_same: "apply_commit cd (Some s) = Inl (e, m) \<Longrightarrow> m = Some s"
begin

text \<open>The loop returns the state after the longest applicable prefix of the log.\<close>

lemma applyLog_longest_prefix:
  assumes "applyLog apply_commit (Some s) cds False = Inr r"
  shows "\<exists>s' k. r = Some s' \<and> k \<le> length cds \<and>
    applyLog apply_commit (Some s) (take k cds) True = Inr (Some s') \<and>
    (k < length cds \<longrightarrow> (\<exists>e. apply_commit (cds ! k) (Some s') = Inl (e, Some s')))"
  using assms
proof (induction cds arbitrary: s)
  case Nil
  then show ?case by auto
next
  case (Cons cd cds)
  show ?case
  proof (cases "apply_commit cd (Some s)")
    case (Inr s1)
    with Cons.prems have "applyLog apply_commit (Some s1) cds False = Inr r" by simp
    from Cons.IH [OF this] obtain s' k where "r = Some s'" "k \<le> length cds"
      "applyLog apply_commit (Some s1) (take k cds) True = Inr (Some s')"
      "k < length cds \<longrightarrow> (\<exists>e. apply_commit (cds ! k) (Some s') = Inl (e, Some s'))" by blast
    with Inr show ?thesis by (intro exI [of _ s'] exI [of _ "Suc k"]) simp
  next
    case (Inl p)
    obtain e m where p: "p = (e, m)" by (cases p)
    with step_error_same [of cd s e m] Inl have m: "m = Some s" by simp
    with Inl p Cons.prems have "r = Some s" by simp
    with Inl p m show ?thesis by (intro exI [of _ s] exI [of _ 0]) simp
  qed
qed

end

end
