(* ===== verification/TileHandler.thy ===== *)
theory TileHandler
  imports LogApplication
begin

text \<open>
  The handler of TileDocument streams (\<open>stream-tile-handler/src/tile-document-handler.ts\<close>,
  \<open>schema-utils.ts\<close>). A signed commit changes the given state before the patch and the schema
  are checked; the model returns that partly changed state with the error.
\<close>

definition TILE_TYPE :: nat where
  "TILE_TYPE = 0"

definition stringArraysEqual :: "js \<Rightarrow> js \<Rightarrow> js_error + bool" where
  "stringArraysEqual arr1 arr2 =
     bindR (jsElems arr1) (\<lambda>xs. bindR (jsElems arr2) (\<lambda>ys.
     Inr (if length xs \<noteq> length ys then False
          else \<forall>i \<in> set [0..<length xs]. jsStrictEq (xs ! i) (ys ! i))))"

text \<open>Loading the schema document and validating the content against it.\<close>

definition tileLoadSchema :: "env \<Rightarrow> js \<Rightarrow> js_error + js" where
  "tileLoadSchema env schemaStreamId =
     (case (case schemaStreamId of Str s \<Rightarrow> commitIDFromString (e_lib env) s | _ \<Rightarrow> Inl TypeErr) of
        Inl _ \<Rightarrow> Inl (Err ''Commit missing when loading schema document'')
      | Inr commitId \<Rightarrow> bindR (e_loadStream env (RefCommit commitId)) (\<lambda>stream. Inr (ls_content stream)))"

definition tileValidateSchema :: "env \<Rightarrow> js \<Rightarrow> js \<Rightarrow> js_error + unit" where
  "tileValidateSchema env content schemaStreamId =
     bindR (tileLoadSchema env schemaStreamId) (\<lambda>schema.
     bindR (e_validateContent env schema content) (\<lambda>isValid.
     throwIf (\<not> isValid) (Err ''Validation Error'')))"

definition tileApplyGenesis :: "env \<Rightarrow> commit_data \<Rightarrow> js_error + stream_state" where
  "tileApplyGenesis env cd =
     (let payload = cd_commit cd; isSigned = isSignedCommitData cd;
          streamId = StreamID TILE_TYPE (le_cid cd) in
      bindR (if isSigned then
               bindR (jsGet payload ''header'') (\<lambda>header.
               bindR (jsGet header ''controllers'') (\<lambda>controllers.
               bindR (jsIndex controllers 0) (\<lambda>controller.
               verifyCommitSignature env cd controller None streamId)))
             else bindR (jsGet payload ''data'') (\<lambda>data.
               throwIf (jsTruthy data) (Err ''Genesis commit with contents should always be signed''))) (\<lambda>_.
      bindR (jsGet payload ''header'') (\<lambda>header.
      bindR (jsGet header ''controllers'') (\<lambda>controllers.
      bindR (exactlyOneController controllers) (\<lambda>_.
      bindR (jsIndex controllers 0) (\<lambda>controller.
      bindR (throwIf (\<not> validDIDString controller)
               (Err ''Attempting to create a TileDocument with an invalid DID string'')) (\<lambda>_.
      bindR (jsGet payload ''data'') (\<lambda>data.
      let state = \<lparr> st_type = TILE_TYPE, st_content = jsOr data (Obj []), st_next = None,
                    st_metadata = header,
                    st_signature = (if isSigned then SIGNED else GENESIS),
                    st_anchorStatus = NOT_REQUESTED, st_anchorProof = Undef,
                    st_log = [commitDataToLogEntry (e_dateParse env) cd INIT] \<rparr>
      in bindR (jsGet header ''schema'') (\<lambda>schema.
         bindR (if jsTruthy schema then tileValidateSchema env (st_content state) schema
                else Inr ()) (\<lambda>_. Inr state))))))))))"

text \<open>The checks of a signed commit that run before the state is touched.\<close>

definition tileCheckSigned :: "env \<Rightarrow> commit_data \<Rightarrow> stream_state \<Rightarrow> js_error + unit" where
  "tileCheckSigned env cd state =
     (let payload = cd_commit cd; metadata = st_metadata state;
          nextController = (case st_next state of None \<Rightarrow> Undef
            | Some n \<Rightarrow> jsIndexOpt (jsGetOpt (nx_metadata n) ''controllers'') 0) in
      bindR (assertCommitLinksToState state payload) (\<lambda>_.
      bindR (if jsTruthy nextController then Inr nextController
             else bindR (jsGet metadata ''controllers'') (\<lambda>cs. jsIndex cs 0)) (\<lambda>controller.
      bindR (throwIf (\<not> jsTruthy controller) (Err ''Controller is not set'')) (\<lambda>_.
      bindR (verifyCommitSignature env cd controller None (streamIdFromState state)) (\<lambda>_.
      bindR (jsGet payload ''header'') (\<lambda>header.
      bindR (jsGet header ''controllers'') (\<lambda>controllers.
      bindR (if jsTruthy controllers then
               bindR (exactlyOneController controllers) (\<lambda>_.
               bindR (jsIndex controllers 0) (\<lambda>c.
               throwIf (\<not> jsTruthy c) (Err ''Controller cannot be updated to an undefined value.'')))
             else Inr ()) (\<lambda>_.
      bindR (jsGet metadata ''forbidControllerChange'') (\<lambda>forbid.
      bindR (if jsTruthy forbid \<and> jsTruthy controllers then
               bindR (jsGet metadata ''controllers'') (\<lambda>current.
               bindR (stringArraysEqual controllers current) (\<lambda>same.
               throwIf (\<not> same) (Err ''Cannot change controllers since 'forbidControllerChange' is set'')))
             else Inr ()) (\<lambda>_.
      bindR (jsGet header ''forbidControllerChange'') (\<lambda>newForbid.
      throwIf (newForbid \<noteq> Undef \<and> \<not> jsStrictEq newForbid forbid)
        (Err ''Changing 'forbidControllerChange' metadata property is not allowed''))))))))))))"

text \<open>
  The patch is applied to \<open>state.next.content\<close> in place, or to a clone of \<open>state.content\<close> when
  there is no next content.
\<close>

definition tilePatchedNext :: "stream_state \<Rightarrow> js \<Rightarrow> stream_state" where
  "tilePatchedNext s doc = s\<lparr>st_next := (case st_next s of None \<Rightarrow> None
     | Some n \<Rightarrow> Some (if jsNullish (nx_content n) then n else n\<lparr>nx_content := doc\<rparr>))\<rparr>"

definition tileApplySigned :: "env \<Rightarrow> commit_data \<Rightarrow> stream_state \<Rightarrow> stream_state handled" where
  "tileApplySigned env cd state =
     (case tileCheckSigned env cd state of
        Inl e \<Rightarrow> Inl (e, state)
      | Inr _ \<Rightarrow>
        let payload = cd_commit cd;
            s1 = state\<lparr>st_signature := SIGNED, st_anchorStatus := NOT_REQUESTED,
                   st_log := st_log state @ [commitDataToLogEntry (e_dateParse env) cd DATA]\<rparr>;
            oldContent = streamContent state;
            oldMetadata = (case st_next state of None \<Rightarrow> st_metadata state
                           | Some n \<Rightarrow> jsNullishOr (nx_metadata n) (st_metadata state))
        in case bindR (jsGet payload ''data'') (\<lambda>data. bindR (jsGet payload ''header'') (\<lambda>header.
                  Inr (data, header))) of
             Inl e \<Rightarrow> Inl (e, s1)
           | Inr (data, header) \<Rightarrow>
             (let (doc, result) = e_jsonPatch env oldContent data; s2 = tilePatchedNext s1 doc in
              case result of
                Inl e \<Rightarrow> Inl (e, s2)
              | Inr newContent \<Rightarrow>
                let newMetadata = jsSpread oldMetadata header in
                case bindR (jsGet newMetadata ''schema'') (\<lambda>schema.
                       if jsTruthy schema then tileValidateSchema env newContent schema else Inr ()) of
                  Inl e \<Rightarrow> Inl (e, s2)
                | Inr _ \<Rightarrow>
                  Inr (s2\<lparr>st_next := Some \<lparr>nx_content = newContent, nx_metadata = newMetadata\<rparr>\<rparr>)))"

definition tileApplyCommit :: "env \<Rightarrow> apply_commit" where
  "tileApplyCommit env cd state =
     (if e_rust env then Inl (Err ''TileDocument is not supported in Ceramic v4 mode'', state)
      else case state of
        None \<Rightarrow> (case tileApplyGenesis env cd of Inl e \<Rightarrow> Inl (e, None) | Inr s \<Rightarrow> Inr s)
      | Some s \<Rightarrow> liftHandled (if isAnchorCommitData cd then applyAnchorCommit cd s
                              else tileApplySigned env cd s))"

section \<open>Lemmas\<close>

lemma tilePatchedNext_simps [simp]:
  "st_log (tilePatchedNext s doc) = st_log s" "st_type (tilePatchedNext s doc) = st_type s"
  "st_metadata (tilePatchedNext s doc) = st_metadata s"
  "st_content (tilePatchedNext s doc) = st_content s"
  "st_signature (tilePatchedNext s doc) = st_signature s"
  "st_anchorStatus (tilePatchedNext s doc) = st_anchorStatus s"
  by (simp_all add: tilePatchedNext_def)

lemma tileApplyGenesis_Inr:
  assumes "tileApplyGenesis env cd = Inr s"
  shows "st_type s = TILE_TYPE" and "st_log s = [commitDataToLogEntry (e_dateParse env) cd INIT]"
  using assms by (auto simp: tileApplyGenesis_def Let_def res_simps)

lemma tileCheckSigned_link:
  "tileCheckSigned env cd s = Inr u \<Longrightarrow> jsGet (cd_commit cd) ''prev'' = Inr (CidV (tipFromState s))"
  by (auto simp: tileCheckSigned_def Let_def res_simps dest: assertCommitLinksToState_Inr)

lemma tileApplySigned_Inr:
  assumes "tileApplySigned env cd s = Inr s'"
  shows "tileCheckSigned env cd s = Inr ()"
    and "st_log s' = st_log s @ [commitDataToLogEntry (e_dateParse env) cd DATA]"
    and "st_type s' = st_type s" and "st_content s' = st_content s" and "st_metadata s' = st_metadata s"
    and "st_signature s' = SIGNED" and "st_anchorStatus s' = NOT_REQUESTED"
  using assms by (auto simp: tileApplySigned_def Let_def split: sum.splits prod.splits)

lemma tileApplySigned_logCids: "tileApplySigned env cd s = Inr s' \<Longrightarrow> logCids s' = logCids s @ [le_cid cd]"
  by (simp add: logCids_def tileApplySigned_Inr)

lemma tileApplySigned_Inl:
  assumes "tileApplySigned env cd s = Inl (e, s')"
  shows "st_type s' = st_type s" and
    "s' = s \<or> st_log s' = st_log s @ [commitDataToLogEntry (e_dateParse env) cd DATA]"
  using assms by (auto simp: tileApplySigned_def Let_def split: sum.splits prod.splits)

interpretation tile: stream_handler "tileApplyCommit env" TILE_TYPE for env
proof
  fix cd s s' e m
  show "st_type s = TILE_TYPE \<and> logCids s = [le_cid cd] \<and> map le_type (st_log s) = [INIT]"
    if "tileApplyCommit env cd None = Inr s"
    using that by (auto simp: tileApplyCommit_def logCids_def tileApplyGenesis_Inr
        split: if_splits sum.splits)
  show "m = None" if "tileApplyCommit env cd None = Inl (e, m)"
    using that by (auto simp: tileApplyCommit_def split: if_splits sum.splits)
  assume "tileApplyCommit env cd (Some s) = Inr s'"
  then consider (anchor) "isAnchorCommitData cd" "applyAnchorCommit cd s = Inr s'"
    | (signed) "\<not> isAnchorCommitData cd" "tileApplySigned env cd s = Inr s'"
    by (auto simp: tileApplyCommit_def split: if_splits)
  note cases = this
  show "logCids s' = logCids s @ [le_cid cd]"
    using cases by cases (auto simp: applyAnchorCommit_Inr tileApplySigned_logCids)
  show "map le_type (st_log s') = map le_type (st_log s) @ [if isAnchorCommitData cd then TIME else DATA]"
    using cases by cases (auto simp: applyAnchorCommit_Inr tileApplySigned_Inr)
  show "st_type s' = st_type s"
    using cases by cases (auto simp: applyAnchorCommit_Inr tileApplySigned_Inr)
  show "jsGet (cd_commit cd) ''prev'' = Inr (CidV (tipFromState s))"
    using cases by cases (auto simp: applyAnchorCommit_Inr dest: tileApplySigned_Inr tileCheckSigned_link)
next
  fix cd s e m
  assume "tileApplyCommit env cd (Some s) = Inl (e, m)"
  then consider (same) "m = Some s" | (signed) s' where "m = Some s'" "tileApplySigned env cd s = Inl (e, s')"
    by (auto simp: tileApplyCommit_def liftHandled_Inl split: if_splits dest: applyAnchorCommit_Inl)
  then show "\<exists>s'. m = Some s' \<and> st_type s' = st_type s \<and>
      ((logCids s' = logCids s \<and> map le_type (st_log s') = map le_type (st_log s)) \<or>
       (logCids s' = logCids s @ [le_cid cd] \<and> map le_type (st_log s') = map le_type (st_log s) @ [DATA]))"
    by cases (auto simp: logCids_def dest: tileApplySigned_Inl)
qed

section \<open>Properties\<close>



lemma tileApplyCommit_signed:
  "tileApplyCommit env cd (Some s) = Inr s' \<Longrightarrow> \<not> isAnchorCommitData cd \<Longrightarrow> tileApplySigned env cd s = Inr s'"
  by (auto simp: tileApplyCommit_def split: if_splits)

lemma tileApplyCommit_anchor:
  "tileApplyCommit env cd (Some s) = Inr s' \<Longrightarrow> isAnchorCommitData cd \<Longrightarrow> applyAnchorCommit cd s = Inr s'"
  by (auto simp: tileApplyCommit_def split: if_splits)

lemma tileApplySigned_next:
  assumes "tileApplySigned env cd s = Inr s'"
  shows "\<exists>data header n. jsGet (cd_commit cd) ''data'' = Inr data \<and> jsGet (cd_commit cd) ''header'' = Inr header \<and>
    st_next s' = Some n \<and> snd (e_jsonPatch env (streamContent s) data) = Inr (nx_content n) \<and>
    nx_metadata n = jsSpread (case st_next s of None \<Rightarrow> st_metadata s
      | Some n \<Rightarrow> jsNullishOr (nx_metadata n) (st_metadata s)) header"
  using assms by (auto simp: tileApplySigned_def Let_def bindR_Inr_iff split: sum.splits prod.splits)

text \<open>
  A signed commit accepted by the tile handler leaves the confirmed content and metadata alone
  and stages the patched content and the merged metadata as the next ones; the anchor commit that
  follows confirms exactly what was staged.
\<close>

theorem tile_update_then_anchor:
  assumes "tileApplyCommit env cd (Some s) = Inr s1" and "\<not> isAnchorCommitData cd"
    and "tileApplyCommit env a (Some s1) = Inr s2" and "isAnchorCommitData a"
  shows "st_content s1 = st_content s \<and> st_metadata s1 = st_metadata s \<and> st_signature s1 = SIGNED \<and>
    (\<exists>data header n. jsGet (cd_commit cd) ''data'' = Inr data \<and> jsGet (cd_commit cd) ''header'' = Inr header \<and>
      st_next s1 = Some n \<and> snd (e_jsonPatch env (streamContent s) data) = Inr (nx_content n) \<and>
      nx_metadata n = jsSpread (case st_next s of None \<Rightarrow> st_metadata s
        | Some n \<Rightarrow> jsNullishOr (nx_metadata n) (st_metadata s)) header \<and>
      st_next s2 = None \<and> st_metadata s2 = nx_metadata n \<and>
      st_content s2 = jsOr (nx_content n) (st_content s) \<and> st_anchorStatus s2 = ANCHORED)"
proof -
  note sg = tileApplyCommit_signed [OF assms(1,2)]
  note an = tileApplyCommit_anchor [OF assms(3,4)]
  from tileApplySigned_next [OF sg] obtain data header n where
    n: "jsGet (cd_commit cd) ''data'' = Inr data" "jsGet (cd_commit cd) ''header'' = Inr header"
    "st_next s1 = Some n" "snd (e_jsonPatch env (streamContent s) data) = Inr (nx_content n)"
    "nx_metadata n = jsSpread (case st_next s of None \<Rightarrow> st_metadata s
        | Some n \<Rightarrow> jsNullishOr (nx_metadata n) (st_metadata s)) header" by blast
  have "jsTruthy (nx_metadata n)" by (simp add: n(5) jsSpread_def)
  with an n(3) have "st_metadata s2 = nx_metadata n" "st_content s2 = jsOr (nx_content n) (st_content s1)"
    by (auto simp: applyAnchorCommit_def adoptNext_def jsOr_def split: sum.splits option.splits)
  with n tileApplySigned_Inr [OF sg] applyAnchorCommit_Inr [OF an] show ?thesis by auto
qed

definition sampleTile :: stream_state where
  "sampleTile = \<lparr>st_type = TILE_TYPE, st_content = Obj [(''a'', Num 1)], st_next = None,
     st_metadata = Obj [(''controllers'', Arr [Str ''did:a'']), (''forbidControllerChange'', Bool True)],
     st_signature = SIGNED, st_anchorStatus = NOT_REQUESTED, st_anchorProof = Undef,
     st_log = [sampleEntry (CID [1]) INIT NUndef]\<rparr>"

definition sampleTileUpdate :: commit_data where
  "sampleTileUpdate = sampleCommitData (CID [2]) (Obj [(''prev'', CidV (CID [1])), (''data'', Obj [(''a'', Num 2)]),
     (''header'', Obj [(''controllers'', Arr [Str ''did:a''])])]) (Obj [(''by'', Str ''did:a'')]) Undef"

definition sampleTileAnchor :: commit_data where
  "sampleTileAnchor = sampleCommitData (CID [3]) (Obj [(''prev'', CidV (CID [2]))]) Undef Null"

lemma sampleTileUpdate_check: "tileCheckSigned sampleEnv sampleTileUpdate sampleTile = Inr ()"
  by (simp add: tileCheckSigned_def sampleTileUpdate_def sampleTile_def assertCommitLinksToState_def
      jsIndexOpt_def jsGetOpt_def exactlyOneController_def stringArraysEqual_def)

definition sampleTileNext :: stream_state where
  "sampleTileNext = sampleTile\<lparr>st_next := Some \<lparr>nx_content = Obj [(''a'', Num 2)],
       nx_metadata = jsSpread (st_metadata sampleTile) (Obj [(''controllers'', Arr [Str ''did:a''])])\<rparr>,
     st_log := [sampleEntry (CID [1]) INIT NUndef, sampleEntry (CID [2]) DATA NUndef]\<rparr>"

lemma sampleTileUpdate_apply: "tileApplyCommit sampleEnv sampleTileUpdate (Some sampleTile) = Inr sampleTileNext"
  by (simp add: tileApplyCommit_def tileApplySigned_def sampleTileUpdate_check)
    (simp add: sampleTileUpdate_def sampleTile_def sampleTileNext_def streamContent_def tilePatchedNext_def
      jsSpread_def commitDataToLogEntry_def sampleEntry_def jsGetOpt_def bindR_def)

lemma sampleTileAnchor_apply:
  "\<exists>s2. tileApplyCommit sampleEnv sampleTileAnchor (Some sampleTileNext) = Inr s2"
  by (simp add: tileApplyCommit_def applyAnchorCommit_def assertCommitLinksToState_def sampleTileAnchor_def
      sampleTileNext_def sampleTile_def)

theorem tile_update_then_anchor_witness:
  "\<exists>s2. tileApplyCommit sampleEnv sampleTileAnchor (Some sampleTileNext) = Inr s2 \<and>
     st_content s2 = Obj [(''a'', Num 2)]"
proof -
  obtain s2 where s2: "tileApplyCommit sampleEnv sampleTileAnchor (Some sampleTileNext) = Inr s2"
    using sampleTileAnchor_apply by blast
  from tile_update_then_anchor [OF sampleTileUpdate_apply _ s2] s2 show ?thesis
    by (auto simp: sampleTileUpdate_def sampleTileAnchor_def sampleTileNext_def jsOr_def)
qed



text \<open>
  The handler appends a data commit to the log before it applies the patch. When the patch
  then fails, the handler rejects the commit, and yet the log application that tolerates invalid
  commits returns a state whose tip is the rejected commit.
\<close>

theorem tile_rejected_commit_kept:
  assumes "\<not> e_rust env" and "\<not> isAnchorCommitData cd" and "tileCheckSigned env cd s = Inr ()"
    and "jsGet (cd_commit cd) ''data'' = Inr data" and "jsGet (cd_commit cd) ''header'' = Inr header"
    and "e_jsonPatch env (streamContent s) data = (doc, Inl e)"
  shows "(\<exists>m. tileApplyCommit env cd (Some s) = Inl (e, m)) \<and>
    (\<exists>s'. applyLog (tileApplyCommit env) (Some s) [cd] False = Inr (Some s') \<and>
      logCids s' = logCids s @ [le_cid cd] \<and> tipFromState s' = le_cid cd)"
  using assms
  by (simp add: tileApplyCommit_def tileApplySigned_def Let_def logCids_def tipFromState_def)

definition sampleBadUpdate :: commit_data where
  "sampleBadUpdate = sampleCommitData (CID [2]) (Obj [(''prev'', CidV (CID [1])), (''data'', Str ''bad''),
     (''header'', Obj [])]) (Obj [(''by'', Str ''did:a'')]) Undef"

theorem tile_rejected_commit_kept_witness:
  "\<exists>s'. applyLog (tileApplyCommit sampleEnv) (Some sampleTile) [sampleBadUpdate] False = Inr (Some s') \<and>
     tipFromState s' = CID [2]"
proof -
  have "tileCheckSigned sampleEnv sampleBadUpdate sampleTile = Inr ()"
    by (simp add: tileCheckSigned_def sampleBadUpdate_def sampleTile_def assertCommitLinksToState_def
      jsIndexOpt_def jsGetOpt_def)
  from tile_rejected_commit_kept [OF _ _ this, of "Str ''bad''" "Obj []"
      "streamContent sampleTile" "Err ''invalid patch''"] show ?thesis
    by (simp add: sampleBadUpdate_def del: applyLog.simps) blast
qed

end
