(* ===== verification/Caip10Handler.thy ===== *)
theory Caip10Handler
  imports LogApplication
begin

text \<open>
  The handler of Caip10Link streams (\<open>stream-caip10-link-handler/src/caip10-link-handler.ts\<close>) and
  the legacy account identifiers it compares (\<open>common/src/utils/accountid-utils.ts\<close>). The proof
  validation of \<open>blockchain-utils-validation\<close> is the parameter \<open>e_validateLink\<close>. Lower-casing is
  that of ASCII.
\<close>

definition CAIP10_TYPE :: nat where
  "CAIP10_TYPE = 1"

section \<open>Account identifiers\<close>

definition toLegacyAccountId :: "string \<Rightarrow> string" where
  "toLegacyAccountId accountId =
     (if \<not> includesChar accountId CHR ''@'' then
        let accountSplit = jsSplit CHR '':'' accountId;
            address = last accountSplit;
            chainId = jsJoin '':'' (butlast accountSplit)
        in address @ ''@'' @ chainId
      else accountId)"

definition lowerChar :: "char \<Rightarrow> char" where
  "lowerChar c = (let n = of_char c :: nat in if 65 \<le> n \<and> n \<le> 90 then char_of (n + 32) else c)"

definition toLowerCase :: "string \<Rightarrow> string" where
  "toLowerCase s = map lowerChar s"

section \<open>Comparison with anchor timestamps\<close>

fun onumJs :: "onum \<Rightarrow> js" where
  "onumJs (NVal n) = Num (of_int n)"
| "onumJs NNull = Null"
| "onumJs _ = Undef"

section \<open>Applying commits\<close>

definition caipApplyGenesis :: "commit_data \<Rightarrow> js_error + stream_state" where
  "caipApplyGenesis cd =
     (let commit = cd_commit cd in
      bindR (jsGet commit ''data'') (\<lambda>data.
      bindR (throwIf (jsTruthy data) (Err ''Caip10Link genesis commit cannot have data'')) (\<lambda>_.
      bindR (jsGet commit ''header'') (\<lambda>metadata.
      bindR (jsGet metadata ''controllers'') (\<lambda>controllers.
      bindR (exactlyOneController controllers) (\<lambda>_.
      Inr \<lparr> st_type = CAIP10_TYPE, st_content = Null,
            st_next = Some \<lparr>nx_content = Null, nx_metadata = Undef\<rparr>, st_metadata = metadata,
            st_signature = GENESIS, st_anchorStatus = NOT_REQUESTED, st_anchorProof = Undef,
            st_log = [\<lparr>le_cid = le_cid cd, le_type = INIT, le_timestamp = NUndef,
                       le_expiration = NUndef\<rparr>] \<rparr>))))))"

text \<open>
  \<open>proof timestamp too old\<close>: compared with the last anchor of an anchored state, and with the
  \<open>lastUpdate\<close> of the pending update otherwise.
\<close>

definition caipTooOld :: "stream_state \<Rightarrow> js \<Rightarrow> js_error + bool" where
  "caipTooOld state timestamp =
     (if st_signature state = GENESIS then Inr False
      else if st_anchorStatus state = ANCHORED
      then Inr (jsLess timestamp (onumJs (anchorTimestampFromState state)))
      else case st_next state of
        None \<Rightarrow> Inl TypeErr
      | Some n \<Rightarrow> bindR (jsGet (nx_metadata n) ''lastUpdate'') (\<lambda>lastUpdate.
          Inr (jsLess timestamp lastUpdate)))"

definition caipApplySigned :: "env \<Rightarrow> commit_data \<Rightarrow> stream_state \<Rightarrow> js_error + stream_state" where
  "caipApplySigned env cd state =
     (let commit = cd_commit cd in
      bindR (assertCommitLinksToState state commit) (\<lambda>_.
      bindR (case bindR (jsGet commit ''data'') (e_validateLink env) of
               Inl e \<Rightarrow> Inl (Err ''Error while validating link proof for caip10-link signed commit'')
             | Inr p \<Rightarrow> Inr p) (\<lambda>validProof.
      bindR (throwIf (\<not> jsTruthy validProof) (Err ''Invalid proof for signed commit'')) (\<lambda>_.
      bindR (jsGet validProof ''timestamp'') (\<lambda>timestamp.
      bindR (caipTooOld state timestamp) (\<lambda>tooOld.
      bindR (throwIf tooOld (Err ''Invalid commit, proof timestamp too old'')) (\<lambda>_.
      bindR (jsGet validProof ''account'') (\<lambda>acc.
      bindR (jsGet validProof ''address'') (\<lambda>addr.
      bindR (case jsOr acc addr of Str a \<Rightarrow> Inr (toLegacyAccountId a) | _ \<Rightarrow> Inl TypeErr) (\<lambda>legacyAccountCaip10.
      bindR (jsGet (st_metadata state) ''controllers'') (\<lambda>controllers.
      bindR (jsIndex controllers 0) (\<lambda>controller.
      bindR (case controller of Str c \<Rightarrow> Inr c | _ \<Rightarrow> Inl TypeErr) (\<lambda>legacyControllerCaip10.
      bindR (throwIf (\<not> includesChar legacyControllerCaip10 CHR ''@'')
               (Err ''Controller is not following the legacy CAIP10 format. Unexpected error.'')) (\<lambda>_.
      bindR (throwIf (toLowerCase legacyAccountCaip10 \<noteq> toLowerCase legacyControllerCaip10)
               (Err ''Address used to sign update to Caip10Link doesn't match stream controller'')) (\<lambda>_.
      bindR (jsGet validProof ''did'') (\<lambda>did.
      Inr (state\<lparr>st_log := st_log state @ [\<lparr>le_cid = le_cid cd, le_type = DATA,
                            le_timestamp = NUndef, le_expiration = NUndef\<rparr>],
                 st_signature := SIGNED, st_anchorStatus := NOT_REQUESTED,
                 st_next := Some \<lparr>nx_content = did,
                   nx_metadata = jsSpread (st_metadata state) (Obj [(''lastUpdate'', timestamp)])\<rparr>\<rparr>)
     ))))))))))))))))"

text \<open>Every check precedes the push to the log: a rejected commit leaves the state alone.\<close>

definition caipApplyCommit :: "env \<Rightarrow> apply_commit" where
  "caipApplyCommit env cd state =
     (if e_rust env then Inl (Err ''Caip10Link is not supported in Ceramic v4 mode'', state)
      else case state of
        None \<Rightarrow> (case caipApplyGenesis cd of Inl e \<Rightarrow> Inl (e, None) | Inr s \<Rightarrow> Inr s)
      | Some s \<Rightarrow> if isAnchorCommitData cd then liftHandled (applyAnchorCommit cd s)
                  else (case caipApplySigned env cd s of Inl e \<Rightarrow> Inl (e, Some s) | Inr s' \<Rightarrow> Inr s'))"

section \<open>Lemmas\<close>

lemma caipApplyGenesis_Inr:
  assumes "caipApplyGenesis cd = Inr s"
  shows "st_type s = CAIP10_TYPE" and "logCids s = [le_cid cd]" and "map le_type (st_log s) = [INIT]"
    and "st_signature s = GENESIS"
  using assms by (auto simp: caipApplyGenesis_def Let_def res_simps logCids_def)

lemma caipApplySigned_Inr:
  assumes "caipApplySigned env cd s = Inr s'"
  shows "jsGet (cd_commit cd) ''prev'' = Inr (CidV (tipFromState s))"
    and "logCids s' = logCids s @ [le_cid cd]"
    and "map le_type (st_log s') = map le_type (st_log s) @ [DATA]"
    and "st_type s' = st_type s" and "st_content s' = st_content s" and "st_metadata s' = st_metadata s"
    and "st_signature s' = SIGNED" and "st_anchorStatus s' = NOT_REQUESTED"
  using assms by (auto simp: caipApplySigned_def Let_def res_simps logCids_def
      dest: assertCommitLinksToState_Inr)

interpretation caip: atomic_handler "caipApplyCommit env" CAIP10_TYPE for env
proof
  fix cd s s' e m
  show "st_type s = CAIP10_TYPE \<and> logCids s = [le_cid cd] \<and> map le_type (st_log s) = [INIT]"
    if "caipApplyCommit env cd None = Inr s"
    using that by (simp add: caipApplyCommit_def caipApplyGenesis_Inr split: if_splits sum.splits)
  show "m = None" if "caipApplyCommit env cd None = Inl (e, m)"
    using that by (auto simp: caipApplyCommit_def split: if_splits sum.splits)
  assume "caipApplyCommit env cd (Some s) = Inr s'"
  then consider (anchor) "isAnchorCommitData cd" "applyAnchorCommit cd s = Inr s'"
    | (signed) "\<not> isAnchorCommitData cd" "caipApplySigned env cd s = Inr s'"
    by (auto simp: caipApplyCommit_def split: if_splits sum.splits)
  note cases = this
  show "logCids s' = logCids s @ [le_cid cd]"
    using cases by cases (auto simp: applyAnchorCommit_Inr caipApplySigned_Inr)
  show "map le_type (st_log s') = map le_type (st_log s) @ [if isAnchorCommitData cd then TIME else DATA]"
    using cases by cases (auto simp: applyAnchorCommit_Inr caipApplySigned_Inr)
  show "st_type s' = st_type s"
    using cases by cases (auto simp: applyAnchorCommit_Inr caipApplySigned_Inr)
  show "jsGet (cd_commit cd) ''prev'' = Inr (CidV (tipFromState s))"
    using cases by cases (auto simp: applyAnchorCommit_Inr caipApplySigned_Inr)
next
  fix cd s e m
  assume "caipApplyCommit env cd (Some s) = Inl (e, m)"
  then show "m = Some s"
    by (auto simp: caipApplyCommit_def liftHandled_Inl split: if_splits sum.splits
        dest: applyAnchorCommit_Inl)
  then show "\<exists>s'. m = Some s' \<and> st_type s' = st_type s \<and>
      ((logCids s' = logCids s \<and> map le_type (st_log s') = map le_type (st_log s)) \<or>
       (logCids s' = logCids s @ [le_cid cd] \<and> map le_type (st_log s') = map le_type (st_log s) @ [DATA]))"
    by simp
qed

section \<open>Properties\<close>

text \<open>What an accepted update has been checked for.\<close>

lemma caipApplySigned_checks:
  assumes "caipApplySigned env cd s = Inr s'"
  shows "\<exists>data p timestamp acc addr account controllers controller did.
    jsGet (cd_commit cd) ''data'' = Inr data \<and> e_validateLink env data = Inr p \<and> jsTruthy p \<and>
    jsGet p ''timestamp'' = Inr timestamp \<and> caipTooOld s timestamp = Inr False \<and>
    jsGet p ''account'' = Inr acc \<and> jsGet p ''address'' = Inr addr \<and> jsOr acc addr = Str account \<and>
    jsGet (st_metadata s) ''controllers'' = Inr controllers \<and> jsIndex controllers 0 = Inr (Str controller) \<and>
    toLowerCase (toLegacyAccountId account) = toLowerCase controller \<and>
    jsGet p ''did'' = Inr did \<and>
    st_next s' = Some \<lparr>nx_content = did,
      nx_metadata = jsSpread (st_metadata s) (Obj [(''lastUpdate'', timestamp)])\<rparr>"
proof -
  have str: "(case v of Str a \<Rightarrow> Inr (f a) | _ \<Rightarrow> Inl TypeErr) = (Inr x :: js_error + string) \<longleftrightarrow>
      (\<exists>a. v = Str a \<and> x = f a)" for v f x
    by (cases v) auto
  have vl: "(case m of Inl e \<Rightarrow> Inl (e' e) | Inr p \<Rightarrow> Inr p) = (Inr x :: js_error + js) \<longleftrightarrow> m = Inr x"
    for m :: "js_error + js" and e' x
    by (cases m) auto
  from assms obtain data p timestamp acc addr account controllers controller did tooOld where
    c: "jsGet (cd_commit cd) ''data'' = Inr data" "e_validateLink env data = Inr p" "jsTruthy p"
    "jsGet p ''timestamp'' = Inr timestamp" "caipTooOld s timestamp = Inr tooOld"
    "jsGet p ''account'' = Inr acc" "jsGet p ''address'' = Inr addr" "jsOr acc addr = Str account"
    "jsGet (st_metadata s) ''controllers'' = Inr controllers" "jsIndex controllers 0 = Inr (Str controller)"
    "toLowerCase (toLegacyAccountId account) = toLowerCase controller"
    "jsGet p ''did'' = Inr did"
    "s\<lparr>st_log := st_log s @ [\<lparr>le_cid = le_cid cd, le_type = DATA, le_timestamp = NUndef,
        le_expiration = NUndef\<rparr>], st_signature := SIGNED, st_anchorStatus := NOT_REQUESTED,
        st_next := Some \<lparr>nx_content = did,
          nx_metadata = jsSpread (st_metadata s) (Obj [(''lastUpdate'', timestamp)])\<rparr>\<rparr> = s'"
    "\<not> tooOld"
    unfolding caipApplySigned_def Let_def bindR_Inr_iff throwIf_Inr_iff ex_unit str vl not_not sum.inject
    by blast
  from c(13) have "st_next s' = Some \<lparr>nx_content = did,
      nx_metadata = jsSpread (st_metadata s) (Obj [(''lastUpdate'', timestamp)])\<rparr>" by auto
  moreover have "caipTooOld s timestamp = Inr False" using c(5,14) by simp
  ultimately show ?thesis using c(1-4,6-12) by blast
qed

text \<open>
  Only a proof for the account that controls the stream can change a Caip10Link: the account
  of the validated proof, in its legacy form, equals the controller up to case, and the DID of that
  proof becomes the next content. The confirmed content changes only with the next anchor.
\<close>

theorem caip_owner_only:
  assumes "caipApplyCommit env cd (Some s) = Inr s'" and "\<not> isAnchorCommitData cd"
  shows "\<exists>data p acc addr account controllers controller did n.
    jsGet (cd_commit cd) ''data'' = Inr data \<and> e_validateLink env data = Inr p \<and>
    jsGet p ''account'' = Inr acc \<and> jsGet p ''address'' = Inr addr \<and> jsOr acc addr = Str account \<and>
    jsGet (st_metadata s) ''controllers'' = Inr controllers \<and> jsIndex controllers 0 = Inr (Str controller) \<and>
    toLowerCase (toLegacyAccountId account) = toLowerCase controller \<and>
    jsGet p ''did'' = Inr did \<and> st_next s' = Some n \<and> nx_content n = did \<and>
    st_content s' = st_content s \<and> st_metadata s' = st_metadata s"
proof -
  from assms have "caipApplySigned env cd s = Inr s'"
    by (auto simp: caipApplyCommit_def split: if_splits sum.splits)
  note c = caipApplySigned_checks [OF this] and r = caipApplySigned_Inr [OF this]
  from c obtain data p acc addr account controllers controller did n where
    "jsGet (cd_commit cd) ''data'' = Inr data" "e_validateLink env data = Inr p"
    "jsGet p ''account'' = Inr acc" "jsGet p ''address'' = Inr addr" "jsOr acc addr = Str account"
    "jsGet (st_metadata s) ''controllers'' = Inr controllers" "jsIndex controllers 0 = Inr (Str controller)"
    "toLowerCase (toLegacyAccountId account) = toLowerCase controller"
    "jsGet p ''did'' = Inr did" "st_next s' = Some n" "nx_content n = did"
    by (elim exE conjE) (simp only: stream_next.select_convs)
  with r(5,6) show ?thesis by blast
qed

definition sampleCaip :: stream_state where
  "sampleCaip = \<lparr>st_type = CAIP10_TYPE, st_content = Null, st_next = None,
     st_metadata = Obj [(''controllers'', Arr [Str ''0xa@e:1''])], st_signature = GENESIS,
     st_anchorStatus = NOT_REQUESTED, st_anchorProof = Undef,
     st_log = [sampleEntry (CID [1]) INIT NUndef]\<rparr>"

definition sampleLink :: "cid \<Rightarrow> cid \<Rightarrow> rat \<Rightarrow> commit_data" where
  "sampleLink c prev t = sampleCommitData c (Obj [(''prev'', CidV prev), (''data'',
     Obj [(''timestamp'', Num t), (''account'', Str ''e:1:0xA''), (''did'', Str ''did:a'')])]) Undef Undef"

definition sampleLinked :: "stream_state \<Rightarrow> cid \<Rightarrow> rat \<Rightarrow> stream_state" where
  "sampleLinked s c t = s\<lparr>st_log := st_log s @ [sampleEntry c DATA NUndef], st_signature := SIGNED,
     st_anchorStatus := NOT_REQUESTED, st_next := Some \<lparr>nx_content = Str ''did:a'',
       nx_metadata = jsSpread (st_metadata s) (Obj [(''lastUpdate'', Num t)])\<rparr>\<rparr>"

lemma sampleLegacyAccount: "toLowerCase (toLegacyAccountId ''e:1:0xA'') = toLowerCase ''0xa@e:1''"
  by code_simp

lemma sampleLink_apply1:
  "caipApplyCommit sampleEnv (sampleLink (CID [2]) (CID [1]) 5) (Some sampleCaip)
     = Inr (sampleLinked sampleCaip (CID [2]) 5)"
  using sampleLegacyAccount
  by (simp add: caipApplyCommit_def caipApplySigned_def sampleLink_def sampleCaip_def sampleLinked_def
      assertCommitLinksToState_def caipTooOld_def jsOr_def includesChar_def sampleEntry_def)

lemma sampleLink_apply2:
  "caipApplyCommit sampleEnv (sampleLink (CID [3]) (CID [2]) 6) (Some (sampleLinked sampleCaip (CID [2]) 5))
     = Inr (sampleLinked (sampleLinked sampleCaip (CID [2]) 5) (CID [3]) 6)"
  using sampleLegacyAccount
  by (simp add: caipApplyCommit_def caipApplySigned_def sampleLink_def sampleCaip_def sampleLinked_def
      assertCommitLinksToState_def caipTooOld_def jsOr_def includesChar_def sampleEntry_def jsSpread_def)

theorem caip_owner_only_witness:
  "\<exists>n. st_next (sampleLinked sampleCaip (CID [2]) 5) = Some n \<and> nx_content n = Str ''did:a''"
  using caip_owner_only [OF sampleLink_apply1]
  by (auto simp: sampleLink_def sampleLinked_def)

text \<open>
  A Caip10Link cannot be rolled back with an old proof: between anchors, the timestamp of each
  accepted proof is not below the one before; after an anchor, it is not below the anchor time.
\<close>

theorem caip_no_rollback:
  assumes "caipApplyCommit env cd (Some s) = Inr s'" and "\<not> isAnchorCommitData cd"
    and "st_signature s = SIGNED"
  shows "\<exists>n' newTime. st_next s' = Some n' \<and> jsGet (nx_metadata n') ''lastUpdate'' = Inr newTime \<and>
    (if st_anchorStatus s = ANCHORED then \<not> jsLess newTime (onumJs (anchorTimestampFromState s))
     else (\<exists>n oldTime. st_next s = Some n \<and> jsGet (nx_metadata n) ''lastUpdate'' = Inr oldTime \<and>
             \<not> jsLess newTime oldTime))"
proof -
  from assms(1,2) have "caipApplySigned env cd s = Inr s'"
    by (auto simp: caipApplyCommit_def split: if_splits sum.splits)
  from caipApplySigned_checks [OF this] obtain timestamp did where
    t: "caipTooOld s timestamp = Inr False"
    and n: "st_next s' = Some \<lparr>nx_content = did,
      nx_metadata = jsSpread (st_metadata s) (Obj [(''lastUpdate'', timestamp)])\<rparr>" by blast
  have "jsGet (jsSpread (st_metadata s) (Obj [(''lastUpdate'', timestamp)])) ''lastUpdate'' = Inr timestamp"
    by (simp add: jsSpread_def del: lookupField.simps)
  with t n assms(3) show ?thesis
    by (auto simp: caipTooOld_def bindR_Inr_iff split: option.splits if_splits)
qed

theorem caip_no_rollback_witness:
  "\<exists>n' newTime. st_next (sampleLinked (sampleLinked sampleCaip (CID [2]) 5) (CID [3]) 6) = Some n' \<and>
     jsGet (nx_metadata n') ''lastUpdate'' = Inr newTime"
  using caip_no_rollback [OF sampleLink_apply2] by (auto simp: sampleLink_def sampleLinked_def)

end
