(* ===== verification/ModelInterfaces.thy ===== *)
theory ModelInterfaces
  imports Signatures
begin

text \<open>
  Interfaces of models (\<open>stream-model-handler/src/interfaces-utils.ts\<close>): whether the JSON schema,
  relations, views and immutable fields of a model implement those of the interfaces it names.
  The validators of the schema types call each other recursively, also through \<open>$ref\<close>s, so the
  recursion need not end: the depth of the JavaScript stack is an argument, and exceeding it is
  the RangeError the engine throws. \<open>lodash.ismatch\<close> and \<open>json-ptr\<close> are the parameters
  \<open>e_isMatch\<close> and \<open>e_resolveRef\<close>.
\<close>

section \<open>Validation errors\<close>

record verror =
  ve_path :: "string list"
  ve_property :: "string option"
  ve_index :: "nat option"
  ve_expected :: js
  ve_actual :: js

definition propError :: "string list \<Rightarrow> string \<Rightarrow> js \<Rightarrow> js \<Rightarrow> verror" where
  "propError path prop expected actual =
     \<lparr>ve_path = path, ve_property = Some prop, ve_index = None, ve_expected = expected, ve_actual = actual\<rparr>"

definition indexError :: "string list \<Rightarrow> nat \<Rightarrow> js \<Rightarrow> verror" where
  "indexError path i expected =
     \<lparr>ve_path = path, ve_property = None, ve_index = Some i, ve_expected = expected, ve_actual = Undef\<rparr>"

definition bareError :: "string list \<Rightarrow> js \<Rightarrow> js \<Rightarrow> verror" where
  "bareError path expected actual =
     \<lparr>ve_path = path, ve_property = None, ve_index = None, ve_expected = expected, ve_actual = actual\<rparr>"

definition getErrorMessage :: "(js \<Rightarrow> string) \<Rightarrow> verror \<Rightarrow> string" where
  "getErrorMessage fmt d =
     (let path = jsJoin ''.'' (ve_path d);
          target = (case ve_property d of
              Some p \<Rightarrow> if p \<noteq> [] then ''property '' @ p @ '' of '' @ path else path
            | None \<Rightarrow> (case ve_index d of
                Some i \<Rightarrow> if i \<noteq> 0 then ''index '' @ natStr i @ '' of '' @ path else path
              | None \<Rightarrow> path));
          actual = (if jsTruthy (ve_actual d) then jsString fmt (ve_actual d) else ''no value'')
      in ''Invalid value for '' @ target @ '': expected '' @ jsString fmt (ve_expected d) @
         '' but got '' @ actual)"

section \<open>Schemas of a single type\<close>

text \<open>The schemas under validation are objects: reading a keyword of one never throws.\<close>

definition kw :: "js \<Rightarrow> string \<Rightarrow> js" where
  "kw schema k = jsGetOpt schema k"

definition errIf :: "bool \<Rightarrow> verror \<Rightarrow> verror list" where
  "errIf b e = (if b then [e] else [])"


definition constErrors :: "string list \<Rightarrow> js \<Rightarrow> js \<Rightarrow> verror list" where
  "constErrors path expected implemented =
     errIf (\<not> jsNullish (kw expected ''const'') \<and>
            \<not> jsStrictEq (kw implemented ''const'') (kw expected ''const''))
       (propError path ''const'' (kw expected ''const'') (kw implemented ''const''))"

definition validateBooleanSchema :: "string list \<Rightarrow> js \<Rightarrow> js \<Rightarrow> verror list" where
  "validateBooleanSchema path expected implemented = constErrors path expected implemented"

text \<open>
  One bound keyword: \<open>constBad\<close> compares the implemented constant with the expected bound, and
  \<open>boundBad\<close> the implemented bound with it.
\<close>

definition boundErrors ::
  "string list \<Rightarrow> js \<Rightarrow> js \<Rightarrow> string \<Rightarrow> (js \<Rightarrow> js \<Rightarrow> bool) \<Rightarrow> (js \<Rightarrow> js \<Rightarrow> bool) \<Rightarrow> verror list" where
  "boundErrors path expected implemented k constBad boundBad =
     (let e = kw expected k; i = kw implemented k; c = kw implemented ''const'' in
      if jsNullish e then []
      else if \<not> jsNullish c then errIf (constBad c e) (propError path k e c)
      else errIf (jsNullish i \<or> boundBad i e) (propError path k e i))"

definition validateNumberSchema :: "string list \<Rightarrow> js \<Rightarrow> js \<Rightarrow> verror list" where
  "validateNumberSchema path expected implemented =
     constErrors path expected implemented
     @ boundErrors path expected implemented ''maximum'' (\<lambda>c e. jsLess e c) (\<lambda>i e. jsLess e i)
     @ boundErrors path expected implemented ''minimum'' (\<lambda>c e. jsLess c e) (\<lambda>i e. jsLess i e)
     @ boundErrors path expected implemented ''exclusiveMaximum'' (\<lambda>c e. jsLeq e c) (\<lambda>i e. jsLess e i)
     @ boundErrors path expected implemented ''exclusiveMinimum'' (\<lambda>c e. jsLeq c e) (\<lambda>i e. jsLess i e)"

definition enumErrors :: "string list \<Rightarrow> js \<Rightarrow> js \<Rightarrow> js_error + verror list" where
  "enumErrors path expected implemented =
     (let e = kw expected ''enum''; i = kw implemented ''enum''; c = kw implemented ''const'' in
      if jsNullish e then Inr []
      else if \<not> jsNullish c then
        bindR (jsIncludes e c) (\<lambda>has. Inr (errIf (\<not> has) (propError path ''enum'' e c)))
      else if \<not> jsNullish i then
        bindR (jsArray e) (\<lambda>es. bindR (jsArray i) (\<lambda>is.
        let hasAnyValue = (\<exists>v \<in> set es. \<exists>w \<in> set is. jsStrictEq w v) in
        Inr (if hasAnyValue
             then errIf (\<exists>v \<in> set is. \<not> (\<exists>w \<in> set es. jsStrictEq w v)) (propError path ''enum'' e i)
             else [propError path ''enum'' e i])))
      else Inr [propError path ''enum'' e Undef])"

text \<open>\<open>implemented.const.length\<close>\<close>

definition lengthOf :: "js \<Rightarrow> js" where
  "lengthOf v = jsGetOpt v ''length''"

definition validateStringSchema :: "string list \<Rightarrow> js \<Rightarrow> js \<Rightarrow> js_error + verror list" where
  "validateStringSchema path expected implemented =
     bindR (enumErrors path expected implemented) (\<lambda>enumErrs.
     let p = kw expected ''pattern''; q = kw implemented ''pattern'' in
     Inr (constErrors path expected implemented @ enumErrs
       @ errIf (\<not> jsNullish p \<and> \<not> jsStrictEq q p) (propError path ''pattern'' p q)
       @ boundErrors path expected implemented ''maxLength''
           (\<lambda>c e. jsLess e (lengthOf c)) (\<lambda>i e. jsLess e i)
       @ boundErrors path expected implemented ''minLength''
           (\<lambda>c e. jsLess (lengthOf c) e) (\<lambda>i e. jsLess i e)))"

section \<open>Schemas with subschemas\<close>

text \<open>
  \<open>resolvers\<close> are \<open>resolveExpected\<close> and \<open>resolveImplemented\<close>; \<open>rec\<close> is the call of
  \<open>validateSchemaType\<close>.
\<close>

type_synonym resolver = "js \<Rightarrow> js_error + js"

type_synonym validator = "string list \<Rightarrow> js \<Rightarrow> js \<Rightarrow> js_error + verror list"

definition resolveReference :: "(js \<Rightarrow> js \<Rightarrow> js_error + js) \<Rightarrow> js \<Rightarrow> js \<Rightarrow> js_error + js" where
  "resolveReference resolveRef childSchema parentSchema =
     bindR (jsGet childSchema ''$ref'') (\<lambda>ref.
     bindR (if \<not> jsNullish ref then resolveRef ref parentSchema else Inr childSchema) (\<lambda>schema.
     Inr (jsNullishOr schema Null)))"

definition validateArraySchema :: "validator \<Rightarrow> resolver \<Rightarrow> resolver \<Rightarrow> validator" where
  "validateArraySchema rec resolveExpected resolveImplemented path expected implemented =
     (let maxE = kw expected ''maxItems''; maxI = kw implemented ''maxItems'';
          minE = kw expected ''minItems''; minI = kw implemented ''minItems'';
          itemsE = kw expected ''items''; itemsI = kw implemented ''items'';
          errors =
            errIf (\<not> jsNullish maxE \<and> (jsNullish maxI \<or> jsLess maxE maxI))
              (propError path ''maxItems'' maxE maxI)
            @ errIf (\<not> jsNullish minE \<and> (jsNullish minI \<or> jsLess minI minE))
              (propError path ''minItems'' minE minI)
      in if jsNullish itemsE \<or> jsNullish itemsI
         then Inr (errors @ [propError path ''items'' itemsE itemsI])
         else bindR (resolveExpected itemsE) (\<lambda>re.
           bindR (resolveImplemented itemsI) (\<lambda>ri.
           if jsNullish re \<or> jsNullish ri then Inr (errors @ [propError path ''items'' re ri])
           else bindR (rec (path @ [''items'']) re ri) (\<lambda>errs. Inr (errors @ errs)))))"

definition validateProperty :: "validator \<Rightarrow> resolver \<Rightarrow> resolver \<Rightarrow> string list \<Rightarrow> js \<Rightarrow>
    string \<times> js \<Rightarrow> js_error + verror list" where
  "validateProperty rec resolveExpected resolveImplemented path implementedProperties entry =
     (let (key, expectedValue) = entry; implementedValue = kw implementedProperties key in
      if jsNullish implementedValue then Inr [propError path ''properties'' (Str key) Undef]
      else bindR (resolveExpected expectedValue) (\<lambda>re.
        bindR (resolveImplemented implementedValue) (\<lambda>ri. rec (path @ [key]) re ri)))"

definition validateObjectSchema :: "validator \<Rightarrow> resolver \<Rightarrow> resolver \<Rightarrow> validator" where
  "validateObjectSchema rec resolveExpected resolveImplemented path expected implemented =
     bindR (jsArray (jsNullishOr (kw expected ''required'') (Arr []))) (\<lambda>required.
     bindR (mapR (\<lambda>r. bindR (jsIncludes (jsNullishOr (kw implemented ''required'') (Arr [])) r) (\<lambda>has.
              Inr (errIf (\<not> has) (propError path ''required'' r Undef)))) required) (\<lambda>errors.
     bindR (mapR (validateProperty rec resolveExpected resolveImplemented path
                   (jsNullishOr (kw implemented ''properties'') (Obj [])))
              (jsFields (jsNullishOr (kw expected ''properties'') (Obj [])))) (\<lambda>propertyErrors.
     Inr (concat errors @ concat propertyErrors))))"

text \<open>Whether some implemented schema validates, tried in order.\<close>

fun firstMatch :: "validator \<Rightarrow> string list \<Rightarrow> js \<Rightarrow> js list \<Rightarrow> js_error + bool" where
  "firstMatch rec path expected [] = Inr False"
| "firstMatch rec path expected (i # is) =
     bindR (rec path expected i) (\<lambda>errs.
     if errs = [] then Inr True else firstMatch rec path expected is)"

fun allLoop :: "validator \<Rightarrow> string list \<Rightarrow> nat \<Rightarrow> js list \<Rightarrow> js list \<Rightarrow> js_error + verror list" where
  "allLoop rec path index [] implementedList = Inr []"
| "allLoop rec path index (e # es) implementedList =
     bindR (firstMatch rec path e implementedList) (\<lambda>found.
     bindR (allLoop rec path (index + 1) es implementedList) (\<lambda>errs.
     Inr (errIf (\<not> found) (indexError path index e) @ errs)))"

definition validateAllSchemaTypes ::
  "validator \<Rightarrow> string list \<Rightarrow> js list \<Rightarrow> js list \<Rightarrow> js_error + verror list" where
  "validateAllSchemaTypes rec path expectedList implementedList =
     (if length implementedList \<noteq> length expectedList
      then Inr [propError path ''length'' (Num (of_nat (length expectedList)))
                 (Num (of_nat (length implementedList)))]
      else allLoop rec path 0 expectedList implementedList)"

fun anyLoop :: "validator \<Rightarrow> string list \<Rightarrow> nat \<Rightarrow> verror list \<Rightarrow> js list \<Rightarrow> js list \<Rightarrow>
    js_error + verror list" where
  "anyLoop rec path index errors [] implementedList = Inr errors"
| "anyLoop rec path index errors (e # es) implementedList =
     bindR (firstMatch rec path e implementedList) (\<lambda>found.
     if found then Inr []
     else anyLoop rec path (index + 1) (errors @ [indexError path index e]) es implementedList)"

definition validateAnySchemaTypes ::
  "validator \<Rightarrow> string list \<Rightarrow> js list \<Rightarrow> js list \<Rightarrow> js_error + verror list" where
  "validateAnySchemaTypes rec path expectedList implementedList =
     anyLoop rec path 0 [] expectedList implementedList"

section \<open>The dispatch on the schema type\<close>

fun arrayOf :: "js \<Rightarrow> js list option" where
  "arrayOf (Arr xs) = Some xs"
| "arrayOf _ = None"

definition subschemaErrors :: "validator \<Rightarrow> string list \<Rightarrow> string \<Rightarrow> js list \<Rightarrow> js \<Rightarrow>
    js_error + verror list" where
  "subschemaErrors rec path k expectedList implemented =
     (case arrayOf (kw implemented k) of
        Some is \<Rightarrow> validateAllSchemaTypes rec (path @ [k]) expectedList is
      | None \<Rightarrow> Inr [propError path k (Arr expectedList) (kw implemented k)])"

definition typedErrors :: "validator \<Rightarrow> resolver \<Rightarrow> resolver \<Rightarrow> validator" where
  "typedErrors rec resolveExpected resolveImplemented path expected implemented =
     (let t = kw expected ''type'' in
      if t = Str ''array'' then
        validateArraySchema rec resolveExpected resolveImplemented path expected implemented
      else if t = Str ''object'' then
        validateObjectSchema rec resolveExpected resolveImplemented path expected implemented
      else if t = Str ''integer'' \<or> t = Str ''number'' then
        Inr (validateNumberSchema path expected implemented)
      else if t = Str ''string'' then validateStringSchema path expected implemented
      else if t = Str ''boolean'' then Inr (validateBooleanSchema path expected implemented)
      else if t = Str ''null'' then Inr []
      else Inl (Err ''Unsupported schema type''))"

text \<open>Two schemas of which neither is a boolean, and the test for boolean schemas before them.\<close>

definition schemaObjects :: "validator \<Rightarrow> resolver \<Rightarrow> resolver \<Rightarrow> validator" where
  "schemaObjects rec resolveExpected resolveImplemented path expected implemented =
     bindR (jsGet expected ''title'') (\<lambda>title.
     bindR (if jsNullish title then Inr [] else bindR (jsGet implemented ''title'') (\<lambda>title'.
              Inr (errIf (\<not> jsStrictEq title' title) (propError path ''title'' title title')))) (\<lambda>errors.
     bindR (jsGet implemented ''type'') (\<lambda>type.
     bindR (case (arrayOf (kw expected ''allOf''), arrayOf (kw expected ''anyOf''),
                  arrayOf (kw expected ''oneOf'')) of
              (Some es, _, _) \<Rightarrow> subschemaErrors rec path ''allOf'' es implemented
            | (None, Some es, _) \<Rightarrow> validateAnySchemaTypes rec (path @ [''anyOf'']) es
                (case arrayOf (kw implemented ''anyOf'') of Some is \<Rightarrow> is | None \<Rightarrow> [implemented])
            | (None, None, Some es) \<Rightarrow> subschemaErrors rec path ''oneOf'' es implemented
            | (None, None, None) \<Rightarrow>
                if \<not> jsStrictEq type (kw expected ''type'')
                then Inr [propError path ''type'' (kw expected ''type'') type]
                else typedErrors rec resolveExpected resolveImplemented path expected implemented)
       (\<lambda>errs. Inr (errors @ errs)))))"

definition schemaBody :: "validator \<Rightarrow> resolver \<Rightarrow> resolver \<Rightarrow> validator" where
  "schemaBody rec resolveExpected resolveImplemented path expected implemented =
     (case expected of
        Bool b \<Rightarrow> Inr (errIf (implemented \<noteq> Bool b) (bareError path expected implemented))
      | _ \<Rightarrow> (case implemented of
          Bool _ \<Rightarrow> Inr [bareError path expected implemented]
        | _ \<Rightarrow> schemaObjects rec resolveExpected resolveImplemented path expected implemented))"

fun validateSchemaType :: "nat \<Rightarrow> resolver \<Rightarrow> resolver \<Rightarrow> validator" where
  "validateSchemaType 0 resolveExpected resolveImplemented path expected implemented =
     Inl (Err ''Maximum call stack size exceeded'')"
| "validateSchemaType (Suc depth) resolveExpected resolveImplemented path expected implemented =
     schemaBody (validateSchemaType depth resolveExpected resolveImplemented)
       resolveExpected resolveImplemented path expected implemented"

definition validateSchemaImplementation :: "env \<Rightarrow> js \<Rightarrow> js \<Rightarrow> js_error + verror list" where
  "validateSchemaImplementation env expected implemented =
     validateSchemaType (e_stackDepth env)
       (\<lambda>schema. resolveReference (e_resolveRef env) schema expected)
       (\<lambda>schema. resolveReference (e_resolveRef env) schema implemented) [] expected implemented"

section \<open>Implementing an interface\<close>

definition validateInterface :: "js \<Rightarrow> js_error + unit" where
  "validateInterface model =
     throwIf (jsFields (jsNullishOr (kw (kw model ''schema'') ''properties'') (Obj [])) = [] \<and>
              jsFields (jsNullishOr (kw model ''views'') (Obj [])) = [])
       (Err ''Invalid interface: a least one propery or view must be present'')"

text \<open>\<open>(expected = {}, implemented = {}) => isMatch(implemented, expected)\<close>\<close>

definition orEmpty :: "js \<Rightarrow> js" where
  "orEmpty v = (if v = Undef then Obj [] else v)"

definition isValidRelationsImplementation :: "env \<Rightarrow> js \<Rightarrow> js \<Rightarrow> bool" where
  "isValidRelationsImplementation env expected implemented =
     e_isMatch env (orEmpty implemented) (orEmpty expected)"

definition isValidViewsImplementation :: "env \<Rightarrow> js \<Rightarrow> js \<Rightarrow> bool" where
  "isValidViewsImplementation env expected implemented =
     e_isMatch env (orEmpty implemented) (orEmpty expected)"

definition noImmutable :: "js \<Rightarrow> bool" where
  "noImmutable model \<longleftrightarrow> kw model ''version'' = Str ''1.0'' \<or> jsNullish (kw model ''immutableFields'') \<or>
     kw (kw model ''immutableFields'') ''length'' = Num 0"

definition isValidImmutabilityImplementation :: "js \<Rightarrow> js \<Rightarrow> js_error + bool" where
  "isValidImmutabilityImplementation expected implemented =
     (if noImmutable expected then Inr True
      else if noImmutable implemented then Inr False
      else bindR (jsArray (kw expected ''immutableFields'')) (\<lambda>fieldNames.
        bindR (mapR (\<lambda>field. jsIncludes (kw implemented ''immutableFields'') field) fieldNames) (\<lambda>bs.
        Inr (\<forall>b \<in> set bs. b))))"

definition validateInterfaceImplementation :: "env \<Rightarrow> string \<Rightarrow> js \<Rightarrow> js \<Rightarrow> js_error + unit" where
  "validateInterfaceImplementation env interfaceID expected implemented =
     bindR (jsGet expected ''schema'') (\<lambda>expectedSchema.
     bindR (jsGet implemented ''schema'') (\<lambda>implementedSchema.
     bindR (validateSchemaImplementation env expectedSchema implementedSchema) (\<lambda>schemaErrors.
     bindR (isValidImmutabilityImplementation expected implemented) (\<lambda>immutable.
     let schemaErr = (if schemaErrors \<noteq> [] then
            [AggErr (''Invalid schema implementation of interface '' @ interfaceID)
               (map (\<lambda>d. Err (getErrorMessage (e_fmt env) d)) schemaErrors)] else []);
         relErr = (if isValidRelationsImplementation env (kw expected ''relations'') (kw implemented ''relations'')
            then [] else [Err (''Invalid relations implementation of interface '' @ interfaceID)]);
         viewErr = (if isValidViewsImplementation env (kw expected ''views'') (kw implemented ''views'')
            then [] else [Err (''Invalid views implementation of interface '' @ interfaceID)]);
         immErr = (if immutable
            then [] else [Err (''Invalid immutable fields implementation of interface '' @ interfaceID)]);
         errors = schemaErr @ relErr @ viewErr @ immErr
     in throwIf (errors \<noteq> []) (AggErr (''Invalid implementation of interface '' @ interfaceID) errors)))))"

text \<open>\<open>Model.load\<close>: only references to Model streams are loaded.\<close>

definition MODEL_TYPE :: nat where
  "MODEL_TYPE = 2"

definition modelLoad :: "env \<Rightarrow> ref_arg \<Rightarrow> js_error + loaded_stream" where
  "modelLoad env streamId =
     bindR (streamRefFrom (e_lib env) streamId) (\<lambda>streamRef.
     bindR (throwIf (refType streamRef \<noteq> MODEL_TYPE)
              (Err ''StreamID does not refer to a 'model' stream'')) (\<lambda>_.
     e_loadStream env streamRef))"

text \<open>A dynamically typed argument of \<open>StreamRef.from\<close>\<close>

fun refArgOf :: "js \<Rightarrow> ref_arg" where
  "refArgOf (Str s) = ArgString s"
| "refArgOf (SidV s) = ArgStream s"
| "refArgOf (Bytes bs) = ArgBytes bs"
| "refArgOf _ = ArgOther"

text \<open>The errors of the interfaces, in the order of the list.\<close>

definition interfaceErrors :: "env \<Rightarrow> js \<Rightarrow> js list \<Rightarrow> js_error list" where
  "interfaceErrors env model ids = concat (map (\<lambda>interfaceID.
     case bindR (modelLoad env (refArgOf interfaceID)) (\<lambda>interfaceModel.
            validateInterfaceImplementation env (jsString (e_fmt env) interfaceID)
              (ls_content interfaceModel) model) of
       Inl e \<Rightarrow> [e] | Inr _ \<Rightarrow> []) ids)"

definition validateImplementedInterfaces :: "env \<Rightarrow> js \<Rightarrow> js_error + unit" where
  "validateImplementedInterfaces env model =
     bindR (jsArray (jsNullishOr (kw model ''implements'') (Arr []))) (\<lambda>ids.
     let errors = interfaceErrors env model ids in
     throwIf (errors \<noteq> []) (AggErr ''Interfaces validation failed for model'' errors))"

section \<open>Which documents a schema accepts\<close>









section \<open>Soundness of the validators\<close>






lemma lengthOf_Str [simp]: "lengthOf (Str w) = Num (of_nat (length w))"
  by (simp add: lengthOf_def jsGetOpt_def)





















section \<open>Properties\<close>





lemma kw_Obj [simp]: "kw (Obj fs) k = lookupField fs k"
  by (simp add: kw_def jsGetOpt_def)

lemma kw_Undef [simp]: "kw Undef k = Undef"
  by (simp add: kw_def jsGetOpt_def)

lemma resolveReference_plain [simp]:
  "lookupField fs ''$ref'' = Undef \<Longrightarrow> resolveReference f (Obj fs) p = Inr (Obj fs)"
  by (simp add: resolveReference_def jsNullishOr_def)

lemma resolveReference_Undef [simp]: "resolveReference f Undef p = Inl TypeErr"
  by (simp add: resolveReference_def)




text \<open>
  For \<open>anyOf\<close> the check accepts as soon as one alternative of the interface is matched by one
  alternative of the implementation: the other alternatives of the implementation are never
  compared, whatever documents they accept.
\<close>

theorem any_of_single_match:
  assumes "expected = Obj [(''anyOf'', Arr (e # es))]" and "implemented = Obj [(''anyOf'', Arr (i # is))]"
    and "validateSchemaType depth resE resI (path @ [''anyOf'']) e i = Inr []"
  shows "validateSchemaType (Suc depth) resE resI path expected implemented = Inr []"
  using assms by (simp add: schemaBody_def schemaObjects_def validateAnySchemaTypes_def)

theorem any_of_single_match_witness:
  "validateSchemaType 2 Inr Inr [] (Obj [(''anyOf'', Arr [Obj [(''type'', Str ''string'')]])])
     (Obj [(''anyOf'', Arr [Obj [(''type'', Str ''string'')], Obj [(''type'', Str ''number'')]])]) = Inr []"
proof -
  have "validateSchemaType 1 Inr Inr ([] @ [''anyOf'']) (Obj [(''type'', Str ''string'')])
      (Obj [(''type'', Str ''string'')]) = Inr []"
    by (simp add: schemaBody_def schemaObjects_def typedErrors_def validateStringSchema_def
      enumErrors_def constErrors_def boundErrors_def errIf_def)
  from any_of_single_match [OF refl refl this] show ?thesis by (simp add: eval_nat_numeral)
qed

end
