(* ===== verification/ModelHandler.thy ===== *)
theory ModelHandler
  imports LogApplication ModelInterfaces
begin

text \<open>
  The handler of Model streams (\<open>stream-model-handler/src/model-handler.ts\<close>) with the checks of
  its schema, views and account relation (\<open>schema-utils.ts\<close>, \<open>views-utils.ts\<close>,
  \<open>account-relations-utils.ts\<close>) and the static checks of \<open>stream-model/src/model.ts\<close>. The \<open>codeco\<close>
  decoders and the AJV validation of JSON schemas are the parameters \<open>e_decodeModel\<close>,
  \<open>e_decodeRelations\<close> and \<open>e_validateSchema\<close>.
\<close>

section \<open>Static checks of a model\<close>

definition ALLOWED_CONTENT_KEYS :: "string list" where
  "ALLOWED_CONTENT_KEYS = [''version'', ''name'', ''description'', ''schema'', ''accountRelation'',
     ''relations'', ''views'', ''interface'', ''implements'', ''immutableFields'']"

definition assertNoExtraKeys :: "js \<Rightarrow> js_error + unit" where
  "assertNoExtraKeys content =
     (if jsNullish content then Inl TypeErr
      else throwIf (\<exists>key \<in> set (jsKeys content). key \<notin> set ALLOWED_CONTENT_KEYS)
        (Err ''Unexpected key found in content for Model Stream''))"

definition allDigits :: "string \<Rightarrow> bool" where
  "allDigits s \<longleftrightarrow> s \<noteq> [] \<and> (\<forall>c \<in> set s. 48 \<le> (of_char c :: nat) \<and> (of_char c :: nat) \<le> 57)"

definition parseModelVersion :: "string \<Rightarrow> js_error + nat \<times> nat" where
  "parseModelVersion version =
     (case jsSplit CHR ''.'' version of
        [major, minor] \<Rightarrow> if allDigits major \<and> allDigits minor then Inr (strNat major, strNat minor)
          else Inl (Err ''Unsupported version format'')
      | _ \<Rightarrow> Inl (Err ''Unsupported version format''))"

definition MODEL_VERSION :: string where
  "MODEL_VERSION = ''2.0''"

datatype valid_version_satisfies = SatisfiesMajor | SatisfiesMinor

definition assertVersionValid :: "(js \<Rightarrow> string) \<Rightarrow> js \<Rightarrow> valid_version_satisfies \<Rightarrow> js_error + unit" where
  "assertVersionValid fmt content satisfies =
     bindR (jsGet content ''version'') (\<lambda>version.
     bindR (throwIf (jsNullish version) (Err ''Missing version for model'')) (\<lambda>_.
     bindR (parseModelVersion MODEL_VERSION) (\<lambda>(expectedMajor, expectedMinor).
     bindR (parseModelVersion (jsString fmt version)) (\<lambda>(major, minor).
     throwIf (expectedMajor < major \<or>
              (satisfies = SatisfiesMinor \<and> major = expectedMajor \<and> expectedMinor < minor))
       (Err ''Unsupported version for model'')))))"

definition assertRelationsValid :: "env \<Rightarrow> js \<Rightarrow> js_error + unit" where
  "assertRelationsValid env content =
     bindR (jsGet content ''relations'') (\<lambda>relations.
     if jsNullish relations then Inr () else e_decodeRelations env relations)"

text \<open>
  \<open>Model.MODEL\<close>, the hardcoded model StreamID of all models: a version 1 CID with the dag-cbor
  codec whose multihash wraps the identity hash of the CBOR text \<open>model-v1\<close>.
\<close>

definition UNLOADABLE_TYPE :: nat where
  "UNLOADABLE_TYPE = 4"

definition MODEL_MODEL :: stream_id where
  "MODEL_MODEL = StreamID UNLOADABLE_TYPE
     (CID [1, 113, 113, 11, 0, 9, 104, 109, 111, 100, 101, 108, 45, 118, 49])"

section \<open>The JSON schema of a model\<close>

text \<open>Whether \<open>v !== null && typeof v == 'object'\<close>\<close>

fun isObjectLike :: "js \<Rightarrow> bool" where
  "isObjectLike (Obj _) = True"
| "isObjectLike (Arr _) = True"
| "isObjectLike (Bytes _) = True"
| "isObjectLike (CidV _) = True"
| "isObjectLike (SidV _) = True"
| "isObjectLike _ = False"

function recursiveMap :: "js \<Rightarrow> (js \<Rightarrow> js_error + unit) \<Rightarrow> js_error + unit" where
  "recursiveMap (Obj fs) fn = bindR (fn (Obj fs)) (\<lambda>_.
     forEachR (\<lambda>p. if isObjectLike (snd p) then recursiveMap (snd p) fn else Inr ()) fs)"
| "recursiveMap (Arr xs) fn = bindR (fn (Arr xs)) (\<lambda>_.
     forEachR (\<lambda>x. if isObjectLike x then recursiveMap x fn else Inr ()) xs)"
| "recursiveMap Undef fn = Inl TypeErr"
| "recursiveMap Null fn = Inl TypeErr"
| "recursiveMap (Bool b) fn = fn (Bool b)"
| "recursiveMap (Num n) fn = fn (Num n)"
| "recursiveMap (Str s) fn = fn (Str s)"
| "recursiveMap (Bytes bs) fn = fn (Bytes bs)"
| "recursiveMap (CidV c) fn = fn (CidV c)"
| "recursiveMap (SidV c) fn = fn (SidV c)"
  by pat_completeness auto
termination
proof (relation "measure (\<lambda>(v, _). size v)", goal_cases)
  case 1
  show ?case by simp
next
  case (2 fs fn z p)
  obtain k v where p: "p = (k, v)" by (cases p)
  from 2 p have "(k, v) \<in> set fs" by simp
  then have "size v < size (Obj fs)" by (induction fs) auto
  with p show ?case by simp
next
  case (3 xs fn z x)
  from 3(2) have "size x < size (Arr xs)" by (induction xs) auto
  then show ?case by simp
qed

definition isObjectJSONSchema :: "js \<Rightarrow> bool" where
  "isObjectJSONSchema schema \<longleftrightarrow> jsTruthy schema \<and> jsGetOpt schema ''type'' = Str ''object''"

definition validateAdditionalProperties :: "js \<Rightarrow> js_error + unit" where
  "validateAdditionalProperties schema =
     throwIf (isObjectJSONSchema schema \<and> jsGetOpt schema ''additionalProperties'' \<noteq> Bool False)
       (Err ''All objects in schema need to have additional properties disabled'')"

definition assertSchemaIsValid :: "env \<Rightarrow> js \<Rightarrow> js_error + unit" where
  "assertSchemaIsValid env schema =
     bindR (throwIf (\<not> jsTruthy schema) (Err ''Validation Error: schema must be defined'')) (\<lambda>_.
     bindR (throwIf (\<not> e_validateSchema env schema) (Err ''Validation Error'')) (\<lambda>_.
     recursiveMap schema validateAdditionalProperties))"

section \<open>Views and account relations\<close>

definition SUPPORTED_VIEW_TYPES :: "js list" where
  "SUPPORTED_VIEW_TYPES = [Str ''documentAccount'', Str ''documentVersion'', Str ''relationDocument'',
     Str ''relationFrom'', Str ''relationCountFrom'', Str ''relationSetFrom'']"

definition validateViews :: "js \<Rightarrow> js \<Rightarrow> js_error + unit" where
  "validateViews views schema =
     forEachR (\<lambda>(key, value).
       bindR (jsGet value ''type'') (\<lambda>type.
       bindR (throwIf (type \<notin> set SUPPORTED_VIEW_TYPES) (Err ''unsupported model view definition type'')) (\<lambda>_.
       bindR (jsGet schema ''properties'') (\<lambda>properties.
       bindR (jsGet properties key) (\<lambda>property.
       throwIf (property \<noteq> Undef)
         (Err ''view definition used with a property also present in schema''))))))
       (jsFields views)"

definition SUPPORTED_FIELD_TYPES :: "js list" where
  "SUPPORTED_FIELD_TYPES = [Str ''boolean'', Str ''integer'', Str ''number'', Str ''string'']"

text \<open>The errors of one field of a SET account relation.\<close>

definition setFieldErrors :: "env \<Rightarrow> js \<Rightarrow> js \<Rightarrow> js \<Rightarrow> js_error + js_error list" where
  "setFieldErrors env modelSchema requiredFields field =
     (let name = jsString (e_fmt env) field in
      bindR (jsGet modelSchema ''properties'') (\<lambda>properties.
      bindR (jsGet properties name) (\<lambda>declared.
      bindR (if \<not> jsNullish (jsGetOpt declared ''$ref'')
             then e_resolveRef env (jsGetOpt declared ''$ref'') modelSchema
             else Inr declared) (\<lambda>fieldSchema.
      if jsNullish fieldSchema then Inr [Err (''Field not found in schema: '' @ name)]
      else bindR (jsGet fieldSchema ''type'') (\<lambda>fieldType.
        bindR (jsIncludes requiredFields field) (\<lambda>isRequired.
        Inr ((if jsNullish fieldType then [Err (''Missing type for field: '' @ name)]
              else if fieldType \<notin> set SUPPORTED_FIELD_TYPES
              then [Err (''Unsupported type for field '' @ name @ '' set in the account relation'')]
              else [])
          @ (if isRequired then []
             else [Err (''Field '' @ name @ '' must be required to be used for the SET account relation'')]))))))))"

definition validateSetFields :: "env \<Rightarrow> js \<Rightarrow> js \<Rightarrow> js_error + unit" where
  "validateSetFields env fieldNames modelSchema =
     bindR (jsGet fieldNames ''length'') (\<lambda>n.
     bindR (throwIf (n = Num 0) (Err ''At least one field must be defined for the SET account relation'')) (\<lambda>_.
     bindR (jsGet modelSchema ''required'') (\<lambda>required.
     bindR (jsArray fieldNames) (\<lambda>fs.
     bindR (mapR (setFieldErrors env modelSchema (jsNullishOr required (Arr []))) fs) (\<lambda>errors.
     throwIf (concat errors \<noteq> [])
       (AggErr ''Invalid schema fields for SET account relation'' (concat errors)))))))"

section \<open>Applying commits\<close>

text \<open>\<open>StreamID.fromBytes(v)\<close> for a dynamically typed \<open>v\<close>\<close>

fun streamIDOfJs :: "codec_lib \<Rightarrow> js \<Rightarrow> js_error + stream_id" where
  "streamIDOfJs lib (Bytes bs) = streamIDFromBytes lib bs"
| "streamIDOfJs lib _ = Inl TypeErr"

text \<open>The checks of the genesis content, after the state is built.\<close>

definition modelValidateContent :: "env \<Rightarrow> js \<Rightarrow> js_error + unit" where
  "modelValidateContent env content =
     bindR (jsGet content ''schema'') (\<lambda>schema.
     bindR (assertSchemaIsValid env schema) (\<lambda>_.
     bindR (jsGet content ''accountRelation'') (\<lambda>accountRelation.
     bindR (jsGet accountRelation ''type'') (\<lambda>type.
     bindR (if type = Str ''set'' then
              bindR (jsGet accountRelation ''fields'') (\<lambda>fieldNames. validateSetFields env fieldNames schema)
            else Inr ()) (\<lambda>_.
     bindR (jsGet content ''views'') (\<lambda>views.
     bindR (if jsTruthy views then validateViews views schema else Inr ()) (\<lambda>_.
     bindR (jsGet content ''interface'') (\<lambda>isInterface.
     bindR (if jsTruthy isInterface then validateInterface content else Inr ()) (\<lambda>_.
     if jsTruthy (jsGetOpt (jsGetOpt content ''implements'') ''length'')
     then validateImplementedInterfaces env content else Inr ())))))))))"

definition modelApplyGenesis :: "env \<Rightarrow> commit_data \<Rightarrow> js_error + stream_state" where
  "modelApplyGenesis env cd =
     (let payload = cd_commit cd; streamId = StreamID MODEL_TYPE (le_cid cd) in
      bindR (throwIf (\<not> isSignedCommitData cd) (Err ''Model genesis commit must be signed'')) (\<lambda>_.
      bindR (jsGet payload ''header'') (\<lambda>header.
      bindR (jsGet header ''controllers'') (\<lambda>controllers.
      bindR (exactlyOneController controllers) (\<lambda>_.
      bindR (jsIndex controllers 0) (\<lambda>controller.
      bindR (jsGet header ''model'') (\<lambda>model.
      bindR (streamIDOfJs (e_lib env) model) (\<lambda>modelStreamId.
      bindR (verifyCommitSignature env cd controller (Some modelStreamId) streamId) (\<lambda>_.
      bindR (jsGet payload ''data'') (\<lambda>data.
      bindR (assertNoExtraKeys data) (\<lambda>_.
      bindR (e_decodeModel env data) (\<lambda>_.
      bindR (assertVersionValid (e_fmt env) data SatisfiesMajor) (\<lambda>_.
      bindR (assertRelationsValid env data) (\<lambda>_.
      bindR (throwIf (\<not> streamIDEquals modelStreamId MODEL_MODEL)
               (Err ''Invalid 'model' metadata property in Model stream'')) (\<lambda>_.
      let state = \<lparr> st_type = MODEL_TYPE, st_content = data, st_next = None,
            st_metadata = Obj [(''controllers'', Arr [controller]), (''model'', SidV modelStreamId)],
            st_signature = SIGNED, st_anchorStatus = NOT_REQUESTED, st_anchorProof = Undef,
            st_log = [commitDataToLogEntry (e_dateParse env) cd INIT] \<rparr>
      in bindR (modelValidateContent env data) (\<lambda>_. Inr state))))))))))))))))"

definition modelApplyCommit :: "env \<Rightarrow> apply_commit" where
  "modelApplyCommit env cd state =
     (case state of
        None \<Rightarrow> (case modelApplyGenesis env cd of Inl e \<Rightarrow> Inl (e, None) | Inr s \<Rightarrow> Inr s)
      | Some s \<Rightarrow> if isAnchorCommitData cd then liftHandled (applyAnchorCommit cd s)
                  else Inl (Err ''Cannot update a finalized Model'', Some s))"

section \<open>Lemmas\<close>

lemma modelApplyGenesis_Inr:
  assumes "modelApplyGenesis env cd = Inr s"
  shows "st_type s = MODEL_TYPE" and "logCids s = [le_cid cd]" and "map le_type (st_log s) = [INIT]"
    and "st_next s = None" and "isSignedCommitData cd" and "modelValidateContent env (st_content s) = Inr ()"
    and "jsGet (cd_commit cd) ''data'' = Inr (st_content s)"
    and "st_signature s = SIGNED"
  using assms by (auto simp: modelApplyGenesis_def Let_def res_simps logCids_def)

interpretation model: atomic_handler "modelApplyCommit env" MODEL_TYPE for env
proof
  fix cd s s' e m
  show "st_type s = MODEL_TYPE \<and> logCids s = [le_cid cd] \<and> map le_type (st_log s) = [INIT]"
    if "modelApplyCommit env cd None = Inr s"
    using that by (simp add: modelApplyCommit_def modelApplyGenesis_Inr split: sum.splits)
  show "m = None" if "modelApplyCommit env cd None = Inl (e, m)"
    using that by (auto simp: modelApplyCommit_def split: sum.splits)
  assume "modelApplyCommit env cd (Some s) = Inr s'"
  then have a: "isAnchorCommitData cd" and s': "applyAnchorCommit cd s = Inr s'"
    by (auto simp: modelApplyCommit_def split: if_splits)
  show "logCids s' = logCids s @ [le_cid cd]" using s' by (simp add: applyAnchorCommit_Inr)
  show "map le_type (st_log s') = map le_type (st_log s) @ [if isAnchorCommitData cd then TIME else DATA]"
    using s' a by (simp add: applyAnchorCommit_Inr)
  show "st_type s' = st_type s" using s' by (simp add: applyAnchorCommit_Inr)
  show "jsGet (cd_commit cd) ''prev'' = Inr (CidV (tipFromState s))"
    using s' by (simp add: applyAnchorCommit_Inr)
next
  fix cd s e m
  assume "modelApplyCommit env cd (Some s) = Inl (e, m)"
  then show "m = Some s"
    by (auto simp: modelApplyCommit_def liftHandled_Inl split: if_splits dest: applyAnchorCommit_Inl)
  then show "\<exists>s'. m = Some s' \<and> st_type s' = st_type s \<and>
      ((logCids s' = logCids s \<and> map le_type (st_log s') = map le_type (st_log s)) \<or>
       (logCids s' = logCids s @ [le_cid cd] \<and> map le_type (st_log s') = map le_type (st_log s) @ [DATA]))"
    by simp
qed

text \<open>All the objects nested in a schema, itself included.\<close>

fun subvalues :: "js \<Rightarrow> js list" where
  "subvalues (Obj fs) = Obj fs # concat (map (\<lambda>p. subvalues (snd p)) fs)"
| "subvalues (Arr xs) = Arr xs # concat (map subvalues xs)"
| "subvalues v = [v]"

section \<open>Properties\<close>

lemma recursiveMap_subvalues:
  "recursiveMap v fn = Inr () \<Longrightarrow> isObjectLike v \<Longrightarrow> w \<in> set (subvalues v) \<Longrightarrow> isObjectLike w \<Longrightarrow> fn w = Inr ()"
proof (induction v fn rule: recursiveMap.induct)
  case (1 fs fn)
  from "1.prems"(1) have f: "fn (Obj fs) = Inr ()"
    and rec: "\<forall>p \<in> set fs. isObjectLike (snd p) \<longrightarrow> recursiveMap (snd p) fn = Inr ()"
    by (auto simp: bindR_Inr_iff forEachR_Inr_iff split: if_splits)
  from "1.prems"(3) consider "w = Obj fs" | p where "p \<in> set fs" "w \<in> set (subvalues (snd p))" by auto
  then show ?case
  proof cases
    case 2
    have "isObjectLike (snd p)" using 2(2) "1.prems"(4) by (cases "snd p") auto
    with "1.IH" [OF f 2(1)] rec 2 "1.prems"(4) show ?thesis by blast
  qed (simp add: f)
next
  case (2 xs fn)
  from "2.prems"(1) have f: "fn (Arr xs) = Inr ()"
    and rec: "\<forall>x \<in> set xs. isObjectLike x \<longrightarrow> recursiveMap x fn = Inr ()"
    by (auto simp: bindR_Inr_iff forEachR_Inr_iff split: if_splits)
  from "2.prems"(3) consider "w = Arr xs" | x where "x \<in> set xs" "w \<in> set (subvalues x)" by auto
  then show ?case
  proof cases
    case 2
    have "isObjectLike x" using 2(2) "2.prems"(4) by (cases x) auto
    with "2.IH" [OF f 2(1)] rec 2 "2.prems"(4) show ?thesis by blast
  qed (simp add: f)
qed auto

text \<open>
  Every object schema nested anywhere in the JSON schema of an accepted model has its
  additional properties disabled, and the model was signed and has only the known content keys.
\<close>

theorem model_schema_closed:
  assumes "modelApplyCommit env cd None = Inr s"
  shows "isSignedCommitData cd \<and> set (jsKeys (st_content s)) \<subseteq> set ALLOWED_CONTENT_KEYS \<and>
    (\<exists>schema. jsGet (st_content s) ''schema'' = Inr schema \<and>
      (\<forall>v \<in> set (subvalues schema). jsGetOpt v ''type'' = Str ''object'' \<longrightarrow>
         jsGetOpt v ''additionalProperties'' = Bool False))"
proof -
  from assms have g: "modelApplyGenesis env cd = Inr s"
    by (auto simp: modelApplyCommit_def split: sum.splits)
  from g have keys: "assertNoExtraKeys (st_content s) = Inr ()"
    unfolding modelApplyGenesis_def Let_def bindR_Inr_iff ex_unit throwIf_Inr_iff by auto
  then have k: "set (jsKeys (st_content s)) \<subseteq> set ALLOWED_CONTENT_KEYS"
    by (auto simp: assertNoExtraKeys_def throwIf_Inr_iff split: if_splits)
  from modelApplyGenesis_Inr(6) [OF g] obtain schema where
    schema: "jsGet (st_content s) ''schema'' = Inr schema" "assertSchemaIsValid env schema = Inr ()"
    unfolding modelValidateContent_def bindR_Inr_iff ex_unit by blast
  then have r: "recursiveMap schema validateAdditionalProperties = Inr ()"
    unfolding assertSchemaIsValid_def bindR_Inr_iff ex_unit by blast
  have "jsGetOpt v ''additionalProperties'' = Bool False"
    if v: "v \<in> set (subvalues schema)" "jsGetOpt v ''type'' = Str ''object''" for v
  proof -
    from v(2) obtain fs where fs: "v = Obj fs" by (cases v) (auto simp: jsGetOpt_def)
    have "isObjectLike schema" using v(1) fs by (cases schema) auto
    from recursiveMap_subvalues [OF r this v(1)] fs have "validateAdditionalProperties v = Inr ()" by simp
    with v(2) fs show ?thesis
      by (auto simp: validateAdditionalProperties_def isObjectJSONSchema_def throwIf_Inr_iff)
  qed
  with modelApplyGenesis_Inr(5) [OF g] k schema(1) show ?thesis by blast
qed

definition sampleModelSchema :: js where
  "sampleModelSchema = Obj [(''type'', Str ''object''), (''additionalProperties'', Bool False),
     (''properties'', Obj [(''n'', Obj [(''type'', Str ''number'')])])]"

definition sampleModelContent :: js where
  "sampleModelContent = Obj [(''version'', Str ''2.0''), (''name'', Str ''m''),
     (''schema'', sampleModelSchema), (''accountRelation'', Obj [(''type'', Str ''list'')])]"

definition sampleModelGenesis :: commit_data where
  "sampleModelGenesis = sampleCommitData (CID [1]) (Obj [(''header'', Obj [(''controllers'', Arr [Str ''did:a'']),
     (''model'', Bytes (streamIDBytes sampleLib MODEL_MODEL))]), (''data'', sampleModelContent)])
     (Obj [(''by'', Str ''did:a'')]) Undef"

definition sampleModel :: stream_state where
  "sampleModel = \<lparr>st_type = MODEL_TYPE, st_content = sampleModelContent, st_next = None,
     st_metadata = Obj [(''controllers'', Arr [Str ''did:a'']), (''model'', SidV MODEL_MODEL)],
     st_signature = SIGNED, st_anchorStatus = NOT_REQUESTED, st_anchorProof = Undef,
     st_log = [sampleEntry (CID [1]) INIT NUndef]\<rparr>"

lemma sampleModel_version: "assertVersionValid (\<lambda>_. []) sampleModelContent SatisfiesMajor = Inr ()"
  by code_simp

lemma sampleModel_streamId: "streamIDFromBytes sampleLib (streamIDBytes sampleLib MODEL_MODEL) = Inr MODEL_MODEL"
  by code_simp

lemma sampleModel_content: "modelValidateContent sampleEnv sampleModelContent = Inr ()"
  by (simp add: modelValidateContent_def sampleModelContent_def sampleModelSchema_def assertSchemaIsValid_def
      validateAdditionalProperties_def isObjectJSONSchema_def jsGetOpt_def)

lemma sampleModel_genesis: "modelApplyCommit sampleEnv sampleModelGenesis None = Inr sampleModel"
proof -
  have fmt: "e_fmt sampleEnv = (\<lambda>_. [])" by (simp add: fun_eq_iff)
  have keys: "assertNoExtraKeys sampleModelContent = Inr ()" by code_simp
  have rel: "assertRelationsValid sampleEnv sampleModelContent = Inr ()"
    by (simp add: assertRelationsValid_def sampleModelContent_def)
  show ?thesis
    by (simp add: modelApplyCommit_def modelApplyGenesis_def sampleModelGenesis_def exactlyOneController_def
        sampleModel_streamId keys rel fmt sampleModel_version sampleModel_content streamIDEquals_def)
      (simp add: sampleModel_def sampleEntry_def commitDataToLogEntry_def jsGetOpt_def)
qed

theorem model_schema_closed_witness:
  "\<exists>schema. jsGet (st_content sampleModel) ''schema'' = Inr schema \<and>
     jsGetOpt schema ''additionalProperties'' = Bool False"
  using model_schema_closed [OF sampleModel_genesis]
  by (auto simp: sampleModel_def sampleModelContent_def sampleModelSchema_def jsGetOpt_def)

lemma modelApplyCommit_Some:
  assumes "modelApplyCommit env cd (Some s) = Inr s'" and "st_next s = None"
  shows "st_content s' = st_content s \<and> st_metadata s' = st_metadata s \<and> st_next s' = None \<and>
    map le_type (st_log s') = map le_type (st_log s) @ [TIME]"
proof -
  from assms(1) have "applyAnchorCommit cd s = Inr s'"
    by (auto simp: modelApplyCommit_def split: if_splits)
  from this assms(2) applyAnchorCommit_Inr [OF this] show ?thesis
    by (auto simp: applyAnchorCommit_def adoptNext_def split: sum.splits option.splits)
qed

text \<open>
  A model is final: whatever commits are applied to it, its content and metadata stay those of
  the genesis commit, and every entry added to its log is an anchor.
\<close>

theorem model_finalized:
  assumes "applyLog (modelApplyCommit env) (Some s) cds throw = Inr (Some s')" and "st_next s = None"
  shows "st_content s' = st_content s \<and> st_metadata s' = st_metadata s \<and>
    (\<exists>k. map le_type (st_log s') = map le_type (st_log s) @ replicate k TIME)"
  using assms
proof (induction cds arbitrary: s)
  case Nil
  then show ?case by (auto intro: exI [of _ 0])
next
  case (Cons cd cds)
  show ?case
  proof (cases "modelApplyCommit env cd (Some s)")
    case (Inl p)
    obtain e m where p: "p = (e, m)" by (cases p)
    have "m = Some s" using model.step_error_same [of env cd s e m] Inl p by simp
    with Cons.prems Inl p have "s' = s" by (auto split: if_splits)
    then show ?thesis by (auto intro: exI [of _ 0])
  next
    case (Inr s1)
    note s1 = modelApplyCommit_Some [OF Inr Cons.prems(2)]
    from Cons.prems(1) Inr have "applyLog (modelApplyCommit env) (Some s1) cds throw = Inr (Some s')" by simp
    from Cons.IH [OF this conjunct1 [OF conjunct2 [OF conjunct2 [OF s1]]]] obtain k where
      "st_content s' = st_content s1" "st_metadata s' = st_metadata s1"
      "map le_type (st_log s') = map le_type (st_log s1) @ replicate k TIME" by blast
    with s1 show ?thesis by (intro conjI exI [of _ "Suc k"]) simp_all
  qed
qed

theorem model_finalized_witness:
  "\<exists>s'. applyLog (modelApplyCommit sampleEnv) (Some sampleModel)
     [sampleCommitData (CID [2]) (Obj [(''prev'', CidV (CID [1]))]) Undef Null] True = Inr (Some s') \<and>
   st_content s' = st_content sampleModel"
proof -
  obtain s' where s': "applyLog (modelApplyCommit sampleEnv) (Some sampleModel)
     [sampleCommitData (CID [2]) (Obj [(''prev'', CidV (CID [1]))]) Undef Null] True = Inr (Some s')"
    by (simp add: modelApplyCommit_def applyAnchorCommit_def assertCommitLinksToState_def sampleModel_def)
  from model_finalized [OF this] s' show ?thesis by (simp add: sampleModel_def)
qed

end
