(* ===== verification/InstanceHandler.thy ===== *)
theory InstanceHandler
  imports LogApplication ModelInterfaces
begin

text \<open>
  The handler of ModelInstanceDocument streams
  (\<open>stream-model-instance-handler/src/model-instance-document-handler.ts\<close>, \<open>schema-utils.ts\<close>) and
  the static checks of \<open>stream-model-instance/src/model-instance-document.ts\<close>. A signed commit
  patches the content of the given state in place and sets \<open>shouldIndex\<close> before the new content
  is validated; the model returns that partly changed state with the error.
\<close>

definition MID_TYPE :: nat where
  "MID_TYPE = 3"

definition MAX_DOCUMENT_SIZE :: nat where
  "MAX_DOCUMENT_SIZE = 16000000"

definition validateContentLength :: "env \<Rightarrow> js \<Rightarrow> js_error + unit" where
  "validateContentLength env content =
     throwIf (jsTruthy content \<and> MAX_DOCUMENT_SIZE < e_jsonLength env content)
       (Err ''Content exceeds maximum size'')"

text \<open>\<open>ModelInstanceDocument.load\<close>\<close>

definition midLoad :: "env \<Rightarrow> ref_arg \<Rightarrow> js_error + loaded_stream" where
  "midLoad env streamId =
     bindR (streamRefFrom (e_lib env) streamId) (\<lambda>streamRef.
     bindR (throwIf (refType streamRef \<noteq> MID_TYPE) (Err ''StreamID does not refer to a 'MID' stream'')) (\<lambda>_.
     e_loadStream env streamRef))"

section \<open>Validation\<close>

definition validateModel :: "loaded_stream \<Rightarrow> js_error + unit" where
  "validateModel model =
     bindR (jsGet (ls_content model) ''version'') (\<lambda>version.
     bindR (jsGet (ls_content model) ''interface'') (\<lambda>isInterface.
     throwIf (version \<noteq> Str ''1.0'' \<and> jsTruthy isInterface)
       (Err ''ModelInstanceDocument Streams cannot be created on interface Models'')))"

definition relationTypeOf :: "loaded_stream \<Rightarrow> js_error + js" where
  "relationTypeOf model =
     bindR (jsGet (ls_content model) ''accountRelation'') (\<lambda>r. jsGet r ''type'')"

definition instanceValidateSchema :: "env \<Rightarrow> js \<Rightarrow> js \<Rightarrow> js_error + unit" where
  "instanceValidateSchema env content schema =
     bindR (e_validateContent env schema content) (\<lambda>isValid.
     throwIf (\<not> isValid) (Err ''Validation Error''))"

text \<open>A relation to a document: the target must be a document of the expected model, or of one
  that implements it.\<close>

definition validateDocumentRelation :: "env \<Rightarrow> js \<Rightarrow> js \<Rightarrow> js_error + unit" where
  "validateDocumentRelation env relationDefinition fieldValue =
     (if jsNullish fieldValue then Inr ()
      else bindR (case (case fieldValue of Str s \<Rightarrow> streamIDFromString (e_lib env) s | _ \<Rightarrow> Inl TypeErr) of
          Inl _ \<Rightarrow> Inl (Err ''Error while parsing relation: Invalid StreamID'')
        | Inr sid \<Rightarrow> Inr sid) (\<lambda>midStreamId.
      bindR (midLoad env (ArgStream midStreamId)) (\<lambda>linkedMid.
      bindR (jsGet relationDefinition ''model'') (\<lambda>expectedModelStreamId.
      if jsNullish expectedModelStreamId then Inr ()
      else
        bindR (jsGet (ls_metadata linkedMid) ''model'') (\<lambda>m.
        bindR (jsCidString (e_lib env) m) (\<lambda>foundModelStreamId.
        if Str foundModelStreamId = expectedModelStreamId then Inr ()
        else
          bindR (modelLoad env (ArgString foundModelStreamId)) (\<lambda>linkedModel.
          bindR (jsGet (ls_content linkedModel) ''version'') (\<lambda>version.
          bindR (if version = Str ''1.0'' then Inr False
                 else bindR (jsGet (ls_content linkedModel) ''implements'') (\<lambda>impls.
                   jsIncludes impls expectedModelStreamId)) (\<lambda>implemented.
          throwIf (\<not> implemented) (Err ''Relation points to a Stream of another Model''))))))))))"

definition validateRelationsContent :: "env \<Rightarrow> loaded_stream \<Rightarrow> js \<Rightarrow> js_error + unit" where
  "validateRelationsContent env model content =
     bindR (jsGet (ls_content model) ''relations'') (\<lambda>relations.
     if \<not> jsTruthy relations then Inr ()
     else forEachR (\<lambda>(fieldName, relationDefinition).
       bindR (jsGet relationDefinition ''type'') (\<lambda>relationType.
       if relationType = Str ''account'' then Inr ()
       else if relationType = Str ''document'' then
         bindR (jsGet content fieldName) (\<lambda>fieldValue.
         validateDocumentRelation env relationDefinition fieldValue)
       else Inl (Err ''Unknown relation type''))) (jsFields relations))"

definition validateHeader :: "loaded_stream \<Rightarrow> js \<Rightarrow> js_error + unit" where
  "validateHeader model header =
     bindR (relationTypeOf model) (\<lambda>relationType.
     bindR (jsGet header ''unique'') (\<lambda>unique.
     if relationType = Str ''single'' then throwIf (jsTruthy unique)
       (Err ''ModelInstanceDocuments for models with SINGLE accountRelations must be created deterministically'')
     else if relationType = Str ''set'' then throwIf (\<not> jsTruthy unique)
       (Err ''ModelInstanceDocuments for models with SET accountRelations must be created with a unique field'')
     else if relationType = Str ''list'' then throwIf (\<not> jsTruthy unique)
       (Err ''ModelInstanceDocuments for models with LIST accountRelations must be created with a unique field'')
     else if relationType = Str ''none'' then Inr ()
     else Inl (Err ''Unsupported account relation found in Model'')))"

text \<open>\<open>entry.path.slice(1).split('/').shift()\<close>\<close>

definition patchField :: "js \<Rightarrow> js_error + string" where
  "patchField entry =
     bindR (jsGet entry ''path'') (\<lambda>path. case path of
       Str p \<Rightarrow> Inr (hd (jsSplit CHR ''/'' (drop 1 p))) | _ \<Rightarrow> Inl TypeErr)"

definition validateLockedFieldsUpdate :: "env \<Rightarrow> loaded_stream \<Rightarrow> js \<Rightarrow> js_error + unit" where
  "validateLockedFieldsUpdate env model data =
     (if \<not> e_isModelV2 env (ls_content model) then Inr ()
      else bindR (jsGet (ls_content model) ''immutableFields'') (\<lambda>immutableFields.
      if \<not> jsTruthy immutableFields then Inr ()
      else bindR (jsArray immutableFields) (\<lambda>locked.
      forEachR (\<lambda>lockedField.
        bindR (jsArray data) (\<lambda>entries.
        bindR (mapR patchField entries) (\<lambda>touched.
        throwIf (\<exists>t \<in> set touched. Str t = lockedField) (Err ''Immutable field cannot be updated'')))) locked)))"

text \<open>
  \<open>payload\<close> is the patch of a data commit; \<open>skipImmutableFieldsCheck\<close> holds for the first one of a
  deterministic document.
\<close>

definition instanceValidateContent ::
  "env \<Rightarrow> loaded_stream \<Rightarrow> js \<Rightarrow> bool \<Rightarrow> js option \<Rightarrow> bool \<Rightarrow> js_error + unit" where
  "instanceValidateContent env model content genesis patch skipImmutableFieldsCheck =
     bindR (if genesis then bindR (relationTypeOf model) (\<lambda>t. Inr (t = Str ''single'' \<or> t = Str ''set''))
            else Inr False) (\<lambda>deterministicGenesis.
     if deterministicGenesis
     then throwIf (jsTruthy content)
       (Err ''Deterministic genesis commits for ModelInstanceDocuments must not have content'')
     else
       bindR (validateContentLength env content) (\<lambda>_.
       bindR (jsGet (ls_content model) ''schema'') (\<lambda>schema.
       bindR (instanceValidateSchema env content schema) (\<lambda>_.
       bindR (validateRelationsContent env model content) (\<lambda>_.
       case patch of
         Some p \<Rightarrow> if \<not> genesis \<and> \<not> skipImmutableFieldsCheck
           then validateLockedFieldsUpdate env model p else Inr ()
       | None \<Rightarrow> Inr ())))))"

definition uniqueOf :: "env \<Rightarrow> js \<Rightarrow> js list \<Rightarrow> js_error + string" where
  "uniqueOf env content fieldNames =
     bindR (mapR (\<lambda>field. bindR (jsGet content (jsString (e_fmt env) field)) (\<lambda>value.
       Inr (if jsTruthy value then jsString (e_fmt env) value else []))) fieldNames) (\<lambda>parts.
     Inr (jsJoin ''|'' parts))"

definition validateUnique :: "env \<Rightarrow> loaded_stream \<Rightarrow> js \<Rightarrow> js \<Rightarrow> js_error + unit" where
  "validateUnique env model metadata content =
     bindR (relationTypeOf model) (\<lambda>relationType.
     if relationType \<noteq> Str ''set'' then Inr ()
     else
       bindR (jsGet metadata ''unique'') (\<lambda>expected.
       bindR (throwIf (jsNullish expected) (Err ''Missing unique metadata value'')) (\<lambda>_.
       bindR (throwIf (jsNullish content) (Err ''Missing content'')) (\<lambda>_.
       bindR (jsGet (ls_content model) ''accountRelation'') (\<lambda>r.
       bindR (jsGet r ''fields'') (\<lambda>fieldNames.
       bindR (jsArray fieldNames) (\<lambda>fs.
       bindR (uniqueOf env content fs) (\<lambda>unique.
       bindR (e_bytesToString env expected) (\<lambda>s.
       throwIf (unique \<noteq> s)
         (Err ''Unique content fields value does not match metadata''))))))))))"

section \<open>Applying commits\<close>

fun streamIDOfBytes :: "codec_lib \<Rightarrow> js \<Rightarrow> js_error + stream_id" where
  "streamIDOfBytes lib (Bytes bs) = streamIDFromBytes lib bs"
| "streamIDOfBytes lib _ = Inl TypeErr"

definition instanceApplyGenesis :: "env \<Rightarrow> commit_data \<Rightarrow> js_error + stream_state" where
  "instanceApplyGenesis env cd =
     (let payload = cd_commit cd; lib = e_lib env; streamId = StreamID MID_TYPE (le_cid cd) in
      bindR (jsGet payload ''header'') (\<lambda>header.
      bindR (jsGet header ''controllers'') (\<lambda>controllers.
      bindR (jsGet header ''unique'') (\<lambda>unique.
      bindR (jsIndex controllers 0) (\<lambda>controller.
      bindR (jsGet header ''model'') (\<lambda>model.
      bindR (streamIDOfBytes lib model) (\<lambda>modelStreamID.
      bindR (jsGet header ''context'') (\<lambda>ctx.
      bindR (if jsTruthy ctx then bindR (streamIDOfBytes lib ctx) (\<lambda>c. Inr [(''context'', SidV c)])
             else Inr []) (\<lambda>contextField.
      bindR (exactlyOneController controllers) (\<lambda>_.
      bindR (throwIf (\<not> validDIDString controller)
               (Err ''Attempting to create a ModelInstanceDocument with an invalid DID string'')) (\<lambda>_.
      bindR (throwIf (sid_type modelStreamID \<noteq> MODEL_TYPE)
               (Err ''Model for ModelInstanceDocument must refer to a StreamID of a Model stream'')) (\<lambda>_.
      bindR (jsGet payload ''data'') (\<lambda>data.
      bindR (if isSignedCommitData cd
             then verifyCommitSignature env cd controller (Some modelStreamID) streamId
             else throwIf (jsTruthy data)
               (Err ''ModelInstanceDocument genesis commit with content must be signed'')) (\<lambda>_.
      bindR (e_loadStream env (RefStream modelStreamID)) (\<lambda>modelStream.
      bindR (validateModel modelStream) (\<lambda>_.
      bindR (instanceValidateContent env modelStream data True None False) (\<lambda>_.
      bindR (validateHeader modelStream header) (\<lambda>_.
      Inr \<lparr> st_type = MID_TYPE, st_content = jsOr data Null, st_next = None,
            st_metadata = Obj ([(''controllers'', Arr [controller]), (''model'', SidV modelStreamID),
              (''unique'', unique)] @ contextField),
            st_signature = SIGNED, st_anchorStatus = NOT_REQUESTED, st_anchorProof = Undef,
            st_log = [commitDataToLogEntry (e_dateParse env) cd INIT] \<rparr>))))))))))))))))))"

text \<open>The checks of a data commit that run before the state is touched; \<open>Undef\<close> stands for no new
  \<open>shouldIndex\<close>.\<close>

fun modelOfMetadata :: "js \<Rightarrow> js_error + stream_id" where
  "modelOfMetadata (SidV m) = Inr m"
| "modelOfMetadata _ = Inl TypeErr"

definition instanceCheckSigned :: "env \<Rightarrow> commit_data \<Rightarrow> stream_state \<Rightarrow> js_error + js" where
  "instanceCheckSigned env cd state =
     (let payload = cd_commit cd; metadata = st_metadata state in
      bindR (assertCommitLinksToState state payload) (\<lambda>_.
      bindR (jsGet metadata ''controllers'') (\<lambda>controllers.
      bindR (jsIndex controllers 0) (\<lambda>controller.
      bindR (jsGet metadata ''model'') (\<lambda>m.
      bindR (modelOfMetadata m) (\<lambda>model.
      bindR (verifyCommitSignature env cd controller (Some model) (streamIdFromState state)) (\<lambda>_.
      bindR (jsGet payload ''header'') (\<lambda>header.
      if jsTruthy header then
        bindR (throwIf (filter (\<lambda>k. k \<noteq> ''shouldIndex'') (jsKeys header) \<noteq> [])
          (Err ''Updating metadata for ModelInstanceDocument Streams is not allowed'')) (\<lambda>_.
        jsGet header ''shouldIndex'')
      else Inr Undef))))))))"

text \<open>The content and index flag a data commit is about to give the state.\<close>

definition instanceTouched :: "stream_state \<Rightarrow> js \<Rightarrow> js \<Rightarrow> stream_state" where
  "instanceTouched s shouldIndex doc = s\<lparr>
     st_metadata := (if jsNullish shouldIndex then st_metadata s
                     else jsSetProp (st_metadata s) ''shouldIndex'' shouldIndex),
     st_content := (if jsNullish (st_content s) then st_content s else doc)\<rparr>"

definition instanceValidateUpdate :: "env \<Rightarrow> stream_state \<Rightarrow> js \<Rightarrow> js \<Rightarrow> js \<Rightarrow> js_error + unit" where
  "instanceValidateUpdate env state metadata data newContent =
     bindR (jsGet metadata ''model'') (\<lambda>m.
     bindR (modelOfMetadata m) (\<lambda>model.
     bindR (e_loadStream env (RefStream model)) (\<lambda>modelStream.
     bindR (relationTypeOf modelStream) (\<lambda>relationType.
     let isDetType = (relationType = Str ''set'' \<or> relationType = Str ''single'');
         isFirstDataCommit = (\<forall>c \<in> set (st_log state). le_type c \<noteq> DATA)
     in bindR (instanceValidateContent env modelStream newContent False (Some data)
                 (isDetType \<and> isFirstDataCommit)) (\<lambda>_.
        validateUnique env modelStream metadata newContent)))))"

definition instanceApplySigned :: "env \<Rightarrow> commit_data \<Rightarrow> stream_state \<Rightarrow> stream_state handled" where
  "instanceApplySigned env cd state =
     (case instanceCheckSigned env cd state of
        Inl e \<Rightarrow> Inl (e, state)
      | Inr shouldIndex \<Rightarrow>
        (case jsGet (cd_commit cd) ''data'' of
           Inl e \<Rightarrow> Inl (e, state)
         | Inr data \<Rightarrow>
           let oldContent = jsNullishOr (st_content state) (Obj []);
               (doc, result) = e_jsonPatch env oldContent data;
               s1 = instanceTouched state shouldIndex doc
           in case bindR result (\<lambda>newContent.
                     bindR (instanceValidateUpdate env state (st_metadata s1) data newContent) (\<lambda>_.
                     Inr newContent)) of
                Inl e \<Rightarrow> Inl (e, s1)
              | Inr newContent \<Rightarrow> Inr (s1\<lparr>st_signature := SIGNED, st_anchorStatus := NOT_REQUESTED,
                  st_content := newContent,
                  st_log := st_log state @ [commitDataToLogEntry (e_dateParse env) cd DATA]\<rparr>)))"

definition instanceApplyCommit :: "env \<Rightarrow> apply_commit" where
  "instanceApplyCommit env cd state =
     (case state of
        None \<Rightarrow> (case instanceApplyGenesis env cd of Inl e \<Rightarrow> Inl (e, None) | Inr s \<Rightarrow> Inr s)
      | Some s \<Rightarrow> liftHandled (if isAnchorCommitData cd then applyAnchorCommit cd s
                              else instanceApplySigned env cd s))"

section \<open>Lemmas\<close>

lemma instanceTouched_simps [simp]:
  "st_log (instanceTouched s i doc) = st_log s" "st_type (instanceTouched s i doc) = st_type s"
  "st_next (instanceTouched s i doc) = st_next s"
  by (simp_all add: instanceTouched_def)

lemma instanceApplyGenesis_Inr:
  assumes "instanceApplyGenesis env cd = Inr s"
  shows "st_type s = MID_TYPE" and "st_log s = [commitDataToLogEntry (e_dateParse env) cd INIT]"
  using assms by (auto simp: instanceApplyGenesis_def Let_def res_simps)

lemma instanceCheckSigned_link:
  "instanceCheckSigned env cd s = Inr i \<Longrightarrow> jsGet (cd_commit cd) ''prev'' = Inr (CidV (tipFromState s))"
  by (auto simp: instanceCheckSigned_def Let_def res_simps dest: assertCommitLinksToState_Inr)

lemma instanceApplySigned_Inr:
  assumes "instanceApplySigned env cd s = Inr s'"
  shows "\<exists>i data doc. instanceCheckSigned env cd s = Inr i \<and> jsGet (cd_commit cd) ''data'' = Inr data \<and>
      e_jsonPatch env (jsNullishOr (st_content s) (Obj [])) data = (doc, Inr (st_content s')) \<and>
      instanceValidateUpdate env s (st_metadata s') data (st_content s') = Inr () \<and>
      st_metadata s' = st_metadata (instanceTouched s i doc)"
    and "st_log s' = st_log s @ [commitDataToLogEntry (e_dateParse env) cd DATA]"
    and "st_type s' = st_type s" and "st_next s' = st_next s"
    and "st_signature s' = SIGNED" and "st_anchorStatus s' = NOT_REQUESTED"
  using assms by (auto simp: instanceApplySigned_def Let_def res_simps split: sum.splits prod.splits)

lemma instanceApplySigned_Inl:
  assumes "instanceApplySigned env cd s = Inl (e, s')"
  shows "st_type s' = st_type s" and "st_log s' = st_log s"
  using assms by (auto simp: instanceApplySigned_def Let_def split: sum.splits prod.splits)

lemma instanceApplySigned_logCids:
  "instanceApplySigned env cd s = Inr s' \<Longrightarrow> logCids s' = logCids s @ [le_cid cd]"
  by (simp add: logCids_def instanceApplySigned_Inr(2))

interpretation mid: stream_handler "instanceApplyCommit env" MID_TYPE for env
proof
  fix cd s s' e m
  show "st_type s = MID_TYPE \<and> logCids s = [le_cid cd] \<and> map le_type (st_log s) = [INIT]"
    if "instanceApplyCommit env cd None = Inr s"
    using that by (auto simp: instanceApplyCommit_def logCids_def instanceApplyGenesis_Inr split: sum.splits)
  show "m = None" if "instanceApplyCommit env cd None = Inl (e, m)"
    using that by (auto simp: instanceApplyCommit_def split: sum.splits)
  assume "instanceApplyCommit env cd (Some s) = Inr s'"
  then consider (anchor) "isAnchorCommitData cd" "applyAnchorCommit cd s = Inr s'"
    | (signed) "\<not> isAnchorCommitData cd" "instanceApplySigned env cd s = Inr s'"
    by (auto simp: instanceApplyCommit_def split: if_splits)
  note cases = this
  show "logCids s' = logCids s @ [le_cid cd]"
    using cases by cases (simp_all add: applyAnchorCommit_Inr instanceApplySigned_logCids)
  show "map le_type (st_log s') = map le_type (st_log s) @ [if isAnchorCommitData cd then TIME else DATA]"
    using cases by cases (simp_all add: applyAnchorCommit_Inr instanceApplySigned_Inr(2))
  show "st_type s' = st_type s"
    using cases by cases (simp_all add: applyAnchorCommit_Inr instanceApplySigned_Inr(3))
  show "jsGet (cd_commit cd) ''prev'' = Inr (CidV (tipFromState s))"
    using cases by cases (auto simp: applyAnchorCommit_Inr dest: instanceApplySigned_Inr(1) instanceCheckSigned_link)
next
  fix cd s e m
  assume "instanceApplyCommit env cd (Some s) = Inl (e, m)"
  then consider (same) "m = Some s" | (signed) s' where "m = Some s'" "instanceApplySigned env cd s = Inl (e, s')"
    by (auto simp: instanceApplyCommit_def liftHandled_Inl split: if_splits dest: applyAnchorCommit_Inl)
  then show "\<exists>s'. m = Some s' \<and> st_type s' = st_type s \<and>
      ((logCids s' = logCids s \<and> map le_type (st_log s') = map le_type (st_log s)) \<or>
       (logCids s' = logCids s @ [le_cid cd] \<and> map le_type (st_log s') = map le_type (st_log s) @ [DATA]))"
    by cases (auto simp: logCids_def dest: instanceApplySigned_Inl)
qed

section \<open>Properties\<close>

lemma instanceApplyCommit_signed:
  "instanceApplyCommit env cd (Some s) = Inr s' \<Longrightarrow> \<not> isAnchorCommitData cd \<Longrightarrow>
     instanceApplySigned env cd s = Inr s'"
  by (simp add: instanceApplyCommit_def)

text \<open>What has been checked of an accepted update, given the model it was checked against.\<close>

lemma instanceValidateUpdate_Inr:
  assumes "instanceValidateUpdate env s metadata data content = Inr ()"
    and "jsGet metadata ''model'' = Inr (SidV m)" and "e_loadStream env (RefStream m) = Inr model"
    and "relationTypeOf model = Inr t"
  shows "instanceValidateContent env model content False (Some data)
      ((t = Str ''set'' \<or> t = Str ''single'') \<and> (\<forall>c \<in> set (st_log s). le_type c \<noteq> DATA)) = Inr ()"
    and "validateUnique env model metadata content = Inr ()"
  using assms by (auto simp: instanceValidateUpdate_def Let_def bindR_Inr_iff)

lemma instanceValidateContent_Inr:
  assumes "instanceValidateContent env model content False (Some data) skip = Inr ()"
  shows "validateContentLength env content = Inr ()"
    and "\<exists>schema. jsGet (ls_content model) ''schema'' = Inr schema \<and> e_validateContent env schema content = Inr True"
    and "validateRelationsContent env model content = Inr ()"
    and "\<not> skip \<Longrightarrow> validateLockedFieldsUpdate env model data = Inr ()"
  using assms
  by (auto simp: instanceValidateContent_def instanceValidateSchema_def bindR_Inr_iff throwIf_Inr_iff ex_unit)


definition sampleMidModel :: loaded_stream where
  "sampleMidModel = \<lparr>ls_id = StreamID 2 (CID [9]), ls_content = Obj [(''version'', Str ''2.0''),
     (''accountRelation'', Obj [(''type'', Str ''set''), (''fields'', Arr [Str ''u''])]),
     (''schema'', Obj []), (''immutableFields'', Arr [Str ''k''])],
     ls_metadata = Obj [], ls_commitId = []\<rparr>"

definition midEnv :: env where
  "midEnv = sampleEnv\<lparr>e_loadStream := (\<lambda>_. Inr sampleMidModel),
     e_jsonPatch := (\<lambda>d p. (Obj [(''u'', Str ''x''), (''k'', Num 2)], Inr (Obj [(''u'', Str ''x''), (''k'', Num 2)])))\<rparr>"

lemma midEnv_simps [simp]:
  "e_lib midEnv = sampleLib" "e_loadStream midEnv r = Inr sampleMidModel" "e_isModelV2 midEnv v"
  "e_validateContent midEnv x y = Inr True" "e_jsonLength midEnv v = 0" "e_dateParse midEnv v = NNaN"
  "e_fmt midEnv v = []"
  "e_jsonPatch midEnv d p = (Obj [(''u'', Str ''x''), (''k'', Num 2)], Inr (Obj [(''u'', Str ''x''), (''k'', Num 2)]))"
  "e_bytesToString midEnv (Bytes bs) = Inr (map (\<lambda>b. char_of (unat b)) bs)"
  "verifyCommitSignature midEnv (sampleCommitData c commit envelope proof) controller mm sid =
     (if jsGetOpt envelope ''by'' = controller then Inr ()
      else Inl (Err ''Can not verify signature for commit''))"
  by (simp_all add: midEnv_def sampleEnv_def verifyCommitSignature_def verifyCapabilityAuthz_def)

definition sampleMid :: stream_state where
  "sampleMid = \<lparr>st_type = MID_TYPE, st_content = Obj [(''u'', Str ''x''), (''k'', Num 1)], st_next = None,
     st_metadata = Obj [(''controllers'', Arr [Str ''did:a'']), (''model'', SidV (StreamID 2 (CID [9]))),
       (''unique'', Bytes [120])],
     st_signature = SIGNED, st_anchorStatus = NOT_REQUESTED, st_anchorProof = Undef,
     st_log = [sampleEntry (CID [1]) INIT NUndef, sampleEntry (CID [2]) DATA NUndef]\<rparr>"

definition sampleMidUpdate :: "js \<Rightarrow> commit_data" where
  "sampleMidUpdate patch = sampleCommitData (CID [3]) (Obj [(''prev'', CidV (CID [2])), (''data'', patch)])
     (Obj [(''by'', Str ''did:a'')]) Undef"

text \<open>Moving the locked field \<open>k\<close> away: the path of the operation is the target.\<close>

definition movePatch :: js where
  "movePatch = Arr [Obj [(''op'', Str ''move''), (''from'', Str ''/k''), (''path'', Str ''/x'')]]"

lemma sampleMid_check:
  "instanceCheckSigned midEnv (sampleMidUpdate patch) sampleMid = Inr Undef"
  by (simp add: instanceCheckSigned_def sampleMidUpdate_def sampleMid_def assertCommitLinksToState_def
      jsGetOpt_def)

lemma sampleMid_locked: "validateLockedFieldsUpdate midEnv sampleMidModel movePatch = Inr ()"
  by (simp add: validateLockedFieldsUpdate_def sampleMidModel_def movePatch_def patchField_def)

lemma sampleMid_update: "\<exists>s'. instanceApplyCommit midEnv (sampleMidUpdate movePatch) (Some sampleMid) = Inr s' \<and>
    st_metadata s' = st_metadata sampleMid"
proof -
  have ch: "(char_of (120::nat) :: char) = CHR ''x''" by code_simp
  have "instanceValidateUpdate midEnv sampleMid (st_metadata sampleMid) movePatch (Obj [(''u'', Str ''x''), (''k'', Num 2)]) = Inr ()"
    using sampleMid_locked ch
    by (simp add: instanceValidateUpdate_def instanceValidateContent_def instanceValidateSchema_def
        validateContentLength_def validateUnique_def uniqueOf_def relationTypeOf_def sampleMid_def
        validateRelationsContent_def Let_def)
      (simp add: sampleMidModel_def uniqueOf_def)
  then show ?thesis
    by (simp add: instanceApplyCommit_def instanceApplySigned_def sampleMid_check)
      (simp add: sampleMidUpdate_def instanceTouched_def sampleMid_def)
qed


text \<open>
  Immutable fields cannot be addressed by the patch of an accepted data commit: no operation
  has a path whose first segment is an immutable field of the model. The first data commit of a
  deterministic document, which writes its initial content, is exempt.
\<close>

theorem mid_immutable_paths:
  assumes "instanceApplyCommit env cd (Some s) = Inr s'" and "\<not> isAnchorCommitData cd"
    and "jsGet (st_metadata s') ''model'' = Inr (SidV m)" and "e_loadStream env (RefStream m) = Inr model"
    and "relationTypeOf model = Inr t" and "e_isModelV2 env (ls_content model)"
    and "jsGet (ls_content model) ''immutableFields'' = Inr (Arr locked)" and "locked \<noteq> []"
    and "t \<notin> {Str ''set'', Str ''single''} \<or> (\<exists>c \<in> set (st_log s). le_type c = DATA)"
  shows "\<exists>entries. jsGet (cd_commit cd) ''data'' = Inr (Arr entries) \<and>
    (\<forall>entry \<in> set entries. \<exists>field. patchField entry = Inr field \<and> Str field \<notin> set locked)"
proof -
  note sg = instanceApplyCommit_signed [OF assms(1,2)]
  from instanceApplySigned_Inr(1) [OF sg] obtain data where d: "jsGet (cd_commit cd) ''data'' = Inr data"
    "instanceValidateUpdate env s (st_metadata s') data (st_content s') = Inr ()" by blast
  note c = instanceValidateContent_Inr [OF instanceValidateUpdate_Inr(1) [OF d(2) assms(3-5)]]
  from assms(9) c(4) have "validateLockedFieldsUpdate env model data = Inr ()" by auto
  with assms(6-8) have l: "forEachR (\<lambda>lockedField. bindR (jsArray data) (\<lambda>entries.
      bindR (mapR patchField entries) (\<lambda>touched.
      throwIf (\<exists>t \<in> set touched. Str t = lockedField) (Err ''Immutable field cannot be updated'')))) locked = Inr ()"
    by (simp add: validateLockedFieldsUpdate_def)
  from assms(8) obtain l0 where "l0 \<in> set locked" by (cases locked) auto
  with l obtain entries touched where e: "jsArray data = Inr entries" "mapR patchField entries = Inr touched"
    unfolding forEachR_Inr_iff bindR_Inr_iff by blast
  have free: "Str t \<notin> set locked" if "t \<in> set touched" for t
    using l e that unfolding forEachR_Inr_iff by (auto simp: throwIf_Inr_iff)
  have "\<exists>field. patchField entry = Inr field \<and> Str field \<notin> set locked" if en: "entry \<in> set entries" for entry
  proof -
    from en obtain i where i: "i < length entries" "entries ! i = entry" by (auto simp: in_set_conv_nth)
    from mapR_nth [OF e(2) i(1)] i(2) have "patchField entry = Inr (touched ! i)" by simp
    moreover have "touched ! i \<in> set touched" using i(1) mapR_length [OF e(2)] by simp
    ultimately show ?thesis using free by blast
  qed
  moreover have "data = Arr entries" using e(1) by (cases data) auto
  ultimately show ?thesis using d(1) by blast
qed

theorem mid_immutable_paths_witness:
  "\<exists>entries. jsGet (cd_commit (sampleMidUpdate movePatch)) ''data'' = Inr (Arr entries) \<and>
    (\<forall>entry \<in> set entries. \<exists>field. patchField entry = Inr field \<and> Str field \<notin> {Str ''k''})"
proof -
  obtain s' where s': "instanceApplyCommit midEnv (sampleMidUpdate movePatch) (Some sampleMid) = Inr s'"
    "st_metadata s' = st_metadata sampleMid" using sampleMid_update by blast
  from mid_immutable_paths [OF s'(1), of "StreamID 2 (CID [9])" sampleMidModel "Str ''set''" "[Str ''k'']"] s'(2)
  show ?thesis
    by (auto simp: sampleMidUpdate_def sampleMid_def relationTypeOf_def sampleMidModel_def)
qed

text \<open>
  The check of immutable fields looks at the target of an operation only. A \<open>move\<close> that takes
  an immutable field away, to a target that is not immutable, passes it for every model.
\<close>

theorem mid_move_not_checked:
  assumes "e_isModelV2 env (ls_content model)"
    and "jsGet (ls_content model) ''immutableFields'' = Inr (Arr locked)"
    and "Str f \<in> set locked" and "Str g \<notin> set locked" and "CHR ''/'' \<notin> set g"
  shows "validateLockedFieldsUpdate env model
    (Arr [Obj [(''op'', Str ''move''), (''from'', Str (''/'' @ f)), (''path'', Str (''/'' @ g))]]) = Inr ()"
  using assms by (auto simp: validateLockedFieldsUpdate_def forEachR_Inr_iff patchField_def jsSplit_no_sep
      throwIf_Inr_iff)

theorem mid_move_not_checked_witness:
  "validateLockedFieldsUpdate midEnv sampleMidModel movePatch = Inr ()"
  using mid_move_not_checked [of midEnv sampleMidModel "[Str ''k'']" "''k''" "''x''"]
  by (simp add: sampleMidModel_def movePatch_def)

text \<open>
  A data commit whose patch applies but whose content is rejected is not appended to the log,
  and yet the log application that tolerates invalid commits returns a state with the rejected
  content.
\<close>

theorem mid_rejected_content_kept:
  assumes "\<not> isAnchorCommitData cd" and "instanceCheckSigned env cd s = Inr i"
    and "jsGet (cd_commit cd) ''data'' = Inr data" and "\<not> jsNullish (st_content s)"
    and "e_jsonPatch env (st_content s) data = (doc, Inr content)"
    and "instanceValidateUpdate env s (st_metadata (instanceTouched s i doc)) data content = Inl e"
  shows "instanceApplyCommit env cd (Some s) = Inl (e, Some (instanceTouched s i doc)) \<and>
    (\<exists>s'. applyLog (instanceApplyCommit env) (Some s) [cd] False = Inr (Some s') \<and>
       st_content s' = doc \<and> st_log s' = st_log s)"
  using assms
  by (simp add: instanceApplyCommit_def instanceApplySigned_def Let_def jsNullishOr_def)
    (simp add: instanceTouched_def)

theorem mid_rejected_content_kept_witness:
  "\<exists>s'. applyLog (instanceApplyCommit midEnv) (Some (sampleMid\<lparr>st_metadata :=
        Obj [(''controllers'', Arr [Str ''did:a'']), (''model'', SidV (StreamID 2 (CID [9])))]\<rparr>))
      [sampleMidUpdate movePatch] False = Inr (Some s') \<and>
     st_content s' = Obj [(''u'', Str ''x''), (''k'', Num 2)]"
proof -
  let ?s = "sampleMid\<lparr>st_metadata := Obj [(''controllers'', Arr [Str ''did:a'']), (''model'', SidV (StreamID 2 (CID [9])))]\<rparr>"
  let ?doc = "Obj [(''u'', Str ''x''), (''k'', Num 2)]"
  have 1: "instanceCheckSigned midEnv (sampleMidUpdate movePatch) ?s = Inr Undef"
    by (simp add: instanceCheckSigned_def sampleMidUpdate_def sampleMid_def assertCommitLinksToState_def
      jsGetOpt_def)
  have 2: "instanceValidateUpdate midEnv ?s (st_metadata (instanceTouched ?s Undef ?doc)) movePatch ?doc
      = Inl (Err ''Missing unique metadata value'')"
    using sampleMid_locked
    by (simp add: instanceValidateUpdate_def instanceValidateContent_def instanceValidateSchema_def
        validateContentLength_def validateUnique_def relationTypeOf_def sampleMid_def instanceTouched_def
        validateRelationsContent_def Let_def)
      (simp add: sampleMidModel_def)
  show ?thesis
    using mid_rejected_content_kept [OF _ 1 _ _ _ 2] by (auto simp: sampleMidUpdate_def sampleMid_def)
qed

end
