(* ===== verification/Handlers.thy ===== *)
theory Handlers
  imports TileHandler Caip10Handler ModelHandler InstanceHandler
begin

text \<open>
  The registry of stream handlers (\<open>core/src/handlers-map.ts\<close>). Whatever stream type the registry
  serves, its handler meets the interface \<open>stream_handler\<close>: the components above it rest on that.
\<close>

type_synonym registry = "nat \<rightharpoonup> apply_commit"

definition defaultHandlers :: "env \<Rightarrow> registry" where
  "defaultHandlers env = [TILE_TYPE \<mapsto> tileApplyCommit env, CAIP10_TYPE \<mapsto> caipApplyCommit env,
     MODEL_TYPE \<mapsto> modelApplyCommit env, MID_TYPE \<mapsto> instanceApplyCommit env]"

definition handlersGet :: "registry \<Rightarrow> type_arg \<Rightarrow> js_error + apply_commit" where
  "handlersGet handlers type = bindR (resolveType type) (\<lambda>id. case handlers id of
     Some handler \<Rightarrow> Inr handler
   | None \<Rightarrow> Inl (Err ''not a valid stream type''))"

definition handlersAdd :: "registry \<Rightarrow> nat \<Rightarrow> apply_commit \<Rightarrow> registry" where
  "handlersAdd handlers type handler = handlers(type \<mapsto> handler)"

lemmas handler_types = TILE_TYPE_def CAIP10_TYPE_def MODEL_TYPE_def MID_TYPE_def

text \<open>A registry all of whose handlers meet the interface for the type they are registered under.\<close>

definition registryOk :: "registry \<Rightarrow> bool" where
  "registryOk handlers \<longleftrightarrow> (\<forall>t h. handlers t = Some h \<longrightarrow> stream_handler h t)"

lemma defaultHandlers_ok: "registryOk (defaultHandlers env)"
  using tile.stream_handler_axioms [of env] caip.stream_handler_axioms [of env]
    model.stream_handler_axioms [of env] mid.stream_handler_axioms [of env]
  by (auto simp: registryOk_def defaultHandlers_def split: if_splits)

lemma handlersGet_code [simp]:
  "handlersGet handlers (TypeCode t) = Inr h \<longleftrightarrow> handlers t = Some h"
  by (auto simp: handlersGet_def split: option.splits)

lemma handlersGet_ok:
  "registryOk handlers \<Longrightarrow> handlersGet handlers (TypeCode t) = Inr h \<Longrightarrow> stream_handler h t"
  by (simp add: registryOk_def)

lemma handlersAdd_ok:
  "registryOk handlers \<Longrightarrow> stream_handler h t \<Longrightarrow> registryOk (handlersAdd handlers t h)"
  by (simp add: registryOk_def handlersAdd_def)

end
