(* ===== verification/LogSync.thy ===== *)
theory LogSync
  imports Signatures LogApplication
begin

text \<open>
  Loading the log of a stream (\<open>core/src/stream-loading/log-syncer.ts\<close>, \<open>getCommitData\<close> and
  \<open>extractCapability\<close> of \<open>core/src/utils.ts\<close>) and validating its anchors
  (\<open>anchor-timestamp-extractor.ts\<close>). The loop that walks back from a tip follows \<open>prev\<close> links until
  it meets a known commit or a commit without \<open>prev\<close>; it has fuel, and \<open>rankedStore\<close> states that
  the store has no infinite chain of \<open>prev\<close> links, which makes the fuel enough.
\<close>

section \<open>The commit store and the anchor validator\<close>

text \<open>
  \<open>ld_retrieveCommit\<close> and \<open>ld_retrieveFromIPFS\<close> read the IPFS block store; \<open>ld_decodeProtected\<close> is
  the base64url JSON decoding of a JWS header; \<open>ld_validateChainInclusion\<close> looks the anchor proof up
  on the blockchain and returns the time of the block in seconds.
\<close>

record loader =
  ld_lib :: codec_lib
  ld_retrieveCommit :: "cid \<Rightarrow> stream_id \<Rightarrow> js_error + js"
  ld_retrieveFromIPFS :: "js \<Rightarrow> string option \<Rightarrow> js_error + js"
  ld_decodeProtected :: "js \<Rightarrow> js_error + js"
  ld_validateChainInclusion :: "js \<Rightarrow> js_error + int"
  ld_fuel :: nat

section \<open>Loading one commit\<close>

text \<open>\<open>s.replace(p, '')\<close>: the first occurrence of \<open>p\<close> is removed.\<close>

fun removeFirst :: "string \<Rightarrow> string \<Rightarrow> string" where
  "removeFirst p [] = []"
| "removeFirst p (c # s) =
     (if startsWith (c # s) p then drop (length p) (c # s) else c # removeFirst p s)"

definition getCacaoCidFromCommit :: "loader \<Rightarrow> js \<Rightarrow> js_error + cid option" where
  "getCacaoCidFromCommit ld commit =
     bindR (isSignedCommit commit) (\<lambda>signed.
     if \<not> signed then Inr None
     else
       bindR (jsGet commit ''signatures'') (\<lambda>signatures.
       bindR (jsIndex signatures 0) (\<lambda>sig.
       bindR (jsGet sig ''protected'') (\<lambda>protected.
       bindR (ld_decodeProtected ld protected) (\<lambda>header.
       bindR (jsGet header ''cap'') (\<lambda>cap.
       if \<not> jsTruthy cap then Inr None
       else case cap of
         Str uri \<Rightarrow> bindR (cidParse (ld_lib ld) (removeFirst ''ipfs://'' uri)) (\<lambda>c. Inr (Some c))
       | _ \<Rightarrow> Inl TypeErr))))))"

definition extractCapability :: "loader \<Rightarrow> js \<Rightarrow> js_error + js" where
  "extractCapability ld commit =
     bindR (jsGet commit ''signatures'') (\<lambda>signatures.
     bindR (if jsTruthy signatures then bindR (jsGet signatures ''length'') (\<lambda>n. Inr (n = Num 0))
            else Inr True) (\<lambda>noSignatures.
     if noSignatures then Inr Undef
     else
       bindR (getCacaoCidFromCommit ld commit) (\<lambda>capCID.
       case capCID of
         None \<Rightarrow> Inr Undef
       | Some c \<Rightarrow> (case ld_retrieveFromIPFS ld (CidV c) None of
           Inl _ \<Rightarrow> Inl (Err ''Error while loading capability from IPFS'')
         | Inr cacao \<Rightarrow> Inr cacao))))"

definition retrieveLinked :: "loader \<Rightarrow> stream_id \<Rightarrow> js \<Rightarrow> js_error + js" where
  "retrieveLinked ld streamId link = (case link of
     CidV c \<Rightarrow> ld_retrieveCommit ld c streamId
   | Str s \<Rightarrow> bindR (cidParse (ld_lib ld) s) (\<lambda>c. ld_retrieveCommit ld c streamId)
   | _ \<Rightarrow> Inl TypeErr)"

definition getCommitData :: "loader \<Rightarrow> cid \<Rightarrow> stream_id \<Rightarrow> js_error + commit_data" where
  "getCommitData ld cid streamId =
     bindR (ld_retrieveCommit ld cid streamId) (\<lambda>commit.
     bindR (throwIf (\<not> jsTruthy commit) (Err ''No commit found for CID'')) (\<lambda>_.
     let commitData = \<lparr> le_cid = cid, le_type = DATA, le_timestamp = NUndef, le_expiration = NUndef,
           cd_commit = commit, cd_envelope = Undef, cd_proof = Undef, cd_anchorError = None,
           cd_capability = Undef \<rparr>
     in
       bindR (isSignedCommit commit) (\<lambda>signed.
       bindR (isAnchorCommit commit) (\<lambda>anchor.
       bindR (if signed then
                bindR (jsGet commit ''link'') (\<lambda>link.
                bindR (retrieveLinked ld streamId link) (\<lambda>linkedCommit.
                bindR (throwIf (\<not> jsTruthy linkedCommit) (Err ''No commit found for CID'')) (\<lambda>_.
                bindR (extractCapability ld commit) (\<lambda>capability.
                Inr (commitData\<lparr>cd_commit := linkedCommit, cd_envelope := commit,
                       cd_capability := capability\<rparr>)))))
              else if anchor then
                bindR (jsGet commit ''proof'') (\<lambda>proofCid.
                bindR (ld_retrieveFromIPFS ld proofCid None) (\<lambda>proof.
                Inr (commitData\<lparr>le_type := TIME, cd_proof := proof\<rparr>)))
              else Inr commitData) (\<lambda>cd.
       bindR (jsGet (cd_commit cd) ''prev'') (\<lambda>prev.
       Inr (if \<not> jsTruthy prev then cd\<lparr>le_type := INIT\<rparr> else cd)))))))"

section \<open>Walking back from a tip\<close>

definition logIncludes :: "cid \<Rightarrow> cid list option \<Rightarrow> bool" where
  "logIncludes c log1 = (case log1 of None \<Rightarrow> False | Some entries \<Rightarrow> find (\<lambda>e. e = c) entries \<noteq> None)"

text \<open>
  The while loop of \<open>_syncLogHelper\<close>. \<open>synced\<close> is \<open>syncedLog\<close>, newest commit first in time of
  loading; a \<open>prev\<close> that is neither falsy nor a CID is a TypeError of the loader.
\<close>

fun syncLoop :: "nat \<Rightarrow> loader \<Rightarrow> stream_id \<Rightarrow> cid list option \<Rightarrow> cid \<Rightarrow> commit_data list \<Rightarrow>
    js_error + commit_data list" where
  "syncLoop 0 ld streamID existing curCid synced = Inl Diverged"
| "syncLoop (Suc fuel) ld streamID existing curCid synced =
     (if logIncludes curCid existing then Inr synced
      else
        bindR (getCommitData ld curCid streamID) (\<lambda>commitData.
        bindR (jsGet (cd_commit commitData) ''prev'') (\<lambda>prevCid.
        if \<not> jsTruthy prevCid then
          (if existing \<noteq> None then Inr [] else Inr (synced @ [commitData]))
        else case prevCid of
          CidV p \<Rightarrow> syncLoop fuel ld streamID existing p (synced @ [commitData])
        | _ \<Rightarrow> Inl TypeErr)))"

definition syncLogHelper :: "loader \<Rightarrow> stream_id \<Rightarrow> cid \<Rightarrow> cid list option \<Rightarrow> js_error + unappliable_log" where
  "syncLogHelper ld streamID tip existingCommits =
     bindR (syncLoop (ld_fuel ld) ld streamID existingCommits tip []) (\<lambda>synced.
     Inr (UnappliableStreamLog (rev synced)))"

definition syncGenesisLog :: "loader \<Rightarrow> stream_id \<Rightarrow> js_error + unappliable_log" where
  "syncGenesisLog ld streamID =
     bindR (getCommitData ld (sid_cid streamID) streamID) (\<lambda>genesis. Inr (UnappliableStreamLog [genesis]))"

definition syncFullLog :: "loader \<Rightarrow> stream_id \<Rightarrow> cid option \<Rightarrow> js_error + unappliable_log" where
  "syncFullLog ld streamID tip = (case tip of
     None \<Rightarrow> syncGenesisLog ld streamID
   | Some t \<Rightarrow> bindR (syncLogHelper ld streamID t None) (\<lambda>lg.
       case unappliable_commits lg of
         [] \<Rightarrow> syncGenesisLog ld streamID
       | first # _ \<Rightarrow> if le_cid first \<noteq> sid_cid streamID then syncGenesisLog ld streamID else Inr lg))"

definition syncLogUntilMatch :: "loader \<Rightarrow> stream_id \<Rightarrow> cid \<Rightarrow> cid list \<Rightarrow> js_error + unappliable_log" where
  "syncLogUntilMatch ld streamID tip existingCommits =
     syncLogHelper ld streamID tip (Some existingCommits)"

section \<open>Anchor timestamps\<close>

text \<open>\<open>s.lastIndexOf('/')\<close> splits \<open>s\<close> into the parts before and after the last slash.\<close>

fun splitLast :: "char \<Rightarrow> string \<Rightarrow> string \<times> string" where
  "splitLast c s = (let parts = jsSplit c s in (jsJoin [c] (butlast parts), last parts))"

text \<open>
  \<open>commitPath.substr(0, lastIndexOf('/'))\<close> is empty when there is no slash (a negative length).
\<close>

definition anchorPrev :: "loader \<Rightarrow> js \<Rightarrow> js \<Rightarrow> js \<Rightarrow> js_error + js" where
  "anchorPrev ld proof proofLink path =
     bindR (jsGet path ''length'') (\<lambda>n.
     if n = Num 0 then jsGet proof ''root''
     else case path of
       Str s \<Rightarrow> (let (parent, lastPart) = splitLast CHR ''/'' s in
         bindR (ld_retrieveFromIPFS ld proofLink (Some (''/root/'' @ parent))) (\<lambda>node.
         case node of
           Arr xs \<Rightarrow> Inr (case find (\<lambda>(k, _). k = lastPart) (jsFields node) of Some (_, v) \<Rightarrow> v | None \<Rightarrow> Undef)
         | _ \<Rightarrow> jsGet node lastPart))
     | _ \<Rightarrow> Inl TypeErr)"

definition verifyAnchorCommit :: "loader \<Rightarrow> commit_data \<Rightarrow> js_error + int" where
  "verifyAnchorCommit ld cd =
     bindR (jsGet (cd_commit cd) ''path'') (\<lambda>path.
     bindR (jsGet (cd_commit cd) ''proof'') (\<lambda>proofLink.
     bindR (case anchorPrev ld (cd_proof cd) proofLink path of
              Inl _ \<Rightarrow> Inl (Err ''The anchor commit couldn't be verified'') | Inr v \<Rightarrow> Inr v) (\<lambda>viaMerkleTree.
     bindR (jsGet (cd_commit cd) ''prev'') (\<lambda>prev.
     bindR (jsCidString (ld_lib ld) prev) (\<lambda>prevStr.
     bindR (jsCidString (ld_lib ld) viaMerkleTree) (\<lambda>viaStr.
     bindR (throwIf (prevStr \<noteq> viaStr) (Err ''The anchor commit proof points to invalid 'prev' commit'')) (\<lambda>_.
     ld_validateChainInclusion ld (cd_proof cd))))))))"

text \<open>
  The loop of \<open>verifyAnchorAndApplyTimestamps\<close>, from the newest commit to the oldest: it gets the
  reversed log and \<open>timestamp\<close>.
\<close>

fun stampCommits :: "loader \<Rightarrow> onum \<Rightarrow> commit_data list \<Rightarrow> commit_data list" where
  "stampCommits ld timestamp [] = []"
| "stampCommits ld timestamp (cd # cds) =
     (if le_type cd = TIME then
        (case verifyAnchorCommit ld cd of
           Inr t \<Rightarrow> cd\<lparr>le_timestamp := NVal t\<rparr> # stampCommits ld (NVal t) cds
         | Inl err \<Rightarrow> cd\<lparr>le_timestamp := timestamp, cd_anchorError := Some err\<rparr>
             # stampCommits ld timestamp cds)
      else cd\<lparr>le_timestamp := timestamp\<rparr> # stampCommits ld timestamp cds)"

definition verifyAnchorAndApplyTimestamps :: "loader \<Rightarrow> unappliable_log \<Rightarrow> appliable_log" where
  "verifyAnchorAndApplyTimestamps ld lg =
     AppliableStreamLog (rev (stampCommits ld NNull (rev (unappliable_commits lg))))"

section \<open>What the syncer returns\<close>

lemma getCommitData_cid: "getCommitData ld c sid = Inr cd \<Longrightarrow> le_cid cd = c"
  by (auto simp: getCommitData_def Let_def res_simps split: if_splits)

lemma linkedFrom_snoc:
  "linkedFrom t (xs @ [x]) \<longleftrightarrow> linkedFrom t xs \<and>
     jsGet (cd_commit x) ''prev'' = Inr (CidV (if xs = [] then t else le_cid (last xs)))"
  by (induction xs arbitrary: t) auto

lemma logIncludes_iff: "logIncludes c ex \<longleftrightarrow> (\<exists>es. ex = Some es \<and> c \<in> set es)"
  by (auto simp: logIncludes_def find_None_iff split: option.splits)

text \<open>\<open>cds\<close>, newest first, is a stretch of the log that ends at \<open>c\<close>: all its commits are loaded from
  the store, none is known already, and each points to the next.\<close>

definition stretch :: "loader \<Rightarrow> stream_id \<Rightarrow> cid list option \<Rightarrow> cid \<Rightarrow> commit_data list \<Rightarrow> bool" where
  "stretch ld sid ex cur cds \<longleftrightarrow>
     (\<forall>cd \<in> set cds. getCommitData ld (le_cid cd) sid = Inr cd \<and> \<not> logIncludes (le_cid cd) ex) \<and>
     (cds \<noteq> [] \<longrightarrow> le_cid (hd cds) = cur)"

lemma stretch_Cons:
  assumes "getCommitData ld cur sid = Inr cd" and "\<not> logIncludes cur ex" and "stretch ld sid ex p cds"
  shows "stretch ld sid ex cur (cd # cds)"
  using assms getCommitData_cid [OF assms(1)] by (auto simp: stretch_def)

lemma linkedFrom_step:
  assumes "jsGet (cd_commit cd) ''prev'' = Inr (CidV p)" and "linkedFrom c (rev cds)"
    and "cds = [] \<Longrightarrow> c = p" and "cds \<noteq> [] \<Longrightarrow> le_cid (hd cds) = p"
  shows "linkedFrom c (rev (cd # cds))"
  using assms by (auto simp: linkedFrom_snoc last_rev)

lemma syncLoop_Some:
  "syncLoop n ld sid (Some es) cur synced = Inr r \<Longrightarrow> r = [] \<or>
     (\<exists>new c. r = synced @ new \<and> stretch ld sid (Some es) cur new \<and> c \<in> set es \<and>
        linkedFrom c (rev new) \<and> (new = [] \<longrightarrow> c = cur))"
proof (induction n arbitrary: cur synced r)
  case (Suc n)
  show ?case
  proof (cases "logIncludes cur (Some es)")
    case True
    with Suc.prems have "r = synced" "cur \<in> set es" by (auto simp: logIncludes_iff)
    then show ?thesis by (auto intro!: exI [of _ "[]"] simp: stretch_def)
  next
    case False
    with Suc.prems obtain cd v where cd: "getCommitData ld cur sid = Inr cd"
      and v: "jsGet (cd_commit cd) ''prev'' = Inr v" by (auto simp: res_simps)
    consider "r = []" | p where "v = CidV p" "syncLoop n ld sid (Some es) p (synced @ [cd]) = Inr r"
      using Suc.prems False cd v by (cases v) (auto simp: res_simps split: if_splits)
    then show ?thesis
    proof cases
      case 2
      from Suc.IH [OF 2(2)] show ?thesis
      proof
        assume "\<exists>new c. r = (synced @ [cd]) @ new \<and> stretch ld sid (Some es) p new \<and> c \<in> set es \<and>
          linkedFrom c (rev new) \<and> (new = [] \<longrightarrow> c = p)"
        then obtain new c where n: "r = synced @ cd # new" "stretch ld sid (Some es) p new"
          "c \<in> set es" "linkedFrom c (rev new)" "new = [] \<longrightarrow> c = p" by auto
        have "linkedFrom c (rev (cd # new))"
          using n v 2(1) by (intro linkedFrom_step [of _ p]) (auto simp: stretch_def)
        with n stretch_Cons [OF cd False n(2)] show ?thesis by blast
      qed simp
    qed simp
  qed
qed simp

lemma syncLoop_None:
  "syncLoop n ld sid None cur synced = Inr r \<Longrightarrow>
     \<exists>new g. r = synced @ new @ [g] \<and> stretch ld sid None cur (new @ [g]) \<and> linkedFrom (le_cid g) (rev new)"
proof (induction n arbitrary: cur synced r)
  case (Suc n)
  have nl: "\<not> logIncludes cur None" by (simp add: logIncludes_def)
  from Suc.prems nl obtain cd v where cd: "getCommitData ld cur sid = Inr cd"
    and v: "jsGet (cd_commit cd) ''prev'' = Inr v" by (auto simp: res_simps)
  consider "r = synced @ [cd]" | p where "v = CidV p" "syncLoop n ld sid None p (synced @ [cd]) = Inr r"
    using Suc.prems nl cd v by (cases v) (auto simp: res_simps split: if_splits)
  then show ?case
  proof cases
    case 1
    have "stretch ld sid None cur ([] @ [cd])"
      using cd nl getCommitData_cid [OF cd] by (simp add: stretch_def)
    with 1 show ?thesis by (intro exI [of _ "[]"] exI [of _ cd]) simp
  next
    case 2
    from Suc.IH [OF 2(2)] obtain new g where n: "r = (synced @ [cd]) @ new @ [g]"
      "stretch ld sid None p (new @ [g])" "linkedFrom (le_cid g) (rev new)" by blast
    have "linkedFrom (le_cid g) (rev (cd # new))"
      using n v 2(1) by (intro linkedFrom_step [of _ p]) (auto simp: stretch_def)
    with n stretch_Cons [OF cd nl n(2)] show ?thesis
      by (intro exI [of _ "cd # new"] exI [of _ g]) simp
  qed
qed simp

lemma syncLogUntilMatch_Inr:
  assumes "syncLogUntilMatch ld sid tip es = Inr lg" and "unappliable_commits lg = cds" and "cds \<noteq> []"
  shows "\<exists>c \<in> set es. linkedFrom c cds" and "le_cid (last cds) = tip"
    and "\<forall>cd \<in> set cds. getCommitData ld (le_cid cd) sid = Inr cd \<and> le_cid cd \<notin> set es"
proof -
  from assms obtain r where r: "syncLoop (ld_fuel ld) ld sid (Some es) tip [] = Inr r" "cds = rev r"
    by (auto simp: syncLogUntilMatch_def syncLogHelper_def res_simps)
  from syncLoop_Some [OF r(1)] assms(3) r(2) obtain c where
    c: "stretch ld sid (Some es) tip r" "c \<in> set es" "linkedFrom c (rev r)" by auto
  then show "\<exists>c \<in> set es. linkedFrom c cds" using r(2) by blast
  show "le_cid (last cds) = tip" using c(1) assms(3) r(2) by (auto simp: stretch_def last_rev)
  show "\<forall>cd \<in> set cds. getCommitData ld (le_cid cd) sid = Inr cd \<and> le_cid cd \<notin> set es"
    using c(1) r(2) by (auto simp: stretch_def logIncludes_iff)
qed

lemma syncGenesisLog_Inr:
  "syncGenesisLog ld sid = Inr lg \<Longrightarrow>
     \<exists>g. unappliable_commits lg = [g] \<and> getCommitData ld (sid_cid sid) sid = Inr g"
  by (auto simp: syncGenesisLog_def res_simps)

lemma syncFullLog_Inr:
  assumes "syncFullLog ld sid tip = Inr lg"
  shows "\<exists>g cds. unappliable_commits lg = g # cds \<and> le_cid g = sid_cid sid \<and> linkedFrom (le_cid g) cds \<and>
    (\<forall>cd \<in> set (g # cds). getCommitData ld (le_cid cd) sid = Inr cd) \<and>
    (cds = [] \<or> tip = Some (le_cid (last cds)))"
proof (cases "syncGenesisLog ld sid = Inr lg")
  case True
  from syncGenesisLog_Inr [OF this] obtain g where
    g: "unappliable_commits lg = [g]" "getCommitData ld (sid_cid sid) sid = Inr g" by blast
  with getCommitData_cid [OF g(2)] show ?thesis by simp
next
  case False
  with assms obtain t x where tx: "tip = Some t" "syncLogHelper ld sid t None = Inr x"
    by (cases tip) (auto simp: syncFullLog_def bindR_Inr_iff)
  with assms False have "x = lg \<and> unappliable_commits x \<noteq> [] \<and>
      le_cid (hd (unappliable_commits x)) = sid_cid sid"
    by (cases "unappliable_commits x") (auto simp: syncFullLog_def split: if_split_asm)
  with tx have t: "tip = Some t" "syncLogHelper ld sid t None = Inr lg"
    "unappliable_commits lg \<noteq> []" "le_cid (hd (unappliable_commits lg)) = sid_cid sid" by auto
  then obtain r where r: "syncLoop (ld_fuel ld) ld sid None t [] = Inr r" "lg = UnappliableStreamLog (rev r)"
    by (auto simp: syncLogHelper_def res_simps)
  from syncLoop_None [OF r(1)] obtain new g where n: "r = new @ [g]"
    "stretch ld sid None t (new @ [g])" "linkedFrom (le_cid g) (rev new)" by auto
  with t r show ?thesis by (cases "new = []") (auto simp: stretch_def last_rev hd_append)
qed

section \<open>The fuel\<close>

text \<open>A store in which \<open>rank\<close> decreases along \<open>prev\<close> links: hash links cannot form a cycle.\<close>

definition rankedStore :: "loader \<Rightarrow> stream_id \<Rightarrow> (cid \<Rightarrow> nat) \<Rightarrow> bool" where
  "rankedStore ld sid rank \<longleftrightarrow> (\<forall>c. getCommitData ld c sid \<noteq> Inl Diverged \<and>
     (\<forall>cd p. getCommitData ld c sid = Inr cd \<longrightarrow> jsGet (cd_commit cd) ''prev'' = Inr (CidV p) \<longrightarrow>
        rank p < rank c))"

lemma jsGet_not_Diverged: "jsGet v k \<noteq> Inl Diverged"
  by (cases v) auto

lemma syncLoop_terminates:
  assumes "rankedStore ld sid rank"
  shows "rank cur < n \<Longrightarrow> syncLoop n ld sid ex cur synced \<noteq> Inl Diverged"
proof (induction n arbitrary: cur synced)
  case (Suc n)
  have step: "syncLoop n ld sid ex p (synced @ [cd]) \<noteq> Inl Diverged"
    if "getCommitData ld cur sid = Inr cd" "jsGet (cd_commit cd) ''prev'' = Inr (CidV p)" for cd p
  proof -
    from assms that have "rank p < rank cur" unfolding rankedStore_def by blast
    with Suc show ?thesis by simp
  qed
  have "getCommitData ld cur sid \<noteq> Inl Diverged" using assms by (simp add: rankedStore_def)
  with step show ?case
    by (auto simp: bindR_Inl_iff jsGet_not_Diverged split: js.splits if_splits)
qed simp

lemma syncLoop_fuel:
  assumes "rankedStore ld sid rank"
  shows "rank cur < m \<Longrightarrow> rank cur < n \<Longrightarrow>
    syncLoop m ld sid ex cur synced = syncLoop n ld sid ex cur synced"
proof (induction m arbitrary: n cur synced)
  case (Suc m)
  then obtain k where k: "n = Suc k" by (cases n) auto
  have step: "syncLoop m ld sid ex p (synced @ [cd]) = syncLoop k ld sid ex p (synced @ [cd])"
    if "getCommitData ld cur sid = Inr cd" "jsGet (cd_commit cd) ''prev'' = Inr (CidV p)" for cd p
  proof -
    from assms that have "rank p < rank cur" unfolding rankedStore_def by blast
    then have "rank p < m" "rank p < k" using Suc.prems k by auto
    then show ?thesis by (rule Suc.IH)
  qed
  show ?case
  proof (cases "logIncludes cur ex")
    case False
    have "bindR (getCommitData ld cur sid) (\<lambda>cd. bindR (jsGet (cd_commit cd) ''prev'') (\<lambda>v. F m cd v))
        = bindR (getCommitData ld cur sid) (\<lambda>cd. bindR (jsGet (cd_commit cd) ''prev'') (\<lambda>v. F k cd v))"
      if "\<And>cd v. getCommitData ld cur sid = Inr cd \<Longrightarrow> jsGet (cd_commit cd) ''prev'' = Inr v \<Longrightarrow>
        F m cd v = F k cd v" for F :: "nat \<Rightarrow> commit_data \<Rightarrow> js \<Rightarrow> js_error + commit_data list"
      using that by (intro bindR_cong refl)
    from this [of "\<lambda>j cd v. if \<not> jsTruthy v then (if ex \<noteq> None then Inr [] else Inr (synced @ [cd]))
        else case v of CidV p \<Rightarrow> syncLoop j ld sid ex p (synced @ [cd]) | _ \<Rightarrow> Inl TypeErr"]
    show ?thesis using False step by (simp add: k split: js.split)
  qed (simp add: k)
qed simp

lemma stampCommits_simps [simp]:
  "length (stampCommits ld t cds) = length cds"
  "map le_cid (stampCommits ld t cds) = map le_cid cds"
  "map cd_commit (stampCommits ld t cds) = map cd_commit cds"
  "map le_type (stampCommits ld t cds) = map le_type cds"
  by (induction ld t cds rule: stampCommits.induct) (auto split: sum.splits)

section \<open>Timestamps of the commits\<close>

text \<open>The time an anchor proves, and the time the first valid anchor of a log proves.\<close>

definition anchorTime :: "loader \<Rightarrow> commit_data \<Rightarrow> int option" where
  "anchorTime ld cd = (if le_type cd = TIME
     then (case verifyAnchorCommit ld cd of Inr t \<Rightarrow> Some t | Inl _ \<Rightarrow> None) else None)"

fun firstAnchorTime :: "loader \<Rightarrow> commit_data list \<Rightarrow> onum" where
  "firstAnchorTime ld [] = NNull"
| "firstAnchorTime ld (cd # cds) = (case anchorTime ld cd of Some t \<Rightarrow> NVal t | None \<Rightarrow> firstAnchorTime ld cds)"

definition anchorFailure :: "loader \<Rightarrow> commit_data \<Rightarrow> js_error option" where
  "anchorFailure ld cd = (if le_type cd = TIME
     then (case verifyAnchorCommit ld cd of Inl e \<Rightarrow> Some e | Inr _ \<Rightarrow> cd_anchorError cd)
     else cd_anchorError cd)"

fun stampedForward :: "loader \<Rightarrow> commit_data list \<Rightarrow> commit_data list" where
  "stampedForward ld [] = []"
| "stampedForward ld (cd # cds) =
     cd\<lparr>le_timestamp := firstAnchorTime ld (cd # cds), cd_anchorError := anchorFailure ld cd\<rparr>
       # stampedForward ld cds"

fun timeAfter :: "loader \<Rightarrow> onum \<Rightarrow> commit_data list \<Rightarrow> onum" where
  "timeAfter ld t [] = t"
| "timeAfter ld t (cd # cds) = timeAfter ld (case anchorTime ld cd of Some x \<Rightarrow> NVal x | None \<Rightarrow> t) cds"

lemma stampCommits_step:
  "stampCommits ld t (cd # cds) =
     (let u = (case anchorTime ld cd of Some x \<Rightarrow> NVal x | None \<Rightarrow> t) in
      cd\<lparr>le_timestamp := u, cd_anchorError := anchorFailure ld cd\<rparr> # stampCommits ld u cds)"
  by (simp add: anchorTime_def anchorFailure_def Let_def split: sum.split)

lemma stampCommits_snoc:
  "stampCommits ld t (cds @ [cd]) = stampCommits ld t cds @ stampCommits ld (timeAfter ld t cds) [cd]"
  by (induction cds arbitrary: t) (simp_all add: stampCommits_step Let_def del: stampCommits.simps(2))

lemma timeAfter_snoc:
  "timeAfter ld t (cds @ [cd]) = (case anchorTime ld cd of Some x \<Rightarrow> NVal x | None \<Rightarrow> timeAfter ld t cds)"
  by (induction cds arbitrary: t) (simp_all split: option.split)

lemma timeAfter_rev: "timeAfter ld NNull (rev cds) = firstAnchorTime ld cds"
  by (induction cds) (simp_all add: timeAfter_snoc split: option.split)

lemma stampCommits_forward: "rev (stampCommits ld NNull (rev cds)) = stampedForward ld cds"
proof (induction cds)
  case (Cons cd cds)
  then show ?case
    by (simp add: stampCommits_snoc timeAfter_rev stampCommits_step Let_def del: stampCommits.simps(2))
qed simp

lemma stampedForward_nth:
  "i < length cds \<Longrightarrow> stampedForward ld cds ! i =
     (cds ! i)\<lparr>le_timestamp := firstAnchorTime ld (drop i cds), cd_anchorError := anchorFailure ld (cds ! i)\<rparr>"
proof (induction cds arbitrary: i)
  case (Cons cd cds)
  then show ?case by (cases i) simp_all
qed simp

lemma length_stampedForward [simp]: "length (stampedForward ld cds) = length cds"
  by (induction cds) simp_all

lemma getCommitData_fuel [simp]: "getCommitData (ld\<lparr>ld_fuel := n\<rparr>) c sid = getCommitData ld c sid"
  by (simp add: getCommitData_def retrieveLinked_def extractCapability_def getCacaoCidFromCommit_def
      Let_def cong: if_cong js.case_cong option.case_cong)

lemma syncLoop_fuel_field [simp]: "syncLoop m (ld\<lparr>ld_fuel := n\<rparr>) sid ex c synced = syncLoop m ld sid ex c synced"
proof (induction m arbitrary: c synced)
  case (Suc m)
  show ?case unfolding syncLoop.simps getCommitData_fuel Suc ..
qed simp

section \<open>A concrete store\<close>

text \<open>
  A tile stream: the genesis commit \<open>CID [1]\<close> and the signed update \<open>CID [2]\<close>, whose payload is
  \<open>CID [12]\<close>. No proof is on the blockchain.
\<close>

definition sampleStore :: "cid \<Rightarrow> stream_id \<Rightarrow> js_error + js" where
  "sampleStore c sid =
     (if c = CID [1] then Inr (Obj [(''header'', Obj [(''controllers'', Arr [Str ''did:a''])])])
      else if c = CID [2] then Inr (Obj [(''link'', CidV (CID [12])), (''by'', Str ''did:a'')])
      else if c = CID [12] then Inr (Obj [(''prev'', CidV (CID [1])),
        (''data'', Obj [(''a'', Str ''b'')]), (''header'', Obj [])])
      else Inl (Err ''not found''))"

definition sampleLoader :: loader where
  "sampleLoader = \<lparr> ld_lib = sampleLib, ld_retrieveCommit = sampleStore,
     ld_retrieveFromIPFS = (\<lambda>_ _. Inl (Err ''not found'')), ld_decodeProtected = (\<lambda>_. Inl TypeErr),
     ld_validateChainInclusion = (\<lambda>_. Inl (Err ''no transaction'')), ld_fuel = 300 \<rparr>"

lemma sampleLoader_simps [simp]:
  "ld_retrieveCommit sampleLoader = sampleStore" "ld_fuel sampleLoader = 300"
  by (simp_all add: sampleLoader_def)

definition sampleCommit1 :: commit_data where
  "sampleCommit1 = \<lparr> le_cid = CID [1], le_type = INIT, le_timestamp = NUndef, le_expiration = NUndef,
     cd_commit = Obj [(''header'', Obj [(''controllers'', Arr [Str ''did:a''])])], cd_envelope = Undef,
     cd_proof = Undef, cd_anchorError = None, cd_capability = Undef \<rparr>"

definition sampleCommit2 :: commit_data where
  "sampleCommit2 = \<lparr> le_cid = CID [2], le_type = DATA, le_timestamp = NUndef, le_expiration = NUndef,
     cd_commit = Obj [(''prev'', CidV (CID [1])), (''data'', Obj [(''a'', Str ''b'')]), (''header'', Obj [])],
     cd_envelope = Obj [(''link'', CidV (CID [12])), (''by'', Str ''did:a'')],
     cd_proof = Undef, cd_anchorError = None, cd_capability = Undef \<rparr>"

lemma sample_getCommitData:
  "getCommitData sampleLoader (CID [1]) sid = Inr sampleCommit1"
  "getCommitData sampleLoader (CID [2]) sid = Inr sampleCommit2"
  by (simp_all add: getCommitData_def sampleStore_def isSignedCommit_def isAnchorCommit_def
      retrieveLinked_def extractCapability_def sampleCommit1_def sampleCommit2_def)

lemma sample_getCommitData_prev:
  assumes "getCommitData sampleLoader c sid = Inr cd" and "jsGet (cd_commit cd) ''prev'' = Inr (CidV p)"
  shows "c = CID [2] \<or> c = CID [12]" and "p = CID [1]"
  using assms
  by (auto simp: getCommitData_def sampleStore_def isSignedCommit_def isAnchorCommit_def Let_def
      retrieveLinked_def extractCapability_def bindR_Inr_iff throwIf_Inr_iff split: if_split_asm)

definition sampleRank :: "cid \<Rightarrow> nat" where
  "sampleRank c = (if c = CID [1] then 0 else 1)"

lemma sample_not_Diverged: "getCommitData sampleLoader c sid \<noteq> Inl Diverged"
  by (auto simp: getCommitData_def sampleStore_def isSignedCommit_def isAnchorCommit_def
      retrieveLinked_def extractCapability_def bindR_Inl_iff bindR_Inr_iff throwIf_Inl_iff throwIf_Inr_iff
      jsGet_not_Diverged split: if_split_asm)

lemma sampleLoader_ranked: "rankedStore sampleLoader sid sampleRank"
  unfolding rankedStore_def
proof (intro allI conjI impI)
  fix c cd p
  assume "getCommitData sampleLoader c sid = Inr cd" "jsGet (cd_commit cd) ''prev'' = Inr (CidV p)"
  from sample_getCommitData_prev [OF this] show "sampleRank p < sampleRank c"
    by (auto simp: sampleRank_def)
qed (rule sample_not_Diverged)

section \<open>Properties\<close>

text \<open>
  C8: Syncing from a tip to a known log brings exactly the missing part of the log: it starts with
  a commit that points to a known entry, each further commit points to the one before it, it ends
  with the tip, and none of its commits is known already.
\<close>

theorem sync_until_match:
  assumes "syncLogUntilMatch ld streamID tip existing = Inr lg" and "unappliable_commits lg \<noteq> []"
  shows "(\<exists>c \<in> set existing. linkedFrom c (unappliable_commits lg)) \<and>
    le_cid (last (unappliable_commits lg)) = tip \<and>
    (\<forall>cd \<in> set (unappliable_commits lg). getCommitData ld (le_cid cd) streamID = Inr cd \<and>
       le_cid cd \<notin> set existing)"
  using syncLogUntilMatch_Inr [OF assms(1) refl assms(2)] by blast

lemma sample_sync:
  "syncLogUntilMatch sampleLoader sid (CID [2]) [CID [1]] = Inr (UnappliableStreamLog [sampleCommit2])"
  by (simp add: syncLogUntilMatch_def syncLogHelper_def eval_nat_numeral logIncludes_def
      sample_getCommitData) (simp add: sampleCommit2_def logIncludes_def)

theorem sync_until_match_witness:
  "linkedFrom (CID [1]) [sampleCommit2]"
  using sync_until_match [OF sample_sync] by auto

text \<open>
  Syncing a full log returns a log of the stream: it starts with the genesis commit the
  StreamID names, each commit points to the one before it, and it ends with the tip, unless the tip
  does not belong to the stream, when it is the genesis commit alone.
\<close>

theorem sync_full_log:
  assumes "syncFullLog ld streamID tip = Inr lg"
  shows "\<exists>g cds. unappliable_commits lg = g # cds \<and> le_cid g = sid_cid streamID \<and>
    linkedFrom (le_cid g) cds \<and> (cds = [] \<or> tip = Some (le_cid (last cds))) \<and>
    (\<forall>cd \<in> set (g # cds). getCommitData ld (le_cid cd) streamID = Inr cd)"
  using syncFullLog_Inr [OF assms] by blast

lemma sample_sync_full:
  "syncFullLog sampleLoader (StreamID 0 (CID [1])) (Some (CID [2]))
     = Inr (UnappliableStreamLog [sampleCommit1, sampleCommit2])"
  by (simp add: syncFullLog_def syncLogHelper_def eval_nat_numeral logIncludes_def sample_getCommitData)
    (simp add: sampleCommit1_def sampleCommit2_def logIncludes_def sample_getCommitData)

theorem sync_full_log_witness: "linkedFrom (CID [1]) [sampleCommit2]"
  using sync_full_log [OF sample_sync_full] by (auto simp: sampleCommit1_def)

text \<open>
  On a store without infinite chains of \<open>prev\<close> links the walk back from a tip returns: more
  fuel than the depth of the tip is enough, and more fuel does not change the result.
\<close>

theorem sync_terminates:
  assumes "rankedStore ld streamID rank" and "rank tip < ld_fuel ld" and "rank tip < n"
  shows "syncLogUntilMatch ld streamID tip existing \<noteq> Inl Diverged \<and>
    syncLogUntilMatch (ld\<lparr>ld_fuel := n\<rparr>) streamID tip existing = syncLogUntilMatch ld streamID tip existing \<and>
    syncFullLog ld streamID (Some tip) \<noteq> Inl Diverged \<and>
    syncFullLog (ld\<lparr>ld_fuel := n\<rparr>) streamID (Some tip) = syncFullLog ld streamID (Some tip)"
proof -
  note t = syncLoop_terminates [OF assms(1,2)]
  have f: "syncLoop n ld streamID ex tip [] = syncLoop (ld_fuel ld) ld streamID ex tip []" for ex
    by (rule syncLoop_fuel [OF assms(1) assms(3,2)])
  have g: "syncGenesisLog ld streamID \<noteq> Inl Diverged"
    using assms(1) by (auto simp: syncGenesisLog_def rankedStore_def bindR_Inl_iff)
  have e: "syncGenesisLog (ld\<lparr>ld_fuel := n\<rparr>) streamID = syncGenesisLog ld streamID"
    by (simp add: syncGenesisLog_def)
  have h: "syncLogHelper ld streamID tip ex \<noteq> Inl Diverged" for ex
    using t by (simp add: syncLogHelper_def bindR_Inl_iff)
  have h': "syncLogHelper (ld\<lparr>ld_fuel := n\<rparr>) streamID tip ex = syncLogHelper ld streamID tip ex" for ex
    by (simp add: syncLogHelper_def f)
  have "syncFullLog ld streamID (Some tip) \<noteq> Inl Diverged"
    using g h by (auto simp: syncFullLog_def bindR_Inl_iff split: list.splits if_splits)
  moreover have "syncFullLog (ld\<lparr>ld_fuel := n\<rparr>) streamID (Some tip) = syncFullLog ld streamID (Some tip)"
    unfolding syncFullLog_def option.case e h' ..
  ultimately show ?thesis using h h' by (simp add: syncLogUntilMatch_def)
qed

theorem sync_terminates_witness:
  "syncFullLog sampleLoader (StreamID 0 (CID [1])) (Some (CID [2])) \<noteq> Inl Diverged"
  using sync_terminates [OF sampleLoader_ranked, of "CID [2]" 2] by (simp add: sampleRank_def)

text \<open>
  C12: After validation every commit of a log carries the time of the first valid anchor at or after
  it, and none if no valid anchor follows; an anchor that does not validate carries the error that
  makes its application fail, and nothing else of the log changes.
\<close>

theorem anchors_validated:
  assumes "i < length (unappliable_commits lg)"
  shows "appliable_commits (verifyAnchorAndApplyTimestamps ld lg) ! i =
    (unappliable_commits lg ! i)\<lparr>le_timestamp := firstAnchorTime ld (drop i (unappliable_commits lg)),
      cd_anchorError := anchorFailure ld (unappliable_commits lg ! i)\<rparr>"
  by (simp add: verifyAnchorAndApplyTimestamps_def stampCommits_forward stampedForward_nth [OF assms])

theorem anchors_validated_witness:
  "le_timestamp (appliable_commits (verifyAnchorAndApplyTimestamps sampleLoader
     (UnappliableStreamLog [sampleCommit1])) ! 0) = NNull"
  using anchors_validated [of 0 "UnappliableStreamLog [sampleCommit1]" sampleLoader]
  by (simp add: anchorTime_def sampleCommit1_def)

end
