(* ===== verification/StateManipulator.thy ===== *)
theory StateManipulator
  imports Handlers LogSync
begin

text \<open>
  Building and updating stream states from logs
  (\<open>core/src/stream-loading/state-manipulator.ts\<close>): applying a full log, applying new commits to a
  state, the conflict resolution between two histories, and the state at an earlier commit.
\<close>

section \<open>The node\<close>

record node =
  nd_handlers :: registry
  nd_loader :: loader
  nd_now :: int

record apply_opts =
  throwOnInvalidCommit :: bool
  throwIfStale :: bool
  throwOnConflict :: bool

text \<open>A \<open>null\<close> state where a state is expected is a TypeError of the caller.\<close>

definition theState :: "stream_state option \<Rightarrow> js_error + stream_state" where
  "theState m = (case m of None \<Rightarrow> Inl TypeErr | Some s \<Rightarrow> Inr s)"

lemma theState_Inr [simp]: "theState m = Inr s \<longleftrightarrow> m = Some s"
  by (simp add: theState_def split: option.split)

section \<open>Full logs\<close>

definition applyFullLog :: "node \<Rightarrow> nat \<Rightarrow> appliable_log \<Rightarrow> bool \<Rightarrow> js_error + stream_state" where
  "applyFullLog nd streamType lg throwOnInvalid =
     bindR (throwIf (length (appliable_commits lg) < 1)
              (Err ''Log must contain at least one commit to apply'')) (\<lambda>_.
     bindR (handlersGet (nd_handlers nd) (TypeCode streamType)) (\<lambda>handler.
     bindR (applyLog handler None (appliable_commits lg) throwOnInvalid) theState))"

section \<open>Timestamps of a known log\<close>

text \<open>The loop of \<open>_copyTrustedTimestamps\<close>, over the pairs of source and destination entries from
  the newest to the oldest.\<close>

fun copyBack :: "bool \<Rightarrow> onum \<Rightarrow> (log_entry \<times> commit_data) list \<Rightarrow> js_error + commit_data list" where
  "copyBack copyRemoved timestamp [] = Inr []"
| "copyBack copyRemoved timestamp ((src, cd) # rest) =
     (let t = (if copyRemoved \<or> le_type src = TIME then le_timestamp src else timestamp) in
      bindR (throwIf (le_cid src \<noteq> le_cid cd) (Err ''Source and dest logs don't correspond!'')) (\<lambda>_.
      bindR (copyBack copyRemoved t rest) (\<lambda>cds.
      Inr (cd\<lparr>le_expiration := le_expiration src, le_timestamp := t\<rparr> # cds))))"

text \<open>A destination longer than the source reads an undefined entry first.\<close>

definition copyTrustedTimestamps ::
  "log_entry list \<Rightarrow> unappliable_log \<Rightarrow> bool \<Rightarrow> js_error + appliable_log" where
  "copyTrustedTimestamps source dest copyRemoved =
     (let cds = unappliable_commits dest in
      if length source < length cds then Inl TypeErr
      else bindR (copyBack copyRemoved NNull (rev (zip (take (length cds) source) cds))) (\<lambda>stamped.
        Inr (AppliableStreamLog (rev stamped))))"

section \<open>Conflict resolution\<close>

datatype picked = Log1 | Log2

definition findAnchorIndex :: "log_entry list \<Rightarrow> int" where
  "findAnchorIndex lg = findIndex (\<lambda>e. le_type e = TIME) lg"

text \<open>The last comparison is between two byte arrays, which JavaScript compares as strings.\<close>

definition pickLogToAccept :: "log_entry list \<Rightarrow> log_entry list \<Rightarrow> js_error + picked" where
  "pickLogToAccept log1 log2 =
     (let i1 = findAnchorIndex log1; i2 = findAnchorIndex log2;
          isLog1Anchored = (0 \<le> i1); isLog2Anchored = (0 \<le> i2);
          t1 = le_timestamp (log1 ! nat i1); t2 = le_timestamp (log2 ! nat i2);
          relevantLength1 = (if isLog1Anchored then i1 + 1 else int (length log1));
          relevantLength2 = (if isLog2Anchored then i2 + 1 else int (length log2))
      in
        if isLog1Anchored \<noteq> isLog2Anchored then Inr (if isLog1Anchored then Log1 else Log2)
        else if isLog1Anchored \<and> isLog2Anchored \<and> onumLess t1 t2 then Inr Log1
        else if isLog1Anchored \<and> isLog2Anchored \<and> onumLess t2 t1 then Inr Log2
        else if relevantLength2 < relevantLength1 then Inr Log1
        else if relevantLength1 < relevantLength2 then Inr Log2
        else if log1 = [] \<or> log2 = [] then Inl TypeErr
        else Inr (if uint8Less (cid_bytes (le_cid (last log1))) (cid_bytes (le_cid (last log2)))
                  then Log1 else Log2))"

section \<open>The state at an earlier commit\<close>

definition resetStateToCommit :: "node \<Rightarrow> stream_state \<Rightarrow> cid \<Rightarrow> bool \<Rightarrow> js_error + stream_state" where
  "resetStateToCommit nd initialState commitCid copyTimestampsFromRemovedAnchors =
     (let streamId = streamIdFromState initialState;
          commitIndex = findIndex (\<lambda>e. le_cid e = commitCid) (st_log initialState)
      in
        bindR (throwIf (commitIndex < 0) (Err ''Requested commit CID not found in the log'')) (\<lambda>_.
        bindR (syncFullLog (nd_loader nd) streamId (Some commitCid)) (\<lambda>shared.
        bindR (copyTrustedTimestamps (st_log initialState) shared copyTimestampsFromRemovedAnchors) (\<lambda>stamped.
        bindR (handlersGet (nd_handlers nd) (TypeCode (st_type initialState))) (\<lambda>handler.
        bindR (applyLog handler None (appliable_commits stamped) True) theState)))))"

section \<open>Applying new commits\<close>

definition applyLogWithoutCacao ::
  "node \<Rightarrow> stream_state \<Rightarrow> appliable_log \<Rightarrow> apply_opts \<Rightarrow> js_error + stream_state" where
  "applyLogWithoutCacao nd initialState logToApply opts =
     (case appliable_commits logToApply of
        [] \<Rightarrow> Inr initialState
      | first # _ \<Rightarrow>
        bindR (handlersGet (nd_handlers nd) (TypeCode (st_type initialState))) (\<lambda>handler.
        bindR (jsGet (cd_commit first) ''prev'') (\<lambda>prev.
        bindR (jsCidEquals prev (tipFromState initialState)) (\<lambda>extendsTip.
        if extendsTip then
          bindR (applyLog handler (Some initialState) (appliable_commits logToApply)
                   (throwOnInvalidCommit opts)) theState
        else
          bindR (throwIf (throwIfStale opts)
                   (Err ''Commit rejected because it builds on stale state'')) (\<lambda>_.
          let conflictIdx = findIndex (\<lambda>e. CidV (le_cid e) = prev) (st_log initialState);
              localConflictingLog = drop (nat (conflictIdx + 1)) (st_log initialState)
          in
            bindR (pickLogToAccept localConflictingLog
                     (map log_entry.truncate (appliable_commits logToApply))) (\<lambda>selected.
            case selected of
              Log1 \<Rightarrow> bindR (throwIf (throwOnConflict opts)
                  (Err ''Commit rejected by conflict resolution'')) (\<lambda>_. Inr initialState)
            | Log2 \<Rightarrow>
                if conflictIdx < 0 then Inl TypeErr
                else
                  bindR (resetStateToCommit nd initialState
                           (le_cid (st_log initialState ! nat conflictIdx)) False) (\<lambda>sharedState.
                  bindR (applyLog handler (Some sharedState) (appliable_commits logToApply)
                           (throwOnInvalidCommit opts)) theState)))))))"

definition applyLogToState ::
  "node \<Rightarrow> stream_state \<Rightarrow> appliable_log \<Rightarrow> apply_opts \<Rightarrow> js_error + stream_state" where
  "applyLogToState nd initialState logToApply opts =
     bindR (applyLogWithoutCacao nd initialState logToApply opts) (\<lambda>state.
     bindR (checkForCacaoExpiration (nd_now nd) state) (\<lambda>_. Inr state))"

section \<open>The order behind conflict resolution\<close>

text \<open>
  What the choice depends on: whether a log is anchored, the time of its first anchor, its length
  up to that anchor, and the bytes of its last CID.
\<close>

record log_key =
  lk_anchored :: bool
  lk_time :: onum
  lk_length :: int
  lk_bytes :: "byte list"

definition logKey :: "log_entry list \<Rightarrow> log_key" where
  "logKey lg = (let i = findAnchorIndex lg in
     \<lparr>lk_anchored = (0 \<le> i), lk_time = (if 0 \<le> i then le_timestamp (lg ! nat i) else NUndef),
      lk_length = (if 0 \<le> i then i + 1 else int (length lg)), lk_bytes = cid_bytes (le_cid (last lg))\<rparr>)"

text \<open>Anchored first, then the earlier anchor, then the longer log, then the smaller bytes.\<close>

definition keyBetter :: "log_key \<Rightarrow> log_key \<Rightarrow> bool" where
  "keyBetter a b \<longleftrightarrow>
     (if lk_anchored a \<noteq> lk_anchored b then lk_anchored a
      else if lk_anchored a \<and> onumLess (lk_time a) (lk_time b) then True
      else if lk_anchored a \<and> onumLess (lk_time b) (lk_time a) then False
      else if lk_length a \<noteq> lk_length b then lk_length b < lk_length a
      else uint8Less (lk_bytes a) (lk_bytes b))"

lemma pickLogToAccept_key:
  assumes "log1 \<noteq> []" and "log2 \<noteq> []"
  shows "pickLogToAccept log1 log2 = Inr (if keyBetter (logKey log1) (logKey log2) then Log1 else Log2)"
  using assms by (simp add: pickLogToAccept_def logKey_def keyBetter_def Let_def)

lemma keyBetter_asym: "keyBetter a b \<Longrightarrow> \<not> keyBetter b a"
  by (auto simp: keyBetter_def dest: onumLess_asym uint8Less_asym split: if_splits)

lemma keyBetter_total: "lk_bytes a \<noteq> lk_bytes b \<Longrightarrow> keyBetter a b \<or> keyBetter b a"
  using uint8Less_total [of "lk_bytes a" "lk_bytes b"] by (auto simp: keyBetter_def)

text \<open>The time of an anchored log is a number.\<close>

definition keyTimed :: "log_key \<Rightarrow> bool" where
  "keyTimed a \<longleftrightarrow> (lk_anchored a \<longrightarrow> (\<exists>t. lk_time a = NVal t))"

lemma keyBetter_trans:
  assumes "keyTimed a" "keyTimed b" "keyTimed c" "keyBetter a b" "keyBetter b c"
  shows "keyBetter a c"
proof (cases "lk_anchored a")
  case False
  with assms(4,5) show ?thesis
    by (auto simp: keyBetter_def dest: uint8Less_trans split: if_splits)
next
  case True
  with assms(1) obtain ta where ta: "lk_time a = NVal ta" by (auto simp: keyTimed_def)
  show ?thesis
  proof (cases "lk_anchored b \<and> lk_anchored c")
    case False
    with assms(5) True show ?thesis by (auto simp: keyBetter_def split: if_splits)
  next
    case bc: True
    with assms(2,3) obtain tb tc where "lk_time b = NVal tb" "lk_time c = NVal tc"
      by (auto simp: keyTimed_def)
    with True bc ta assms(4,5) show ?thesis
      by (auto simp: keyBetter_def dest: uint8Less_trans split: if_splits)
  qed
qed

section \<open>The log of the resulting state\<close>

lemma copyBack_step:
  assumes "copyBack f t ((src, cd) # ps) = Inr cds"
  obtains t' cds' where "copyBack f t' ps = Inr cds'" and "le_cid src = le_cid cd"
    and "cds = cd\<lparr>le_expiration := le_expiration src, le_timestamp := t'\<rparr> # cds'"
  using assms by (auto simp: Let_def bindR_Inr_iff throwIf_Inr_iff)

lemma copyBack_snd: "copyBack f t ps = Inr cds \<Longrightarrow> map le_cid cds = map le_cid (map snd ps)"
proof (induction ps arbitrary: t cds)
  case (Cons p ps)
  obtain src cd where p: "p = (src, cd)" by (cases p)
  from Cons.prems [unfolded p] show ?case
    by (rule copyBack_step) (use Cons.IH p in auto)
qed simp

lemma copyBack_fst: "copyBack f t ps = Inr cds \<Longrightarrow> map le_cid cds = map le_cid (map fst ps)"
proof (induction ps arbitrary: t cds)
  case (Cons p ps)
  obtain src cd where p: "p = (src, cd)" by (cases p)
  from Cons.prems [unfolded p] show ?case
    by (rule copyBack_step) (use Cons.IH p in auto)
qed simp

lemma copyTrustedTimestamps_Inr:
  assumes "copyTrustedTimestamps source dest f = Inr lg"
  shows "map le_cid (appliable_commits lg) = map le_cid (unappliable_commits dest)"
    and "map le_cid (appliable_commits lg) = take (length (unappliable_commits dest)) (map le_cid source)"
proof -
  let ?d = "unappliable_commits dest"
  from assms obtain cds where len: "length ?d \<le> length source" and lg: "appliable_commits lg = rev cds"
    and cb: "copyBack f NNull (rev (zip (take (length ?d) source) ?d)) = Inr cds"
    by (auto simp: copyTrustedTimestamps_def Let_def res_simps split: if_splits)
  let ?zs = "zip (take (length ?d) source) ?d"
  have zs: "map fst ?zs = take (length ?d) source" "map snd ?zs = ?d" using len by simp_all
  have "map le_cid (rev cds) = map le_cid (map fst ?zs)"
    using copyBack_fst [OF cb] by (simp only: rev_map [symmetric] rev_rev_ident)
  moreover have "map le_cid (rev cds) = map le_cid (map snd ?zs)"
    using copyBack_snd [OF cb] by (simp only: rev_map [symmetric] rev_rev_ident)
  ultimately show "map le_cid (appliable_commits lg) = map le_cid ?d"
    "map le_cid (appliable_commits lg) = take (length ?d) (map le_cid source)"
    by (simp_all only: zs lg take_map)
qed

lemma handler_of_state:
  "registryOk (nd_handlers nd) \<Longrightarrow> handlersGet (nd_handlers nd) (TypeCode t) = Inr h \<Longrightarrow> stream_handler h t"
  by (rule handlersGet_ok)

lemma applyFullLog_Inr:
  assumes "registryOk (nd_handlers nd)" and "applyFullLog nd t lg throw = Inr s"
  shows "\<exists>k \<le> length (appliable_commits lg). 0 < k \<and> logCids s = map le_cid (take k (appliable_commits lg)) \<and>
    st_type s = t \<and> (throw \<longrightarrow> k = length (appliable_commits lg))"
proof -
  from assms(2) obtain cd cds h where c: "appliable_commits lg = cd # cds"
    and h: "handlersGet (nd_handlers nd) (TypeCode t) = Inr h"
    and a: "applyLog h None (cd # cds) throw = Inr (Some s)"
    by (cases "appliable_commits lg") (auto simp: applyFullLog_def bindR_Inr_iff throwIf_Inr_iff)
  from stream_handler.applyLog_genesis [OF handler_of_state [OF assms(1) h] a] obtain k where "k \<le> length cds" "throw \<longrightarrow> k = length cds"
    "logCids s = le_cid cd # map le_cid (take k cds)" "st_type s = t" by auto
  with c show ?thesis by (intro exI [of _ "Suc k"]) simp
qed

section \<open>A store that holds the log of a state\<close>

definition storedLog :: "loader \<Rightarrow> stream_id \<Rightarrow> cid list \<Rightarrow> bool" where
  "storedLog ld sid cids \<longleftrightarrow> cids \<noteq> [] \<and> hd cids = sid_cid sid \<and>
     (\<exists>g v. getCommitData ld (hd cids) sid = Inr g \<and> jsGet (cd_commit g) ''prev'' = Inr v \<and> \<not> jsTruthy v) \<and>
     (\<forall>i. Suc i < length cids \<longrightarrow> (\<exists>cd. getCommitData ld (cids ! Suc i) sid = Inr cd \<and>
        jsGet (cd_commit cd) ''prev'' = Inr (CidV (cids ! i))))"

lemma logIncludes_None [simp]: "\<not> logIncludes c None"
  by (simp add: logIncludes_def)

lemma syncLoop_stored:
  assumes "storedLog ld sid cids"
  shows "i < length cids \<Longrightarrow> i < n \<Longrightarrow> \<exists>r. syncLoop n ld sid None (cids ! i) synced = Inr (synced @ r) \<and>
    map le_cid r = rev (take (Suc i) cids)"
proof (induction i arbitrary: n synced)
  case 0
  from assms obtain g v where g: "getCommitData ld (cids ! 0) sid = Inr g"
    "jsGet (cd_commit g) ''prev'' = Inr v" "\<not> jsTruthy v"
    unfolding storedLog_def by (metis hd_conv_nth)
  from 0 obtain m where "n = Suc m" by (cases n) auto
  with g getCommitData_cid [OF g(1)] 0 show ?case
    by (intro exI [of _ "[g]"]) (simp add: take_Suc hd_conv_nth)
next
  case (Suc i)
  with assms obtain cd where cd: "getCommitData ld (cids ! Suc i) sid = Inr cd"
    "jsGet (cd_commit cd) ''prev'' = Inr (CidV (cids ! i))" unfolding storedLog_def by blast
  from Suc.prems obtain m where m: "n = Suc m" "i < m" by (cases n) auto
  from Suc.IH [of m "synced @ [cd]"] Suc.prems m obtain r where
    "syncLoop m ld sid None (cids ! i) (synced @ [cd]) = Inr ((synced @ [cd]) @ r)"
    "map le_cid r = rev (take (Suc i) cids)" by auto
  with cd m getCommitData_cid [OF cd(1)] Suc.prems show ?case
    by (intro exI [of _ "cd # r"]) (simp add: take_Suc_conv_app_nth [of "Suc i"])
qed

lemma syncFullLog_stored:
  assumes "storedLog ld sid cids" and "i < length cids" and "length cids \<le> ld_fuel ld"
  shows "\<exists>lg. syncFullLog ld sid (Some (cids ! i)) = Inr lg \<and>
    map le_cid (unappliable_commits lg) = take (Suc i) cids"
proof -
  from syncLoop_stored [OF assms(1,2), of "ld_fuel ld" "[]"] assms(2,3) obtain r where
    r: "syncLoop (ld_fuel ld) ld sid None (cids ! i) [] = Inr r" "map le_cid (rev r) = take (Suc i) cids"
    by (auto simp: rev_map [symmetric])
  from assms(1) have "take (Suc i) cids = sid_cid sid # take i (tl cids)"
    by (cases cids) (auto simp: storedLog_def)
  with r(2) obtain g cds where "rev r = g # cds" "le_cid g = sid_cid sid" by (cases "rev r") auto
  with r show ?thesis by (simp add: syncFullLog_def syncLogHelper_def)
qed

lemma resetStateToCommit_Inr:
  assumes ok: "registryOk (nd_handlers nd)"
    and stored: "storedLog (nd_loader nd) (streamIdFromState s0) (logCids s0)"
    and fuel: "length (logCids s0) \<le> ld_fuel (nd_loader nd)"
    and r: "resetStateToCommit nd s0 c f = Inr s"
  shows "\<exists>i < length (logCids s0). findIndex (\<lambda>e. le_cid e = c) (st_log s0) = int i \<and>
    logCids s0 ! i = c \<and> logCids s = take (Suc i) (logCids s0) \<and> st_type s = st_type s0"
proof -
  let ?idx = "findIndex (\<lambda>e. le_cid e = c) (st_log s0)"
  from r obtain lg stamped h where idx: "0 \<le> ?idx"
    and sync: "syncFullLog (nd_loader nd) (streamIdFromState s0) (Some c) = Inr lg"
    and copy: "copyTrustedTimestamps (st_log s0) lg f = Inr stamped"
    and h: "handlersGet (nd_handlers nd) (TypeCode (st_type s0)) = Inr h"
    and a: "applyLog h None (appliable_commits stamped) True = Inr (Some s)"
    by (auto simp: resetStateToCommit_def Let_def bindR_Inr_iff throwIf_Inr_iff)
  define i where "i = nat ?idx"
  have i: "?idx = int i" "i < length (logCids s0)"
    using idx findIndex_lt [of "\<lambda>e. le_cid e = c" "st_log s0"] by (auto simp: i_def logCids_def)
  have c: "logCids s0 ! i = c" using findIndex_nth [OF idx] i(2) by (simp add: i_def logCids_def)
  from syncFullLog_stored [OF stored i(2) fuel] sync c
  have "map le_cid (unappliable_commits lg) = take (Suc i) (logCids s0)" by auto
  with copyTrustedTimestamps_Inr(1) [OF copy]
  have cids: "map le_cid (appliable_commits stamped) = take (Suc i) (logCids s0)" by simp
  with i(2) obtain g cds where g: "appliable_commits stamped = g # cds"
    by (cases "appliable_commits stamped") auto
  from stream_handler.applyLog_genesis [OF handlersGet_ok [OF ok h] a [unfolded g]]
  have "logCids s = map le_cid (appliable_commits stamped)" "st_type s = st_type s0" using g by auto
  with i c cids show ?thesis by auto
qed

section \<open>What applying a log can do to a state\<close>

text \<open>
  \<open>logOutcome s cds full s'\<close>: the state is unchanged, or its log is extended by (a prefix of) the
  new commits, or the commits after a common ancestor are replaced by (a prefix of) the new ones.
  The first new commit points to the last entry that is kept. \<open>full\<close> rules out proper prefixes.
\<close>

definition logOutcome :: "stream_state \<Rightarrow> commit_data list \<Rightarrow> bool \<Rightarrow> stream_state \<Rightarrow> bool" where
  "logOutcome s cds full s' \<longleftrightarrow> st_type s' = st_type s \<and> (s' = s \<or>
     (\<exists>j \<le> length (logCids s). \<exists>k \<le> length cds. 0 < j \<and> (full \<longrightarrow> k = length cds) \<and> cds \<noteq> [] \<and>
        jsGet (cd_commit (hd cds)) ''prev'' = Inr (CidV (logCids s ! (j - 1))) \<and>
        logCids s' = take j (logCids s) @ take k (map le_cid cds)))"

lemma logOutcomeI:
  "0 < j \<Longrightarrow> j \<le> length (logCids s) \<Longrightarrow> k \<le> length cds \<Longrightarrow> (full \<longrightarrow> k = length cds) \<Longrightarrow> cds \<noteq> [] \<Longrightarrow>
   jsGet (cd_commit (hd cds)) ''prev'' = Inr (CidV (logCids s ! (j - 1))) \<Longrightarrow>
   logCids s' = take j (logCids s) @ take k (map le_cid cds) \<Longrightarrow> st_type s' = st_type s \<Longrightarrow>
   logOutcome s cds full s'"
  unfolding logOutcome_def by blast

lemma applyLog_outcome:
  assumes "stream_handler h t" and "applyLog h (Some s) cds throw = Inr (Some s')"
  shows "\<exists>k \<le> length cds. (throw \<longrightarrow> k = length cds) \<and> logCids s' = logCids s @ take k (map le_cid cds) \<and>
    st_type s' = st_type s"
proof (cases throw)
  case True
  with assms(2) have "applyLog h (Some s) cds True = Inr (Some s')" by simp
  from stream_handler.applyLog_throw [OF assms(1) this] show ?thesis
    by (intro exI [of _ "length cds"]) auto
next
  case False
  from stream_handler.applyLog_prefix [OF assms] obtain k where
    "k \<le> length cds" "logCids s' = logCids s @ map le_cid (take k cds)" "st_type s' = st_type s" by auto
  with False show ?thesis by (intro exI [of _ k]) (simp add: take_map)
qed

lemma jsCidEquals_True: "jsCidEquals v c = Inr True \<Longrightarrow> v = CidV c"
  by (cases v) auto

lemma applyLogWithoutCacao_Inr:
  assumes ok: "registryOk (nd_handlers nd)"
    and stored: "storedLog (nd_loader nd) (streamIdFromState s) (logCids s)"
    and fuel: "length (logCids s) \<le> ld_fuel (nd_loader nd)"
    and r: "applyLogWithoutCacao nd s lg opts = Inr s'"
  shows "logOutcome s (appliable_commits lg) (throwOnInvalidCommit opts) s'"
proof (cases "appliable_commits lg")
  case Nil
  with r show ?thesis by (auto simp: applyLogWithoutCacao_def logOutcome_def)
next
  case (Cons cd cds)
  have ne: "0 < length (logCids s)" using stored by (auto simp: storedLog_def)
  let ?new = "appliable_commits lg"
  from r Cons obtain h prev ext where h: "handlersGet (nd_handlers nd) (TypeCode (st_type s)) = Inr h"
    and prev: "jsGet (cd_commit cd) ''prev'' = Inr prev" "jsCidEquals prev (tipFromState s) = Inr ext"
    by (auto simp: applyLogWithoutCacao_def bindR_Inr_iff)
  note sh = handlersGet_ok [OF ok h]
  show ?thesis
  proof (cases ext)
    case True
    with r Cons h prev have "applyLog h (Some s) ?new (throwOnInvalidCommit opts) = Inr (Some s')"
      by (simp add: applyLogWithoutCacao_def bindR_Inr_iff)
    from applyLog_outcome [OF sh this] obtain k where "k \<le> length ?new"
      "throwOnInvalidCommit opts \<longrightarrow> k = length ?new"
      "logCids s' = logCids s @ take k (map le_cid ?new)" "st_type s' = st_type s" by blast
    moreover have "prev = CidV (logCids s ! (length (logCids s) - 1))"
      using jsCidEquals_True [of prev "tipFromState s"] prev(2) True ne
      by (simp add: tipFromState_def logCids_def last_conv_nth)
    ultimately show ?thesis
      using ne prev(1) Cons by (intro logOutcomeI [of "length (logCids s)" _ k]) auto
  next
    case False
    define ci where "ci = findIndex (\<lambda>e. CidV (le_cid e) = prev) (st_log s)"
    have choice: "s' = s \<or> (\<exists>shared. 0 \<le> ci \<and>
        resetStateToCommit nd s (le_cid (st_log s ! nat ci)) False = Inr shared \<and>
        applyLog h (Some shared) ?new (throwOnInvalidCommit opts) = Inr (Some s'))"
      using r Cons h prev False
      by (auto simp: applyLogWithoutCacao_def bindR_Inr_iff throwIf_Inr_iff Let_def ci_def
          split: picked.splits if_splits) (metis picked.exhaust)+
    then show ?thesis
    proof
      assume "\<exists>shared. 0 \<le> ci \<and>
        resetStateToCommit nd s (le_cid (st_log s ! nat ci)) False = Inr shared \<and>
        applyLog h (Some shared) ?new (throwOnInvalidCommit opts) = Inr (Some s')"
      then obtain shared where ci: "0 \<le> ci" and sh1: "resetStateToCommit nd s (le_cid (st_log s ! nat ci)) False = Inr shared"
        and ap: "applyLog h (Some shared) ?new (throwOnInvalidCommit opts) = Inr (Some s')" by blast
      from resetStateToCommit_Inr [OF ok stored fuel sh1] obtain i where
        i: "i < length (logCids s)" "logCids s ! i = le_cid (st_log s ! nat ci)"
        "logCids shared = take (Suc i) (logCids s)" "st_type shared = st_type s"
        by blast
      have "prev = CidV (le_cid (st_log s ! nat ci))"
        using findIndex_nth [OF ci [unfolded ci_def]] by (simp add: ci_def)
      note i this
      moreover from applyLog_outcome [OF sh ap] obtain k where "k \<le> length ?new"
        "throwOnInvalidCommit opts \<longrightarrow> k = length ?new"
        "logCids s' = logCids shared @ take k (map le_cid ?new)" "st_type s' = st_type shared" by blast
      ultimately show ?thesis using prev(1) Cons by (intro logOutcomeI [of "Suc i" _ k]) auto
    qed (simp add: logOutcome_def)
  qed
qed

lemma applyLogWithoutCacao_Nil:
  "appliable_commits lg = [] \<Longrightarrow> applyLogWithoutCacao nd s lg opts = Inr s"
  by (simp add: applyLogWithoutCacao_def)

lemma applyLogWithoutCacao_stale:
  assumes "applyLogWithoutCacao nd s lg opts = Inr s'" and "throwIfStale opts" and "appliable_commits lg \<noteq> []"
  obtains h where "handlersGet (nd_handlers nd) (TypeCode (st_type s)) = Inr h"
    and "applyLog h (Some s) (appliable_commits lg) (throwOnInvalidCommit opts) = Inr (Some s')"
proof -
  from assms(3) obtain cd cds where c: "appliable_commits lg = cd # cds" by (cases "appliable_commits lg") auto
  from assms(1,2) show ?thesis
    by (auto simp: applyLogWithoutCacao_def c bindR_Inr_iff throwIf_Inr_iff simp del: applyLog.simps
        split: if_split_asm intro: that [unfolded c])
qed

lemma applyLogToState_Inr:
  "applyLogToState nd s lg opts = Inr s' \<longleftrightarrow>
     applyLogWithoutCacao nd s lg opts = Inr s' \<and> checkForCacaoExpiration (nd_now nd) s' = Inr ()"
  by (auto simp: applyLogToState_def bindR_Inr_iff)

section \<open>A concrete node\<close>

definition sampleNode :: node where
  "sampleNode = \<lparr>nd_handlers = defaultHandlers sampleEnv, nd_loader = sampleLoader, nd_now = 0\<rparr>"

lemma sampleNode_simps [simp]:
  "nd_handlers sampleNode = defaultHandlers sampleEnv" "nd_loader sampleNode = sampleLoader"
  "nd_now sampleNode = 0"
  by (simp_all add: sampleNode_def)

text \<open>The state of the sample stream after its genesis commit.\<close>

definition sampleState :: stream_state where
  "sampleState = \<lparr>st_type = TILE_TYPE, st_content = Obj [], st_next = None,
     st_metadata = Obj [(''controllers'', Arr [Str ''did:a''])], st_signature = GENESIS,
     st_anchorStatus = NOT_REQUESTED, st_anchorProof = Undef,
     st_log = [sampleEntry (CID [1]) INIT NUndef]\<rparr>"

lemma sampleState_streamId [simp]: "streamIdFromState sampleState = StreamID TILE_TYPE (CID [1])"
  by (simp add: streamIdFromState_def sampleState_def)

lemma sampleState_logCids [simp]: "logCids sampleState = [CID [1]]"
  by (simp add: logCids_def sampleState_def)

lemma sampleState_stored: "storedLog sampleLoader (StreamID t (CID [1])) [CID [1]]"
  by (simp add: storedLog_def sample_getCommitData) (simp add: sampleCommit1_def)

definition sampleState2 :: stream_state where
  "sampleState2 = sampleState\<lparr>st_signature := SIGNED,
     st_log := [sampleEntry (CID [1]) INIT NUndef, sampleEntry (CID [2]) DATA NUndef],
     st_next := Some \<lparr>nx_content = Obj [(''a'', Str ''b'')],
       nx_metadata = Obj [(''controllers'', Arr [Str ''did:a''])]\<rparr>\<rparr>"

lemma sampleState2_streamId [simp]: "streamIdFromState sampleState2 = StreamID TILE_TYPE (CID [1])"
  by (simp add: streamIdFromState_def sampleState2_def sampleState_def)

lemma sampleState2_logCids [simp]: "logCids sampleState2 = [CID [1], CID [2]]"
  by (simp add: logCids_def sampleState2_def)

lemma sampleState2_stored: "storedLog sampleLoader (StreamID t (CID [1])) [CID [1], CID [2]]"
  by (simp add: storedLog_def sample_getCommitData) (simp add: sampleCommit1_def sampleCommit2_def)

definition sampleValidated2 :: commit_data where
  "sampleValidated2 = sampleCommit2\<lparr>le_timestamp := NNull\<rparr>"

lemma sample_handler: "handlersGet (defaultHandlers sampleEnv) (TypeCode TILE_TYPE) = Inr (tileApplyCommit sampleEnv)"
  by (simp add: defaultHandlers_def handler_types)

lemma sample_applyLog:
  "applyLogToState sampleNode sampleState (AppliableStreamLog [sampleValidated2]) opts = Inr sampleState2"
proof -
  have check: "tileCheckSigned sampleEnv sampleValidated2 sampleState = Inr ()"
    by (simp add: tileCheckSigned_def sampleValidated2_def sampleCommit2_def sampleState_def
        assertCommitLinksToState_def jsIndexOpt_def jsGetOpt_def verifyCommitSignature_def verifyCapabilityAuthz_def)
  have ap: "tileApplyCommit sampleEnv sampleValidated2 (Some sampleState) = Inr sampleState2"
    by (simp add: tileApplyCommit_def tileApplySigned_def check)
      (simp add: sampleValidated2_def sampleCommit2_def sampleState_def sampleState2_def isAnchorCommitData_def
        streamContent_def tilePatchedNext_def jsSpread_def commitDataToLogEntry_def sampleEntry_def jsGetOpt_def
        bindR_def)
  have ty: "handlersGet (defaultHandlers sampleEnv) (TypeCode (st_type sampleState)) = Inr (tileApplyCommit sampleEnv)"
    using sample_handler by (simp add: sampleState_def)
  have prev: "jsGet (cd_commit sampleValidated2) ''prev'' = Inr (CidV (CID [1]))" "tipFromState sampleState = CID [1]"
    by (simp_all add: sampleValidated2_def sampleCommit2_def tipFromState_def sampleState_def)
  have "applyLogWithoutCacao sampleNode sampleState (AppliableStreamLog [sampleValidated2]) opts
      = Inr sampleState2"
    by (simp add: applyLogWithoutCacao_def ty prev ap theState_def)
  moreover have "checkForCacaoExpiration 0 sampleState2 = Inr ()"
    by (simp add: checkForCacaoExpiration_def sampleState2_def entryExpired_def)
  ultimately show ?thesis by (simp add: applyLogToState_def)
qed

lemma sampleState_reset: "resetStateToCommit sampleNode sampleState (CID [1]) True = Inr sampleState"
proof -
  have sync: "syncFullLog sampleLoader (StreamID TILE_TYPE (CID [1])) (Some (CID [1]))
      = Inr (UnappliableStreamLog [sampleCommit1])"
    by (simp add: syncFullLog_def syncLogHelper_def eval_nat_numeral sample_getCommitData)
      (simp add: sampleCommit1_def)
  have copy: "copyTrustedTimestamps (st_log sampleState) (UnappliableStreamLog [sampleCommit1]) True
      = Inr (AppliableStreamLog [sampleCommit1])"
    by (simp add: copyTrustedTimestamps_def sampleState_def sampleCommit1_def)
  have gen: "tileApplyCommit sampleEnv sampleCommit1 None = Inr sampleState"
    by (simp add: tileApplyCommit_def tileApplyGenesis_def sampleCommit1_def sampleState_def
        isSignedCommitData_def exactlyOneController_def validDIDString_def startsWith_def jsOr_def
        commitDataToLogEntry_def sampleEntry_def jsGetOpt_def)
  have idx: "findIndex (\<lambda>e. le_cid e = CID [1]) (st_log sampleState) = 0"
    by (simp add: sampleState_def)
  have ty: "handlersGet (defaultHandlers sampleEnv) (TypeCode (st_type sampleState)) = Inr (tileApplyCommit sampleEnv)"
    by (simp add: defaultHandlers_def sampleState_def handler_types)
  show ?thesis
    by (simp add: resetStateToCommit_def idx sync copy ty gen theState_def)
qed

lemma sampleState2_reset: "resetStateToCommit sampleNode sampleState2 (CID [1]) True = Inr sampleState"
proof -
  have sync: "syncFullLog sampleLoader (StreamID TILE_TYPE (CID [1])) (Some (CID [1]))
      = Inr (UnappliableStreamLog [sampleCommit1])"
    by (simp add: syncFullLog_def syncLogHelper_def eval_nat_numeral sample_getCommitData)
      (simp add: sampleCommit1_def)
  have copy: "copyTrustedTimestamps (st_log sampleState2) (UnappliableStreamLog [sampleCommit1]) True
      = Inr (AppliableStreamLog [sampleCommit1])"
    by (simp add: copyTrustedTimestamps_def sampleState2_def sampleCommit1_def)
  have gen: "tileApplyCommit sampleEnv sampleCommit1 None = Inr sampleState"
    by (simp add: tileApplyCommit_def tileApplyGenesis_def sampleCommit1_def sampleState_def
        isSignedCommitData_def exactlyOneController_def validDIDString_def startsWith_def jsOr_def
        commitDataToLogEntry_def sampleEntry_def jsGetOpt_def)
  have idx: "findIndex (\<lambda>e. le_cid e = CID [1]) (st_log sampleState2) = 0"
    by (simp add: sampleState2_def)
  have ty: "handlersGet (defaultHandlers sampleEnv) (TypeCode (st_type sampleState2)) = Inr (tileApplyCommit sampleEnv)"
    using sample_handler by (simp add: sampleState2_def sampleState_def)
  show ?thesis
    by (simp add: resetStateToCommit_def idx sync copy ty gen theState_def)
qed

section \<open>Properties\<close>

text \<open>
  C1: Two nodes that each see both of two conflicting histories agree on which one to keep: the
  choice does not depend on which history is the local one, and it is the reference order (anchored
  before unanchored, earlier anchor, longer up to the anchor, smaller CID bytes as the engine
  compares them).
\<close>

theorem pick_converges:
  assumes "log1 \<noteq> []" and "log2 \<noteq> []" and "le_cid (last log1) \<noteq> le_cid (last log2)"
  shows "pickLogToAccept log1 log2 = Inr (if keyBetter (logKey log1) (logKey log2) then Log1 else Log2)
    \<and> (pickLogToAccept log1 log2 = Inr Log1 \<longleftrightarrow> pickLogToAccept log2 log1 = Inr Log2)"
proof -
  have "lk_bytes (logKey log1) \<noteq> lk_bytes (logKey log2)"
    using assms(3) by (simp add: logKey_def Let_def) (metis cid.expand)
  from keyBetter_total [OF this] keyBetter_asym show ?thesis
    using assms(1,2) by (auto simp: pickLogToAccept_key)
qed

theorem pick_converges_witness:
  "pickLogToAccept [sampleEntry (CID [1]) DATA NUndef] [sampleEntry (CID [2]) DATA NUndef] = Inr Log1
   \<longleftrightarrow> pickLogToAccept [sampleEntry (CID [2]) DATA NUndef] [sampleEntry (CID [1]) DATA NUndef] = Inr Log2"
  by (rule conjunct2 [OF pick_converges]) simp_all

text \<open>
  Among logs whose anchors carry times the choice is transitive, so that any number of
  conflicting histories has one winner, in whatever order they arrive.
\<close>

theorem pick_transitive:
  assumes "log1 \<noteq> []" and "log2 \<noteq> []" and "log3 \<noteq> []"
    and "keyTimed (logKey log1)" and "keyTimed (logKey log2)" and "keyTimed (logKey log3)"
    and "pickLogToAccept log1 log2 = Inr Log1" and "pickLogToAccept log2 log3 = Inr Log1"
  shows "pickLogToAccept log1 log3 = Inr Log1"
proof -
  from assms(7,8) have "keyBetter (logKey log1) (logKey log2)" "keyBetter (logKey log2) (logKey log3)"
    using assms(1-3) by (auto simp: pickLogToAccept_key split: if_splits)
  from keyBetter_trans [OF assms(4-6) this] show ?thesis
    using assms(1-3) by (simp add: pickLogToAccept_key)
qed

theorem pick_transitive_witness:
  "pickLogToAccept [sampleEntry (CID [1]) TIME (NVal 3)] [sampleEntry (CID [3]) DATA NUndef] = Inr Log1"
proof -
  let ?a = "[sampleEntry (CID [1]) TIME (NVal 3)]" and ?b = "[sampleEntry (CID [2]) TIME (NVal 4)]"
    and ?c = "[sampleEntry (CID [3]) DATA NUndef]"
  have "keyTimed (logKey ?a)" "keyTimed (logKey ?b)" "keyTimed (logKey ?c)"
    by (simp_all add: keyTimed_def logKey_def findAnchorIndex_def)
  moreover have "pickLogToAccept ?a ?b = Inr Log1" "pickLogToAccept ?b ?c = Inr Log1"
    by (simp_all add: pickLogToAccept_def findAnchorIndex_def)
  ultimately show ?thesis using pick_transitive [of ?a ?b ?c] by simp
qed

text \<open>
  The last rule of conflict resolution does not take the log with the lowest CID: of two
  otherwise equal logs that end in the CIDs with the single bytes 9 and 10, it takes the second,
  because byte arrays are compared as decimal strings.
\<close>

theorem pick_not_lowest_bytes:
  "pickLogToAccept [sampleEntry (CID [9]) DATA NUndef] [sampleEntry (CID [10]) DATA NUndef] = Inr Log2"
  by (simp add: pickLogToAccept_def findAnchorIndex_def uint8Less_def uint8Str_def natStr.simps
      digitChar_def)

text \<open>
  A history whose first anchor did not validate, so that it has no time (\<open>null\<close>), wins the
  conflict against every local history that is anchored at a positive time.
\<close>

theorem pick_unvalidated_anchor_wins:
  assumes "0 \<le> findAnchorIndex localLog" and "0 \<le> findAnchorIndex remoteLog"
    and "le_timestamp (localLog ! nat (findAnchorIndex localLog)) = NVal t" and "0 < t"
    and "le_timestamp (remoteLog ! nat (findAnchorIndex remoteLog)) = NNull"
  shows "pickLogToAccept localLog remoteLog = Inr Log2"
  using assms by (simp add: pickLogToAccept_def Let_def onumLess_def)

theorem pick_unvalidated_anchor_wins_witness:
  "pickLogToAccept [sampleEntry (CID [1]) TIME (NVal 5)] [sampleEntry (CID [2]) TIME NNull] = Inr Log2"
  using pick_unvalidated_anchor_wins [of "[sampleEntry (CID [1]) TIME (NVal 5)]"
      "[sampleEntry (CID [2]) TIME NNull]" 5] by (simp add: findAnchorIndex_def)

text \<open>
  Resetting a state to a commit of its log gives a state of the same stream type whose log is
  the part of the log up to that commit, provided the store still holds the log.
\<close>

theorem reset_to_commit:
  assumes "registryOk (nd_handlers nd)"
    and "storedLog (nd_loader nd) (streamIdFromState s) (logCids s)"
    and "length (logCids s) \<le> ld_fuel (nd_loader nd)"
    and "resetStateToCommit nd s commit copyTimestamps = Inr s'"
  shows "\<exists>i < length (logCids s). logCids s ! i = commit \<and> logCids s' = take (Suc i) (logCids s) \<and>
    tipFromState s' = commit \<and> st_type s' = st_type s"
proof -
  from resetStateToCommit_Inr [OF assms] obtain i where i: "i < length (logCids s)" "logCids s ! i = commit"
    "logCids s' = take (Suc i) (logCids s)" "st_type s' = st_type s" by blast
  moreover have "tipFromState s' = commit"
  proof -
    have "st_log s' \<noteq> []" using i by (auto simp: logCids_def)
    then show ?thesis using i by (simp add: tipFromState_logCids take_Suc_conv_app_nth)
  qed
  ultimately show ?thesis by blast
qed

theorem reset_to_commit_witness: "tipFromState sampleState = CID [1]"
  using reset_to_commit [OF _ _ _ sampleState2_reset]
  by (auto simp: defaultHandlers_ok sampleState2_stored)

text \<open>
  C7: Applying a log of new commits to a state never loses shared history: the result has the same
  type and is the state itself, or its log is the old log up to some entry, the one the first new
  commit points to, followed by the new commits (by a prefix of them when invalid commits are
  tolerated), and it has passed the CACAO expiration check.
\<close>

theorem apply_log_outcome:
  assumes "registryOk (nd_handlers nd)"
    and "storedLog (nd_loader nd) (streamIdFromState s) (logCids s)"
    and "length (logCids s) \<le> ld_fuel (nd_loader nd)"
    and "applyLogToState nd s lg opts = Inr s'"
  shows "logOutcome s (appliable_commits lg) (throwOnInvalidCommit opts) s' \<and>
    checkForCacaoExpiration (nd_now nd) s' = Inr ()"
  using applyLogWithoutCacao_Inr [OF assms(1-3)] assms(4) by (simp add: applyLogToState_Inr)

theorem apply_log_outcome_witness:
  "logOutcome sampleState [sampleValidated2] True sampleState2"
proof -
  let ?opts = "\<lparr>throwOnInvalidCommit = True, throwIfStale = True, throwOnConflict = True\<rparr>"
  from apply_log_outcome [OF _ _ _ sample_applyLog [of ?opts]] show ?thesis
    by (simp add: defaultHandlers_ok sampleState_stored)
qed

end
