(* ===== verification/StreamLoading.thy ===== *)
theory StreamLoading
  imports StateManipulator
begin

text \<open>
  Loading and updating streams from tips (\<open>core/src/stream-loading/apply-tip-helper.ts\<close>,
  \<open>stream-loader.ts\<close>, \<open>stream-updater.ts\<close>, \<open>tip-fetcher.ts\<close>). The observable of tips that the
  network reports before the timeout is the list of tips in the order they arrive; the operators
  run one after the other (\<open>concatMap\<close>).
\<close>

section \<open>Applying a tip\<close>

definition applyTipToState :: "node \<Rightarrow> stream_state \<Rightarrow> cid \<Rightarrow> apply_opts \<Rightarrow> js_error + stream_state" where
  "applyTipToState nd state tip opts =
     bindR (syncLogUntilMatch (nd_loader nd) (streamIdFromState state) tip (map le_cid (st_log state))) (\<lambda>lg.
     applyLogToState nd state (verifyAnchorAndApplyTimestamps (nd_loader nd) lg) opts)"

definition networkOpts :: apply_opts where
  "networkOpts = \<lparr>throwOnInvalidCommit = False, throwIfStale = False, throwOnConflict = False\<rparr>"

definition userOpts :: apply_opts where
  "userOpts = \<lparr>throwOnInvalidCommit = True, throwIfStale = True, throwOnConflict = True\<rparr>"

definition commitOpts :: apply_opts where
  "commitOpts = \<lparr>throwOnInvalidCommit = True, throwIfStale = False, throwOnConflict = True\<rparr>"

section \<open>StreamLoader\<close>

definition loadStateFromTip :: "node \<Rightarrow> stream_id \<Rightarrow> cid \<Rightarrow> bool \<Rightarrow> bool \<Rightarrow> js_error + stream_state option" where
  "loadStateFromTip nd streamID tip allowSyncErrors throwOnInvalid =
     (case syncFullLog (nd_loader nd) streamID (Some tip) of
        Inl err \<Rightarrow> if allowSyncErrors \<and> err \<noteq> Diverged then Inr None else Inl err
      | Inr lg \<Rightarrow> bindR (applyFullLog nd (sid_type streamID)
          (verifyAnchorAndApplyTimestamps (nd_loader nd) lg) throwOnInvalid) (\<lambda>s. Inr (Some s)))"

definition loadGenesisState :: "node \<Rightarrow> stream_id \<Rightarrow> js_error + stream_state" where
  "loadGenesisState nd streamID =
     bindR (handlersGet (nd_handlers nd) (TypeCode (sid_type streamID))) (\<lambda>_.
     bindR (loadStateFromTip nd streamID (sid_cid streamID) False False) theState)"

fun applyTipsLoop :: "node \<Rightarrow> stream_id \<Rightarrow> stream_state option \<Rightarrow> cid list \<Rightarrow> js_error + stream_state option" where
  "applyTipsLoop nd streamID state [] = Inr state"
| "applyTipsLoop nd streamID None (tip # tips) =
     bindR (loadStateFromTip nd streamID tip True False) (\<lambda>s. applyTipsLoop nd streamID s tips)"
| "applyTipsLoop nd streamID (Some state) (tip # tips) =
     bindR (applyTipToState nd state tip networkOpts) (\<lambda>s. applyTipsLoop nd streamID (Some s) tips)"

definition applyTips :: "node \<Rightarrow> stream_id \<Rightarrow> cid list \<Rightarrow> js_error + stream_state" where
  "applyTips nd streamID tips =
     bindR (applyTipsLoop nd streamID None tips) (\<lambda>state. case state of
       Some s \<Rightarrow> Inr s
     | None \<Rightarrow> loadGenesisState nd streamID)"

definition loadStream :: "node \<Rightarrow> stream_id \<Rightarrow> cid list \<Rightarrow> js_error + stream_state" where
  "loadStream nd streamID tips =
     bindR (handlersGet (nd_handlers nd) (TypeCode (sid_type streamID))) (\<lambda>_. applyTips nd streamID tips)"

fun syncStream :: "node \<Rightarrow> stream_state \<Rightarrow> cid list \<Rightarrow> js_error + stream_state" where
  "syncStream nd state [] = Inr state"
| "syncStream nd state (tip # tips) =
     (case applyTipToState nd state tip networkOpts of
        Inr s \<Rightarrow> syncStream nd s tips
      | Inl Diverged \<Rightarrow> Inl Diverged
      | Inl _ \<Rightarrow> syncStream nd state tips)"

definition loaderResetStateToCommit :: "node \<Rightarrow> stream_state \<Rightarrow> commit_id \<Rightarrow> js_error + stream_state" where
  "loaderResetStateToCommit nd initialState commitId =
     bindR (applyTipToState nd initialState (commitIDCommit commitId) commitOpts) (\<lambda>baseState.
     resetStateToCommit nd baseState (commitIDCommit commitId) True)"

definition stateAtCommit :: "node \<Rightarrow> commit_id \<Rightarrow> js_error + stream_state" where
  "stateAtCommit nd commitId =
     bindR (loadStateFromTip nd (commitIDBase commitId) (commitIDCommit commitId) False True) theState"

definition resyncStream :: "node \<Rightarrow> stream_id \<Rightarrow> cid \<Rightarrow> cid list \<Rightarrow> js_error + stream_state" where
  "resyncStream nd streamID knownTip tips =
     bindR (handlersGet (nd_handlers nd) (TypeCode (sid_type streamID))) (\<lambda>_.
     applyTips nd streamID (knownTip # tips))"

section \<open>StreamUpdater\<close>

definition applyTipFromNetwork :: "node \<Rightarrow> stream_state \<Rightarrow> cid \<Rightarrow> js_error + stream_state" where
  "applyTipFromNetwork nd state tip = applyTipToState nd state tip networkOpts"

text \<open>\<open>storeEvent\<close> puts the commit into the block store and returns its CID.\<close>

definition applyCommitFromUser ::
  "node \<Rightarrow> (js \<Rightarrow> stream_id \<Rightarrow> js_error + cid) \<Rightarrow> stream_state \<Rightarrow> js \<Rightarrow> js_error + stream_state" where
  "applyCommitFromUser nd storeEvent state commit =
     bindR (storeEvent commit (streamIdFromState state)) (\<lambda>commitCid.
     applyTipToState nd state commitCid userOpts)"

section \<open>Lemmas\<close>

lemma appliable_verified [simp]:
  "map le_cid (appliable_commits (verifyAnchorAndApplyTimestamps ld lg)) = map le_cid (unappliable_commits lg)"
  "map cd_commit (appliable_commits (verifyAnchorAndApplyTimestamps ld lg)) = map cd_commit (unappliable_commits lg)"
  "length (appliable_commits (verifyAnchorAndApplyTimestamps ld lg)) = length (unappliable_commits lg)"
  by (simp_all add: verifyAnchorAndApplyTimestamps_def rev_map [symmetric])

lemma appliable_Nil [simp]:
  "appliable_commits (verifyAnchorAndApplyTimestamps ld lg) = [] \<longleftrightarrow> unappliable_commits lg = []"
  by (metis appliable_verified(3) length_0_conv)

lemma linkedFrom_cong:
  "map le_cid xs = map le_cid ys \<Longrightarrow> map cd_commit xs = map cd_commit ys \<Longrightarrow> linkedFrom t xs \<longleftrightarrow> linkedFrom t ys"
proof (induction xs arbitrary: ys t)
  case (Cons x xs)
  then obtain y zs where "ys = y # zs" by (cases ys) auto
  with Cons show ?case by auto
qed simp

text \<open>The commits a sync brings, as the state manipulator sees them.\<close>

lemma sync_commits:
  assumes "syncLogUntilMatch ld sid tip es = Inr lg"
    and cds: "cds = appliable_commits (verifyAnchorAndApplyTimestamps ld lg)" and "cds \<noteq> []"
  shows "\<exists>c \<in> set es. linkedFrom c cds" and "le_cid (last cds) = tip"
    and "\<forall>cd \<in> set cds. le_cid cd \<notin> set es \<and>
      (\<exists>cd0. getCommitData ld (le_cid cd) sid = Inr cd0 \<and> cd_commit cd0 = cd_commit cd)"
proof -
  let ?u = "unappliable_commits lg"
  have ne: "?u \<noteq> []" using assms(2,3) by simp
  note u = syncLogUntilMatch_Inr [OF assms(1) refl ne]
  have cm: "map le_cid cds = map le_cid ?u" "map cd_commit cds = map cd_commit ?u" using cds by simp_all
  show "\<exists>c \<in> set es. linkedFrom c cds" using u(1) linkedFrom_cong [OF cm] by blast
  show "le_cid (last cds) = tip" using u(2) ne assms(3) cm(1) by (metis last_map)
  show "\<forall>cd \<in> set cds. le_cid cd \<notin> set es \<and>
      (\<exists>cd0. getCommitData ld (le_cid cd) sid = Inr cd0 \<and> cd_commit cd0 = cd_commit cd)"
  proof
    fix cd assume "cd \<in> set cds"
    then obtain i where i: "i < length cds" "cds ! i = cd" by (auto simp: in_set_conv_nth)
    have len: "length cds = length ?u" using cds by simp
    have "le_cid cd = le_cid (?u ! i)" "cd_commit cd = cd_commit (?u ! i)"
      using i len cm by (metis nth_map)+
    moreover have "?u ! i \<in> set ?u" using i len by simp
    ultimately show "le_cid cd \<notin> set es \<and>
      (\<exists>cd0. getCommitData ld (le_cid cd) sid = Inr cd0 \<and> cd_commit cd0 = cd_commit cd)"
      using u(3) by auto
  qed
qed

section \<open>A state whose log is in the store stays so\<close>

text \<open>A store without infinite chains, whose depth is below the fuel.\<close>

definition boundedStore :: "loader \<Rightarrow> stream_id \<Rightarrow> bool" where
  "boundedStore ld sid \<longleftrightarrow> (\<exists>rank. rankedStore ld sid rank \<and> (\<forall>c. rank c < ld_fuel ld))"

lemma storedLog_rank:
  assumes "rankedStore ld sid rank" and "storedLog ld sid cids"
  shows "i < length cids \<Longrightarrow> i \<le> rank (cids ! i)"
proof (induction i)
  case (Suc i)
  with assms(2) obtain cd where "getCommitData ld (cids ! Suc i) sid = Inr cd"
    "jsGet (cd_commit cd) ''prev'' = Inr (CidV (cids ! i))" unfolding storedLog_def by blast
  with assms(1) have "rank (cids ! i) < rank (cids ! Suc i)" unfolding rankedStore_def by blast
  with Suc show ?case by simp
qed simp

lemma storedLog_length:
  assumes "boundedStore ld sid" and "storedLog ld sid cids"
  shows "length cids \<le> ld_fuel ld"
proof -
  from assms(1) obtain rank where r: "rankedStore ld sid rank" "\<forall>c. rank c < ld_fuel ld"
    by (auto simp: boundedStore_def)
  from assms(2) have ne: "cids \<noteq> []" by (simp add: storedLog_def)
  then have "length cids - 1 \<le> rank (cids ! (length cids - 1))"
    by (intro storedLog_rank [OF r(1) assms(2)]) simp
  moreover have "rank (cids ! (length cids - 1)) < ld_fuel ld" using r(2) by simp
  ultimately show ?thesis using ne by (cases cids) auto
qed

lemma linkedFrom_nth:
  "linkedFrom c cds \<Longrightarrow> Suc m < length cds \<Longrightarrow>
     jsGet (cd_commit (cds ! Suc m)) ''prev'' = Inr (CidV (le_cid (cds ! m)))"
proof (induction c cds arbitrary: m rule: linkedFrom.induct)
  case (2 tip cd cds)
  then show ?case by (cases m; cases cds) auto
qed simp

lemma storedLog_extend:
  assumes st: "storedLog ld sid cids" and j: "0 < j" "j \<le> length cids" and ne: "cds \<noteq> []"
    and prev: "jsGet (cd_commit (hd cds)) ''prev'' = Inr (CidV (cids ! (j - 1)))"
    and lf: "linkedFrom c cds"
    and has: "\<forall>cd \<in> set cds. \<exists>cd0. getCommitData ld (le_cid cd) sid = Inr cd0 \<and> cd_commit cd0 = cd_commit cd"
  shows "storedLog ld sid (take j cids @ take k (map le_cid cds))"
proof -
  let ?new = "take j cids @ take k (map le_cid cds)"
  have len: "length (take j cids) = j" using j by simp
  have ne': "take j cids \<noteq> []" using j by auto
  have hd: "hd ?new = hd cids" using ne' j by (simp add: hd_append)
  have "\<exists>cd. getCommitData ld (?new ! Suc i) sid = Inr cd \<and> jsGet (cd_commit cd) ''prev'' = Inr (CidV (?new ! i))"
    if i: "Suc i < length ?new" for i
  proof (cases "Suc i < j")
    case True
    then have "?new ! Suc i = cids ! Suc i" "?new ! i = cids ! i" using len by (simp_all add: nth_append)
    with st True j show ?thesis unfolding storedLog_def by auto
  next
    case False
    then obtain m where m: "Suc i = j + m" using le_Suc_ex by (metis not_less)
    have mb: "m < k" "m < length cds" using i m len by auto
    then have new: "?new ! Suc i = le_cid (cds ! m)" using m len by (simp add: nth_append)
    from mb has obtain cd0 where cd0: "getCommitData ld (le_cid (cds ! m)) sid = Inr cd0"
      "cd_commit cd0 = cd_commit (cds ! m)" by (meson nth_mem)
    have "jsGet (cd_commit (cds ! m)) ''prev'' = Inr (CidV (?new ! i))"
    proof (cases m)
      case 0
      then have "i = j - 1" "?new ! i = cids ! i" using m j len by (auto simp: nth_append)
      with prev 0 ne show ?thesis by (simp add: hd_conv_nth)
    next
      case (Suc m')
      then have "?new ! i = le_cid (cds ! m')" using m mb len by (simp add: nth_append)
      with linkedFrom_nth [OF lf, of m'] Suc mb show ?thesis by simp
    qed
    with cd0 new show ?thesis by auto
  qed
  with st hd ne' show ?thesis unfolding storedLog_def by auto
qed

lemma streamIdFromState_logCids: "logCids s \<noteq> [] \<Longrightarrow> streamIdFromState s = StreamID (st_type s) (hd (logCids s))"
  by (simp add: streamIdFromState_def logCids_def list.map_sel)

lemma applyTipToState_Inr:
  assumes ok: "registryOk (nd_handlers nd)"
    and stored: "storedLog (nd_loader nd) (streamIdFromState s) (logCids s)"
    and fuel: "boundedStore (nd_loader nd) (streamIdFromState s)"
    and r: "applyTipToState nd s tip opts = Inr s'"
  obtains lg where
    "syncLogUntilMatch (nd_loader nd) (streamIdFromState s) tip (logCids s) = Inr lg"
    "logOutcome s (appliable_commits (verifyAnchorAndApplyTimestamps (nd_loader nd) lg))
       (throwOnInvalidCommit opts) s'"
    "checkForCacaoExpiration (nd_now nd) s' = Inr ()"
proof -
  from r obtain lg where lg: "syncLogUntilMatch (nd_loader nd) (streamIdFromState s) tip (logCids s) = Inr lg"
    and a: "applyLogWithoutCacao nd s (verifyAnchorAndApplyTimestamps (nd_loader nd) lg) opts = Inr s'"
      "checkForCacaoExpiration (nd_now nd) s' = Inr ()"
    by (auto simp: applyTipToState_def bindR_Inr_iff applyLogToState_Inr logCids_def)
  from applyLogWithoutCacao_Inr [OF ok stored storedLog_length [OF fuel stored] a(1)]
  show ?thesis using that lg a(2) by blast
qed

lemma applyTipToState_stored:
  assumes ok: "registryOk (nd_handlers nd)"
    and stored: "storedLog (nd_loader nd) (streamIdFromState s) (logCids s)"
    and fuel: "boundedStore (nd_loader nd) (streamIdFromState s)"
    and r: "applyTipToState nd s tip opts = Inr s'"
  shows "storedLog (nd_loader nd) (streamIdFromState s') (logCids s')"
    and "streamIdFromState s' = streamIdFromState s"
proof -
  from applyTipToState_Inr [OF assms] obtain lg where
    lg: "syncLogUntilMatch (nd_loader nd) (streamIdFromState s) tip (logCids s) = Inr lg"
    and out: "logOutcome s (appliable_commits (verifyAnchorAndApplyTimestamps (nd_loader nd) lg))
       (throwOnInvalidCommit opts) s'" by blast
  let ?cds = "appliable_commits (verifyAnchorAndApplyTimestamps (nd_loader nd) lg)"
  have ne: "logCids s \<noteq> []" using stored by (simp add: storedLog_def)
  have "storedLog (nd_loader nd) (streamIdFromState s') (logCids s') \<and> streamIdFromState s' = streamIdFromState s"
  proof (cases "s' = s")
    case False
    with out obtain j k where jk: "0 < j" "j \<le> length (logCids s)" "?cds \<noteq> []"
      "jsGet (cd_commit (hd ?cds)) ''prev'' = Inr (CidV (logCids s ! (j - 1)))"
      "logCids s' = take j (logCids s) @ take k (map le_cid ?cds)" "st_type s' = st_type s"
      unfolding logOutcome_def by blast
    from sync_commits(1,3) [OF lg refl jk(3)] obtain c where "linkedFrom c ?cds"
      "\<forall>cd \<in> set ?cds. \<exists>cd0. getCommitData (nd_loader nd) (le_cid cd) (streamIdFromState s) = Inr cd0 \<and>
         cd_commit cd0 = cd_commit cd" by blast
    from storedLog_extend [OF stored jk(1-4) this, of k]
    have st: "storedLog (nd_loader nd) (streamIdFromState s) (logCids s')" using jk(5) by simp
    have "take j (logCids s) \<noteq> []" "hd (take j (logCids s)) = hd (logCids s)" using jk(1) ne by auto
    then have "streamIdFromState s' = streamIdFromState s"
      using jk ne by (simp add: streamIdFromState_logCids hd_append)
    with st show ?thesis by simp
  qed (simp add: stored)
  then show "storedLog (nd_loader nd) (streamIdFromState s') (logCids s')"
    "streamIdFromState s' = streamIdFromState s" by auto
qed

section \<open>Properties\<close>

lemma syncStream_stored:
  assumes ok: "registryOk (nd_handlers nd)"
  shows "syncStream nd s tips = Inr s' \<Longrightarrow> storedLog (nd_loader nd) (streamIdFromState s) (logCids s) \<Longrightarrow>
    boundedStore (nd_loader nd) (streamIdFromState s) \<Longrightarrow>
    storedLog (nd_loader nd) (streamIdFromState s') (logCids s') \<and> streamIdFromState s' = streamIdFromState s"
proof (induction tips arbitrary: s)
  case (Cons tip tips)
  show ?case
  proof (cases "applyTipToState nd s tip networkOpts")
    case (Inl e)
    with Cons.prems have "syncStream nd s tips = Inr s'" by (cases e) auto
    with Cons show ?thesis by blast
  next
    case (Inr s1)
    note s1 = applyTipToState_stored [OF ok Cons.prems(2,3) Inr]
    from Cons.prems(1) Inr have "syncStream nd s1 tips = Inr s'" by simp
    from Cons.IH [OF this s1(1)] Cons.prems(3) show ?thesis unfolding s1(2) by blast
  qed
qed simp

text \<open>
  C9: Synchronising a state with any sequence of tips from the network, valid or not, keeps it a
  state of the same stream whose log is a chain of commits held by the store, back to the genesis
  commit that the StreamID names.
\<close>

theorem sync_keeps_chain:
  assumes "registryOk (nd_handlers nd)" and "syncStream nd s tips = Inr s'"
    and "storedLog (nd_loader nd) (streamIdFromState s) (logCids s)"
    and "boundedStore (nd_loader nd) (streamIdFromState s)"
  shows "storedLog (nd_loader nd) (streamIdFromState s') (logCids s') \<and>
    streamIdFromState s' = streamIdFromState s"
  using syncStream_stored [OF assms(1-4)] .

lemma sampleLoader_bounded: "boundedStore sampleLoader sid"
  unfolding boundedStore_def
  by (rule exI [of _ sampleRank]) (simp add: sampleLoader_ranked, simp add: sampleRank_def)

lemma sample_applyTip: "applyTipToState sampleNode sampleState (CID [2]) opts = Inr sampleState2"
proof -
  have sync: "syncLogUntilMatch sampleLoader (StreamID TILE_TYPE (CID [1])) (CID [2]) (map le_cid (st_log sampleState))
      = Inr (UnappliableStreamLog [sampleCommit2])"
    using sample_sync [of "StreamID TILE_TYPE (CID [1])"] by (simp add: sampleState_def)
  have lg: "verifyAnchorAndApplyTimestamps sampleLoader (UnappliableStreamLog [sampleCommit2])
      = AppliableStreamLog [sampleValidated2]"
    by (simp add: verifyAnchorAndApplyTimestamps_def sampleValidated2_def sampleCommit2_def)
  show ?thesis by (simp add: applyTipToState_def sync lg sample_applyLog)
qed

theorem sync_keeps_chain_witness:
  "storedLog sampleLoader (streamIdFromState sampleState2) (logCids sampleState2)"
proof -
  have "syncStream sampleNode sampleState [CID [2]] = Inr sampleState2" by (simp add: sample_applyTip)
  then show ?thesis
    using conjunct1 [OF sync_keeps_chain [of sampleNode sampleState "[CID [2]]" sampleState2]]
    by (simp only: sampleNode_simps defaultHandlers_ok sampleState_stored sampleState_logCids
      sampleState_streamId sampleLoader_bounded)
qed

text \<open>
  A tip that is already in the log changes nothing, and neither does a tip whose history never
  meets the log: the state is returned as it is, if none of its CACAOs has expired.
\<close>

theorem known_or_foreign_tip:
  assumes "tip \<in> set (logCids s) \<and> 0 < ld_fuel (nd_loader nd) \<or>
      (\<exists>lg. syncLogUntilMatch (nd_loader nd) (streamIdFromState s) tip (logCids s) = Inr lg \<and>
         unappliable_commits lg = [])"
    and "checkForCacaoExpiration (nd_now nd) s = Inr ()"
  shows "applyTipToState nd s tip opts = Inr s"
proof -
  have "\<exists>lg. syncLogUntilMatch (nd_loader nd) (streamIdFromState s) tip (logCids s) = Inr lg \<and>
      unappliable_commits lg = []"
    using assms(1)
  proof
    assume k: "tip \<in> set (logCids s) \<and> 0 < ld_fuel (nd_loader nd)"
    then obtain n where "ld_fuel (nd_loader nd) = Suc n" by (cases "ld_fuel (nd_loader nd)") auto
    with k show ?thesis by (auto simp: syncLogUntilMatch_def syncLogHelper_def logIncludes_iff)
  qed
  then obtain lg where "syncLogUntilMatch (nd_loader nd) (streamIdFromState s) tip (map le_cid (st_log s)) = Inr lg"
    "unappliable_commits lg = []" by (auto simp: logCids_def)
  moreover from this(2) have "applyLogWithoutCacao nd s (verifyAnchorAndApplyTimestamps (nd_loader nd) lg) opts = Inr s"
    by (intro applyLogWithoutCacao_Nil) simp
  ultimately show ?thesis using assms(2)
    by (simp add: applyTipToState_def applyLogToState_def)
qed

theorem known_or_foreign_tip_witness:
  "applyTipToState sampleNode sampleState (CID [1]) networkOpts = Inr sampleState"
proof (rule known_or_foreign_tip)
  show "checkForCacaoExpiration (nd_now sampleNode) sampleState = Inr ()"
    by (simp add: checkForCacaoExpiration_def sampleState_def entryExpired_def)
qed simp

text \<open>
  C10: A commit that a user submits is applied as written or refused: on success the log of the new
  state is the old log followed by new commits of which the last is the submitted one. The state
  stays as it is only if the commit was known already or is not connected to the stream.
\<close>

theorem user_commit_applied:
  assumes "registryOk (nd_handlers nd)"
    and "applyCommitFromUser nd storeEvent s commit = Inr s'"
  shows "\<exists>commitCid lg. storeEvent commit (streamIdFromState s) = Inr commitCid \<and>
    syncLogUntilMatch (nd_loader nd) (streamIdFromState s) commitCid (logCids s) = Inr lg \<and>
    (if unappliable_commits lg = [] then s' = s
     else \<exists>new. new \<noteq> [] \<and> logCids s' = logCids s @ new \<and> last new = commitCid)"
proof -
  from assms(2) obtain commitCid lg where c: "storeEvent commit (streamIdFromState s) = Inr commitCid"
    and lg: "syncLogUntilMatch (nd_loader nd) (streamIdFromState s) commitCid (logCids s) = Inr lg"
    and a: "applyLogWithoutCacao nd s (verifyAnchorAndApplyTimestamps (nd_loader nd) lg) userOpts = Inr s'"
    by (auto simp: applyCommitFromUser_def applyTipToState_def bindR_Inr_iff applyLogToState_Inr logCids_def)
  let ?cds = "appliable_commits (verifyAnchorAndApplyTimestamps (nd_loader nd) lg)"
  show ?thesis
  proof (cases "unappliable_commits lg = []")
    case True
    then have "?cds = []" by simp
    from applyLogWithoutCacao_Nil [OF this] a have "s' = s" by simp
    with c lg True show ?thesis by auto
  next
    case False
    then obtain cd cds where cds: "?cds = cd # cds" by (cases ?cds) auto
    have cne: "?cds \<noteq> []" using False by simp
    have stale: "throwIfStale userOpts" by (simp add: userOpts_def)
    obtain h where h: "handlersGet (nd_handlers nd) (TypeCode (st_type s)) = Inr h"
      and ap: "applyLog h (Some s) ?cds True = Inr (Some s')"
      by (rule applyLogWithoutCacao_stale [OF a stale cne]) (simp add: userOpts_def)
    from stream_handler.applyLog_throw [OF handlersGet_ok [OF assms(1) h] ap]
    have l: "logCids s' = logCids s @ map le_cid ?cds" by auto
    moreover have "last (map le_cid ?cds) = commitCid"
      unfolding last_map [OF cne] by (rule sync_commits(2) [OF lg refl cne])
    moreover have "map le_cid ?cds \<noteq> []" using cne by simp
    ultimately have "\<exists>new. new \<noteq> [] \<and> logCids s' = logCids s @ new \<and> last new = commitCid" by blast
    with c lg False show ?thesis by (intro exI [of _ commitCid] exI [of _ lg]) simp
  qed
qed

theorem user_commit_applied_witness:
  "\<exists>new. logCids sampleState2 = [CID [1]] @ new \<and> last new = CID [2]"
proof -
  have "applyCommitFromUser sampleNode (\<lambda>_ _. Inr (CID [2])) sampleState Null = Inr sampleState2"
    by (simp add: applyCommitFromUser_def sample_applyTip)
  from user_commit_applied [OF _ this] show ?thesis by (auto simp: defaultHandlers_ok sample_sync)
qed

text \<open>
  Loading a stream at a commit gives a state whose tip is that commit, of the same stream, with
  a log that the store holds.
\<close>

theorem load_at_commit:
  assumes "registryOk (nd_handlers nd)"
    and "storedLog (nd_loader nd) (streamIdFromState s) (logCids s)"
    and "boundedStore (nd_loader nd) (streamIdFromState s)"
    and "loaderResetStateToCommit nd s commitId = Inr s'"
  shows "tipFromState s' = commitIDCommit commitId \<and> st_type s' = st_type s \<and>
    (\<exists>base i. applyTipToState nd s (commitIDCommit commitId) commitOpts = Inr base \<and>
       logCids s' = take (Suc i) (logCids base) \<and>
       storedLog (nd_loader nd) (streamIdFromState s) (logCids base))"
proof -
  from assms(4) obtain base where b: "applyTipToState nd s (commitIDCommit commitId) commitOpts = Inr base"
    and r: "resetStateToCommit nd base (commitIDCommit commitId) True = Inr s'"
    by (auto simp: loaderResetStateToCommit_def bindR_Inr_iff)
  note st = applyTipToState_stored [OF assms(1-3) b]
  have len: "length (logCids base) \<le> ld_fuel (nd_loader nd)"
    using st assms(3) by (intro storedLog_length) auto
  from resetStateToCommit_Inr [OF assms(1) st(1) len r] obtain i where i: "i < length (logCids base)"
    "logCids base ! i = commitIDCommit commitId" "logCids s' = take (Suc i) (logCids base)"
    "st_type s' = st_type base" by blast
  then have "st_log s' \<noteq> []" by (auto simp: logCids_def)
  then have "tipFromState s' = commitIDCommit commitId"
    using i by (simp add: tipFromState_logCids take_Suc_conv_app_nth)
  moreover have "st_type base = st_type s" using st(2) by (simp add: streamIdFromState_def)
  ultimately show ?thesis using b i st by auto
qed

theorem load_at_commit_witness: "tipFromState sampleState = CID [1]"
proof -
  have "verifyAnchorAndApplyTimestamps sampleLoader (UnappliableStreamLog []) = AppliableStreamLog []"
    by (simp add: verifyAnchorAndApplyTimestamps_def)
  then have "applyTipToState sampleNode sampleState (CID [1]) commitOpts = Inr sampleState"
    by (simp add: applyTipToState_def syncLogUntilMatch_def syncLogHelper_def eval_nat_numeral
        logIncludes_def sampleState_def applyLogToState_def applyLogWithoutCacao_Nil
        checkForCacaoExpiration_def entryExpired_def)
  then have "loaderResetStateToCommit sampleNode sampleState (CommitID TILE_TYPE (CID [1]) None) = Inr sampleState"
    by (simp add: loaderResetStateToCommit_def commitIDCommit_def sampleState_reset)
  from load_at_commit [OF _ _ _ this] show ?thesis
    by (simp add: defaultHandlers_ok sampleState_stored sampleLoader_bounded commitIDCommit_def)
qed

end
