(* ===== verification/Serialization.thy ===== *)
theory Serialization
  imports Signatures
begin

text \<open>
  The forms in which commits and states leave the process: \<open>serializeCommit\<close>, \<open>deserializeCommit\<close>,
  \<open>serializeState\<close>, \<open>deserializeState\<close> and \<open>statesEqual\<close> of
  \<open>common/src/utils/stream-utils.ts\<close>, and \<open>toCID\<close> of \<open>common/src/utils/cid-utils.ts\<close>. The code clones
  its argument before it changes it, so the functions return the changed copy.
\<close>

section \<open>The codecs\<close>

record text_lib =
  tl_codec :: codec_lib
  tl_base64Encode :: "byte list \<Rightarrow> string"
  tl_base64Decode :: "string \<Rightarrow> js_error + byte list"
  tl_cidDecode :: "byte list \<Rightarrow> js_error + cid"

definition text_lib_ok :: "text_lib \<Rightarrow> bool" where
  "text_lib_ok lib \<longleftrightarrow> codec_lib_ok (tl_codec lib) \<and>
     (\<forall>bs. tl_base64Decode lib (tl_base64Encode lib bs) = Inr bs) \<and>
     (\<forall>bs. bs \<noteq> [] \<longrightarrow> tl_base64Encode lib bs \<noteq> [])"

fun toCID :: "text_lib \<Rightarrow> js \<Rightarrow> js_error + cid" where
  "toCID lib (CidV c) = Inr c"
| "toCID lib (Str s) = cidParse (tl_codec lib) s"
| "toCID lib (Bytes bs) = tl_cidDecode lib bs"
| "toCID lib _ = Inl (Err ''cannot be converted to a CID'')"

text \<open>The conversions of a single value, in both directions.\<close>

definition cidToJs :: "text_lib \<Rightarrow> js \<Rightarrow> js_error + js" where
  "cidToJs lib v = bindR (jsCidString (tl_codec lib) v) (\<lambda>s. Inr (Str s))"

definition jsToCid :: "text_lib \<Rightarrow> js \<Rightarrow> js_error + js" where
  "jsToCid lib v = bindR (toCID lib v) (\<lambda>c. Inr (CidV c))"

fun toBase64 :: "text_lib \<Rightarrow> js \<Rightarrow> js_error + js" where
  "toBase64 lib (Bytes bs) = Inr (Str (tl_base64Encode lib bs))"
| "toBase64 lib _ = Inl TypeErr"

fun fromBase64 :: "text_lib \<Rightarrow> js \<Rightarrow> js_error + js" where
  "fromBase64 lib (Str s) = bindR (tl_base64Decode lib s) (\<lambda>bs. Inr (Bytes bs))"
| "fromBase64 lib _ = Inl TypeErr"

fun jsToStreamID :: "text_lib \<Rightarrow> js \<Rightarrow> js_error + js" where
  "jsToStreamID lib (Str s) = bindR (streamIDFromString (tl_codec lib) s) (\<lambda>sid. Inr (SidV sid))"
| "jsToStreamID lib _ = Inl TypeErr"

section \<open>Converting properties of an object\<close>

text \<open>
  A sequence of statements \<open>if (o.k) o.k = f(o.k)\<close>. \<open>assignProp\<close> is the unconditional assignment
  \<open>o.k = f(o.k)\<close>.
\<close>

fun convProps :: "((js \<Rightarrow> js_error + js) \<times> string) list \<Rightarrow> js \<Rightarrow> js_error + js" where
  "convProps [] obj = Inr obj"
| "convProps ((f, k) # convs) obj =
     bindR (jsGet obj k) (\<lambda>v.
     bindR (if jsTruthy v then bindR (f v) (\<lambda>w. Inr (jsSetProp obj k w)) else Inr obj) (\<lambda>obj'.
     convProps convs obj'))"

definition convOpt :: "((js \<Rightarrow> js_error + js) \<times> string) list \<Rightarrow> js \<Rightarrow> js_error + js" where
  "convOpt convs obj = (if jsNullish obj then Inr obj else convProps convs obj)"

definition assignProp :: "(js \<Rightarrow> js_error + js) \<Rightarrow> string \<Rightarrow> js \<Rightarrow> js_error + js" where
  "assignProp f k obj = bindR (jsGet obj k) (\<lambda>v. bindR (f v) (\<lambda>w. Inr (jsSetProp obj k w)))"

section \<open>Commits\<close>

text \<open>
  Both directions go over the same properties: \<open>cidConv\<close> and \<open>bytesConv\<close> say what happens to a CID
  and to a byte array.
\<close>

definition convContainer :: "(js \<Rightarrow> js_error + js) \<Rightarrow> (js \<Rightarrow> js_error + js) \<Rightarrow> js \<Rightarrow> js_error + js" where
  "convContainer cidConv bytesConv commit =
     bindR (assignProp (assignProp cidConv ''link'') ''jws'' commit) (\<lambda>c1.
     bindR (assignProp bytesConv ''linkedBlock'' c1) (\<lambda>c2.
     convProps [(bytesConv, ''cacaoBlock'')] c2))"

definition convCommit :: "(js \<Rightarrow> js_error + js) \<Rightarrow> (js \<Rightarrow> js_error + js) \<Rightarrow> js \<Rightarrow> js_error + js" where
  "convCommit cidConv bytesConv commit =
     bindR (isSignedCommitContainer commit) (\<lambda>isContainer.
     if isContainer then convContainer cidConv bytesConv commit
     else
       bindR (isSignedCommit commit) (\<lambda>isSigned.
       bindR (if isSigned then assignProp cidConv ''link'' commit else Inr commit) (\<lambda>c1.
       bindR (isAnchorCommit c1) (\<lambda>isAnchor.
       bindR (if isAnchor then assignProp cidConv ''proof'' c1 else Inr c1) (\<lambda>c2.
       bindR (convProps [(cidConv, ''id''), (cidConv, ''prev'')] c2) (\<lambda>c3.
       bindR (jsGet c3 ''header'') (\<lambda>header.
       bindR (convOpt [(bytesConv, ''model''), (bytesConv, ''context''), (bytesConv, ''unique'')] header)
         (\<lambda>header'.
       Inr (if jsNullish header then c3 else jsSetProp c3 ''header'' header')))))))))"

definition serializeCommit :: "text_lib \<Rightarrow> js \<Rightarrow> js_error + js" where
  "serializeCommit lib commit = convCommit (cidToJs lib) (toBase64 lib) commit"

definition deserializeCommit :: "text_lib \<Rightarrow> js \<Rightarrow> js_error + js" where
  "deserializeCommit lib commit = convCommit (jsToCid lib) (fromBase64 lib) commit"

section \<open>States\<close>

text \<open>
  A serialized state has the properties of a state and \<open>doctype\<close>; \<open>None\<close> is an absent
  property.
\<close>

record ser_entry =
  se_cid :: js
  se_type :: event_type
  se_timestamp :: onum
  se_expiration :: onum

record ser_state =
  ss_type :: nat
  ss_content :: js
  ss_next :: "stream_next option"
  ss_metadata :: js
  ss_signature :: signature_status
  ss_anchorStatus :: "string option"
  ss_anchorProof :: js
  ss_log :: "ser_entry list"
  ss_doctype :: "string option"

definition serializeEntry :: "text_lib \<Rightarrow> log_entry \<Rightarrow> ser_entry" where
  "serializeEntry lib e = \<lparr>se_cid = Str (cidToString (tl_codec lib) (le_cid e)), se_type = le_type e,
     se_timestamp = le_timestamp e, se_expiration = le_expiration e\<rparr>"

definition deserializeEntry :: "text_lib \<Rightarrow> ser_entry \<Rightarrow> js_error + log_entry" where
  "deserializeEntry lib e = bindR (toCID lib (se_cid e)) (\<lambda>c.
     Inr \<lparr>le_cid = c, le_type = se_type e, le_timestamp = se_timestamp e, le_expiration = se_expiration e\<rparr>)"

definition anchorStatusByName :: "string \<Rightarrow> anchor_status" where
  "anchorStatusByName name = (case find (\<lambda>(a, n). n = name) anchorStatusNames of
     Some (a, _) \<Rightarrow> a | None \<Rightarrow> ANCHOR_UNDEFINED)"

text \<open>\<open>Uint8Array.from(v)\<close>: the elements as numbers modulo 256, and 0 for what is no number.\<close>

fun elemByte :: "js \<Rightarrow> byte" where
  "elemByte (Num n) = of_int (if n < 0 then - \<lfloor>- n\<rfloor> else \<lfloor>n\<rfloor>)"
| "elemByte (Bool b) = (if b then 1 else 0)"
| "elemByte _ = 0"

fun uint8From :: "js \<Rightarrow> js_error + byte list" where
  "uint8From (Bytes bs) = Inr bs"
| "uint8From (Arr xs) = Inr (map elemByte xs)"
| "uint8From (Str s) = Inr (map (\<lambda>c. if c \<in> set ''0123456789'' then of_nat (digitVal c) else 0) s)"
| "uint8From Undef = Inl TypeErr"
| "uint8From Null = Inl TypeErr"
| "uint8From _ = Inr []"

definition uniqueToBase64 :: "text_lib \<Rightarrow> js \<Rightarrow> js_error + js" where
  "uniqueToBase64 lib v = bindR (uint8From v) (\<lambda>bs. toBase64 lib (Bytes bs))"

definition TILE_TYPE_ID :: nat where
  "TILE_TYPE_ID = 0"

definition serializeState :: "text_lib \<Rightarrow> stream_state \<Rightarrow> js_error + ser_state" where
  "serializeState lib state =
     bindR (if jsNullish (st_anchorProof state) then Inr (st_anchorProof state)
            else bindR (assignProp (cidToJs lib) ''txHash'' (st_anchorProof state))
                   (assignProp (cidToJs lib) ''root'')) (\<lambda>proof.
     bindR (convOpt ([(cidToJs lib, ''model''), (cidToJs lib, ''context'')]
              @ (if st_type state \<noteq> TILE_TYPE_ID then [(uniqueToBase64 lib, ''unique'')] else []))
            (st_metadata state)) (\<lambda>metadata.
     bindR (nameByCode (st_type state)) (\<lambda>doctype.
     Inr \<lparr>ss_type = st_type state, ss_content = st_content state, ss_next = st_next state,
          ss_metadata = metadata, ss_signature = st_signature state,
          ss_anchorStatus = map_of anchorStatusNames (st_anchorStatus state),
          ss_anchorProof = proof, ss_log = map (serializeEntry lib) (st_log state),
          ss_doctype = Some doctype\<rparr>)))"

definition deserializeState :: "text_lib \<Rightarrow> ser_state option \<Rightarrow> js_error + stream_state option" where
  "deserializeState lib ser = (case ser of
     None \<Rightarrow> Inr None
   | Some state \<Rightarrow>
     bindR (case ss_doctype state of
              Some name \<Rightarrow> if name \<noteq> [] then codeByName name else Inr (ss_type state)
            | None \<Rightarrow> Inr (ss_type state)) (\<lambda>type.
     bindR (mapR (deserializeEntry lib) (ss_log state)) (\<lambda>lg.
     bindR (if \<not> jsTruthy (ss_anchorProof state) then Inr (ss_anchorProof state)
            else bindR (assignProp (jsToCid lib) ''txHash'' (ss_anchorProof state))
                   (assignProp (jsToCid lib) ''root'')) (\<lambda>proof.
     bindR (convOpt ([(jsToStreamID lib, ''model''), (jsToStreamID lib, ''context'')]
              @ (if ss_type state \<noteq> TILE_TYPE_ID then [(fromBase64 lib, ''unique'')] else []))
            (ss_metadata state)) (\<lambda>metadata.
     Inr (Some \<lparr>st_type = type, st_content = ss_content state, st_next = ss_next state,
          st_metadata = metadata, st_signature = ss_signature state,
          st_anchorStatus = (case ss_anchorStatus state of
              Some name \<Rightarrow> anchorStatusByName name | None \<Rightarrow> ANCHOR_UNDEFINED),
          st_anchorProof = proof, st_log = lg\<rparr>))))))"

section \<open>Equality of states\<close>

text \<open>
  \<open>statesEqual\<close> compares the JSON texts of the serialized states. What distinguishes two texts is
  the value with undefined properties dropped, undefined elements and NaN turned to \<open>null\<close>, and with CIDs,
  StreamIDs and byte arrays as the objects that \<open>JSON.stringify\<close> makes of them. The order of the
  properties of the state itself is not modelled.
\<close>

definition jsonCid :: "text_lib \<Rightarrow> cid \<Rightarrow> js" where
  "jsonCid lib c = Obj [(''/'', Str (cidToString (tl_codec lib) c))]"

primrec jsonNorm :: "text_lib \<Rightarrow> js \<Rightarrow> js" where
  "jsonNorm lib Undef = Undef"
| "jsonNorm lib Null = Null"
| "jsonNorm lib (Bool b) = Bool b"
| "jsonNorm lib (Num n) = Num n"
| "jsonNorm lib (Str s) = Str s"
| "jsonNorm lib (Bytes bs) = Obj (zip (map natStr [0..<length bs]) (map (\<lambda>b. Num (of_nat (unat b))) bs))"
| "jsonNorm lib (CidV c) = jsonCid lib c"
| "jsonNorm lib (SidV s) = Obj [(''_type'', Num (of_nat (sid_type s))), (''_cid'', jsonCid lib (sid_cid s))]"
| "jsonNorm lib (Arr xs) = Arr (map (\<lambda>v. if v = Undef then Null else v) (map (jsonNorm lib) xs))"
| "jsonNorm lib (Obj fs) = Obj (filter (\<lambda>p. snd p \<noteq> Undef) (map (map_prod id (jsonNorm lib)) fs))"

fun jsonNum :: "onum \<Rightarrow> onum" where
  "jsonNum NNaN = NNull"
| "jsonNum n = n"

definition jsonState :: "text_lib \<Rightarrow> ser_state \<Rightarrow> ser_state" where
  "jsonState lib s = s\<lparr>ss_content := jsonNorm lib (ss_content s),
     ss_next := map_option (\<lambda>n. \<lparr>nx_content = jsonNorm lib (nx_content n),
                                  nx_metadata = jsonNorm lib (nx_metadata n)\<rparr>) (ss_next s),
     ss_metadata := jsonNorm lib (ss_metadata s), ss_anchorProof := jsonNorm lib (ss_anchorProof s),
     ss_log := map (\<lambda>e. e\<lparr>se_timestamp := jsonNum (se_timestamp e),
                            se_expiration := jsonNum (se_expiration e)\<rparr>) (ss_log s)\<rparr>"

definition statesEqual :: "text_lib \<Rightarrow> stream_state \<Rightarrow> stream_state \<Rightarrow> js_error + bool" where
  "statesEqual lib state1 state2 =
     bindR (serializeState lib state1) (\<lambda>s1.
     bindR (serializeState lib state2) (\<lambda>s2. Inr (jsonState lib s1 = jsonState lib s2)))"

section \<open>Converting back and forth\<close>

lemma setField_setField: "setField (setField fs k v) k w = setField fs k w"
  by (induction fs k v rule: setField.induct) auto

lemma setField_swap:
  "k \<noteq> l \<Longrightarrow> map_of fs k \<noteq> None \<Longrightarrow> map_of fs l \<noteq> None \<Longrightarrow>
   setField (setField fs k v) l w = setField (setField fs l w) k v"
  by (induction fs) auto

lemma setField_id: "map_of fs k = Some v \<Longrightarrow> setField fs k v = fs"
  by (induction fs) (auto split: if_splits)

lemma lookupField_present: "jsTruthy (lookupField fs k) \<Longrightarrow> map_of fs k = Some (lookupField fs k)"
  by (cases "map_of fs k") auto

lemma lookupField_Some: "map_of fs k = Some v \<Longrightarrow> lookupField fs k = v"
  by simp

lemma lookupField_cong: "map_of fs k = map_of gs k \<Longrightarrow> lookupField fs k = lookupField gs k"
  by simp

declare lookupField.simps [simp del]

lemma convProps_Obj_cases:
  "convProps ((f, k) # convs) (Obj fs) =
     (if jsTruthy (lookupField fs k)
      then bindR (f (lookupField fs k)) (\<lambda>w. convProps convs (Obj (setField fs k w)))
      else convProps convs (Obj fs))"
  by (simp add: bindR_assoc jsSetProp_def)

declare convProps.simps(2) [simp del]

text \<open>A conversion of other properties does not see, and keeps, a property it does not name.\<close>

lemma convProps_frame:
  "k \<notin> snd ` set convs \<Longrightarrow> map_of fs k \<noteq> None \<Longrightarrow>
   convProps convs (Obj (setField fs k v)) = bindR (convProps convs (Obj fs)) (\<lambda>obj. Inr (jsSetProp obj k v))"
proof (induction convs arbitrary: fs)
  case Nil
  then show ?case by (simp add: jsSetProp_def)
next
  case (Cons c convs)
  obtain f l where c: "c = (f, l)" by (cases c)
  with Cons.prems have kl: "k \<noteq> l" and k: "k \<notin> snd ` set convs" by auto
  show ?case
  proof (cases "jsTruthy (lookupField fs l)")
    case True
    from lookupField_present [OF this] have l: "map_of fs l \<noteq> None" by simp
    have "convProps convs (Obj (setField (setField fs k v) l w)) =
        bindR (convProps convs (Obj (setField fs l w))) (\<lambda>obj. Inr (jsSetProp obj k v))" for w
      using Cons.IH [OF k, of "setField fs l w"] Cons.prems(2) kl
      by (simp add: setField_swap [OF kl Cons.prems(2) l] map_of_setField)
    with True kl show ?thesis by (simp add: c convProps_Obj_cases bindR_assoc)
  next
    case False
    with Cons.IH [OF k Cons.prems(2)] kl show ?thesis by (simp add: c convProps_Obj_cases)
  qed
qed

lemma convProps_keeps:
  "convProps convs (Obj fs) = Inr obj \<Longrightarrow> k \<notin> snd ` set convs \<Longrightarrow>
   \<exists>gs. obj = Obj gs \<and> map_of gs k = map_of fs k"
proof (induction convs arbitrary: fs)
  case (Cons c convs)
  obtain f l where c: "c = (f, l)" by (cases c)
  with Cons.prems(2) have kl: "k \<noteq> l" "k \<notin> snd ` set convs" by auto
  from Cons.prems(1) Cons.IH [OF _ kl(2)] kl(1) show ?case
    by (force simp: c convProps_Obj_cases bindR_Inr_iff map_of_setField split: if_splits)
qed auto

text \<open>\<open>g\<close> undoes \<open>f\<close> on the value \<open>v\<close>, and neither of the two values is falsy.\<close>

definition undoes :: "(js \<Rightarrow> js_error + js) \<Rightarrow> (js \<Rightarrow> js_error + js) \<Rightarrow> js \<Rightarrow> bool" where
  "undoes g f v \<longleftrightarrow> (\<exists>w. f v = Inr w \<and> jsTruthy w \<and> g w = Inr v)"

text \<open>The same properties are falsy in both, with the same value.\<close>

definition sameShape :: "(string \<times> js) list \<Rightarrow> (string \<times> js) list \<Rightarrow> bool" where
  "sameShape fs gs \<longleftrightarrow> (\<forall>l. if jsTruthy (lookupField fs l) then jsTruthy (lookupField gs l)
     else lookupField gs l = lookupField fs l)"

lemma convProps_roundtrip:
  assumes "distinct (map snd convs)" and "map snd backs = map snd convs"
    and "\<And>f g k. ((f, k), (g, k)) \<in> set (zip convs backs) \<Longrightarrow> jsTruthy (lookupField fs k) \<Longrightarrow>
      undoes g f (lookupField fs k)"
  shows "\<exists>gs. convProps convs (Obj fs) = Inr (Obj gs) \<and> convProps backs (Obj gs) = Inr (Obj fs) \<and>
    sameShape fs gs"
  using assms
proof (induction convs arbitrary: backs fs)
  case (Cons c convs)
  obtain f k where c: "c = (f, k)" by (cases c)
  from Cons.prems(2) c obtain g backs' where b: "backs = (g, k) # backs'" and bk: "map snd backs' = map snd convs"
    by (cases backs) auto
  have fresh: "k \<notin> snd ` set convs" "k \<notin> snd ` set backs'" "distinct (map snd convs)"
    using Cons.prems(1) bk by (auto simp: c simp flip: set_map)
  have und: "undoes g' f' (lookupField fs l)"
    if "((f', l), (g', l)) \<in> set (zip convs backs')" "jsTruthy (lookupField fs l)" for f' g' l
    using Cons.prems(3) that by (simp add: b c)
  show ?case
  proof (cases "jsTruthy (lookupField fs k)")
    case True
    with Cons.prems(3) [of f k g] obtain w where w: "f (lookupField fs k) = Inr w" "jsTruthy w"
      "g w = Inr (lookupField fs k)" by (auto simp: b c undoes_def)
    have "\<exists>gs. convProps convs (Obj (setField fs k w)) = Inr (Obj gs) \<and>
        convProps backs' (Obj gs) = Inr (Obj (setField fs k w)) \<and> sameShape (setField fs k w) gs"
    proof (rule Cons.IH [OF fresh(3) bk])
      fix f' g' l
      assume z: "((f', l), (g', l)) \<in> set (zip convs backs')" and t: "jsTruthy (lookupField (setField fs k w) l)"
      from z have "l \<in> snd ` set convs" by (force dest: set_zip_leftD)
      with fresh(1) have "l \<noteq> k" by auto
      with z t und show "undoes g' f' (lookupField (setField fs k w) l)" by auto
    qed
    then obtain gs where gs: "convProps convs (Obj (setField fs k w)) = Inr (Obj gs)"
      "convProps backs' (Obj gs) = Inr (Obj (setField fs k w))" "sameShape (setField fs k w) gs" by blast
    from convProps_keeps [OF gs(1) fresh(1)] have k: "map_of gs k = Some w" by (simp add: map_of_setField)
    note lk = lookupField_Some [OF k]
    have "convProps backs' (Obj (setField gs k (lookupField fs k))) =
        Inr (Obj (setField (setField fs k w) k (lookupField fs k)))"
      using convProps_frame [OF fresh(2), of gs] k gs(2) by (simp add: jsSetProp_def)
    moreover have "setField (setField fs k w) k (lookupField fs k) = fs"
      using lookupField_present [OF True] by (simp only: setField_setField setField_id)
    moreover have "sameShape fs gs"
      using gs(3) True w(2) by (auto simp: sameShape_def split: if_splits)
    ultimately show ?thesis using True w gs(1) lk by (simp add: b c convProps_Obj_cases)
  next
    case False
    from Cons.IH [OF fresh(3) bk und] obtain gs where gs: "convProps convs (Obj fs) = Inr (Obj gs)"
      "convProps backs' (Obj gs) = Inr (Obj fs)" "sameShape fs gs" by blast
    from convProps_keeps [OF gs(1) fresh(1)] have "map_of gs k = map_of fs k" by simp
    with False have "\<not> jsTruthy (lookupField gs k)" using lookupField_cong by metis
    with gs False show ?thesis by (simp add: b c convProps_Obj_cases)
  qed
qed (simp add: sameShape_def)

section \<open>States that survive serialization\<close>

text \<open>
  The shapes the code gives these properties: \<open>model\<close> and \<open>context\<close> are StreamIDs over version 1
  CIDs, \<open>unique\<close> is a byte array, which must not be empty (the code takes its empty base64 text for an
  absent value), and the anchor proof has CIDs.
\<close>

definition streamIdProp :: "codec_lib \<Rightarrow> js \<Rightarrow> bool" where
  "streamIdProp lib v \<longleftrightarrow> \<not> jsTruthy v \<or> (\<exists>sid. v = SidV sid \<and> sid_type sid < maxSafe \<and> isCidV1 lib (sid_cid sid))"

definition uniqueProp :: "js \<Rightarrow> bool" where
  "uniqueProp v \<longleftrightarrow> \<not> jsTruthy v \<or> (\<exists>bs. v = Bytes bs \<and> bs \<noteq> [])"

definition proofOk :: "js \<Rightarrow> bool" where
  "proofOk v \<longleftrightarrow> jsNullish v \<or> (\<exists>fs c d. v = Obj fs \<and> map_of fs ''txHash'' = Some (CidV c) \<and>
     map_of fs ''root'' = Some (CidV d))"

definition serializable :: "codec_lib \<Rightarrow> stream_state \<Rightarrow> bool" where
  "serializable lib s \<longleftrightarrow> (\<exists>name. nameByCode (st_type s) = Inr name) \<and>
     st_anchorStatus s \<noteq> ANCHOR_UNDEFINED \<and> proofOk (st_anchorProof s) \<and>
     (jsNullish (st_metadata s) \<or> (\<exists>fs. st_metadata s = Obj fs \<and>
        streamIdProp lib (lookupField fs ''model'') \<and> streamIdProp lib (lookupField fs ''context'') \<and>
        (st_type s \<noteq> TILE_TYPE_ID \<longrightarrow> uniqueProp (lookupField fs ''unique''))))"

lemma codeByName_nameByCode: "nameByCode n = Inr name \<Longrightarrow> codeByName name = Inr n \<and> name \<noteq> []"
  by (auto simp: nameByCode_def codeByName_def registry_def split: if_splits)

lemma cidToString_nonempty: "codec_lib_ok lib \<Longrightarrow> cidToString lib c \<noteq> []"
  by (simp add: codec_lib_ok_def)

lemma anchorStatus_roundtrip:
  "a \<noteq> ANCHOR_UNDEFINED \<Longrightarrow>
   (case map_of anchorStatusNames a of Some name \<Rightarrow> anchorStatusByName name | None \<Rightarrow> ANCHOR_UNDEFINED) = a"
  by (cases a) (simp_all add: anchorStatusNames_def anchorStatusByName_def)

lemma undoes_cid: "text_lib_ok lib \<Longrightarrow> undoes (jsToCid lib) (cidToJs lib) (CidV c)"
  by (simp add: undoes_def cidToJs_def jsToCid_def text_lib_ok_def codec_lib_ok_def)

lemma undoes_base64: "text_lib_ok lib \<Longrightarrow> bs \<noteq> [] \<Longrightarrow> undoes (fromBase64 lib) (toBase64 lib) (Bytes bs)"
  by (simp add: undoes_def text_lib_ok_def)

lemma undoes_unique:
  "text_lib_ok lib \<Longrightarrow> uniqueProp v \<Longrightarrow> jsTruthy v \<Longrightarrow> undoes (fromBase64 lib) (uniqueToBase64 lib) v"
  by (auto simp: uniqueProp_def undoes_def uniqueToBase64_def text_lib_ok_def)

lemma streamIDFromString_roundtrip:
  assumes "codec_lib_ok lib" and "sid_type sid < maxSafe" and "isCidV1 lib (sid_cid sid)"
  shows "streamIDFromString lib (streamIDToString lib sid) = Inr sid"
  using parseString_plain [OF assms(1) parseBytes_streamIDBytes [OF assms]]
  by (simp add: streamIDFromString_def streamIDToString_def)

lemma undoes_streamId:
  assumes "text_lib_ok lib" and "streamIdProp (tl_codec lib) v" and "jsTruthy v"
  shows "undoes (jsToStreamID lib) (cidToJs lib) v"
proof -
  from assms(2,3) obtain sid where v: "v = SidV sid" "sid_type sid < maxSafe"
    "isCidV1 (tl_codec lib) (sid_cid sid)" by (auto simp: streamIdProp_def)
  from assms(1) have lib: "codec_lib_ok (tl_codec lib)" by (simp add: text_lib_ok_def)
  have p: "streamIDFromString (tl_codec lib) (streamIDToString (tl_codec lib) sid) = Inr sid"
    using streamIDFromString_roundtrip [OF lib v(2,3)] .
  have "streamIDToString (tl_codec lib) sid \<noteq> []"
    using lib by (simp add: streamIDToString_def codec_lib_ok_def)
  with p v show ?thesis by (simp add: undoes_def cidToJs_def)
qed

lemma entries_roundtrip:
  "text_lib_ok lib \<Longrightarrow> mapR (deserializeEntry lib) (map (serializeEntry lib) es) = Inr es"
  by (induction es) (simp_all add: deserializeEntry_def serializeEntry_def text_lib_ok_def codec_lib_ok_def)

lemma proof_roundtrip:
  assumes "text_lib_ok lib" and "proofOk v"
  shows "\<exists>w. (if jsNullish v then Inr v
        else bindR (assignProp (cidToJs lib) ''txHash'' v) (assignProp (cidToJs lib) ''root'')) = Inr w \<and>
      (if \<not> jsTruthy w then Inr w
        else bindR (assignProp (jsToCid lib) ''txHash'' w) (assignProp (jsToCid lib) ''root'')) = Inr v"
proof (cases "jsNullish v")
  case True
  then show ?thesis by (cases v) auto
next
  case False
  with assms(2) obtain fs c d where v: "v = Obj fs" and c: "map_of fs ''txHash'' = Some (CidV c)"
    and d: "map_of fs ''root'' = Some (CidV d)" by (auto simp: proofOk_def)
  let ?h = "Str (cidToString (tl_codec lib) c)" and ?r = "Str (cidToString (tl_codec lib) d)"
  let ?gs = "setField (setField fs ''txHash'' ?h) ''root'' ?r"
  have to: "bindR (assignProp (cidToJs lib) ''txHash'' v) (assignProp (cidToJs lib) ''root'') = Inr (Obj ?gs)"
    using lookupField_Some [OF c] lookupField_Some [OF d] by (simp add: v assignProp_def cidToJs_def jsSetProp_def)
  have "setField (setField ?gs ''txHash'' (CidV c)) ''root'' (CidV d) = fs"
    using c d by (simp add: setField_swap [of "''root''" "''txHash''"] setField_setField setField_id map_of_setField)
  then have "bindR (assignProp (jsToCid lib) ''txHash'' (Obj ?gs)) (assignProp (jsToCid lib) ''root'') = Inr v"
    using assms(1) by (simp add: v assignProp_def jsToCid_def jsSetProp_def text_lib_ok_def codec_lib_ok_def)
  with to False show ?thesis by simp
qed


section \<open>Commits that survive serialization\<close>

definition cidProp :: "js \<Rightarrow> bool" where
  "cidProp v \<longleftrightarrow> \<not> jsTruthy v \<or> (\<exists>c. v = CidV c)"

definition commitShape :: "(string \<times> js) list \<Rightarrow> bool" where
  "commitShape fs \<longleftrightarrow> lookupField fs ''jws'' = Undef \<and>
     (\<forall>k \<in> {''link'', ''proof''}. lookupField fs k = Undef \<or> (\<exists>c. lookupField fs k = CidV c)) \<and>
     cidProp (lookupField fs ''id'') \<and> cidProp (lookupField fs ''prev'') \<and>
     (jsNullish (lookupField fs ''header'') \<or> (\<exists>hs. lookupField fs ''header'' = Obj hs \<and>
        (\<forall>k \<in> {''model'', ''context'', ''unique''}. uniqueProp (lookupField hs k))))"

definition containerShape :: "(string \<times> js) list \<Rightarrow> bool" where
  "containerShape fs \<longleftrightarrow> (\<exists>js c bs. map_of fs ''jws'' = Some (Obj js) \<and> map_of js ''link'' = Some (CidV c) \<and>
     map_of fs ''linkedBlock'' = Some (Bytes bs)) \<and> uniqueProp (lookupField fs ''cacaoBlock'')"

lemma assignProp_convProps:
  "jsTruthy (lookupField fs k) \<Longrightarrow> assignProp f k (Obj fs) = convProps [(f, k)] (Obj fs)"
  by (simp add: assignProp_def convProps_Obj_cases jsSetProp_def)

lemma convProps_append: "convProps (xs @ ys) obj = bindR (convProps xs obj) (convProps ys)"
proof (induction xs arbitrary: obj)
  case (Cons x xs)
  from Cons.IH have "convProps (xs @ ys) = (\<lambda>obj. bindR (convProps xs obj) (convProps ys))" by (rule ext)
  then show ?case by (cases x) (simp add: convProps.simps(2) bindR_assoc)
qed simp

text \<open>
  A commit that is no container is converted property by property, if its \<open>link\<close> and its \<open>proof\<close> are
  absent or truthy.
\<close>

definition headerConvs :: "(js \<Rightarrow> js_error + js) \<Rightarrow> ((js \<Rightarrow> js_error + js) \<times> string) list" where
  "headerConvs bytesConv = [(bytesConv, ''model''), (bytesConv, ''context''), (bytesConv, ''unique'')]"

definition cidConvs :: "(js \<Rightarrow> js_error + js) \<Rightarrow> ((js \<Rightarrow> js_error + js) \<times> string) list" where
  "cidConvs cidConv = [(cidConv, ''link''), (cidConv, ''proof''), (cidConv, ''id''), (cidConv, ''prev'')]"

definition absentOrTruthy :: "(string \<times> js) list \<Rightarrow> string \<Rightarrow> bool" where
  "absentOrTruthy fs k \<longleftrightarrow> lookupField fs k = Undef \<or> jsTruthy (lookupField fs k)"

lemma assign_if_present:
  "absentOrTruthy fs k \<Longrightarrow>
   (if lookupField fs k \<noteq> Undef then assignProp f k (Obj fs) else Inr (Obj fs)) = convProps [(f, k)] (Obj fs)"
  by (auto simp: absentOrTruthy_def assignProp_convProps convProps_Obj_cases)

lemma convCommit_Obj:
  assumes "lookupField fs ''jws'' = Undef" and "absentOrTruthy fs ''link''" and "absentOrTruthy fs ''proof''"
  shows "convCommit cidConv bytesConv (Obj fs) =
    bindR (convProps (cidConvs cidConv) (Obj fs)) (\<lambda>c.
    bindR (convOpt (headerConvs bytesConv) (lookupField fs ''header'')) (\<lambda>header'.
    Inr (if jsNullish (lookupField fs ''header'') then c else jsSetProp c ''header'' header')))"
proof -
  have flags: "isSignedCommitContainer (Obj fs) = Inr False" "isSignedCommit (Obj fs) = Inr (lookupField fs ''link'' \<noteq> Undef)"
    using assms(1) by (simp_all add: isSignedCommitContainer_def isSignedCommit_def)
  have anchor: "bindR (isAnchorCommit c1) (\<lambda>b. bindR (if b then assignProp cidConv ''proof'' c1 else Inr c1) k)
      = bindR (convProps [(cidConv, ''proof'')] c1) k"
    if "convProps [(cidConv, ''link'')] (Obj fs) = Inr c1" for c1 k
  proof -
    from convProps_keeps [OF that, of "''proof''"] obtain gs where gs: "c1 = Obj gs"
      "map_of gs ''proof'' = map_of fs ''proof''" by auto
    from gs(2) lookupField_cong assms(3) have "absentOrTruthy gs ''proof''" by (metis absentOrTruthy_def)
    from assign_if_present [OF this, of cidConv] show ?thesis
      by (cases "lookupField gs ''proof'' = Undef") (simp_all add: gs(1) isAnchorCommit_def)
  qed
  have header: "jsGet c3 ''header'' = Inr (lookupField fs ''header'')"
    if "convProps (cidConvs cidConv) (Obj fs) = Inr c3" for c3
  proof -
    from convProps_keeps [OF that, of "''header''"] obtain gs where "c3 = Obj gs"
      "map_of gs ''header'' = map_of fs ''header''" by (auto simp: cidConvs_def)
    then show ?thesis by (simp only: jsGet.simps lookupField_cong [of gs "''header''" fs])
  qed
  have split: "convProps (cidConvs cidConv) (Obj fs) =
      bindR (convProps [(cidConv, ''link'')] (Obj fs)) (\<lambda>c1. bindR (convProps [(cidConv, ''proof'')] c1)
        (convProps [(cidConv, ''id''), (cidConv, ''prev'')]))"
  proof -
    have "cidConvs cidConv = [(cidConv, ''link'')] @ [(cidConv, ''proof'')] @ [(cidConv, ''id''), (cidConv, ''prev'')]"
      by (simp add: cidConvs_def)
    moreover have "convProps (xs @ ys) = (\<lambda>c1. bindR (convProps xs c1) (convProps ys))" for xs ys
      by (rule ext) (rule convProps_append)
    ultimately show ?thesis by (simp only:)
  qed
  have "convCommit cidConv bytesConv (Obj fs) =
      bindR (convProps [(cidConv, ''link'')] (Obj fs)) (\<lambda>c1. bindR (convProps [(cidConv, ''proof'')] c1) (\<lambda>c2.
      bindR (convProps [(cidConv, ''id''), (cidConv, ''prev'')] c2) (\<lambda>c3. bindR (jsGet c3 ''header'') (\<lambda>header.
      bindR (convOpt (headerConvs bytesConv) header) (\<lambda>header'.
      Inr (if jsNullish header then c3 else jsSetProp c3 ''header'' header'))))))"
    unfolding convCommit_def flags headerConvs_def
    by (simp only: bindR_simps if_False assign_if_present [OF assms(2)]) (rule bindR_cong [OF refl], rule anchor)
  also have "\<dots> = bindR (convProps (cidConvs cidConv) (Obj fs)) (\<lambda>c3. bindR (jsGet c3 ''header'') (\<lambda>header.
      bindR (convOpt (headerConvs bytesConv) header) (\<lambda>header'.
      Inr (if jsNullish header then c3 else jsSetProp c3 ''header'' header'))))"
    by (simp only: split bindR_assoc)
  also have "\<dots> = bindR (convProps (cidConvs cidConv) (Obj fs)) (\<lambda>c.
      bindR (convOpt (headerConvs bytesConv) (lookupField fs ''header'')) (\<lambda>header'.
      Inr (if jsNullish (lookupField fs ''header'') then c else jsSetProp c ''header'' header')))"
    by (rule bindR_cong [OF refl]) (simp only: header bindR_simps)
  finally show ?thesis .
qed

lemma commitShape_roundtrip:
  assumes "text_lib_ok lib" and "commitShape fs"
  shows "\<exists>ser. serializeCommit lib (Obj fs) = Inr ser \<and> deserializeCommit lib ser = Inr (Obj fs)"
proof -
  let ?h = "lookupField fs ''header''"
  from assms(2) have shape: "lookupField fs ''jws'' = Undef" "absentOrTruthy fs ''link''" "absentOrTruthy fs ''proof''"
    by (auto simp: commitShape_def absentOrTruthy_def)
  have "undoes (jsToCid lib) (cidToJs lib) (lookupField fs k)"
    if "jsTruthy (lookupField fs k)" "k \<in> {''link'', ''proof'', ''id'', ''prev''}" for k
    using that assms(2) undoes_cid [OF assms(1)] by (auto simp: commitShape_def cidProp_def)
  then have "\<exists>gs. convProps (cidConvs (cidToJs lib)) (Obj fs) = Inr (Obj gs) \<and>
      convProps (cidConvs (jsToCid lib)) (Obj gs) = Inr (Obj fs) \<and> sameShape fs gs"
    by (intro convProps_roundtrip) (auto simp: cidConvs_def)
  then obtain gs where gs: "convProps (cidConvs (cidToJs lib)) (Obj fs) = Inr (Obj gs)"
    "convProps (cidConvs (jsToCid lib)) (Obj gs) = Inr (Obj fs)" "sameShape fs gs" by blast
  have shape': "lookupField gs' ''jws'' = Undef \<and> absentOrTruthy gs' ''link'' \<and> absentOrTruthy gs' ''proof''"
    if "\<forall>k \<in> {''jws'', ''link'', ''proof''}. lookupField gs' k = lookupField gs k" for gs'
    using that gs(3) shape unfolding sameShape_def absentOrTruthy_def by (auto split: if_splits)
  show ?thesis
  proof (cases "jsNullish ?h")
    case True
    from True gs(3) have "lookupField gs ''header'' = ?h"
      unfolding sameShape_def by (metis jsTruthy_not_nullish)
    with True gs shape' [of gs] show ?thesis
      by (simp add: serializeCommit_def deserializeCommit_def convCommit_Obj shape convOpt_def)
  next
    case False
    with assms(2) obtain hs where hs: "?h = Obj hs"
      "\<forall>k \<in> {''model'', ''context'', ''unique''}. uniqueProp (lookupField hs k)" by (auto simp: commitShape_def)
    have "undoes (fromBase64 lib) (toBase64 lib) (lookupField hs k)"
      if "jsTruthy (lookupField hs k)" "k \<in> {''model'', ''context'', ''unique''}" for k
      using that hs(2) undoes_base64 [OF assms(1)] by (auto simp: uniqueProp_def)
    then have "\<exists>hs'. convProps (headerConvs (toBase64 lib)) (Obj hs) = Inr (Obj hs') \<and>
        convProps (headerConvs (fromBase64 lib)) (Obj hs') = Inr (Obj hs) \<and> sameShape hs hs'"
      by (intro convProps_roundtrip) (auto simp: headerConvs_def)
    then obtain hs' where hs': "convProps (headerConvs (toBase64 lib)) (Obj hs) = Inr (Obj hs')"
      "convProps (headerConvs (fromBase64 lib)) (Obj hs') = Inr (Obj hs)" by blast
    from convProps_keeps [OF gs(1), of "''header''"] lookupField_present [of fs "''header''"] hs(1)
    have present: "map_of gs ''header'' = Some (Obj hs)" "map_of fs ''header'' = Some (Obj hs)"
      by (auto simp: cidConvs_def)
    let ?ser = "setField gs ''header'' (Obj hs')"
    have ser: "serializeCommit lib (Obj fs) = Inr (Obj ?ser)"
      using False by (simp add: serializeCommit_def convCommit_Obj shape gs(1) hs(1) convOpt_def hs'(1) jsSetProp_def)
    have "convProps (cidConvs (jsToCid lib)) (Obj ?ser) = Inr (Obj (setField fs ''header'' (Obj hs')))"
      using convProps_frame [of "''header''" "cidConvs (jsToCid lib)" gs] present(1) gs(2)
      by (simp add: cidConvs_def jsSetProp_def)
    moreover have "setField (setField fs ''header'' (Obj hs')) ''header'' (Obj hs) = fs"
      using present(2) by (simp add: setField_setField setField_id)
    ultimately have "deserializeCommit lib (Obj ?ser) = Inr (Obj fs)"
      using shape' [of ?ser] by (simp add: deserializeCommit_def convCommit_Obj convOpt_def hs'(2) jsSetProp_def)
    with ser show ?thesis by blast
  qed
qed

text \<open>A container: the JWS with its link, and the blocks.\<close>

lemma assignProp_Inr:
  "lookupField fs k = v \<Longrightarrow> f v = Inr w \<Longrightarrow> assignProp f k (Obj fs) = Inr (Obj (setField fs k w))"
  by (simp add: assignProp_def jsSetProp_def)

lemma containerShape_roundtrip:
  assumes "text_lib_ok lib" and "containerShape fs"
  shows "\<exists>ser. serializeCommit lib (Obj fs) = Inr ser \<and> deserializeCommit lib ser = Inr (Obj fs)"
proof -
  from assms(2) obtain js c bs where f: "map_of fs ''jws'' = Some (Obj js)" "map_of js ''link'' = Some (CidV c)"
    "map_of fs ''linkedBlock'' = Some (Bytes bs)" and cacao: "uniqueProp (lookupField fs ''cacaoBlock'')"
    by (auto simp: containerShape_def)
  let ?l = "Str (cidToString (tl_codec lib) c)" and ?b = "Str (tl_base64Encode lib bs)"
  let ?js = "setField js ''link'' ?l"
  let ?g = "setField (setField fs ''jws'' (Obj ?js)) ''linkedBlock'' ?b"
  have flag: "isSignedCommitContainer (Obj hs) = Inr True" if "map_of hs ''jws'' = Some (Obj x)" for hs x
    using that by (simp add: isSignedCommitContainer_def lookupField_Some)
  have u: "undoes (fromBase64 lib) (toBase64 lib) (lookupField ?g ''cacaoBlock'')"
    if "jsTruthy (lookupField ?g ''cacaoBlock'')"
    using that cacao undoes_base64 [OF assms(1)] by (auto simp: uniqueProp_def)
  have "\<exists>gs. convProps [(toBase64 lib, ''cacaoBlock'')] (Obj ?g) = Inr (Obj gs) \<and>
      convProps [(fromBase64 lib, ''cacaoBlock'')] (Obj gs) = Inr (Obj ?g) \<and> sameShape ?g gs"
    by (rule convProps_roundtrip) (use u in auto)
  then obtain gs where gs: "convProps [(toBase64 lib, ''cacaoBlock'')] (Obj ?g) = Inr (Obj gs)"
    "convProps [(fromBase64 lib, ''cacaoBlock'')] (Obj gs) = Inr (Obj ?g)" by blast
  from convProps_keeps [OF gs(1), of "''jws''"] convProps_keeps [OF gs(1), of "''linkedBlock''"]
  have keep: "map_of gs ''jws'' = Some (Obj ?js)" "map_of gs ''linkedBlock'' = Some ?b"
    by (auto simp: map_of_setField)
  have ser: "serializeCommit lib (Obj fs) = Inr (Obj gs)"
    by (simp add: serializeCommit_def convCommit_def convContainer_def flag [OF f(1)]
        assignProp_Inr [OF lookupField_Some [OF f(1)]] assignProp_Inr [OF lookupField_Some [OF f(2)]]
        assignProp_Inr [of _ _ "Bytes bs"] lookupField_Some [OF f(3)] cidToJs_def gs(1))
  let ?g1 = "setField gs ''jws'' (Obj js)"
  have js: "assignProp (jsToCid lib) ''link'' (Obj ?js) = Inr (Obj js)"
    using assms(1) f(2) by (simp add: assignProp_Inr [of _ _ ?l] jsToCid_def text_lib_ok_def codec_lib_ok_def
        setField_setField setField_id)
  have "assignProp (assignProp (jsToCid lib) ''link'') ''jws'' (Obj gs) = Inr (Obj ?g1)"
    using assignProp_Inr [OF lookupField_Some [OF keep(1)]] js by simp
  moreover have "assignProp (fromBase64 lib) ''linkedBlock'' (Obj ?g1) = Inr (Obj (setField ?g1 ''linkedBlock'' (Bytes bs)))"
    using assms(1) by (intro assignProp_Inr [of _ _ ?b]) (simp_all add: lookupField_Some [OF keep(2)] text_lib_ok_def)
  moreover have "convProps [(fromBase64 lib, ''cacaoBlock'')] (Obj (setField ?g1 ''linkedBlock'' (Bytes bs))) = Inr (Obj fs)"
  proof -
    have "setField (setField ?g ''jws'' (Obj js)) ''linkedBlock'' (Bytes bs) = fs"
      using f by (simp add: setField_swap [of "''linkedBlock''" "''jws''"] setField_setField setField_id map_of_setField)
    with keep gs(2) show ?thesis by (simp add: convProps_frame map_of_setField jsSetProp_def)
  qed
  ultimately have "deserializeCommit lib (Obj gs) = Inr (Obj fs)"
    by (simp add: deserializeCommit_def convCommit_def convContainer_def flag [OF keep(1)])
  with ser show ?thesis by blast
qed

lemma deserialize_serialize:
  assumes "text_lib_ok lib" and "serializable (tl_codec lib) s"
  shows "\<exists>ser. serializeState lib s = Inr ser \<and> deserializeState lib (Some ser) = Inr (Some s)"
proof -
  obtain name where name: "nameByCode (st_type s) = Inr name" using assms(2) by (auto simp: serializable_def)
  obtain w where w: "(if jsNullish (st_anchorProof s) then Inr (st_anchorProof s)
        else bindR (assignProp (cidToJs lib) ''txHash'' (st_anchorProof s)) (assignProp (cidToJs lib) ''root'')) = Inr w"
    "(if \<not> jsTruthy w then Inr w
        else bindR (assignProp (jsToCid lib) ''txHash'' w) (assignProp (jsToCid lib) ''root'')) = Inr (st_anchorProof s)"
    using proof_roundtrip [OF assms(1)] assms(2) by (auto simp: serializable_def)
  let ?to = "[(cidToJs lib, ''model''), (cidToJs lib, ''context'')]
    @ (if st_type s \<noteq> TILE_TYPE_ID then [(uniqueToBase64 lib, ''unique'')] else [])"
  let ?from = "[(jsToStreamID lib, ''model''), (jsToStreamID lib, ''context'')]
    @ (if st_type s \<noteq> TILE_TYPE_ID then [(fromBase64 lib, ''unique'')] else [])"
  have "\<exists>m. convOpt ?to (st_metadata s) = Inr m \<and> convOpt ?from m = Inr (st_metadata s)"
  proof (cases "jsNullish (st_metadata s)")
    case False
    with assms(2) obtain fs where fs: "st_metadata s = Obj fs" "streamIdProp (tl_codec lib) (lookupField fs ''model'')"
      "streamIdProp (tl_codec lib) (lookupField fs ''context'')"
      "st_type s \<noteq> TILE_TYPE_ID \<Longrightarrow> uniqueProp (lookupField fs ''unique'')" by (auto simp: serializable_def)
    have "\<exists>gs. convProps ?to (Obj fs) = Inr (Obj gs) \<and> convProps ?from (Obj gs) = Inr (Obj fs)"
      by (rule exE [OF convProps_roundtrip [of ?to ?from fs]])
        (use fs(2-4) undoes_streamId [OF assms(1)] undoes_unique [OF assms(1)] in \<open>auto split: if_splits\<close>)
    with fs(1) show ?thesis by (auto simp: convOpt_def)
  qed (auto simp: convOpt_def)
  then obtain m where m: "convOpt ?to (st_metadata s) = Inr m" "convOpt ?from m = Inr (st_metadata s)" by blast
  from anchorStatus_roundtrip have status: "(case map_of anchorStatusNames (st_anchorStatus s) of
      Some name \<Rightarrow> anchorStatusByName name | None \<Rightarrow> ANCHOR_UNDEFINED) = st_anchorStatus s"
    using assms(2) by (simp add: serializable_def)
  define ser where "ser = \<lparr>ss_type = st_type s, ss_content = st_content s, ss_next = st_next s,
    ss_metadata = m, ss_signature = st_signature s,
    ss_anchorStatus = map_of anchorStatusNames (st_anchorStatus s), ss_anchorProof = w,
    ss_log = map (serializeEntry lib) (st_log s), ss_doctype = Some name\<rparr>"
  have "serializeState lib s = Inr ser"
    by (simp only: serializeState_def w(1) m(1) name bindR_simps ser_def)
  moreover have "deserializeState lib (Some ser) = Inr (Some s)"
    using status codeByName_nameByCode [OF name] entries_roundtrip [OF assms(1)] w(2) m(2)
    by (cases "jsTruthy w") (simp_all add: deserializeState_def ser_def del: append.simps)
  ultimately show ?thesis by blast
qed

text \<open>Whatever the content and the metadata, the type and the log survive if anything is read back.\<close>

lemma deserialize_log:
  assumes "text_lib_ok lib" and "serializeState lib s = Inr ser" and "deserializeState lib (Some ser) = Inr (Some s')"
  shows "st_log s' = st_log s" and "st_type s' = st_type s"
proof -
  from assms(2) obtain name where ser: "ss_log ser = map (serializeEntry lib) (st_log s)"
    "ss_doctype ser = Some name" "nameByCode (st_type s) = Inr name"
    unfolding serializeState_def bindR_Inr_iff by auto
  with codeByName_nameByCode [OF ser(3)] assms(3) entries_roundtrip [OF assms(1)]
  show "st_log s' = st_log s" and "st_type s' = st_type s"
    unfolding deserializeState_def by (auto simp: bindR_Inr_iff)
qed

section \<open>Properties\<close>

text \<open>
  C21: What a node writes about a stream it reads back: a serialized state deserializes to the state
  itself, whatever its content, its log, its anchor proof and its metadata, if these have the shapes
  the code gives them.
\<close>

theorem state_roundtrip:
  assumes "text_lib_ok lib" and "serializable (tl_codec lib) s"
  shows "\<exists>ser. serializeState lib s = Inr ser \<and> deserializeState lib (Some ser) = Inr (Some s)"
  by (rule deserialize_serialize [OF assms])

definition sampleTextLib :: text_lib where
  "sampleTextLib = \<lparr>tl_codec = sampleLib, tl_base64Encode = letters, tl_base64Decode = unletters,
     tl_cidDecode = (\<lambda>bs. Inr (CID bs))\<rparr>"

lemma sampleTextLib_ok: "text_lib_ok sampleTextLib"
  unfolding text_lib_ok_def
  by (auto simp: sampleTextLib_def sampleLib_ok unletters_letters neq_Nil_conv)

definition sampleMidState :: stream_state where
  "sampleMidState = \<lparr>st_type = 3, st_content = Obj [(''a'', Num 1)], st_next = None,
     st_metadata = Obj [(''controllers'', Arr [Str ''did:a'']), (''model'', SidV (StreamID 2 (sampleCid [7]))),
       (''unique'', Bytes [1, 2])],
     st_signature = SIGNED, st_anchorStatus = ANCHORED,
     st_anchorProof = Obj [(''root'', CidV (CID [5])), (''txHash'', CidV (CID [6]))],
     st_log = [sampleEntry (CID [1]) INIT (NVal 9), sampleEntry (CID [2]) TIME (NVal 9)]\<rparr>"

theorem state_roundtrip_witness:
  "\<exists>ser. serializeState sampleTextLib sampleMidState = Inr ser \<and> ss_doctype ser = Some ''MID'' \<and>
     deserializeState sampleTextLib (Some ser) = Inr (Some sampleMidState)"
proof -
  have "isCidV1 sampleLib (sampleCid [7])" by (rule sampleCid_v1) (simp add: maxSafe_def)
  then have "serializable (tl_codec sampleTextLib) sampleMidState"
    by (simp add: serializable_def sampleMidState_def sampleTextLib_def nameByCode_def registry_def proofOk_def
        streamIdProp_def uniqueProp_def lookupField.simps maxSafe_def)
  from state_roundtrip [OF sampleTextLib_ok this] obtain ser where
    "serializeState sampleTextLib sampleMidState = Inr ser"
    "deserializeState sampleTextLib (Some ser) = Inr (Some sampleMidState)" by blast
  moreover from this(1) have "ss_doctype ser = Some ''MID''"
    by (auto simp: serializeState_def res_simps sampleMidState_def nameByCode_def registry_def)
  ultimately show ?thesis by blast
qed

text \<open>
  A commit survives its way over the wire: a genesis, data or anchor commit whose links are CIDs,
  and a container of a JWS with its linked block, is read back as it was written.
\<close>

theorem commit_roundtrip:
  assumes "text_lib_ok lib" and "commitShape fs \<or> containerShape fs"
  shows "\<exists>ser. serializeCommit lib (Obj fs) = Inr ser \<and> deserializeCommit lib ser = Inr (Obj fs)"
  using assms(2) commitShape_roundtrip [OF assms(1)] containerShape_roundtrip [OF assms(1)] by blast

theorem commit_roundtrip_witness:
  "\<exists>ser. serializeCommit sampleTextLib (Obj [(''id'', CidV (CID [1])), (''prev'', CidV (CID [2])), (''data'', Null),
       (''header'', Obj [(''model'', Bytes [7])])]) = Inr ser \<and>
     deserializeCommit sampleTextLib ser = Inr (Obj [(''id'', CidV (CID [1])), (''prev'', CidV (CID [2])),
       (''data'', Null), (''header'', Obj [(''model'', Bytes [7])])])"
  by (rule commit_roundtrip [OF sampleTextLib_ok])
    (simp add: commitShape_def lookupField.simps cidProp_def uniqueProp_def)

end
