(* ===== verification/Effects.thy ===== *)
theory Effects
  imports JsValue
begin

text \<open>
  Programs with state and errors: an asynchronous method of the source is a function from the state
  of the node to its result, a value or a thrown error, and the state it leaves behind. A method that
  throws keeps the changes it made before. The rules \<open>keeps_intros\<close> prove that a program keeps an
  invariant, command by command.
\<close>

section \<open>Commands\<close>

type_synonym ('w, 'a) ef = "'w \<Rightarrow> (js_error + 'a) \<times> 'w"

definition returnE :: "'a \<Rightarrow> ('w, 'a) ef" where
  "returnE x w = (Inr x, w)"

definition throwE :: "js_error \<Rightarrow> ('w, 'a) ef" where
  "throwE e w = (Inl e, w)"

definition liftE :: "js_error + 'a \<Rightarrow> ('w, 'a) ef" where
  "liftE r w = (r, w)"

definition bindE :: "('w, 'a) ef \<Rightarrow> ('a \<Rightarrow> ('w, 'b) ef) \<Rightarrow> ('w, 'b) ef" where
  "bindE m f w = (case m w of (Inl e, w') \<Rightarrow> (Inl e, w') | (Inr x, w') \<Rightarrow> f x w')"

definition getE :: "('w \<Rightarrow> 'a) \<Rightarrow> ('w, 'a) ef" where
  "getE f w = (Inr (f w), w)"

definition modifyE :: "('w \<Rightarrow> 'w) \<Rightarrow> ('w, unit) ef" where
  "modifyE f w = (Inr (), f w)"

definition whenE :: "bool \<Rightarrow> ('w, unit) ef \<Rightarrow> ('w, unit) ef" where
  "whenE b m = (if b then m else returnE ())"

text \<open>\<open>try { m } catch (e) { h(e) }\<close>; running out of fuel is no exception and is not caught.\<close>

definition catchE :: "('w, 'a) ef \<Rightarrow> (js_error \<Rightarrow> ('w, 'a) ef) \<Rightarrow> ('w, 'a) ef" where
  "catchE m h w = (case m w of
     (Inl e, w') \<Rightarrow> if e = Diverged then (Inl e, w') else h e w'
   | (Inr x, w') \<Rightarrow> (Inr x, w'))"

fun forE :: "('a \<Rightarrow> ('w, unit) ef) \<Rightarrow> 'a list \<Rightarrow> ('w, unit) ef" where
  "forE f [] = returnE ()"
| "forE f (x # xs) = bindE (f x) (\<lambda>_. forE f xs)"

named_theorems ef_simps \<open>evaluation of commands\<close>

lemma ef_run [ef_simps]:
  "returnE x w = (Inr x, w)" "throwE e w = (Inl e, w)" "liftE r w = (r, w)" "getE f w = (Inr (f w), w)"
  "modifyE g w = (Inr (), g w)"
  by (simp_all add: returnE_def throwE_def liftE_def getE_def modifyE_def)

lemma bindE_run [ef_simps]:
  "m w = (Inr x, w') \<Longrightarrow> bindE m f w = f x w'"
  "m w = (Inl e, w') \<Longrightarrow> bindE m f w = (Inl e, w')"
  by (simp_all add: bindE_def)

lemma bindE_basic [simp]:
  "bindE (returnE x) f = f x" "bindE (throwE e) f = throwE e"
  "bindE (liftE (Inr x)) f = f x" "bindE (liftE (Inl e)) g = throwE e"
  "bindE (getE q) f w = f (q w) w" "bindE (modifyE u) h w = h () (u w)"
  by (simp_all add: fun_eq_iff bindE_def ef_simps)

lemma bindE_Inr: "bindE m f w = (Inr y, w'') \<longleftrightarrow> (\<exists>x w'. m w = (Inr x, w') \<and> f x w' = (Inr y, w''))"
  by (auto simp: bindE_def split: prod.split sum.split)

lemma bindE_cong [fundef_cong]:
  "w = v \<Longrightarrow> m v = m' v \<Longrightarrow> (\<And>x v'. m' v = (Inr x, v') \<Longrightarrow> f x v' = g x v') \<Longrightarrow> bindE m f w = bindE m' g v"
  by (auto simp: bindE_def split: prod.split sum.split)

section \<open>Keeping an invariant\<close>

text \<open>
  \<open>keeps I S m Q\<close>: from a state in which \<open>I\<close> holds, the command ends in one in which \<open>I\<close> holds, whether it
  throws or not; the two are related by \<open>S\<close>, and a result satisfies \<open>Q\<close> in the new state.
\<close>

definition keeps :: "('w \<Rightarrow> bool) \<Rightarrow> ('w \<Rightarrow> 'w \<Rightarrow> bool) \<Rightarrow> ('w \<Rightarrow> bool) \<Rightarrow> ('w, 'a) ef \<Rightarrow> ('a \<Rightarrow> 'w \<Rightarrow> bool) \<Rightarrow> bool" where
  "keeps I S P m Q \<longleftrightarrow> (\<forall>w. I w \<and> P w \<longrightarrow> I (snd (m w)) \<and> S w (snd (m w)) \<and>
     (\<forall>x. fst (m w) = Inr x \<longrightarrow> Q x (snd (m w))))"

lemma keepsI:
  "(\<And>w. I w \<Longrightarrow> P w \<Longrightarrow> I (snd (m w)) \<and> S w (snd (m w)) \<and> (\<forall>x. fst (m w) = Inr x \<longrightarrow> Q x (snd (m w)))) \<Longrightarrow>
   keeps I S P m Q"
  by (simp add: keeps_def)

lemma keepsD:
  assumes "keeps I S P m Q" and "I w" and "P w" and "m w = (r, w')"
  shows "I w'" and "S w w'" and "r = Inr x \<Longrightarrow> Q x w'"
  using assms unfolding keeps_def by (metis snd_conv, metis snd_conv, metis fst_conv snd_conv)

text \<open>The relation between states is reflexive and transitive: the states reached later.\<close>

locale later_states =
  fixes inv :: "'w \<Rightarrow> bool"
    and later :: "'w \<Rightarrow> 'w \<Rightarrow> bool"
  assumes later_refl: "later w w"
    and later_trans: "later u v \<Longrightarrow> later v w \<Longrightarrow> later u w"
begin

abbreviation safely :: "('w \<Rightarrow> bool) \<Rightarrow> ('w, 'a) ef \<Rightarrow> ('a \<Rightarrow> 'w \<Rightarrow> bool) \<Rightarrow> bool" where
  "safely \<equiv> keeps inv later"

lemma safely_weaken: "safely P m Q \<Longrightarrow> (\<And>w. inv w \<Longrightarrow> P' w \<Longrightarrow> P w) \<Longrightarrow> (\<And>x w. inv w \<Longrightarrow> Q x w \<Longrightarrow> Q' x w) \<Longrightarrow>
    safely P' m Q'"
  unfolding keeps_def by blast

lemma safely_return: "(\<And>w. inv w \<Longrightarrow> P w \<Longrightarrow> Q x w) \<Longrightarrow> safely P (returnE x) Q"
  by (simp add: keeps_def ef_simps later_refl)

lemma safely_throw: "safely P (throwE e) Q"
  by (simp add: keeps_def ef_simps later_refl)

lemma safely_lift: "(\<And>w x. inv w \<Longrightarrow> P w \<Longrightarrow> r = Inr x \<Longrightarrow> Q x w) \<Longrightarrow> safely P (liftE r) Q"
  by (simp add: keeps_def ef_simps later_refl)

lemma safely_get: "(\<And>w. inv w \<Longrightarrow> P w \<Longrightarrow> Q (f w) w) \<Longrightarrow> safely P (getE f) Q"
  by (simp add: keeps_def ef_simps later_refl)

lemma safely_modify:
  "(\<And>w. inv w \<Longrightarrow> P w \<Longrightarrow> inv (f w) \<and> later w (f w) \<and> Q () (f w)) \<Longrightarrow> safely P (modifyE f) Q"
  by (simp add: keeps_def ef_simps)

text \<open>Sequencing; \<open>P\<close> must survive the first command if it is needed after it.\<close>

lemma safely_bind:
  assumes "safely P m R" and "\<And>x. safely (R x) (f x) Q"
  shows "safely P (bindE m f) Q"
  unfolding keeps_def
proof (intro allI impI)
  fix w assume w: "inv w \<and> P w"
  obtain r w' where m: "m w = (r, w')" by (cases "m w")
  note k = keepsD [OF assms(1) conjunct1 [OF w] conjunct2 [OF w] m]
  show "inv (snd (bindE m f w)) \<and> later w (snd (bindE m f w)) \<and>
      (\<forall>x. fst (bindE m f w) = Inr x \<longrightarrow> Q x (snd (bindE m f w)))"
  proof (cases r)
    case (Inl e)
    with m k(1,2) show ?thesis by (simp add: bindE_def)
  next
    case (Inr x)
    obtain r2 w2 where f: "f x w' = (r2, w2)" by (cases "f x w'")
    note k2 = keepsD [OF assms(2) k(1) k(3) [OF Inr] f]
    from Inr m f have "bindE m f w = (r2, w2)" by (simp add: bindE_def)
    with k2 later_trans [OF k(2) k2(2)] show ?thesis by simp
  qed
qed

lemma safely_seq:
  assumes "safely P m R" and "\<And>u v. inv u \<Longrightarrow> later u v \<Longrightarrow> P u \<Longrightarrow> P v"
    and "\<And>x. safely (\<lambda>w. R x w \<and> P w) (f x) Q"
  shows "safely P (bindE m f) Q"
proof (rule safely_bind)
  show "safely P m (\<lambda>x w. R x w \<and> P w)"
    using assms(1,2) unfolding keeps_def by blast
qed (rule assms(3))

lemma safely_if: "(b \<Longrightarrow> safely P m Q) \<Longrightarrow> (\<not> b \<Longrightarrow> safely P n Q) \<Longrightarrow> safely P (if b then m else n) Q"
  by simp

lemma safely_when: "(b \<Longrightarrow> safely P m (\<lambda>_. Q)) \<Longrightarrow> (\<And>w. inv w \<Longrightarrow> P w \<Longrightarrow> \<not> b \<Longrightarrow> Q w) \<Longrightarrow>
    safely P (whenE b m) (\<lambda>_. Q)"
  by (simp add: whenE_def safely_return)

lemma safely_catch:
  assumes "safely P m Q" and "\<And>e. safely P (h e) Q" and "\<And>u v. inv u \<Longrightarrow> later u v \<Longrightarrow> P u \<Longrightarrow> P v"
  shows "safely P (catchE m h) Q"
  unfolding keeps_def
proof (intro allI impI)
  fix w assume w: "inv w \<and> P w"
  obtain r w' where m: "m w = (r, w')" by (cases "m w")
  note k = keepsD [OF assms(1) conjunct1 [OF w] conjunct2 [OF w] m]
  have p: "P w'" using assms(3) w k(2) by blast
  show "inv (snd (catchE m h w)) \<and> later w (snd (catchE m h w)) \<and>
      (\<forall>x. fst (catchE m h w) = Inr x \<longrightarrow> Q x (snd (catchE m h w)))"
  proof (cases r)
    case (Inl e)
    obtain r2 w2 where h: "h e w' = (r2, w2)" by (cases "h e w'")
    note k2 = keepsD [OF assms(2) k(1) p h]
    from Inl m k(1,2) h k2 later_trans [OF k(2) k2(2)] show ?thesis by (simp add: catchE_def)
  next
    case (Inr x)
    with m k show ?thesis by (simp add: catchE_def)
  qed
qed

lemma safely_for:
  assumes "\<And>x. x \<in> set xs \<Longrightarrow> safely P (f x) (\<lambda>_ _. True)" and "\<And>u v. inv u \<Longrightarrow> later u v \<Longrightarrow> P u \<Longrightarrow> P v"
  shows "safely P (forE f xs) (\<lambda>_ _. True)"
  using assms(1)
proof (induction xs)
  case (Cons x xs)
  have "safely P (f x) (\<lambda>_ _. True)" using Cons.prems by simp
  from safely_seq [OF this assms(2)] Cons show ?case
    by (simp add: safely_weaken [of P])
qed (simp add: safely_return)

end

end
