(* ===== verification/Stores.thy ===== *)
theory Stores
  imports Serialization Effects
begin

text \<open>
  The stores of a node (\<open>core/src/store\<close>): the key-value store over LevelDB, which keeps its entries
  in the order of the keys, and the object stores on top of it, which convert keys to strings and
  values to what the database holds. The database itself behaves as an ordered map.
\<close>

section \<open>The key-value store\<close>

type_synonym 'v kv = "(string \<times> 'v) list"

fun kvPut :: "'v kv \<Rightarrow> string \<Rightarrow> 'v \<Rightarrow> 'v kv" where
  "kvPut [] k v = [(k, v)]"
| "kvPut ((l, u) # m) k v =
     (if l = k then (k, v) # m else if strLess k l then (k, v) # (l, u) # m else (l, u) # kvPut m k v)"

text \<open>\<open>get\<close> of an absent key throws an error with \<open>notFound\<close>: the result \<open>None\<close>.\<close>

definition kvGet :: "'v kv \<Rightarrow> string \<Rightarrow> 'v option" where
  "kvGet m k = map_of m k"

definition kvDel :: "'v kv \<Rightarrow> string \<Rightarrow> 'v kv" where
  "kvDel m k = filter (\<lambda>(l, _). l \<noteq> k) m"

record search_params =
  sp_reverse :: bool
  sp_limit :: "nat option"
  sp_gte :: "string option"
  sp_lte :: "string option"
  sp_gt :: "string option"
  sp_lt :: "string option"

definition allKeys :: search_params where
  "allKeys = \<lparr>sp_reverse = False, sp_limit = None, sp_gte = None, sp_lte = None, sp_gt = None, sp_lt = None\<rparr>"

definition inRange :: "search_params \<Rightarrow> string \<Rightarrow> bool" where
  "inRange p k \<longleftrightarrow> (case sp_gte p of Some b \<Rightarrow> \<not> strLess k b | None \<Rightarrow> True) \<and>
     (case sp_lte p of Some b \<Rightarrow> \<not> strLess b k | None \<Rightarrow> True) \<and>
     (case sp_gt p of Some b \<Rightarrow> strLess b k | None \<Rightarrow> True) \<and>
     (case sp_lt p of Some b \<Rightarrow> strLess k b | None \<Rightarrow> True)"

definition kvFind :: "'v kv \<Rightarrow> search_params \<Rightarrow> (string \<times> 'v) list" where
  "kvFind m p = (let found = filter (\<lambda>(k, _). inRange p k) m;
       found = (if sp_reverse p then rev found else found)
     in case sp_limit p of Some n \<Rightarrow> take n found | None \<Rightarrow> found)"

definition kvFindKeys :: "'v kv \<Rightarrow> search_params \<Rightarrow> string list" where
  "kvFindKeys m p = map fst (kvFind m p)"

definition kvIsEmpty :: "'v kv \<Rightarrow> search_params \<Rightarrow> bool" where
  "kvIsEmpty m p = (length (kvFindKeys m p) = 0)"

text \<open>Only a value that is a string exists: \<open>typeof val === 'string'\<close>.\<close>

definition kvExists :: "('v \<Rightarrow> bool) \<Rightarrow> 'v kv \<Rightarrow> string \<Rightarrow> bool" where
  "kvExists isString m k = (case kvGet m k of None \<Rightarrow> False | Some v \<Rightarrow> isString v)"

lemma kvGet_kvPut [simp]: "kvGet (kvPut m k v) l = (if l = k then Some v else kvGet m l)"
  unfolding kvGet_def by (induction m k v rule: kvPut.induct) auto

lemma kvGet_kvDel [simp]: "kvGet (kvDel m k) l = (if l = k then None else kvGet m l)"
  unfolding kvGet_def kvDel_def by (induction m) auto

text \<open>The entries stay in the order of their keys, so that a search is one scan.\<close>

abbreviation kvSorted :: "'v kv \<Rightarrow> bool" where
  "kvSorted m \<equiv> sorted_wrt strLess (map fst m)"

lemma kvPut_keys: "set (map fst (kvPut m k v)) = insert k (set (map fst m))"
  by (induction m k v rule: kvPut.induct) auto

lemma kvPut_sorted: "kvSorted m \<Longrightarrow> kvSorted (kvPut m k v)"
proof (induction m k v rule: kvPut.induct)
  case (2 l u m k v)
  have "strLess l x" if "x \<in> set (map fst (kvPut m k v))" "l \<noteq> k" "\<not> strLess k l" for x
    using that 2(2) strLess_total [of l k] unfolding kvPut_keys by auto
  with 2 show ?case by (auto intro: strLess_trans)
qed simp

lemma kvDel_sorted: "kvSorted m \<Longrightarrow> kvSorted (kvDel m k)"
  unfolding kvDel_def by (induction m) auto

section \<open>Object stores\<close>

text \<open>A store that is not open is \<open>None\<close>.\<close>

definition throwIfNotOpened :: "'v kv option \<Rightarrow> js_error + 'v kv" where
  "throwIfNotOpened store = (case store of
     None \<Rightarrow> Inl (Err ''is closed, you need to call async open(...)'') | Some m \<Rightarrow> Inr m)"

definition objSave :: "('k \<Rightarrow> string) \<Rightarrow> ('v \<Rightarrow> js_error + 's) \<Rightarrow> 's kv option \<Rightarrow> 'k \<Rightarrow> 'v \<Rightarrow> js_error + 's kv option" where
  "objSave generateKey serialize store obj value =
     bindR (throwIfNotOpened store) (\<lambda>m.
     bindR (serialize value) (\<lambda>s. Inr (Some (kvPut m (generateKey obj) s))))"

definition objLoad ::
  "('k \<Rightarrow> string) \<Rightarrow> ('s \<Rightarrow> js_error + 'v option) \<Rightarrow> 's kv option \<Rightarrow> 'k \<Rightarrow> js_error + 'v option" where
  "objLoad generateKey deserialize store obj =
     bindR (throwIfNotOpened store) (\<lambda>m.
     case kvGet m (generateKey obj) of
       Some serialized \<Rightarrow> deserialize serialized
     | None \<Rightarrow> Inr None)"

definition objRemove :: "('k \<Rightarrow> string) \<Rightarrow> 's kv option \<Rightarrow> 'k \<Rightarrow> js_error + 's kv option" where
  "objRemove generateKey store obj =
     bindR (throwIfNotOpened store) (\<lambda>m. Inr (Some (kvDel m (generateKey obj))))"

text \<open>
  What the users of an object store rely on. The provider promises that the values it is used for
  survive serialization.
\<close>

locale object_store =
  fixes generateKey :: "'k \<Rightarrow> string"
    and serialize :: "'v \<Rightarrow> js_error + 's"
    and deserialize :: "'s \<Rightarrow> js_error + 'v option"
    and storable :: "'v \<Rightarrow> bool"
  assumes survives: "storable v \<Longrightarrow> \<exists>s. serialize v = Inr s \<and> deserialize s = Inr (Some v)"
begin

lemma load_saved:
  assumes "storable v"
  shows "\<exists>m'. objSave generateKey serialize (Some m) k v = Inr (Some m') \<and>
    objLoad generateKey deserialize (Some m') k = Inr (Some v) \<and>
    (\<forall>l. generateKey l \<noteq> generateKey k \<longrightarrow>
      objLoad generateKey deserialize (Some m') l = objLoad generateKey deserialize (Some m) l)"
  using survives [OF assms] by (auto simp: objSave_def objLoad_def throwIfNotOpened_def)

lemma load_removed:
  "\<exists>m'. objRemove generateKey (Some m) k = Inr (Some m') \<and>
    objLoad generateKey deserialize (Some m') k = Inr None \<and>
    (\<forall>l. generateKey l \<noteq> generateKey k \<longrightarrow>
      objLoad generateKey deserialize (Some m') l = objLoad generateKey deserialize (Some m) l)"
  by (auto simp: objRemove_def objLoad_def throwIfNotOpened_def)

end

section \<open>The store of stream states\<close>

type_synonym state_store = "ser_state kv option"

definition stateStoreSave :: "text_lib \<Rightarrow> state_store \<Rightarrow> stream_id \<Rightarrow> stream_state \<Rightarrow> js_error + state_store" where
  "stateStoreSave lib = objSave (streamIDToString (tl_codec lib)) (serializeState lib)"

definition stateStoreLoad :: "text_lib \<Rightarrow> state_store \<Rightarrow> stream_id \<Rightarrow> js_error + stream_state option" where
  "stateStoreLoad lib = objLoad (streamIDToString (tl_codec lib)) (\<lambda>s. deserializeState lib (Some s))"

definition stateStoreRemove :: "text_lib \<Rightarrow> state_store \<Rightarrow> stream_id \<Rightarrow> js_error + state_store" where
  "stateStoreRemove lib = objRemove (streamIDToString (tl_codec lib))"

definition listStoredStreamIDs ::
  "text_lib \<Rightarrow> state_store \<Rightarrow> stream_id option \<Rightarrow> nat option \<Rightarrow> js_error + string list" where
  "listStoredStreamIDs lib store streamId limit = (case streamId of
     None \<Rightarrow> bindR (throwIfNotOpened store) (\<lambda>m. Inr (kvFindKeys m (allKeys\<lparr>sp_limit := limit\<rparr>)))
   | Some sid \<Rightarrow> bindR (stateStoreLoad lib store sid) (\<lambda>state.
       Inr (if state \<noteq> None then [streamIDToString (tl_codec lib) sid] else [])))"

interpretation states: object_store "streamIDToString (tl_codec lib)" "serializeState lib"
    "\<lambda>s. deserializeState lib (Some s)" "\<lambda>s. text_lib_ok lib \<and> serializable (tl_codec lib) s"
  for lib
  by unfold_locales (auto intro: deserialize_serialize)

lemma stateStoreSave_Inr:
  assumes "stateStoreSave lib store sid s = Inr store'"
  obtains m ser where "store = Some m" "serializeState lib s = Inr ser"
    "store' = Some (kvPut m (streamIDToString (tl_codec lib) sid) ser)"
  using assms by (auto simp: stateStoreSave_def objSave_def throwIfNotOpened_def res_simps split: option.splits)

lemma stateStoreLoad_Some:
  assumes "stateStoreLoad lib store sid = Inr (Some s)"
  obtains m ser where "store = Some m" "kvGet m (streamIDToString (tl_codec lib) sid) = Some ser"
    "deserializeState lib (Some ser) = Inr (Some s)"
  using assms by (auto simp: stateStoreLoad_def objLoad_def throwIfNotOpened_def res_simps split: option.splits)

section \<open>The store of pending anchor requests\<close>

record anchor_request =
  ar_cid :: cid
  ar_timestamp :: int

definition serializeAnchorRequestData :: "codec_lib \<Rightarrow> anchor_request \<Rightarrow> js_error + (string \<times> int)" where
  "serializeAnchorRequestData lib r = Inr (cidToString lib (ar_cid r), ar_timestamp r)"

definition deserializeAnchorRequestData :: "codec_lib \<Rightarrow> string \<times> int \<Rightarrow> js_error + anchor_request" where
  "deserializeAnchorRequestData lib s =
     bindR (cidParse lib (fst s)) (\<lambda>c. Inr \<lparr>ar_cid = c, ar_timestamp = snd s\<rparr>)"

type_synonym request_store = "(string \<times> int) kv option"

definition requestSave :: "codec_lib \<Rightarrow> request_store \<Rightarrow> stream_id \<Rightarrow> anchor_request \<Rightarrow> js_error + request_store" where
  "requestSave lib = objSave (streamIDToString lib) (serializeAnchorRequestData lib)"

definition requestLoad :: "codec_lib \<Rightarrow> request_store \<Rightarrow> stream_id \<Rightarrow> js_error + anchor_request option" where
  "requestLoad lib = objLoad (streamIDToString lib)
     (\<lambda>s. bindR (deserializeAnchorRequestData lib s) (\<lambda>r. Inr (Some r)))"

definition requestRemove :: "codec_lib \<Rightarrow> request_store \<Rightarrow> stream_id \<Rightarrow> js_error + request_store" where
  "requestRemove lib = objRemove (streamIDToString lib)"

text \<open>The stored values are JSON texts.\<close>

definition requestExists :: "codec_lib \<Rightarrow> request_store \<Rightarrow> stream_id \<Rightarrow> js_error + bool" where
  "requestExists lib store sid = (case store of None \<Rightarrow> Inl TypeErr
     | Some m \<Rightarrow> Inr (kvExists (\<lambda>_. True) m (streamIDToString lib sid)))"

interpretation requests: object_store "streamIDToString lib" "serializeAnchorRequestData lib"
    "\<lambda>s. bindR (deserializeAnchorRequestData lib s) (\<lambda>r. Inr (Some r))" "\<lambda>_. codec_lib_ok lib"
  for lib
  by unfold_locales
    (simp add: serializeAnchorRequestData_def deserializeAnchorRequestData_def codec_lib_ok_def)

text \<open>
  \<open>list\<close>: the batches of the store, each one the entries after the last key of the one before. The
  loop has fuel; every round starts behind a further key.
\<close>

fun requestBatches :: "nat \<Rightarrow> codec_lib \<Rightarrow> (string \<times> int) kv \<Rightarrow> nat \<Rightarrow> stream_id option \<Rightarrow>
    js_error + (stream_id \<times> anchor_request) list list" where
  "requestBatches 0 lib m batchSize gt = Inl Diverged"
| "requestBatches (Suc fuel) lib m batchSize gt =
     (let batch = kvFind m (allKeys\<lparr>sp_limit := Some batchSize, sp_gt := map_option (streamIDToString lib) gt\<rparr>) in
      if batch = [] then Inr []
      else
        bindR (streamIDFromString lib (fst (last batch))) (\<lambda>gt'.
        bindR (mapR (\<lambda>(k, v). bindR (streamIDFromString lib k) (\<lambda>sid.
          bindR (deserializeAnchorRequestData lib v) (\<lambda>r. Inr (sid, r)))) batch) (\<lambda>items.
        bindR (requestBatches fuel lib m batchSize (Some gt')) (\<lambda>rest. Inr (items # rest)))))"

end
