(* ===== verification/StateCache.thy ===== *)
theory StateCache
  imports Effects
begin

text \<open>
  The in-memory cache of running streams (\<open>core/src/state-management/state-cache.ts\<close>). A bounded
  volatile bucket, kept by the LRU library, and a durable bucket, a plain map. What the library evicts
  is its own choice: \<open>evict\<close> names the key it drops when it has stored an entry, if any.
\<close>

section \<open>The cache\<close>

record 'a state_cache =
  sc_volatile :: "(string \<times> 'a) list"
  sc_durable :: "(string \<times> 'a) list"

type_synonym evict_fn = "string list \<Rightarrow> string option"

definition mapSet :: "(string \<times> 'a) list \<Rightarrow> string \<Rightarrow> 'a \<Rightarrow> (string \<times> 'a) list" where
  "mapSet m k v = (if map_of m k = None then m @ [(k, v)] else map (\<lambda>(l, u). if l = k then (l, v) else (l, u)) m)"

definition mapDelete :: "(string \<times> 'a) list \<Rightarrow> string \<Rightarrow> (string \<times> 'a) list" where
  "mapDelete m k = filter (\<lambda>(l, _). l \<noteq> k) m"

definition emptyCache :: "'a state_cache" where
  "emptyCache = \<lparr>sc_volatile = [], sc_durable = []\<rparr>"

text \<open>\<open>this.volatile.set(key, value)\<close>: the entry evicted by it is the second component.\<close>

definition volatileSet :: "evict_fn \<Rightarrow> 'a state_cache \<Rightarrow> string \<Rightarrow> 'a \<Rightarrow> 'a state_cache \<times> 'a option" where
  "volatileSet evict c k v =
     (let m = mapSet (sc_volatile c) k v in
      case evict (map fst m) of
        None \<Rightarrow> (c\<lparr>sc_volatile := m\<rparr>, None)
      | Some e \<Rightarrow> (c\<lparr>sc_volatile := mapDelete m e\<rparr>, map_of m e))"

text \<open>The values are objects, so that \<open>||\<close> tests for presence.\<close>

definition cacheGet :: "'a state_cache \<Rightarrow> string \<Rightarrow> 'a option" where
  "cacheGet c k = (case map_of (sc_durable c) k of Some v \<Rightarrow> Some v | None \<Rightarrow> map_of (sc_volatile c) k)"

definition cacheSet :: "evict_fn \<Rightarrow> 'a state_cache \<Rightarrow> string \<Rightarrow> 'a \<Rightarrow> 'a state_cache \<times> 'a option" where
  "cacheSet evict c k v =
     (let c' = (if map_of (sc_durable c) k \<noteq> None then c\<lparr>sc_durable := mapSet (sc_durable c) k v\<rparr> else c)
      in volatileSet evict c' k v)"

definition cacheDelete :: "'a state_cache \<Rightarrow> string \<Rightarrow> 'a state_cache" where
  "cacheDelete c k = c\<lparr>sc_durable := mapDelete (sc_durable c) k, sc_volatile := mapDelete (sc_volatile c) k\<rparr>"

definition cacheClear :: "'a state_cache \<Rightarrow> 'a state_cache" where
  "cacheClear c = c\<lparr>sc_durable := [], sc_volatile := []\<rparr>"

definition cacheEndure :: "'a state_cache \<Rightarrow> string \<Rightarrow> 'a \<Rightarrow> 'a state_cache" where
  "cacheEndure c k v = c\<lparr>sc_durable := mapSet (sc_durable c) k v, sc_volatile := mapDelete (sc_volatile c) k\<rparr>"

definition cacheFree :: "evict_fn \<Rightarrow> 'a state_cache \<Rightarrow> string \<Rightarrow> 'a state_cache \<times> 'a option" where
  "cacheFree evict c k = (case map_of (sc_durable c) k of
     None \<Rightarrow> (c, None)
   | Some entry \<Rightarrow> (let (c', evicted) = volatileSet evict c k entry in
       (c'\<lparr>sc_durable := mapDelete (sc_durable c') k\<rparr>, evicted)))"

definition cacheEntries :: "'a state_cache \<Rightarrow> (string \<times> 'a) list" where
  "cacheEntries c = sc_durable c @ sc_volatile c"

definition cacheKeys :: "'a state_cache \<Rightarrow> string list" where
  "cacheKeys c = map fst (cacheEntries c)"

definition cacheValues :: "'a state_cache \<Rightarrow> 'a list" where
  "cacheValues c = map snd (cacheEntries c)"

section \<open>The cache as a pair of maps\<close>

lemma map_of_mapSet [simp]: "map_of (mapSet m k v) = (map_of m)(k \<mapsto> v)"
proof
  fix l
  have upd: "map_of (map (\<lambda>(l, u). if l = k then (l, v) else (l, u)) m) l =
      (if l = k then (if map_of m k = None then None else Some v) else map_of m l)"
    by (induction m) auto
  show "map_of (mapSet m k v) l = ((map_of m)(k \<mapsto> v)) l"
    by (cases "map_of m k") (auto simp: mapSet_def upd map_add_def split: option.split)
qed

lemma map_of_mapDelete [simp]: "map_of (mapDelete m k) = (map_of m)(k := None)"
proof
  fix l show "map_of (mapDelete m k) l = ((map_of m)(k := None)) l"
    unfolding mapDelete_def by (induction m) auto
qed

lemma set_mapSet: "set (mapSet m k v) \<subseteq> insert (k, v) (set m)"
  by (auto simp: mapSet_def split: if_split_asm)

lemma set_mapDelete: "set (mapDelete m k) \<subseteq> set m"
  by (auto simp: mapDelete_def)

lemma length_mapDelete: "map_of m k \<noteq> None \<Longrightarrow> length (mapDelete m k) < length m"
proof -
  assume "map_of m k \<noteq> None"
  then obtain v where "(k, v) \<in> set m" by (auto dest: map_of_SomeD)
  then show ?thesis unfolding mapDelete_def by (rule length_filter_less) simp
qed

lemma volatileSet_simps [simp]:
  "sc_durable (fst (volatileSet evict c k v)) = sc_durable c"
  by (simp add: volatileSet_def Let_def split: option.split)

lemma volatileSet_volatile:
  "map_of (sc_volatile (fst (volatileSet evict c k v))) l =
     (let m = mapSet (sc_volatile c) k v in if evict (map fst m) = Some l then None else map_of m l)"
  by (simp add: volatileSet_def Let_def split: option.split)

text \<open>All entries of the cache after an operation are old ones or the one it stores.\<close>

lemma volatileSet_entries:
  assumes "volatileSet evict c k v = (c', ev)"
  shows "set (cacheEntries c') \<subseteq> insert (k, v) (set (cacheEntries c))"
    and "ev = Some u \<Longrightarrow> \<exists>l. (l, u) \<in> insert (k, v) (set (cacheEntries c))"
proof -
  let ?m = "mapSet (sc_volatile c) k v"
  have sub: "set ?m \<union> set (sc_durable c) \<subseteq> insert (k, v) (set (cacheEntries c))"
    using set_mapSet [of "sc_volatile c" k v] by (auto simp: cacheEntries_def)
  from assms consider "c' = c\<lparr>sc_volatile := ?m\<rparr>" "ev = None"
    | e where "c' = c\<lparr>sc_volatile := mapDelete ?m e\<rparr>" "ev = map_of ?m e"
    by (auto simp: volatileSet_def Let_def split: option.splits)
  then have "set (cacheEntries c') \<subseteq> set ?m \<union> set (sc_durable c) \<and>
      (ev = Some u \<longrightarrow> (\<exists>l. (l, u) \<in> set ?m))"
  proof cases
    case 1
    then show ?thesis by (auto simp: cacheEntries_def)
  next
    case 2
    then show ?thesis using set_mapDelete [of ?m e] map_of_SomeD [of ?m e] by (auto simp: cacheEntries_def)
  qed
  with sub show "set (cacheEntries c') \<subseteq> insert (k, v) (set (cacheEntries c))"
    and "ev = Some u \<Longrightarrow> \<exists>l. (l, u) \<in> insert (k, v) (set (cacheEntries c))" by blast+
qed

lemma cacheSet_entries:
  assumes "cacheSet evict c k v = (c', ev)"
  shows "set (cacheEntries c') \<subseteq> insert (k, v) (set (cacheEntries c))"
    and "ev = Some u \<Longrightarrow> \<exists>l. (l, u) \<in> insert (k, v) (set (cacheEntries c))"
proof -
  let ?c = "if map_of (sc_durable c) k \<noteq> None then c\<lparr>sc_durable := mapSet (sc_durable c) k v\<rparr> else c"
  have sub: "set (cacheEntries ?c) \<subseteq> insert (k, v) (set (cacheEntries c))"
    using set_mapSet [of "sc_durable c" k v] by (auto simp: cacheEntries_def)
  have v: "volatileSet evict ?c k v = (c', ev)" using assms by (simp only: cacheSet_def Let_def)
  show "set (cacheEntries c') \<subseteq> insert (k, v) (set (cacheEntries c))"
    using volatileSet_entries(1) [OF v] sub by blast
  show "ev = Some u \<Longrightarrow> \<exists>l. (l, u) \<in> insert (k, v) (set (cacheEntries c))"
    using volatileSet_entries(2) [OF v] sub by blast
qed

lemma cacheFree_entries:
  assumes "cacheFree evict c k = (c', ev)"
  shows "set (cacheEntries c') \<subseteq> set (cacheEntries c)"
    and "ev = Some u \<Longrightarrow> \<exists>l. (l, u) \<in> set (cacheEntries c)"
proof -
  have "set (cacheEntries c') \<subseteq> set (cacheEntries c) \<and>
      (\<forall>u. ev = Some u \<longrightarrow> (\<exists>l. (l, u) \<in> set (cacheEntries c)))"
  proof (cases "map_of (sc_durable c) k")
    case (Some entry)
    then have old: "(k, entry) \<in> set (cacheEntries c)" by (auto simp: cacheEntries_def dest: map_of_SomeD)
    obtain c1 where v: "volatileSet evict c k entry = (c1, ev)"
      and c': "c' = c1\<lparr>sc_durable := mapDelete (sc_durable c1) k\<rparr>"
      using assms Some by (auto simp: cacheFree_def split: prod.splits)
    from volatileSet_entries [OF v] old have "set (cacheEntries c1) \<subseteq> set (cacheEntries c)"
      "\<And>u. ev = Some u \<Longrightarrow> \<exists>l. (l, u) \<in> set (cacheEntries c)" by auto
    moreover have "set (cacheEntries c') \<subseteq> set (cacheEntries c1)"
      using set_mapDelete [of "sc_durable c1" k] by (auto simp: c' cacheEntries_def)
    ultimately show ?thesis by blast
  qed (use assms in \<open>simp add: cacheFree_def\<close>)
  then show "set (cacheEntries c') \<subseteq> set (cacheEntries c)"
    and "ev = Some u \<Longrightarrow> \<exists>l. (l, u) \<in> set (cacheEntries c)" by blast+
qed

lemma cacheFree_durable:
  "cacheFree evict c k = (c', Some u) \<Longrightarrow> length (sc_durable c') < length (sc_durable c)"
  by (cases "map_of (sc_durable c) k")
    (auto simp: cacheFree_def length_mapDelete split: prod.splits dest: arg_cong [of _ _ "\<lambda>p. sc_durable (fst p)"])

lemma cacheGet_entry: "cacheGet c k = Some v \<Longrightarrow> (k, v) \<in> set (cacheEntries c)"
  by (auto simp: cacheGet_def cacheEntries_def split: option.splits dest: map_of_SomeD)

section \<open>Refinement\<close>

text \<open>
  What a client of the cache relies on: two maps, the entries that stay until they are freed and the
  entries that may go at any time. \<open>absDurable\<close> is the first; \<open>absCache\<close> is what a look-up may see.
\<close>

definition absDurable :: "'a state_cache \<Rightarrow> string \<Rightarrow> 'a option" where
  "absDurable c = map_of (sc_durable c)"

definition absCache :: "'a state_cache \<Rightarrow> string \<Rightarrow> 'a option" where
  "absCache c = map_of (sc_volatile c) ++ map_of (sc_durable c)"

datatype cache_op = OpSet string nat | OpEndure string nat | OpFree string | OpDelete string | OpClear

fun runOp :: "evict_fn \<Rightarrow> cache_op \<Rightarrow> nat state_cache \<Rightarrow> nat state_cache" where
  "runOp evict (OpSet k v) c = fst (cacheSet evict c k v)"
| "runOp evict (OpEndure k v) c = cacheEndure c k v"
| "runOp evict (OpFree k) c = fst (cacheFree evict c k)"
| "runOp evict (OpDelete k) c = cacheDelete c k"
| "runOp evict OpClear c = cacheClear c"

text \<open>The specification: a nondeterministic map in which only entries that are not durable are lost.\<close>

fun specDurable :: "cache_op \<Rightarrow> (string \<Rightarrow> nat option) \<Rightarrow> (string \<Rightarrow> nat option)" where
  "specDurable (OpSet k v) d = (if d k = None then d else d(k \<mapsto> v))"
| "specDurable (OpEndure k v) d = d(k \<mapsto> v)"
| "specDurable (OpFree k) d = d(k := None)"
| "specDurable (OpDelete k) d = d(k := None)"
| "specDurable OpClear d = Map.empty"

fun specAll :: "cache_op \<Rightarrow> (string \<Rightarrow> nat option) \<Rightarrow> (string \<Rightarrow> nat option)" where
  "specAll (OpSet k v) m = m(k \<mapsto> v)"
| "specAll (OpEndure k v) m = m(k \<mapsto> v)"
| "specAll (OpFree k) m = m"
| "specAll (OpDelete k) m = m(k := None)"
| "specAll OpClear m = Map.empty"

lemma cacheGet_abs: "cacheGet c k = absCache c k"
  by (simp add: cacheGet_def absCache_def map_add_def)

lemma runOp_durable: "absDurable (runOp evict p c) = specDurable p (absDurable c)"
  by (cases p) (auto simp: absDurable_def cacheSet_def cacheEndure_def cacheDelete_def cacheClear_def
      cacheFree_def Let_def fun_eq_iff split: option.splits prod.splits
      dest: arg_cong [of _ _ "\<lambda>p. sc_durable (fst p)"])

lemma map_le_add_free: "d k = Some x \<Longrightarrow> m(k \<mapsto> x) ++ d(k := None) = m ++ d"
  by (auto simp: fun_eq_iff map_add_def split: option.splits)

lemma runOp_all: "absCache (runOp evict p c) \<subseteq>\<^sub>m specAll p (absCache c)"
  by (cases p) (auto simp: absCache_def map_le_def map_add_def cacheSet_def cacheEndure_def cacheDelete_def
      cacheClear_def cacheFree_def volatileSet_def Let_def dom_def split: option.splits prod.splits if_splits)

text \<open>
  C14: the cache of running streams refines its specification. After any sequence of operations, and
  whatever the LRU library evicts, the durable entries are exactly those of the abstract map of
  durable entries, so a stream marked durable is found until it is freed, deleted or the cache
  cleared; and a look-up never gives a value other than the one stored last under the key.
\<close>

theorem cache_refines:
  "absDurable (foldl (\<lambda>c (evict, p). runOp evict p c) emptyCache ops) =
     foldl (\<lambda>d (evict, p). specDurable p d) Map.empty ops \<and>
   (\<forall>k v. cacheGet (foldl (\<lambda>c (evict, p). runOp evict p c) emptyCache ops) k = Some v \<longrightarrow>
     foldl (\<lambda>m (evict, p). specAll p m) Map.empty ops k = Some v)"
proof (induction ops rule: rev_induct)
  case Nil
  show ?case by (simp add: absDurable_def emptyCache_def cacheGet_def)
next
  case (snoc q ops)
  obtain evict p where q: "q = (evict, p)" by (cases q)
  let ?c = "foldl (\<lambda>c (evict, p). runOp evict p c) emptyCache ops"
  let ?m = "foldl (\<lambda>m (evict, p). specAll p m) Map.empty ops"
  from snoc.IH have le: "absCache ?c \<subseteq>\<^sub>m ?m" by (auto simp: map_le_def cacheGet_abs dom_def)
  then have "specAll p (absCache ?c) \<subseteq>\<^sub>m specAll p ?m"
    by (cases p) (auto simp: map_le_def dom_def)
  then have "absCache (runOp evict p ?c) \<subseteq>\<^sub>m specAll p ?m"
    using runOp_all map_le_trans by blast
  then have "cacheGet (runOp evict p ?c) k = Some v \<Longrightarrow> specAll p ?m k = Some v" for k v
    by (auto simp: map_le_def cacheGet_abs dom_def)
  with snoc.IH show ?case by (simp add: q runOp_durable)
qed

definition evictFirst :: "nat \<Rightarrow> evict_fn" where
  "evictFirst limit ks = (if limit < length ks then Some (hd ks) else None)"

definition sampleCacheOps :: "(evict_fn \<times> cache_op) list" where
  "sampleCacheOps = [(evictFirst 1, OpEndure ''a'' 1), (evictFirst 1, OpSet ''b'' 2), (evictFirst 1, OpSet ''c'' 3)]"

theorem cache_refines_witness:
  "foldl (\<lambda>m (evict, p). specAll p m) Map.empty sampleCacheOps ''a'' = Some 1 \<and>
   cacheGet (foldl (\<lambda>c (evict, p). runOp evict p c) emptyCache sampleCacheOps) ''b'' = None"
proof -
  have "cacheGet (foldl (\<lambda>c (evict, p). runOp evict p c) emptyCache sampleCacheOps) ''a'' = Some 1"
    "cacheGet (foldl (\<lambda>c (evict, p). runOp evict p c) emptyCache sampleCacheOps) ''b'' = None"
    by code_simp+
  with cache_refines [of sampleCacheOps] show ?thesis by blast
qed

end
