(* ===== verification/RunningStates.thy ===== *)
theory RunningStates
  imports StreamLoading Stores StateCache
begin

text \<open>
  The state of a node that the repository works on: the running states in memory
  (\<open>core/src/state-management/running-state.ts\<close>, \<open>common/src/stream-state-subject.ts\<close>), the cache of
  them, the stores, and what the node has sent out. Running states are shared objects: callers keep
  references to them, so the model keeps them in a heap, a list indexed by address.
\<close>

section \<open>Running states\<close>

text \<open>
  \<open>pinnedCommits\<close> is the set of commits known to be pinned, \<open>null\<close> if the stream is not pinned.
  \<open>subscriptionSet\<close> counts.
\<close>

record running_state =
  rs_id :: stream_id
  rs_value :: stream_state
  rs_pinnedCommits :: "cid list option"
  rs_subscriptions :: nat
  rs_completed :: bool

definition rsTip :: "running_state \<Rightarrow> cid" where
  "rsTip rs = le_cid (last (st_log (rs_value rs)))"

definition rsIsPinned :: "running_state \<Rightarrow> bool" where
  "rsIsPinned rs = (case rs_pinnedCommits rs of None \<Rightarrow> False | Some cs \<Rightarrow> 0 < length cs)"

definition markAsPinned :: "running_state \<Rightarrow> running_state" where
  "markAsPinned rs = rs\<lparr>rs_pinnedCommits := Some (remdups (map le_cid (st_log (rs_value rs))))\<rparr>"

definition markAsUnpinned :: "running_state \<Rightarrow> running_state" where
  "markAsUnpinned rs = rs\<lparr>rs_pinnedCommits := None\<rparr>"

definition newRunningState :: "stream_state \<Rightarrow> bool \<Rightarrow> running_state" where
  "newRunningState initial pinned =
     (let rs = \<lparr>rs_id = StreamID (st_type initial) (le_cid (hd (st_log initial))), rs_value = initial,
        rs_pinnedCommits = None, rs_subscriptions = 0, rs_completed = False\<rparr>
      in if pinned then markAsPinned rs else rs)"

text \<open>\<open>StreamStateSubject.next\<close> keeps the current value if the new one is equal to it.\<close>

definition rsNext :: "text_lib \<Rightarrow> running_state \<Rightarrow> stream_state \<Rightarrow> js_error + running_state" where
  "rsNext lib rs next =
     bindR (statesEqual lib (rs_value rs) next) (\<lambda>equal.
     Inr (if \<not> equal then rs\<lparr>rs_value := next\<rparr> else rs))"

section \<open>The node\<close>

record index_args =
  ix_model :: js
  ix_streamID :: stream_id
  ix_controller :: js
  ix_content :: js
  ix_tip :: cid
  ix_lastAnchor :: "int option"
  ix_firstAnchor :: "int option"
  ix_shouldIndex :: js

datatype request_status = ReadyStatus | PendingStatus | ProcessingStatus | CompletedStatus | FailedStatus
  | ReplacedStatus

text \<open>\<open>ae_witness\<close>: the roots of the witness CAR file, if the event has one.\<close>

record anchor_event =
  ae_status :: request_status
  ae_streamId :: stream_id
  ae_cid :: cid
  ae_witness :: "cid list option"

record repo =
  rp_heap :: "running_state list"
  rp_inmemory :: "nat state_cache"
  rp_states :: state_store
  rp_pinned :: "js list"
  rp_synced :: "string list"
  rp_feed :: "stream_id list"
  rp_indexed :: "index_args list"
  rp_published :: "(stream_id \<times> cid \<times> js) list"
  rp_requested :: "(stream_id \<times> cid) list"
  rp_background :: "(nat \<times> anchor_event) list"
  rp_cursor :: string

type_synonym 'a act = "(repo, 'a) ef"

text \<open>
  The surroundings of the repository: the loader of streams with its block store and handlers, the
  tips the network answers with, the LRU library, the index, the anchor service, the pinning backend
  and the settings of the process.
\<close>

record surroundings =
  en_node :: node
  en_text :: text_lib
  en_tips :: "stream_id \<Rightarrow> cid list"
  en_evict :: evict_fn
  en_shouldIndexStream :: "js \<Rightarrow> bool"
  en_indexStream :: "index_args \<Rightarrow> js_error + unit"
  en_anchorService :: bool
  en_requestAnchor :: "stream_id \<Rightarrow> cid \<Rightarrow> js_error + anchor_event"
  en_casAccessible :: "js_error + unit"
  en_storeEvent :: "js \<Rightarrow> stream_id \<Rightarrow> js_error + cid"
  en_storeInitEvent :: "js \<Rightarrow> nat \<Rightarrow> js_error + cid"
  en_importCAR :: "nat \<Rightarrow> cid list \<Rightarrow> stream_id \<Rightarrow> js_error + unit"
  en_retrieve :: "cid \<Rightarrow> js_error + js"
  en_resolve :: "string \<Rightarrow> js_error + cid"
  en_pin :: "js \<Rightarrow> js_error + unit"
  en_unpin :: "js \<Rightarrow> js_error + unit"
  en_rustCeramic :: bool
  en_disableAnchoring :: bool
  en_fuel :: nat

abbreviation en_codec :: "surroundings \<Rightarrow> codec_lib" where
  "en_codec env \<equiv> tl_codec (en_text env)"

abbreviation idString :: "surroundings \<Rightarrow> stream_id \<Rightarrow> string" where
  "idString env \<equiv> streamIDToString (en_codec env)"

section \<open>Access to the running states\<close>

definition readRs :: "nat \<Rightarrow> running_state act" where
  "readRs a = getE (\<lambda>w. rp_heap w ! a)"

definition writeRs :: "nat \<Rightarrow> running_state \<Rightarrow> unit act" where
  "writeRs a rs = modifyE (\<lambda>w. w\<lparr>rp_heap := (rp_heap w)[a := rs]\<rparr>)"

definition allocRs :: "running_state \<Rightarrow> nat act" where
  "allocRs rs w = (Inr (length (rp_heap w)), w\<lparr>rp_heap := rp_heap w @ [rs]\<rparr>)"

text \<open>\<open>state$.next(s)\<close>\<close>

definition nextState :: "surroundings \<Rightarrow> nat \<Rightarrow> stream_state \<Rightarrow> unit act" where
  "nextState env a s = bindE (readRs a) (\<lambda>rs. bindE (liftE (rsNext (en_text env) rs s)) (writeRs a))"

section \<open>The cache of running states\<close>

text \<open>
  The callback of an eviction: the evicted running state is completed and its subscriptions end; the
  last one to end frees the stream in the cache, which may evict another entry.
\<close>

definition completeRs :: "running_state \<Rightarrow> running_state" where
  "completeRs rs = rs\<lparr>rs_completed := True, rs_subscriptions := 0\<rparr>"

function onEvicted :: "surroundings \<Rightarrow> nat \<Rightarrow> repo \<Rightarrow> repo" where
  "onEvicted env a w =
     (let rs = rp_heap w ! a;
          w1 = w\<lparr>rp_heap := (rp_heap w)[a := completeRs rs]\<rparr>
      in if rs_subscriptions rs = 0 then w1
         else case cacheFree (en_evict env) (rp_inmemory w1) (idString env (rs_id rs)) of
           (c, None) \<Rightarrow> w1\<lparr>rp_inmemory := c\<rparr>
         | (c, Some b) \<Rightarrow> onEvicted env b (w1\<lparr>rp_inmemory := c\<rparr>))"
  by pat_completeness auto
termination
  by (relation "measure (\<lambda>(_, _, w). length (sc_durable (rp_inmemory w)))") (auto dest: cacheFree_durable [OF sym])

declare onEvicted.simps [simp del]

definition handleEviction :: "surroundings \<Rightarrow> nat option \<Rightarrow> repo \<Rightarrow> repo" where
  "handleEviction env ev w = (case ev of None \<Rightarrow> w | Some a \<Rightarrow> onEvicted env a w)"

text \<open>\<open>_registerRunningState\<close>\<close>

definition registerRunningState :: "surroundings \<Rightarrow> nat \<Rightarrow> unit act" where
  "registerRunningState env a = modifyE (\<lambda>w.
     let (c, ev) = cacheSet (en_evict env) (rp_inmemory w) (idString env (rs_id (rp_heap w ! a))) a
     in handleEviction env ev (w\<lparr>rp_inmemory := c\<rparr>))"

definition fromMemory :: "surroundings \<Rightarrow> stream_id \<Rightarrow> nat option act" where
  "fromMemory env sid = getE (\<lambda>w. cacheGet (rp_inmemory w) (idString env sid))"

text \<open>\<open>inmemory.free(id)\<close>\<close>

definition freeRunningState :: "surroundings \<Rightarrow> string \<Rightarrow> unit act" where
  "freeRunningState env k = modifyE (\<lambda>w.
     let (c, ev) = cacheFree (en_evict env) (rp_inmemory w) k in handleEviction env ev (w\<lparr>rp_inmemory := c\<rparr>))"

section \<open>The store of states\<close>

definition storeLoad :: "surroundings \<Rightarrow> stream_id \<Rightarrow> stream_state option act" where
  "storeLoad env sid = bindE (getE rp_states) (\<lambda>st. liftE (stateStoreLoad (en_text env) st sid))"

definition storeSave :: "surroundings \<Rightarrow> stream_id \<Rightarrow> stream_state \<Rightarrow> unit act" where
  "storeSave env sid s = bindE (getE rp_states) (\<lambda>st.
     bindE (liftE (stateStoreSave (en_text env) st sid s)) (\<lambda>st'. modifyE (\<lambda>w. w\<lparr>rp_states := st'\<rparr>)))"

definition storeRemove :: "surroundings \<Rightarrow> stream_id \<Rightarrow> unit act" where
  "storeRemove env sid = bindE (getE rp_states) (\<lambda>st.
     bindE (liftE (stateStoreRemove (en_text env) st sid)) (\<lambda>st'. modifyE (\<lambda>w. w\<lparr>rp_states := st'\<rparr>)))"

section \<open>Well-formed nodes\<close>

text \<open>
  A StreamID is genuine if it names a commit without \<open>prev\<close>, a genesis commit. A state is sound for a
  StreamID if it is a state of this stream and, if the StreamID is genuine, its log is a chain of
  commits of the block store, from the genesis commit on.
\<close>

definition genuine :: "surroundings \<Rightarrow> stream_id \<Rightarrow> bool" where
  "genuine env sid \<longleftrightarrow> (\<exists>g v. getCommitData (nd_loader (en_node env)) (sid_cid sid) sid = Inr g \<and>
     jsGet (cd_commit g) ''prev'' = Inr v \<and> \<not> jsTruthy v)"

definition soundState :: "surroundings \<Rightarrow> stream_id \<Rightarrow> stream_state \<Rightarrow> bool" where
  "soundState env sid s \<longleftrightarrow> st_log s \<noteq> [] \<and> streamIdFromState s = sid \<and> sid_type sid < maxSafe \<and>
     (genuine env sid \<longrightarrow> storedLog (nd_loader (en_node env)) sid (logCids s))"

definition soundRs :: "surroundings \<Rightarrow> running_state \<Rightarrow> bool" where
  "soundRs env rs \<longleftrightarrow> soundState env (rs_id rs) (rs_value rs)"

text \<open>
  Every running state is sound, the cache holds running states under the text of their StreamIDs, and
  so does the state store with what can be read back from it. Background tasks are about running states.
\<close>

definition soundStore :: "surroundings \<Rightarrow> state_store \<Rightarrow> bool" where
  "soundStore env store \<longleftrightarrow> (\<forall>m k ser s. store = Some m \<longrightarrow> kvGet m k = Some ser \<longrightarrow>
     deserializeState (en_text env) (Some ser) = Inr (Some s) \<longrightarrow>
     (\<exists>sid. k = idString env sid \<and> soundState env sid s))"

definition soundCache :: "surroundings \<Rightarrow> repo \<Rightarrow> bool" where
  "soundCache env w \<longleftrightarrow> (\<forall>(k, a) \<in> set (cacheEntries (rp_inmemory w)).
     a < length (rp_heap w) \<and> k = idString env (rs_id (rp_heap w ! a)))"

definition soundRepo :: "surroundings \<Rightarrow> repo \<Rightarrow> bool" where
  "soundRepo env w \<longleftrightarrow>
     (\<forall>a < length (rp_heap w). soundRs env (rp_heap w ! a)) \<and> soundCache env w \<and> soundStore env (rp_states w) \<and>
     (\<forall>(a, _) \<in> set (rp_background w). a < length (rp_heap w))"

text \<open>Running states are never dropped from the heap and never change the stream they belong to.\<close>

definition laterRepo :: "repo \<Rightarrow> repo \<Rightarrow> bool" where
  "laterRepo w w' \<longleftrightarrow> length (rp_heap w) \<le> length (rp_heap w') \<and>
     (\<forall>a < length (rp_heap w). rs_id (rp_heap w' ! a) = rs_id (rp_heap w ! a))"

interpretation repos: later_states "soundRepo env" laterRepo for env
  by unfold_locales (auto simp: laterRepo_def)

text \<open>\<open>a\<close> is the address of a running state of the stream \<open>sid\<close>.\<close>

definition heldAt :: "stream_id \<Rightarrow> nat \<Rightarrow> repo \<Rightarrow> bool" where
  "heldAt sid a w \<longleftrightarrow> a < length (rp_heap w) \<and> rs_id (rp_heap w ! a) = sid"

lemma heldAt_later: "laterRepo u v \<Longrightarrow> heldAt sid a u \<Longrightarrow> heldAt sid a v"
  by (auto simp: heldAt_def laterRepo_def)

lemma streamIDToString_inject:
  assumes "codec_lib_ok lib" and "sid_type a < maxSafe" and "sid_type b < maxSafe"
    and "streamIDToString lib a = streamIDToString lib b"
  shows "a = b"
proof -
  have "streamIDBytes lib a = streamIDBytes lib b"
    using assms(1,4) by (metis codec_lib_ok_def streamIDToString_def sum.inject(2))
  then have eq: "varintEncode lib (sid_type a) @ cid_bytes (sid_cid a) =
      varintEncode lib (sid_type b) @ cid_bytes (sid_cid b)"
    by (simp add: streamIDBytes_def)
  have "varintDecode lib (varintEncode lib (sid_type a) @ cid_bytes (sid_cid a)) =
      Inr (sid_type a, length (varintEncode lib (sid_type a)))"
    "varintDecode lib (varintEncode lib (sid_type b) @ cid_bytes (sid_cid b)) =
      Inr (sid_type b, length (varintEncode lib (sid_type b)))"
    using assms(1-3) unfolding codec_lib_ok_def by blast+
  with eq have t: "sid_type a = sid_type b" by simp
  with eq have "cid_bytes (sid_cid a) = cid_bytes (sid_cid b)" by simp
  with t show ?thesis by (simp add: stream_id.expand cid.expand)
qed

end
