(* ===== verification/PinStore.thy ===== *)
theory PinStore
  imports RunningStates
begin

text \<open>
  Pinning of streams (\<open>core/src/store/pin-store.ts\<close>): the CIDs a stream needs are pinned, its state is
  saved, and its model is pinned with it. The pin store is given the function that loads a stream, as
  in the source, where the repository passes its own \<open>load\<close>.
\<close>

section \<open>The CIDs of a commit\<close>

text \<open>\<open>currentPath += '/' + subPath\<close>, resolved below the proof.\<close>

fun resolveSubPaths :: "surroundings \<Rightarrow> string \<Rightarrow> string \<Rightarrow> string list \<Rightarrow> js_error + js list" where
  "resolveSubPaths env proof currentPath [] = Inr []"
| "resolveSubPaths env proof currentPath (subPath # subPaths) =
     (let path = currentPath @ ''/'' @ subPath in
      bindR (en_resolve env (proof @ path)) (\<lambda>c.
      bindR (resolveSubPaths env proof path subPaths) (\<lambda>cs. Inr (CidV c # cs))))"

text \<open>A path that is no string does not occur: it is an error of the model.\<close>

definition anchorPoints :: "surroundings \<Rightarrow> js \<Rightarrow> js_error + js list" where
  "anchorPoints env commit =
     bindR (jsGet commit ''proof'') (\<lambda>proof.
     bindR (jsGet commit ''path'') (\<lambda>path.
     bindR (if jsTruthy path then (case path of Str s \<Rightarrow> Inr (''root/'' @ s) | _ \<Rightarrow> Inl TypeErr)
            else Inr ''root'') (\<lambda>full.
     bindR (jsCidString (en_codec env) proof) (\<lambda>proofStr.
     bindR (resolveSubPaths env proofStr [] (filter (\<lambda>p. p \<noteq> []) (jsSplit CHR ''/'' full))) (\<lambda>cs.
     Inr (proof # cs))))))"

definition signedPoints :: "surroundings \<Rightarrow> js \<Rightarrow> bool \<Rightarrow> js_error + js list" where
  "signedPoints env commit includeCACAO =
     bindR (if includeCACAO then bindR (getCacaoCidFromCommit (nd_loader (en_node env)) commit) (\<lambda>capCID.
              Inr (case capCID of Some c \<Rightarrow> [CidV c] | None \<Rightarrow> []))
            else Inr []) (\<lambda>cap.
     bindR (jsGet commit ''link'') (\<lambda>link. Inr (cap @ [link])))"

fun getComponentCIDsOfCommits :: "surroundings \<Rightarrow> bool \<Rightarrow> cid list \<Rightarrow> js_error + js list" where
  "getComponentCIDsOfCommits env includeAnchorAndCACAO [] = Inr []"
| "getComponentCIDsOfCommits env includeAnchorAndCACAO (c # cs) =
     bindR (en_retrieve env c) (\<lambda>commit.
     bindR (isAnchorCommit commit) (\<lambda>anchor.
     bindR (if anchor \<and> includeAnchorAndCACAO then anchorPoints env commit else Inr []) (\<lambda>anchors.
     bindR (isSignedCommit commit) (\<lambda>signed.
     bindR (if signed then signedPoints env commit includeAnchorAndCACAO else Inr []) (\<lambda>links.
     bindR (getComponentCIDsOfCommits env includeAnchorAndCACAO cs) (\<lambda>rest.
     Inr (CidV c # anchors @ links @ rest)))))))"

section \<open>Adding and removing\<close>

text \<open>
  \<open>Promise.all(points.map(pin))\<close>: every point is tried; the first failure is thrown.
\<close>

definition pinPoints :: "surroundings \<Rightarrow> js list \<Rightarrow> unit act" where
  "pinPoints env points =
     bindE (modifyE (\<lambda>w. w\<lparr>rp_pinned := rp_pinned w @ filter (\<lambda>p. \<exists>u. en_pin env p = Inr u) points\<rparr>)) (\<lambda>_.
     liftE (forEachR (en_pin env) points))"

definition newCommits :: "running_state \<Rightarrow> bool \<Rightarrow> cid list" where
  "newCommits rs force =
     (let commitLog = map le_cid (st_log (rs_value rs)) in
      case rs_pinnedCommits rs of
        Some pinned \<Rightarrow> if force then commitLog else filter (\<lambda>c. c \<notin> set pinned) commitLog
      | None \<Rightarrow> commitLog)"

text \<open>\<open>model && !model.equals(Model.MODEL)\<close>\<close>

definition pinnedModel :: "js \<Rightarrow> js_error + stream_id option" where
  "pinnedModel metadata =
     bindR (jsGet metadata ''model'') (\<lambda>model.
     if \<not> jsTruthy model then Inr None
     else case model of
       SidV sid \<Rightarrow> Inr (if sid = MODEL_MODEL then None else Some sid)
     | _ \<Rightarrow> Inl TypeErr)"

fun pinAdd :: "nat \<Rightarrow> surroundings \<Rightarrow> (stream_id \<Rightarrow> nat act) \<Rightarrow> nat \<Rightarrow> bool \<Rightarrow> unit act" where
  "pinAdd 0 env loadFn a force = throwE Diverged"
| "pinAdd (Suc n) env loadFn a force =
     bindE (readRs a) (\<lambda>rs.
     let commits = newCommits rs force in
     if commits = [] then returnE ()
     else
       bindE (liftE (getComponentCIDsOfCommits env True commits)) (\<lambda>points.
       bindE (pinPoints env points) (\<lambda>_.
       bindE (storeSave env (rs_id rs) (rs_value rs)) (\<lambda>_.
       bindE (writeRs a (markAsPinned rs)) (\<lambda>_.
       bindE (liftE (pinnedModel (st_metadata (rs_value rs)))) (\<lambda>model.
       case model of
         None \<Rightarrow> returnE ()
       | Some sid \<Rightarrow> bindE (loadFn sid) (\<lambda>m. pinAdd n env loadFn m False)))))))"

text \<open>Unpinning is not waited for and its errors are dropped.\<close>

definition pinRm :: "surroundings \<Rightarrow> nat \<Rightarrow> unit act" where
  "pinRm env a =
     bindE (readRs a) (\<lambda>rs.
     bindE (liftE (getComponentCIDsOfCommits env False (map le_cid (st_log (rs_value rs))))) (\<lambda>points.
     bindE (modifyE (\<lambda>w. w\<lparr>rp_pinned := filter (\<lambda>p. \<not> (p \<in> set points \<and> (\<exists>u. en_unpin env p = Inr u))) (rp_pinned w)\<rparr>)) (\<lambda>_.
     bindE (storeRemove env (rs_id rs)) (\<lambda>_.
     bindE (readRs a) (\<lambda>rs'. writeRs a (markAsUnpinned rs'))))))"

definition pinLs :: "surroundings \<Rightarrow> stream_id option \<Rightarrow> string list act" where
  "pinLs env sid = bindE (getE rp_states) (\<lambda>st. liftE (listStoredStreamIDs (en_text env) st sid None))"

end
