(* ===== verification/Repository.thy ===== *)
theory Repository
  imports PinStore
begin

text \<open>
  The repository of a node (\<open>core/src/state-management/repository.ts\<close>): loading of streams through the
  cache, the state store and the network, application of commits from users, of tips from the network
  and of anchors, pinning and indexing. Every method runs to its end before the next one starts, which
  is what the execution queues ensure for the methods on one stream.
\<close>

section \<open>Options\<close>

datatype sync_option = PREFER_CACHE | SYNC_ON_ERROR | SYNC_ALWAYS | NEVER_SYNC | InvalidSync

datatype sync_status = NOT_SYNCED | ALREADY_SYNCED | DID_SYNC

datatype operation_type = CREATE | UPDATE | LOAD

record repo_opts =
  op_sync :: "sync_option option"
  op_anchor :: bool
  op_publish :: bool
  op_pin :: "bool option"
  op_atTime :: onum

definition defaultOpts :: repo_opts where
  "defaultOpts = \<lparr>op_sync = None, op_anchor = False, op_publish = False, op_pin = None, op_atTime = NUndef\<rparr>"

definition syncOption :: "repo_opts \<Rightarrow> sync_option" where
  "syncOption opts = (case op_sync opts of Some s \<Rightarrow> s | None \<Rightarrow> PREFER_CACHE)"

section \<open>Index and publication\<close>

definition rsMetadata :: "running_state \<Rightarrow> js" where
  "rsMetadata rs = st_metadata (rs_value rs)"

definition shouldIndex :: "surroundings \<Rightarrow> running_state \<Rightarrow> bool" where
  "shouldIndex env rs = (let model = jsGetOpt (rsMetadata rs) ''model'' in
     jsTruthy model \<and> en_shouldIndexStream env model)"

definition asDate :: "onum \<Rightarrow> int option" where
  "asDate t = (case t of NVal n \<Rightarrow> if n \<noteq> 0 then Some (n * 1000) else None | _ \<Rightarrow> None)"

definition indexStreamIfNeeded :: "surroundings \<Rightarrow> nat \<Rightarrow> unit act" where
  "indexStreamIfNeeded env a =
     bindE (readRs a) (\<lambda>rs.
     bindE (liftE (jsGet (rsMetadata rs) ''model'')) (\<lambda>model.
     if \<not> jsTruthy model then returnE ()
     else
       bindE (liftE (bindR (jsGet (rsMetadata rs) ''controllers'') (\<lambda>cs. jsIndex cs 0))) (\<lambda>controller.
       bindE (liftE (jsGet (rsMetadata rs) ''shouldIndex'')) (\<lambda>flag.
       let args = \<lparr>ix_model = model, ix_streamID = rs_id rs, ix_controller = controller,
             ix_content = st_content (rs_value rs), ix_tip = rsTip rs,
             ix_lastAnchor = asDate (anchorTimestampFromState (rs_value rs)),
             ix_firstAnchor = (case find (\<lambda>e. le_type e = TIME) (st_log (rs_value rs)) of
               Some e \<Rightarrow> asDate (le_timestamp e) | None \<Rightarrow> None),
             ix_shouldIndex = flag\<rparr>
       in bindE (liftE (en_indexStream env args)) (\<lambda>_.
          modifyE (\<lambda>w. w\<lparr>rp_indexed := rp_indexed w @ [args]\<rparr>))))))"

definition publishTip :: "nat \<Rightarrow> unit act" where
  "publishTip a =
     bindE (readRs a) (\<lambda>rs.
     bindE (liftE (jsGet (rsMetadata rs) ''model'')) (\<lambda>model.
     modifyE (\<lambda>w. w\<lparr>rp_published := rp_published w @ [(rs_id rs, rsTip rs, model)]\<rparr>)))"

section \<open>Pinned streams\<close>

definition markPinnedAndSynced :: "surroundings \<Rightarrow> stream_id \<Rightarrow> unit act" where
  "markPinnedAndSynced env sid = modifyE (\<lambda>w. w\<lparr>rp_synced := List.insert (idString env sid) (rp_synced w)\<rparr>)"

definition markUnpinned :: "surroundings \<Rightarrow> stream_id \<Rightarrow> unit act" where
  "markUnpinned env sid = modifyE (\<lambda>w. w\<lparr>rp_synced := removeAll (idString env sid) (rp_synced w)\<rparr>)"

definition wasPinnedStreamSynced :: "surroundings \<Rightarrow> stream_id \<Rightarrow> bool act" where
  "wasPinnedStreamSynced env sid = getE (\<lambda>w. idString env sid \<in> set (rp_synced w))"

definition pinUnsafe :: "surroundings \<Rightarrow> (stream_id \<Rightarrow> nat act) \<Rightarrow> nat \<Rightarrow> bool \<Rightarrow> unit act" where
  "pinUnsafe env loadFn a force = pinAdd (en_fuel env) env loadFn a force"

definition updateStateIfPinned :: "surroundings \<Rightarrow> (stream_id \<Rightarrow> nat act) \<Rightarrow> nat \<Rightarrow> unit act" where
  "updateStateIfPinned env loadFn a =
     bindE (readRs a) (\<lambda>rs.
     bindE (storeLoad env (rs_id rs)) (\<lambda>stored.
     bindE (liftE (jsGet (rsMetadata rs) ''model'')) (\<lambda>model.
     bindE (whenE (stored \<noteq> None \<or> jsTruthy model \<and> en_shouldIndexStream env model)
       (bindE (pinUnsafe env loadFn a False) (\<lambda>_.
        modifyE (\<lambda>w. w\<lparr>rp_feed := rp_feed w @ [rs_id rs]\<rparr>)))) (\<lambda>_.
     indexStreamIfNeeded env a))))"

section \<open>Loading\<close>

definition fromStreamStateStore :: "surroundings \<Rightarrow> stream_id \<Rightarrow> nat option act" where
  "fromStreamStateStore env sid =
     bindE (storeLoad env sid) (\<lambda>stored. case stored of
       None \<Rightarrow> returnE None
     | Some s \<Rightarrow>
         bindE (allocRs (newRunningState s True)) (\<lambda>a.
         bindE (registerRunningState env a) (\<lambda>_. returnE (Some a))))"

definition fromMemoryOrStore :: "surroundings \<Rightarrow> stream_id \<Rightarrow> nat option act" where
  "fromMemoryOrStore env sid =
     bindE (fromMemory env sid) (\<lambda>found. case found of
       Some a \<Rightarrow> returnE (Some a)
     | None \<Rightarrow> fromStreamStateStore env sid)"

definition fromMemoryOrStoreWithSyncStatus :: "surroundings \<Rightarrow> stream_id \<Rightarrow> (nat option \<times> sync_status) act" where
  "fromMemoryOrStoreWithSyncStatus env sid =
     bindE (fromMemory env sid) (\<lambda>found. case found of
       Some a \<Rightarrow> returnE (Some a, ALREADY_SYNCED)
     | None \<Rightarrow>
         bindE (fromStreamStateStore env sid) (\<lambda>stored. case stored of
           Some a \<Rightarrow> bindE (wasPinnedStreamSynced env sid) (\<lambda>synced.
             returnE (Some a, if synced then ALREADY_SYNCED else NOT_SYNCED))
         | None \<Rightarrow> returnE (None, NOT_SYNCED)))"

definition registerNew :: "surroundings \<Rightarrow> stream_state \<Rightarrow> nat act" where
  "registerNew env s =
     bindE (allocRs (newRunningState s False)) (\<lambda>a.
     bindE (registerRunningState env a) (\<lambda>_. returnE a))"

definition loadStreamFromNetwork :: "surroundings \<Rightarrow> stream_id \<Rightarrow> nat act" where
  "loadStreamFromNetwork env sid =
     bindE (liftE (loadStream (en_node env) sid (en_tips env sid))) (registerNew env)"

definition genesisFromNetwork :: "surroundings \<Rightarrow> stream_id \<Rightarrow> nat act" where
  "genesisFromNetwork env sid = bindE (liftE (loadGenesisState (en_node env) sid)) (registerNew env)"

definition syncRunningState :: "surroundings \<Rightarrow> nat \<Rightarrow> unit act" where
  "syncRunningState env a =
     bindE (readRs a) (\<lambda>rs.
     bindE (liftE (syncStream (en_node env) (rs_value rs) (en_tips env (streamIdFromState (rs_value rs))))) (nextState env a))"

definition resyncStreamFromNetwork :: "surroundings \<Rightarrow> stream_id \<Rightarrow> nat option \<Rightarrow> nat act" where
  "resyncStreamFromNetwork env sid existing =
     bindE (case existing of
         Some a \<Rightarrow> bindE (readRs a) (\<lambda>rs. liftE (resyncStream (en_node env) sid (rsTip rs) (en_tips env sid)))
       | None \<Rightarrow> liftE (loadStream (en_node env) sid (en_tips env sid))) (registerNew env)"

text \<open>The task that \<open>load\<close> runs on the loading queue.\<close>

definition loadTask :: "surroundings \<Rightarrow> stream_id \<Rightarrow> repo_opts \<Rightarrow> (nat \<times> sync_status) act" where
  "loadTask env sid opts =
     (if en_rustCeramic env then
        bindE (fromMemoryOrStore env sid) (\<lambda>existing. case existing of
          None \<Rightarrow> bindE (genesisFromNetwork env sid) (\<lambda>a. returnE (a, ALREADY_SYNCED))
        | Some a \<Rightarrow> returnE (a, ALREADY_SYNCED))
      else
        bindE (fromMemoryOrStoreWithSyncStatus env sid) (\<lambda>(existing, alreadySynced).
        case syncOption opts of
          SYNC_ALWAYS \<Rightarrow> bindE (resyncStreamFromNetwork env sid existing) (\<lambda>a. returnE (a, DID_SYNC))
        | NEVER_SYNC \<Rightarrow> (case existing of
            Some a \<Rightarrow> returnE (a, alreadySynced)
          | None \<Rightarrow> bindE (genesisFromNetwork env sid) (\<lambda>a. returnE (a, NOT_SYNCED)))
        | InvalidSync \<Rightarrow> throwE (Err ''Invalid sync option'')
        | _ \<Rightarrow> (case existing of
            None \<Rightarrow> bindE (loadStreamFromNetwork env sid) (\<lambda>a. returnE (a, DID_SYNC))
          | Some a \<Rightarrow>
              if alreadySynced = ALREADY_SYNCED then returnE (a, ALREADY_SYNCED)
              else bindE (syncRunningState env a) (\<lambda>_. returnE (a, DID_SYNC)))))"

text \<open>
  \<open>load\<close>: the pin store loads the model of a stream with \<open>load\<close> itself, so the definition is given the
  function \<open>loadFn\<close>, and \<open>repoLoad\<close> closes the circle, with fuel.
\<close>

definition loadWith :: "(stream_id \<Rightarrow> nat act) \<Rightarrow> surroundings \<Rightarrow> stream_id \<Rightarrow> repo_opts \<Rightarrow> bool \<Rightarrow> nat act" where
  "loadWith loadFn env sid opts checkCacaoExpiration =
     bindE (loadTask env sid opts) (\<lambda>(a, syncStatus).
     bindE (readRs a) (\<lambda>rs.
     bindE (liftE (if checkCacaoExpiration then checkForCacaoExpiration (nd_now (en_node env)) (rs_value rs)
                   else Inr ())) (\<lambda>_.
     bindE (whenE (syncStatus \<noteq> ALREADY_SYNCED)
       (bindE (updateStateIfPinned env loadFn a) (\<lambda>_.
        bindE (readRs a) (\<lambda>rs'.
        whenE (syncStatus = DID_SYNC \<and> rsIsPinned rs') (markPinnedAndSynced env (rs_id rs')))))) (\<lambda>_.
     returnE a))))"

fun repoLoad :: "nat \<Rightarrow> surroundings \<Rightarrow> stream_id \<Rightarrow> repo_opts \<Rightarrow> bool \<Rightarrow> nat act" where
  "repoLoad 0 env sid opts checkCacaoExpiration = throwE Diverged"
| "repoLoad (Suc n) env sid opts checkCacaoExpiration =
     loadWith (\<lambda>model. repoLoad n env model defaultOpts True) env sid opts checkCacaoExpiration"

abbreviation loadFor :: "surroundings \<Rightarrow> stream_id \<Rightarrow> nat act" where
  "loadFor env sid \<equiv> repoLoad (en_fuel env) env sid defaultOpts True"

section \<open>Loading at a commit or a time\<close>

definition loadAtCommit :: "surroundings \<Rightarrow> commit_id \<Rightarrow> repo_opts \<Rightarrow> stream_state act" where
  "loadAtCommit env commitId opts =
     bindE (catchE (bindE (repoLoad (en_fuel env) env (commitIDBase commitId) opts False) (\<lambda>a. returnE (Some a)))
              (\<lambda>_. returnE None)) (\<lambda>existing.
     bindE (case existing of
         Some a \<Rightarrow> bindE (readRs a) (\<lambda>rs. liftE (loaderResetStateToCommit (en_node env) (rs_value rs) commitId))
       | None \<Rightarrow> liftE (stateAtCommit (en_node env) commitId)) (\<lambda>s.
     bindE (liftE (checkForCacaoExpiration (nd_now (en_node env)) s)) (\<lambda>_.
     bindE (case existing of
         Some a \<Rightarrow> bindE (readRs a) (\<lambda>rs.
           whenE (isStateSupersetOf s (rs_value rs))
             (bindE (nextState env a s) (\<lambda>_. updateStateIfPinned env (loadFor env) a)))
       | None \<Rightarrow> bindE (registerNew env s) (updateStateIfPinned env (loadFor env))) (\<lambda>_.
     returnE s))))"

fun atTimeLoop :: "onum \<Rightarrow> cid \<Rightarrow> log_entry list \<Rightarrow> cid" where
  "atTimeLoop timestamp commitCid [] = commitCid"
| "atTimeLoop timestamp commitCid (entry # entries) =
     (if le_type entry = TIME then
        (if onumLeq (le_timestamp entry) timestamp then atTimeLoop timestamp (le_cid entry) entries
         else commitCid)
      else atTimeLoop timestamp commitCid entries)"

definition commitAtTime :: "codec_lib \<Rightarrow> stream_state \<Rightarrow> onum \<Rightarrow> js_error + commit_id" where
  "commitAtTime lib state timestamp =
     makeCommitID lib (streamIdFromState state)
       (CommitCid (atTimeLoop timestamp (le_cid (hd (st_log state))) (st_log state)))"

definition loadAtTime :: "surroundings \<Rightarrow> stream_id \<Rightarrow> repo_opts \<Rightarrow> stream_state act" where
  "loadAtTime env sid opts =
     bindE (repoLoad (en_fuel env) env sid opts True) (\<lambda>a.
     bindE (readRs a) (\<lambda>rs.
     bindE (liftE (commitAtTime (en_codec env) (rs_value rs) (op_atTime opts))) (\<lambda>commitId.
     loadAtCommit env commitId opts)))"

section \<open>Pinning and unpinning\<close>

definition pinStream :: "surroundings \<Rightarrow> nat \<Rightarrow> bool \<Rightarrow> unit act" where
  "pinStream env a force = pinUnsafe env (loadFor env) a force"

definition unpinStream :: "surroundings \<Rightarrow> nat \<Rightarrow> bool \<Rightarrow> unit act" where
  "unpinStream env a publish =
     bindE (readRs a) (\<lambda>rs.
     bindE (liftE (throwIf (shouldIndex env rs) (Err ''Cannot unpin actively indexed stream''))) (\<lambda>_.
     bindE (whenE publish (publishTip a)) (\<lambda>_.
     bindE (markUnpinned env (rs_id rs)) (\<lambda>_.
     pinRm env a))))"

definition listPinned :: "surroundings \<Rightarrow> stream_id option \<Rightarrow> string list act" where
  "listPinned env sid = pinLs env sid"

definition randomPinnedStreamState :: "surroundings \<Rightarrow> stream_state option act" where
  "randomPinnedStreamState env =
     bindE (getE rp_states) (\<lambda>st.
     bindE (liftE (listStoredStreamIDs (en_text env) st None (Some 1))) (\<lambda>res. case res of
       [] \<Rightarrow> returnE None
     | [key] \<Rightarrow> bindE (liftE (streamIDFromString (en_codec env) key)) (storeLoad env)
     | _ \<Rightarrow> throwE (Err ''Expected a single streamID from the state store'')))"

definition streamStateOf :: "surroundings \<Rightarrow> stream_id \<Rightarrow> stream_state option act" where
  "streamStateOf env sid =
     bindE (fromMemory env sid) (\<lambda>found. case found of
       Some a \<Rightarrow> bindE (readRs a) (\<lambda>rs. returnE (Some (rs_value rs)))
     | None \<Rightarrow> storeLoad env sid)"

definition handlePinOpts :: "surroundings \<Rightarrow> nat \<Rightarrow> repo_opts \<Rightarrow> operation_type \<Rightarrow> unit act" where
  "handlePinOpts env a opts opType =
     (if op_pin opts \<noteq> None \<and> opType \<noteq> CREATE then returnE ()
      else
        bindE (readRs a) (\<lambda>rs.
        if op_pin opts = Some True \<or> op_pin opts = None \<and> shouldIndex env rs \<or>
           op_pin opts = None \<and> opType = CREATE
        then pinUnsafe env (loadFor env) a False
        else if op_pin opts = Some False then unpinStream env a False
        else returnE ()))"

section \<open>Tips from the network\<close>

text \<open>The result is whether the tip was applied; \<open>applyTipFromNetwork\<close> always returns a state.\<close>

definition handleTip :: "surroundings \<Rightarrow> nat \<Rightarrow> cid \<Rightarrow> bool act" where
  "handleTip env a tip =
     bindE (readRs a) (\<lambda>rs.
     bindE (liftE (applyTipFromNetwork (en_node env) (rs_value rs) tip)) (\<lambda>next.
     bindE (nextState env a next) (\<lambda>_.
     bindE (updateStateIfPinned env (loadFor env) a) (\<lambda>_. returnE True))))"

definition handleUpdateFromNetwork :: "surroundings \<Rightarrow> stream_id \<Rightarrow> cid \<Rightarrow> stream_id option \<Rightarrow> unit act" where
  "handleUpdateFromNetwork env sid tip model =
     bindE (fromMemoryOrStore env sid) (\<lambda>found.
     let index = (case model of Some m \<Rightarrow> en_shouldIndexStream env (SidV m) | None \<Rightarrow> False) in
     if \<not> index \<and> found = None then returnE ()
     else
       bindE (case found of Some a \<Rightarrow> returnE a | None \<Rightarrow> loadFor env sid) (\<lambda>a.
       bindE (handleTip env a tip) (\<lambda>_. returnE ())))"

text \<open>The events of the Recon feed; here commits are looked up without a StreamID.\<close>

definition reconCommit :: "surroundings \<Rightarrow> cid \<Rightarrow> js_error + commit_data" where
  "reconCommit env c =
     getCommitData (nd_loader (en_node env)\<lparr>ld_retrieveCommit := \<lambda>c _. en_retrieve env c\<rparr>) c (StreamID 0 c)"

definition reconEvent :: "surroundings \<Rightarrow> cid \<Rightarrow> unit act" where
  "reconEvent env c =
     bindE (liftE (reconCommit env c)) (\<lambda>commitData.
     bindE (liftE (jsGet (cd_commit commitData) ''id'')) (\<lambda>id.
     bindE (liftE (if jsTruthy id then (case id of CidV g \<Rightarrow> Inr g | _ \<Rightarrow> Inl TypeErr) else Inr c)) (\<lambda>genesisCid.
     bindE (liftE (jsGet (cd_commit commitData) ''header'')) (\<lambda>header.
     bindE (liftE (if jsTruthy header then Inr commitData else reconCommit env genesisCid)) (\<lambda>genesis.
     bindE (liftE (bindR (jsGet (cd_commit genesis) ''header'') (\<lambda>h. jsGet h ''model''))) (\<lambda>modelBytes.
     bindE (liftE (throwIf (\<not> jsTruthy modelBytes) (Err ''Model not found in genesis commit header''))) (\<lambda>_.
     bindE (liftE (case modelBytes of Bytes bs \<Rightarrow> streamIDFromBytes (en_codec env) bs | _ \<Rightarrow> Inl TypeErr)) (\<lambda>model.
     let type = (if idString env model = idString env MODEL_MODEL then MODEL_TYPE else MID_TYPE) in
     bindE (liftE (newStreamID (en_codec env) (TypeCode type) (CidObj genesisCid))) (\<lambda>sid.
     handleUpdateFromNetwork env sid c (Some model))))))))))"

definition handleReconEvents :: "surroundings \<Rightarrow> cid list \<Rightarrow> string \<Rightarrow> unit act" where
  "handleReconEvents env events cursor =
     bindE (forE (\<lambda>c. catchE (reconEvent env c) (\<lambda>_. returnE ())) events) (\<lambda>_.
     modifyE (\<lambda>w. w\<lparr>rp_cursor := cursor\<rparr>))"

section \<open>Anchors\<close>

text \<open>The first event is handled in the background: \<open>rp_background\<close> holds it until then.\<close>

definition anchorStream :: "surroundings \<Rightarrow> nat \<Rightarrow> unit act" where
  "anchorStream env a =
     bindE (liftE (throwIf (\<not> en_anchorService env) (Err ''anchoring is disabled''))) (\<lambda>_.
     bindE (readRs a) (\<lambda>rs.
     if st_anchorStatus (rs_value rs) = ANCHORED then returnE ()
     else if en_disableAnchoring env then returnE ()
     else
       bindE (modifyE (\<lambda>w. w\<lparr>rp_requested := rp_requested w @ [(rs_id rs, rsTip rs)]\<rparr>)) (\<lambda>_.
       bindE (liftE (en_requestAnchor env (rs_id rs) (rsTip rs))) (\<lambda>event.
       modifyE (\<lambda>w. w\<lparr>rp_background := rp_background w @ [(a, event)]\<rparr>)))))"

definition APPLY_ANCHOR_COMMIT_ATTEMPTS :: nat where
  "APPLY_ANCHOR_COMMIT_ATTEMPTS = 3"

definition setAnchorStatus :: "surroundings \<Rightarrow> nat \<Rightarrow> anchor_status \<Rightarrow> unit act" where
  "setAnchorStatus env a status =
     bindE (readRs a) (\<lambda>rs. nextState env a ((rs_value rs)\<lparr>st_anchorStatus := status\<rparr>))"

text \<open>The loop of \<open>_handleAnchorCommit\<close>; the argument is one more than \<open>remainingRetries\<close>.\<close>

fun anchorAttempts :: "nat \<Rightarrow> surroundings \<Rightarrow> nat \<Rightarrow> cid \<Rightarrow> cid list \<Rightarrow> stream_id \<Rightarrow> cid \<Rightarrow> unit act" where
  "anchorAttempts 0 env a tip car sid anchorCommitCID = returnE ()"
| "anchorAttempts (Suc remainingRetries) env a tip car sid anchorCommitCID =
     catchE
       (bindE (liftE (en_importCAR env remainingRetries car sid)) (\<lambda>_.
        bindE (handleTip env a anchorCommitCID) (\<lambda>applied. whenE applied (publishTip a))))
       (\<lambda>error.
          if remainingRetries = 0 then
            bindE (readRs a) (\<lambda>rs.
            bindE (whenE (tip = rsTip rs) (setAnchorStatus env a FAILED)) (\<lambda>_. throwE error))
          else anchorAttempts remainingRetries env a tip car sid anchorCommitCID)"

definition handleAnchorCommit :: "surroundings \<Rightarrow> nat \<Rightarrow> cid \<Rightarrow> cid list option \<Rightarrow> unit act" where
  "handleAnchorCommit env a tip witnessCAR =
     bindE (readRs a) (\<lambda>rs.
     case witnessCAR of
       None \<Rightarrow> throwE TypeErr
     | Some [] \<Rightarrow> throwE (Err ''No anchor commit CID as root'')
     | Some (anchorCommitCID # roots) \<Rightarrow>
         anchorAttempts APPLY_ANCHOR_COMMIT_ATTEMPTS env a tip (anchorCommitCID # roots)
           (streamIdFromState (rs_value rs)) anchorCommitCID)"

text \<open>\<open>true\<close>: a terminal state is reached and polling stops.\<close>

definition handleAnchorEvent :: "surroundings \<Rightarrow> nat \<Rightarrow> anchor_event \<Rightarrow> bool act" where
  "handleAnchorEvent env a event =
     bindE (readRs a) (\<lambda>rs.
     let progress = (\<lambda>status.
       if ae_cid event \<noteq> rsTip rs then returnE False
       else if st_anchorStatus (rs_value rs) = status then returnE False
       else
         bindE (setAnchorStatus env a status) (\<lambda>_.
         bindE (updateStateIfPinned env (loadFor env) a) (\<lambda>_. returnE False)))
     in case ae_status event of
          ReadyStatus \<Rightarrow> progress PENDING
        | PendingStatus \<Rightarrow> progress PENDING
        | ProcessingStatus \<Rightarrow> progress PROCESSING
        | CompletedStatus \<Rightarrow>
            bindE (handleAnchorCommit env a (ae_cid event) (ae_witness event)) (\<lambda>_. returnE True)
        | FailedStatus \<Rightarrow>
            bindE (whenE (ae_cid event = rsTip rs) (setAnchorStatus env a FAILED)) (\<lambda>_. returnE True)
        | ReplacedStatus \<Rightarrow> returnE True)"

definition anchorLoopHandle :: "surroundings \<Rightarrow> anchor_event \<Rightarrow> bool act" where
  "anchorLoopHandle env event =
     bindE (fromMemoryOrStore env (ae_streamId event)) (\<lambda>found. case found of
       None \<Rightarrow> returnE True
     | Some a \<Rightarrow> handleAnchorEvent env a event)"

text \<open>The event loop gets to the oldest background task; its errors are logged.\<close>

definition runBackground :: "surroundings \<Rightarrow> unit act" where
  "runBackground env =
     bindE (getE rp_background) (\<lambda>tasks. case tasks of
       [] \<Rightarrow> returnE ()
     | (a, event) # rest \<Rightarrow>
         bindE (modifyE (\<lambda>w. w\<lparr>rp_background := rest\<rparr>)) (\<lambda>_.
         catchE (bindE (handleAnchorEvent env a event) (\<lambda>_. returnE ())) (\<lambda>_. returnE ())))"

section \<open>Commits from users\<close>

definition applyWriteOpts :: "surroundings \<Rightarrow> nat \<Rightarrow> repo_opts \<Rightarrow> operation_type \<Rightarrow> unit act" where
  "applyWriteOpts env a opts opType =
     bindE (whenE (op_anchor opts) (anchorStream env a)) (\<lambda>_.
     bindE (whenE (op_publish opts \<and> opType \<noteq> LOAD) (publishTip a)) (\<lambda>_.
     handlePinOpts env a opts opType))"

definition assertCASAccessible :: "surroundings \<Rightarrow> js_error + unit" where
  "assertCASAccessible env = (if en_disableAnchoring env then Inr () else en_casAccessible env)"

definition applyCommit :: "surroundings \<Rightarrow> stream_id \<Rightarrow> js \<Rightarrow> repo_opts \<Rightarrow> nat act" where
  "applyCommit env sid commit opts =
     bindE (liftE (assertCASAccessible env)) (\<lambda>_.
     bindE (loadFor env sid) (\<lambda>a.
     bindE (readRs a) (\<lambda>rs.
     bindE (liftE (applyCommitFromUser (en_node env) (en_storeEvent env) (rs_value rs) commit)) (\<lambda>updated.
     if tipFromState updated = tipFromState (rs_value rs) then returnE a
     else
       bindE (nextState env a updated) (\<lambda>_.
       bindE (updateStateIfPinned env (loadFor env) a) (\<lambda>_.
       bindE (applyWriteOpts env a opts UPDATE) (\<lambda>_. returnE a)))))))"

definition createStreamFromGenesis :: "surroundings \<Rightarrow> nat \<Rightarrow> js \<Rightarrow> repo_opts \<Rightarrow> nat act" where
  "createStreamFromGenesis env type genesis opts =
     bindE (liftE (assertCASAccessible env)) (\<lambda>_.
     bindE (liftE (en_storeInitEvent env genesis type)) (\<lambda>genesisCid.
     bindE (liftE (newStreamID (en_codec env) (TypeCode type) (CidObj genesisCid))) (\<lambda>sid.
     bindE (repoLoad (en_fuel env) env sid opts True) (\<lambda>a.
     bindE (readRs a) (\<lambda>rs.
     let opType = (if length (st_log (rs_value rs)) = 1 then CREATE else LOAD) in
     bindE (updateStateIfPinned env (loadFor env) a) (\<lambda>_.
     bindE (applyWriteOpts env a opts opType) (\<lambda>_. returnE a)))))))"

section \<open>Subscriptions\<close>

text \<open>\<open>updates$\<close>, when a subscriber comes and when its subscription ends.\<close>

definition subscribeUpdates :: "surroundings \<Rightarrow> stream_state \<Rightarrow> nat act" where
  "subscribeUpdates env init =
     (let sid = StreamID (st_type init) (le_cid (hd (st_log init))) in
      bindE (fromMemoryOrStore env sid) (\<lambda>found.
      bindE (case found of Some a \<Rightarrow> returnE a | None \<Rightarrow> registerNew env init) (\<lambda>a.
      bindE (modifyE (\<lambda>w. w\<lparr>rp_inmemory := cacheEndure (rp_inmemory w) (idString env sid) a\<rparr>)) (\<lambda>_.
      bindE (readRs a) (\<lambda>rs.
      bindE (writeRs a (rs\<lparr>rs_subscriptions := rs_subscriptions rs + 1\<rparr>)) (\<lambda>_. returnE a))))))"

definition endSubscription :: "surroundings \<Rightarrow> nat \<Rightarrow> unit act" where
  "endSubscription env a =
     bindE (readRs a) (\<lambda>rs.
     let n = rs_subscriptions rs - 1 in
     bindE (writeRs a (rs\<lparr>rs_subscriptions := n\<rparr>)) (\<lambda>_.
     whenE (n = 0) (freeRunningState env (idString env (rs_id rs)))))"

end
