(* ===== verification/RepositoryInv.thy ===== *)
theory RepositoryInv
  imports Repository
begin

text \<open>
  The invariant of the repository: whatever sequence of operations runs, every running state in memory
  and every state in the state store belongs to the stream it is kept for, and its log is a chain of
  commits of the block store.
\<close>

section \<open>States keep their stream\<close>

lemma streamIdFromState_log:
  "logCids s' = logCids s @ xs \<Longrightarrow> st_type s' = st_type s \<Longrightarrow> st_log s \<noteq> [] \<Longrightarrow>
   st_log s' \<noteq> [] \<and> streamIdFromState s' = streamIdFromState s"
  by (cases "st_log s"; cases "st_log s'") (auto simp: logCids_def streamIdFromState_def)

lemma resetStateToCommit_id:
  assumes ok: "registryOk (nd_handlers nd)" and r: "resetStateToCommit nd s0 c f = Inr s" and "st_log s0 \<noteq> []"
  shows "st_log s \<noteq> [] \<and> streamIdFromState s = streamIdFromState s0"
proof -
  from r obtain lg stamped h where
    sync: "syncFullLog (nd_loader nd) (streamIdFromState s0) (Some c) = Inr lg"
    and copy: "copyTrustedTimestamps (st_log s0) lg f = Inr stamped"
    and h: "handlersGet (nd_handlers nd) (TypeCode (st_type s0)) = Inr h"
    and a: "applyLog h None (appliable_commits stamped) True = Inr (Some s)"
    by (auto simp: resetStateToCommit_def Let_def bindR_Inr_iff throwIf_Inr_iff)
  from syncFullLog_Inr [OF sync] obtain g cds where g: "unappliable_commits lg = g # cds"
    "le_cid g = sid_cid (streamIdFromState s0)" by blast
  with copyTrustedTimestamps_Inr(1) [OF copy] obtain g' cds' where
    g': "appliable_commits stamped = g' # cds'" "le_cid g' = sid_cid (streamIdFromState s0)"
    by (cases "appliable_commits stamped") auto
  from stream_handler.applyLog_genesis [OF handlersGet_ok [OF ok h] a [unfolded g'(1)]] obtain k where
    "logCids s = le_cid g' # map le_cid (take k cds')" "st_type s = st_type s0" by blast
  with g'(2) show ?thesis by (cases "st_log s") (auto simp: logCids_def streamIdFromState_def)
qed

lemma split_picked: "(case p of Log1 \<Rightarrow> x | Log2 \<Rightarrow> y) = (if p = Log1 then x else y)"
  by (cases p) simp_all

lemma applyLogWithoutCacao_id:
  assumes ok: "registryOk (nd_handlers nd)" and ne: "st_log s \<noteq> []"
    and r: "applyLogWithoutCacao nd s lg opts = Inr s'"
  shows "st_log s' \<noteq> [] \<and> streamIdFromState s' = streamIdFromState s"
proof (cases "appliable_commits lg")
  case Nil
  with r ne show ?thesis by (simp add: applyLogWithoutCacao_def)
next
  case (Cons first rest)
  from r Cons obtain h ext where h: "handlersGet (nd_handlers nd) (TypeCode (st_type s)) = Inr h"
    by (auto simp: applyLogWithoutCacao_def bindR_Inr_iff)
  note sh = handlersGet_ok [OF ok h]
  from r Cons h consider
      "applyLog h (Some s) (appliable_commits lg) (throwOnInvalidCommit opts) = Inr (Some s')"
    | "s' = s"
    | c s1 where "resetStateToCommit nd s c False = Inr s1"
        "applyLog h (Some s1) (appliable_commits lg) (throwOnInvalidCommit opts) = Inr (Some s')"
    by (auto simp: applyLogWithoutCacao_def bindR_Inr_iff Let_def split_picked simp del: applyLog.simps
        split: if_splits)
  then show ?thesis
  proof cases
    case 1
    from stream_handler.applyLog_prefix [OF sh 1] streamIdFromState_log ne show ?thesis by blast
  next
    case 2
    with ne show ?thesis by simp
  next
    case 3
    note s1 = resetStateToCommit_id [OF ok 3(1) ne]
    from stream_handler.applyLog_prefix [OF sh 3(2)] obtain k where
      "logCids s' = logCids s1 @ map le_cid (take k (appliable_commits lg))" "st_type s' = st_type s1" by blast
    from streamIdFromState_log [OF this] s1 show ?thesis by simp
  qed
qed

text \<open>What the operations of this section need of their surroundings.\<close>

definition soundWorld :: "surroundings \<Rightarrow> bool" where
  "soundWorld env \<longleftrightarrow> registryOk (nd_handlers (en_node env)) \<and>
     (\<forall>t. nd_handlers (en_node env) t \<noteq> None \<longrightarrow> t < maxSafe) \<and>
     (\<forall>sid. boundedStore (nd_loader (en_node env)) sid) \<and> text_lib_ok (en_text env)"

lemma applyTipToState_sound:
  assumes w: "soundWorld env" and s: "soundState env sid s" and r: "applyTipToState (en_node env) s tip opts = Inr s'"
  shows "soundState env sid s'"
proof -
  have ok: "registryOk (nd_handlers (en_node env))" and b: "boundedStore (nd_loader (en_node env)) sid"
    using w by (simp_all add: soundWorld_def)
  from r obtain lg where "applyLogWithoutCacao (en_node env) s lg opts = Inr s'"
    by (auto simp: applyTipToState_def bindR_Inr_iff applyLogToState_Inr)
  from applyLogWithoutCacao_id [OF ok _ this] s have id: "st_log s' \<noteq> []" "streamIdFromState s' = sid"
    by (auto simp: soundState_def)
  have "storedLog (nd_loader (en_node env)) sid (logCids s')" if "genuine env sid"
    using applyTipToState_stored(1) [OF ok _ _ r] s b id that by (auto simp: soundState_def)
  with id s show ?thesis by (simp add: soundState_def)
qed

lemma syncStream_sound:
  assumes w: "soundWorld env"
  shows "soundState env sid s \<Longrightarrow> syncStream (en_node env) s tips = Inr s' \<Longrightarrow> soundState env sid s'"
proof (induction tips arbitrary: s)
  case (Cons tip tips)
  show ?case
  proof (cases "applyTipToState (en_node env) s tip networkOpts")
    case (Inl e)
    with Cons show ?thesis by (cases e) auto
  next
    case (Inr s1)
    with Cons applyTipToState_sound [OF w Cons.prems(1) Inr] show ?thesis by auto
  qed
qed simp

lemma storedLog_prefix:
  assumes "getCommitData ld (le_cid g) sid = Inr g" "jsGet (cd_commit g) ''prev'' = Inr v" "\<not> jsTruthy v"
    and "le_cid g = sid_cid sid" and "linkedFrom (le_cid g) cds"
    and "\<forall>cd \<in> set cds. getCommitData ld (le_cid cd) sid = Inr cd"
  shows "storedLog ld sid (take (Suc k) (map le_cid (g # cds)))"
proof -
  have base: "storedLog ld sid [le_cid g]" using assms(1-4) by (auto simp: storedLog_def)
  show ?thesis
  proof (cases cds)
    case Nil
    with base show ?thesis by simp
  next
    case (Cons cd rest)
    with assms(5) have "jsGet (cd_commit cd) ''prev'' = Inr (CidV (le_cid g))" by simp
    with storedLog_extend [OF base, of 1 cds "le_cid g" k] assms(5,6) Cons show ?thesis by simp
  qed
qed

lemma loadStateFromTip_sound:
  assumes w: "soundWorld env" and r: "loadStateFromTip (en_node env) sid tip allow throw = Inr (Some s)"
  shows "soundState env sid s"
proof -
  have ok: "registryOk (nd_handlers (en_node env))" using w by (simp add: soundWorld_def)
  from r obtain lg where lg: "syncFullLog (nd_loader (en_node env)) sid (Some tip) = Inr lg"
    and a: "applyFullLog (en_node env) (sid_type sid) (verifyAnchorAndApplyTimestamps (nd_loader (en_node env)) lg) throw = Inr s"
    by (auto simp: loadStateFromTip_def bindR_Inr_iff split: sum.splits if_splits)
  from syncFullLog_Inr [OF lg] obtain g cds where g: "unappliable_commits lg = g # cds" "le_cid g = sid_cid sid"
    "linkedFrom (le_cid g) cds" "\<forall>cd \<in> set (g # cds). getCommitData (nd_loader (en_node env)) (le_cid cd) sid = Inr cd"
    by blast
  from applyFullLog_Inr [OF ok a] obtain k where k: "0 < k"
    "logCids s = take k (map le_cid (g # cds))" "st_type s = sid_type sid"
    using g(1) by (auto simp: take_map [symmetric])
  then obtain k' where k': "k = Suc k'" by (cases k) auto
  have "st_log s \<noteq> []" "streamIdFromState s = sid"
    using k k' g(2) by (cases "st_log s"; auto simp: logCids_def streamIdFromState_def)+
  moreover have "sid_type sid < maxSafe"
  proof -
    from a obtain h where "handlersGet (nd_handlers (en_node env)) (TypeCode (sid_type sid)) = Inr h"
      by (auto simp: applyFullLog_def bindR_Inr_iff)
    with w show ?thesis by (auto simp: soundWorld_def)
  qed
  moreover have "storedLog (nd_loader (en_node env)) sid (logCids s)" if gen: "genuine env sid"
  proof -
    from gen g(2,4) obtain v where "jsGet (cd_commit g) ''prev'' = Inr v" "\<not> jsTruthy v"
      by (auto simp: genuine_def)
    with storedLog_prefix [of "nd_loader (en_node env)" g sid v cds k'] g k k' show ?thesis by simp
  qed
  ultimately show ?thesis by (simp add: soundState_def)
qed

lemma loadGenesisState_sound:
  "soundWorld env \<Longrightarrow> loadGenesisState (en_node env) sid = Inr s \<Longrightarrow> soundState env sid s"
  by (auto simp: loadGenesisState_def bindR_Inr_iff intro: loadStateFromTip_sound)

lemma applyTipsLoop_sound:
  assumes w: "soundWorld env"
  shows "(\<And>s. m = Some s \<Longrightarrow> soundState env sid s) \<Longrightarrow> applyTipsLoop (en_node env) sid m tips = Inr (Some s') \<Longrightarrow>
    soundState env sid s'"
proof (induction tips arbitrary: m)
  case (Cons tip tips)
  show ?case
  proof (cases m)
    case None
    with Cons.prems obtain m' where "loadStateFromTip (en_node env) sid tip True False = Inr m'"
      "applyTipsLoop (en_node env) sid m' tips = Inr (Some s')" by (auto simp: bindR_Inr_iff)
    then show ?thesis using Cons.IH [of m'] loadStateFromTip_sound [OF w] by blast
  next
    case (Some s)
    with Cons.prems obtain s1 where "applyTipToState (en_node env) s tip networkOpts = Inr s1"
      "applyTipsLoop (en_node env) sid (Some s1) tips = Inr (Some s')" by (auto simp: bindR_Inr_iff)
    with Cons.IH [of "Some s1"] Cons.prems(1) Some applyTipToState_sound [OF w] show ?thesis by blast
  qed
qed simp

lemma applyTips_sound:
  "soundWorld env \<Longrightarrow> applyTips (en_node env) sid tips = Inr s \<Longrightarrow> soundState env sid s"
  using applyTipsLoop_sound [of env None sid tips] loadGenesisState_sound [of env sid s]
  by (auto simp: applyTips_def bindR_Inr_iff split: option.splits)

lemma loadStream_sound:
  "soundWorld env \<Longrightarrow> loadStream (en_node env) sid tips = Inr s \<Longrightarrow> soundState env sid s"
  by (auto simp: loadStream_def bindR_Inr_iff intro: applyTips_sound)

lemma resyncStream_sound:
  "soundWorld env \<Longrightarrow> resyncStream (en_node env) sid known tips = Inr s \<Longrightarrow> soundState env sid s"
  by (auto simp: resyncStream_def bindR_Inr_iff intro: applyTips_sound)

lemma stateAtCommit_sound:
  "soundWorld env \<Longrightarrow> stateAtCommit (en_node env) cid = Inr s \<Longrightarrow> soundState env (commitIDBase cid) s"
  by (auto simp: stateAtCommit_def bindR_Inr_iff intro: loadStateFromTip_sound)

lemma loaderResetStateToCommit_sound:
  assumes w: "soundWorld env" and s: "soundState env sid s"
    and r: "loaderResetStateToCommit (en_node env) s c = Inr s'"
  shows "soundState env sid s'"
proof -
  have ok: "registryOk (nd_handlers (en_node env))" and b: "boundedStore (nd_loader (en_node env)) sid"
    using w by (simp_all add: soundWorld_def)
  from r obtain s1 where s1: "applyTipToState (en_node env) s (commitIDCommit c) commitOpts = Inr s1"
    and r1: "resetStateToCommit (en_node env) s1 (commitIDCommit c) True = Inr s'"
    by (auto simp: loaderResetStateToCommit_def bindR_Inr_iff)
  note s1s = applyTipToState_sound [OF w s s1]
  with resetStateToCommit_id [OF ok r1] have id: "st_log s' \<noteq> []" "streamIdFromState s' = sid" "sid_type sid < maxSafe"
    by (auto simp: soundState_def)
  have "storedLog (nd_loader (en_node env)) sid (logCids s')" if gen: "genuine env sid"
  proof -
    have st: "storedLog (nd_loader (en_node env)) (streamIdFromState s1) (logCids s1)"
      using s1s gen by (simp add: soundState_def)
    from storedLog_length [OF b] st s1s have len: "length (logCids s1) \<le> ld_fuel (nd_loader (en_node env))"
      by (simp add: soundState_def)
    from resetStateToCommit_Inr [OF ok st len r1] obtain i where
      i: "i < length (logCids s1)" "logCids s' = take (Suc i) (logCids s1)" by blast
    from st s1s have st': "storedLog (nd_loader (en_node env)) sid (logCids s1)" by (simp add: soundState_def)
    have "storedLog (nd_loader (en_node env)) sid (take (Suc i) (logCids s1))"
      using st' i(1) unfolding storedLog_def by (auto simp: hd_conv_nth)
    with i(2) show ?thesis by simp
  qed
  with id show ?thesis by (simp add: soundState_def)
qed

lemma applyCommitFromUser_sound:
  "soundWorld env \<Longrightarrow> soundState env sid s \<Longrightarrow> applyCommitFromUser (en_node env) st s commit = Inr s' \<Longrightarrow>
   soundState env sid s'"
  by (auto simp: applyCommitFromUser_def bindR_Inr_iff intro: applyTipToState_sound)

section \<open>The commands on the node\<close>

lemma heldAt_kept: "soundRepo env u \<Longrightarrow> laterRepo u v \<Longrightarrow> heldAt sid a u \<Longrightarrow> heldAt sid a v"
  by (rule heldAt_later)

lemma laterRepo_heap: "rp_heap w' = rp_heap w \<Longrightarrow> laterRepo w w'"
  by (simp add: laterRepo_def)

lemma soundRepo_heap:
  "soundRepo env w \<Longrightarrow> rp_heap w' = rp_heap w \<Longrightarrow> rp_inmemory w' = rp_inmemory w \<Longrightarrow> rp_states w' = rp_states w \<Longrightarrow>
   rp_background w' = rp_background w \<Longrightarrow> soundRepo env w'"
  by (simp add: soundRepo_def soundCache_def)

lemma safely_read:
  "repos.safely env (heldAt sid a) (readRs a) (\<lambda>rs w. soundRs env rs \<and> rs_id rs = sid \<and> heldAt sid a w)"
  unfolding readRs_def by (rule repos.safely_get) (auto simp: heldAt_def soundRepo_def)

lemma rs_id_update: "rs_id rs = rs_id (h ! a) \<Longrightarrow> rs_id (h[a := rs] ! b) = rs_id (h ! b)"
  by (cases "a < length h"; cases "b = a") (simp_all add: list_update_beyond)

lemma laterRepo_write:
  "rs_id rs = rs_id (rp_heap w ! a) \<Longrightarrow> laterRepo w (w\<lparr>rp_heap := (rp_heap w)[a := rs]\<rparr>)"
  by (simp add: laterRepo_def rs_id_update)

lemma soundRepo_write:
  assumes "soundRepo env w" and "soundRs env rs" and "rs_id rs = rs_id (rp_heap w ! a)"
  shows "soundRepo env (w\<lparr>rp_heap := (rp_heap w)[a := rs]\<rparr>)"
proof -
  have "soundRs env ((rp_heap w)[a := rs] ! b)" if "b < length (rp_heap w)" for b
    using that assms(1,2) by (cases "b = a") (simp_all add: soundRepo_def)
  with assms(1) rs_id_update [OF assms(3)] show ?thesis by (simp add: soundRepo_def soundCache_def)
qed

lemma safely_write:
  assumes "soundRs env rs"
  shows "repos.safely env (heldAt (rs_id rs) a) (writeRs a rs) (\<lambda>_ w. heldAt (rs_id rs) a w)"
  unfolding writeRs_def
proof (rule repos.safely_modify)
  fix w assume w: "soundRepo env w" "heldAt (rs_id rs) a w"
  then have id: "rs_id rs = rs_id (rp_heap w ! a)" by (simp add: heldAt_def)
  let ?w = "w\<lparr>rp_heap := (rp_heap w)[a := rs]\<rparr>"
  have "laterRepo w ?w" by (rule laterRepo_write [OF id])
  with soundRepo_write [OF w(1) assms id] heldAt_later [OF this w(2)]
  show "soundRepo env ?w \<and> laterRepo w ?w \<and> heldAt (rs_id rs) a ?w" by simp
qed

lemma safely_alloc:
  assumes "soundRs env rs"
  shows "repos.safely env (\<lambda>_. True) (allocRs rs) (\<lambda>a w. heldAt (rs_id rs) a w)"
proof (rule keepsI)
  fix w assume w: "soundRepo env w"
  let ?w = "w\<lparr>rp_heap := rp_heap w @ [rs]\<rparr>"
  have "soundRepo env ?w"
    using w assms by (fastforce simp: soundRepo_def soundCache_def nth_append less_Suc_eq)
  moreover have "laterRepo w ?w" by (simp add: laterRepo_def nth_append)
  ultimately show "soundRepo env (snd (allocRs rs w)) \<and> laterRepo w (snd (allocRs rs w)) \<and>
      (\<forall>x. fst (allocRs rs w) = Inr x \<longrightarrow> heldAt (rs_id rs) x (snd (allocRs rs w)))"
    by (simp add: allocRs_def heldAt_def)
qed

lemma rsNext_Inr: "rsNext lib rs s = Inr rs' \<Longrightarrow> rs_id rs' = rs_id rs \<and> (rs' = rs \<or> rs_value rs' = s)"
  by (auto simp: rsNext_def bindR_Inr_iff)

lemma safely_next:
  assumes "soundState env sid s"
  shows "repos.safely env (heldAt sid a) (nextState env a s) (\<lambda>_ w. heldAt sid a w)"
  unfolding nextState_def
proof (rule repos.safely_seq [OF safely_read heldAt_kept])
  fix rs
  show "repos.safely env (\<lambda>w. (soundRs env rs \<and> rs_id rs = sid \<and> heldAt sid a w) \<and> heldAt sid a w)
      (bindE (liftE (rsNext (en_text env) rs s)) (writeRs a)) (\<lambda>_ w. heldAt sid a w)"
  proof (cases "rsNext (en_text env) rs s")
    case (Inl e)
    then show ?thesis by (simp add: repos.safely_throw)
  next
    case (Inr rs')
    show ?thesis
    proof (cases "soundRs env rs \<and> rs_id rs = sid")
      case True
      with rsNext_Inr [OF Inr] assms have "soundRs env rs'" "rs_id rs' = sid" by (auto simp: soundRs_def)
      with safely_write [of env rs' a] Inr show ?thesis
        by (auto intro: repos.safely_weaken)
    qed (auto simp: keeps_def)
  qed
qed

section \<open>The cache\<close>

lemma soundRepo_cache:
  assumes "soundRepo env w" and "set (cacheEntries c) \<subseteq> set (cacheEntries (rp_inmemory w))"
  shows "soundRepo env (w\<lparr>rp_inmemory := c\<rparr>)"
  using assms by (auto simp: soundRepo_def soundCache_def)

lemma onEvicted_sound:
  "soundRepo env w \<Longrightarrow> a < length (rp_heap w) \<Longrightarrow>
   soundRepo env (onEvicted env a w) \<and> laterRepo w (onEvicted env a w)"
proof (induction env a w rule: onEvicted.induct)
  case (1 env a w)
  let ?rs = "rp_heap w ! a"
  define w1 where "w1 = w\<lparr>rp_heap := (rp_heap w)[a := completeRs ?rs]\<rparr>"
  have id: "rs_id (completeRs ?rs) = rs_id ?rs" by (simp add: completeRs_def)
  have "soundRs env (completeRs ?rs)"
    using 1(2,3) by (simp add: soundRs_def completeRs_def soundRepo_def)
  from soundRepo_write [OF 1(2) this id] laterRepo_write [OF id]
  have w1: "soundRepo env w1" "laterRepo w w1" by (simp_all add: w1_def)
  show ?case
  proof (cases "rs_subscriptions ?rs = 0")
    case True
    with w1 show ?thesis by (simp add: onEvicted.simps [of env a w] w1_def)
  next
    case False
    obtain c ev where c: "cacheFree (en_evict env) (rp_inmemory w1) (idString env (rs_id ?rs)) = (c, ev)"
      by (cases "cacheFree (en_evict env) (rp_inmemory w1) (idString env (rs_id ?rs))")
    define w2 where "w2 = w1\<lparr>rp_inmemory := c\<rparr>"
    have w2: "soundRepo env w2" "laterRepo w1 w2"
      using soundRepo_cache [OF w1(1) cacheFree_entries(1) [OF c]] by (simp_all add: w2_def laterRepo_def)
    show ?thesis
    proof (cases ev)
      case None
      then have "onEvicted env a w = w2"
        using False c by (simp add: onEvicted.simps [of env a w] w1_def [symmetric] w2_def)
      with w1 w2 repos.later_trans show ?thesis by blast
    next
      case (Some b)
      with cacheFree_entries(2) [OF c] obtain l where "(l, b) \<in> set (cacheEntries (rp_inmemory w1))" by blast
      with w1(1) have b: "b < length (rp_heap w2)" by (auto simp: soundRepo_def soundCache_def w2_def)
      have e: "onEvicted env a w = onEvicted env b w2"
        using False c Some by (simp add: onEvicted.simps [of env a w] w1_def [symmetric] w2_def)
      have "soundRepo env (onEvicted env b w2) \<and> laterRepo w2 (onEvicted env b w2)"
        using 1(1) [OF refl w1_def False] c Some w2(1) b by (simp add: w2_def)
      with e w1 w2 repos.later_trans show ?thesis by metis
    qed
  qed
qed

lemma handleEviction_sound:
  "soundRepo env w \<Longrightarrow> (\<And>a. ev = Some a \<Longrightarrow> a < length (rp_heap w)) \<Longrightarrow>
   soundRepo env (handleEviction env ev w) \<and> laterRepo w (handleEviction env ev w)"
  using onEvicted_sound by (cases ev) (auto simp: handleEviction_def laterRepo_def)

lemma safely_register:
  "repos.safely env (heldAt sid a) (registerRunningState env a) (\<lambda>_ w. heldAt sid a w)"
  unfolding registerRunningState_def
proof (rule repos.safely_modify)
  fix w assume w: "soundRepo env w" "heldAt sid a w"
  then have a: "a < length (rp_heap w)" by (simp add: heldAt_def)
  let ?k = "idString env (rs_id (rp_heap w ! a))"
  obtain c ev where c: "cacheSet (en_evict env) (rp_inmemory w) ?k a = (c, ev)"
    by (cases "cacheSet (en_evict env) (rp_inmemory w) ?k a")
  let ?w = "w\<lparr>rp_inmemory := c\<rparr>"
  have "soundCache env ?w" "\<And>b. ev = Some b \<Longrightarrow> b < length (rp_heap ?w)"
    using cacheSet_entries(1) [OF c] cacheSet_entries(2) [OF c] w(1) a
    by (fastforce simp: soundRepo_def soundCache_def)+
  with w(1) have "soundRepo env ?w" by (simp add: soundRepo_def)
  from handleEviction_sound [OF this] \<open>\<And>b. ev = Some b \<Longrightarrow> b < length (rp_heap ?w)\<close>
  have h: "soundRepo env (handleEviction env ev ?w)" "laterRepo ?w (handleEviction env ev ?w)" by blast+
  have "laterRepo w (handleEviction env ev ?w)"
    using h(2) by (simp add: laterRepo_def)
  with h(1) heldAt_later [OF this w(2)] c
  show "soundRepo env (let (c, ev) = cacheSet (en_evict env) (rp_inmemory w) ?k a
        in handleEviction env ev (w\<lparr>rp_inmemory := c\<rparr>)) \<and>
      laterRepo w (let (c, ev) = cacheSet (en_evict env) (rp_inmemory w) ?k a
        in handleEviction env ev (w\<lparr>rp_inmemory := c\<rparr>)) \<and>
      heldAt sid a (let (c, ev) = cacheSet (en_evict env) (rp_inmemory w) ?k a
        in handleEviction env ev (w\<lparr>rp_inmemory := c\<rparr>))"
    by simp
qed

lemma safely_free: "repos.safely env P (freeRunningState env k) (\<lambda>_ _. True)"
  unfolding freeRunningState_def
proof (rule repos.safely_modify)
  fix w assume w: "soundRepo env w"
  obtain c ev where c: "cacheFree (en_evict env) (rp_inmemory w) k = (c, ev)"
    by (cases "cacheFree (en_evict env) (rp_inmemory w) k")
  let ?w = "w\<lparr>rp_inmemory := c\<rparr>"
  have "soundRepo env ?w" by (rule soundRepo_cache [OF w cacheFree_entries(1) [OF c]])
  moreover have "\<And>b. ev = Some b \<Longrightarrow> b < length (rp_heap ?w)"
    using cacheFree_entries(2) [OF c] w by (fastforce simp: soundRepo_def soundCache_def)
  ultimately have "soundRepo env (handleEviction env ev ?w)" "laterRepo ?w (handleEviction env ev ?w)"
    using handleEviction_sound by blast+
  then show "soundRepo env (let (c, ev) = cacheFree (en_evict env) (rp_inmemory w) k
        in handleEviction env ev (w\<lparr>rp_inmemory := c\<rparr>)) \<and>
      laterRepo w (let (c, ev) = cacheFree (en_evict env) (rp_inmemory w) k
        in handleEviction env ev (w\<lparr>rp_inmemory := c\<rparr>)) \<and> True"
    using c by (simp add: laterRepo_def)
qed

text \<open>Changes that leave the running states, the cache and the state store alone.\<close>

lemma safely_aside:
  assumes "\<And>w. rp_heap (f w) = rp_heap w \<and> rp_inmemory (f w) = rp_inmemory w \<and> rp_states (f w) = rp_states w \<and>
    rp_background (f w) = rp_background w"
  shows "repos.safely env P (modifyE f) (\<lambda>_ _. True)"
  by (rule repos.safely_modify) (use assms soundRepo_heap laterRepo_heap in blast)

section \<open>Rules for sequences of commands\<close>

definition aliveAt :: "nat \<Rightarrow> repo \<Rightarrow> bool" where
  "aliveAt a w \<longleftrightarrow> a < length (rp_heap w)"

definition stable :: "(repo \<Rightarrow> bool) \<Rightarrow> bool" where
  "stable P \<longleftrightarrow> (\<forall>u v. laterRepo u v \<longrightarrow> P u \<longrightarrow> P v)"

named_theorems stables \<open>conditions that hold in all later states\<close>

lemma stable_rules [stables]:
  "stable (heldAt sid a)" "stable (aliveAt a)" "stable (\<lambda>_. b)"
  "stable P \<Longrightarrow> stable Q \<Longrightarrow> stable (\<lambda>w. P w \<and> Q w)"
  by (auto simp: stable_def heldAt_later aliveAt_def laterRepo_def)

lemma heldAt_alive [intro]: "heldAt sid a w \<Longrightarrow> aliveAt a w"
  by (simp add: heldAt_def aliveAt_def)

text \<open>\<open>any env m\<close>: the command keeps the invariant. \<open>onRs env a m\<close>: it does if \<open>a\<close> is a running state.\<close>

abbreviation any :: "surroundings \<Rightarrow> 'a act \<Rightarrow> bool" where
  "any env m \<equiv> repos.safely env (\<lambda>_. True) m (\<lambda>_ _. True)"

abbreviation onRs :: "surroundings \<Rightarrow> nat \<Rightarrow> 'a act \<Rightarrow> bool" where
  "onRs env a m \<equiv> repos.safely env (aliveAt a) m (\<lambda>_ _. True)"

abbreviation gives :: "surroundings \<Rightarrow> nat act \<Rightarrow> bool" where
  "gives env m \<equiv> repos.safely env (\<lambda>_. True) m aliveAt"

abbreviation givesOpt :: "surroundings \<Rightarrow> nat option act \<Rightarrow> bool" where
  "givesOpt env m \<equiv> repos.safely env (\<lambda>_. True) m (\<lambda>r w. \<forall>a. r = Some a \<longrightarrow> aliveAt a w)"

lemma safely_step:
  assumes "repos.safely env P1 m R" and "\<And>w. P w \<Longrightarrow> P1 w" and "stable P"
    and "\<And>x. repos.safely env (\<lambda>w. R x w \<and> P w) (f x) Q"
  shows "repos.safely env P (bindE m f) Q"
proof (rule repos.safely_seq [OF _ _ assms(4)])
  show "repos.safely env P m R" using assms(1) by (rule repos.safely_weaken) (use assms(2) in auto)
qed (use assms(3) in \<open>auto simp: stable_def\<close>)

lemma safely_then:
  assumes "repos.safely env P1 m R" and "\<And>w. P w \<Longrightarrow> P1 w" and "stable P" and "\<And>x. repos.safely env P (f x) Q"
  shows "repos.safely env P (bindE m f) Q"
  by (rule safely_step [OF assms(1-3)]) (use assms(4) in \<open>auto intro: repos.safely_weaken\<close>)

lemma safely_pure: "(b \<Longrightarrow> repos.safely env P m Q) \<Longrightarrow> repos.safely env (\<lambda>w. b \<and> P w) m Q"
  by (auto simp: keeps_def)

lemma safely_bind_lift:
  "(\<And>x. r = Inr x \<Longrightarrow> repos.safely env P (f x) Q) \<Longrightarrow> repos.safely env P (bindE (liftE r) f) Q"
  by (cases r) (simp_all add: repos.safely_throw)

lemma safely_bind_get:
  "(\<And>x. repos.safely env P (f x) Q) \<Longrightarrow> repos.safely env P (bindE (getE g) f) Q"
  by (simp add: keeps_def)

lemma safely_bind_read:
  assumes "\<And>w. P w \<Longrightarrow> aliveAt a w" and "stable P"
    and "\<And>rs. soundRs env rs \<Longrightarrow> repos.safely env (\<lambda>w. heldAt (rs_id rs) a w \<and> P w) (f rs) Q"
  shows "repos.safely env P (bindE (readRs a) f) Q"
proof (rule safely_step)
  show "repos.safely env (aliveAt a) (readRs a) (\<lambda>rs w. soundRs env rs \<and> heldAt (rs_id rs) a w)"
    unfolding readRs_def by (rule repos.safely_get) (auto simp: aliveAt_def heldAt_def soundRepo_def)
  show "repos.safely env (\<lambda>w. (soundRs env rs \<and> heldAt (rs_id rs) a w) \<and> P w) (f rs) Q" for rs
    using assms(3) [of rs] by (auto simp: keeps_def)
qed (use assms in auto)

lemma safely_any: "repos.safely env P m Q \<Longrightarrow> (\<And>w. P' w \<Longrightarrow> P w) \<Longrightarrow> repos.safely env P' m (\<lambda>_ _. True)"
  by (auto intro: repos.safely_weaken)

lemma any_return: "repos.safely env P (returnE x) (\<lambda>_ _. True)"
  by (simp add: repos.safely_return)

lemma any_when: "repos.safely env P m (\<lambda>_ _. True) \<Longrightarrow> repos.safely env P (whenE b m) (\<lambda>_ _. True)"
  by (simp add: whenE_def any_return)

section \<open>The state store\<close>

lemma safely_storeLoad:
  "repos.safely env P (storeLoad env sid) (\<lambda>r _. \<forall>s. r = Some s \<longrightarrow>
     (\<exists>i. idString env i = idString env sid \<and> soundState env i s))"
  unfolding storeLoad_def
proof (rule keepsI)
  fix w assume w: "soundRepo env w"
  show "soundRepo env (snd (bindE (getE rp_states) (\<lambda>st. liftE (stateStoreLoad (en_text env) st sid)) w)) \<and>
      laterRepo w (snd (bindE (getE rp_states) (\<lambda>st. liftE (stateStoreLoad (en_text env) st sid)) w)) \<and>
      (\<forall>x. fst (bindE (getE rp_states) (\<lambda>st. liftE (stateStoreLoad (en_text env) st sid)) w) = Inr x \<longrightarrow>
        (\<forall>s. x = Some s \<longrightarrow> (\<exists>i. idString env i = idString env sid \<and> soundState env i s)))"
    using w by (auto simp: ef_simps repos.later_refl soundRepo_def soundStore_def elim!: stateStoreLoad_Some) metis
qed

lemma soundStore_put:
  assumes "soundStore env (Some m)" and "text_lib_ok (en_text env)" and "soundState env sid s"
    and "serializeState (en_text env) s = Inr ser"
  shows "soundStore env (Some (kvPut m (idString env sid) ser))"
proof -
  have "soundState env sid s'" if "deserializeState (en_text env) (Some ser) = Inr (Some s')" for s'
    using deserialize_log [OF assms(2,4) that] assms(3) by (simp add: soundState_def streamIdFromState_def logCids_def)
  with assms(1) show ?thesis by (auto simp: soundStore_def split: if_splits)
qed

lemma safely_storeSave:
  assumes "soundWorld env" and "soundState env sid s"
  shows "any env (storeSave env sid s)"
  unfolding storeSave_def
proof (rule keepsI)
  fix w assume w: "soundRepo env w"
  let ?m = "bindE (getE rp_states) (\<lambda>st. bindE (liftE (stateStoreSave (en_text env) st sid s))
     (\<lambda>st'. modifyE (\<lambda>w. w\<lparr>rp_states := st'\<rparr>)))"
  show "soundRepo env (snd (?m w)) \<and> laterRepo w (snd (?m w)) \<and> (\<forall>x. fst (?m w) = Inr x \<longrightarrow> True)"
  proof (cases "stateStoreSave (en_text env) (rp_states w) sid s")
    case (Inl e)
    with w show ?thesis by (simp add: ef_simps repos.later_refl)
  next
    case (Inr st)
    then obtain m ser where m: "rp_states w = Some m" "serializeState (en_text env) s = Inr ser"
      "st = Some (kvPut m (idString env sid) ser)" by (rule stateStoreSave_Inr)
    have "soundStore env st"
      unfolding m(3) by (rule soundStore_put) (use assms w m in \<open>simp_all add: soundWorld_def soundRepo_def\<close>)
    with Inr w show ?thesis by (simp add: ef_simps soundRepo_def soundCache_def laterRepo_def)
  qed
qed

lemma safely_storeRemove: "any env (storeRemove env sid)"
  unfolding storeRemove_def
proof (rule keepsI)
  fix w assume w: "soundRepo env w"
  let ?m = "bindE (getE rp_states) (\<lambda>st. bindE (liftE (stateStoreRemove (en_text env) st sid))
     (\<lambda>st'. modifyE (\<lambda>w. w\<lparr>rp_states := st'\<rparr>)))"
  show "soundRepo env (snd (?m w)) \<and> laterRepo w (snd (?m w)) \<and> (\<forall>x. fst (?m w) = Inr x \<longrightarrow> True)"
  proof (cases "rp_states w")
    case None
    with w show ?thesis
      by (simp add: stateStoreRemove_def objRemove_def throwIfNotOpened_def ef_simps repos.later_refl)
  next
    case (Some m)
    with w show ?thesis
      by (auto simp: stateStoreRemove_def objRemove_def throwIfNotOpened_def ef_simps soundRepo_def soundCache_def
          soundStore_def laterRepo_def split: if_splits)
  qed
qed

section \<open>Pinning\<close>

lemma soundRs_mark: "soundRs env (markAsPinned rs) = soundRs env rs" "rs_id (markAsPinned rs) = rs_id rs"
  "soundRs env (markAsUnpinned rs) = soundRs env rs" "rs_id (markAsUnpinned rs) = rs_id rs"
  by (simp_all add: soundRs_def markAsPinned_def markAsUnpinned_def)

lemma safely_writeRs:
  "soundRs env rs \<Longrightarrow> repos.safely env (heldAt (rs_id rs) a) (writeRs a rs) (\<lambda>_ _. True)"
  by (rule safely_any [OF safely_write])

lemma safely_pinPoints: "any env (pinPoints env points)"
  unfolding pinPoints_def
  by (rule safely_then [OF safely_aside]) (auto intro: stables repos.safely_lift)

lemma safely_pinAdd:
  assumes w: "soundWorld env" and L: "\<And>sid. gives env (loadFn sid)"
  shows "onRs env a (pinAdd n env loadFn a force)"
proof (induction n arbitrary: a force)
  case 0
  show ?case by (simp add: repos.safely_throw)
next
  case (Suc n)
  show ?case
    unfolding pinAdd.simps Let_def
  proof (rule safely_bind_read)
    fix rs assume rs: "soundRs env rs"
    let ?P = "\<lambda>w. heldAt (rs_id rs) a w \<and> aliveAt a w"
    have st: "stable ?P" by (intro stables)
    have model: "repos.safely env ?P (case model of None \<Rightarrow> returnE ()
        | Some sid \<Rightarrow> bindE (loadFn sid) (\<lambda>m. pinAdd n env loadFn m False)) (\<lambda>_ _. True)" for model
    proof (cases model)
      case None
      then show ?thesis by (simp add: any_return)
    next
      case (Some sid)
      show ?thesis unfolding Some option.case
        by (rule safely_step [OF L]) (auto intro: st safely_any [OF Suc.IH])
    qed
    have "repos.safely env ?P (bindE (writeRs a (markAsPinned rs)) (\<lambda>_.
        bindE (liftE (pinnedModel (st_metadata (rs_value rs)))) (\<lambda>model. case model of None \<Rightarrow> returnE ()
          | Some sid \<Rightarrow> bindE (loadFn sid) (\<lambda>m. pinAdd n env loadFn m False)))) (\<lambda>_ _. True)"
      by (rule safely_then [OF safely_writeRs _ st])
        (use rs in \<open>auto simp: soundRs_mark intro: safely_bind_lift model\<close>)
    then have "repos.safely env ?P (bindE (storeSave env (rs_id rs) (rs_value rs)) (\<lambda>_.
        bindE (writeRs a (markAsPinned rs)) (\<lambda>_.
        bindE (liftE (pinnedModel (st_metadata (rs_value rs)))) (\<lambda>model. case model of None \<Rightarrow> returnE ()
          | Some sid \<Rightarrow> bindE (loadFn sid) (\<lambda>m. pinAdd n env loadFn m False))))) (\<lambda>_ _. True)"
      by (intro safely_then [OF safely_storeSave [OF w] _ st]) (use rs in \<open>simp_all add: soundRs_def\<close>)
    then show "repos.safely env ?P (if newCommits rs force = [] then returnE ()
        else bindE (liftE (getComponentCIDsOfCommits env True (newCommits rs force))) (\<lambda>points.
          bindE (pinPoints env points) (\<lambda>_.
          bindE (storeSave env (rs_id rs) (rs_value rs)) (\<lambda>_.
          bindE (writeRs a (markAsPinned rs)) (\<lambda>_.
          bindE (liftE (pinnedModel (st_metadata (rs_value rs)))) (\<lambda>model. case model of None \<Rightarrow> returnE ()
            | Some sid \<Rightarrow> bindE (loadFn sid) (\<lambda>m. pinAdd n env loadFn m False))))))) (\<lambda>_ _. True)"
      by (intro repos.safely_if any_return safely_bind_lift safely_then [OF safely_pinPoints _ st]) simp_all
  qed (auto intro: stables)
qed

lemma safely_pinRm: "onRs env a (pinRm env a)"
  unfolding pinRm_def
proof (intro safely_bind_read safely_bind_lift)
  fix rs points
  let ?P = "\<lambda>w. heldAt (rs_id rs) a w \<and> aliveAt a w"
  have st: "stable ?P" by (intro stables)
  have "repos.safely env ?P (bindE (readRs a) (\<lambda>rs'. writeRs a (markAsUnpinned rs'))) (\<lambda>_ _. True)"
    by (rule safely_bind_read) (auto intro: st safely_any [OF safely_writeRs] simp: soundRs_mark)
  then show "repos.safely env ?P (bindE (modifyE (\<lambda>w. w\<lparr>rp_pinned := filter (\<lambda>p. \<not> (p \<in> set points \<and>
      (\<exists>u. en_unpin env p = Inr u))) (rp_pinned w)\<rparr>)) (\<lambda>_. bindE (storeRemove env (rs_id rs)) (\<lambda>_.
      bindE (readRs a) (\<lambda>rs'. writeRs a (markAsUnpinned rs'))))) (\<lambda>_ _. True)"
    by (intro safely_then [OF safely_aside _ st] safely_then [OF safely_storeRemove _ st]) simp_all
qed (auto intro: stables)

end
