(* ===== verification/RepositoryProps.thy ===== *)
theory RepositoryProps
  imports RepositoryInv
begin

text \<open>
  Every operation of the repository keeps the invariant, the step relation of a node, and the
  properties of the repository.
\<close>

section \<open>Loading\<close>

definition heldFor :: "surroundings \<Rightarrow> stream_id \<Rightarrow> nat \<Rightarrow> repo \<Rightarrow> bool" where
  "heldFor env sid a w \<longleftrightarrow> (\<exists>i. idString env i = idString env sid \<and> heldAt i a w)"

lemma heldFor_stable [stables]: "stable (heldFor env sid a)"
  using heldAt_later by (fastforce simp: stable_def heldFor_def)

lemma heldFor_alive [intro]: "heldFor env sid a w \<Longrightarrow> aliveAt a w"
  by (auto simp: heldFor_def)

lemma heldAt_heldFor [intro]: "heldAt sid a w \<Longrightarrow> heldFor env sid a w"
  by (auto simp: heldFor_def)

abbreviation loads :: "surroundings \<Rightarrow> stream_id \<Rightarrow> nat act \<Rightarrow> bool" where
  "loads env sid m \<equiv> repos.safely env (\<lambda>_. True) m (heldFor env sid)"

abbreviation loadsOpt :: "surroundings \<Rightarrow> stream_id \<Rightarrow> nat option act \<Rightarrow> bool" where
  "loadsOpt env sid m \<equiv> repos.safely env (\<lambda>_. True) m (\<lambda>r w. \<forall>a. r = Some a \<longrightarrow> heldFor env sid a w)"

lemma loads_gives: "loads env sid m \<Longrightarrow> gives env m"
  by (auto intro: repos.safely_weaken)

lemma new_sound: "soundState env sid s \<Longrightarrow> soundRs env (newRunningState s pinned) \<and> rs_id (newRunningState s pinned) = sid"
  by (simp add: soundRs_def newRunningState_def Let_def soundRs_mark markAsPinned_def soundState_def streamIdFromState_def)

lemma safely_new:
  assumes "soundState env sid s"
  shows "repos.safely env (\<lambda>_. True) (bindE (allocRs (newRunningState s pinned))
    (\<lambda>a. bindE (registerRunningState env a) (\<lambda>_. returnE a))) (heldAt sid)"
proof (rule repos.safely_bind)
  show "repos.safely env (\<lambda>_. True) (allocRs (newRunningState s pinned)) (heldAt sid)"
    using safely_alloc [of env "newRunningState s pinned"] new_sound [OF assms] by simp
  show "repos.safely env (heldAt sid a) (bindE (registerRunningState env a) (\<lambda>_. returnE a)) (heldAt sid)" for a
    by (rule repos.safely_bind [OF safely_register]) (simp add: repos.safely_return)
qed

lemma loads_registerNew: "soundState env sid s \<Longrightarrow> loads env sid (registerNew env s)"
  unfolding registerNew_def by (rule repos.safely_weaken [OF safely_new]) auto

lemma loadsOpt_fromMemory: "loadsOpt env sid (fromMemory env sid)"
  unfolding fromMemory_def
  by (rule repos.safely_get)
    (force simp: soundRepo_def soundCache_def heldFor_def heldAt_def dest: cacheGet_entry)

lemma loadsOpt_store: "loadsOpt env sid (fromStreamStateStore env sid)"
  unfolding fromStreamStateStore_def
proof (rule repos.safely_bind [OF safely_storeLoad])
  fix stored
  let ?P = "\<lambda>w :: repo. \<forall>s. stored = Some s \<longrightarrow> (\<exists>i. idString env i = idString env sid \<and> soundState env i s)"
  show "repos.safely env ?P (case stored of None \<Rightarrow> returnE None
      | Some s \<Rightarrow> bindE (allocRs (newRunningState s True))
          (\<lambda>a. bindE (registerRunningState env a) (\<lambda>_. returnE (Some a))))
      (\<lambda>r w. \<forall>a. r = Some a \<longrightarrow> heldFor env sid a w)"
  proof (cases stored)
    case None
    then show ?thesis by (simp add: repos.safely_return)
  next
    case (Some s)
    show ?thesis
    proof (cases "\<exists>i. idString env i = idString env sid \<and> soundState env i s")
      case True
      then obtain i where i: "idString env i = idString env sid" "soundState env i s" by blast
      have "repos.safely env (\<lambda>_. True) (bindE (allocRs (newRunningState s True))
          (\<lambda>a. bindE (registerRunningState env a) (\<lambda>_. returnE (Some a)))) (\<lambda>r w. \<forall>a. r = Some a \<longrightarrow> heldAt i a w)"
      proof (rule repos.safely_bind)
        show "repos.safely env (\<lambda>_. True) (allocRs (newRunningState s True)) (heldAt i)"
          using safely_alloc [of env "newRunningState s True"] new_sound [OF i(2)] by simp
        show "repos.safely env (heldAt i a) (bindE (registerRunningState env a) (\<lambda>_. returnE (Some a)))
            (\<lambda>r w. \<forall>a. r = Some a \<longrightarrow> heldAt i a w)" for a
          by (rule repos.safely_bind [OF safely_register]) (simp add: repos.safely_return)
      qed
      then show ?thesis unfolding Some option.case
        by (rule repos.safely_weaken) (use i in \<open>auto simp: heldFor_def\<close>)
    qed (auto simp: keeps_def Some)
  qed
qed

lemma safely_case_option:
  "(x = None \<Longrightarrow> repos.safely env P m Q) \<Longrightarrow> (\<And>y. x = Some y \<Longrightarrow> repos.safely env P (f y) Q) \<Longrightarrow>
   repos.safely env P (case x of None \<Rightarrow> m | Some y \<Rightarrow> f y) Q"
  by (cases x) simp_all

lemma loadsOpt_memoryOrStore: "loadsOpt env sid (fromMemoryOrStore env sid)"
  unfolding fromMemoryOrStore_def
proof (rule repos.safely_bind [OF loadsOpt_fromMemory], rule safely_case_option)
  fix found :: "nat option" assume "found = None"
  show "repos.safely env (\<lambda>w. \<forall>a. found = Some a \<longrightarrow> heldFor env sid a w) (fromStreamStateStore env sid)
      (\<lambda>r w. \<forall>a. r = Some a \<longrightarrow> heldFor env sid a w)"
    by (rule repos.safely_weaken [OF loadsOpt_store]) auto
qed (auto intro: repos.safely_return)

lemma loadsOpt_syncStatus:
  "repos.safely env (\<lambda>_. True) (fromMemoryOrStoreWithSyncStatus env sid)
     (\<lambda>(r, _) w. \<forall>a. r = Some a \<longrightarrow> heldFor env sid a w)"
  unfolding fromMemoryOrStoreWithSyncStatus_def
proof (rule repos.safely_bind [OF loadsOpt_fromMemory], rule safely_case_option)
  fix found :: "nat option" assume "found = None"
  show "repos.safely env (\<lambda>w. \<forall>a. found = Some a \<longrightarrow> heldFor env sid a w)
      (bindE (fromStreamStateStore env sid) (\<lambda>stored. case stored of
           Some a \<Rightarrow> bindE (wasPinnedStreamSynced env sid) (\<lambda>synced.
             returnE (Some a, if synced then ALREADY_SYNCED else NOT_SYNCED))
         | None \<Rightarrow> returnE (None, NOT_SYNCED)))
      (\<lambda>(r, _) w. \<forall>a. r = Some a \<longrightarrow> heldFor env sid a w)"
  proof (rule repos.safely_bind)
    show "repos.safely env (\<lambda>w. \<forall>a. found = Some a \<longrightarrow> heldFor env sid a w) (fromStreamStateStore env sid)
        (\<lambda>r w. \<forall>a. r = Some a \<longrightarrow> heldFor env sid a w)"
      by (rule repos.safely_weaken [OF loadsOpt_store]) auto
  qed (auto intro!: safely_case_option repos.safely_return safely_bind_get simp: wasPinnedStreamSynced_def)
qed (auto intro: repos.safely_return)

lemma loads_lift_new:
  "(\<And>s. r = Inr s \<Longrightarrow> soundState env sid s) \<Longrightarrow> loads env sid (bindE (liftE r) (registerNew env))"
  by (rule safely_bind_lift) (auto intro: loads_registerNew)

lemma loads_network:
  assumes "soundWorld env"
  shows "loads env sid (loadStreamFromNetwork env sid)" and "loads env sid (genesisFromNetwork env sid)"
  unfolding loadStreamFromNetwork_def genesisFromNetwork_def
  by (rule loads_lift_new; use loadStream_sound [OF assms] loadGenesisState_sound [OF assms] in blast)+

lemma safely_sync:
  assumes w: "soundWorld env"
  shows "onRs env a (syncRunningState env a)"
  unfolding syncRunningState_def
proof (intro safely_bind_read safely_bind_lift)
  fix rs s assume "soundRs env rs"
    and "syncStream (en_node env) (rs_value rs) (en_tips env (streamIdFromState (rs_value rs))) = Inr s"
  then have "soundState env (rs_id rs) s" using syncStream_sound [OF w] by (auto simp: soundRs_def)
  from safely_next [OF this, of a] show "repos.safely env (\<lambda>w. heldAt (rs_id rs) a w \<and> aliveAt a w)
      (nextState env a s) (\<lambda>_ _. True)" by (rule safely_any) simp
qed (auto intro: stables)

lemma loads_resync:
  assumes w: "soundWorld env"
  shows "repos.safely env (\<lambda>w. \<forall>a. existing = Some a \<longrightarrow> aliveAt a w) (resyncStreamFromNetwork env sid existing)
    (heldFor env sid)"
proof (cases existing)
  case None
  have "loads env sid (resyncStreamFromNetwork env sid existing)"
    unfolding resyncStreamFromNetwork_def None option.case
    by (rule loads_lift_new) (use loadStream_sound [OF w] in blast)
  then show ?thesis by (rule repos.safely_weaken) simp_all
next
  case (Some a)
  have "repos.safely env (aliveAt a) (bindE (bindE (readRs a) (\<lambda>rs.
      liftE (resyncStream (en_node env) sid (rsTip rs) (en_tips env sid)))) (registerNew env)) (heldFor env sid)"
  proof (rule repos.safely_bind)
    show "repos.safely env (aliveAt a) (bindE (readRs a) (\<lambda>rs.
        liftE (resyncStream (en_node env) sid (rsTip rs) (en_tips env sid)))) (\<lambda>s _. soundState env sid s)"
      by (rule safely_bind_read) (auto intro: stables repos.safely_lift resyncStream_sound [OF w])
    show "repos.safely env (\<lambda>_. soundState env sid s) (registerNew env s) (heldFor env sid)" for s
      using loads_registerNew [of env sid s] by (auto simp: keeps_def)
  qed
  then show ?thesis unfolding resyncStreamFromNetwork_def Some option.case
    by (rule repos.safely_weaken) simp_all
qed

lemma loads_task:
  assumes w: "soundWorld env"
  shows "repos.safely env (\<lambda>_. True) (loadTask env sid opts) (\<lambda>(a, _) w. heldFor env sid a w)"
proof -
  have ret: "repos.safely env P m (heldFor env sid) \<Longrightarrow>
      repos.safely env P (bindE m (\<lambda>a. returnE (a, st))) (\<lambda>(a, _) w. heldFor env sid a w)" for P m and st :: sync_status
    by (rule repos.safely_bind) (auto intro: repos.safely_return)
  have net: "repos.safely env P (loadStreamFromNetwork env sid) (heldFor env sid)"
    "repos.safely env P (genesisFromNetwork env sid) (heldFor env sid)" for P
    using loads_network [OF w] by (auto intro: repos.safely_weaken)
  have sync: "repos.safely env (heldFor env sid a) (bindE (syncRunningState env a) (\<lambda>_. returnE (a, DID_SYNC)))
      (\<lambda>(a, _) w. heldFor env sid a w)" for a
    by (rule safely_then [OF safely_sync [OF w]]) (auto intro: stables repos.safely_return)
  have res: "repos.safely env (\<lambda>w. \<forall>a. existing = Some a \<longrightarrow> heldFor env sid a w)
      (resyncStreamFromNetwork env sid existing) (heldFor env sid)" for existing
    by (rule repos.safely_weaken [OF loads_resync [OF w]]) auto
  show ?thesis
  proof (cases "en_rustCeramic env")
    case True
    show ?thesis unfolding loadTask_def if_P [OF True]
    proof (rule repos.safely_bind [OF loadsOpt_memoryOrStore], rule safely_case_option)
    qed (auto intro: ret net repos.safely_return)
  next
    case False
    have main: "repos.safely env (\<lambda>w. \<forall>a. existing = Some a \<longrightarrow> heldFor env sid a w)
        (case syncOption opts of
          SYNC_ALWAYS \<Rightarrow> bindE (resyncStreamFromNetwork env sid existing) (\<lambda>a. returnE (a, DID_SYNC))
        | NEVER_SYNC \<Rightarrow> (case existing of
            Some a \<Rightarrow> returnE (a, st)
          | None \<Rightarrow> bindE (genesisFromNetwork env sid) (\<lambda>a. returnE (a, NOT_SYNCED)))
        | InvalidSync \<Rightarrow> throwE (Err ''Invalid sync option'')
        | _ \<Rightarrow> (case existing of
            None \<Rightarrow> bindE (loadStreamFromNetwork env sid) (\<lambda>a. returnE (a, DID_SYNC))
          | Some a \<Rightarrow>
              if st = ALREADY_SYNCED then returnE (a, ALREADY_SYNCED)
              else bindE (syncRunningState env a) (\<lambda>_. returnE (a, DID_SYNC))))
        (\<lambda>(a, _) w. heldFor env sid a w)" for existing st
    proof (cases existing)
      case None
      show ?thesis unfolding None
        by (cases "syncOption opts") (auto intro: ret net repos.safely_throw res [of None, simplified])
    next
      case (Some a)
      have s: "repos.safely env (\<lambda>w. \<forall>b. Some a = Some b \<longrightarrow> heldFor env sid b w)
          (bindE (syncRunningState env a) (\<lambda>_. returnE (a, DID_SYNC))) (\<lambda>(a, _) w. heldFor env sid a w)"
        using sync [of a] by simp
      show ?thesis unfolding Some
        by (cases "syncOption opts") (auto intro: ret repos.safely_throw res [of "Some a", simplified] repos.safely_return s [simplified])
    qed
    show ?thesis unfolding loadTask_def if_not_P [OF False]
    proof (rule repos.safely_bind [OF loadsOpt_syncStatus])
    qed (use main in \<open>auto split: prod.splits\<close>)
  qed
qed

section \<open>Updating what is stored and indexed\<close>

lemma safely_index: "onRs env a (indexStreamIfNeeded env a)"
  unfolding indexStreamIfNeeded_def Let_def
  by (intro safely_bind_read safely_bind_lift repos.safely_if any_return safely_any [OF safely_aside])
    (auto intro: stables)

lemma safely_publish: "onRs env a (publishTip a)"
  unfolding publishTip_def
  by (intro safely_bind_read safely_bind_lift safely_any [OF safely_aside]) (auto intro: stables)

lemma safely_markers: "any env (markPinnedAndSynced env sid)" "any env (markUnpinned env sid)"
  unfolding markPinnedAndSynced_def markUnpinned_def by (rule safely_aside; simp)+

lemma safely_update:
  assumes w: "soundWorld env" and L: "\<And>sid. gives env (loadFn sid)"
  shows "onRs env a (updateStateIfPinned env loadFn a)"
  unfolding updateStateIfPinned_def pinUnsafe_def
proof (rule safely_bind_read)
  fix rs :: running_state
  let ?P = "\<lambda>w. heldAt (rs_id rs) a w \<and> aliveAt a w"
  have st: "stable ?P" by (intro stables)
  have pin: "repos.safely env ?P (whenE b (bindE (pinAdd (en_fuel env) env loadFn a False)
      (\<lambda>_. modifyE (\<lambda>w. w\<lparr>rp_feed := rp_feed w @ [rs_id rs]\<rparr>)))) (\<lambda>_ _. True)" for b
    by (intro any_when safely_then [OF safely_pinAdd [OF w L] _ st] safely_any [OF safely_aside]) auto
  have idx: "repos.safely env ?P (indexStreamIfNeeded env a) (\<lambda>_ _. True)"
    by (rule safely_any [OF safely_index]) simp
  show "repos.safely env ?P (bindE (storeLoad env (rs_id rs)) (\<lambda>stored.
      bindE (liftE (jsGet (rsMetadata rs) ''model'')) (\<lambda>model.
      bindE (whenE (stored \<noteq> None \<or> jsTruthy model \<and> en_shouldIndexStream env model)
        (bindE (pinAdd (en_fuel env) env loadFn a False) (\<lambda>_. modifyE (\<lambda>w. w\<lparr>rp_feed := rp_feed w @ [rs_id rs]\<rparr>))))
      (\<lambda>_. indexStreamIfNeeded env a)))) (\<lambda>_ _. True)"
    by (intro safely_then [OF safely_storeLoad _ st] safely_bind_lift safely_then [OF pin _ st] idx)
qed (auto intro: stables)

lemma loads_with:
  assumes w: "soundWorld env" and L: "\<And>sid. gives env (loadFn sid)"
  shows "loads env sid (loadWith loadFn env sid opts chk)"
  unfolding loadWith_def
proof (rule repos.safely_bind [OF loads_task [OF w]])
  fix x :: "nat \<times> sync_status"
  obtain a st where x: "x = (a, st)" by (cases x)
  let ?P = "\<lambda>w. heldFor env sid a w"
  have st: "stable ?P" by (intro stables)
  have upd: "repos.safely env ?P (whenE b (bindE (updateStateIfPinned env loadFn a) (\<lambda>_. bindE (readRs a) (\<lambda>rs'.
        whenE (st = DID_SYNC \<and> rsIsPinned rs') (markPinnedAndSynced env (rs_id rs')))))) (\<lambda>_ _. True)" for b
    by (intro any_when safely_then [OF safely_update [OF w L] _ st] safely_bind_read)
      (auto intro: stables safely_any [OF safely_markers(1)])
  have main: "repos.safely env (\<lambda>w. heldAt (rs_id rs) a w \<and> ?P w) (bindE (liftE r) (\<lambda>_.
      bindE (whenE b (bindE (updateStateIfPinned env loadFn a) (\<lambda>_. bindE (readRs a) (\<lambda>rs'.
        whenE (st = DID_SYNC \<and> rsIsPinned rs') (markPinnedAndSynced env (rs_id rs')))))) (\<lambda>_. returnE a)))
      (heldFor env sid)" for rs :: running_state and r :: "js_error + unit" and b
    by (intro safely_bind_lift safely_then [OF upd]) (auto intro: stables repos.safely_return)
  show "repos.safely env (case x of (a, _) \<Rightarrow> heldFor env sid a) (case x of (a, st) \<Rightarrow> bindE (readRs a) (\<lambda>rs.
      bindE (liftE (if chk then checkForCacaoExpiration (nd_now (en_node env)) (rs_value rs) else Inr ())) (\<lambda>_.
      bindE (whenE (st \<noteq> ALREADY_SYNCED) (bindE (updateStateIfPinned env loadFn a) (\<lambda>_. bindE (readRs a) (\<lambda>rs'.
        whenE (st = DID_SYNC \<and> rsIsPinned rs') (markPinnedAndSynced env (rs_id rs')))))) (\<lambda>_. returnE a))))
      (heldFor env sid)"
    unfolding x prod.case by (rule safely_bind_read [OF _ st main]) auto
qed

lemma loads_repoLoad:
  assumes w: "soundWorld env"
  shows "loads env sid (repoLoad n env sid opts chk)"
proof (induction n arbitrary: sid opts chk)
  case (Suc n)
  show ?case unfolding repoLoad.simps by (rule loads_with [OF w]) (rule loads_gives [OF Suc.IH])
qed (simp add: repos.safely_throw)

lemma gives_loadFor: "soundWorld env \<Longrightarrow> gives env (loadFor env sid)"
  by (rule loads_gives [OF loads_repoLoad])

lemma safely_updateFor: "soundWorld env \<Longrightarrow> onRs env a (updateStateIfPinned env (loadFor env) a)"
  by (rule safely_update) (auto intro: gives_loadFor)

lemma safely_pinFor: "soundWorld env \<Longrightarrow> onRs env a (pinUnsafe env (loadFor env) a force)"
  unfolding pinUnsafe_def by (rule safely_pinAdd) (auto intro: gives_loadFor)

section \<open>The other operations\<close>

lemma safely_nextSound:
  "soundState env (rs_id rs) s \<Longrightarrow> (\<And>w. P w \<Longrightarrow> heldAt (rs_id rs) a w) \<Longrightarrow>
   repos.safely env P (nextState env a s) (\<lambda>_ _. True)"
  by (rule safely_any [OF safely_next])

lemma safely_unpin: "onRs env a (unpinStream env a publish)"
  unfolding unpinStream_def
proof (intro safely_bind_read safely_bind_lift)
  fix rs :: running_state
  let ?P = "\<lambda>w. heldAt (rs_id rs) a w \<and> aliveAt a w"
  have st: "stable ?P" by (intro stables)
  show "repos.safely env ?P (bindE (whenE publish (publishTip a)) (\<lambda>_. bindE (markUnpinned env (rs_id rs)) (\<lambda>_.
      pinRm env a))) (\<lambda>_ _. True)"
    by (intro safely_then [OF any_when [OF safely_publish] _ st] safely_then [OF safely_markers(2) _ st]
        safely_any [OF safely_pinRm]) auto
qed (auto intro: stables)

lemma safely_pinOpts: "soundWorld env \<Longrightarrow> onRs env a (handlePinOpts env a opts opType)"
  unfolding handlePinOpts_def
  by (intro repos.safely_if any_return safely_bind_read safely_any [OF safely_pinFor] safely_any [OF safely_unpin])
    (auto intro: stables)

lemma safely_handleTip:
  assumes w: "soundWorld env"
  shows "onRs env a (handleTip env a tip)"
  unfolding handleTip_def
proof (intro safely_bind_read safely_bind_lift)
  fix rs s assume "soundRs env rs" "applyTipFromNetwork (en_node env) (rs_value rs) tip = Inr s"
  then have s: "soundState env (rs_id rs) s"
    using applyTipToState_sound [OF w] by (auto simp: soundRs_def applyTipFromNetwork_def)
  let ?P = "\<lambda>w. heldAt (rs_id rs) a w \<and> aliveAt a w"
  have st: "stable ?P" by (intro stables)
  show "repos.safely env ?P (bindE (nextState env a s) (\<lambda>_.
      bindE (updateStateIfPinned env (loadFor env) a) (\<lambda>_. returnE True))) (\<lambda>_ _. True)"
    by (intro safely_then [OF safely_next [OF s] _ st] safely_then [OF safely_updateFor [OF w] _ st] any_return) auto
qed (auto intro: stables)

lemma safely_setAnchorStatus: "onRs env a (setAnchorStatus env a status)"
  unfolding setAnchorStatus_def
proof (rule safely_bind_read)
  fix rs assume "soundRs env rs"
  then have "soundState env (rs_id rs) ((rs_value rs)\<lparr>st_anchorStatus := status\<rparr>)"
    by (simp add: soundRs_def soundState_def streamIdFromState_def logCids_def)
  then show "repos.safely env (\<lambda>w. heldAt (rs_id rs) a w \<and> aliveAt a w)
      (nextState env a ((rs_value rs)\<lparr>st_anchorStatus := status\<rparr>)) (\<lambda>_ _. True)"
    by (rule safely_nextSound) simp
qed (auto intro: stables)

lemma safely_anchor: "onRs env a (anchorStream env a)"
proof -
  have bg: "repos.safely env (aliveAt a) (modifyE (\<lambda>w. w\<lparr>rp_background := rp_background w @ [(a, event)]\<rparr>))
      (\<lambda>_ _. True)" for event
    by (rule repos.safely_modify) (auto simp: soundRepo_def soundCache_def laterRepo_def aliveAt_def)
  show ?thesis unfolding anchorStream_def
    by (intro safely_bind_lift safely_bind_read repos.safely_if any_return safely_then [OF safely_aside]
        safely_any [OF bg]) (auto intro: stables)
qed

lemma safely_attempts:
  assumes w: "soundWorld env"
  shows "onRs env a (anchorAttempts n env a tip car sid c)"
proof (induction n)
  case (Suc n)
  have st: "stable (aliveAt a)" by (intro stables)
  show ?case unfolding anchorAttempts.simps
  proof (rule repos.safely_catch)
    show "onRs env a (bindE (liftE (en_importCAR env n car sid)) (\<lambda>_.
        bindE (handleTip env a c) (\<lambda>applied. whenE applied (publishTip a))))"
      by (intro safely_bind_lift safely_then [OF safely_handleTip [OF w] _ st] any_when safely_publish) simp
    show "onRs env a (if n = 0 then bindE (readRs a) (\<lambda>rs.
        bindE (whenE (tip = rsTip rs) (setAnchorStatus env a FAILED)) (\<lambda>_. throwE e))
        else anchorAttempts n env a tip car sid c)" for e
      by (intro repos.safely_if safely_bind_read safely_then [OF any_when [OF safely_setAnchorStatus]])
        (auto intro: stables Suc repos.safely_throw)
  qed (use st in \<open>auto simp: stable_def\<close>)
qed (simp add: any_return)

lemma safely_anchorCommit: "soundWorld env \<Longrightarrow> onRs env a (handleAnchorCommit env a tip car)"
  unfolding handleAnchorCommit_def
  by (intro safely_bind_read safely_case_option repos.safely_throw)
    (auto intro: stables repos.safely_throw safely_any [OF safely_attempts] split: list.split)

lemma safely_anchorEvent:
  assumes w: "soundWorld env"
  shows "onRs env a (handleAnchorEvent env a event)"
  unfolding handleAnchorEvent_def Let_def
proof (rule safely_bind_read)
  fix rs :: running_state
  let ?P = "\<lambda>w. heldAt (rs_id rs) a w \<and> aliveAt a w"
  have st: "stable ?P" by (intro stables)
  have progress: "repos.safely env ?P (if ae_cid event \<noteq> rsTip rs then returnE False
       else if st_anchorStatus (rs_value rs) = status then returnE False
       else bindE (setAnchorStatus env a status) (\<lambda>_.
         bindE (updateStateIfPinned env (loadFor env) a) (\<lambda>_. returnE False))) (\<lambda>_ _. True)" for status
    by (intro repos.safely_if any_return safely_then [OF safely_setAnchorStatus _ st]
        safely_then [OF safely_updateFor [OF w] _ st]) auto
  have completed: "repos.safely env ?P (bindE (handleAnchorCommit env a (ae_cid event) (ae_witness event))
      (\<lambda>_. returnE True)) (\<lambda>_ _. True)"
    by (intro safely_then [OF safely_anchorCommit [OF w] _ st] any_return) auto
  have failed: "repos.safely env ?P (bindE (whenE (ae_cid event = rsTip rs) (setAnchorStatus env a FAILED))
      (\<lambda>_. returnE True)) (\<lambda>_ _. True)"
    by (intro safely_then [OF any_when [OF safely_setAnchorStatus] _ st] any_return) auto
  show "repos.safely env ?P (case ae_status event of
          ReadyStatus \<Rightarrow> if ae_cid event \<noteq> rsTip rs then returnE False
            else if st_anchorStatus (rs_value rs) = PENDING then returnE False
            else bindE (setAnchorStatus env a PENDING) (\<lambda>_.
              bindE (updateStateIfPinned env (loadFor env) a) (\<lambda>_. returnE False))
        | PendingStatus \<Rightarrow> if ae_cid event \<noteq> rsTip rs then returnE False
            else if st_anchorStatus (rs_value rs) = PENDING then returnE False
            else bindE (setAnchorStatus env a PENDING) (\<lambda>_.
              bindE (updateStateIfPinned env (loadFor env) a) (\<lambda>_. returnE False))
        | ProcessingStatus \<Rightarrow> if ae_cid event \<noteq> rsTip rs then returnE False
            else if st_anchorStatus (rs_value rs) = PROCESSING then returnE False
            else bindE (setAnchorStatus env a PROCESSING) (\<lambda>_.
              bindE (updateStateIfPinned env (loadFor env) a) (\<lambda>_. returnE False))
        | CompletedStatus \<Rightarrow> bindE (handleAnchorCommit env a (ae_cid event) (ae_witness event)) (\<lambda>_. returnE True)
        | FailedStatus \<Rightarrow> bindE (whenE (ae_cid event = rsTip rs) (setAnchorStatus env a FAILED)) (\<lambda>_. returnE True)
        | ReplacedStatus \<Rightarrow> returnE True) (\<lambda>_ _. True)"
    by (cases "ae_status event") (simp_all only: request_status.case progress completed failed any_return)
qed (auto intro: stables)

end
