(* ===== verification/RepositorySteps.thy ===== *)
theory RepositorySteps
  imports RepositoryProps
begin

text \<open>
  The calls that a node makes on its repository as one step relation, and the invariant over every
  sequence of them.
\<close>

section \<open>The entry points keep the invariant\<close>

lemma safely_pinStream: "soundWorld env \<Longrightarrow> onRs env a (pinStream env a force)"
  unfolding pinStream_def by (rule safely_pinFor)

lemma safely_loadAtCommit:
  assumes w: "soundWorld env"
  shows "any env (loadAtCommit env commitId opts)"
proof -
  let ?sid = "commitIDBase commitId"
  have load: "repos.safely env (\<lambda>_. True) (catchE (bindE (repoLoad (en_fuel env) env ?sid opts False)
      (\<lambda>a. returnE (Some a))) (\<lambda>_. returnE None)) (\<lambda>r w. \<forall>a. r = Some a \<longrightarrow> aliveAt a w)"
  proof (rule repos.safely_catch)
    show "givesOpt env (bindE (repoLoad (en_fuel env) env ?sid opts False) (\<lambda>a. returnE (Some a)))"
      by (rule repos.safely_bind [OF loads_gives [OF loads_repoLoad [OF w]]]) (simp add: repos.safely_return)
  qed (simp_all add: repos.safely_return)
  have upd: "onRs env a (updateStateIfPinned env (loadFor env) a)" for a
    by (rule safely_updateFor [OF w])
  have fresh: "any env (bindE (bindE (registerNew env s) (updateStateIfPinned env (loadFor env))) (\<lambda>_. returnE s))"
    if "soundState env ?sid s" for s
  proof (rule repos.safely_bind)
    show "any env (bindE (registerNew env s) (updateStateIfPinned env (loadFor env)))"
      by (rule repos.safely_bind [OF loads_gives [OF loads_registerNew [OF that]] upd])
  qed (rule any_return)
  have existing: "repos.safely env (\<lambda>w. heldAt i a w) (bindE (bindE (readRs a) (\<lambda>rs.
        whenE (isStateSupersetOf s (rs_value rs)) (bindE (nextState env a s)
          (\<lambda>_. updateStateIfPinned env (loadFor env) a)))) (\<lambda>_. returnE s)) (\<lambda>_ _. True)"
    if s: "soundState env i s" for i a s
  proof (rule repos.safely_bind)
    show "repos.safely env (heldAt i a) (bindE (readRs a) (\<lambda>rs.
        whenE (isStateSupersetOf s (rs_value rs)) (bindE (nextState env a s)
          (\<lambda>_. updateStateIfPinned env (loadFor env) a)))) (\<lambda>_ _. True)"
      by (intro safely_bind_read any_when safely_then [OF safely_next [OF s]] safely_any [OF upd])
        (auto intro: stables)
  qed (rule any_return)
  show ?thesis unfolding loadAtCommit_def
  proof (rule repos.safely_bind [OF load])
    fix found
    show "repos.safely env (\<lambda>w. \<forall>a. found = Some a \<longrightarrow> aliveAt a w)
        (bindE (case found of
             Some a \<Rightarrow> bindE (readRs a) (\<lambda>rs. liftE (loaderResetStateToCommit (en_node env) (rs_value rs) commitId))
           | None \<Rightarrow> liftE (stateAtCommit (en_node env) commitId)) (\<lambda>s.
         bindE (liftE (checkForCacaoExpiration (nd_now (en_node env)) s)) (\<lambda>_.
         bindE (case found of
             Some a \<Rightarrow> bindE (readRs a) (\<lambda>rs. whenE (isStateSupersetOf s (rs_value rs))
                 (bindE (nextState env a s) (\<lambda>_. updateStateIfPinned env (loadFor env) a)))
           | None \<Rightarrow> bindE (registerNew env s) (updateStateIfPinned env (loadFor env))) (\<lambda>_.
         returnE s)))) (\<lambda>_ _. True)"
    proof (cases found)
      case None
      show ?thesis unfolding None option.case
        by (intro safely_bind_lift safely_any [OF fresh]) (auto intro: stateAtCommit_sound [OF w])
    next
      case (Some a)
      have "repos.safely env (aliveAt a) (bindE (bindE (readRs a)
          (\<lambda>rs. liftE (loaderResetStateToCommit (en_node env) (rs_value rs) commitId))) (\<lambda>s.
         bindE (liftE (checkForCacaoExpiration (nd_now (en_node env)) s)) (\<lambda>_.
         bindE (bindE (readRs a) (\<lambda>rs. whenE (isStateSupersetOf s (rs_value rs))
             (bindE (nextState env a s) (\<lambda>_. updateStateIfPinned env (loadFor env) a)))) (\<lambda>_.
         returnE s)))) (\<lambda>_ _. True)"
      proof (rule repos.safely_bind)
        show "repos.safely env (aliveAt a) (bindE (readRs a)
            (\<lambda>rs. liftE (loaderResetStateToCommit (en_node env) (rs_value rs) commitId)))
            (\<lambda>s w. \<exists>i. soundState env i s \<and> heldAt i a w)"
        proof (rule safely_bind_read)
          fix rs assume "soundRs env rs"
          then have "soundState env (rs_id rs) s" if "loaderResetStateToCommit (en_node env) (rs_value rs) commitId = Inr s" for s
            using loaderResetStateToCommit_sound [OF w _ that] by (simp add: soundRs_def)
          then show "repos.safely env (\<lambda>w. heldAt (rs_id rs) a w \<and> aliveAt a w)
              (liftE (loaderResetStateToCommit (en_node env) (rs_value rs) commitId))
              (\<lambda>s w. \<exists>i. soundState env i s \<and> heldAt i a w)"
            by (intro repos.safely_lift) blast
        qed (auto intro: stables)
        fix s
        show "repos.safely env (\<lambda>w. \<exists>i. soundState env i s \<and> heldAt i a w)
            (bindE (liftE (checkForCacaoExpiration (nd_now (en_node env)) s)) (\<lambda>_.
             bindE (bindE (readRs a) (\<lambda>rs. whenE (isStateSupersetOf s (rs_value rs))
               (bindE (nextState env a s) (\<lambda>_. updateStateIfPinned env (loadFor env) a)))) (\<lambda>_.
             returnE s))) (\<lambda>_ _. True)"
          using existing [of _ s a] by (intro safely_bind_lift) (auto simp: keeps_def)
      qed
      then show ?thesis unfolding Some option.case by (rule safely_any) simp
    qed
  qed
qed

lemma safely_loadAtTime:
  assumes w: "soundWorld env"
  shows "any env (loadAtTime env sid opts)"
  unfolding loadAtTime_def
proof (rule repos.safely_bind [OF loads_gives [OF loads_repoLoad [OF w]]])
  show "repos.safely env (aliveAt a) (bindE (readRs a) (\<lambda>rs.
      bindE (liftE (commitAtTime (en_codec env) (rs_value rs) (op_atTime opts))) (\<lambda>commitId.
      loadAtCommit env commitId opts))) (\<lambda>_ _. True)" for a
    by (intro safely_bind_read safely_bind_lift safely_any [OF safely_loadAtCommit [OF w]]) (auto intro: stables)
qed

lemma safely_handleUpdate:
  assumes w: "soundWorld env"
  shows "any env (handleUpdateFromNetwork env sid tip model)"
  unfolding handleUpdateFromNetwork_def Let_def
proof (rule repos.safely_bind [OF loadsOpt_memoryOrStore])
  fix found
  let ?P = "\<lambda>w. \<forall>a. found = Some a \<longrightarrow> heldFor env sid a w"
  have "repos.safely env ?P (case found of Some a \<Rightarrow> returnE a | None \<Rightarrow> loadFor env sid) aliveAt"
    by (rule safely_case_option)
      (auto intro!: repos.safely_return repos.safely_weaken [OF gives_loadFor [OF w]])
  then show "repos.safely env ?P
      (if \<not> (case model of None \<Rightarrow> False | Some m \<Rightarrow> en_shouldIndexStream env (SidV m)) \<and> found = None then returnE ()
       else bindE (case found of Some a \<Rightarrow> returnE a | None \<Rightarrow> loadFor env sid) (\<lambda>a.
         bindE (handleTip env a tip) (\<lambda>_. returnE ()))) (\<lambda>_ _. True)"
    by (intro repos.safely_if any_return)
      (erule repos.safely_bind, rule repos.safely_bind [OF safely_handleTip [OF w] any_return])
qed

lemma safely_reconEvent: "soundWorld env \<Longrightarrow> any env (reconEvent env c)"
  unfolding reconEvent_def Let_def by (intro safely_bind_lift safely_handleUpdate)

lemma safely_recon:
  assumes w: "soundWorld env"
  shows "any env (handleReconEvents env events cursor)"
  unfolding handleReconEvents_def
proof (rule repos.safely_bind)
  show "any env (forE (\<lambda>c. catchE (reconEvent env c) (\<lambda>_. returnE ())) events)"
    by (rule repos.safely_for) (auto intro!: repos.safely_catch safely_reconEvent [OF w] any_return)
qed (rule safely_aside; simp)

lemma safely_loop:
  assumes w: "soundWorld env"
  shows "any env (anchorLoopHandle env event)"
  unfolding anchorLoopHandle_def
proof (rule repos.safely_bind [OF loadsOpt_memoryOrStore], rule safely_case_option)
  fix found :: "nat option" and a assume "found = Some a"
  show "repos.safely env (\<lambda>w. \<forall>a. found = Some a \<longrightarrow> heldFor env (ae_streamId event) a w)
      (handleAnchorEvent env a event) (\<lambda>_ _. True)"
    by (rule safely_any [OF safely_anchorEvent [OF w]]) (use \<open>found = Some a\<close> in auto)
qed (rule any_return)

lemma safely_background:
  assumes w: "soundWorld env"
  shows "any env (runBackground env)"
proof -
  have task: "onRs env a (catchE (bindE (handleAnchorEvent env a event) (\<lambda>_. returnE ())) (\<lambda>_. returnE ()))" for a event
  proof (rule repos.safely_catch)
    show "onRs env a (bindE (handleAnchorEvent env a event) (\<lambda>_. returnE ()))"
      by (rule repos.safely_bind [OF safely_anchorEvent [OF w] any_return])
  qed (auto intro: any_return simp: aliveAt_def laterRepo_def)
  show ?thesis
  proof (rule keepsI)
    fix w assume s: "soundRepo env w"
    show "soundRepo env (snd (runBackground env w)) \<and> laterRepo w (snd (runBackground env w)) \<and>
        (\<forall>x. fst (runBackground env w) = Inr x \<longrightarrow> True)"
    proof (cases "rp_background w")
      case Nil
      with s show ?thesis by (simp add: runBackground_def ef_simps repos.later_refl)
    next
      case (Cons b rest)
      obtain a event where b: "b = (a, event)" by (cases b)
      let ?w = "w\<lparr>rp_background := rest\<rparr>"
      let ?m = "catchE (bindE (handleAnchorEvent env a event) (\<lambda>_. returnE ())) (\<lambda>_. returnE ())"
      have w1: "soundRepo env ?w" "aliveAt a ?w" "laterRepo w ?w"
        using s Cons b by (auto simp: soundRepo_def soundCache_def aliveAt_def laterRepo_def)
      obtain r w2 where m: "?m ?w = (r, w2)" by (cases "?m ?w")
      have "runBackground env w = (r, w2)" using Cons b m by (simp add: runBackground_def)
      with keepsD(1,2) [OF task w1(1,2) m] w1(3) repos.later_trans show ?thesis by auto
    qed
  qed
qed

lemma safely_writeOpts:
  assumes w: "soundWorld env"
  shows "onRs env a (applyWriteOpts env a opts opType)"
proof -
  have st: "stable (aliveAt a)" by (intro stables)
  show ?thesis unfolding applyWriteOpts_def
    by (intro safely_then [OF any_when [OF safely_anchor] _ st] safely_then [OF any_when [OF safely_publish] _ st]
        safely_pinOpts [OF w]) simp_all
qed

lemma gives_applyCommit:
  assumes w: "soundWorld env"
  shows "gives env (applyCommit env sid commit opts)"
  unfolding applyCommit_def
proof (intro safely_bind_lift, rule repos.safely_bind [OF gives_loadFor [OF w]], rule safely_bind_read)
  fix a rs assume rs: "soundRs env rs"
  let ?P = "\<lambda>w. heldAt (rs_id rs) a w \<and> aliveAt a w"
  have st: "stable ?P" by (intro stables)
  have fin: "repos.safely env ?P (returnE a) aliveAt" by (rule repos.safely_return) simp
  show "repos.safely env ?P
      (bindE (liftE (applyCommitFromUser (en_node env) (en_storeEvent env) (rs_value rs) commit)) (\<lambda>updated.
       if tipFromState updated = tipFromState (rs_value rs) then returnE a
       else bindE (nextState env a updated) (\<lambda>_. bindE (updateStateIfPinned env (loadFor env) a) (\<lambda>_.
         bindE (applyWriteOpts env a opts UPDATE) (\<lambda>_. returnE a))))) aliveAt"
  proof (intro safely_bind_lift repos.safely_if fin)
    fix s assume "applyCommitFromUser (en_node env) (en_storeEvent env) (rs_value rs) commit = Inr s"
    with rs have s: "soundState env (rs_id rs) s" using applyCommitFromUser_sound [OF w] by (auto simp: soundRs_def)
    show "repos.safely env ?P (bindE (nextState env a s) (\<lambda>_. bindE (updateStateIfPinned env (loadFor env) a) (\<lambda>_.
         bindE (applyWriteOpts env a opts UPDATE) (\<lambda>_. returnE a)))) aliveAt"
      by (intro safely_then [OF safely_next [OF s] _ st] safely_then [OF safely_updateFor [OF w] _ st]
          safely_then [OF safely_writeOpts [OF w] _ st] fin) auto
  qed
qed (auto intro: stables)

lemma gives_create:
  assumes w: "soundWorld env"
  shows "gives env (createStreamFromGenesis env type genesis opts)"
  unfolding createStreamFromGenesis_def Let_def
proof (intro safely_bind_lift, rule repos.safely_bind [OF loads_gives [OF loads_repoLoad [OF w]]], rule safely_bind_read)
  fix a rs
  let ?P = "\<lambda>w. heldAt (rs_id rs) a w \<and> aliveAt a w"
  have st: "stable ?P" by (intro stables)
  show "repos.safely env ?P (bindE (updateStateIfPinned env (loadFor env) a) (\<lambda>_.
      bindE (applyWriteOpts env a opts (if length (st_log (rs_value rs)) = 1 then CREATE else LOAD)) (\<lambda>_. returnE a)))
      aliveAt"
    by (intro safely_then [OF safely_updateFor [OF w] _ st] safely_then [OF safely_writeOpts [OF w] _ st]
        repos.safely_return) auto
qed (auto intro: stables)

lemma gives_any: "gives env m \<Longrightarrow> any env m"
  by (rule safely_any)

lemmas safely_applyCommit = gives_applyCommit [THEN gives_any]
lemmas safely_create = gives_create [THEN gives_any]

lemma safely_endure:
  "repos.safely env (heldFor env sid a) (modifyE (\<lambda>w. w\<lparr>rp_inmemory := cacheEndure (rp_inmemory w) (idString env sid) a\<rparr>))
     (\<lambda>_. aliveAt a)"
proof (rule repos.safely_modify)
  fix w assume w: "soundRepo env w" "heldFor env sid a w"
  have "set (cacheEntries (cacheEndure (rp_inmemory w) (idString env sid) a)) \<subseteq>
      insert (idString env sid, a) (set (cacheEntries (rp_inmemory w)))"
    using set_mapSet [of "sc_durable (rp_inmemory w)" "idString env sid" a]
      set_mapDelete [of "sc_volatile (rp_inmemory w)" "idString env sid"]
    by (auto simp: cacheEndure_def cacheEntries_def)
  with w show "soundRepo env (w\<lparr>rp_inmemory := cacheEndure (rp_inmemory w) (idString env sid) a\<rparr>) \<and>
      laterRepo w (w\<lparr>rp_inmemory := cacheEndure (rp_inmemory w) (idString env sid) a\<rparr>) \<and>
      aliveAt a (w\<lparr>rp_inmemory := cacheEndure (rp_inmemory w) (idString env sid) a\<rparr>)"
    by (fastforce simp: soundRepo_def soundCache_def laterRepo_def aliveAt_def heldFor_def heldAt_def)
qed

lemma soundRs_subscriptions [simp]: "soundRs env (rs\<lparr>rs_subscriptions := n\<rparr>) = soundRs env rs"
  by (simp add: soundRs_def)

lemma safely_writeSubs:
  "soundRs env rs \<Longrightarrow> repos.safely env (heldAt (rs_id rs) a) (writeRs a (rs\<lparr>rs_subscriptions := n\<rparr>)) (\<lambda>_ _. True)"
  by (rule safely_any [OF safely_writeRs]) simp_all

lemma safely_subscribe:
  assumes init: "soundState env (streamIdFromState init) init"
  shows "any env (subscribeUpdates env init)"
  unfolding subscribeUpdates_def Let_def
proof (rule repos.safely_bind [OF loadsOpt_memoryOrStore])
  fix found
  let ?sid = "StreamID (st_type init) (le_cid (hd (st_log init)))"
  have sid: "soundState env ?sid init" using init by (simp add: streamIdFromState_def)
  have held: "repos.safely env (\<lambda>w. \<forall>a. found = Some a \<longrightarrow> heldFor env ?sid a w)
      (case found of Some a \<Rightarrow> returnE a | None \<Rightarrow> registerNew env init) (heldFor env ?sid)"
    by (rule safely_case_option)
      (auto intro!: repos.safely_return repos.safely_weaken [OF loads_registerNew [OF sid]])
  have sub: "repos.safely env (aliveAt a) (bindE (readRs a) (\<lambda>rs.
      bindE (writeRs a (rs\<lparr>rs_subscriptions := rs_subscriptions rs + 1\<rparr>)) (\<lambda>_. returnE a))) (\<lambda>_ _. True)" for a
    by (intro safely_bind_read safely_then [OF safely_writeSubs] any_return) (auto intro: stables)
  show "repos.safely env (\<lambda>w. \<forall>a. found = Some a \<longrightarrow> heldFor env ?sid a w)
      (bindE (case found of Some a \<Rightarrow> returnE a | None \<Rightarrow> registerNew env init) (\<lambda>a.
       bindE (modifyE (\<lambda>w. w\<lparr>rp_inmemory := cacheEndure (rp_inmemory w) (idString env ?sid) a\<rparr>)) (\<lambda>_.
       bindE (readRs a) (\<lambda>rs. bindE (writeRs a (rs\<lparr>rs_subscriptions := rs_subscriptions rs + 1\<rparr>)) (\<lambda>_. returnE a)))))
      (\<lambda>_ _. True)"
    by (rule repos.safely_bind [OF held repos.safely_bind [OF safely_endure sub]])
qed

lemma safely_endSubscription: "onRs env a (endSubscription env a)"
  unfolding endSubscription_def Let_def
  by (intro safely_bind_read safely_then [OF safely_writeSubs] any_when safely_free) (auto intro: stables)

section \<open>The steps of a node\<close>

text \<open>
  The block store, the handlers and the codecs stay; everything else around the repository may change
  from step to step: the time, the answers of the network and of the anchor service, the index, the
  choices of the LRU library.
\<close>

definition sameWorld :: "surroundings \<Rightarrow> surroundings \<Rightarrow> bool" where
  "sameWorld base env \<longleftrightarrow> nd_loader (en_node env) = nd_loader (en_node base) \<and>
     nd_handlers (en_node env) = nd_handlers (en_node base) \<and> en_text env = en_text base"

inductive repoStep :: "surroundings \<Rightarrow> repo \<Rightarrow> repo \<Rightarrow> bool" for base where
  stepLoad: "sameWorld base env \<Longrightarrow> repoStep base w (snd (repoLoad (en_fuel env) env sid opts chk w))"
| stepLoadAtCommit: "sameWorld base env \<Longrightarrow> repoStep base w (snd (loadAtCommit env commitId opts w))"
| stepLoadAtTime: "sameWorld base env \<Longrightarrow> repoStep base w (snd (loadAtTime env sid opts w))"
| stepFromMemoryOrStore: "sameWorld base env \<Longrightarrow> repoStep base w (snd (fromMemoryOrStore env sid w))"
| stepApplyCommit: "sameWorld base env \<Longrightarrow> repoStep base w (snd (applyCommit env sid commit opts w))"
| stepCreate: "sameWorld base env \<Longrightarrow> repoStep base w (snd (createStreamFromGenesis env type genesis opts w))"
| stepUpdate: "sameWorld base env \<Longrightarrow> repoStep base w (snd (handleUpdateFromNetwork env sid tip model w))"
| stepRecon: "sameWorld base env \<Longrightarrow> repoStep base w (snd (handleReconEvents env events cursor w))"
| stepAnchor: "sameWorld base env \<Longrightarrow> a < length (rp_heap w) \<Longrightarrow> repoStep base w (snd (anchorStream env a w))"
| stepAnchorEvent: "sameWorld base env \<Longrightarrow> repoStep base w (snd (anchorLoopHandle env event w))"
| stepBackground: "sameWorld base env \<Longrightarrow> repoStep base w (snd (runBackground env w))"
| stepPin: "sameWorld base env \<Longrightarrow> a < length (rp_heap w) \<Longrightarrow> repoStep base w (snd (pinStream env a force w))"
| stepUnpin: "sameWorld base env \<Longrightarrow> a < length (rp_heap w) \<Longrightarrow> repoStep base w (snd (unpinStream env a publish w))"
| stepSubscribe: "sameWorld base env \<Longrightarrow> soundState base (streamIdFromState init) init \<Longrightarrow>
    repoStep base w (snd (subscribeUpdates env init w))"
| stepEndSubscription: "sameWorld base env \<Longrightarrow> a < length (rp_heap w) \<Longrightarrow> 0 < rs_subscriptions (rp_heap w ! a) \<Longrightarrow>
    repoStep base w (snd (endSubscription env a w))"

text \<open>A node starts with an empty memory and a state store that holds sound states, such as an empty one.\<close>

definition emptyRepo :: "state_store \<Rightarrow> repo" where
  "emptyRepo store = \<lparr>rp_heap = [], rp_inmemory = emptyCache, rp_states = store, rp_pinned = [], rp_synced = [],
     rp_feed = [], rp_indexed = [], rp_published = [], rp_requested = [], rp_background = [], rp_cursor = ''0''\<rparr>"

lemma soundState_same: "sameWorld base env \<Longrightarrow> soundState env = soundState base"
  by (simp add: fun_eq_iff soundState_def genuine_def sameWorld_def)

lemma soundRepo_same: "sameWorld base env \<Longrightarrow> soundRepo env = soundRepo base"
  using soundState_same [of base env]
  by (simp add: fun_eq_iff soundRepo_def soundRs_def soundCache_def soundStore_def sameWorld_def)

lemma soundWorld_same: "sameWorld base env \<Longrightarrow> soundWorld base \<Longrightarrow> soundWorld env"
  by (simp add: soundWorld_def sameWorld_def)

lemma any_step:
  assumes "sameWorld base env" and "any env m" and "soundRepo base w"
  shows "soundRepo base (snd (m w)) \<and> laterRepo w (snd (m w))"
  using assms(2,3) unfolding soundRepo_same [OF assms(1), symmetric] by (simp add: keeps_def)

lemma onRs_step:
  assumes "sameWorld base env" and "onRs env a m" and "soundRepo base w" and "a < length (rp_heap w)"
  shows "soundRepo base (snd (m w)) \<and> laterRepo w (snd (m w))"
  using assms(2-) unfolding soundRepo_same [OF assms(1), symmetric] by (simp add: keeps_def aliveAt_def)

lemma repoStep_sound:
  assumes step: "repoStep base w w'" and w: "soundWorld base" and s: "soundRepo base w"
  shows "soundRepo base w' \<and> laterRepo w w'"
proof -
  note same = soundWorld_same [OF _ w]
  have load: "any env (repoLoad n env sid opts chk)" if "soundWorld env" for env n sid opts chk
    by (rule safely_any [OF loads_repoLoad [OF that]]) simp
  have memory: "any env (fromMemoryOrStore env sid)" for env sid
    by (rule safely_any [OF loadsOpt_memoryOrStore]) simp
  from step show ?thesis
  proof cases
    case stepLoad
    show ?thesis unfolding stepLoad(1) by (rule any_step [OF stepLoad(2) load [OF same [OF stepLoad(2)]] s])
  next
    case stepLoadAtCommit
    show ?thesis unfolding stepLoadAtCommit(1) by (rule any_step [OF stepLoadAtCommit(2) safely_loadAtCommit [OF same [OF stepLoadAtCommit(2)]] s])
  next
    case stepLoadAtTime
    show ?thesis unfolding stepLoadAtTime(1) by (rule any_step [OF stepLoadAtTime(2) safely_loadAtTime [OF same [OF stepLoadAtTime(2)]] s])
  next
    case stepFromMemoryOrStore
    show ?thesis unfolding stepFromMemoryOrStore(1) by (rule any_step [OF stepFromMemoryOrStore(2) memory s])
  next
    case stepApplyCommit
    show ?thesis unfolding stepApplyCommit(1) by (rule any_step [OF stepApplyCommit(2) safely_applyCommit [OF same [OF stepApplyCommit(2)]] s])
  next
    case stepCreate
    show ?thesis unfolding stepCreate(1) by (rule any_step [OF stepCreate(2) safely_create [OF same [OF stepCreate(2)]] s])
  next
    case stepUpdate
    show ?thesis unfolding stepUpdate(1) by (rule any_step [OF stepUpdate(2) safely_handleUpdate [OF same [OF stepUpdate(2)]] s])
  next
    case stepRecon
    show ?thesis unfolding stepRecon(1) by (rule any_step [OF stepRecon(2) safely_recon [OF same [OF stepRecon(2)]] s])
  next
    case stepAnchor
    show ?thesis unfolding stepAnchor(1) by (rule onRs_step [OF stepAnchor(2) safely_anchor s stepAnchor(3)])
  next
    case stepAnchorEvent
    show ?thesis unfolding stepAnchorEvent(1) by (rule any_step [OF stepAnchorEvent(2) safely_loop [OF same [OF stepAnchorEvent(2)]] s])
  next
    case stepBackground
    show ?thesis unfolding stepBackground(1) by (rule any_step [OF stepBackground(2) safely_background [OF same [OF stepBackground(2)]] s])
  next
    case stepPin
    show ?thesis unfolding stepPin(1) by (rule onRs_step [OF stepPin(2) safely_pinStream [OF same [OF stepPin(2)]] s stepPin(3)])
  next
    case stepUnpin
    show ?thesis unfolding stepUnpin(1) by (rule onRs_step [OF stepUnpin(2) safely_unpin s stepUnpin(3)])
  next
    case (stepSubscribe env init)
    have "any env (subscribeUpdates env init)"
      by (rule safely_subscribe) (use stepSubscribe(3) soundState_same [OF stepSubscribe(2)] in simp)
    then show ?thesis unfolding stepSubscribe(1) by (rule any_step [OF stepSubscribe(2) _ s])
  next
    case stepEndSubscription
    show ?thesis unfolding stepEndSubscription(1) by (rule onRs_step [OF stepEndSubscription(2) safely_endSubscription s stepEndSubscription(3)])
  qed
qed

end
