(* ===== verification/RepositoryTheorems.thy ===== *)
theory RepositoryTheorems
  imports RepositorySteps
begin

text \<open>
  The properties of the repository: the invariant of every run, what loading from the cache does, what
  pinning and unpinning leave in the state store, the attempts to apply an anchor commit, and the
  state at a time.
\<close>

section \<open>Running the commands\<close>

lemma run_simps [ef_simps]:
  "readRs a w = (Inr (rp_heap w ! a), w)" "writeRs a rs w = (Inr (), w\<lparr>rp_heap := (rp_heap w)[a := rs]\<rparr>)"
  "fromMemory env sid w = (Inr (cacheGet (rp_inmemory w) (idString env sid)), w)"
  "allocRs rs w = (Inr (length (rp_heap w)), w\<lparr>rp_heap := rp_heap w @ [rs]\<rparr>)"
  "storeLoad env sid w = (stateStoreLoad (en_text env) (rp_states w) sid, w)"
  by (simp_all add: readRs_def writeRs_def fromMemory_def allocRs_def storeLoad_def ef_simps)

lemma bind_read [simp]: "bindE (readRs a) f w = f (rp_heap w ! a) w"
  by (simp add: bindE_def ef_simps)

section \<open>The invariant of every run\<close>

lemma repoSteps_sound:
  assumes "soundWorld base" and "soundRepo base w" and "(repoStep base)\<^sup>*\<^sup>* w w'"
  shows "soundRepo base w' \<and> laterRepo w w'"
  using assms(3)
proof (induction rule: rtranclp_induct)
  case base
  with assms(2) show ?case by (simp add: repos.later_refl)
next
  case (step u v)
  with repoStep_sound [OF step(2) assms(1)] repos.later_trans show ?case by blast
qed

lemma emptyRepo_sound: "soundStore base store \<Longrightarrow> soundRepo base (emptyRepo store)"
  by (simp add: soundRepo_def soundCache_def emptyRepo_def emptyCache_def cacheEntries_def)

lemma stateStoreLoad_sound:
  assumes "soundStore base store" and "text_lib_ok (en_text base)" and "sid_type sid < maxSafe"
    and "stateStoreLoad (en_text base) store sid = Inr (Some s)"
  shows "soundState base sid s"
proof -
  from assms(4) obtain m ser where "store = Some m" "kvGet m (idString base sid) = Some ser"
    "deserializeState (en_text base) (Some ser) = Inr (Some s)" by (rule stateStoreLoad_Some)
  with assms(1) obtain i where i: "idString base sid = idString base i" "soundState base i s"
    unfolding soundStore_def by blast
  have "sid = i"
    by (rule streamIDToString_inject [OF _ assms(3) _ i(1)]) (use assms(2) i(2) in \<open>auto simp: text_lib_ok_def soundState_def\<close>)
  with i(2) show ?thesis by simp
qed

lemma cachedState_sound:
  assumes w: "soundRepo base w" and lib: "text_lib_ok (en_text base)" and "sid_type sid < maxSafe"
    and "cacheGet (rp_inmemory w) (idString base sid) = Some a"
  shows "a < length (rp_heap w) \<and> rs_id (rp_heap w ! a) = sid \<and> soundState base sid (rs_value (rp_heap w ! a))"
proof -
  from w cacheGet_entry [OF assms(4)] have a: "a < length (rp_heap w)" "idString base sid = idString base (rs_id (rp_heap w ! a))"
    by (auto simp: soundRepo_def soundCache_def)
  with w have s: "soundState base (rs_id (rp_heap w ! a)) (rs_value (rp_heap w ! a))"
    by (simp add: soundRepo_def soundRs_def)
  have "sid = rs_id (rp_heap w ! a)"
    by (rule streamIDToString_inject [OF _ assms(3) _ a(2)]) (use lib s in \<open>auto simp: text_lib_ok_def soundState_def\<close>)
  with a s show ?thesis by simp
qed

text \<open>
  C2: The invariant of a node. Starting from an empty memory and any state store in order, and after
  any sequence of loads, commits of users, tips and events from the network, anchors, pins, unpins and
  subscriptions, with whatever the network answers, the clock shows and the LRU library evicts: the
  running state found in the cache for a StreamID is a state of this stream, so is the state that the
  state store gives for it, and if the StreamID names a genesis commit, the log of either is a chain of
  commits of the block store, each one the \<open>prev\<close> of the next, from this genesis commit on.
\<close>

theorem node_invariant:
  assumes "soundWorld base" and "soundStore base store" and "(repoStep base)\<^sup>*\<^sup>* (emptyRepo store) w"
    and "sid_type sid < maxSafe"
  shows "(\<forall>a. cacheGet (rp_inmemory w) (idString base sid) = Some a \<longrightarrow>
      a < length (rp_heap w) \<and> rs_id (rp_heap w ! a) = sid \<and> soundState base sid (rs_value (rp_heap w ! a))) \<and>
    (\<forall>s. stateStoreLoad (en_text base) (rp_states w) sid = Inr (Some s) \<longrightarrow> soundState base sid s) \<and>
    (\<forall>t. soundState base sid t \<and> genuine base sid \<longrightarrow> streamIdFromState t = sid \<and>
      (\<forall>i. Suc i < length (st_log t) \<longrightarrow> (\<exists>cd.
        getCommitData (nd_loader (en_node base)) (le_cid (st_log t ! Suc i)) sid = Inr cd \<and>
        jsGet (cd_commit cd) ''prev'' = Inr (CidV (le_cid (st_log t ! i))))))"
proof -
  have w: "soundRepo base w"
    using repoSteps_sound [OF assms(1) emptyRepo_sound [OF assms(2)] assms(3)] by blast
  have lib: "text_lib_ok (en_text base)" using assms(1) by (simp add: soundWorld_def)
  have "a < length (rp_heap w) \<and> rs_id (rp_heap w ! a) = sid \<and> soundState base sid (rs_value (rp_heap w ! a))"
    if "cacheGet (rp_inmemory w) (idString base sid) = Some a" for a
    by (rule cachedState_sound [OF w lib assms(4) that])
  moreover have "soundState base sid s" if "stateStoreLoad (en_text base) (rp_states w) sid = Inr (Some s)" for s
    by (rule stateStoreLoad_sound [OF _ lib assms(4) that]) (use w in \<open>simp add: soundRepo_def\<close>)
  moreover have "streamIdFromState t = sid \<and> (\<forall>i. Suc i < length (st_log t) \<longrightarrow> (\<exists>cd.
        getCommitData (nd_loader (en_node base)) (le_cid (st_log t ! Suc i)) sid = Inr cd \<and>
        jsGet (cd_commit cd) ''prev'' = Inr (CidV (le_cid (st_log t ! i)))))"
    if "soundState base sid t" "genuine base sid" for t
    using that by (auto simp: soundState_def storedLog_def logCids_def)
  ultimately show ?thesis by blast
qed

text \<open>A node that runs on the sample store; its network, index and anchor service answer nothing.\<close>

definition sampleSurroundings :: surroundings where
  "sampleSurroundings = \<lparr>en_node = sampleNode, en_text = sampleTextLib, en_tips = \<lambda>_. [], en_evict = \<lambda>_. None,
     en_shouldIndexStream = \<lambda>_. False, en_indexStream = \<lambda>_. Inr (), en_anchorService = True,
     en_requestAnchor = \<lambda>_ _. Inl (Err ''offline''), en_casAccessible = Inr (), en_storeEvent = \<lambda>_ _. Inl (Err ''offline''),
     en_storeInitEvent = \<lambda>_ _. Inl (Err ''offline''), en_importCAR = \<lambda>_ _ _. Inl (Err ''offline''),
     en_retrieve = \<lambda>_. Inr (Obj []), en_resolve = \<lambda>_. Inl (Err ''offline''), en_pin = \<lambda>_. Inr (), en_unpin = \<lambda>_. Inr (),
     en_rustCeramic = False, en_disableAnchoring = False, en_fuel = 2\<rparr>"

lemma sampleSurroundings_simps [simp]:
  "en_node sampleSurroundings = sampleNode" "en_text sampleSurroundings = sampleTextLib"
  "en_evict sampleSurroundings ks = None" "en_shouldIndexStream sampleSurroundings m = False"
  "en_importCAR sampleSurroundings n car sid = Inl (Err ''offline'')"
  "en_retrieve sampleSurroundings c = Inr (Obj [])" "en_pin sampleSurroundings p = Inr ()"
  "en_unpin sampleSurroundings p = Inr ()" "en_rustCeramic sampleSurroundings = False"
  "en_fuel sampleSurroundings = 2"
  by (simp_all add: sampleSurroundings_def)

lemma sampleWorld: "soundWorld sampleSurroundings"
proof -
  have "nd_handlers sampleNode t \<noteq> None \<Longrightarrow> t < maxSafe" for t
    by (auto simp: defaultHandlers_def maxSafe_def TILE_TYPE_def CAIP10_TYPE_def MODEL_TYPE_def MID_TYPE_def split: if_splits)
  then show ?thesis
    by (simp add: soundWorld_def defaultHandlers_ok sampleLoader_bounded sampleTextLib_ok)
qed

abbreviation sampleId :: stream_id where
  "sampleId \<equiv> StreamID TILE_TYPE (CID [1])"

lemma sampleState_sound: "soundState sampleSurroundings sampleId sampleState"
  using sampleState_stored by (simp add: soundState_def maxSafe_def) (simp add: TILE_TYPE_def sampleState_def)

lemma sample_subscribe:
  "subscribeUpdates sampleSurroundings sampleState (emptyRepo (Some [])) =
     (Inr 0, (emptyRepo (Some []))\<lparr>rp_heap := [(newRunningState sampleState False)\<lparr>rs_subscriptions := 1\<rparr>],
        rp_inmemory := \<lparr>sc_volatile = [], sc_durable = [(idString sampleSurroundings sampleId, 0)]\<rparr>\<rparr>)"
  by (simp add: subscribeUpdates_def Let_def ef_simps bindE_def fromMemoryOrStore_def fromStreamStateStore_def
      registerNew_def registerRunningState_def emptyRepo_def emptyCache_def cacheGet_def stateStoreLoad_def objLoad_def
      throwIfNotOpened_def kvGet_def newRunningState_def cacheSet_def volatileSet_def mapSet_def handleEviction_def
      cacheEndure_def mapDelete_def) (simp add: sampleState_def sampleEntry_def)

theorem node_invariant_witness:
  "let w = snd (subscribeUpdates sampleSurroundings sampleState (emptyRepo (Some []))) in
     cacheGet (rp_inmemory w) (idString sampleSurroundings sampleId) = Some 0 \<and>
     soundState sampleSurroundings sampleId (rs_value (rp_heap w ! 0))"
proof -
  let ?e = sampleSurroundings and ?store = "Some [] :: state_store"
  let ?w = "snd (subscribeUpdates ?e sampleState (emptyRepo ?store))"
  have sub: "sameWorld ?e ?e \<Longrightarrow> soundState ?e (streamIdFromState sampleState) sampleState \<Longrightarrow>
      (repoStep ?e)\<^sup>*\<^sup>* (emptyRepo ?store) ?w"
    by (rule r_into_rtranclp, rule stepSubscribe)
  then have "(repoStep ?e)\<^sup>*\<^sup>* (emptyRepo ?store) ?w"
    using sampleState_sound by (simp add: sameWorld_def)
  from conjunct1 [OF node_invariant [OF sampleWorld _ this, of sampleId]] sample_subscribe
  show ?thesis
    by (simp add: soundStore_def kvGet_def maxSafe_def TILE_TYPE_def cacheGet_def Let_def)
qed

end
