(* ===== verification/RepositoryBehaviour.thy ===== *)
theory RepositoryBehaviour
  imports RepositoryTheorems
begin

text \<open>
  What the operations of the repository do, branch by branch: loading from the cache, the attempts to
  apply an anchor commit, pinning, unpinning and the anchor status in the state store, and the commit
  at a time.
\<close>

section \<open>A small repository\<close>

text \<open>One stream in memory, in the durable bucket; it is pinned or not.\<close>

definition sampleRepo :: "bool \<Rightarrow> repo" where
  "sampleRepo pinned = (emptyRepo (Some []))\<lparr>rp_heap := [newRunningState sampleState pinned],
     rp_inmemory := \<lparr>sc_volatile = [], sc_durable = [(idString sampleSurroundings sampleId, 0)]\<rparr>\<rparr>"

lemma sampleRepo_simps [simp]:
  "rp_heap (sampleRepo pinned) = [newRunningState sampleState pinned]" "rp_states (sampleRepo pinned) = Some []"
  "rp_published (sampleRepo pinned) = []" "rp_synced (sampleRepo pinned) = []"
  "cacheGet (rp_inmemory (sampleRepo pinned)) (streamIDToString (tl_codec sampleTextLib) sampleId) = Some 0"
  by (simp_all add: sampleRepo_def emptyRepo_def cacheGet_def)

lemma sampleRs_simps [simp]:
  "rs_value (newRunningState sampleState pinned) = sampleState"
  "rs_id (newRunningState sampleState pinned) = sampleId"
  "rs_pinnedCommits (newRunningState sampleState pinned) = (if pinned then Some [CID [1]] else None)"
  "rsTip (newRunningState sampleState pinned) = CID [1]"
  by (simp_all add: newRunningState_def Let_def markAsPinned_def rsTip_def) (simp_all add: sampleState_def sampleEntry_def)

lemma sampleState_serializable: "serializable sampleLib sampleState"
  by (simp add: serializable_def sampleState_def nameByCode_def registry_def proofOk_def
      TILE_TYPE_def TILE_TYPE_ID_def streamIdProp_def)

lemma sample_serialized:
  obtains ser where "serializeState sampleTextLib sampleState = Inr ser"
  using deserialize_serialize [OF sampleTextLib_ok, of sampleState] sampleState_serializable
  by (auto simp: sampleTextLib_def)

section \<open>Loading from the cache\<close>

lemma loadTask_cached:
  assumes "cacheGet (rp_inmemory w) (idString env sid) = Some a"
    and "en_rustCeramic env \<or> syncOption opts \<in> {PREFER_CACHE, SYNC_ON_ERROR, NEVER_SYNC}"
  shows "loadTask env sid opts w = (Inr (a, ALREADY_SYNCED), w)"
  using assms
  by (auto simp: loadTask_def fromMemoryOrStore_def fromMemoryOrStoreWithSyncStatus_def bindE_def ef_simps)

text \<open>
  A stream in memory is loaded from there, whatever the network would answer and whatever is in the
  state store: unless the caller asks for a sync, or the node runs on rust-ceramic, the load returns the
  running state that the cache holds and changes nothing. If the CACAO of the stream has expired and
  this is to be checked, the load throws, and changes nothing either.
\<close>

theorem load_from_cache:
  assumes "cacheGet (rp_inmemory w) (idString env sid) = Some a"
    and "en_rustCeramic env \<or> syncOption opts \<in> {PREFER_CACHE, SYNC_ON_ERROR, NEVER_SYNC}"
    and "0 < n"
  shows "repoLoad n env sid opts chk w =
    (case (if chk then checkForCacaoExpiration (nd_now (en_node env)) (rs_value (rp_heap w ! a)) else Inr ()) of
       Inl e \<Rightarrow> (Inl e, w)
     | Inr _ \<Rightarrow> (Inr a, w))"
proof -
  obtain m where "n = Suc m" using assms(3) by (cases n) auto
  then show ?thesis
    by (simp add: loadWith_def bindE_def [of "loadTask _ _ _"] loadTask_cached [OF assms(1,2)] whenE_def
        split: sum.split)
      (simp add: bindE_def ef_simps)
qed

theorem load_from_cache_witness:
  "repoLoad 1 sampleSurroundings sampleId defaultOpts True (sampleRepo False) = (Inr 0, sampleRepo False)"
proof -
  have "checkForCacaoExpiration 0 sampleState = Inr ()"
    by (simp add: checkForCacaoExpiration_def sampleState_def entryExpired_def sampleEntry_def)
  with load_from_cache [of "sampleRepo False" sampleSurroundings sampleId 0 defaultOpts 1 True] show ?thesis
    by (simp add: syncOption_def defaultOpts_def)
qed

section \<open>The attempts to apply an anchor commit\<close>

text \<open>The witness CAR file of the attempts \<open>k\<close> to \<open>n\<close> cannot be imported.\<close>

definition importFails :: "surroundings \<Rightarrow> cid list \<Rightarrow> stream_id \<Rightarrow> nat \<Rightarrow> nat \<Rightarrow> bool" where
  "importFails env car sid k n \<longleftrightarrow>
     (\<forall>i. k \<le> i \<and> i < n \<longrightarrow> (\<exists>e. en_importCAR env i car sid = Inl e \<and> e \<noteq> Diverged))"

lemma anchorAttempts_skip:
  assumes "importFails env car sid k n" and "k \<le> n" and "0 < k"
  shows "anchorAttempts n env a tip car sid c w = anchorAttempts k env a tip car sid c w"
  using assms
proof (induction n)
  case (Suc n)
  show ?case
  proof (cases "k = Suc n")
    case False
    with Suc.prems have "importFails env car sid k n" "k \<le> n" "0 < n" by (auto simp: importFails_def)
    moreover from Suc.prems False obtain e where "en_importCAR env n car sid = Inl e" "e \<noteq> Diverged"
      unfolding importFails_def by (metis le_SucE lessI)
    ultimately show ?thesis using Suc.IH Suc.prems(3) by (simp add: catchE_def ef_simps)
  qed simp
qed simp

text \<open>A change of the anchor status is a change of the state.\<close>

lemma statesEqual_status:
  assumes "st_anchorStatus s \<noteq> status" and "serializeState lib s = Inr ser"
  shows "statesEqual lib s (s\<lparr>st_anchorStatus := status\<rparr>) = Inr False"
proof -
  from assms(2) have "serializeState lib (s\<lparr>st_anchorStatus := status\<rparr>) =
      Inr (ser\<lparr>ss_anchorStatus := map_of anchorStatusNames status\<rparr>)"
    and "ss_anchorStatus ser = map_of anchorStatusNames (st_anchorStatus s)"
    by (auto simp: serializeState_def bindR_Inr_iff)
  moreover have "map_of anchorStatusNames (st_anchorStatus s) \<noteq> map_of anchorStatusNames status"
    using assms(1) by (cases status; cases "st_anchorStatus s") (simp_all add: anchorStatusNames_def)
  ultimately have "jsonState lib ser \<noteq> jsonState lib (ser\<lparr>ss_anchorStatus := map_of anchorStatusNames status\<rparr>)"
    by (auto simp: jsonState_def dest: arg_cong [of _ _ ss_anchorStatus])
  with assms(2) show ?thesis
    by (simp add: statesEqual_def \<open>serializeState lib (s\<lparr>st_anchorStatus := status\<rparr>) = _\<close>)
qed

lemma setAnchorStatus_run:
  assumes "rsNext (en_text env) (rp_heap w ! a) ((rs_value (rp_heap w ! a))\<lparr>st_anchorStatus := status\<rparr>) = Inr rs'"
  shows "setAnchorStatus env a status w = (Inr (), w\<lparr>rp_heap := (rp_heap w)[a := rs']\<rparr>)"
  using assms by (simp add: setAnchorStatus_def nextState_def ef_simps)




text \<open>
  C16: If all three attempts fail to import the witness, the error of the last one is thrown, nothing is
  published, and the stream keeps its log; its anchor status becomes \<open>FAILED\<close>, but only if the anchored
  commit is still its tip. The state store does not learn of it.
\<close>

theorem anchor_gives_up:
  assumes "importFails env (c # roots) (streamIdFromState (rs_value (rp_heap w ! a))) 1 3"
    and "en_importCAR env 0 (c # roots) (streamIdFromState (rs_value (rp_heap w ! a))) = Inl e" and "e \<noteq> Diverged"
    and "rsNext (en_text env) (rp_heap w ! a) ((rs_value (rp_heap w ! a))\<lparr>st_anchorStatus := FAILED\<rparr>) = Inr rs'"
    and "ae_status event = CompletedStatus" and "ae_witness event = Some (c # roots)"
  shows "handleAnchorEvent env a event w = (Inl e,
    if ae_cid event = rsTip (rp_heap w ! a) then w\<lparr>rp_heap := (rp_heap w)[a := rs']\<rparr> else w)"
proof -
  let ?sid = "streamIdFromState (rs_value (rp_heap w ! a))"
  have "anchorAttempts 3 env a (ae_cid event) (c # roots) ?sid c w
      = anchorAttempts (Suc 0) env a (ae_cid event) (c # roots) ?sid c w"
    by (rule anchorAttempts_skip) (use assms(1) in simp_all)
  also have "\<dots> = (Inl e, if ae_cid event = rsTip (rp_heap w ! a) then w\<lparr>rp_heap := (rp_heap w)[a := rs']\<rparr> else w)"
    using assms(2,3) setAnchorStatus_run [OF assms(4)]
    by (simp add: catchE_def throwE_def whenE_def returnE_def bindE_def [of "if _ then _ else _"])
  finally show ?thesis
    using assms(5,6) by (simp add: handleAnchorEvent_def handleAnchorCommit_def APPLY_ANCHOR_COMMIT_ATTEMPTS_def
        bindE_def [of "handleAnchorCommit _ _ _ _"] ef_simps)
qed

theorem anchor_gives_up_witness:
  "fst (handleAnchorEvent sampleSurroundings 0
       \<lparr>ae_status = CompletedStatus, ae_streamId = sampleId, ae_cid = CID [1], ae_witness = Some [CID [2]]\<rparr> (sampleRepo True))
   = Inl (Err ''offline'')"
proof -
  let ?ev = "\<lparr>ae_status = CompletedStatus, ae_streamId = sampleId, ae_cid = CID [1], ae_witness = Some [CID [2]]\<rparr>"
  obtain ser where ser: "serializeState sampleTextLib sampleState = Inr ser" by (rule sample_serialized)
  have "st_anchorStatus sampleState = NOT_REQUESTED" by (simp add: sampleState_def)
  then have "rsNext sampleTextLib (newRunningState sampleState True) (sampleState\<lparr>st_anchorStatus := FAILED\<rparr>) =
      Inr ((newRunningState sampleState True)\<lparr>rs_value := sampleState\<lparr>st_anchorStatus := FAILED\<rparr>\<rparr>)"
    by (simp add: rsNext_def statesEqual_status [OF _ ser])
  with anchor_gives_up [of sampleSurroundings "CID [2]" "[]" "sampleRepo True" 0 "Err ''offline''" _ ?ev] show ?thesis
    by (simp add: importFails_def)
qed

section \<open>Pinning and unpinning\<close>

lemma storeRemove_Inr:
  assumes "storeRemove env sid w = (Inr u, w')"
  obtains m where "rp_states w = Some m" and "w' = w\<lparr>rp_states := Some (kvDel m (idString env sid))\<rparr>"
  using assms by (auto simp: storeRemove_def stateStoreRemove_def objRemove_def throwIfNotOpened_def bindE_def ef_simps
      split: option.splits)

lemma stateStoreLoad_del:
  "stateStoreLoad lib (Some (kvDel m k)) sid =
     (if streamIDToString (tl_codec lib) sid = k then Inr None else stateStoreLoad lib (Some m) sid)"
  by (simp add: stateStoreLoad_def objLoad_def throwIfNotOpened_def)

lemma pinRm_Inr:
  assumes "pinRm env a w = (Inr u, w')"
  obtains m ps where "rp_states w = Some m"
    and "w' = w\<lparr>rp_pinned := ps, rp_states := Some (kvDel m (idString env (rs_id (rp_heap w ! a)))),
           rp_heap := (rp_heap w)[a := markAsUnpinned (rp_heap w ! a)]\<rparr>"
  using assms by (auto simp: pinRm_def bindE_Inr ef_simps elim!: storeRemove_Inr)

lemma publishTip_Inr:
  assumes "publishTip a w = (Inr u, w')"
  shows "\<exists>model. w' = w\<lparr>rp_published := rp_published w @ [(rs_id (rp_heap w ! a), rsTip (rp_heap w ! a), model)]\<rparr>"
  using assms by (auto simp: publishTip_def bindE_Inr ef_simps)

lemma unpin_Inr:
  assumes "unpinStream env a publish w = (Inr u, w')"
  obtains m ps pub where "rp_states w = Some m"
    and "w' = w\<lparr>rp_published := pub, rp_synced := removeAll (idString env (rs_id (rp_heap w ! a))) (rp_synced w),
           rp_pinned := ps, rp_states := Some (kvDel m (idString env (rs_id (rp_heap w ! a)))),
           rp_heap := (rp_heap w)[a := markAsUnpinned (rp_heap w ! a)]\<rparr>"
    and "map (\<lambda>(sid, tip, model). (sid, tip)) pub = map (\<lambda>(sid, tip, model). (sid, tip)) (rp_published w) @
           (if publish then [(rs_id (rp_heap w ! a), rsTip (rp_heap w ! a))] else [])"
proof -
  from assms obtain w1 where w1: "whenE publish (publishTip a) w = (Inr (), w1)"
    and rm: "pinRm env a (w1\<lparr>rp_synced := removeAll (idString env (rs_id (rp_heap w ! a))) (rp_synced w1)\<rparr>) = (Inr u, w')"
    by (auto simp: unpinStream_def bindE_Inr markUnpinned_def ef_simps)
  obtain pub where pub: "w1 = w\<lparr>rp_published := pub\<rparr>" "map (\<lambda>(sid, tip, model). (sid, tip)) pub =
      map (\<lambda>(sid, tip, model). (sid, tip)) (rp_published w) @
      (if publish then [(rs_id (rp_heap w ! a), rsTip (rp_heap w ! a))] else [])"
  proof (cases publish)
    case True
    with w1 publishTip_Inr [of a w "()" w1] that show ?thesis by (auto simp: whenE_def)
  next
    case False
    with w1 that [of "rp_published w"] show ?thesis by (simp add: whenE_def ef_simps)
  qed
  from rm obtain m ps where "rp_states w = Some m" "w' = w1\<lparr>rp_synced := removeAll (idString env (rs_id (rp_heap w ! a))) (rp_synced w1),
      rp_pinned := ps, rp_states := Some (kvDel m (idString env (rs_id (rp_heap w ! a)))),
      rp_heap := (rp_heap w)[a := markAsUnpinned (rp_heap w ! a)]\<rparr>"
    using pub(1) by (auto elim!: pinRm_Inr)
  with pub that show thesis by simp
qed

text \<open>
  Unpinning. A stream that the node indexes cannot be unpinned: the call throws and changes nothing.
  Otherwise, when it returns, the state store has no state for the stream and the states of all other
  streams as before, the stream is neither pinned nor marked as synced, and the running state has kept
  its state, so that the stream stays in memory. The tip is published if this was asked for.
\<close>

theorem unpin_forgets:
  assumes "a < length (rp_heap w)"
  shows "(shouldIndex env (rp_heap w ! a) \<longrightarrow>
      unpinStream env a publish w = (Inl (Err ''Cannot unpin actively indexed stream''), w)) \<and>
    (\<forall>w'. unpinStream env a publish w = (Inr (), w') \<longrightarrow>
      stateStoreLoad (en_text env) (rp_states w') (rs_id (rp_heap w ! a)) = Inr None \<and>
      (\<forall>sid. idString env sid \<noteq> idString env (rs_id (rp_heap w ! a)) \<longrightarrow>
         stateStoreLoad (en_text env) (rp_states w') sid = stateStoreLoad (en_text env) (rp_states w) sid) \<and>
      idString env (rs_id (rp_heap w ! a)) \<notin> set (rp_synced w') \<and> \<not> rsIsPinned (rp_heap w' ! a) \<and>
      rs_value (rp_heap w' ! a) = rs_value (rp_heap w ! a) \<and> rp_inmemory w' = rp_inmemory w \<and>
      map (\<lambda>(sid, tip, model). (sid, tip)) (rp_published w') =
        map (\<lambda>(sid, tip, model). (sid, tip)) (rp_published w) @
        (if publish then [(rs_id (rp_heap w ! a), rsTip (rp_heap w ! a))] else []))"
proof (intro conjI impI)
  show "unpinStream env a publish w = (Inl (Err ''Cannot unpin actively indexed stream''), w)"
    if "shouldIndex env (rp_heap w ! a)"
    using that by (simp add: unpinStream_def throwIf_def ef_simps)
qed (auto elim!: unpin_Inr simp: stateStoreLoad_del assms rsIsPinned_def markAsUnpinned_def)

theorem unpin_forgets_witness:
  "\<exists>w'. unpinStream sampleSurroundings 0 True (sampleRepo True) = (Inr (), w') \<and> \<not> rsIsPinned (rp_heap w' ! 0) \<and>
     map (\<lambda>(sid, tip, model). (sid, tip)) (rp_published w') = [(sampleId, CID [1])]"
proof -
  have md: "st_metadata sampleState = Obj [(''controllers'', Arr [Str ''did:a''])]" "map le_cid (st_log sampleState) = [CID [1]]"
    by (simp_all add: sampleState_def sampleEntry_def)
  have "\<exists>w'. unpinStream sampleSurroundings 0 True (sampleRepo True) = (Inr (), w')"
    by (simp add: unpinStream_def shouldIndex_def rsMetadata_def throwIf_def whenE_def publishTip_def markUnpinned_def
        pinRm_def bindE_def ef_simps storeRemove_def stateStoreRemove_def objRemove_def throwIfNotOpened_def
        isAnchorCommit_def isSignedCommit_def md)
  then obtain w' where w': "unpinStream sampleSurroundings 0 True (sampleRepo True) = (Inr (), w')" by blast
  have "0 < length (rp_heap (sampleRepo True))" by simp
  have "unpinStream sampleSurroundings 0 True (sampleRepo True) = (Inr (), w') \<longrightarrow>
      \<not> rsIsPinned (rp_heap w' ! 0) \<and> map (\<lambda>(sid, tip, model). (sid, tip)) (rp_published w') =
        map (\<lambda>(sid, tip, model). (sid, tip)) (rp_published (sampleRepo True)) @
        (if True then [(rs_id (rp_heap (sampleRepo True) ! 0), rsTip (rp_heap (sampleRepo True) ! 0))] else [])"
    using conjunct2 [OF unpin_forgets [of 0 "sampleRepo True" sampleSurroundings True]] \<open>0 < length _\<close>
    by blast
  with w' have "\<not> rsIsPinned (rp_heap w' ! 0)" "map (\<lambda>(sid, tip, model). (sid, tip)) (rp_published w') = [(sampleId, CID [1])]"
    by simp_all
  with w' show ?thesis by (intro exI [of _ w'] conjI)
qed

section \<open>The state in the store\<close>






lemma indexStreamIfNeeded_frame:
  "rp_states (snd (indexStreamIfNeeded env a w)) = rp_states w \<and> rp_heap (snd (indexStreamIfNeeded env a w)) = rp_heap w"
  by (simp add: indexStreamIfNeeded_def Let_def bindE_def ef_simps split: sum.split)

lemma updateStateIfPinned_known:
  assumes "newCommits (rp_heap w ! a) False = []"
  shows "rp_states (snd (updateStateIfPinned env loadFn a w)) = rp_states w \<and>
    rp_heap (snd (updateStateIfPinned env loadFn a w)) = rp_heap w"
proof -
  have "pinUnsafe env loadFn a False w = (if en_fuel env = 0 then Inl Diverged else Inr (), w)"
    using assms by (cases "en_fuel env") (simp_all add: pinUnsafe_def ef_simps)
  then show ?thesis
    using indexStreamIfNeeded_frame [of env a w]
      indexStreamIfNeeded_frame [of env a "w\<lparr>rp_feed := rp_feed w @ [rs_id (rp_heap w ! a)]\<rparr>"]
    by (simp add: updateStateIfPinned_def bindE_def ef_simps whenE_def split: sum.split)
qed

text \<open>
  The progress of an anchor request is not stored. If all commits of a stream are known to be pinned,
  the event that its request is pending or being processed changes the anchor status in memory, but the
  call that is to bring the state store up to date does nothing, as it has no new commits to pin: a node
  that restarts reads the status from before the event.
\<close>

theorem anchor_progress_not_stored:
  assumes "a < length (rp_heap w)" and "rs_pinnedCommits (rp_heap w ! a) = Some pinned"
    and "set (map le_cid (st_log (rs_value (rp_heap w ! a)))) \<subseteq> set pinned"
    and "serializeState (en_text env) (rs_value (rp_heap w ! a)) = Inr ser"
    and "(ae_status event, status) \<in> {(ReadyStatus, PENDING), (PendingStatus, PENDING), (ProcessingStatus, PROCESSING)}"
    and "ae_cid event = rsTip (rp_heap w ! a)" and "st_anchorStatus (rs_value (rp_heap w ! a)) \<noteq> status"
    and "handleAnchorEvent env a event w = (r, w')"
  shows "rs_value (rp_heap w' ! a) = (rs_value (rp_heap w ! a))\<lparr>st_anchorStatus := status\<rparr> \<and>
    rp_states w' = rp_states w"
proof -
  let ?rs = "rp_heap w ! a"
  let ?rs' = "?rs\<lparr>rs_value := (rs_value ?rs)\<lparr>st_anchorStatus := status\<rparr>\<rparr>"
  let ?w1 = "w\<lparr>rp_heap := (rp_heap w)[a := ?rs']\<rparr>"
  have "setAnchorStatus env a status w = (Inr (), ?w1)"
    by (rule setAnchorStatus_run) (simp add: rsNext_def statesEqual_status [OF assms(7,4)])
  then have "w' = snd (bindE (updateStateIfPinned env (loadFor env) a) (\<lambda>_. returnE False) ?w1)"
    using assms(5-8) by (auto simp: handleAnchorEvent_def bindE_def [of "setAnchorStatus _ _ _"] ef_simps)
  then have "rp_states w' = rp_states (snd (updateStateIfPinned env (loadFor env) a ?w1)) \<and>
      rp_heap w' = rp_heap (snd (updateStateIfPinned env (loadFor env) a ?w1))"
    by (simp add: bindE_def ef_simps split: prod.split sum.split)
  moreover have "newCommits (rp_heap ?w1 ! a) False = []"
    using assms(1-3) by (auto simp: newCommits_def filter_empty_conv)
  ultimately show ?thesis
    using updateStateIfPinned_known [of ?w1 a env "loadFor env"] assms(1) by simp
qed

theorem anchor_progress_not_stored_witness:
  "\<exists>r w'. handleAnchorEvent sampleSurroundings 0
       \<lparr>ae_status = ProcessingStatus, ae_streamId = sampleId, ae_cid = CID [1], ae_witness = None\<rparr> (sampleRepo True) = (r, w') \<and>
     st_anchorStatus (rs_value (rp_heap w' ! 0)) = PROCESSING \<and> rp_states w' = Some []"
proof -
  let ?ev = "\<lparr>ae_status = ProcessingStatus, ae_streamId = sampleId, ae_cid = CID [1], ae_witness = None\<rparr>"
  obtain ser where ser: "serializeState sampleTextLib sampleState = Inr ser" by (rule sample_serialized)
  obtain r w' where w': "handleAnchorEvent sampleSurroundings 0 ?ev (sampleRepo True) = (r, w')"
    by (cases "handleAnchorEvent sampleSurroundings 0 ?ev (sampleRepo True)")
  have "st_anchorStatus sampleState = NOT_REQUESTED" "map le_cid (st_log sampleState) = [CID [1]]"
    by (simp_all add: sampleState_def sampleEntry_def)
  with anchor_progress_not_stored [where status = PROCESSING and pinned = "[CID [1]]", OF _ _ _ _ _ _ _ w'] w' ser
  show ?thesis by simp
qed

section \<open>The commit at a time\<close>

text \<open>Anchors of a log carry times, in ascending order.\<close>

definition timesAscend :: "log_entry list \<Rightarrow> bool" where
  "timesAscend es \<longleftrightarrow> (\<forall>e \<in> set es. le_type e = TIME \<longrightarrow> (\<exists>n. le_timestamp e = NVal n)) \<and>
     sorted_wrt (\<lambda>e f. onumLeq (le_timestamp e) (le_timestamp f)) (filter (\<lambda>e. le_type e = TIME) es)"

text \<open>No anchor among the entries is as early as the time.\<close>

definition allLater :: "int \<Rightarrow> log_entry list \<Rightarrow> bool" where
  "allLater t es \<longleftrightarrow> (\<forall>f \<in> set es. le_type f = TIME \<longrightarrow> onumLess (NVal t) (le_timestamp f))"

lemma atTimeLoop_last:
  "timesAscend es \<Longrightarrow>
   (\<exists>before e after. es = before @ e # after \<and> le_type e = TIME \<and> onumLeq (le_timestamp e) (NVal t) \<and>
      allLater t after \<and> atTimeLoop (NVal t) c es = le_cid e) \<or>
   allLater t es \<and> atTimeLoop (NVal t) c es = c"
proof (induction es arbitrary: c)
  case Nil
  then show ?case by (simp add: allLater_def)
next
  case (Cons x xs)
  then have asc: "timesAscend xs" by (auto simp: timesAscend_def split: if_splits)
  have later: "allLater t (x # xs) \<longleftrightarrow> (le_type x = TIME \<longrightarrow> onumLess (NVal t) (le_timestamp x)) \<and> allLater t xs"
    by (simp add: allLater_def)
  consider "le_type x \<noteq> TIME" | "le_type x = TIME" "onumLeq (le_timestamp x) (NVal t)"
    | "le_type x = TIME" "\<not> onumLeq (le_timestamp x) (NVal t)" by blast
  then show ?case
  proof cases
    case 1
    with Cons.IH [OF asc, of c] later show ?thesis by simp (metis append_Cons)
  next
    case 2
    with Cons.IH [OF asc, of "le_cid x"] show ?thesis by simp (metis append_Cons append_Nil)
  next
    case 3
    with Cons.prems have "allLater t (x # xs)" by (fastforce simp: timesAscend_def allLater_def)
    with 3 show ?thesis by simp
  qed
qed

text \<open>
  The state at a time. If the anchors of the log carry times in ascending order, the commit chosen
  for a time is the last anchor not later than this time: it is in the log with a time no later than the
  one asked for, and every later anchor of the log has a later time. If every anchor of the log is later,
  it is the genesis commit.
\<close>

theorem commit_at_time:
  assumes "timesAscend (st_log s)"
  shows "(\<exists>before e after. st_log s = before @ e # after \<and> le_type e = TIME \<and> onumLeq (le_timestamp e) (NVal t) \<and>
       (\<forall>f \<in> set after. le_type f = TIME \<longrightarrow> onumLess (NVal t) (le_timestamp f)) \<and>
       commitAtTime lib s (NVal t) = makeCommitID lib (streamIdFromState s) (CommitCid (le_cid e))) \<or>
    (\<forall>f \<in> set (st_log s). le_type f = TIME \<longrightarrow> onumLess (NVal t) (le_timestamp f)) \<and>
       commitAtTime lib s (NVal t) = makeCommitID lib (streamIdFromState s) (CommitCid (le_cid (hd (st_log s))))"
  using atTimeLoop_last [OF assms, of t "le_cid (hd (st_log s))"] unfolding allLater_def commitAtTime_def by metis

text \<open>A log with anchors at 10 and 20: at 15 it is the first of them, at 5 the genesis commit.\<close>

theorem commit_at_time_witness:
  "commitAtTime sampleLib (sampleState\<lparr>st_log := [sampleEntry (CID [1]) INIT NUndef, sampleEntry (CID [2]) TIME (NVal 10),
     sampleEntry (CID [3]) DATA NUndef, sampleEntry (CID [4]) TIME (NVal 20)]\<rparr>) (NVal 15)
   = makeCommitID sampleLib sampleId (CommitCid (CID [2]))"
proof -
  let ?s = "sampleState\<lparr>st_log := [sampleEntry (CID [1]) INIT NUndef, sampleEntry (CID [2]) TIME (NVal 10),
     sampleEntry (CID [3]) DATA NUndef, sampleEntry (CID [4]) TIME (NVal 20)]\<rparr>"
  have id: "streamIdFromState ?s = sampleId" by (simp add: streamIdFromState_def sampleState_def sampleEntry_def)
  have "timesAscend (st_log ?s)" by (simp add: timesAscend_def sampleEntry_def)
  from commit_at_time [OF this, of 15 sampleLib] show ?thesis unfolding id
    by (auto simp: sampleEntry_def Cons_eq_append_conv append_eq_Cons_conv)
qed

end
