(* ===== verification/AnchorService.thy ===== *)
theory AnchorService
  imports RepositoryTheorems
begin

text \<open>
  The anchor service of a node (\<open>core/src/anchor\<close>): the client of the remote service and its failure
  counter, requests for anchors, and the loop that polls the pending requests and hands the answers to
  the repository. Requests and polls interleave; what runs on the queue of the request store is one step.
\<close>

section \<open>The remote service\<close>

text \<open>
  What the validation of a response by the codecs yields: nothing, an error response, or a response
  with a status; a completed one may carry a witness CAR file, given by its roots.
\<close>

datatype cas_response = ErrorResponse | StatusResponse request_status stream_id cid "cid list option"

definition parseResponse :: "stream_id \<Rightarrow> cid \<Rightarrow> cas_response option \<Rightarrow> anchor_event" where
  "parseResponse streamId tip validation = (case validation of
     None \<Rightarrow> \<lparr>ae_status = FailedStatus, ae_streamId = streamId, ae_cid = tip, ae_witness = None\<rparr>
   | Some ErrorResponse \<Rightarrow> \<lparr>ae_status = FailedStatus, ae_streamId = streamId, ae_cid = tip, ae_witness = None\<rparr>
   | Some (StatusResponse status sid c witness) \<Rightarrow>
       if status = CompletedStatus
       then \<lparr>ae_status = status, ae_streamId = sid, ae_cid = c, ae_witness = witness\<rparr>
       else \<lparr>ae_status = status, ae_streamId = sid, ae_cid = c, ae_witness = None\<rparr>)"

text \<open>Times are in milliseconds.\<close>

record remote_cas =
  rc_numFailedRequests :: nat
  rc_firstFailedRequestDate :: "int option"

definition newRemoteCAS :: remote_cas where
  "newRemoteCAS = \<lparr>rc_numFailedRequests = 0, rc_firstFailedRequestDate = None\<rparr>"

definition MAX_FAILED_REQUESTS :: nat where
  "MAX_FAILED_REQUESTS = 3"

definition MAX_MILLIS_WITHOUT_SUCCESS :: int where
  "MAX_MILLIS_WITHOUT_SUCCESS = 60000"

definition casAssertAccessible :: "int \<Rightarrow> remote_cas \<Rightarrow> js_error + unit" where
  "casAssertAccessible now cas =
     (if rc_numFailedRequests cas < MAX_FAILED_REQUESTS then Inr ()
      else case rc_firstFailedRequestDate cas of
        None \<Rightarrow> Inl TypeErr
      | Some first \<Rightarrow> if MAX_MILLIS_WITHOUT_SUCCESS < now - first
          then Inl (Err ''Ceramic Anchor Service appears to be inaccessible'') else Inr ())"

definition recordCASContactFailure :: "int \<Rightarrow> remote_cas \<Rightarrow> remote_cas" where
  "recordCASContactFailure now cas =
     (let cas' = (if rc_numFailedRequests cas = 0 then cas\<lparr>rc_firstFailedRequestDate := Some now\<rparr> else cas)
      in cas'\<lparr>rc_numFailedRequests := rc_numFailedRequests cas' + 1\<rparr>)"

definition recordCASContactSuccess :: "remote_cas \<Rightarrow> remote_cas" where
  "recordCASContactSuccess cas = cas\<lparr>rc_numFailedRequests := 0, rc_firstFailedRequestDate := None\<rparr>"

text \<open>
  One call of the remote service: \<open>sendRequest\<close> throws, or gives a JSON value, of which the result of
  the validation is given. \<open>createRequest\<close> and \<open>getStatusForRequest\<close> differ in what they send.
\<close>

definition casCall :: "int \<Rightarrow> js_error + cas_response option \<Rightarrow> stream_id \<Rightarrow> cid \<Rightarrow> (remote_cas, anchor_event) ef" where
  "casCall now answer streamId tip cas = (case answer of
     Inl e \<Rightarrow> (Inl (Err ''Error connecting to CAS''), recordCASContactFailure now cas)
   | Inr validation \<Rightarrow> (Inr (parseResponse streamId tip validation), recordCASContactSuccess cas))"

section \<open>Requests and polls\<close>

text \<open>
  What the network does for one poll: the time and the answers to \<open>getStatusForRequest\<close> and
  \<open>createRequest\<close>.
\<close>

record cas_answers =
  ca_now :: int
  ca_status :: "js_error + cas_response option"
  ca_create :: "js_error + cas_response option"

definition requestAnchor ::
  "codec_lib \<Rightarrow> int \<Rightarrow> stream_id \<Rightarrow> cid \<Rightarrow> request_store \<Rightarrow> js_error + (request_store \<times> anchor_event)" where
  "requestAnchor lib now streamId tip store =
     bindR (requestSave lib store streamId \<lparr>ar_cid = tip, ar_timestamp = now\<rparr>) (\<lambda>store'.
     Inr (store', \<lparr>ae_status = PendingStatus, ae_streamId = streamId, ae_cid = tip, ae_witness = None\<rparr>))"

definition pollEvent :: "cas_answers \<Rightarrow> stream_id \<Rightarrow> anchor_request \<Rightarrow> (remote_cas, anchor_event) ef" where
  "pollEvent answers streamId entry =
     catchE (casCall (ca_now answers) (ca_status answers) streamId (ar_cid entry))
       (\<lambda>_. casCall (ca_now answers) (ca_create answers) streamId (ar_cid entry))"

text \<open>The compare-and-swap at the end of a poll, which runs on the queue of the request store.\<close>

definition pollRemove :: "codec_lib \<Rightarrow> stream_id \<Rightarrow> anchor_request \<Rightarrow> request_store \<Rightarrow> js_error + request_store" where
  "pollRemove lib streamId entry store =
     bindR (requestLoad lib store streamId) (\<lambda>loaded. case loaded of
       None \<Rightarrow> Inl TypeErr
     | Some l \<Rightarrow> if ar_cid l = ar_cid entry then requestRemove lib store streamId else Inr store)"

record anchor_node =
  an_repo :: repo
  an_requests :: request_store
  an_cas :: remote_cas

text \<open>
  The event of a poll is handled by the repository; the result is whether the request has come to its
  end. Errors end the poll; they leave what was changed before.
\<close>

definition pollHandle :: "surroundings \<Rightarrow> cas_answers \<Rightarrow> stream_id \<Rightarrow> anchor_request \<Rightarrow> (anchor_node, bool) ef" where
  "pollHandle env answers streamId entry w =
     (case pollEvent answers streamId entry (an_cas w) of
        (Inl e, cas) \<Rightarrow> (Inl e, w\<lparr>an_cas := cas\<rparr>)
      | (Inr event, cas) \<Rightarrow> (case anchorLoopHandle env event (an_repo w) of
          (r, repo) \<Rightarrow> (r, w\<lparr>an_cas := cas, an_repo := repo\<rparr>)))"


section \<open>The loop as a step relation\<close>

text \<open>
  A poll that is under way has loaded its entry and either waits for the service or has seen the end
  of the request. A step has a label: an anchor of a commit is requested for the stream with a key,
  a poll has handled a terminal event for its entry, or neither.
\<close>

record poll =
  po_stream :: stream_id
  po_entry :: anchor_request
  po_terminal :: bool

datatype anchor_label = Requested string cid | Handled string cid | Quiet

inductive anchorStep ::
  "codec_lib \<Rightarrow> anchor_node \<times> poll list \<Rightarrow> anchor_label \<Rightarrow> anchor_node \<times> poll list \<Rightarrow> bool" for lib where
  stepRequest: "requestAnchor lib now sid tip (an_requests w) = Inr (store, event) \<Longrightarrow>
    anchorStep lib (w, ps) (Requested (streamIDToString lib sid) tip) (w\<lparr>an_requests := store\<rparr>, ps)"
| stepTake: "requestLoad lib (an_requests w) sid = Inr (Some entry) \<Longrightarrow>
    (\<forall>p \<in> set ps. streamIDToString lib (po_stream p) \<noteq> streamIDToString lib sid) \<Longrightarrow>
    anchorStep lib (w, ps) Quiet (w, ps @ [\<lparr>po_stream = sid, po_entry = entry, po_terminal = False\<rparr>])"
| stepTerminal: "pollHandle env answers (po_stream p) (po_entry p) w = (Inr True, w') \<Longrightarrow> \<not> po_terminal p \<Longrightarrow>
    anchorStep lib (w, ps @ p # qs) (Handled (streamIDToString lib (po_stream p)) (ar_cid (po_entry p)))
      (w', ps @ p\<lparr>po_terminal := True\<rparr> # qs)"
| stepLeave: "pollHandle env answers (po_stream p) (po_entry p) w = (r, w') \<Longrightarrow> r \<noteq> Inr True \<Longrightarrow> \<not> po_terminal p \<Longrightarrow>
    anchorStep lib (w, ps @ p # qs) Quiet (w', ps @ qs)"
| stepRemove: "po_terminal p \<Longrightarrow> pollRemove lib (po_stream p) (po_entry p) (an_requests w) = Inr store \<Longrightarrow>
    anchorStep lib (w, ps @ p # qs) Quiet (w\<lparr>an_requests := store\<rparr>, ps @ qs)"
| stepRemoveFails: "po_terminal p \<Longrightarrow> pollRemove lib (po_stream p) (po_entry p) (an_requests w) = Inl e \<Longrightarrow>
    anchorStep lib (w, ps @ p # qs) Quiet (w, ps @ qs)"
| stepNode: "repoStep base (an_repo w) repo \<Longrightarrow> anchorStep lib (w, ps) Quiet (w\<lparr>an_repo := repo\<rparr>, ps)"

inductive anchorRun ::
  "codec_lib \<Rightarrow> anchor_node \<times> poll list \<Rightarrow> anchor_label list \<Rightarrow> anchor_node \<times> poll list \<Rightarrow> bool" for lib where
  runEmpty: "anchorRun lib s [] s"
| runStep: "anchorRun lib s ls t \<Longrightarrow> anchorStep lib t l u \<Longrightarrow> anchorRun lib s (ls @ [l]) u"

section \<open>The failures of the remote service\<close>

text \<open>A contact with the service: its time and whether it was a success.\<close>

definition recordContact :: "remote_cas \<Rightarrow> int \<times> bool \<Rightarrow> remote_cas" where
  "recordContact cas c = (if snd c then recordCASContactSuccess cas else recordCASContactFailure (fst c) cas)"

definition failuresSince :: "(int \<times> bool) list \<Rightarrow> (int \<times> bool) list" where
  "failuresSince cs = takeWhile (\<lambda>c. \<not> snd c) (rev cs)"

lemma recordContacts:
  "foldl recordContact newRemoteCAS cs = \<lparr>rc_numFailedRequests = length (failuresSince cs),
     rc_firstFailedRequestDate = (if failuresSince cs = [] then None else Some (fst (last (failuresSince cs))))\<rparr>"
proof (induction cs rule: rev_induct)
  case Nil
  then show ?case by (simp add: newRemoteCAS_def failuresSince_def)
next
  case (snoc c cs)
  then show ?case
    by (auto simp: recordContact_def recordCASContactSuccess_def recordCASContactFailure_def failuresSince_def Let_def)
qed

text \<open>
  When writes are refused. Whatever contacts there were with the anchor service, in which order and
  at which times, a write is refused if and only if the last three contacts or more have all failed, and
  the first of these failures without a success in between was more than a minute ago.
\<close>

theorem cas_inaccessible:
  "casAssertAccessible now (foldl recordContact newRemoteCAS cs) =
     (let failures = failuresSince cs in
      if 3 \<le> length failures \<and> 60000 < now - fst (last failures)
      then Inl (Err ''Ceramic Anchor Service appears to be inaccessible'') else Inr ())"
  by (auto simp: recordContacts casAssertAccessible_def MAX_FAILED_REQUESTS_def MAX_MILLIS_WITHOUT_SUCCESS_def Let_def)

section \<open>No request is lost\<close>

definition lastRequest :: "string \<Rightarrow> anchor_label list \<Rightarrow> cid option" where
  "lastRequest k ls = foldl (\<lambda>r l. case l of Requested k' c \<Rightarrow> if k' = k then Some c else r | _ \<Rightarrow> r) None ls"

lemma lastRequest_snoc [simp]:
  "lastRequest k (ls @ [Requested k' c]) = (if k' = k then Some c else lastRequest k ls)"
  "lastRequest k (ls @ [Handled k' c]) = lastRequest k ls" "lastRequest k (ls @ [Quiet]) = lastRequest k ls"
  by (simp_all add: lastRequest_def)

text \<open>The request for \<open>c\<close> is in the store under the key.\<close>

definition pendingAt :: "codec_lib \<Rightarrow> request_store \<Rightarrow> string \<Rightarrow> cid \<Rightarrow> bool" where
  "pendingAt lib store k c \<longleftrightarrow> (\<exists>m v. store = Some m \<and> kvGet m k = Some v \<and> fst v = cidToString lib c)"

lemma requestAnchor_Inr:
  assumes "requestAnchor lib now sid tip store = Inr (store', event)"
  obtains m where "store = Some m" "store' = Some (kvPut m (streamIDToString lib sid) (cidToString lib tip, now))"
  using assms by (auto simp: requestAnchor_def requestSave_def objSave_def serializeAnchorRequestData_def
      throwIfNotOpened_def bindR_Inr_iff split: option.splits)

lemma requestLoad_Some:
  assumes "requestLoad lib store sid = Inr (Some r)"
  obtains m v where "store = Some m" "kvGet m (streamIDToString lib sid) = Some v"
    "cidParse lib (fst v) = Inr (ar_cid r)" "ar_timestamp r = snd v"
  using assms by (auto simp: requestLoad_def objLoad_def deserializeAnchorRequestData_def throwIfNotOpened_def
      bindR_Inr_iff split: option.splits)

lemma pollRemove_Inr:
  assumes "pollRemove lib sid entry store = Inr store'"
  obtains m v where "store = Some m" "kvGet m (streamIDToString lib sid) = Some v"
    "store' = (if cidParse lib (fst v) = Inr (ar_cid entry) then Some (kvDel m (streamIDToString lib sid)) else store)"
proof -
  from assms obtain l where l: "requestLoad lib store sid = Inr (Some l)"
    "store' = Some (kvDel (the store) (streamIDToString lib sid)) \<and> ar_cid l = ar_cid entry \<or>
     store' = store \<and> ar_cid l \<noteq> ar_cid entry"
    by (auto simp: pollRemove_def requestRemove_def objRemove_def throwIfNotOpened_def bindR_Inr_iff
        split: option.splits if_splits)
  from requestLoad_Some [OF l(1)] l(2) that show thesis by (metis option.sel sum.inject(2))
qed

lemma pollHandle_requests: "pollHandle env answers sid entry w = (r, w') \<Longrightarrow> an_requests w' = an_requests w"
  by (auto simp: pollHandle_def split: prod.splits sum.splits)

definition requestsKept :: "codec_lib \<Rightarrow> anchor_label list \<Rightarrow> anchor_node \<times> poll list \<Rightarrow> bool" where
  "requestsKept lib ls s \<longleftrightarrow>
     (\<forall>p \<in> set (snd s). po_terminal p \<longrightarrow> Handled (streamIDToString lib (po_stream p)) (ar_cid (po_entry p)) \<in> set ls) \<and>
     (\<forall>k c. lastRequest k ls = Some c \<longrightarrow> pendingAt lib (an_requests (fst s)) k c \<or> Handled k c \<in> set ls) \<and>
     distinct (map (streamIDToString lib \<circ> po_stream) (snd s))"

lemma requestsKept_step:
  assumes lib: "codec_lib_ok lib" and step: "anchorStep lib s l t" and kept: "requestsKept lib ls s"
  shows "requestsKept lib (ls @ [l]) t"
  using step
proof cases
  case (stepRequest now sid tip w store event ps)
  from stepRequest(4) obtain m where m: "an_requests w = Some m"
    "store = Some (kvPut m (streamIDToString lib sid) (cidToString lib tip, now))" by (rule requestAnchor_Inr)
  with kept stepRequest(1-3) show ?thesis by (auto simp: requestsKept_def pendingAt_def)
next
  case (stepTake w sid entry ps)
  with kept show ?thesis by (auto simp: requestsKept_def)
next
  case (stepTerminal env answers p w w' ps qs)
  with kept pollHandle_requests [OF stepTerminal(4)] show ?thesis by (auto simp: requestsKept_def)
next
  case (stepLeave env answers p w r w' ps qs)
  with kept pollHandle_requests [OF stepLeave(4)] show ?thesis by (auto simp: requestsKept_def)
next
  case (stepRemove p w store ps qs)
  from stepRemove(5) obtain m v where m: "an_requests w = Some m" "kvGet m (streamIDToString lib (po_stream p)) = Some v"
    "store = (if cidParse lib (fst v) = Inr (ar_cid (po_entry p)) then Some (kvDel m (streamIDToString lib (po_stream p)))
       else an_requests w)" by (rule pollRemove_Inr)
  have "Handled (streamIDToString lib (po_stream p)) (ar_cid (po_entry p)) \<in> set ls"
    using kept stepRemove(1,4) by (simp add: requestsKept_def)
  moreover have "cidParse lib (cidToString lib c) = Inr c" for c using lib by (simp add: codec_lib_ok_def)
  ultimately have "\<forall>k c. pendingAt lib (an_requests w) k c \<longrightarrow> pendingAt lib store k c \<or> Handled k c \<in> set ls"
    using m by (auto simp: pendingAt_def)
  then have "\<forall>k c. lastRequest k ls = Some c \<longrightarrow> pendingAt lib store k c \<or> Handled k c \<in> set ls"
    using kept unfolding requestsKept_def stepRemove(1) fst_conv by blast
  with kept stepRemove(1-3) show ?thesis by (auto simp: requestsKept_def)
next
  case (stepRemoveFails p w e ps qs)
  with kept show ?thesis by (auto simp: requestsKept_def)
next
  case (stepNode base w repo ps)
  with kept show ?thesis by (auto simp: requestsKept_def)
qed

lemma requestsKept_run:
  "codec_lib_ok lib \<Longrightarrow> anchorRun lib s ls t \<Longrightarrow> requestsKept lib [] s \<Longrightarrow> requestsKept lib ls t"
  by (rotate_tac 1) (induction rule: anchorRun.induct, auto intro: requestsKept_step)

text \<open>
  C5: No request for an anchor is lost. However requests, polls and other operations of the node
  interleave, starting with no poll under way: if \<open>c\<close> is the commit for which an anchor of a stream was
  last requested, the request store still holds this request, unless a poll has handled a terminal event
  for this very commit. A newer request is not removed by the poll of an older one. And no stream is
  polled twice at a time.
\<close>

theorem request_not_lost:
  assumes "codec_lib_ok lib" and "anchorRun lib (w, []) ls (w', polls)"
  shows "distinct (map (streamIDToString lib \<circ> po_stream) polls) \<and>
    (\<forall>sid c. lastRequest (streamIDToString lib sid) ls = Some c \<longrightarrow>
       (\<exists>t. requestLoad lib (an_requests w') sid = Inr (Some \<lparr>ar_cid = c, ar_timestamp = t\<rparr>)) \<or>
       Handled (streamIDToString lib sid) c \<in> set ls)"
proof -
  have "requestsKept lib ls (w', polls)"
    by (rule requestsKept_run [OF assms]) (simp add: requestsKept_def lastRequest_def)
  moreover have "\<exists>t. requestLoad lib store sid = Inr (Some \<lparr>ar_cid = c, ar_timestamp = t\<rparr>)"
    if "pendingAt lib store (streamIDToString lib sid) c" for store sid c
    using that assms(1) by (auto simp: pendingAt_def requestLoad_def objLoad_def throwIfNotOpened_def
        deserializeAnchorRequestData_def codec_lib_ok_def)
  ultimately show ?thesis unfolding requestsKept_def fst_conv snd_conv by blast
qed

theorem request_not_lost_witness:
  "\<exists>w. anchorRun sampleLib (\<lparr>an_repo = emptyRepo (Some []), an_requests = Some [], an_cas = newRemoteCAS\<rparr>, [])
       [Requested (streamIDToString sampleLib sampleId) (CID [2])] (w, []) \<and>
     (\<exists>t. requestLoad sampleLib (an_requests w) sampleId = Inr (Some \<lparr>ar_cid = CID [2], ar_timestamp = t\<rparr>))"
proof -
  let ?w = "\<lparr>an_repo = emptyRepo (Some []), an_requests = Some [], an_cas = newRemoteCAS\<rparr>"
  let ?k = "streamIDToString sampleLib sampleId"
  have "requestAnchor sampleLib 5 sampleId (CID [2]) (an_requests ?w) =
      Inr (Some [(?k, cidToString sampleLib (CID [2]), 5)],
        \<lparr>ae_status = PendingStatus, ae_streamId = sampleId, ae_cid = CID [2], ae_witness = None\<rparr>)"
    by (simp add: requestAnchor_def requestSave_def objSave_def throwIfNotOpened_def serializeAnchorRequestData_def)
  from runStep [OF runEmpty stepRequest [OF this]]
  have run: "anchorRun sampleLib (?w, []) [Requested ?k (CID [2])]
      (?w\<lparr>an_requests := Some [(?k, cidToString sampleLib (CID [2]), 5)]\<rparr>, [])" by simp
  moreover from request_not_lost [OF sampleLib_ok run] have "\<exists>t. requestLoad sampleLib
      (an_requests (?w\<lparr>an_requests := Some [(?k, cidToString sampleLib (CID [2]), 5)]\<rparr>)) sampleId =
      Inr (Some \<lparr>ar_cid = CID [2], ar_timestamp = t\<rparr>)"
    by (simp add: lastRequest_def)
  ultimately show ?thesis by blast
qed

section \<open>Every request is polled\<close>







definition without :: "string set \<Rightarrow> (string \<times> 'v) list \<Rightarrow> (string \<times> 'v) list" where
  "without D m = filter (\<lambda>p. fst p \<notin> D) m"



lemma kvGet_without [simp]: "kvGet (without D m) k = (if k \<in> D then None else kvGet m k)"
  unfolding without_def kvGet_def by (induction m) auto

















end
