(* ===== verification/ExecutionQueues.thy ===== *)
theory ExecutionQueues
  imports "HOL-Library.Multiset" StateCache
begin

text \<open>
  The queues that order the operations of a node (\<open>core/src/state-management/named-task-queue.ts\<close>,
  \<open>execution-queue.ts\<close>, \<open>core/src/ancillary/task-queue.ts\<close>): a lane for each name, made when a task
  comes and dropped when it is empty, and a semaphore that bounds the tasks of all lanes. The queue of a
  lane is the library p-queue with concurrency 1, the semaphore is await-semaphore; both are parameters.
\<close>

section \<open>The libraries\<close>

text \<open>
  Adding a task to a queue, or the end of the task that runs, may start a task: the second component.
\<close>

record 'q pq_lib =
  pq_new :: 'q
  pq_add :: "'q \<Rightarrow> nat \<Rightarrow> 'q \<times> nat option"
  pq_next :: "'q \<Rightarrow> 'q \<times> nat option"
  pq_waiting :: "'q \<Rightarrow> nat list"
  pq_running :: "'q \<Rightarrow> nat option"

text \<open>What the library documents for concurrency 1: first come, first served, one task at a time.\<close>

definition pq_ok :: "'q pq_lib \<Rightarrow> bool" where
  "pq_ok lib \<longleftrightarrow> pq_waiting lib (pq_new lib) = [] \<and> pq_running lib (pq_new lib) = None \<and>
     (\<forall>q t. pq_running lib q = None \<longrightarrow> (\<exists>q'. pq_add lib q t = (q', Some t) \<and>
        pq_running lib q' = Some t \<and> pq_waiting lib q' = pq_waiting lib q)) \<and>
     (\<forall>q t r. pq_running lib q = Some r \<longrightarrow> (\<exists>q'. pq_add lib q t = (q', None) \<and>
        pq_running lib q' = Some r \<and> pq_waiting lib q' = pq_waiting lib q @ [t])) \<and>
     (\<forall>q r. pq_running lib q = Some r \<longrightarrow> pq_waiting lib q = [] \<longrightarrow> (\<exists>q'. pq_next lib q = (q', None) \<and>
        pq_running lib q' = None \<and> pq_waiting lib q' = [])) \<and>
     (\<forall>q r t ts. pq_running lib q = Some r \<longrightarrow> pq_waiting lib q = t # ts \<longrightarrow> (\<exists>q'. pq_next lib q = (q', Some t) \<and>
        pq_running lib q' = Some t \<and> pq_waiting lib q' = ts))"

text \<open>A task of a lane.\<close>

record job =
  jb_name :: string
  jb_queue :: nat
  jb_task :: nat

text \<open>Asking the semaphore for a permit, or giving one back, may let a job begin.\<close>

record 's sem_lib =
  sem_new :: "nat \<Rightarrow> 's"
  sem_acquire :: "'s \<Rightarrow> job \<Rightarrow> 's \<times> job option"
  sem_release :: "'s \<Rightarrow> 's \<times> job option"
  sem_permits :: "'s \<Rightarrow> nat"
  sem_blocked :: "'s \<Rightarrow> job list"

definition sem_ok :: "'s sem_lib \<Rightarrow> bool" where
  "sem_ok lib \<longleftrightarrow> (\<forall>n. sem_permits lib (sem_new lib n) = n \<and> sem_blocked lib (sem_new lib n) = []) \<and>
     (\<forall>s j. 0 < sem_permits lib s \<longrightarrow> (\<exists>s'. sem_acquire lib s j = (s', Some j) \<and>
        sem_permits lib s' = sem_permits lib s - 1 \<and> sem_blocked lib s' = sem_blocked lib s)) \<and>
     (\<forall>s j. sem_permits lib s = 0 \<longrightarrow> (\<exists>s'. sem_acquire lib s j = (s', None) \<and>
        sem_permits lib s' = 0 \<and> sem_blocked lib s' = sem_blocked lib s @ [j])) \<and>
     (\<forall>s. sem_blocked lib s = [] \<longrightarrow> (\<exists>s'. sem_release lib s = (s', None) \<and>
        sem_permits lib s' = sem_permits lib s + 1 \<and> sem_blocked lib s' = [])) \<and>
     (\<forall>s j js. sem_blocked lib s = j # js \<longrightarrow> (\<exists>s'. sem_release lib s = (s', Some j) \<and>
        sem_permits lib s' = sem_permits lib s \<and> sem_blocked lib s' = js))"

section \<open>Lanes\<close>

text \<open>
  Queues are objects, which the model keeps in a heap; \<open>tq_lanes\<close> maps names to them. A task that has
  ended leaves a callback that removes its lane, which runs later. The last two fields record the order
  in which tasks were submitted and in which they began.
\<close>

record ('q, 's) task_queues =
  tq_heap :: "'q list"
  tq_lanes :: "(string \<times> nat) list"
  tq_semaphore :: 's
  tq_active :: "job list"
  tq_removals :: "string list"
  tq_submitted :: "(string \<times> nat) list"
  tq_begun :: "(string \<times> nat) list"

definition newExecutionQueue :: "'s sem_lib \<Rightarrow> nat \<Rightarrow> ('q, 's) task_queues" where
  "newExecutionQueue sl concurrencyLimit = \<lparr>tq_heap = [], tq_lanes = [], tq_semaphore = sem_new sl concurrencyLimit,
     tq_active = [], tq_removals = [], tq_submitted = [], tq_begun = []\<rparr>"

definition queueSize :: "'q pq_lib \<Rightarrow> 'q \<Rightarrow> nat" where
  "queueSize pl q = length (pq_waiting pl q) + (if pq_running pl q = None then 0 else 1)"

definition namedQueue :: "'q pq_lib \<Rightarrow> string \<Rightarrow> ('q, 's) task_queues \<Rightarrow> nat \<times> ('q, 's) task_queues" where
  "namedQueue pl name w = (case map_of (tq_lanes w) name of
     Some q \<Rightarrow> (q, w)
   | None \<Rightarrow> (length (tq_heap w), w\<lparr>tq_heap := tq_heap w @ [pq_new pl],
       tq_lanes := mapSet (tq_lanes w) name (length (tq_heap w))\<rparr>))"

definition namedRemove :: "'q pq_lib \<Rightarrow> string \<Rightarrow> ('q, 's) task_queues \<Rightarrow> ('q, 's) task_queues" where
  "namedRemove pl name w = (case map_of (tq_lanes w) name of
     None \<Rightarrow> w
   | Some q \<Rightarrow> if queueSize pl (tq_heap w ! q) = 0 then w\<lparr>tq_lanes := mapDelete (tq_lanes w) name\<rparr> else w)"

definition beginJob :: "job option \<Rightarrow> ('q, 's) task_queues \<Rightarrow> ('q, 's) task_queues" where
  "beginJob b w = (case b of None \<Rightarrow> w
     | Some j \<Rightarrow> w\<lparr>tq_active := tq_active w @ [j], tq_begun := tq_begun w @ [(jb_name j, jb_task j)]\<rparr>)"

text \<open>\<open>semaphore.use\<close> of a task that its queue has started.\<close>

definition semUse :: "'s sem_lib \<Rightarrow> string \<Rightarrow> nat \<Rightarrow> nat option \<Rightarrow> ('q, 's) task_queues \<Rightarrow> ('q, 's) task_queues" where
  "semUse sl name q started w = (case started of None \<Rightarrow> w
     | Some t \<Rightarrow> (let (s, b) = sem_acquire sl (tq_semaphore w) \<lparr>jb_name = name, jb_queue = q, jb_task = t\<rparr>
         in beginJob b (w\<lparr>tq_semaphore := s\<rparr>)))"

definition namedRun :: "'q pq_lib \<Rightarrow> 's sem_lib \<Rightarrow> string \<Rightarrow> nat \<Rightarrow> ('q, 's) task_queues \<Rightarrow> ('q, 's) task_queues" where
  "namedRun pl sl name t w =
     (let (q, w1) = namedQueue pl name w; (lane, started) = pq_add pl (tq_heap w1 ! q) t
      in semUse sl name q started (w1\<lparr>tq_heap := (tq_heap w1)[q := lane], tq_submitted := tq_submitted w1 @ [(name, t)]\<rparr>))"

text \<open>
  The end of a task, with a result or an error: its permit is given back, its queue goes on, and the
  removal of the lane is due.
\<close>

definition taskDone :: "'q pq_lib \<Rightarrow> 's sem_lib \<Rightarrow> job \<Rightarrow> ('q, 's) task_queues \<Rightarrow> ('q, 's) task_queues" where
  "taskDone pl sl j w =
     (let (s, b) = sem_release sl (tq_semaphore w);
          w1 = beginJob b (w\<lparr>tq_semaphore := s, tq_active := remove1 j (tq_active w)\<rparr>);
          (lane, started) = pq_next pl (tq_heap w1 ! jb_queue j)
      in semUse sl (jb_name j) (jb_queue j) started
           (w1\<lparr>tq_heap := (tq_heap w1)[jb_queue j := lane], tq_removals := tq_removals w1 @ [jb_name j]\<rparr>))"

inductive queueStep :: "'q pq_lib \<Rightarrow> 's sem_lib \<Rightarrow> ('q, 's) task_queues \<Rightarrow> ('q, 's) task_queues \<Rightarrow> bool"
  for pl sl where
  stepSubmit: "queueStep pl sl w (namedRun pl sl name t w)"
| stepDone: "j \<in> set (tq_active w) \<Longrightarrow> queueStep pl sl w (taskDone pl sl j w)"
| stepDrop: "tq_removals w = xs @ name # ys \<Longrightarrow>
    queueStep pl sl w (namedRemove pl name (w\<lparr>tq_removals := xs @ ys\<rparr>))"

section \<open>The invariant of the queues\<close>

text \<open>
  \<open>p\<close> is a job that its lane has started and that has not asked for a permit yet. The jobs under way
  have different names; each is what its lane runs; a lane without a running task has no waiting one
  either, and its removal is due; and the tasks of a name begin in the order in which they came.
\<close>

definition jobsOf :: "'s sem_lib \<Rightarrow> ('q, 's) task_queues \<Rightarrow> job list" where
  "jobsOf sl w = tq_active w @ sem_blocked sl (tq_semaphore w)"

definition ofName :: "string \<Rightarrow> (string \<times> nat) list \<Rightarrow> nat list" where
  "ofName n xs = map snd (filter (\<lambda>p. fst p = n) xs)"

definition tasksOf :: "string \<Rightarrow> job list \<Rightarrow> nat list" where
  "tasksOf n js = map jb_task (filter (\<lambda>j. jb_name j = n) js)"

definition waitingOf :: "'q pq_lib \<Rightarrow> ('q, 's) task_queues \<Rightarrow> string \<Rightarrow> nat list" where
  "waitingOf pl w n = (case map_of (tq_lanes w) n of None \<Rightarrow> [] | Some q \<Rightarrow> pq_waiting pl (tq_heap w ! q))"

definition lanesOk :: "'q pq_lib \<Rightarrow> ('q, 's) task_queues \<Rightarrow> bool" where
  "lanesOk pl w \<longleftrightarrow> inj_on (map_of (tq_lanes w)) (dom (map_of (tq_lanes w))) \<and>
     (\<forall>n q. map_of (tq_lanes w) n = Some q \<longrightarrow> q < length (tq_heap w))"

definition jobsOk :: "'q pq_lib \<Rightarrow> job list \<Rightarrow> ('q, 's) task_queues \<Rightarrow> bool" where
  "jobsOk pl js w \<longleftrightarrow> distinct (map jb_name js) \<and>
     (\<forall>j \<in> set js. map_of (tq_lanes w) (jb_name j) = Some (jb_queue j) \<and>
        pq_running pl (tq_heap w ! jb_queue j) = Some (jb_task j)) \<and>
     (\<forall>n q. map_of (tq_lanes w) n = Some q \<longrightarrow> n \<notin> jb_name ` set js \<longrightarrow>
        queueSize pl (tq_heap w ! q) = 0 \<and> n \<in> set (tq_removals w))"

definition permitsOk :: "'s sem_lib \<Rightarrow> nat \<Rightarrow> ('q, 's) task_queues \<Rightarrow> bool" where
  "permitsOk sl limit w \<longleftrightarrow> sem_permits sl (tq_semaphore w) + length (tq_active w) = limit \<and>
     (sem_blocked sl (tq_semaphore w) \<noteq> [] \<longrightarrow> sem_permits sl (tq_semaphore w) = 0)"

definition orderOk :: "'q pq_lib \<Rightarrow> 's sem_lib \<Rightarrow> job list \<Rightarrow> ('q, 's) task_queues \<Rightarrow> bool" where
  "orderOk pl sl p w \<longleftrightarrow> (\<forall>n. ofName n (tq_submitted w) = ofName n (tq_begun w) @
     tasksOf n (sem_blocked sl (tq_semaphore w)) @ tasksOf n p @ waitingOf pl w n)"

definition queuesOk :: "'q pq_lib \<Rightarrow> 's sem_lib \<Rightarrow> nat \<Rightarrow> job list \<Rightarrow> ('q, 's) task_queues \<Rightarrow> bool" where
  "queuesOk pl sl limit p w \<longleftrightarrow> lanesOk pl w \<and> jobsOk pl (jobsOf sl w @ p) w \<and> permitsOk sl limit w \<and> orderOk pl sl p w"

lemma names_simps [simp]:
  "ofName n [] = []" "ofName n (xs @ [(m, t)]) = (if m = n then ofName n xs @ [t] else ofName n xs)"
  "tasksOf n [] = []" "tasksOf n (j # js) = (if jb_name j = n then jb_task j # tasksOf n js else tasksOf n js)"
  "tasksOf n (js @ js') = tasksOf n js @ tasksOf n js'"
  by (simp_all add: ofName_def tasksOf_def)

lemma queueSize_0: "queueSize pl q = 0 \<longleftrightarrow> pq_waiting pl q = [] \<and> pq_running pl q = None"
  by (simp add: queueSize_def)

lemma jobsOk_cong:
  assumes "jobsOk pl js w" and "mset js = mset js'"
    and "tq_lanes w' = tq_lanes w" "tq_heap w' = tq_heap w" "tq_removals w' = tq_removals w"
  shows "jobsOk pl js' w'"
proof -
  have "distinct (map jb_name js') = distinct (map jb_name js)"
    by (rule mset_eq_imp_distinct_iff) (simp add: assms(2))
  with assms mset_eq_setD [OF assms(2)] show ?thesis by (simp add: jobsOk_def)
qed

lemma semUse_ok:
  assumes sl: "sem_ok sl" and ok: "queuesOk pl sl limit [\<lparr>jb_name = name, jb_queue = q, jb_task = t\<rparr>] w"
  shows "queuesOk pl sl limit [] (semUse sl name q (Some t) w)"
proof -
  let ?j = "\<lparr>jb_name = name, jb_queue = q, jb_task = t\<rparr>" and ?s = "tq_semaphore w"
  have permits: "permitsOk sl limit w" and lanes: "lanesOk pl w" and order: "orderOk pl sl [?j] w"
    and jobs: "jobsOk pl (jobsOf sl w @ [?j]) w" using ok by (simp_all add: queuesOk_def)
  show ?thesis
  proof (cases "0 < sem_permits sl ?s")
    case True
    with permits have none: "sem_blocked sl ?s = []" by (auto simp: permitsOk_def)
    from sl True none obtain s where "sem_acquire sl ?s ?j = (s, Some ?j)" and s: "sem_permits sl s = sem_permits sl ?s - 1"
      "sem_blocked sl s = []" unfolding sem_ok_def by metis
    then have w': "semUse sl name q (Some t) w = beginJob (Some ?j) (w\<lparr>tq_semaphore := s\<rparr>)" by (simp add: semUse_def)
    have "jobsOk pl (jobsOf sl (semUse sl name q (Some t) w) @ []) (semUse sl name q (Some t) w)"
      by (rule jobsOk_cong [OF jobs]) (simp_all add: w' s beginJob_def jobsOf_def none)
    moreover have "lanesOk pl (semUse sl name q (Some t) w)" using lanes by (simp add: w' s beginJob_def lanesOk_def)
    moreover have "permitsOk sl limit (semUse sl name q (Some t) w)"
      using permits True by (simp add: w' s beginJob_def permitsOk_def)
    moreover have "orderOk pl sl [] (semUse sl name q (Some t) w)"
      using order by (simp add: w' s beginJob_def orderOk_def waitingOf_def none cong: option.case_cong)
    ultimately show ?thesis by (simp add: queuesOk_def)
  next
    case False
    with sl obtain s where "sem_acquire sl ?s ?j = (s, None)" and s: "sem_permits sl s = 0"
      "sem_blocked sl s = sem_blocked sl ?s @ [?j]" unfolding sem_ok_def by (metis neq0_conv)
    then have w': "semUse sl name q (Some t) w = beginJob None (w\<lparr>tq_semaphore := s\<rparr>)" by (simp add: semUse_def)
    have "jobsOk pl (jobsOf sl (semUse sl name q (Some t) w) @ []) (semUse sl name q (Some t) w)"
      by (rule jobsOk_cong [OF jobs]) (simp_all add: w' s beginJob_def jobsOf_def)
    moreover have "lanesOk pl (semUse sl name q (Some t) w)" using lanes by (simp add: w' s beginJob_def lanesOk_def)
    moreover have "permitsOk sl limit (semUse sl name q (Some t) w)"
      using permits False by (simp add: w' s beginJob_def permitsOk_def)
    moreover have "orderOk pl sl [] (semUse sl name q (Some t) w)"
      using order by (simp add: w' s beginJob_def orderOk_def waitingOf_def cong: option.case_cong)
    ultimately show ?thesis by (simp add: queuesOk_def)
  qed
qed

text \<open>The lane of a name, found or made; everything else stays as it was.\<close>

lemma namedQueue_lane:
  assumes pl: "pq_ok pl" and lanes: "lanesOk pl w" and nq: "namedQueue pl name w = (q, w1)"
  shows "lanesOk pl w1" and "map_of (tq_lanes w1) name = Some q" and "q < length (tq_heap w1)"
    and "n \<noteq> name \<Longrightarrow> map_of (tq_lanes w1) n = map_of (tq_lanes w) n"
    and "map_of (tq_lanes w) n = Some r \<Longrightarrow> tq_heap w1 ! r = tq_heap w ! r"
    and "waitingOf pl w1 = waitingOf pl w"
    and "map_of (tq_lanes w) name = None \<Longrightarrow> queueSize pl (tq_heap w1 ! q) = 0"
    and "map_of (tq_lanes w) name \<noteq> None \<Longrightarrow> w1 = w"
    and "tq_active w1 = tq_active w" "tq_semaphore w1 = tq_semaphore w" "tq_removals w1 = tq_removals w"
      "tq_submitted w1 = tq_submitted w" "tq_begun w1 = tq_begun w"
proof -
  have new: "pq_waiting pl (pq_new pl) = []" "pq_running pl (pq_new pl) = None" using pl by (simp_all add: pq_ok_def)
  have "inj_on ((map_of (tq_lanes w))(name \<mapsto> length (tq_heap w))) (dom ((map_of (tq_lanes w))(name \<mapsto> length (tq_heap w))))"
    using lanes by (fastforce simp: lanesOk_def inj_on_def dom_def)
  then show "lanesOk pl w1"
    using lanes nq by (auto simp: namedQueue_def lanesOk_def less_Suc_eq split: option.splits if_splits)
  show "map_of (tq_lanes w1) name = Some q" "q < length (tq_heap w1)"
    "n \<noteq> name \<Longrightarrow> map_of (tq_lanes w1) n = map_of (tq_lanes w) n"
    "map_of (tq_lanes w) n = Some r \<Longrightarrow> tq_heap w1 ! r = tq_heap w ! r"
    "map_of (tq_lanes w) name = None \<Longrightarrow> queueSize pl (tq_heap w1 ! q) = 0"
    "map_of (tq_lanes w) name \<noteq> None \<Longrightarrow> w1 = w"
    "tq_active w1 = tq_active w" "tq_semaphore w1 = tq_semaphore w" "tq_removals w1 = tq_removals w"
    "tq_submitted w1 = tq_submitted w" "tq_begun w1 = tq_begun w"
    using lanes nq new by (auto simp: namedQueue_def lanesOk_def nth_append queueSize_def split: option.splits)
  show "waitingOf pl w1 = waitingOf pl w"
  proof
    fix n show "waitingOf pl w1 n = waitingOf pl w n"
    proof (cases "map_of (tq_lanes w) name")
      case None
      then have "w1 = w\<lparr>tq_heap := tq_heap w @ [pq_new pl], tq_lanes := mapSet (tq_lanes w) name (length (tq_heap w))\<rparr>"
        using nq by (auto simp: namedQueue_def)
      with None lanes new show ?thesis by (simp add: waitingOf_def lanesOk_def nth_append split: option.split)
    next
      case (Some r)
      then show ?thesis using nq by (simp add: namedQueue_def)
    qed
  qed
qed

text \<open>One lane of the heap changes; the other lanes are other objects.\<close>

lemma other_lane:
  assumes "lanesOk pl w" and "map_of (tq_lanes w) name = Some q" and "map_of (tq_lanes w) n = Some r" and "n \<noteq> name"
  shows "(tq_heap w)[q := lane] ! r = tq_heap w ! r"
proof -
  have "r \<noteq> q" using assms by (auto simp: lanesOk_def inj_on_def dom_def)
  then show ?thesis by simp
qed

lemma waitingOf_update:
  assumes "lanesOk pl w" and "map_of (tq_lanes w) name = Some q"
    and "tq_lanes w' = tq_lanes w" and "tq_heap w' = (tq_heap w)[q := lane]"
  shows "waitingOf pl w' n = (if n = name then pq_waiting pl lane else waitingOf pl w n)"
  using assms other_lane [OF assms(1,2)] by (auto simp: waitingOf_def lanesOk_def split: option.splits)

text \<open>Only the jobs of one name change, with its lane.\<close>

lemma jobsOk_lane:
  assumes jobs: "jobsOk pl js w" and map: "map_of (tq_lanes w') = (map_of (tq_lanes w))(name \<mapsto> q)"
    and heap: "\<And>n r. map_of (tq_lanes w) n = Some r \<Longrightarrow> n \<noteq> name \<Longrightarrow> tq_heap w' ! r = tq_heap w ! r"
    and rem: "set (tq_removals w) \<subseteq> set (tq_removals w')"
    and dist: "distinct (map jb_name js')" and same: "{j \<in> set js'. jb_name j \<noteq> name} = {j \<in> set js. jb_name j \<noteq> name}"
    and lane: "\<And>j. j \<in> set js' \<Longrightarrow> jb_name j = name \<Longrightarrow> jb_queue j = q \<and> pq_running pl (tq_heap w' ! q) = Some (jb_task j)"
    and idle: "name \<notin> jb_name ` set js' \<Longrightarrow> queueSize pl (tq_heap w' ! q) = 0 \<and> name \<in> set (tq_removals w')"
  shows "jobsOk pl js' w'"
  unfolding jobsOk_def
proof (intro conjI ballI allI impI)
  show "distinct (map jb_name js')" by (rule dist)
next
  fix j assume j: "j \<in> set js'"
  show "map_of (tq_lanes w') (jb_name j) = Some (jb_queue j)"
    and "pq_running pl (tq_heap w' ! jb_queue j) = Some (jb_task j)"
  proof -
    have "map_of (tq_lanes w') (jb_name j) = Some (jb_queue j) \<and> pq_running pl (tq_heap w' ! jb_queue j) = Some (jb_task j)"
    proof (cases "jb_name j = name")
      case True
      with lane [OF j] map show ?thesis by simp
    next
      case False
      with same j have "j \<in> set js" by blast
      with jobs False heap [of "jb_name j" "jb_queue j"] map show ?thesis by (simp add: jobsOk_def)
    qed
    then show "map_of (tq_lanes w') (jb_name j) = Some (jb_queue j)"
      "pq_running pl (tq_heap w' ! jb_queue j) = Some (jb_task j)" by simp_all
  qed
next
  fix n r assume n: "map_of (tq_lanes w') n = Some r" "n \<notin> jb_name ` set js'"
  have "queueSize pl (tq_heap w' ! r) = 0 \<and> n \<in> set (tq_removals w')"
  proof (cases "n = name")
    case True
    with n idle map show ?thesis by simp
  next
    case False
    with n(2) same have "n \<notin> jb_name ` set js" by blast
    with jobs False n(1) heap map rem show ?thesis by (auto simp: jobsOk_def)
  qed
  then show "queueSize pl (tq_heap w' ! r) = 0" "n \<in> set (tq_removals w')" by simp_all
qed

lemma namedRun_ok:
  assumes pl: "pq_ok pl" and sl: "sem_ok sl" and ok: "queuesOk pl sl limit [] w"
  shows "queuesOk pl sl limit [] (namedRun pl sl name t w)"
proof -
  obtain q w1 where nq: "namedQueue pl name w = (q, w1)" by (cases "namedQueue pl name w")
  obtain lane started where add: "pq_add pl (tq_heap w1 ! q) t = (lane, started)" by (cases "pq_add pl (tq_heap w1 ! q) t")
  let ?w2 = "w1\<lparr>tq_heap := (tq_heap w1)[q := lane], tq_submitted := tq_submitted w1 @ [(name, t)]\<rparr>"
  have run: "namedRun pl sl name t w = semUse sl name q started ?w2" using nq add by (simp add: namedRun_def)
  have permits: "permitsOk sl limit w" and lanes: "lanesOk pl w" and order: "orderOk pl sl [] w"
    and jobs: "jobsOk pl (jobsOf sl w) w" using ok by (simp_all add: queuesOk_def)
  note nl = namedQueue_lane [OF pl lanes nq]
  have lanes2: "lanesOk pl ?w2" using nl(1) by (simp add: lanesOk_def)
  have permits2: "permitsOk sl limit ?w2" using permits nl(9,10) by (simp add: permitsOk_def)
  have jobs2: "jobsOf sl ?w2 = jobsOf sl w" using nl(9,10) by (simp add: jobsOf_def)
  have waiting: "waitingOf pl ?w2 n = (if n = name then pq_waiting pl lane else waitingOf pl w n)" for n
    unfolding nl(6) [symmetric] by (rule waitingOf_update [OF nl(1,2)]) simp_all
  have before: "waitingOf pl w name = pq_waiting pl (tq_heap w1 ! q)"
    unfolding nl(6) [symmetric] by (simp add: waitingOf_def nl(2))
  have other: "map_of (tq_lanes w) n = Some r \<Longrightarrow> n \<noteq> name \<Longrightarrow> (tq_heap w1)[q := lane] ! r = tq_heap w ! r" for n r
    using other_lane [OF nl(1,2)] nl(4,5) by simp
  have map: "map_of (tq_lanes ?w2) = (map_of (tq_lanes w))(name \<mapsto> q)" using nl(2,4) by auto
  have heap: "tq_heap ?w2 ! r = tq_heap w ! r" if "map_of (tq_lanes w) n = Some r" "n \<noteq> name" for n r
    using other [OF that] by simp
  have named: "jb_queue j = q \<and> w1 = w \<and> pq_running pl (tq_heap w1 ! q) = Some (jb_task j)"
    if "j \<in> set (jobsOf sl w)" "jb_name j = name" for j
    using jobs that nl(2,8) by (auto simp: jobsOk_def)
  have unnamed: "queueSize pl (tq_heap w1 ! q) = 0" if "name \<notin> jb_name ` set (jobsOf sl w)"
    using jobs that nl(2,7,8) unfolding jobsOk_def by (cases "map_of (tq_lanes w) name") auto
  show ?thesis
  proof (cases "pq_running pl (tq_heap w1 ! q)")
    case None
    with pl add have lane: "started = Some t" "pq_running pl lane = Some t" "pq_waiting pl lane = pq_waiting pl (tq_heap w1 ! q)"
      unfolding pq_ok_def by (metis prod.inject)+
    have idle: "name \<notin> jb_name ` set (jobsOf sl w)" using None named by fastforce
    then have empty: "pq_waiting pl (tq_heap w1 ! q) = []" using unnamed by (simp add: queueSize_0)
    let ?j = "\<lparr>jb_name = name, jb_queue = q, jb_task = t\<rparr>"
    have "jobsOk pl (jobsOf sl w @ [?j]) ?w2"
    proof (rule jobsOk_lane [OF jobs map heap])
      fix j assume "j \<in> set (jobsOf sl w @ [?j])" "jb_name j = name"
      with idle have "j = ?j" by auto
      with lane(2) nl(3) show "jb_queue j = q \<and> pq_running pl (tq_heap ?w2 ! q) = Some (jb_task j)" by simp
    qed (use idle jobs nl(11) in \<open>auto simp: jobsOk_def\<close>)
    then have "jobsOk pl (jobsOf sl ?w2 @ [?j]) ?w2" by (simp only: jobs2)
    moreover have "orderOk pl sl [?j] ?w2"
      using order lane(3) empty waiting before nl(10,12,13) by (simp add: orderOk_def)
    ultimately have "queuesOk pl sl limit [?j] ?w2" using lanes2 permits2 by (simp add: queuesOk_def)
    then show ?thesis unfolding run lane(1) by (rule semUse_ok [OF sl])
  next
    case (Some r)
    with pl add have lane: "started = None" "pq_running pl lane = Some r" "pq_waiting pl lane = pq_waiting pl (tq_heap w1 ! q) @ [t]"
      unfolding pq_ok_def by (metis prod.inject)+
    have "name \<in> jb_name ` set (jobsOf sl w)" using Some unnamed by (auto simp: queueSize_0)
    then have "jobsOk pl (jobsOf sl w) ?w2"
      by (intro jobsOk_lane [OF jobs map heap]) (use named jobs Some lane(2) nl(3,11) in \<open>auto simp: jobsOk_def\<close>)
    then have "jobsOk pl (jobsOf sl ?w2) ?w2" by (simp only: jobs2)
    moreover have "orderOk pl sl [] ?w2"
      using order lane(3) waiting before nl(10,12,13) by (simp add: orderOk_def)
    ultimately have "queuesOk pl sl limit [] ?w2" using lanes2 permits2 by (simp add: queuesOk_def)
    then show ?thesis unfolding run lane(1) by (simp add: semUse_def)
  qed
qed

text \<open>The permit of a job goes to the first blocked one, if there is one.\<close>

lemma release_ok:
  assumes sl: "sem_ok sl" and ok: "queuesOk pl sl limit [] w" and j: "j \<in> set (tq_active w)"
    and rel: "sem_release sl (tq_semaphore w) = (s, b)"
    and w1: "w1 = beginJob b (w\<lparr>tq_semaphore := s, tq_active := remove1 j (tq_active w)\<rparr>)"
  shows "mset (jobsOf sl w) = add_mset j (mset (jobsOf sl w1))" and "permitsOk sl limit w1" and "orderOk pl sl [] w1"
    and "tq_lanes w1 = tq_lanes w" "tq_heap w1 = tq_heap w" "tq_removals w1 = tq_removals w"
proof -
  have permits: "permitsOk sl limit w" and order: "orderOk pl sl [] w" using ok by (simp_all add: queuesOk_def)
  obtain n where pos: "length (tq_active w) = Suc n" using j by (cases "tq_active w") auto
  show "tq_lanes w1 = tq_lanes w" "tq_heap w1 = tq_heap w" "tq_removals w1 = tq_removals w"
    by (simp_all add: w1 beginJob_def split: option.split)
  show "mset (jobsOf sl w) = add_mset j (mset (jobsOf sl w1))" "permitsOk sl limit w1" "orderOk pl sl [] w1"
  proof (atomize (full), cases "sem_blocked sl (tq_semaphore w)")
    case Nil
    with sl rel have s: "b = None" "sem_permits sl s = sem_permits sl (tq_semaphore w) + 1" "sem_blocked sl s = []"
      unfolding sem_ok_def by (metis prod.inject)+
    have w1': "w1 = w\<lparr>tq_semaphore := s, tq_active := remove1 j (tq_active w)\<rparr>" by (simp add: w1 s beginJob_def)
    show "mset (jobsOf sl w) = add_mset j (mset (jobsOf sl w1)) \<and> permitsOk sl limit w1 \<and> orderOk pl sl [] w1"
      using permits order Nil j pos
      by (simp add: w1' s jobsOf_def permitsOk_def orderOk_def waitingOf_def length_remove1 cong: option.case_cong)
  next
    case (Cons k ks)
    with sl rel have s: "b = Some k" "sem_permits sl s = sem_permits sl (tq_semaphore w)" "sem_blocked sl s = ks"
      unfolding sem_ok_def by (metis prod.inject)+
    have w1': "w1 = w\<lparr>tq_semaphore := s, tq_active := remove1 j (tq_active w) @ [k],
        tq_begun := tq_begun w @ [(jb_name k, jb_task k)]\<rparr>" by (simp add: w1 s beginJob_def)
    show "mset (jobsOf sl w) = add_mset j (mset (jobsOf sl w1)) \<and> permitsOk sl limit w1 \<and> orderOk pl sl [] w1"
      using permits order Cons j pos
      by (simp add: w1' s jobsOf_def permitsOk_def orderOk_def waitingOf_def length_remove1 cong: option.case_cong)
  qed
qed

lemma taskDone_ok:
  assumes pl: "pq_ok pl" and sl: "sem_ok sl" and ok: "queuesOk pl sl limit [] w" and j: "j \<in> set (tq_active w)"
  shows "queuesOk pl sl limit [] (taskDone pl sl j w)"
proof -
  obtain s b where rel: "sem_release sl (tq_semaphore w) = (s, b)" by (cases "sem_release sl (tq_semaphore w)")
  define w1 where "w1 = beginJob b (w\<lparr>tq_semaphore := s, tq_active := remove1 j (tq_active w)\<rparr>)"
  note r = release_ok [OF sl ok j rel w1_def]
  let ?q = "jb_queue j" and ?n = "jb_name j"
  obtain lane started where nxt: "pq_next pl (tq_heap w1 ! ?q) = (lane, started)" by (cases "pq_next pl (tq_heap w1 ! ?q)")
  let ?w2 = "w1\<lparr>tq_heap := (tq_heap w1)[?q := lane], tq_removals := tq_removals w1 @ [?n]\<rparr>"
  have run: "taskDone pl sl j w = semUse sl ?n ?q started ?w2" using rel nxt by (simp add: taskDone_def w1_def Let_def)
  have jobs: "jobsOk pl (jobsOf sl w) w" and lanes: "lanesOk pl w" using ok by (simp_all add: queuesOk_def)
  have "j \<in> set (jobsOf sl w)" using j by (simp add: jobsOf_def)
  with jobs have lane_j: "map_of (tq_lanes w) ?n = Some ?q" "pq_running pl (tq_heap w ! ?q) = Some (jb_task j)"
    by (simp_all add: jobsOk_def)
  have "distinct (map jb_name (j # jobsOf sl w1))"
    using jobs mset_eq_imp_distinct_iff [of "map jb_name (jobsOf sl w)" "map jb_name (j # jobsOf sl w1)"] r(1)
    by (simp add: jobsOk_def)
  then have dist: "distinct (map jb_name (jobsOf sl w1))" and gone: "?n \<notin> jb_name ` set (jobsOf sl w1)" by auto
  then have gone': "\<forall>k \<in> set (jobsOf sl w1). jb_name k \<noteq> ?n" by (metis image_eqI)
  have same: "{k \<in> set (jobsOf sl w1). jb_name k \<noteq> ?n} = {k \<in> set (jobsOf sl w). jb_name k \<noteq> ?n}"
    using arg_cong [OF r(1), of set_mset] by auto
  have map: "map_of (tq_lanes ?w2) = (map_of (tq_lanes w))(?n \<mapsto> ?q)" using lane_j(1) r(4) by auto
  have heap: "tq_heap ?w2 ! a = tq_heap w ! a" if "map_of (tq_lanes w) n = Some a" "n \<noteq> ?n" for n a
    using other_lane [OF lanes lane_j(1) that] r(5) by simp
  have q: "?q < length (tq_heap w1)" using lanes lane_j(1) r(5) by (simp add: lanesOk_def)
  have lanes2: "lanesOk pl ?w2" using lanes r(4,5) by (simp add: lanesOk_def)
  have permits2: "permitsOk sl limit ?w2" using r(2) by (simp add: permitsOk_def)
  have jobs2: "jobsOf sl ?w2 = jobsOf sl w1" by (simp add: jobsOf_def)
  have lanes1: "lanesOk pl w1" "map_of (tq_lanes w1) ?n = Some ?q" using lanes lane_j(1) r(4,5) by (simp_all add: lanesOk_def)
  have waiting: "waitingOf pl ?w2 n = (if n = ?n then pq_waiting pl lane else waitingOf pl w1 n)" for n
    by (rule waitingOf_update [OF lanes1]) simp_all
  have before: "waitingOf pl w1 ?n = pq_waiting pl (tq_heap w1 ! ?q)" by (simp add: waitingOf_def lanes1(2))
  show ?thesis
  proof (cases "pq_waiting pl (tq_heap w1 ! ?q)")
    case Nil
    with pl nxt lane_j(2) r(5) have lane: "started = None" "pq_running pl lane = None" "pq_waiting pl lane = []"
      unfolding pq_ok_def by (metis prod.inject)+
    have "jobsOk pl (jobsOf sl w1) ?w2"
      by (rule jobsOk_lane [OF jobs map heap _ dist same]) (use gone' r(6) q lane in \<open>auto simp: queueSize_0\<close>)
    moreover have "orderOk pl sl [] ?w2" using r(3) waiting before Nil lane(3) by (simp add: orderOk_def)
    ultimately have "queuesOk pl sl limit [] ?w2" using lanes2 permits2 by (simp add: queuesOk_def jobs2)
    then show ?thesis unfolding run lane(1) by (simp add: semUse_def)
  next
    case (Cons t ts)
    with pl nxt lane_j(2) r(5) have lane: "started = Some t" "pq_running pl lane = Some t" "pq_waiting pl lane = ts"
      unfolding pq_ok_def by (metis prod.inject)+
    let ?k = "\<lparr>jb_name = ?n, jb_queue = ?q, jb_task = t\<rparr>"
    have "jobsOk pl (jobsOf sl w1 @ [?k]) ?w2"
    proof (rule jobsOk_lane [OF jobs map heap])
      show "{k \<in> set (jobsOf sl w1 @ [?k]). jb_name k \<noteq> ?n} = {k \<in> set (jobsOf sl w). jb_name k \<noteq> ?n}"
        unfolding same [symmetric] by auto
      fix k assume "k \<in> set (jobsOf sl w1 @ [?k])" "jb_name k = ?n"
      with gone' have "k = ?k" by auto
      with lane(2) q show "jb_queue k = ?q \<and> pq_running pl (tq_heap ?w2 ! ?q) = Some (jb_task k)" by simp
    next
      show "distinct (map jb_name (jobsOf sl w1 @ [?k]))" using dist gone by simp
    qed (simp_all add: r(6) subset_insertI)
    moreover have "orderOk pl sl [?k] ?w2" using r(3) waiting before Cons lane(3) by (simp add: orderOk_def)
    ultimately have "queuesOk pl sl limit [?k] ?w2" using lanes2 permits2 by (simp add: queuesOk_def jobs2)
    then show ?thesis unfolding run lane(1) by (rule semUse_ok [OF sl])
  qed
qed

lemma namedRemove_ok:
  assumes ok: "queuesOk pl sl limit [] w" and rem: "tq_removals w = xs @ name # ys"
  shows "queuesOk pl sl limit [] (namedRemove pl name (w\<lparr>tq_removals := xs @ ys\<rparr>))"
proof -
  let ?w0 = "w\<lparr>tq_removals := xs @ ys\<rparr>"
  have jobs: "jobsOk pl (jobsOf sl w) w" and lanes: "lanesOk pl w" and permits: "permitsOk sl limit w"
    and order: "orderOk pl sl [] w" using ok by (simp_all add: queuesOk_def)
  have keep: "queuesOk pl sl limit [] ?w0"
    if "\<And>q. map_of (tq_lanes w) name = Some q \<Longrightarrow> name \<in> jb_name ` set (jobsOf sl w)"
  proof -
    have "\<forall>q. map_of (tq_lanes w) name = Some q \<longrightarrow> name \<in> jb_name ` set (jobsOf sl w)" using that by blast
    then have "n \<in> set (xs @ ys)" if "map_of (tq_lanes w) n = Some q" "n \<notin> jb_name ` set (jobsOf sl w)" for n q
      using jobs rem that unfolding jobsOk_def by (metis Un_iff set_ConsD set_append)
    then have "jobsOk pl (jobsOf sl ?w0) ?w0" using jobs by (simp add: jobsOk_def jobsOf_def)
    with lanes permits order show ?thesis
      by (simp add: queuesOk_def lanesOk_def permitsOk_def orderOk_def waitingOf_def cong: option.case_cong)
  qed
  show ?thesis
  proof (cases "map_of (tq_lanes w) name")
    case None
    then show ?thesis using keep by (simp add: namedRemove_def)
  next
    case (Some q)
    show ?thesis
    proof (cases "queueSize pl (tq_heap w ! q) = 0")
      case False
      from jobs have "\<forall>n q. map_of (tq_lanes w) n = Some q \<longrightarrow> n \<notin> jb_name ` set (jobsOf sl w) \<longrightarrow>
          queueSize pl (tq_heap w ! q) = 0" by (simp add: jobsOk_def)
      with Some False have "name \<in> jb_name ` set (jobsOf sl w)" by meson
      then show ?thesis using keep Some False by (simp add: namedRemove_def)
    next
      case True
      let ?w1 = "?w0\<lparr>tq_lanes := mapDelete (tq_lanes w) name\<rparr>"
      have w1: "namedRemove pl name ?w0 = ?w1" using Some True by (simp add: namedRemove_def)
      have idle: "name \<notin> jb_name ` set (jobsOf sl w)" using jobs Some True by (fastforce simp: jobsOk_def queueSize_0)
      have "lanesOk pl ?w1" using lanes by (auto simp: lanesOk_def inj_on_def dom_def)
      moreover have "jobsOk pl (jobsOf sl ?w1) ?w1" using jobs idle rem by (auto simp: jobsOk_def jobsOf_def)
      moreover have "waitingOf pl ?w1 n = waitingOf pl w n" for n
        using Some True by (simp add: waitingOf_def queueSize_0 split: option.split)
      with order have "orderOk pl sl [] ?w1" by (simp add: orderOk_def)
      moreover have "permitsOk sl limit ?w1" using permits by (simp add: permitsOk_def)
      ultimately show ?thesis unfolding w1 by (simp add: queuesOk_def)
    qed
  qed
qed

lemma queueSteps_ok:
  assumes "pq_ok pl" and "sem_ok sl" and "(queueStep pl sl)\<^sup>*\<^sup>* (newExecutionQueue sl limit) w"
  shows "queuesOk pl sl limit [] w"
  using assms(3)
proof (induction rule: rtranclp_induct)
  case base
  have "sem_permits sl (sem_new sl limit) = limit" "sem_blocked sl (sem_new sl limit) = []"
    using assms(2) by (simp_all add: sem_ok_def)
  then show ?case
    by (simp add: newExecutionQueue_def queuesOk_def lanesOk_def jobsOk_def permitsOk_def orderOk_def jobsOf_def waitingOf_def)
next
  case (step u v)
  from step(2,3) show ?case
    by cases (auto intro: namedRun_ok [OF assms(1,2)] taskDone_ok [OF assms(1,2)] namedRemove_ok)
qed

section \<open>Properties\<close>

text \<open>
  C3: Operations on one stream do not overlap. Whatever tasks are submitted under which names, in
  whatever order they end and the lanes are dropped: the tasks under way have different names, there are
  at most as many as the concurrency limit, and the tasks of one name begin in the order in which they
  were submitted.
\<close>

theorem tasks_do_not_overlap:
  assumes "pq_ok pl" and "sem_ok sl" and "(queueStep pl sl)\<^sup>*\<^sup>* (newExecutionQueue sl limit) w"
  shows "distinct (map jb_name (tq_active w)) \<and> length (tq_active w) \<le> limit \<and>
    (\<forall>n. \<exists>later. ofName n (tq_submitted w) = ofName n (tq_begun w) @ later)"
  using queueSteps_ok [OF assms]
  by (auto simp: queuesOk_def jobsOk_def jobsOf_def permitsOk_def orderOk_def)

text \<open>
  C4: The queues do not get stuck. With a limit above zero, whenever a task has been submitted that has
  not begun, another task is under way, at whose end the queues go on. When all tasks have ended and the
  callbacks have run, every task has begun, and no lane is left over.
\<close>

theorem queues_make_progress:
  assumes "pq_ok pl" and "sem_ok sl" and "(queueStep pl sl)\<^sup>*\<^sup>* (newExecutionQueue sl limit) w" and "0 < limit"
  shows "(tq_active w = [] \<longrightarrow> (\<forall>n. ofName n (tq_begun w) = ofName n (tq_submitted w))) \<and>
    (tq_active w = [] \<and> tq_removals w = [] \<longrightarrow> tq_lanes w = [])"
proof -
  have lanes: "lanesOk pl w" and jobs: "jobsOk pl (jobsOf sl w) w" and permits: "permitsOk sl limit w"
    and order: "orderOk pl sl [] w" using queueSteps_ok [OF assms(1-3)] by (simp_all add: queuesOk_def)
  have none: "sem_blocked sl (tq_semaphore w) = []" if "tq_active w = []"
    using permits that assms(4) by (auto simp: permitsOk_def)
  have idle: "queueSize pl (tq_heap w ! q) = 0 \<and> n \<in> set (tq_removals w)"
    if "tq_active w = []" "map_of (tq_lanes w) n = Some q" for n q
    using jobs that none by (simp add: jobsOk_def jobsOf_def)
  have "ofName n (tq_begun w) = ofName n (tq_submitted w)" if "tq_active w = []" for n
  proof -
    have "waitingOf pl w n = []" using idle [OF that] by (auto simp: waitingOf_def queueSize_0 split: option.split)
    with order none [OF that] show ?thesis by (simp add: orderOk_def)
  qed
  moreover have "tq_lanes w = []" if "tq_active w = []" "tq_removals w = []"
  proof (cases "tq_lanes w")
    case (Cons p ps)
    with idle [OF that(1), of "fst p"] that(2) show ?thesis by (cases p) auto
  qed simp
  ultimately show ?thesis by blast
qed

text \<open>Queues and a semaphore as the libraries implement them.\<close>

definition samplePq :: "(nat list \<times> nat option) pq_lib" where
  "samplePq = \<lparr>pq_new = ([], None),
     pq_add = (\<lambda>(ts, r) t. case r of None \<Rightarrow> ((ts, Some t), Some t) | Some _ \<Rightarrow> ((ts @ [t], r), None)),
     pq_next = (\<lambda>(ts, r). case ts of [] \<Rightarrow> (([], None), None) | t # ts' \<Rightarrow> ((ts', Some t), Some t)),
     pq_waiting = fst, pq_running = snd\<rparr>"

definition sampleSem :: "(nat \<times> job list) sem_lib" where
  "sampleSem = \<lparr>sem_new = (\<lambda>n. (n, [])),
     sem_acquire = (\<lambda>(n, js) j. if 0 < n then ((n - 1, js), Some j) else ((0, js @ [j]), None)),
     sem_release = (\<lambda>(n, js). case js of [] \<Rightarrow> ((n + 1, []), None) | j # js' \<Rightarrow> ((n, js'), Some j)),
     sem_permits = fst, sem_blocked = snd\<rparr>"

lemma sample_libs_ok: "pq_ok samplePq" "sem_ok sampleSem"
  by (auto simp: pq_ok_def samplePq_def sem_ok_def sampleSem_def split: option.splits list.splits)

text \<open>Two tasks on one stream and one on another, with one permit.\<close>

definition sampleTasks :: "(nat list \<times> nat option, nat \<times> job list) task_queues" where
  "sampleTasks = namedRun samplePq sampleSem ''b'' 3 (namedRun samplePq sampleSem ''a'' 2
     (namedRun samplePq sampleSem ''a'' 1 (newExecutionQueue sampleSem 1)))"

lemma sampleTasks_run: "(queueStep samplePq sampleSem)\<^sup>*\<^sup>* (newExecutionQueue sampleSem 1) sampleTasks"
  unfolding sampleTasks_def by (meson rtranclp.rtrancl_into_rtrancl rtranclp.rtrancl_refl stepSubmit)

theorem tasks_do_not_overlap_witness:
  "tq_active sampleTasks = [\<lparr>jb_name = ''a'', jb_queue = 0, jb_task = 1\<rparr>] \<and>
   (\<exists>later. [1, 2] = ofName ''a'' (tq_begun sampleTasks) @ later)"
proof -
  have "tq_active sampleTasks = [\<lparr>jb_name = ''a'', jb_queue = 0, jb_task = 1\<rparr>]" by code_simp
  moreover have "ofName ''a'' (tq_submitted sampleTasks) = [1, 2]" by code_simp
  ultimately show ?thesis using tasks_do_not_overlap [OF sample_libs_ok sampleTasks_run] by metis
qed

theorem queues_make_progress_witness:
  "\<not> (tq_active sampleTasks = [] \<and> ofName ''a'' (tq_begun sampleTasks) \<noteq> ofName ''a'' (tq_submitted sampleTasks))"
  using queues_make_progress [OF sample_libs_ok sampleTasks_run] by simp

end
