(* ===== verification/MerkleTree.thy ===== *)
theory MerkleTree
  imports "HOL-Library.Multiset" LogSync
begin

text \<open>
  The Merkle trees that anchor many streams with one transaction (\<open>anchor-utils/src/merkle\<close>): the
  factory, the paths and proofs of leaves, the merge function that stores the nodes as IPLD records,
  and the order of the leaves. Nodes are objects with links to their children and their parent; the
  model keeps them in a heap, a list of nodes indexed by address.
\<close>

section \<open>Nodes\<close>

record 'a mnode =
  mn_data :: 'a
  mn_left :: "nat option"
  mn_right :: "nat option"
  mn_parent :: "nat option"

type_synonym 'a mheap = "'a mnode list"

datatype path_direction = L | R

definition directionString :: "path_direction \<Rightarrow> string" where
  "directionString d = (case d of L \<Rightarrow> ''0'' | R \<Rightarrow> ''1'')"

definition pathString :: "path_direction list \<Rightarrow> string" where
  "pathString path = jsJoin ''/'' (map directionString path)"

definition setParent :: "'a mheap \<Rightarrow> nat \<Rightarrow> nat \<Rightarrow> 'a mheap" where
  "setParent h a p = h[a := (h ! a)\<lparr>mn_parent := Some p\<rparr>]"

text \<open>\<open>merge\<close> computes the data of the new node from the data of its children.\<close>

type_synonym ('a, 'm) merge_fn = "'a \<Rightarrow> 'a option \<Rightarrow> 'm option \<Rightarrow> js_error + 'a"

definition mergeNodes ::
  "('a, 'm) merge_fn \<Rightarrow> 'a mheap \<Rightarrow> nat \<Rightarrow> nat option \<Rightarrow> 'm option \<Rightarrow> js_error + ('a mheap \<times> nat)" where
  "mergeNodes mg h l r metadata =
     bindR (mg (mn_data (h ! l)) (map_option (\<lambda>a. mn_data (h ! a)) r) metadata) (\<lambda>d.
     Inr (h @ [\<lparr>mn_data = d, mn_left = Some l, mn_right = r, mn_parent = None\<rparr>], length h))"

section \<open>The factory\<close>

text \<open>No elements at all would recurse for ever; the factory excludes it.\<close>

function buildLevel ::
  "('a, 'm) merge_fn \<Rightarrow> 'a mheap \<Rightarrow> nat list \<Rightarrow> nat \<Rightarrow> 'm option \<Rightarrow> js_error + ('a mheap \<times> nat)" where
  "buildLevel mg h [] currentDepth metadata = Inl Diverged"
| "buildLevel mg h [first] currentDepth metadata =
     (if currentDepth = 0 then
        bindR (mergeNodes mg h first None metadata) (\<lambda>(h', merged). Inr (setParent h' first merged, merged))
      else Inr (h, first))"
| "buildLevel mg h (e1 # e2 # es) currentDepth metadata =
     (let elements = e1 # e2 # es; middleIndex = length elements div 2 in
      bindR (buildLevel mg h (take middleIndex elements) (currentDepth + 1) None) (\<lambda>(h1, leftNode).
      bindR (buildLevel mg h1 (drop middleIndex elements) (currentDepth + 1) None) (\<lambda>(h2, rightNode).
      bindR (mergeNodes mg h2 leftNode (Some rightNode) metadata) (\<lambda>(h3, merged).
      Inr (setParent (setParent h3 leftNode merged) rightNode merged, merged)))))"
  by pat_completeness auto
termination by (relation "measure (\<lambda>(_, _, es, _, _). length es)") auto

record ('a, 'm) merkle_tree =
  mt_heap :: "'a mheap"
  mt_root :: nat
  mt_leaves :: "nat list"
  mt_metadata :: "'m option"

text \<open>\<open>nodes.sort(compare)\<close>: a stable sort by a comparison function.\<close>

fun insertBy :: "('a \<Rightarrow> 'a \<Rightarrow> int) \<Rightarrow> 'a \<Rightarrow> 'a list \<Rightarrow> 'a list" where
  "insertBy cmp x [] = [x]"
| "insertBy cmp x (y # ys) = (if cmp x y \<le> 0 then x # y # ys else y # insertBy cmp x ys)"

definition sortBy :: "('a \<Rightarrow> 'a \<Rightarrow> int) \<Rightarrow> 'a list \<Rightarrow> 'a list" where
  "sortBy cmp xs = foldr (insertBy cmp) xs []"

definition leafNode :: "'a \<Rightarrow> 'a mnode" where
  "leafNode d = \<lparr>mn_data = d, mn_left = None, mn_right = None, mn_parent = None\<rparr>"

definition buildTree ::
  "('a, 'm) merge_fn \<Rightarrow> ('a \<Rightarrow> 'a \<Rightarrow> int) option \<Rightarrow> ('a list \<Rightarrow> js_error + 'm) option \<Rightarrow> nat option \<Rightarrow> 'a list \<Rightarrow>
    js_error + ('a, 'm) merkle_tree" where
  "buildTree mg compareFn metadataFn depthLimit leaves =
     bindR (throwIf (leaves = []) (Err ''Cannot generate Merkle structure with no elements'')) (\<lambda>_.
     bindR (case depthLimit of
              Some limit \<Rightarrow> throwIf (limit \<noteq> 0 \<and> 2 ^ limit < length leaves)
                (Err ''Merkle tree exceeded configured limit of levels'')
            | None \<Rightarrow> Inr ()) (\<lambda>_.
     let h = map leafNode leaves;
         nodes = (case compareFn of
             Some cmp \<Rightarrow> sortBy (\<lambda>a b. cmp (mn_data (h ! a)) (mn_data (h ! b))) [0..<length leaves]
           | None \<Rightarrow> [0..<length leaves])
     in
       bindR (case metadataFn of
                Some f \<Rightarrow> bindR (f (map (\<lambda>a. mn_data (h ! a)) nodes)) (\<lambda>m. Inr (Some m))
              | None \<Rightarrow> Inr None) (\<lambda>metadata.
       bindR (buildLevel mg h nodes 0 metadata) (\<lambda>(h', root).
       Inr \<lparr>mt_heap = h', mt_root = root, mt_leaves = nodes, mt_metadata = metadata\<rparr>))))"

section \<open>Paths and proofs\<close>

text \<open>Following the parents may not end on a heap with a cycle: then the result is \<open>None\<close>.\<close>

partial_function (option) pathFromRoot ::
  "'a mheap \<Rightarrow> nat \<Rightarrow> path_direction list \<Rightarrow> path_direction list option" where
  "pathFromRoot h element acc = (case mn_parent (h ! element) of
     None \<Rightarrow> Some (rev acc)
   | Some parent \<Rightarrow> pathFromRoot h parent (acc @ [if mn_left (h ! parent) = Some element then L else R]))"

partial_function (option) calculateProof :: "'a mheap \<Rightarrow> nat \<Rightarrow> nat list \<Rightarrow> (js_error + nat list) option" where
  "calculateProof h element acc = (case mn_parent (h ! element) of
     None \<Rightarrow> Some (Inr acc)
   | Some parent \<Rightarrow>
     (case (if mn_left (h ! parent) = Some element then mn_right (h ! parent) else mn_left (h ! parent)) of
        None \<Rightarrow> Some (Inl (Err ''Empty proof node''))
      | Some proofNode \<Rightarrow> calculateProof h parent (acc @ [proofNode])))"

declare pathFromRoot.simps [code] and calculateProof.simps [code]

definition getDirectPathFromRoot :: "('a, 'm) merkle_tree \<Rightarrow> nat \<Rightarrow> (js_error + path_direction list) option" where
  "getDirectPathFromRoot t elemIndex =
     (if elemIndex < length (mt_leaves t)
      then map_option Inr (pathFromRoot (mt_heap t) (mt_leaves t ! elemIndex) [])
      else Some (Inl (Err ''Empty leaf at index'')))"

definition getProof :: "('a, 'm) merkle_tree \<Rightarrow> nat \<Rightarrow> (js_error + nat list) option" where
  "getProof t elemIndex =
     (if elemIndex < length (mt_leaves t)
      then calculateProof (mt_heap t) (mt_leaves t ! elemIndex) []
      else Some (Inl (Err ''Empty leaf at index'')))"

text \<open>
  \<open>sameData\<close> is \<open>===\<close> on the data of nodes. A proof node is the left child of its parent if it is
  \<open>parent.left\<close>.
\<close>

fun verifyLoop :: "('a, 'm) merge_fn \<Rightarrow> ('a, 'm) merkle_tree \<Rightarrow> nat option \<Rightarrow> nat list \<Rightarrow> 'a \<Rightarrow> js_error + 'a" where
  "verifyLoop mg t lastNode [] current = Inr current"
| "verifyLoop mg t lastNode (p # ps) current =
     (case mn_parent (mt_heap t ! p) of
        None \<Rightarrow> Inl (Err ''No parent for node'')
      | Some parent \<Rightarrow>
        (let isLeft = (mn_left (mt_heap t ! parent) = Some p);
             metadata = (if Some p = lastNode then mt_metadata t else None);
             sibling = mn_data (mt_heap t ! p)
         in bindR (if isLeft then mg sibling (Some current) metadata else mg current (Some sibling) metadata)
              (verifyLoop mg t lastNode ps)))"

definition verifyProof ::
  "('a, 'm) merge_fn \<Rightarrow> ('a \<Rightarrow> 'a \<Rightarrow> bool) \<Rightarrow> ('a, 'm) merkle_tree \<Rightarrow> nat list \<Rightarrow> 'a \<Rightarrow> js_error + bool" where
  "verifyProof mg sameData t proof element =
     bindR (verifyLoop mg t (if proof = [] then None else Some (last proof)) proof element) (\<lambda>current.
     Inr (sameData (mn_data (mt_heap t ! mt_root t)) current))"

section \<open>Paths by index\<close>

function pathByIndexHelper :: "nat \<Rightarrow> nat \<Rightarrow> path_direction list \<Rightarrow> path_direction list" where
  "pathByIndexHelper index leavesCount path =
     (if leavesCount \<le> 1 then path
      else if leavesCount = 2 then path @ [if index = 0 then L else R]
      else let middleIndex = leavesCount div 2 in
        if index < middleIndex then pathByIndexHelper index middleIndex (path @ [L])
        else pathByIndexHelper (index - middleIndex) (leavesCount - middleIndex) (path @ [R]))"
  by pat_completeness auto
termination by (relation "measure (\<lambda>(_, n, _). n)") auto

declare pathByIndexHelper.simps [simp del]

definition pathByIndex :: "nat \<Rightarrow> nat \<Rightarrow> js_error + path_direction list" where
  "pathByIndex index leavesCount =
     bindR (throwIf (leavesCount \<le> index) (Err ''Leaf at index does not exist'')) (\<lambda>_.
     Inr (if leavesCount = 1 then [L] else pathByIndexHelper index leavesCount []))"

section \<open>Nodes as IPLD records\<close>

text \<open>\<open>IpfsMerge\<close>; \<open>storeRecord\<close> puts a record into the block store and returns its CID.\<close>

definition ipfsMerge :: "(js \<Rightarrow> js_error + cid) \<Rightarrow> (cid, js) merge_fn" where
  "ipfsMerge storeRecord l r metadata =
     bindR (case metadata of
              Some m \<Rightarrow> bindR (storeRecord m) (\<lambda>c. Inr [CidV c])
            | None \<Rightarrow> Inr []) (\<lambda>metadataCid.
     storeRecord (Arr ([CidV l, case r of Some c \<Rightarrow> CidV c | None \<Rightarrow> Null] @ metadataCid)))"

text \<open>\<open>IpfsLeafCompare\<close>; \<open>localeCompare\<close> is the collation of the engine. An absent model comes last.\<close>

record candidate =
  ca_cid :: cid
  ca_streamId :: string
  ca_model :: "string option"
  ca_controller :: string

definition leafCompare :: "(string \<Rightarrow> string \<Rightarrow> int) \<Rightarrow> candidate \<Rightarrow> candidate \<Rightarrow> int" where
  "leafCompare localeCompare left right =
     (if ca_model left \<noteq> ca_model right then
        (case (ca_model left, ca_model right) of
           (Some _, None) \<Rightarrow> - 1
         | (Some l, Some r) \<Rightarrow> localeCompare l r
         | (None, _) \<Rightarrow> 1)
      else if ca_controller left \<noteq> ca_controller right
      then localeCompare (ca_controller left) (ca_controller right)
      else localeCompare (ca_streamId left) (ca_streamId right))"

section \<open>The tree in the heap\<close>

text \<open>The abstract tree of addresses that a heap represents below a node.\<close>

datatype mtree = MLeaf (adr: nat) | MNode (adr: nat) mtree mtree

fun leavesOf :: "mtree \<Rightarrow> nat list" where
  "leavesOf (MLeaf a) = [a]"
| "leavesOf (MNode a l r) = leavesOf l @ leavesOf r"

fun addrsOf :: "mtree \<Rightarrow> nat list" where
  "addrsOf (MLeaf a) = [a]"
| "addrsOf (MNode a l r) = a # addrsOf l @ addrsOf r"

fun rep :: "'a mheap \<Rightarrow> mtree \<Rightarrow> bool" where
  "rep h (MLeaf a) \<longleftrightarrow> a < length h"
| "rep h (MNode a l r) \<longleftrightarrow> a < length h \<and> mn_left (h ! a) = Some (adr l) \<and> mn_right (h ! a) = Some (adr r) \<and>
     mn_parent (h ! adr l) = Some a \<and> mn_parent (h ! adr r) = Some a \<and> rep h l \<and> rep h r"

text \<open>Every node splits its leaves in halves, the smaller one to the left.\<close>

fun halved :: "mtree \<Rightarrow> bool" where
  "halved (MLeaf a) \<longleftrightarrow> True"
| "halved (MNode a l r) \<longleftrightarrow> length (leavesOf l) = (length (leavesOf l) + length (leavesOf r)) div 2 \<and>
     halved l \<and> halved r"

text \<open>The data of every inner node is the merge of the data of its children.\<close>

fun hashed :: "('a, 'm) merge_fn \<Rightarrow> 'm option \<Rightarrow> 'a mheap \<Rightarrow> mtree \<Rightarrow> bool" where
  "hashed mg m h (MLeaf a) \<longleftrightarrow> True"
| "hashed mg m h (MNode a l r) \<longleftrightarrow>
     mg (mn_data (h ! adr l)) (Some (mn_data (h ! adr r))) m = Inr (mn_data (h ! a)) \<and>
     hashed mg None h l \<and> hashed mg None h r"

lemma leavesOf_nonempty [simp]: "leavesOf t \<noteq> []"
  by (induction t) auto

lemma adr_in_addrsOf [simp]: "adr t \<in> set (addrsOf t)"
  by (cases t) auto

lemma rep_frame:
  assumes "rep h t" and "length h \<le> length h'" and "distinct (addrsOf t)"
    and "\<And>a. a \<in> set (addrsOf t) \<Longrightarrow> mn_left (h' ! a) = mn_left (h ! a) \<and> mn_right (h' ! a) = mn_right (h ! a)"
    and "\<And>a. a \<in> set (addrsOf t) \<Longrightarrow> a \<noteq> adr t \<Longrightarrow> mn_parent (h' ! a) = mn_parent (h ! a)"
  shows "rep h' t"
  using assms
proof (induction t)
  case (MNode a l r)
  have "rep h' l"
    by (rule MNode.IH(1)) (use MNode.prems in auto)
  moreover have "rep h' r"
    by (rule MNode.IH(2)) (use MNode.prems in auto)
  moreover have "adr l \<noteq> a" "adr r \<noteq> a" using MNode.prems(3) by (metis addrsOf.simps(2) adr_in_addrsOf
        distinct.simps(2) in_set_conv_decomp append_assoc Un_iff set_append)+
  ultimately show ?case using MNode.prems by auto
qed auto

lemma hashed_frame:
  "hashed mg m h t \<Longrightarrow> (\<And>a. a \<in> set (addrsOf t) \<Longrightarrow> mn_data (h' ! a) = mn_data (h ! a)) \<Longrightarrow> hashed mg m h' t"
  by (induction t arbitrary: m) auto

lemma setParent_simps [simp]:
  "length (setParent h a p) = length h"
  "mn_left (setParent h a p ! b) = mn_left (h ! b)" "mn_right (setParent h a p ! b) = mn_right (h ! b)"
  "mn_data (setParent h a p ! b) = mn_data (h ! b)"
  "b \<noteq> a \<Longrightarrow> setParent h a p ! b = h ! b"
  "a < length h \<Longrightarrow> mn_parent (setParent h a p ! a) = Some p"
  by (cases "a < length h"; auto simp: setParent_def nth_list_update list_update_beyond)+

lemma mergeNodes_Inr:
  assumes "mergeNodes mg h l r m = Inr (h', a)"
  shows "a = length h" and "length h' = Suc (length h)" and "b < length h \<Longrightarrow> h' ! b = h ! b"
    and "mn_left (h' ! a) = Some l" and "mn_right (h' ! a) = r" and "mn_parent (h' ! a) = None"
    and "mg (mn_data (h ! l)) (map_option (\<lambda>x. mn_data (h ! x)) r) m = Inr (mn_data (h' ! a))"
  using assms by (auto simp: mergeNodes_def res_simps nth_append)

text \<open>What \<open>buildLevel\<close> leaves of the heap, and the tree it builds in it.\<close>

definition builtTree ::
  "('a, 'm) merge_fn \<Rightarrow> 'a mheap \<Rightarrow> nat list \<Rightarrow> 'm option \<Rightarrow> 'a mheap \<Rightarrow> nat \<Rightarrow> mtree \<Rightarrow> bool" where
  "builtTree mg h es m h' rt t \<longleftrightarrow> rep h' t \<and> adr t = rt \<and> leavesOf t = es \<and> halved t \<and> hashed mg m h' t \<and>
     distinct (addrsOf t) \<and> set (addrsOf t) \<subseteq> set es \<union> {length h..<length h'} \<and>
     length h \<le> length h' \<and> mn_parent (h' ! rt) = None \<and>
     (\<forall>a < length h. a \<notin> set es \<longrightarrow> h' ! a = h ! a) \<and>
     (\<forall>a < length h. mn_data (h' ! a) = mn_data (h ! a))"

lemma builtTree_root: "builtTree mg h es m h' rt t \<Longrightarrow> rt < length h'"
  unfolding builtTree_def by (cases t) auto

text \<open>Linking the new node to its two children.\<close>

lemma joined_node:
  assumes merge: "mergeNodes mg h2 l (Some r) m = Inr (h3, p)"
    and lr: "l < length h2" "r < length h2" "l \<noteq> r"
    and h: "h = setParent (setParent h3 l p) r p"
  shows "p = length h2" and "length h = Suc (length h2)"
    and "mn_left (h ! p) = Some l" and "mn_right (h ! p) = Some r" and "mn_parent (h ! p) = None"
    and "mn_parent (h ! l) = Some p" and "mn_parent (h ! r) = Some p"
    and "mg (mn_data (h ! l)) (Some (mn_data (h ! r))) m = Inr (mn_data (h ! p))"
    and "\<And>a. a < length h2 \<Longrightarrow> mn_data (h ! a) = mn_data (h2 ! a)"
    and "\<And>a. a < length h2 \<Longrightarrow> mn_left (h ! a) = mn_left (h2 ! a) \<and> mn_right (h ! a) = mn_right (h2 ! a)"
    and "\<And>a. a < length h2 \<Longrightarrow> a \<noteq> l \<Longrightarrow> a \<noteq> r \<Longrightarrow> h ! a = h2 ! a"
  using mergeNodes_Inr [OF merge] lr unfolding h by auto

lemma builtTree_node:
  assumes left: "builtTree mg h ls None h1 l tL" and right: "builtTree mg h1 rs None h2 r tR"
    and es: "distinct (ls @ rs)" "\<forall>a \<in> set (ls @ rs). a < length h"
    and half: "length ls = (length ls + length rs) div 2"
    and merge: "mergeNodes mg h2 l (Some r) m = Inr (h3, p)"
  shows "builtTree mg h (ls @ rs) m (setParent (setParent h3 l p) r p) p (MNode p tL tR)"
proof -
  define hn where "hn = setParent (setParent h3 l p) r p"
  from left have L: "rep h1 tL" "adr tL = l" "leavesOf tL = ls" "halved tL" "hashed mg None h1 tL"
    "distinct (addrsOf tL)" "set (addrsOf tL) \<subseteq> set ls \<union> {length h..<length h1}" "length h \<le> length h1"
    "\<forall>a < length h. a \<notin> set ls \<longrightarrow> h1 ! a = h ! a" "\<forall>a < length h. mn_data (h1 ! a) = mn_data (h ! a)"
    by (simp_all add: builtTree_def)
  from right have R: "rep h2 tR" "adr tR = r" "leavesOf tR = rs" "halved tR" "hashed mg None h2 tR"
    "distinct (addrsOf tR)" "set (addrsOf tR) \<subseteq> set rs \<union> {length h1..<length h2}" "length h1 \<le> length h2"
    "\<forall>a < length h1. a \<notin> set rs \<longrightarrow> h2 ! a = h1 ! a" "\<forall>a < length h1. mn_data (h2 ! a) = mn_data (h1 ! a)"
    by (simp_all add: builtTree_def)
  have rs: "set rs \<subseteq> {0..<length h}" and ls: "set ls \<subseteq> {0..<length h} - set rs" using es by auto
  have inL: "a < length h1 \<and> a \<notin> set rs" if "a \<in> set (addrsOf tL)" for a
    using subsetD [OF L(7) that] subsetD [OF ls, of a] subsetD [OF rs, of a] L(8) by auto
  have inR: "a < length h2 \<and> (a \<in> set rs \<or> length h1 \<le> a)" if "a \<in> set (addrsOf tR)" for a
    using subsetD [OF R(7) that] subsetD [OF rs, of a] R(8) L(8) by auto
  have disj: "set (addrsOf tL) \<inter> set (addrsOf tR) = {}"
    using inL inR leD by blast
  have l: "l \<in> set (addrsOf tL)" and r: "r \<in> set (addrsOf tR)" using L(2) R(2) by auto
  have lr: "l < length h2" "r < length h2" "l \<noteq> r"
    using inL [OF l] inR [OF r] R(8) disj l r by auto
  note J = joined_node [OF merge lr hn_def]
  have oldL: "h2 ! a = h1 ! a \<and> a < length h2 \<and> a \<noteq> r" if "a \<in> set (addrsOf tL)" for a
    using inL [OF that] R(8,9) disj r that by auto
  have "rep hn tL"
    using L(1)
  proof (rule rep_frame)
    show "length h1 \<le> length hn" using R(8) J(2) by simp
    show "mn_left (hn ! a) = mn_left (h1 ! a) \<and> mn_right (hn ! a) = mn_right (h1 ! a)"
      if "a \<in> set (addrsOf tL)" for a
      using oldL [OF that] J(10) [of a] by simp
    show "mn_parent (hn ! a) = mn_parent (h1 ! a)" if "a \<in> set (addrsOf tL)" "a \<noteq> adr tL" for a
      using oldL [OF that(1)] J(11) [of a] that(2) L(2) by simp
  qed (rule L(6))
  moreover have "rep hn tR"
    using R(1)
  proof (rule rep_frame)
    show "length h2 \<le> length hn" using J(2) by simp
    show "mn_left (hn ! a) = mn_left (h2 ! a) \<and> mn_right (hn ! a) = mn_right (h2 ! a)"
      if "a \<in> set (addrsOf tR)" for a
      using inR [OF that] J(10) [of a] by simp
    show "mn_parent (hn ! a) = mn_parent (h2 ! a)" if "a \<in> set (addrsOf tR)" "a \<noteq> adr tR" for a
    proof -
      have "a \<noteq> l" "a \<noteq> r" using disj l that R(2) by auto
      then show ?thesis using inR [OF that(1)] J(11) [of a] by simp
    qed
  qed (rule R(6))
  moreover have "hashed mg None hn tL"
    by (rule hashed_frame [OF L(5)]) (use oldL J(9) in simp)
  moreover have "hashed mg None hn tR"
    by (rule hashed_frame [OF R(5)]) (use inR J(9) in simp)
  moreover have "p \<notin> set (addrsOf tL)" "p \<notin> set (addrsOf tR)"
    using oldL inR J(1) by blast+
  moreover have "set (p # addrsOf tL @ addrsOf tR) \<subseteq> set (ls @ rs) \<union> {length h..<length hn}"
    using L(7) R(7) R(8) L(8) J(1,2) by (auto simp: subset_eq)
  moreover have "\<forall>a < length h. a \<notin> set (ls @ rs) \<longrightarrow> hn ! a = h ! a"
  proof (intro allI impI)
    fix a assume a: "a < length h" "a \<notin> set (ls @ rs)"
    then have "a \<notin> set (addrsOf tL)" "a \<notin> set (addrsOf tR)"
      using L(7,8) R(7) by (auto simp: subset_eq)
    then have "a \<noteq> l" "a \<noteq> r" using l r by auto
    with a show "hn ! a = h ! a" using J(11) [of a] L(8,9) R(8,9) by simp
  qed
  moreover have "\<forall>a < length h. mn_data (hn ! a) = mn_data (h ! a)"
    using L(8,10) R(8,10) J(9) by simp
  ultimately show ?thesis
    using J L(2-4,6,8) R(2-4,6,8) half disj unfolding hn_def [symmetric]
    by (simp add: builtTree_def)
qed

lemma buildLevel_builds:
  "buildLevel mg h es d m = Inr (h', rt) \<Longrightarrow> es \<noteq> [] \<Longrightarrow> d \<noteq> 0 \<or> 2 \<le> length es \<Longrightarrow> distinct es \<Longrightarrow>
   \<forall>a \<in> set es. a < length h \<and> mn_parent (h ! a) = None \<Longrightarrow> \<exists>t. builtTree mg h es m h' rt t"
proof (induction mg h es d m arbitrary: h' rt rule: buildLevel.induct)
  case (2 mg h first d m)
  then have "builtTree mg h [first] m h' rt (MLeaf first)"
    by (simp add: builtTree_def)
  then show ?case ..
next
  case (3 mg h e1 e2 es d m)
  define els where "els = e1 # e2 # es"
  define mid where "mid = length els div 2"
  have mid: "0 < mid" "mid < length els" by (auto simp: mid_def els_def)
  from 3(3) obtain h1 l h2 r h3 where
    b1: "buildLevel mg h (take mid els) (d + 1) None = Inr (h1, l)" and
    b2: "buildLevel mg h1 (drop mid els) (d + 1) None = Inr (h2, r)" and
    b3: "mergeNodes mg h2 l (Some r) m = Inr (h3, rt)" and h': "h' = setParent (setParent h3 l rt) r rt"
    by (auto simp: Let_def bindR_Inr_iff els_def mid_def simp del: take_Suc_Cons drop_Suc_Cons)
  have dist: "distinct (take mid els @ drop mid els)" and
    fresh: "\<forall>a \<in> set els. a < length h \<and> mn_parent (h ! a) = None"
    using 3(6,7) by (simp_all add: els_def)
  have "\<exists>t. builtTree mg h (take mid els) None h1 l t"
    by (rule 3(1) [OF els_def mid_def [unfolded els_def, folded els_def] b1])
      (use mid dist fresh in \<open>auto dest: in_set_takeD\<close>)
  then obtain tL where tL: "builtTree mg h (take mid els) None h1 l tL" ..
  have "\<forall>a \<in> set (drop mid els). a < length h1 \<and> mn_parent (h1 ! a) = None"
  proof
    fix a assume a: "a \<in> set (drop mid els)"
    then have "a \<notin> set (take mid els)" "a < length h" "mn_parent (h ! a) = None"
      using dist [unfolded distinct_append] fresh by (auto dest: in_set_dropD)
    with tL show "a < length h1 \<and> mn_parent (h1 ! a) = None"
      by (simp add: builtTree_def)
  qed
  then have "\<exists>t. builtTree mg h1 (drop mid els) None h2 r t"
    by (intro 3(2) [OF els_def mid_def [unfolded els_def, folded els_def] b1 refl b2])
      (use mid dist in auto)
  then obtain tR where tR: "builtTree mg h1 (drop mid els) None h2 r tR" ..
  have "builtTree mg h (take mid els @ drop mid els) m h' rt (MNode rt tL tR)"
    unfolding h' by (rule builtTree_node [OF tL tR dist _ _ b3])
      (use fresh mid in \<open>auto simp: mid_def dest: in_set_takeD in_set_dropD\<close>)
  then show ?case by (auto simp: els_def)
qed simp_all

section \<open>Paths in a built tree\<close>

fun leafPath :: "mtree \<Rightarrow> nat \<Rightarrow> path_direction list" where
  "leafPath (MLeaf a) i = []"
| "leafPath (MNode a l r) i =
     (if i < length (leavesOf l) then L # leafPath l i else R # leafPath r (i - length (leavesOf l)))"

text \<open>Climbing from a leaf to the root of its tree.\<close>

lemma pathFromRoot_climbs:
  "rep h t \<Longrightarrow> distinct (addrsOf t) \<Longrightarrow> i < length (leavesOf t) \<Longrightarrow>
   pathFromRoot h (leavesOf t ! i) acc = pathFromRoot h (adr t) (acc @ rev (leafPath t i))"
proof (induction t arbitrary: i acc)
  case (MLeaf a)
  then show ?case by simp
next
  case (MNode a l r)
  from MNode.prems(2) have ne: "adr l \<noteq> adr r"
    using adr_in_addrsOf [of l] adr_in_addrsOf [of r] by (metis IntI addrsOf.simps(2) distinct.simps(2)
        distinct_append emptyE)
  show ?case
  proof (cases "i < length (leavesOf l)")
    case True
    with MNode have "pathFromRoot h (leavesOf (MNode a l r) ! i) acc =
        pathFromRoot h (adr l) (acc @ rev (leafPath l i))"
      by (simp add: nth_append)
    also have "\<dots> = pathFromRoot h a (acc @ rev (leafPath l i) @ [L])"
      by (subst pathFromRoot.simps) (use MNode.prems in simp)
    finally show ?thesis using True by simp
  next
    case False
    with MNode have "pathFromRoot h (leavesOf (MNode a l r) ! i) acc =
        pathFromRoot h (adr r) (acc @ rev (leafPath r (i - length (leavesOf l))))"
      by (simp add: nth_append)
    also have "\<dots> = pathFromRoot h a (acc @ rev (leafPath r (i - length (leavesOf l))) @ [R])"
      by (subst pathFromRoot.simps) (use MNode.prems ne in simp)
    finally show ?thesis using False by simp
  qed
qed

lemma pathByIndexHelper_cases:
  "pathByIndexHelper i (Suc 0) path = path"
  "pathByIndexHelper i 2 path = path @ [if i = 0 then L else R]"
  "2 < n \<Longrightarrow> i < n div 2 \<Longrightarrow> pathByIndexHelper i n path = pathByIndexHelper i (n div 2) (path @ [L])"
  "2 < n \<Longrightarrow> n div 2 \<le> i \<Longrightarrow>
     pathByIndexHelper i n path = pathByIndexHelper (i - n div 2) (n - n div 2) (path @ [R])"
  by (subst pathByIndexHelper.simps; simp add: Let_def)+

lemma leaves_one: "length (leavesOf t) = Suc 0 \<Longrightarrow> \<exists>a. t = MLeaf a"
  using leavesOf_nonempty by (cases t) (auto simp: add_is_1 simp del: leavesOf_nonempty)

lemma pathByIndexHelper_leafPath:
  "halved t \<Longrightarrow> i < length (leavesOf t) \<Longrightarrow>
   pathByIndexHelper i (length (leavesOf t)) path = path @ leafPath t i"
proof (induction t arbitrary: i path)
  case (MLeaf a)
  then show ?case by (simp add: pathByIndexHelper.simps)
next
  case (MNode a l r)
  let ?n = "length (leavesOf l) + length (leavesOf r)"
  have pos: "0 < length (leavesOf l)" "0 < length (leavesOf r)" by simp_all
  show ?case
  proof (cases "?n = 2")
    case True
    with pos have "length (leavesOf l) = Suc 0" "length (leavesOf r) = Suc 0" by linarith+
    with True leaves_one obtain x y where "l = MLeaf x" "r = MLeaf y" by meson
    with MNode.prems show ?thesis
      using pathByIndexHelper_cases(2) [of i path] by (auto simp: less_Suc_eq numeral_2_eq_2)
  next
    case False
    with pos have n: "2 < ?n" by linarith
    have half: "?n div 2 = length (leavesOf l)" "?n - ?n div 2 = length (leavesOf r)"
      using MNode.prems(1) by simp_all
    show ?thesis
    proof (cases "i < length (leavesOf l)")
      case True
      with MNode.IH(1) [of i "path @ [L]"] MNode.prems(1) pathByIndexHelper_cases(3) [OF n, of i path] half
      show ?thesis by simp
    next
      case False
      with MNode.IH(2) [of "i - length (leavesOf l)" "path @ [R]"] MNode.prems
        pathByIndexHelper_cases(4) [OF n, of i path] half
      show ?thesis by simp
    qed
  qed
qed

lemma leafPath_bound: "halved t \<Longrightarrow> length (leavesOf t) \<le> 2 ^ k \<Longrightarrow> length (leafPath t i) \<le> k"
proof (induction t arbitrary: i k)
  case (MNode a l r)
  have pos: "0 < length (leavesOf l)" "0 < length (leavesOf r)" by simp_all
  with MNode.prems obtain k' where k: "k = Suc k'" by (cases k) auto
  with MNode.prems have "length (leavesOf l) \<le> 2 ^ k'" "length (leavesOf r) \<le> 2 ^ k'" by auto
  with MNode k show ?case by auto
qed simp

section \<open>The factory builds such a tree\<close>

lemma insertBy_mset: "mset (insertBy cmp x xs) = add_mset x (mset xs)"
  by (induction xs) auto

lemma sortBy_mset [simp]: "mset (sortBy cmp xs) = mset xs"
  unfolding sortBy_def by (induction xs) (auto simp: insertBy_mset)

lemma sortBy_length [simp]: "length (sortBy cmp xs) = length xs"
  by (metis sortBy_mset size_mset)

lemma sortBy_set [simp]: "set (sortBy cmp xs) = set xs"
  by (metis sortBy_mset set_mset_mset)

lemma sortBy_distinct [simp]: "distinct (sortBy cmp xs) = distinct xs"
  by (metis sortBy_mset mset_eq_imp_distinct_iff)

text \<open>A built tree: its leaves, and the shape of its heap.\<close>

definition builtLevels ::
  "('a, 'm) merge_fn \<Rightarrow> 'a list \<Rightarrow> ('a, 'm) merkle_tree \<Rightarrow> mtree \<Rightarrow> bool" where
  "builtLevels mg leaves t tr \<longleftrightarrow>
     builtTree mg (map leafNode leaves) (mt_leaves t) (mt_metadata t) (mt_heap t) (mt_root t) tr"

definition singleLeaf :: "('a, 'm) merge_fn \<Rightarrow> 'a list \<Rightarrow> ('a, 'm) merkle_tree \<Rightarrow> bool" where
  "singleLeaf mg leaves t \<longleftrightarrow> (\<exists>d. leaves = [d] \<and> mt_leaves t = [0] \<and> mt_root t = 1 \<and> length (mt_heap t) = 2 \<and>
     mn_parent (mt_heap t ! 0) = Some 1 \<and> mn_left (mt_heap t ! 1) = Some 0 \<and> mn_right (mt_heap t ! 1) = None \<and>
     mn_parent (mt_heap t ! 1) = None \<and> mn_data (mt_heap t ! 0) = d \<and>
     mg d None (mt_metadata t) = Inr (mn_data (mt_heap t ! 1)))"

lemma buildTree_Inr:
  assumes "buildTree mg cmp mf limit leaves = Inr t"
  shows "leaves \<noteq> []" and "length (mt_leaves t) = length leaves" and "set (mt_leaves t) = {0..<length leaves}"
    and "distinct (mt_leaves t)"
    and "limit = Some n \<Longrightarrow> n \<noteq> 0 \<Longrightarrow> length leaves \<le> 2 ^ n"
    and "buildLevel mg (map leafNode leaves) (mt_leaves t) 0 (mt_metadata t) = Inr (mt_heap t, mt_root t)"
  using assms by (auto simp: buildTree_def Let_def res_simps split: option.splits)

lemma buildTree_shape:
  assumes b: "buildTree mg cmp mf limit leaves = Inr t"
  shows "(length leaves = 1 \<and> singleLeaf mg leaves t) \<or> (2 \<le> length leaves \<and> (\<exists>tr. builtLevels mg leaves t tr))"
proof (cases "length leaves = 1")
  case True
  then obtain d where d: "leaves = [d]" by (auto simp: length_Suc_conv)
  have "length (mt_leaves t) = Suc 0" "set (mt_leaves t) = {0}"
    using buildTree_Inr(2,3) [OF b] True by (simp, simp)
  then have lv: "mt_leaves t = [0]" by (cases "mt_leaves t") simp_all
  from buildTree_Inr(6) [OF b] obtain x where "mt_root t = 1" "mg d None (mt_metadata t) = Inr x"
    "mt_heap t = [\<lparr>mn_data = d, mn_left = None, mn_right = None, mn_parent = Some 1\<rparr>,
                  \<lparr>mn_data = x, mn_left = Some 0, mn_right = None, mn_parent = None\<rparr>]"
    unfolding d lv by (auto simp: leafNode_def mergeNodes_def setParent_def bindR_Inr_iff)
  then have "singleLeaf mg leaves t" by (simp add: singleLeaf_def d lv)
  with True show ?thesis by simp
next
  case False
  moreover have "length leaves \<noteq> 0" using buildTree_Inr(1) [OF b] by simp
  ultimately have two: "2 \<le> length leaves" by linarith
  have "\<exists>tr. builtLevels mg leaves t tr"
    unfolding builtLevels_def
    by (rule buildLevel_builds [OF buildTree_Inr(6) [OF b]])
      (use two buildTree_Inr(2-4) [OF b] in \<open>auto simp: leafNode_def\<close>)
  with two show ?thesis by simp
qed

lemma getDirectPath_single:
  "singleLeaf mg leaves t \<Longrightarrow> getDirectPathFromRoot t 0 = Some (Inr [L])"
  by (auto simp: singleLeaf_def getDirectPathFromRoot_def pathFromRoot.simps [of _ 0] pathFromRoot.simps [of _ "Suc 0"])

lemma getDirectPath_levels:
  assumes "builtLevels mg leaves t tr" "i < length (mt_leaves t)"
  shows "getDirectPathFromRoot t i = Some (Inr (leafPath tr i))"
proof -
  from assms have "rep (mt_heap t) tr" "distinct (addrsOf tr)" "leavesOf tr = mt_leaves t"
    "adr tr = mt_root t" "mn_parent (mt_heap t ! mt_root t) = None"
    by (simp_all add: builtLevels_def builtTree_def)
  with assms(2) pathFromRoot_climbs [of "mt_heap t" tr i "[]"] show ?thesis
    by (simp add: getDirectPathFromRoot_def pathFromRoot.simps [of _ "mt_root t"])
qed

lemma direct_path_by_index:
  assumes "buildTree mg cmp mf limit leaves = Inr t" and i: "i < length leaves"
  shows "\<exists>path. getDirectPathFromRoot t i = Some (Inr path) \<and> pathByIndex i (length leaves) = Inr path"
  using buildTree_shape [OF assms(1)]
proof (elim disjE conjE exE)
  assume "length leaves = 1" "singleLeaf mg leaves t"
  with i getDirectPath_single show ?thesis by (auto simp: pathByIndex_def)
next
  fix tr assume two: "2 \<le> length leaves" and tr: "builtLevels mg leaves t tr"
  then have "halved tr" "length (leavesOf tr) = length leaves"
    using buildTree_Inr(2) [OF assms(1)] by (simp_all add: builtLevels_def builtTree_def)
  with two i getDirectPath_levels [OF tr] pathByIndexHelper_leafPath [of tr i "[]"]
    buildTree_Inr(2) [OF assms(1)] show ?thesis
    by (auto simp: pathByIndex_def)
qed

text \<open>
  equivalence of the two computations of a path. For every tree the factory builds, whatever the
  order, the merge function and the metadata, climbing from leaf number \<open>i\<close> to the root ends and gives
  the path that \<open>pathByIndex\<close> computes from \<open>i\<close> and the number of leaves alone; an index beyond the
  leaves is an error of both.
\<close>

theorem merkle_path_by_index:
  assumes "buildTree mg cmp mf limit leaves = Inr t"
  shows "(i < length leaves \<longrightarrow>
      (\<exists>path. getDirectPathFromRoot t i = Some (Inr path) \<and> pathByIndex i (length leaves) = Inr path)) \<and>
    (length leaves \<le> i \<longrightarrow> (\<exists>e. getDirectPathFromRoot t i = Some (Inl e)) \<and>
      (\<exists>e. pathByIndex i (length leaves) = Inl e))"
proof (rule conjI; rule impI)
  show "\<exists>path. getDirectPathFromRoot t i = Some (Inr path) \<and> pathByIndex i (length leaves) = Inr path"
    if "i < length leaves"
    by (rule direct_path_by_index [OF assms that])
  show "(\<exists>e. getDirectPathFromRoot t i = Some (Inl e)) \<and> (\<exists>e. pathByIndex i (length leaves) = Inl e)"
    if "length leaves \<le> i"
    using that buildTree_Inr(2) [OF assms] by (simp add: getDirectPathFromRoot_def pathByIndex_def)
qed

text \<open>A tree of five strings, merged by concatenation.\<close>

definition sampleMerge :: "(string, unit) merge_fn" where
  "sampleMerge l r m = Inr (''('' @ l @ (case r of Some s \<Rightarrow> s | None \<Rightarrow> []) @ '')'')"

definition sampleLeaves :: "string list" where
  "sampleLeaves = [''a'', ''b'', ''c'', ''d'', ''e'']"

definition sampleTree :: "(string, unit) merkle_tree" where
  "sampleTree = (case buildTree sampleMerge None None (Some 3) sampleLeaves of Inr t \<Rightarrow> t
     | Inl _ \<Rightarrow> \<lparr>mt_heap = [], mt_root = 0, mt_leaves = [], mt_metadata = None\<rparr>)"

lemma sample_buildTree: "buildTree sampleMerge None None (Some 3) sampleLeaves = Inr sampleTree"
  by code_simp

theorem merkle_path_by_index_witness:
  "(\<exists>path. getDirectPathFromRoot sampleTree 3 = Some (Inr path) \<and> pathByIndex 3 5 = Inr path) \<and>
   (\<exists>e. getDirectPathFromRoot sampleTree 5 = Some (Inl e)) \<and> pathByIndex 3 5 = Inr [R, R, L]"
proof -
  have "length sampleLeaves = 5" by (simp add: sampleLeaves_def)
  with merkle_path_by_index [OF sample_buildTree, of 3] merkle_path_by_index [OF sample_buildTree, of 5]
  show ?thesis by (simp add: pathByIndex_def pathByIndexHelper.simps)
qed

text \<open>
  C23: bounds. The configured limit of levels bounds every path: a tree built under the limit \<open>n\<close> has
  at most \<open>2 ^ n\<close> leaves, and the path of each of its leaves exists and has at most \<open>n\<close> steps.
\<close>

theorem merkle_depth_limit:
  assumes "buildTree mg cmp mf (Some n) leaves = Inr t" and "n \<noteq> 0" and "i < length leaves"
  shows "length leaves \<le> 2 ^ n \<and> (\<exists>path. getDirectPathFromRoot t i = Some (Inr path) \<and> length path \<le> n)"
  using buildTree_shape [OF assms(1)]
proof (elim disjE conjE exE)
  assume "length leaves = 1" "singleLeaf mg leaves t"
  with assms getDirectPath_single [of mg leaves t] show ?thesis by auto
next
  fix tr assume tr: "builtLevels mg leaves t tr"
  then have "halved tr" "length (leavesOf tr) = length leaves"
    using buildTree_Inr(2) [OF assms(1)] by (simp_all add: builtLevels_def builtTree_def)
  moreover have "length leaves \<le> 2 ^ n" using buildTree_Inr(5) [OF assms(1)] assms(2) by simp
  ultimately show ?thesis
    using getDirectPath_levels [OF tr, of i] leafPath_bound [of tr n i] assms(3) buildTree_Inr(2) [OF assms(1)]
    by simp
qed

theorem merkle_depth_limit_witness:
  "\<exists>path. getDirectPathFromRoot sampleTree 4 = Some (Inr path) \<and> length path \<le> 3"
  using merkle_depth_limit [OF sample_buildTree, of 4] by (simp add: sampleLeaves_def)

section \<open>Anchors through the tree\<close>

text \<open>
  \<open>resolveDag read c path\<close> follows a path of directions through stored records, from the record of
  \<open>c\<close>: what IPLD path resolution does on the records that \<open>IpfsMerge\<close> stores.
\<close>

fun resolveDag :: "(cid \<Rightarrow> js) \<Rightarrow> cid \<Rightarrow> path_direction list \<Rightarrow> cid option" where
  "resolveDag read c [] = Some c"
| "resolveDag read c (d # ds) = (case read c of
     Arr xs \<Rightarrow> (case map_of (jsFields (Arr xs)) (directionString d) of
        Some (CidV c') \<Rightarrow> resolveDag read c' ds
      | _ \<Rightarrow> None)
   | _ \<Rightarrow> None)"

lemma natStr_0: "natStr 0 = ''0''" and natStr_1: "natStr (Suc 0) = ''1''"
  by code_simp+

lemma jsFields_pair: "map_of (jsFields (Arr (a # b # rest))) (directionString d) = Some (case d of L \<Rightarrow> a | R \<Rightarrow> b)"
proof -
  have "[0..<length (a # b # rest)] = 0 # Suc 0 # [2..<length (a # b # rest)]"
    by (simp add: upt_conv_Cons numeral_2_eq_2 del: upt_Suc)
  then show ?thesis
    by (cases d) (simp_all add: directionString_def natStr_0 natStr_1 del: upt_Suc)
qed

lemma ipfsMerge_record:
  assumes "\<And>r c. storeRecord r = Inr c \<Longrightarrow> read c = r" and "ipfsMerge storeRecord l r m = Inr c"
  shows "\<exists>rest. read c = Arr (CidV l # (case r of Some x \<Rightarrow> CidV x | None \<Rightarrow> Null) # rest)"
  using assms by (auto simp: ipfsMerge_def res_simps)

lemma resolveDag_leafPath:
  assumes read: "\<And>r c. storeRecord r = Inr c \<Longrightarrow> read c = r"
  shows "hashed (ipfsMerge storeRecord) m h t \<Longrightarrow> i < length (leavesOf t) \<Longrightarrow>
    resolveDag read (mn_data (h ! adr t)) (leafPath t i) = Some (mn_data (h ! (leavesOf t ! i)))"
proof (induction t arbitrary: m i)
  case (MLeaf a)
  then show ?case by simp
next
  case (MNode a l r)
  from MNode.prems(1) ipfsMerge_record [OF read] obtain rest where
    "read (mn_data (h ! a)) = Arr (CidV (mn_data (h ! adr l)) # CidV (mn_data (h ! adr r)) # rest)"
    by force
  with MNode show ?case
    using jsFields_pair by (auto simp: nth_append)
qed

lemma resolve_direct_path:
  assumes read: "\<And>r c. storeRecord r = Inr c \<Longrightarrow> read c = r"
    and b: "buildTree (ipfsMerge storeRecord) cmp mf limit leaves = Inr t" and i: "i < length leaves"
  obtains path where "getDirectPathFromRoot t i = Some (Inr path)" "path \<noteq> []"
    "resolveDag read (mn_data (mt_heap t ! mt_root t)) path = Some (leaves ! (mt_leaves t ! i))"
  using buildTree_shape [OF b]
proof (elim disjE conjE exE)
  assume "length leaves = 1" and s: "singleLeaf (ipfsMerge storeRecord) leaves t"
  then have "i = 0" using i by simp
  moreover from s ipfsMerge_record [OF read] obtain rest where
    "read (mn_data (mt_heap t ! mt_root t)) = Arr (CidV (leaves ! 0) # Null # rest)"
    by (force simp: singleLeaf_def)
  ultimately show thesis
    using that [of "[L]"] getDirectPath_single [OF s] s jsFields_pair [of "CidV (leaves ! 0)" Null rest L]
    by (simp add: singleLeaf_def)
next
  fix tr assume two: "2 \<le> length leaves" and tr: "builtLevels (ipfsMerge storeRecord) leaves t tr"
  have T: "leavesOf tr = mt_leaves t" "adr tr = mt_root t"
    "hashed (ipfsMerge storeRecord) (mt_metadata t) (mt_heap t) tr"
    "\<And>a. a < length leaves \<Longrightarrow> mn_data (mt_heap t ! a) = leaves ! a"
    using tr by (auto simp: builtLevels_def builtTree_def leafNode_def)
  have n: "length (mt_leaves t) = length leaves" "mt_leaves t ! i < length leaves"
    using buildTree_Inr(2,3) [OF b] i by (metis, metis atLeastLessThan_iff nth_mem)
  have "leafPath tr i \<noteq> []" using arg_cong [OF T(1), of length] n(1) two by (cases tr) auto
  with that [of "leafPath tr i"] getDirectPath_levels [OF tr] resolveDag_leafPath [OF read T(3)] T n i
  show thesis by simp
qed

lemma jsSplit_pathString: "path \<noteq> [] \<Longrightarrow> jsSplit CHR ''/'' (pathString path) = map directionString path"
  unfolding pathString_def by (rule jsSplit_jsJoin) (auto simp: directionString_def split: path_direction.splits)

lemma resolveDag_append:
  "resolveDag read c (p @ q) = (case resolveDag read c p of None \<Rightarrow> None | Some c' \<Rightarrow> resolveDag read c' q)"
  by (induction p arbitrary: c) (simp_all split: js.split option.split del: jsFields.simps)

text \<open>
  \<open>ipldPaths ld read proofLink rootCid\<close> states what the block store promises of path resolution: below a
  proof record whose rootCid is \<open>rootCid\<close>, the path of directions \<open>p\<close> resolves to the record of the node
  \<open>p\<close> leads to.
\<close>

definition ipldPaths :: "loader \<Rightarrow> (cid \<Rightarrow> js) \<Rightarrow> js \<Rightarrow> cid \<Rightarrow> bool" where
  "ipldPaths ld read proofLink rootCid \<longleftrightarrow> (\<forall>p c. resolveDag read rootCid p = Some c \<longrightarrow>
     ld_retrieveFromIPFS ld proofLink (Some (''/root/'' @ pathString p)) = Inr (read c))"

lemma map_of_find: "(case find (\<lambda>(k, _). k = x) xs of Some (_, v) \<Rightarrow> v | None \<Rightarrow> Undef) =
    (case map_of xs x of Some v \<Rightarrow> v | None \<Rightarrow> Undef)"
  by (induction xs) auto

lemma anchorPrev_resolves:
  assumes ipld: "ipldPaths ld read proofLink rootCid" and ne: "path \<noteq> []"
    and res: "resolveDag read rootCid path = Some c"
  shows "anchorPrev ld proof proofLink (Str (pathString path)) = Inr (CidV c)"
proof -
  from ne obtain p d where path: "path = p @ [d]" by (metis rev_exhaust)
  from res [unfolded path resolveDag_append] obtain c' where
    c': "resolveDag read rootCid p = Some c'" "resolveDag read c' [d] = Some c"
    by (auto split: option.splits)
  from c'(2) obtain xs where xs: "read c' = Arr xs" "map_of (jsFields (Arr xs)) (directionString d) = Some (CidV c)"
    by (auto split: js.splits option.splits)
  have split: "splitLast CHR ''/'' (pathString path) = (pathString p, directionString d)"
    using jsSplit_pathString [OF ne] by (simp add: path pathString_def)
  have "pathString path \<noteq> []"
    using jsSplit_pathString [OF ne] ne by (auto simp: path directionString_def split: path_direction.splits)
  moreover have "ld_retrieveFromIPFS ld proofLink (Some (''/root/'' @ pathString p)) = Inr (Arr xs)"
    using ipld c'(1) xs(1) by (simp add: ipldPaths_def)
  ultimately show ?thesis
    using split xs(2) by (simp add: anchorPrev_def map_of_find del: jsFields.simps)
qed

text \<open>
  C11: the two sides of an anchor agree. The anchor service builds a Merkle tree over the tips it
  anchors with \<open>MerkleTreeFactory\<close> and \<open>IpfsMerge\<close> and gives stream number \<open>i\<close> an anchor commit with
  the path of its leaf. If the block store gives back the records put into it and resolves IPLD paths,
  the node that validates this commit arrives at the very tip the tree was built from, so that the
  check of \<open>prev\<close> passes and the result is that of the look-up on the chain, for every number of
  streams, every order of the leaves and with or without metadata.
\<close>

theorem merkle_anchor_verifies:
  assumes "\<And>r c. storeRecord r = Inr c \<Longrightarrow> read c = r"
    and "buildTree (ipfsMerge storeRecord) cmp mf limit tips = Inr t" and "i < length tips"
    and "ipldPaths ld read proofLink (mn_data (mt_heap t ! mt_root t))"
    and "jsGet (cd_commit cd) ''proof'' = Inr proofLink"
    and "jsGet (cd_commit cd) ''prev'' = Inr (CidV (tips ! (mt_leaves t ! i)))"
    and "\<And>path. getDirectPathFromRoot t i = Some (Inr path) \<Longrightarrow>
      jsGet (cd_commit cd) ''path'' = Inr (Str (pathString path))"
  shows "verifyAnchorCommit ld cd = ld_validateChainInclusion ld (cd_proof cd)"
proof -
  obtain path where path: "getDirectPathFromRoot t i = Some (Inr path)" "path \<noteq> []"
    "resolveDag read (mn_data (mt_heap t ! mt_root t)) path = Some (tips ! (mt_leaves t ! i))"
    by (rule resolve_direct_path [OF assms(1-3)])
  from anchorPrev_resolves [OF assms(4) path(2,3)] assms(5,6) assms(7) [OF path(1)] show ?thesis
    by (simp add: verifyAnchorCommit_def)
qed

text \<open>Three tips, stored as two records.\<close>

definition sampleTips :: "cid list" where
  "sampleTips = [CID [1], CID [2], CID [3]]"

definition sampleRead :: "cid \<Rightarrow> js" where
  "sampleRead c = (if c = CID [200] then Arr [CidV (CID [1]), CidV (CID [201])]
     else if c = CID [201] then Arr [CidV (CID [2]), CidV (CID [3])] else Obj [])"

definition sampleStoreRecord :: "js \<Rightarrow> js_error + cid" where
  "sampleStoreRecord r = (if r = sampleRead (CID [200]) then Inr (CID [200])
     else if r = sampleRead (CID [201]) then Inr (CID [201]) else Inl TypeErr)"

definition sampleAnchorTree :: "(cid, js) merkle_tree" where
  "sampleAnchorTree = (case buildTree (ipfsMerge sampleStoreRecord) None None None sampleTips of Inr t \<Rightarrow> t
     | Inl _ \<Rightarrow> \<lparr>mt_heap = [], mt_root = 0, mt_leaves = [], mt_metadata = None\<rparr>)"

lemma sample_buildAnchorTree:
  "buildTree (ipfsMerge sampleStoreRecord) None None None sampleTips = Inr sampleAnchorTree"
  by code_simp

lemma sampleAnchorTree_simps:
  "mn_data (mt_heap sampleAnchorTree ! mt_root sampleAnchorTree) = CID [200]"
  "mt_leaves sampleAnchorTree = [0, 1, 2]"
  "getDirectPathFromRoot sampleAnchorTree 2 = Some (Inr [R, R])"
  by code_simp+

definition sampleDagLoader :: loader where
  "sampleDagLoader = sampleLoader\<lparr>ld_retrieveFromIPFS := \<lambda>link path.
     (case map_of [(''/root/'', CID [200]), (''/root/0'', CID [1]), (''/root/1'', CID [201]),
        (''/root/1/0'', CID [2]), (''/root/1/1'', CID [3])] (case path of Some p \<Rightarrow> p | None \<Rightarrow> []) of
        Some c \<Rightarrow> Inr (sampleRead c) | None \<Rightarrow> Inl TypeErr)\<rparr>"

lemma sample_resolve: "resolveDag sampleRead (CID [200]) p = Some c \<Longrightarrow>
    (p, c) \<in> {([], CID [200]), ([L], CID [1]), ([R], CID [201]), ([R, L], CID [2]), ([R, R], CID [3])}"
proof -
  have leaf: "resolveDag sampleRead (CID [n]) p = Some c \<Longrightarrow> n \<noteq> 200 \<Longrightarrow> n \<noteq> 201 \<Longrightarrow> p = [] \<and> c = CID [n]" for n p c
    by (cases p) (auto simp: sampleRead_def)
  have inner: "resolveDag sampleRead (CID [201]) p = Some c \<Longrightarrow>
      (p, c) \<in> {([], CID [201]), ([L], CID [2]), ([R], CID [3])}" for p c
  proof (cases p)
    case (Cons d ds)
    assume "resolveDag sampleRead (CID [201]) p = Some c"
    then show ?thesis
      using leaf [of 2 ds c] leaf [of 3 ds c] jsFields_pair [of "CidV (CID [2])" "CidV (CID [3])" "[]" d] Cons
      by (cases d) (auto simp: sampleRead_def simp del: jsFields.simps)
  qed simp
  show "resolveDag sampleRead (CID [200]) p = Some c \<Longrightarrow>
    (p, c) \<in> {([], CID [200]), ([L], CID [1]), ([R], CID [201]), ([R, L], CID [2]), ([R, R], CID [3])}"
  proof (cases p)
    case (Cons d ds)
    assume "resolveDag sampleRead (CID [200]) p = Some c"
    then show ?thesis
      using leaf [of 1 ds c] inner [of ds c] jsFields_pair [of "CidV (CID [1])" "CidV (CID [201])" "[]" d] Cons
      by (cases d) (auto simp: sampleRead_def simp del: jsFields.simps)
  qed simp
qed

lemma sample_ipldPaths: "ipldPaths sampleDagLoader sampleRead (CidV (CID [9])) (CID [200])"
  unfolding ipldPaths_def
proof (intro allI impI)
  fix p c assume "resolveDag sampleRead (CID [200]) p = Some c"
  from sample_resolve [OF this]
  show "ld_retrieveFromIPFS sampleDagLoader (CidV (CID [9])) (Some (''/root/'' @ pathString p)) = Inr (sampleRead c)"
    by (auto simp: sampleDagLoader_def pathString_def directionString_def)
qed

definition sampleAnchorCommit :: commit_data where
  "sampleAnchorCommit = sampleCommit2\<lparr>cd_commit := Obj [(''proof'', CidV (CID [9])), (''path'', Str ''1/1''),
     (''prev'', CidV (CID [3]))]\<rparr>"

theorem merkle_anchor_verifies_witness:
  "verifyAnchorCommit sampleDagLoader sampleAnchorCommit =
     ld_validateChainInclusion sampleDagLoader (cd_proof sampleAnchorCommit)"
proof (rule merkle_anchor_verifies [OF _ sample_buildAnchorTree])
  show "sampleStoreRecord r = Inr c \<Longrightarrow> sampleRead c = r" for r c
    by (auto simp: sampleStoreRecord_def split: if_splits)
  show "2 < length sampleTips" by (simp add: sampleTips_def)
  show "ipldPaths sampleDagLoader sampleRead (CidV (CID [9]))
      (mn_data (mt_heap sampleAnchorTree ! mt_root sampleAnchorTree))"
    by (simp only: sampleAnchorTree_simps sample_ipldPaths)
  show "jsGet (cd_commit sampleAnchorCommit) ''path'' = Inr (Str (pathString path))"
    if "getDirectPathFromRoot sampleAnchorTree 2 = Some (Inr path)" for path
    using that by (auto simp: sampleAnchorTree_simps sampleAnchorCommit_def pathString_def directionString_def)
qed (simp_all add: sampleAnchorCommit_def sampleAnchorTree_simps sampleTips_def)

end
