(* ===== verification/QueryFilters.thy ===== *)
theory QueryFilters
  imports JsValue
begin

text \<open>
  The filters of index queries (\<open>indexing/src/query-filter-parser.ts\<close>, \<open>query-filter-converter.ts\<close>):
  the JSON value a client sends is parsed into a tree of filters, which is converted into the WHERE
  clauses of an SQL query. The clauses are kept as the tree that the calls of the query builder make.
\<close>

section \<open>Parsing\<close>

datatype value_type = BooleanType | NumberType | StringType

datatype filter_op = OpNull | OpEq | OpNe | OpIn | OpNin | OpGt | OpGe | OpLt | OpLe

record value_filter =
  vf_type :: value_type
  vf_op :: filter_op
  vf_value :: js

text \<open>A missing filter is \<open>undefined\<close>: the parser yields it for empty objects.\<close>

datatype query_filters =
    Where "(string \<times> value_filter option) list"
  | AndQ "query_filters option list"
  | OrQ "query_filters option list"
  | NotQ "query_filters option"

definition getNonBooleanValueType :: "js \<Rightarrow> value_type" where
  "getNonBooleanValueType v = (case v of Num _ \<Rightarrow> NumberType | _ \<Rightarrow> StringType)"

definition getValueType :: "js \<Rightarrow> value_type" where
  "getValueType v = (case v of Bool _ \<Rightarrow> BooleanType | _ \<Rightarrow> getNonBooleanValueType v)"

text \<open>\<open>validateCombinedOps\<close>; it sorts its argument in place, so the sorted operators are the result.\<close>

definition validateCombinedOps :: "string list \<Rightarrow> js_error + string list" where
  "validateCombinedOps ops =
     (case ops of
        [a, b] \<Rightarrow>
          (let (x, y) = (if strLess b a then (b, a) else (a, b)) in
           if \<not> startsWith x ''greaterThan'' \<or> \<not> startsWith y ''lessThan''
           then Inl (Err ''Can only combine value filters representing valid range boundaries'')
           else Inr [x, y])
      | _ \<Rightarrow> if length ops \<le> 1 then Inr ops else Inl (Err ''Cannot combine more than 2 value filters''))"

text \<open>\<open>Object.keys(v)\<close>\<close>

definition objectKeys :: "js \<Rightarrow> js_error + string list" where
  "objectKeys v = (if jsNullish v then Inl TypeErr else Inr (jsKeys v))"

text \<open>\<open>v == 0\<close>\<close>

definition looseZero :: "js \<Rightarrow> bool" where
  "looseZero v \<longleftrightarrow> v \<noteq> Null \<and> jsToNum v = Some 0"

text \<open>The branches for \<open>in\<close> and \<open>notIn\<close>.\<close>

definition parseArrayOp :: "js \<Rightarrow> filter_op \<Rightarrow> string \<Rightarrow> js_error + value_filter" where
  "parseArrayOp value op message =
     bindR (jsGet value ''length'') (\<lambda>len.
     bindR (throwIf (looseZero len) (Err message)) (\<lambda>_.
     bindR (jsIndex value 0) (\<lambda>first.
     Inr \<lparr>vf_type = getNonBooleanValueType first, vf_op = op, vf_value = value\<rparr>)))"

definition parseChildOp :: "js \<Rightarrow> string \<Rightarrow> js_error + value_filter" where
  "parseChildOp childFilter childKey =
     (let value = lookupField (jsFields childFilter) childKey;
          any = (\<lambda>op. Inr \<lparr>vf_type = getValueType value, vf_op = op, vf_value = value\<rparr>);
          range = (\<lambda>op. Inr \<lparr>vf_type = getNonBooleanValueType value, vf_op = op, vf_value = value\<rparr>)
      in if childKey = ''isNull'' then any OpNull
         else if childKey = ''equalTo'' then any OpEq
         else if childKey = ''notEqualTo'' then any OpNe
         else if childKey = ''lessThan'' then range OpLt
         else if childKey = ''lessThanOrEqualTo'' then range OpLe
         else if childKey = ''greaterThan'' then range OpGt
         else if childKey = ''greaterThanOrEqualTo'' then range OpGe
         else if childKey = ''in'' then parseArrayOp value OpIn ''In query specified without array values''
         else if childKey = ''notIn'' then parseArrayOp value OpNin ''Not In query specified without array values''
         else Inl (Err ''Invalid op''))"

definition parseObjectFilter :: "js \<Rightarrow> js_error + (string \<times> value_filter list) list" where
  "parseObjectFilter flt =
     bindR (objectKeys flt) (\<lambda>keys.
     mapR (\<lambda>key.
       let childFilter = lookupField (jsFields flt) key in
       bindR (objectKeys childFilter) (\<lambda>childKeys.
       bindR (if 1 < length childKeys then validateCombinedOps childKeys else Inr childKeys) (\<lambda>ops.
       bindR (mapR (parseChildOp childFilter) ops) (\<lambda>entries. Inr (key, entries))))) keys)"

text \<open>The filter of one key, and of all keys of \<open>where\<close>: several are combined by \<open>and\<close>.\<close>

definition keyFilter :: "string \<times> value_filter list \<Rightarrow> query_filters" where
  "keyFilter entry = (case entry of (key, values) \<Rightarrow>
     if 1 < length values then AndQ (map (\<lambda>v. Some (Where [(key, Some v)])) values)
     else Where [(key, case values of [] \<Rightarrow> None | v # _ \<Rightarrow> Some v)])"

definition whereFilter :: "(string \<times> value_filter list) list \<Rightarrow> query_filters option" where
  "whereFilter entries =
     (let children = map keyFilter entries in
      if 1 < length children then Some (AndQ (map Some children))
      else case children of [] \<Rightarrow> None | c # _ \<Rightarrow> Some c)"

lemma size_lookup:
  assumes "map_of fs k = Some v"
  shows "size v < size (Obj fs)"
  using map_of_SomeD [OF assms] by (induction fs) auto

lemma size_element: "x \<in> set xs \<Longrightarrow> size x < size (Arr xs)"
  by (induction xs) auto

function parseQueryFilters :: "js \<Rightarrow> js_error + query_filters option" where
  "parseQueryFilters flt =
     bindR (objectKeys flt) (\<lambda>keys.
     bindR (throwIf (1 < length keys) (Err ''Only one of where, and, or, and not can be used per query filter level'')) (\<lambda>_.
     case flt of
       Obj fs \<Rightarrow>
         (case map_of fs ''where'' of
            Some w \<Rightarrow> bindR (parseObjectFilter w) (\<lambda>entries. Inr (whereFilter entries))
          | None \<Rightarrow>
         (case map_of fs ''and'' of
            Some v \<Rightarrow> bindR (jsArray v) (\<lambda>vs. bindR (mapR parseQueryFilters vs) (\<lambda>qs. Inr (Some (AndQ qs))))
          | None \<Rightarrow>
         (case map_of fs ''or'' of
            Some v \<Rightarrow> bindR (jsArray v) (\<lambda>vs. bindR (mapR parseQueryFilters vs) (\<lambda>qs. Inr (Some (OrQ qs))))
          | None \<Rightarrow>
         (case map_of fs ''not'' of
            Some v \<Rightarrow> bindR (parseQueryFilters v) (\<lambda>q. Inr (Some (NotQ q)))
          | None \<Rightarrow> Inl (Err ''Invalid query'')))))
     | Bool _ \<Rightarrow> Inl TypeErr | Num _ \<Rightarrow> Inl TypeErr | Str _ \<Rightarrow> Inl TypeErr
     | _ \<Rightarrow> Inl (Err ''Invalid query'')))"
  by pat_completeness auto

lemma jsArray_Inr [res_simps]: "jsArray v = Inr xs \<longleftrightarrow> v = Arr xs"
  by (cases v) auto

termination parseQueryFilters
  by (relation "measure size") (auto simp: res_simps dest!: size_lookup dest: size_element size_element [THEN less_trans])

section \<open>Clauses of a query\<close>

text \<open>
  What the calls of the query builder put together: a list of clauses, each joined to those before it
  by AND or OR, possibly negated, and either a group that a callback fills or a piece of SQL. The
  text of a piece is kept as the parts it is made of.
\<close>

datatype sql_cast = BooleanCast | NumericCast | VarcharCast

datatype raw =
    RawNull string bool
  | RawCompare string sql_cast filter_op string
  | RawIn string sql_cast bool "string list"
  | RawColumn string js
  | RawParam string bool js
  | RawParamEq string js
  | RawAfter string bool js

datatype clause = Clause (clauseOr: bool) (clauseNot: bool) (clauseCond: cond)
and cond = Group "clause list" | Raw raw

text \<open>\<open>where\<close>, \<open>orWhere\<close>, \<open>whereNot\<close> with a callback.\<close>

definition whereC :: "clause list \<Rightarrow> clause" where
  "whereC cs = Clause False False (Group cs)"

definition orWhereC :: "clause list \<Rightarrow> clause" where
  "orWhereC cs = Clause True False (Group cs)"

definition whereNotC :: "clause list \<Rightarrow> clause" where
  "whereNotC cs = Clause False True (Group cs)"

definition whereRaw :: "raw \<Rightarrow> clause" where
  "whereRaw r = Clause False False (Raw r)"

section \<open>Conversion\<close>

definition contentKey :: "string \<Rightarrow> string" where
  "contentKey field = ''stream_content->>'' @ [CHR 0x27] @ field @ [CHR 0x27]"

datatype combinator = And | Or

record 'f conversion_state =
  cs_filter :: 'f
  cs_combinator :: "combinator option"
  cs_negated :: bool

text \<open>Joining a condition to those before it; \<open>first\<close> is whether there is none.\<close>

definition joinC :: "bool \<Rightarrow> combinator option \<Rightarrow> clause list \<Rightarrow> clause" where
  "joinC first comb cs = (if \<not> first \<and> comb = Some Or then orWhereC cs else whereC cs)"

definition handleQuery :: "clause list \<Rightarrow> bool \<Rightarrow> bool \<Rightarrow> combinator option \<Rightarrow> clause" where
  "handleQuery cs first negated comb =
     (if negated then whereNotC [joinC first comb cs] else whereC [joinC first comb cs])"

definition nonBooleanTypeAsCast :: "value_type \<Rightarrow> sql_cast" where
  "nonBooleanTypeAsCast t = (if t = NumberType then NumericCast else VarcharCast)"

definition typeAsCast :: "value_type \<Rightarrow> sql_cast" where
  "typeAsCast t = (case t of BooleanType \<Rightarrow> BooleanCast | _ \<Rightarrow> nonBooleanTypeAsCast t)"

text \<open>A value as a piece of SQL: a string is put between quotes, and what is in it is not escaped.\<close>

definition quoted :: "sql_cast \<Rightarrow> string \<Rightarrow> string" where
  "quoted cast s = (if cast = VarcharCast then [CHR 0x27] @ s @ [CHR 0x27] else s)"

definition handleIn :: "(js \<Rightarrow> string) \<Rightarrow> string \<Rightarrow> value_type \<Rightarrow> js \<Rightarrow> bool \<Rightarrow> bool \<Rightarrow> combinator option \<Rightarrow>
    js_error + clause" where
  "handleIn fmt key tpe value first negated comb =
     (let cast = nonBooleanTypeAsCast tpe in
      bindR (jsArray value) (\<lambda>vs.
      Inr (joinC first comb [whereRaw (RawIn key cast negated (map (\<lambda>v. quoted cast (jsString fmt v)) vs))])))"

text \<open>The clause of one key. The operators \<open>in\<close> and \<open>nin\<close> have one branch.\<close>

definition whereKey :: "(js \<Rightarrow> string) \<Rightarrow> bool \<Rightarrow> combinator option \<Rightarrow> bool \<Rightarrow> string \<times> value_filter option \<Rightarrow>
    js_error + clause" where
  "whereKey fmt negated comb first entry = (case entry of
     (field, None) \<Rightarrow> Inl TypeErr
   | (field, Some vf) \<Rightarrow>
       (let key = contentKey field; value = vf_value vf in
        if vf_op vf = OpNull then
          Inr (handleQuery [whereRaw (RawNull key (jsTruthy value))] first negated comb)
        else if vf_op vf = OpIn \<or> vf_op vf = OpNin then
          bindR (jsGet value ''length'') (\<lambda>len.
          bindR (throwIf (looseZero len) (Err ''Expected an array with at least one item'')) (\<lambda>_.
          handleIn fmt key (vf_type vf) value first negated comb))
        else
          (let cast = typeAsCast (getValueType value) in
           Inr (handleQuery [whereRaw (RawCompare key cast (vf_op vf) (quoted cast (jsString fmt value)))] first negated comb))))"

fun whereKeys :: "(js \<Rightarrow> string) \<Rightarrow> bool \<Rightarrow> combinator option \<Rightarrow> bool \<Rightarrow> (string \<times> value_filter option) list \<Rightarrow>
    js_error + clause list" where
  "whereKeys fmt negated comb first [] = Inr []"
| "whereKeys fmt negated comb first (e # es) =
     bindR (whereKey fmt negated comb first e) (\<lambda>c. bindR (whereKeys fmt negated comb False es) (\<lambda>cs. Inr (c # cs)))"

definition handleWhereQuery :: "(js \<Rightarrow> string) \<Rightarrow> (string \<times> value_filter option) list conversion_state \<Rightarrow>
    js_error + string list \<times> clause list" where
  "handleWhereQuery fmt state =
     (let many = 1 < length (cs_filter state);
          comb = (if many then Some And else cs_combinator state);
          negated = (if many then False else cs_negated state)
      in bindR (whereKeys fmt negated comb True (cs_filter state)) (\<lambda>cs.
         Inr (map fst (cs_filter state), if many \<and> cs_negated state then [whereNotC cs] else cs)))"

text \<open>
  The callbacks of a combinator run when the query is built. By then the variable \<open>first\<close> they share
  is false, so that the first clause is joined like the others.
\<close>

definition handleCombinator :: "combinator option \<Rightarrow> bool \<Rightarrow> (string list \<times> clause list) list \<Rightarrow> string list \<times> clause list" where
  "handleCombinator comb negated converted =
     (let cs = map (\<lambda>c. joinC False comb (snd c)) converted
      in (concat (map fst converted), if negated then [whereNotC cs] else cs))"

text \<open>A filter that is \<open>undefined\<close> has no type: a TypeError.\<close>

function convert :: "(js \<Rightarrow> string) \<Rightarrow> combinator option \<Rightarrow> bool \<Rightarrow> query_filters option \<Rightarrow>
    js_error + string list \<times> clause list" where
  "convert fmt comb negated None = Inl TypeErr"
| "convert fmt comb negated (Some (Where kvs)) =
     handleWhereQuery fmt \<lparr>cs_filter = kvs, cs_combinator = comb, cs_negated = negated\<rparr>"
| "convert fmt comb negated (Some (AndQ fs)) =
     bindR (mapR (convert fmt (Some And) False) fs) (\<lambda>rs. Inr (handleCombinator (Some And) negated rs))"
| "convert fmt comb negated (Some (OrQ fs)) =
     bindR (mapR (convert fmt (Some Or) False) fs) (\<lambda>rs. Inr (handleCombinator (Some Or) negated rs))"
| "convert fmt comb negated (Some (NotQ f)) = convert fmt comb (\<not> negated) f"
  by pat_completeness auto

lemma size_child: "f \<in> set fs \<Longrightarrow> size_option size f < Suc (size_list (size_option size) fs)"
  by (induction fs) auto

termination convert
  by (relation "measure (\<lambda>(_, _, _, f). size_option size f)") (auto intro: size_child less_SucI)

definition convertQueryFilter :: "(js \<Rightarrow> string) \<Rightarrow> query_filters option \<Rightarrow> js_error + string list \<times> clause list" where
  "convertQueryFilter fmt flt = (case flt of None \<Rightarrow> Inr ([], []) | Some f \<Rightarrow> convert fmt None False (Some f))"

section \<open>The meaning of clauses\<close>

text \<open>
  SQL conditions are true, false or unknown (\<open>None\<close>). A group without clauses leaves no trace in the
  query, the connective of the first clause is dropped, and AND binds stronger than OR.
\<close>

definition and3 :: "bool option \<Rightarrow> bool option \<Rightarrow> bool option" where
  "and3 a b = (if a = Some False \<or> b = Some False then Some False
     else if a = None \<or> b = None then None else Some True)"

definition or3 :: "bool option \<Rightarrow> bool option \<Rightarrow> bool option" where
  "or3 a b = (if a = Some True \<or> b = Some True then Some True
     else if a = None \<or> b = None then None else Some False)"

definition not3 :: "bool option \<Rightarrow> bool option" where
  "not3 a = map_option Not a"

fun andOr :: "bool option \<Rightarrow> (bool \<times> bool option) list \<Rightarrow> bool option" where
  "andOr c [] = c"
| "andOr c ((True, t) # ts) = or3 c (andOr t ts)"
| "andOr c ((False, t) # ts) = andOr (and3 c t) ts"

fun joined :: "(bool \<times> bool option) list \<Rightarrow> bool option option" where
  "joined [] = None"
| "joined ((_, t) # ts) = Some (andOr t ts)"

fun somes :: "'a option list \<Rightarrow> 'a list" where
  "somes [] = []"
| "somes (None # xs) = somes xs"
| "somes (Some x # xs) = x # somes xs"

text \<open>\<open>test\<close> gives the value of a piece of SQL for a row; \<open>None\<close> is a condition that is not there.\<close>

fun condValue :: "(raw \<Rightarrow> bool option) \<Rightarrow> cond \<Rightarrow> bool option option"
and clauseValue :: "(raw \<Rightarrow> bool option) \<Rightarrow> clause \<Rightarrow> (bool \<times> bool option) option" where
  "condValue test (Raw r) = Some (test r)"
| "condValue test (Group cs) = joined (somes (map (clauseValue test) cs))"
| "clauseValue test (Clause alt neg c) =
     map_option (\<lambda>t. (alt, if neg then not3 t else t)) (condValue test c)"

definition clausesValue :: "(raw \<Rightarrow> bool option) \<Rightarrow> clause list \<Rightarrow> bool option option" where
  "clausesValue test cs = condValue test (Group cs)"

text \<open>What a filter says: the reference that the clauses are compared with.\<close>

definition filterAtom :: "(js \<Rightarrow> string) \<Rightarrow> (raw \<Rightarrow> bool option) \<Rightarrow> string \<Rightarrow> value_filter \<Rightarrow> bool option" where
  "filterAtom fmt test field vf =
     (let key = contentKey field; value = vf_value vf; cast = nonBooleanTypeAsCast (vf_type vf);
          elements = map (\<lambda>v. quoted cast (jsString fmt v)) (case value of Arr vs \<Rightarrow> vs | _ \<Rightarrow> [])
      in case vf_op vf of
           OpNull \<Rightarrow> test (RawNull key (jsTruthy value))
         | OpIn \<Rightarrow> test (RawIn key cast False elements)
         | OpNin \<Rightarrow> not3 (test (RawIn key cast False elements))
         | compare \<Rightarrow> (let cast = typeAsCast (getValueType value)
             in test (RawCompare key cast compare (quoted cast (jsString fmt value)))))"

definition all3 :: "bool option list \<Rightarrow> bool option" where
  "all3 ts = foldr and3 ts (Some True)"

definition any3 :: "bool option list \<Rightarrow> bool option" where
  "any3 ts = foldr or3 ts (Some False)"

fun filterMeaning :: "(js \<Rightarrow> string) \<Rightarrow> (raw \<Rightarrow> bool option) \<Rightarrow> query_filters \<Rightarrow> bool option" where
  "filterMeaning fmt test (Where kvs) =
     all3 (map (\<lambda>(field, vf). case vf of None \<Rightarrow> Some True | Some v \<Rightarrow> filterAtom fmt test field v) kvs)"
| "filterMeaning fmt test (AndQ fs) =
     all3 (map (\<lambda>f. case f of None \<Rightarrow> Some True | Some g \<Rightarrow> filterMeaning fmt test g) fs)"
| "filterMeaning fmt test (OrQ fs) =
     any3 (map (\<lambda>f. case f of None \<Rightarrow> Some False | Some g \<Rightarrow> filterMeaning fmt test g) fs)"
| "filterMeaning fmt test (NotQ f) = not3 (case f of None \<Rightarrow> Some True | Some g \<Rightarrow> filterMeaning fmt test g)"

text \<open>Filters without \<open>notIn\<close> and without an empty list of alternatives.\<close>

fun plainFilter :: "query_filters \<Rightarrow> bool" where
  "plainFilter (Where kvs) \<longleftrightarrow> kvs \<noteq> [] \<and> (\<forall>(field, vf) \<in> set kvs. case vf of None \<Rightarrow> True | Some v \<Rightarrow> vf_op v \<noteq> OpNin)"
| "plainFilter (AndQ fs) \<longleftrightarrow> fs \<noteq> [] \<and> (\<forall>f \<in> set fs. case f of None \<Rightarrow> True | Some g \<Rightarrow> plainFilter g)"
| "plainFilter (OrQ fs) \<longleftrightarrow> fs \<noteq> [] \<and> (\<forall>f \<in> set fs. case f of None \<Rightarrow> True | Some g \<Rightarrow> plainFilter g)"
| "plainFilter (NotQ f) \<longleftrightarrow> (case f of None \<Rightarrow> True | Some g \<Rightarrow> plainFilter g)"

lemma kleene_simps [simp]:
  "and3 (Some True) a = a" "and3 a (Some True) = a" "or3 (Some False) a = a" "or3 a (Some False) = a"
  "not3 (not3 a) = a" "not3 (Some b) = Some (\<not> b)"
  by (auto simp: and3_def or3_def not3_def option.map_comp o_def option.map_ident)

lemma and3_assoc: "and3 (and3 a b) c = and3 a (and3 b c)"
  and or3_assoc: "or3 (or3 a b) c = or3 a (or3 b c)"
  by (auto simp: and3_def or3_def)

lemma andOr_ands: "\<forall>(d, t) \<in> set ts. \<not> d \<Longrightarrow> andOr c ts = and3 c (all3 (map snd ts))"
  by (induction c ts rule: andOr.induct) (auto simp: all3_def and3_assoc)

lemma andOr_ors: "\<forall>(d, t) \<in> set ts. d \<Longrightarrow> andOr c ts = or3 c (any3 (map snd ts))"
  by (induction c ts rule: andOr.induct) (auto simp: any3_def or3_assoc)

lemma joinC_value: "clauseValue test (joinC first comb cs) =
    map_option (\<lambda>t. (\<not> first \<and> comb = Some Or, t)) (clausesValue test cs)"
  by (simp add: joinC_def orWhereC_def whereC_def clausesValue_def)

lemma clausesValue_single: "clausesValue test [c] = map_option snd (clauseValue test c)"
  by (cases "clauseValue test c") (auto simp: clausesValue_def split: prod.split)

lemma whereNotC_value: "clausesValue test [whereNotC cs] = map_option not3 (clausesValue test cs)"
  by (simp add: clausesValue_single whereNotC_def option.map_comp o_def) (simp add: clausesValue_def)

lemma whereRaw_value: "clausesValue test [whereRaw r] = Some (test r)"
  by (simp add: clausesValue_def whereRaw_def)

lemma handleQuery_value:
  "clauseValue test (handleQuery [whereRaw r] first negated comb) = Some (False, if negated then not3 (test r) else test r)"
proof -
  have "clausesValue test [joinC first comb [whereRaw r]] = Some (test r)"
    unfolding clausesValue_single [of _ "joinC first comb [whereRaw r]"] joinC_value whereRaw_value by simp
  then show ?thesis by (simp add: handleQuery_def whereC_def whereNotC_def clausesValue_def)
qed

lemma whereKey_value:
  assumes law: "\<forall>k c vs. test (RawIn k c True vs) = not3 (test (RawIn k c False vs))"
    and conv: "whereKey fmt negated comb first (field, vf) = Inr c"
    and plain: "case vf of None \<Rightarrow> True | Some v \<Rightarrow> vf_op v \<noteq> OpNin"
  shows "\<exists>v d. vf = Some v \<and> (comb = Some And \<longrightarrow> \<not> d) \<and> clauseValue test c =
    Some (d, if negated then not3 (filterAtom fmt test field v) else filterAtom fmt test field v)"
proof (cases vf)
  case (Some v)
  show ?thesis
  proof (cases "vf_op v = OpIn")
    case True
    with conv Some obtain vs where vs: "vf_value v = Arr vs"
      and c: "c = joinC first comb [whereRaw (RawIn (contentKey field) (nonBooleanTypeAsCast (vf_type v)) negated
        (map (\<lambda>x. quoted (nonBooleanTypeAsCast (vf_type v)) (jsString fmt x)) vs))]"
      by (auto simp: whereKey_def Let_def handleIn_def res_simps)
    show ?thesis using Some True law
      by (auto simp: c joinC_value whereRaw_value filterAtom_def Let_def vs)
  next
    case False
    with plain Some have op: "vf_op v \<noteq> OpIn" "vf_op v \<noteq> OpNin" by simp_all
    let ?r = "if vf_op v = OpNull then RawNull (contentKey field) (jsTruthy (vf_value v))
      else RawCompare (contentKey field) (typeAsCast (getValueType (vf_value v))) (vf_op v)
        (quoted (typeAsCast (getValueType (vf_value v))) (jsString fmt (vf_value v)))"
    have c: "c = handleQuery [whereRaw ?r] first negated comb"
      using conv op by (simp add: whereKey_def Let_def Some split: if_splits)
    have "filterAtom fmt test field v = test ?r"
      using op by (cases "vf_op v") (simp_all add: filterAtom_def Let_def)
    then show ?thesis by (simp only: c handleQuery_value) (auto simp: Some)
  qed
qed (use conv in \<open>simp add: whereKey_def\<close>)

lemma whereKeys_value:
  assumes law: "\<forall>k c vs. test (RawIn k c True vs) = not3 (test (RawIn k c False vs))"
    and conv: "whereKeys fmt False (Some And) first kvs = Inr cs"
    and plain: "\<forall>(field, vf) \<in> set kvs. case vf of None \<Rightarrow> True | Some v \<Rightarrow> vf_op v \<noteq> OpNin"
  shows "somes (map (clauseValue test) cs) =
    map (\<lambda>(field, vf). (False, case vf of None \<Rightarrow> Some True | Some v \<Rightarrow> filterAtom fmt test field v)) kvs"
  using conv plain
proof (induction kvs arbitrary: first cs)
  case (Cons e kvs)
  from Cons.prems(1) obtain c cs' where c: "whereKey fmt False (Some And) first e = Inr c"
    and cs: "whereKeys fmt False (Some And) False kvs = Inr cs'" "cs = c # cs'"
    by (auto simp: res_simps)
  obtain field vf where e: "e = (field, vf)" by (cases e)
  from Cons.prems(2) e have "case vf of None \<Rightarrow> True | Some v \<Rightarrow> vf_op v \<noteq> OpNin" by auto
  from whereKey_value [OF law c [unfolded e] this] obtain v where "vf = Some v"
    "clauseValue test c = Some (False, filterAtom fmt test field v)" by auto
  with Cons.IH [OF cs(1)] Cons.prems(2) cs(2) e show ?case by auto
qed simp

lemma joined_ands: "kvs \<noteq> [] \<Longrightarrow> joined (map (\<lambda>e. (False, g e)) kvs) = Some (all3 (map g kvs))"
  by (cases kvs) (simp_all add: andOr_ands all3_def o_def)

lemma joined_ors: "kvs \<noteq> [] \<Longrightarrow> joined (map (\<lambda>e. (True, g e)) kvs) = Some (any3 (map g kvs))"
  by (cases kvs) (simp_all add: andOr_ors any3_def o_def)

lemma handleWhere_value:
  assumes law: "\<forall>k c vs. test (RawIn k c True vs) = not3 (test (RawIn k c False vs))"
    and conv: "handleWhereQuery fmt \<lparr>cs_filter = kvs, cs_combinator = comb, cs_negated = negated\<rparr> = Inr (sel, cs)"
    and plain: "plainFilter (Where kvs)"
  shows "clausesValue test cs = Some (if negated then not3 (filterMeaning fmt test (Where kvs)) else filterMeaning fmt test (Where kvs))"
proof (cases "1 < length kvs")
  case True
  with conv obtain bs where bs: "whereKeys fmt False (Some And) True kvs = Inr bs"
    and cs: "cs = (if negated then [whereNotC bs] else bs)"
    by (auto simp: handleWhereQuery_def res_simps)
  have "clausesValue test bs = Some (filterMeaning fmt test (Where kvs))"
    using whereKeys_value [OF law bs] plain joined_ands [of kvs "\<lambda>(f, vf). case vf of None \<Rightarrow> Some True | Some v \<Rightarrow> filterAtom fmt test f v"]
    by (simp add: clausesValue_def case_prod_unfold)
  with cs show ?thesis by (simp add: whereNotC_value)
next
  case False
  with plain obtain field vf where kvs: "kvs = [(field, vf)]" by (cases kvs) auto
  with conv obtain c where c: "whereKey fmt negated comb True (field, vf) = Inr c" and cs: "cs = [c]"
    by (auto simp: handleWhereQuery_def res_simps)
  from plain kvs have "case vf of None \<Rightarrow> True | Some v \<Rightarrow> vf_op v \<noteq> OpNin" by auto
  from whereKey_value [OF law c this] show ?thesis
    by (auto simp: cs kvs clausesValue_single all3_def)
qed

lemma handleCombinator_value:
  assumes "list_all2 (\<lambda>f r. clausesValue test (snd r) = Some (g f)) fs rs" and "fs \<noteq> []"
  shows "clausesValue test (snd (handleCombinator (Some comb) negated rs)) =
    Some (let m = (if comb = And then all3 else any3) (map g fs) in if negated then not3 m else m)"
proof -
  let ?cs = "map (\<lambda>c. joinC False (Some comb) (snd c)) rs"
  have "somes (map (clauseValue test) ?cs) = map (\<lambda>f. (comb = Or, g f)) fs"
    using assms(1) by (induction rule: list_all2_induct) (simp_all add: joinC_value)
  with joined_ands [OF assms(2), of g] joined_ors [OF assms(2), of g]
  have "clausesValue test ?cs = Some ((if comb = And then all3 else any3) (map g fs))"
    by (cases comb) (simp_all add: clausesValue_def)
  then show ?thesis by (simp add: handleCombinator_def Let_def whereNotC_value)
qed

lemma mapR_all2: "mapR f xs = Inr ys \<Longrightarrow> (\<And>x y. x \<in> set xs \<Longrightarrow> f x = Inr y \<Longrightarrow> P x y) \<Longrightarrow> list_all2 P xs ys"
  by (induction xs arbitrary: ys) (auto simp: res_simps)

definition optionMeaning :: "(js \<Rightarrow> string) \<Rightarrow> (raw \<Rightarrow> bool option) \<Rightarrow> bool \<Rightarrow> query_filters option \<Rightarrow> bool option" where
  "optionMeaning fmt test d f = (case f of None \<Rightarrow> Some d | Some g \<Rightarrow> filterMeaning fmt test g)"

lemma convert_value:
  assumes law: "\<forall>k c vs. test (RawIn k c True vs) = not3 (test (RawIn k c False vs))"
  shows "convert fmt comb negated f = Inr (sel, cs) \<Longrightarrow> (case f of None \<Rightarrow> True | Some g \<Rightarrow> plainFilter g) \<Longrightarrow>
    clausesValue test cs = Some (let m = optionMeaning fmt test d f in if negated then not3 m else m)"
proof (induction fmt comb negated f arbitrary: sel cs d rule: convert.induct)
  case (2 fmt comb negated kvs)
  from handleWhere_value [OF law 2(1)[simplified]] 2(2) show ?case by (simp add: optionMeaning_def)
next
  case (3 fmt comb negated fs)
  then obtain rs where rs: "mapR (convert fmt (Some And) False) fs = Inr rs"
    and cs: "(sel, cs) = handleCombinator (Some And) negated rs" and plain: "plainFilter (AndQ fs)"
    by (auto simp: res_simps)
  have "list_all2 (\<lambda>f r. clausesValue test (snd r) = Some (optionMeaning fmt test True f)) fs rs"
    by (rule mapR_all2 [OF rs]) (use 3(1) plain in \<open>fastforce\<close>)
  from handleCombinator_value [OF this, of And negated] plain cs [symmetric] show ?case
    by (simp add: optionMeaning_def [abs_def] Let_def)
next
  case (4 fmt comb negated fs)
  then obtain rs where rs: "mapR (convert fmt (Some Or) False) fs = Inr rs"
    and cs: "(sel, cs) = handleCombinator (Some Or) negated rs" and plain: "plainFilter (OrQ fs)"
    by (auto simp: res_simps)
  have "list_all2 (\<lambda>f r. clausesValue test (snd r) = Some (optionMeaning fmt test False f)) fs rs"
    by (rule mapR_all2 [OF rs]) (use 4(1) plain in \<open>fastforce\<close>)
  from handleCombinator_value [OF this, of Or negated] plain cs [symmetric] show ?case
    by (simp add: optionMeaning_def [abs_def] Let_def)
next
  case (5 fmt comb negated f)
  from 5(1)[of sel cs True] 5(2,3) show ?case
    by (auto simp: optionMeaning_def Let_def split: if_splits)
qed simp

lemma all3_append: "all3 (xs @ ys) = and3 (all3 xs) (all3 ys)"
  by (induction xs) (simp_all add: all3_def and3_assoc)

lemma keyFilter_meaning: "filterMeaning fmt test (keyFilter (key, values)) = all3 (map (filterAtom fmt test key) values)"
  by (cases "values") (auto simp: keyFilter_def all3_def foldr_map o_def)

lemma whereFilter_meaning: "optionMeaning fmt test True (whereFilter entries) =
    all3 (concat (map (\<lambda>(key, values). map (filterAtom fmt test key) values) entries))"
proof -
  have "all3 (map (\<lambda>e. filterMeaning fmt test (keyFilter e)) entries) =
      all3 (concat (map (\<lambda>(key, values). map (filterAtom fmt test key) values) entries))"
    by (induction entries) (auto simp: all3_def [of "[]"] keyFilter_meaning all3_append, simp add: all3_def and3_def)
  then show ?thesis
    by (cases entries rule: remdups_adj.cases) (simp_all add: whereFilter_def optionMeaning_def all3_def o_def)
qed

text \<open>A row that satisfies every comparison and no list of alternatives.\<close>

definition sampleTest :: "raw \<Rightarrow> bool option" where
  "sampleTest r = (case r of RawIn k c negated vs \<Rightarrow> Some negated | RawNull k null \<Rightarrow> None | _ \<Rightarrow> Some True)"

definition sampleFilter :: js where
  "sampleFilter = Obj [(''and'', Arr [
     Obj [(''where'', Obj [(''age'', Obj [(''lessThan'', Num 65), (''greaterThanOrEqualTo'', Num 18)])])],
     Obj [(''not'', Obj [(''where'', Obj [(''name'', Obj [(''in'', Arr [Str ''a'', Str ''b''])])])])]])]"

definition sampleParsed :: query_filters where
  "sampleParsed = AndQ [
     Some (AndQ [Some (Where [(''age'', Some \<lparr>vf_type = NumberType, vf_op = OpGe, vf_value = Num 18\<rparr>)]),
       Some (Where [(''age'', Some \<lparr>vf_type = NumberType, vf_op = OpLt, vf_value = Num 65\<rparr>)])]),
     Some (NotQ (Some (Where [(''name'', Some \<lparr>vf_type = StringType, vf_op = OpIn, vf_value = Arr [Str ''a'', Str ''b'']\<rparr>)])))]"

lemma sampleFilter_parsed: "parseQueryFilters sampleFilter = Inr (Some sampleParsed)"
  by code_simp

section \<open>Properties\<close>

text \<open>
  C24: The WHERE clauses mean what the filter says. For every filter tree that has no \<open>notIn\<close> and no
  empty \<open>and\<close> or \<open>or\<close>, if the conversion succeeds, the clauses it makes have, in the three-valued logic
  of SQL and for every row, the value of the filter: \<open>and\<close>, \<open>or\<close> and \<open>not\<close> at any depth, however they are
  nested and negated, and the keys of one \<open>where\<close> are combined by AND.
\<close>

theorem query_filter_sql:
  assumes "\<forall>k c vs. test (RawIn k c True vs) = not3 (test (RawIn k c False vs))"
    and "convertQueryFilter fmt (Some f) = Inr (sel, clauses)" and "plainFilter f"
  shows "clausesValue test clauses = Some (filterMeaning fmt test f)"
  using convert_value [OF assms(1), of fmt None False "Some f" sel clauses True] assms(2,3)
  by (simp add: convertQueryFilter_def optionMeaning_def)

theorem query_filter_sql_witness:
  "\<exists>sel clauses. convertQueryFilter (\<lambda>_. []) (Some sampleParsed) = Inr (sel, clauses) \<and>
     sel = [''age'', ''age'', ''name''] \<and> clausesValue sampleTest clauses = Some (filterMeaning (\<lambda>_. []) sampleTest sampleParsed)"
proof -
  have law: "\<forall>k c vs. sampleTest (RawIn k c True vs) = not3 (sampleTest (RawIn k c False vs))"
    by (simp add: sampleTest_def)
  have "plainFilter sampleParsed" by (simp add: sampleParsed_def)
  moreover have "case convertQueryFilter (\<lambda>_. []) (Some sampleParsed) of Inl e \<Rightarrow> False | Inr (sel, cs) \<Rightarrow> sel = [''age'', ''age'', ''name'']"
    by code_simp
  then obtain sel cs where "convertQueryFilter (\<lambda>_. []) (Some sampleParsed) = Inr (sel, cs)" "sel = [''age'', ''age'', ''name'']"
    by (auto split: sum.splits)
  ultimately show ?thesis using query_filter_sql [OF law] by blast
qed

text \<open>
  The operator \<open>notIn\<close> is lost. A condition that a field is none of some values is converted, in
  every context, into the same clause as the condition that it is one of them: the query gives exactly
  the rows that were to be left out.
\<close>

theorem not_in_is_in:
  "whereKey fmt negated comb first (field, Some \<lparr>vf_type = t, vf_op = OpNin, vf_value = v\<rparr>) =
   whereKey fmt negated comb first (field, Some \<lparr>vf_type = t, vf_op = OpIn, vf_value = v\<rparr>)"
  by (simp add: whereKey_def)

text \<open>
  A \<open>where\<close> object of a client is the conjunction of all conditions on all its fields: the tree the
  parser makes of it has, for every row, the value of the conjunction of the operators it lists, in
  whatever number of fields and with one or two operators for each.
\<close>

theorem where_is_conjunction:
  assumes "parseQueryFilters (Obj [(''where'', w)]) = Inr p"
  shows "\<exists>entries. parseObjectFilter w = Inr entries \<and> map fst entries = jsKeys w \<and>
    optionMeaning fmt test True p = all3 (concat (map (\<lambda>(key, values). map (filterAtom fmt test key) values) entries))"
proof -
  obtain entries where entries: "parseObjectFilter w = Inr entries" and p: "p = whereFilter entries"
    using assms by (auto simp: res_simps objectKeys_def jsKeys_def)
  have "map fst ys = xs" if "mapR (\<lambda>key. let c = h key in bindR (f c) (\<lambda>a. bindR (g a) (\<lambda>b. bindR (k c b) (\<lambda>es. Inr (key, es))))) xs = Inr ys"
    for f g h k and xs :: "string list" and ys :: "(string \<times> value_filter list) list"
    using that by (induction xs arbitrary: ys) (auto simp: res_simps Let_def)
  with entries have "map fst entries = jsKeys w"
    by (auto simp: parseObjectFilter_def objectKeys_def res_simps split: if_splits)
  with entries whereFilter_meaning p show ?thesis by blast
qed

theorem where_is_conjunction_witness:
  "optionMeaning fmt sampleTest True (Some (AndQ [
     Some (Where [(''age'', Some \<lparr>vf_type = NumberType, vf_op = OpGe, vf_value = Num 18\<rparr>)]),
     Some (Where [(''age'', Some \<lparr>vf_type = NumberType, vf_op = OpLt, vf_value = Num 65\<rparr>)])])) = Some True"
proof -
  let ?w = "Obj [(''age'', Obj [(''lessThan'', Num 65), (''greaterThanOrEqualTo'', Num 18)])]"
  let ?es = "[(''age'', [\<lparr>vf_type = NumberType, vf_op = OpGe, vf_value = Num 18\<rparr>, \<lparr>vf_type = NumberType, vf_op = OpLt, vf_value = Num 65\<rparr>])]"
  let ?p = "Some (AndQ [
     Some (Where [(''age'', Some \<lparr>vf_type = NumberType, vf_op = OpGe, vf_value = Num 18\<rparr>)]),
     Some (Where [(''age'', Some \<lparr>vf_type = NumberType, vf_op = OpLt, vf_value = Num 65\<rparr>)])])"
  have "parseQueryFilters (Obj [(''where'', ?w)]) = Inr ?p" and entries: "parseObjectFilter ?w = Inr ?es" by code_simp+
  from where_is_conjunction [OF this(1), of fmt sampleTest] entries show ?thesis
    by (simp add: all3_def filterAtom_def sampleTest_def Let_def)
qed

end
