(* ===== verification/IndexQueries.thy ===== *)
theory IndexQueries
  imports "HOL-Library.Multiset" QueryFilters StreamIds
begin

text \<open>
  Queries of the index (\<open>indexing/src/insertion-order.ts\<close>, \<open>parse-pagination.ts\<close>): a page of the streams
  of some models, in insertion order or by fields of their content, forward or backward from a
  cursor. The query that the code builds is a record; the database that answers it is a parameter with
  the laws of SQL, as is the codec of cursors.
\<close>

section \<open>Rows and queries\<close>

record index_row =
  ir_stream_id :: string
  ir_controller_did :: string
  ir_created_at :: int
  ir_last_anchored_at :: "int option"
  ir_stream_content :: js
  ir_relations :: "(string \<times> js) list"

datatype sort_order = ASC | DESC

record base_query =
  bq_account :: "string option"
  bq_queryFilters :: js
  bq_filter :: "(string \<times> string) list"
  bq_sorting :: "(string \<times> sort_order) list"

record pagination =
  pg_first :: "nat option"
  pg_after :: "string option"
  pg_last :: "nat option"
  pg_before :: "string option"

datatype pagination_query = Forward nat "string option" | Backward nat "string option"

definition parsePagination :: "pagination \<Rightarrow> js_error + pagination_query" where
  "parsePagination query = (case pg_first query of
     Some n \<Rightarrow> Inr (Forward n (pg_after query))
   | None \<Rightarrow> (case pg_last query of
       Some n \<Rightarrow> Inr (Backward n (pg_before query))
     | None \<Rightarrow> Inl (Err ''Invalid pagination query'')))"

datatype order_by = OrderColumn string sort_order | OrderRaw string sort_order

record sql_query =
  sq_tables :: "string list"
  sq_filters :: "clause list"
  sq_where :: "clause list"
  sq_order :: "order_by list"
  sq_limit :: "nat option"

section \<open>Cursors\<close>

text \<open>The codec of cursors: JSON as base64url.\<close>

record cursor_codec =
  cc_encode :: "js \<Rightarrow> string"
  cc_decode :: "string \<Rightarrow> js_error + js"

definition cursorParse :: "cursor_codec \<Rightarrow> string option \<Rightarrow> js_error + js" where
  "cursorParse codec cursor = (case cursor of
     None \<Rightarrow> Inr Undef
   | Some c \<Rightarrow> if c = [] then Inr Undef else cc_decode codec c)"

fun cursorContent :: "(string \<times> js) list \<Rightarrow> js \<Rightarrow> string list \<Rightarrow> js_error + (string \<times> js) list" where
  "cursorContent acc content [] = Inr acc"
| "cursorContent acc content (key # keys) =
     bindR (jsGet content key) (\<lambda>v.
     cursorContent (if jsNullish v then acc else setField acc key v) content keys)"

definition cursorData :: "index_row \<Rightarrow> string list \<Rightarrow> js_error + js" where
  "cursorData input orderByKeys =
     (if orderByKeys = [] then
        Inr (Obj [(''type'', Str ''timestamp''), (''id'', Str (ir_stream_id input)), (''value'', Num (of_int (ir_created_at input)))])
      else
        bindR (cursorContent [] (ir_stream_content input) orderByKeys) (\<lambda>value.
        Inr (Obj [(''type'', Str ''content''), (''id'', Str (ir_stream_id input)), (''value'', Obj value)])))"

definition cursorStringify :: "cursor_codec \<Rightarrow> index_row option \<Rightarrow> string list \<Rightarrow> js_error + string option" where
  "cursorStringify codec input orderByKeys = (case input of
     None \<Rightarrow> Inr None
   | Some row \<Rightarrow> bindR (cursorData row orderByKeys) (\<lambda>c. Inr (Some (cc_encode codec c))))"

section \<open>Building the query\<close>

definition reverseOf :: "sort_order \<Rightarrow> sort_order" where
  "reverseOf d = (case d of ASC \<Rightarrow> DESC | DESC \<Rightarrow> ASC)"

text \<open>Whether the comparison sign is \<open>>\<close>.\<close>

definition getComparisonSign :: "sort_order option \<Rightarrow> bool \<Rightarrow> bool" where
  "getComparisonSign order reverse = (case order of Some DESC \<Rightarrow> reverse | _ \<Rightarrow> \<not> reverse)"

definition addColumnPrefix :: "string \<Rightarrow> string" where
  "addColumnPrefix name = (if startsWith name ''custom_'' then name else ''custom_'' @ name)"

text \<open>\<open>where({ column: value })\<close>\<close>

definition whereColumn :: "string \<Rightarrow> js \<Rightarrow> clause" where
  "whereColumn column value = Clause False False (Raw (RawColumn column value))"

definition applyFilters :: "(js \<Rightarrow> string) \<Rightarrow> base_query \<Rightarrow> js_error + clause list" where
  "applyFilters fmt query =
     (let account = (case bq_account query of Some (c # cs) \<Rightarrow> [whereColumn ''controller_did'' (Str (c # cs))] | _ \<Rightarrow> [])
      in if jsTruthy (bq_queryFilters query) then
           bindR (parseQueryFilters (bq_queryFilters query)) (\<lambda>parsed.
           bindR (convertQueryFilter fmt parsed) (\<lambda>(select, clauses). Inr (account @ [whereC clauses])))
         else Inr (account @ map (\<lambda>(key, value). whereColumn (addColumnPrefix key) (Str value)) (bq_filter query)))"

definition orRaw :: "raw \<Rightarrow> clause" where
  "orRaw r = Clause True False (Raw r)"

definition andRaw :: "raw \<Rightarrow> clause" where
  "andRaw r = Clause False False (Raw r)"

definition applyCursor :: "js \<Rightarrow> bool \<Rightarrow> (string \<times> sort_order) list \<Rightarrow> js_error + clause list" where
  "applyCursor cursor isReverseOrder sorting =
     bindR (jsGet cursor ''type'') (\<lambda>type.
     bindR (jsGet cursor ''id'') (\<lambda>id.
     bindR (jsGet cursor ''value'') (\<lambda>value.
     if jsStrictEq type (Str ''timestamp'') then
       Inr [whereC [andRaw (RawAfter ''created_at'' (\<not> isReverseOrder) value),
              orRaw (RawColumn ''created_at'' value), andRaw (RawAfter ''stream_id'' True id)]]
     else
       bindR (objectKeys value) (\<lambda>keys.
       Inr (map (\<lambda>(key, v).
         whereC [andRaw (RawParam (contentKey key) (getComparisonSign (map_of sorting key) isReverseOrder) v),
           orRaw (RawParamEq (contentKey key) v), andRaw (RawAfter ''stream_id'' True id)]) (jsFields value))))))"

definition applySorting :: "bool \<Rightarrow> (string \<times> sort_order) list \<Rightarrow> order_by list" where
  "applySorting isReverseOrder sorting =
     (if sorting = [] then [OrderColumn ''created_at'' (if isReverseOrder then reverseOf ASC else ASC)]
      else map (\<lambda>(field, order). OrderRaw (contentKey field) (if isReverseOrder then reverseOf order else order)) sorting)
     @ [OrderColumn ''stream_id'' ASC]"

definition buildQuery :: "(js \<Rightarrow> string) \<Rightarrow> string list \<Rightarrow> base_query \<Rightarrow> bool \<Rightarrow> js \<Rightarrow> js_error + sql_query" where
  "buildQuery fmt models query isReverseOrder cursor =
     bindR (applyFilters fmt query) (\<lambda>filters.
     bindR (if jsNullish cursor then Inr [] else applyCursor cursor isReverseOrder (bq_sorting query)) (\<lambda>conditions.
     Inr \<lparr>sq_tables = models, sq_filters = filters, sq_where = conditions,
       sq_order = applySorting isReverseOrder (bq_sorting query), sq_limit = None\<rparr>))"

section \<open>Pages\<close>

record edge =
  ed_cursor :: string
  ed_node :: stream_id

record index_page =
  pp_edges :: "edge list"
  pp_hasNextPage :: bool
  pp_hasPreviousPage :: bool
  pp_endCursor :: "string option"
  pp_startCursor :: "string option"

text \<open>The surroundings of the index: the codecs, the rendering of numbers and the database.\<close>

record index_env =
  ie_codec :: codec_lib
  ie_cursors :: cursor_codec
  ie_fmt :: "js \<Rightarrow> string"
  ie_run :: "sql_query \<Rightarrow> js_error + index_row list"

definition forwardQuery :: "index_env \<Rightarrow> string list \<Rightarrow> base_query \<Rightarrow> nat \<Rightarrow> string option \<Rightarrow> js_error + index_row list" where
  "forwardQuery env models query first after =
     bindR (cursorParse (ie_cursors env) after) (\<lambda>cursor.
     bindR (buildQuery (ie_fmt env) models query False cursor) (\<lambda>q.
     ie_run env (q\<lparr>sq_limit := Some (first + 1)\<rparr>)))"

definition backwardQuery :: "index_env \<Rightarrow> string list \<Rightarrow> base_query \<Rightarrow> nat \<Rightarrow> string option \<Rightarrow> js_error + index_row list" where
  "backwardQuery env models query last1 before =
     bindR (cursorParse (ie_cursors env) before) (\<lambda>cursor.
     bindR (buildQuery (ie_fmt env) models query True cursor) (\<lambda>q.
     bindR (ie_run env (q\<lparr>sq_limit := Some (last1 + 1)\<rparr>)) (\<lambda>response. Inr (rev response))))"

text \<open>\<open>slice(-n)\<close>: for 0 it is the whole array.\<close>

definition sliceLast :: "nat \<Rightarrow> 'a list \<Rightarrow> 'a list" where
  "sliceLast n xs = (if n = 0 then xs else drop (length xs - n) xs)"

definition pageEdge :: "index_env \<Rightarrow> string list \<Rightarrow> index_row \<Rightarrow> js_error + edge" where
  "pageEdge env orderByKeys row =
     bindR (cursorData row orderByKeys) (\<lambda>c.
     bindR (streamIDFromString (ie_codec env) (ir_stream_id row)) (\<lambda>sid.
     Inr \<lparr>ed_cursor = cc_encode (ie_cursors env) c, ed_node = sid\<rparr>))"

definition pageOf :: "index_env \<Rightarrow> string list \<Rightarrow> index_row list \<Rightarrow> bool \<Rightarrow> bool \<Rightarrow> js_error + index_page" where
  "pageOf env orderByKeys entries hasNext hasPrevious =
     bindR (mapR (pageEdge env orderByKeys) entries) (\<lambda>edges.
     bindR (cursorStringify (ie_cursors env) (if entries = [] then None else Some (last entries)) orderByKeys) (\<lambda>endCursor.
     bindR (cursorStringify (ie_cursors env) (case entries of [] \<Rightarrow> None | e # _ \<Rightarrow> Some e) orderByKeys) (\<lambda>startCursor.
     Inr \<lparr>pp_edges = edges, pp_hasNextPage = hasNext, pp_hasPreviousPage = hasPrevious, pp_endCursor = endCursor,
       pp_startCursor = startCursor\<rparr>)))"

definition insertionPage :: "index_env \<Rightarrow> string list \<Rightarrow> base_query \<Rightarrow> pagination \<Rightarrow> js_error + index_page" where
  "insertionPage env models query pagination =
     (let orderByKeys = map fst (bq_sorting query) in
      bindR (parsePagination pagination) (\<lambda>kind. case kind of
        Forward limit after \<Rightarrow>
          bindR (forwardQuery env models query limit after) (\<lambda>response.
          pageOf env orderByKeys (take limit response) (limit < length response) False)
      | Backward limit before \<Rightarrow>
          bindR (backwardQuery env models query limit before) (\<lambda>response.
          pageOf env orderByKeys (sliceLast limit response) False (limit < length response))))"

section \<open>The database\<close>

text \<open>A row is selected if the conditions are true for it; no conditions select every row.\<close>

definition clausesHold :: "(raw \<Rightarrow> bool option) \<Rightarrow> clause list \<Rightarrow> bool" where
  "clausesHold test cs \<longleftrightarrow> (case clausesValue test cs of None \<Rightarrow> True | Some v \<Rightarrow> v = Some True)"

fun rowLess :: "(order_by \<Rightarrow> index_row \<Rightarrow> index_row \<Rightarrow> bool) \<Rightarrow> order_by list \<Rightarrow> index_row \<Rightarrow> index_row \<Rightarrow> bool" where
  "rowLess keyLess [] r s = False"
| "rowLess keyLess (k # ks) r s = (keyLess k r s \<or> \<not> keyLess k s r \<and> rowLess keyLess ks r s)"

definition tableRows :: "(string \<Rightarrow> index_row list) \<Rightarrow> (index_row \<Rightarrow> raw \<Rightarrow> bool option) \<Rightarrow> string list \<Rightarrow> clause list \<Rightarrow> index_row list" where
  "tableRows tables test models filters = filter (\<lambda>r. clausesHold (test r) filters) (concat (map tables models))"

definition limited :: "nat option \<Rightarrow> 'a list \<Rightarrow> 'a list" where
  "limited n xs = (case n of None \<Rightarrow> xs | Some k \<Rightarrow> take k xs)"

text \<open>
  What SQL promises: a query gives the rows of its tables that satisfy the conditions, ordered, up to
  the limit. Timestamps are compared as numbers; the collation orders StreamIDs.
\<close>

locale sql_database =
  fixes tables :: "string \<Rightarrow> index_row list"
    and test :: "index_row \<Rightarrow> raw \<Rightarrow> bool option"
    and keyLess :: "order_by \<Rightarrow> index_row \<Rightarrow> index_row \<Rightarrow> bool"
    and idLess :: "string \<Rightarrow> string \<Rightarrow> bool"
    and run :: "sql_query \<Rightarrow> js_error + index_row list"
  assumes run_rows: "\<exists>xs. run q = Inr (limited (sq_limit q) xs) \<and>
      mset xs = mset (filter (\<lambda>r. clausesHold (test r) (sq_where q)) (tableRows tables test (sq_tables q) (sq_filters q))) \<and>
      sorted_wrt (\<lambda>r s. \<not> rowLess keyLess (sq_order q) s r) xs"
    and created_after: "test r (RawAfter ''created_at'' up (Num v)) =
      Some (if up then v < of_int (ir_created_at r) else of_int (ir_created_at r) < v)"
    and created_at: "test r (RawColumn ''created_at'' (Num v)) = Some (of_int (ir_created_at r) = v)"
    and id_after: "test r (RawAfter ''stream_id'' True (Str sid)) = Some (idLess sid (ir_stream_id r))"
    and order_created: "keyLess (OrderColumn ''created_at'' d) r s =
      (if d = ASC then ir_created_at r < ir_created_at s else ir_created_at s < ir_created_at r)"
    and order_id: "keyLess (OrderColumn ''stream_id'' ASC) r s = idLess (ir_stream_id r) (ir_stream_id s)"
    and id_irrefl: "\<not> idLess a a"
    and id_trans: "idLess a b \<Longrightarrow> idLess b c \<Longrightarrow> idLess a c"
    and id_total: "a \<noteq> b \<Longrightarrow> idLess a b \<or> idLess b a"

text \<open>The insertion order, oldest first for \<open>ASC\<close>, with the StreamID to break ties.\<close>

definition insertedBefore :: "(string \<Rightarrow> string \<Rightarrow> bool) \<Rightarrow> sort_order \<Rightarrow> index_row \<Rightarrow> index_row \<Rightarrow> bool" where
  "insertedBefore idLess d r s \<longleftrightarrow>
     (if d = ASC then ir_created_at r < ir_created_at s else ir_created_at s < ir_created_at r) \<or>
     ir_created_at r = ir_created_at s \<and> idLess (ir_stream_id r) (ir_stream_id s)"

lemma sorted_unique:
  assumes "sorted_wrt P xs" and "sorted_wrt P ys" and "set xs = set ys" and "\<And>x y. P x y \<Longrightarrow> \<not> P y x"
  shows "xs = ys"
  using assms(1-3)
proof (induction xs arbitrary: ys)
  case (Cons x xs)
  then obtain y ys' where ys: "ys = y # ys'" by (cases ys) auto
  have "x = y"
  proof (rule ccontr)
    assume "x \<noteq> y"
    with Cons.prems(3) ys have "x \<in> set ys'" "y \<in> set xs" by auto
    with Cons.prems(1,2) ys have "P y x" "P x y" by auto
    with assms(4) show False by blast
  qed
  moreover have "x \<notin> set xs" "y \<notin> set ys'" using Cons.prems(1,2) ys assms(4) by auto
  ultimately have "set xs = set ys'" using Cons.prems(3) ys by auto
  with Cons ys \<open>x = y\<close> show ?case by simp
qed simp

lemma filter_drop:
  assumes "sorted_wrt P xs" and "\<And>x y. P x y \<Longrightarrow> \<not> P y x" and "i < length xs"
  shows "filter (P (xs ! i)) xs = drop (Suc i) xs"
proof -
  have xs: "xs = take i xs @ xs ! i # drop (Suc i) xs" using assms(3) by (simp add: id_take_nth_drop)
  have sorted: "sorted_wrt P (take i xs @ xs ! i # drop (Suc i) xs)" using assms(1) xs by simp
  then have before: "\<forall>y \<in> set (take i xs). P y (xs ! i)" and after: "\<forall>y \<in> set (drop (Suc i) xs). P (xs ! i) y"
    by (simp_all add: sorted_wrt_append)
  have "filter (P (xs ! i)) (take i xs) = []"
    using before assms(2) by (auto simp: filter_empty_conv)
  moreover have "filter (P (xs ! i)) (drop (Suc i) xs) = drop (Suc i) xs"
    using after by (simp add: filter_id_conv)
  moreover have "\<not> P (xs ! i) (xs ! i)" using assms(2) by blast
  ultimately show ?thesis using arg_cong [OF xs, of "filter (P (xs ! i))"] by (simp del: append_take_drop_id)
qed

text \<open>The position of a cursor: nothing, or the row it was made of.\<close>

definition cursorOf :: "index_row option \<Rightarrow> js" where
  "cursorOf row = (case row of None \<Rightarrow> Undef | Some r \<Rightarrow>
     Obj [(''type'', Str ''timestamp''), (''id'', Str (ir_stream_id r)), (''value'', Num (of_int (ir_created_at r)))])"

context sql_database
begin

lemma before_order: "rowLess keyLess (applySorting (d = DESC) []) r s \<longleftrightarrow> insertedBefore idLess d r s"
  by (cases d) (auto simp: applySorting_def reverseOf_def order_created order_id insertedBefore_def)

lemma before_asym: "insertedBefore idLess d r s \<Longrightarrow> \<not> insertedBefore idLess d s r"
proof -
  have "\<not> (idLess a b \<and> idLess b a)" for a b using id_irrefl id_trans by blast
  then show "insertedBefore idLess d r s \<Longrightarrow> \<not> insertedBefore idLess d s r"
    by (auto simp: insertedBefore_def split: if_splits)
qed

lemma before_total: "ir_stream_id r \<noteq> ir_stream_id s \<Longrightarrow> insertedBefore idLess d r s \<or> insertedBefore idLess d s r"
  using id_total by (auto simp: insertedBefore_def)

text \<open>The answer to a query in insertion order is determined when no two rows have the same StreamID.\<close>

lemma run_sorted:
  assumes "sq_order q = applySorting (d = DESC) []"
    and "distinct (map ir_stream_id (tableRows tables test (sq_tables q) (sq_filters q)))"
  obtains xs where "run q = Inr (limited (sq_limit q) xs)" and "sorted_wrt (insertedBefore idLess d) xs"
    and "mset xs = mset (filter (\<lambda>r. clausesHold (test r) (sq_where q)) (tableRows tables test (sq_tables q) (sq_filters q)))"
proof -
  obtain xs where xs: "run q = Inr (limited (sq_limit q) xs)"
    and ms: "mset xs = mset (filter (\<lambda>r. clausesHold (test r) (sq_where q)) (tableRows tables test (sq_tables q) (sq_filters q)))"
    and sorted: "sorted_wrt (\<lambda>r s. \<not> insertedBefore idLess d s r) xs"
    using run_rows [of q] unfolding assms(1) before_order by blast
  have "mset (map ir_stream_id xs) = mset (map ir_stream_id (filter (\<lambda>r. clausesHold (test r) (sq_where q))
      (tableRows tables test (sq_tables q) (sq_filters q))))" using ms by simp
  then have "distinct (map ir_stream_id xs)"
    using assms(2) distinct_map_filter mset_eq_imp_distinct_iff by blast
  with sorted have "sorted_wrt (insertedBefore idLess d) xs"
  proof (induction xs)
    case (Cons x xs)
    then have "ir_stream_id x \<noteq> ir_stream_id y" if "y \<in> set xs" for y using that by force
    with Cons before_total show ?case by fastforce
  qed simp
  with xs ms that show thesis by blast
qed

lemma clausesHold_Nil [simp]: "clausesHold t []"
  by (simp add: clausesHold_def clausesValue_def)

lemma cursor_clauses:
  "applyCursor (cursorOf (Some r)) (d = DESC) [] = Inr cs \<Longrightarrow> clausesHold (test s) cs \<longleftrightarrow> insertedBefore idLess d r s"
  by (cases d) (auto simp: applyCursor_def cursorOf_def clausesHold_def clausesValue_def whereC_def andRaw_def orRaw_def
      created_after created_at id_after and3_def or3_def insertedBefore_def split: if_splits)

lemma cursor_query:
  assumes "bq_sorting query = []" and "applyFilters fmt query = Inr filters"
    and "distinct (map ir_stream_id (tableRows tables test models filters))"
    and "sorted_wrt (insertedBefore idLess d) ordered" and "mset ordered = mset (tableRows tables test models filters)"
    and "row = None \<and> k = 0 \<or> (\<exists>i < length ordered. row = Some (ordered ! i) \<and> k = Suc i)"
  obtains q where "buildQuery fmt models query (d = DESC) (cursorOf row) = Inr q"
    and "\<And>n. run (q\<lparr>sq_limit := Some n\<rparr>) = Inr (take n (drop k ordered))"
proof -
  obtain cs where cs: "(if jsNullish (cursorOf row) then Inr [] else applyCursor (cursorOf row) (d = DESC) []) = Inr cs"
    and hold: "\<And>s. clausesHold (test s) cs \<longleftrightarrow> (case row of None \<Rightarrow> True | Some r \<Rightarrow> insertedBefore idLess d r s)"
  proof (cases row)
    case None
    with that [of "[]"] show thesis by (simp add: cursorOf_def)
  next
    case (Some r)
    obtain cs where "applyCursor (cursorOf (Some r)) (d = DESC) [] = Inr cs"
      by (simp add: applyCursor_def cursorOf_def)
    with cursor_clauses [OF this] that Some show thesis by (simp add: cursorOf_def)
  qed
  let ?q = "\<lparr>sq_tables = models, sq_filters = filters, sq_where = cs, sq_order = applySorting (d = DESC) [], sq_limit = None\<rparr>"
  have build: "buildQuery fmt models query (d = DESC) (cursorOf row) = Inr ?q"
    using assms(1,2) cs by (auto simp: buildQuery_def split: if_splits)
  have "run (?q\<lparr>sq_limit := Some n\<rparr>) = Inr (take n (drop k ordered))" for n
  proof -
    let ?n = "?q\<lparr>sq_limit := Some n\<rparr>"
    obtain xs where xs: "run ?n = Inr (take n xs)" "sorted_wrt (insertedBefore idLess d) xs"
      "mset xs = mset (filter (\<lambda>r. clausesHold (test r) cs) (tableRows tables test models filters))"
      using run_sorted [of ?n d] assms(3) by (auto simp: limited_def)
    have "set xs = set (filter (\<lambda>r. clausesHold (test r) cs) (tableRows tables test models filters))"
      using xs(3) by (rule mset_eq_setD)
    also have "\<dots> = {s \<in> set ordered. case row of None \<Rightarrow> True | Some r \<Rightarrow> insertedBefore idLess d r s}"
      using mset_eq_setD [OF assms(5)] hold by simp
    also have "\<dots> = set (drop k ordered)"
    proof (cases row)
      case (Some r)
      with assms(6) obtain i where i: "i < length ordered" "r = ordered ! i" "k = Suc i" by auto
      have "set (filter (insertedBefore idLess d r) ordered) = set (drop k ordered)"
        unfolding i(2,3) using filter_drop [OF assms(4) before_asym i(1)] by simp
      with Some show ?thesis by simp
    qed (use assms(6) in simp)
    finally have "set xs = set (drop k ordered)" .
    moreover have "sorted_wrt (insertedBefore idLess d) (drop k ordered)" using assms(4) by (rule sorted_wrt_drop)
    ultimately show ?thesis using sorted_unique [OF xs(2)] before_asym xs(1) by metis
  qed
  with build that show thesis by blast
qed

end

section \<open>Going through the pages\<close>

text \<open>
  What a client does that follows the cursors: the next page begins behind \<open>endCursor\<close>, the previous
  one ends before \<open>startCursor\<close>.
\<close>

fun collectForward :: "nat \<Rightarrow> (string option \<Rightarrow> js_error + index_page) \<Rightarrow> string option \<Rightarrow> js_error + edge list" where
  "collectForward 0 page after = Inl Diverged"
| "collectForward (Suc fuel) page after =
     bindR (page after) (\<lambda>p. if pp_hasNextPage p
       then bindR (collectForward fuel page (pp_endCursor p)) (\<lambda>es. Inr (pp_edges p @ es)) else Inr (pp_edges p))"

fun collectBackward :: "nat \<Rightarrow> (string option \<Rightarrow> js_error + index_page) \<Rightarrow> string option \<Rightarrow> js_error + edge list" where
  "collectBackward 0 page before = Inl Diverged"
| "collectBackward (Suc fuel) page before =
     bindR (page before) (\<lambda>p. if pp_hasPreviousPage p
       then bindR (collectBackward fuel page (pp_startCursor p)) (\<lambda>es. Inr (es @ pp_edges p)) else Inr (pp_edges p))"

definition forwardPage :: "index_env \<Rightarrow> string list \<Rightarrow> base_query \<Rightarrow> nat \<Rightarrow> string option \<Rightarrow> js_error + index_page" where
  "forwardPage env models query n after =
     insertionPage env models query \<lparr>pg_first = Some n, pg_after = after, pg_last = None, pg_before = None\<rparr>"

definition backwardPage :: "index_env \<Rightarrow> string list \<Rightarrow> base_query \<Rightarrow> nat \<Rightarrow> string option \<Rightarrow> js_error + index_page" where
  "backwardPage env models query n before =
     insertionPage env models query \<lparr>pg_first = None, pg_after = None, pg_last = Some n, pg_before = before\<rparr>"

definition cursors_ok :: "cursor_codec \<Rightarrow> bool" where
  "cursors_ok codec \<longleftrightarrow> (\<forall>r. cc_encode codec (cursorOf (Some r)) \<noteq> [] \<and>
     cc_decode codec (cc_encode codec (cursorOf (Some r))) = Inr (cursorOf (Some r)))"

definition cursorString :: "index_env \<Rightarrow> index_row option \<Rightarrow> string option" where
  "cursorString env row = map_option (\<lambda>r. cc_encode (ie_cursors env) (cursorOf (Some r))) row"

definition edgeOf :: "index_env \<Rightarrow> (index_row \<Rightarrow> stream_id) \<Rightarrow> index_row \<Rightarrow> edge" where
  "edgeOf env node r = \<lparr>ed_cursor = cc_encode (ie_cursors env) (cursorOf (Some r)), ed_node = node r\<rparr>"

lemma cursorParse_string: "cursors_ok (ie_cursors env) \<Longrightarrow> cursorParse (ie_cursors env) (cursorString env row) = Inr (cursorOf row)"
  by (cases row) (simp_all add: cursorString_def cursorParse_def cursors_ok_def, simp add: cursorOf_def)

lemma pageOf_insertion:
  assumes "\<forall>r \<in> set entries. streamIDFromString (ie_codec env) (ir_stream_id r) = Inr (node r)"
  shows "pageOf env [] entries next prev = Inr \<lparr>pp_edges = map (edgeOf env node) entries, pp_hasNextPage = next,
    pp_hasPreviousPage = prev, pp_endCursor = cursorString env (if entries = [] then None else Some (last entries)),
    pp_startCursor = cursorString env (if entries = [] then None else Some (hd entries))\<rparr>"
proof -
  have "mapR (pageEdge env []) entries = Inr (map (edgeOf env node) entries)"
    by (rule mapR_Inr_map) (use assms in \<open>simp add: pageEdge_def cursorData_def cursorOf_def edgeOf_def\<close>)
  then show ?thesis
    by (cases entries) (auto simp: pageOf_def cursorStringify_def cursorData_def cursorString_def cursorOf_def)
qed

text \<open>What a traversal rests on: the position \<open>k\<close> in the ordered rows that a cursor stands for.\<close>

definition cursorAt :: "index_env \<Rightarrow> index_row list \<Rightarrow> nat \<Rightarrow> string option" where
  "cursorAt env ordered k = cursorString env (if k = 0 then None else Some (ordered ! (k - 1)))"

lemma last_taken: "n < length ordered - k \<Longrightarrow> 0 < n \<Longrightarrow> last (take n (drop k ordered)) = ordered ! (k + n - 1)"
  by (subst last_conv_nth) (auto simp: min_def add.commute)

context sql_database
begin

lemma forward_page:
  assumes "ie_run env = run" and "cursors_ok (ie_cursors env)" and "bq_sorting query = []"
    and "applyFilters (ie_fmt env) query = Inr filters"
    and "distinct (map ir_stream_id (tableRows tables test models filters))"
    and "sorted_wrt (insertedBefore idLess ASC) ordered" and "mset ordered = mset (tableRows tables test models filters)"
    and "\<forall>r \<in> set ordered. streamIDFromString (ie_codec env) (ir_stream_id r) = Inr (node r)"
    and "k \<le> length ordered"
  shows "forwardPage env models query n (cursorAt env ordered k) = pageOf env [] (take n (drop k ordered))
    (n < length ordered - k) False"
proof -
  let ?row = "if k = 0 then None else Some (ordered ! (k - 1))"
  have row: "?row = None \<and> k = 0 \<or> (\<exists>i < length ordered. ?row = Some (ordered ! i) \<and> k = Suc i)"
    using assms(9) by (cases k) auto
  obtain q where "buildQuery (ie_fmt env) models query False (cursorOf ?row) = Inr q"
    and "\<And>n. run (q\<lparr>sq_limit := Some n\<rparr>) = Inr (take n (drop k ordered))"
    using cursor_query [OF assms(3-7) row, of thesis] by auto
  then have "forwardQuery env models query n (cursorAt env ordered k) = Inr (take (n + 1) (drop k ordered))"
    using assms(1) by (simp only: forwardQuery_def cursorAt_def cursorParse_string [OF assms(2)] bindR_simps)
  then show ?thesis
    using assms(3) by (simp add: forwardPage_def insertionPage_def parsePagination_def min_def)
qed

lemma backward_page:
  assumes "ie_run env = run" and "cursors_ok (ie_cursors env)" and "bq_sorting query = []"
    and "applyFilters (ie_fmt env) query = Inr filters"
    and "distinct (map ir_stream_id (tableRows tables test models filters))"
    and "sorted_wrt (insertedBefore idLess DESC) ordered" and "mset ordered = mset (tableRows tables test models filters)"
    and "\<forall>r \<in> set ordered. streamIDFromString (ie_codec env) (ir_stream_id r) = Inr (node r)"
    and "k \<le> length ordered" and "0 < n"
  shows "backwardPage env models query n (cursorAt env ordered k) = pageOf env [] (rev (take n (drop k ordered))) False
    (n < length ordered - k)"
proof -
  let ?row = "if k = 0 then None else Some (ordered ! (k - 1))"
  have row: "?row = None \<and> k = 0 \<or> (\<exists>i < length ordered. ?row = Some (ordered ! i) \<and> k = Suc i)"
    using assms(9) by (cases k) auto
  obtain q where "buildQuery (ie_fmt env) models query True (cursorOf ?row) = Inr q"
    and "\<And>n. run (q\<lparr>sq_limit := Some n\<rparr>) = Inr (take n (drop k ordered))"
    using cursor_query [OF assms(3-7) row, of thesis] by auto
  then have "backwardQuery env models query n (cursorAt env ordered k) = Inr (rev (take (n + 1) (drop k ordered)))"
    using assms(1) by (simp only: backwardQuery_def cursorAt_def cursorParse_string [OF assms(2)] bindR_simps)
  moreover have "sliceLast n (rev xs) = rev (take n xs)" for xs :: "index_row list"
    using assms(10) by (cases "n \<le> length xs") (simp_all add: sliceLast_def drop_rev)
  ultimately show ?thesis
    using assms(3) by (simp add: backwardPage_def insertionPage_def parsePagination_def min_def)
qed

lemma collect_pages:
  assumes "ie_run env = run" and "cursors_ok (ie_cursors env)" and "bq_sorting query = []"
    and "applyFilters (ie_fmt env) query = Inr filters"
    and "distinct (map ir_stream_id (tableRows tables test models filters))"
    and "sorted_wrt (insertedBefore idLess d) ordered" and "mset ordered = mset (tableRows tables test models filters)"
    and "\<forall>r \<in> set ordered. streamIDFromString (ie_codec env) (ir_stream_id r) = Inr (node r)"
    and "0 < n" and "k \<le> length ordered" and "length ordered - k < fuel"
  shows "(if d = ASC then collectForward fuel (forwardPage env models query n) (cursorAt env ordered k) = Inr (map (edgeOf env node) (drop k ordered))
    else collectBackward fuel (backwardPage env models query n) (cursorAt env ordered k) = Inr (map (edgeOf env node) (rev (drop k ordered))))"
  using assms(10,11)
proof (induction fuel arbitrary: k)
  case (Suc fuel)
  let ?entries = "take n (drop k ordered)"
  have ids: "\<forall>r \<in> set ?entries. streamIDFromString (ie_codec env) (ir_stream_id r) = Inr (node r)"
    "\<forall>r \<in> set (rev ?entries). streamIDFromString (ie_codec env) (ir_stream_id r) = Inr (node r)"
    using assms(8) by (auto dest!: in_set_takeD in_set_dropD)
  have all: "\<not> n < length ordered - k \<Longrightarrow> ?entries = drop k ordered" by simp
  have nexts: "cursorString env (if ?entries = [] then None else Some (last ?entries)) = cursorAt env ordered (k + n)"
    "cursorString env (if rev ?entries = [] then None else Some (hd (rev ?entries))) = cursorAt env ordered (k + n)"
    if "n < length ordered - k" using that assms(9) last_taken [OF that assms(9)] by (auto simp: cursorAt_def hd_rev)
  have split: "drop k ordered = ?entries @ drop (k + n) ordered"
    by (metis add.commute append_take_drop_id drop_drop)
  have IH: "n < length ordered - k \<Longrightarrow> (if d = ASC then collectForward fuel (forwardPage env models query n) (cursorAt env ordered (k + n)) =
      Inr (map (edgeOf env node) (drop (k + n) ordered))
    else collectBackward fuel (backwardPage env models query n) (cursorAt env ordered (k + n)) = Inr (map (edgeOf env node) (rev (drop (k + n) ordered))))"
    using Suc.prems assms(9) by (intro Suc.IH) auto
  show ?case
  proof (cases d)
    case ASC
    with forward_page [OF assms(1-5) _ assms(7,8) Suc.prems(1)] assms(6) pageOf_insertion [OF ids(1)]
    have "forwardPage env models query n (cursorAt env ordered k) = Inr \<lparr>pp_edges = map (edgeOf env node) ?entries,
      pp_hasNextPage = n < length ordered - k, pp_hasPreviousPage = False,
      pp_endCursor = cursorString env (if ?entries = [] then None else Some (last ?entries)),
      pp_startCursor = cursorString env (if ?entries = [] then None else Some (hd ?entries))\<rparr>" by simp
    with ASC IH nexts(1) all show ?thesis
      by (cases "n < length ordered - k") (simp_all add: split [symmetric] flip: map_append)
  next
    case DESC
    with backward_page [OF assms(1-5) _ assms(7,8) Suc.prems(1) assms(9)] assms(6) pageOf_insertion [OF ids(2)]
    have "backwardPage env models query n (cursorAt env ordered k) = Inr \<lparr>pp_edges = map (edgeOf env node) (rev ?entries),
      pp_hasNextPage = False, pp_hasPreviousPage = n < length ordered - k,
      pp_endCursor = cursorString env (if rev ?entries = [] then None else Some (last (rev ?entries))),
      pp_startCursor = cursorString env (if rev ?entries = [] then None else Some (hd (rev ?entries)))\<rparr>" by simp
    with DESC IH nexts(2) all show ?thesis
      by (cases "n < length ordered - k") (simp_all add: split [symmetric] flip: map_append rev_append)
  qed
qed simp

end

section \<open>A database\<close>

text \<open>The laws of SQL hold for the direct evaluation of a query on lists of rows.\<close>

definition weakOrder :: "('a \<Rightarrow> 'a \<Rightarrow> bool) \<Rightarrow> bool" where
  "weakOrder lt \<longleftrightarrow> (\<forall>a. \<not> lt a a) \<and> (\<forall>a b c. lt a b \<longrightarrow> lt b c \<longrightarrow> lt a c) \<and>
     (\<forall>a b c. lt a c \<longrightarrow> lt a b \<or> lt b c)"

lemma weakOrder_rowLess: "\<forall>k \<in> set ks. weakOrder (keyLess k) \<Longrightarrow> weakOrder (rowLess keyLess ks)"
proof (induction ks)
  case (Cons k ks)
  then have k: "weakOrder (keyLess k)" and ks: "weakOrder (rowLess keyLess ks)" by simp_all
  show ?case unfolding weakOrder_def
  proof (intro conjI allI impI)
    fix a b c
    show "\<not> rowLess keyLess (k # ks) a a" using k ks by (simp add: weakOrder_def)
    assume "rowLess keyLess (k # ks) a b" "rowLess keyLess (k # ks) b c"
    then show "rowLess keyLess (k # ks) a c" using k ks unfolding weakOrder_def rowLess.simps by metis
  next
    fix a b c assume "rowLess keyLess (k # ks) a c"
    then show "rowLess keyLess (k # ks) a b \<or> rowLess keyLess (k # ks) b c"
      using k ks unfolding weakOrder_def rowLess.simps by metis
  qed
qed (simp add: weakOrder_def)

fun insertRow :: "('a \<Rightarrow> 'a \<Rightarrow> bool) \<Rightarrow> 'a \<Rightarrow> 'a list \<Rightarrow> 'a list" where
  "insertRow lt x [] = [x]"
| "insertRow lt x (y # ys) = (if lt y x then y # insertRow lt x ys else x # y # ys)"

definition sortRows :: "('a \<Rightarrow> 'a \<Rightarrow> bool) \<Rightarrow> 'a list \<Rightarrow> 'a list" where
  "sortRows lt xs = foldr (insertRow lt) xs []"

lemma insertRow_mset: "mset (insertRow lt x ys) = add_mset x (mset ys)"
  by (induction ys) auto

lemma sortRows_mset: "mset (sortRows lt xs) = mset xs"
  by (induction xs) (simp_all add: sortRows_def insertRow_mset)

lemma insertRow_set: "set (insertRow lt x ys) = insert x (set ys)"
  by (induction ys) auto

lemma sortRows_sorted: "weakOrder lt \<Longrightarrow> sorted_wrt (\<lambda>r s. \<not> lt s r) (sortRows lt xs)"
proof (induction xs)
  case (Cons x xs)
  from Cons.prems have asym: "lt a b \<Longrightarrow> \<not> lt b a" and neg: "\<not> lt a b \<Longrightarrow> \<not> lt b c \<Longrightarrow> \<not> lt a c" for a b c
    unfolding weakOrder_def by blast+
  have "sorted_wrt (\<lambda>r s. \<not> lt s r) ys \<Longrightarrow> sorted_wrt (\<lambda>r s. \<not> lt s r) (insertRow lt x ys)" for ys
  proof (induction ys)
    case (Cons y ys)
    then have "\<forall>z \<in> set ys. \<not> lt z y" by simp
    with neg have "\<not> lt y x \<Longrightarrow> \<forall>z \<in> set ys. \<not> lt z x" by blast
    moreover from asym have "lt y x \<Longrightarrow> \<not> lt x y" .
    ultimately show ?case using Cons by (simp add: insertRow_set)
  qed simp
  with Cons show ?case by (simp add: sortRows_def)
qed (simp add: sortRows_def)

definition contentNumber :: "string \<Rightarrow> index_row \<Rightarrow> rat" where
  "contentNumber key r = (case find (\<lambda>(f, _). contentKey f = key) (jsFields (ir_stream_content r)) of
     Some (_, Num n) \<Rightarrow> n | _ \<Rightarrow> 0)"

definition sampleKeyLess :: "order_by \<Rightarrow> index_row \<Rightarrow> index_row \<Rightarrow> bool" where
  "sampleKeyLess k r s = (case k of
     OrderColumn column d \<Rightarrow> (let (a, b) = (if d = ASC then (r, s) else (s, r)) in
       if column = ''created_at'' then ir_created_at a < ir_created_at b else strLess (ir_stream_id a) (ir_stream_id b))
   | OrderRaw key d \<Rightarrow> (let (a, b) = (if d = ASC then (r, s) else (s, r)) in contentNumber key a < contentNumber key b))"

definition sampleRowTest :: "index_row \<Rightarrow> raw \<Rightarrow> bool option" where
  "sampleRowTest r t = (case t of
     RawAfter column up (Num v) \<Rightarrow> (if column = ''created_at''
       then Some (if up then v < of_int (ir_created_at r) else of_int (ir_created_at r) < v) else None)
   | RawAfter column up (Str s) \<Rightarrow> Some (strLess s (ir_stream_id r))
   | RawColumn column (Num v) \<Rightarrow> (if column = ''created_at'' then Some (of_int (ir_created_at r) = v) else None)
   | RawColumn column (Str s) \<Rightarrow> (if column = ''controller_did'' then Some (ir_controller_did r = s) else None)
   | RawParam key up (Num v) \<Rightarrow> Some (if up then v < contentNumber key r else contentNumber key r < v)
   | RawParamEq key (Num v) \<Rightarrow> Some (contentNumber key r = v)
   | _ \<Rightarrow> None)"

definition execSql :: "(string \<Rightarrow> index_row list) \<Rightarrow> sql_query \<Rightarrow> js_error + index_row list" where
  "execSql tables q = Inr (limited (sq_limit q) (sortRows (rowLess sampleKeyLess (sq_order q))
     (filter (\<lambda>r. clausesHold (sampleRowTest r) (sq_where q)) (tableRows tables sampleRowTest (sq_tables q) (sq_filters q)))))"

lemma strLess_weak: "strLess a c \<Longrightarrow> strLess a b \<or> strLess b c"
  using strLess_trans strLess_total by metis

lemma sampleKeyLess_weak: "weakOrder (sampleKeyLess k)"
proof (cases k)
  case (OrderColumn column d)
  show ?thesis unfolding weakOrder_def sampleKeyLess_def OrderColumn
    by (cases d) (auto dest: strLess_weak strLess_trans)
next
  case (OrderRaw key d)
  then show ?thesis unfolding weakOrder_def sampleKeyLess_def by (cases d) auto
qed

interpretation evaluated: sql_database tables sampleRowTest sampleKeyLess strLess "execSql tables" for tables
proof
  fix q :: sql_query
  let ?rows = "filter (\<lambda>r. clausesHold (sampleRowTest r) (sq_where q)) (tableRows tables sampleRowTest (sq_tables q) (sq_filters q))"
  show "\<exists>xs. execSql tables q = Inr (limited (sq_limit q) xs) \<and> mset xs = mset ?rows \<and>
      sorted_wrt (\<lambda>r s. \<not> rowLess sampleKeyLess (sq_order q) s r) xs"
    unfolding execSql_def using sortRows_mset sortRows_sorted [OF weakOrder_rowLess] sampleKeyLess_weak by blast
qed (auto simp: sampleRowTest_def sampleKeyLess_def dest: strLess_trans strLess_total)

text \<open>Cursors of timestamps as a sign, a number and a StreamID.\<close>

definition sampleEncode :: "js \<Rightarrow> string" where
  "sampleEncode c = (case c of
     Obj [(_, _), (_, Str sid), (_, Num v)] \<Rightarrow> (if v < 0 then CHR ''-'' else CHR ''+'') # natStr (nat \<lfloor>\<bar>v\<bar>\<rfloor>) @ CHR '':'' # sid
   | _ \<Rightarrow> [])"

definition sampleDecode :: "string \<Rightarrow> js_error + js" where
  "sampleDecode s = (case s of
     [] \<Rightarrow> Inl TypeErr
   | sign # rest \<Rightarrow> (let digits = takeWhile (\<lambda>c. c \<noteq> CHR '':'') rest; n = rat_of_nat (strNat digits) in
       Inr (Obj [(''type'', Str ''timestamp''), (''id'', Str (drop (Suc (length digits)) rest)),
         (''value'', Num (if sign = CHR ''-'' then - n else n))])))"

definition sampleCursors :: cursor_codec where
  "sampleCursors = \<lparr>cc_encode = sampleEncode, cc_decode = sampleDecode\<rparr>"

lemma colon_notin_natStr: "CHR '':'' \<notin> set (natStr n)"
  using natStr_digits [of "CHR '':''" n] by auto

lemma digits_before_colon: "takeWhile (\<lambda>c. c \<noteq> CHR '':'') (natStr n @ CHR '':'' # xs) = natStr n"
  using colon_notin_natStr by (subst takeWhile_append2) auto

lemma sampleCursors_ok: "cursors_ok sampleCursors"
  unfolding cursors_ok_def
proof
  fix r :: index_row
  let ?v = "ir_created_at r" and ?sid = "ir_stream_id r"
  have "nat \<lfloor>\<bar>rat_of_int ?v\<bar>\<rfloor> = nat \<bar>?v\<bar>" by (metis floor_of_int of_int_abs)
  then have enc: "sampleEncode (cursorOf (Some r)) = (if ?v < 0 then CHR ''-'' else CHR ''+'') # natStr (nat \<bar>?v\<bar>) @ CHR '':'' # ?sid"
    by (simp add: sampleEncode_def cursorOf_def)
  have "sampleDecode (sampleEncode (cursorOf (Some r))) = Inr (cursorOf (Some r))"
    unfolding enc by (simp add: sampleDecode_def Let_def strNat_natStr cursorOf_def digits_before_colon)
  then show "cc_encode sampleCursors (cursorOf (Some r)) \<noteq> [] \<and>
      cc_decode sampleCursors (cc_encode sampleCursors (cursorOf (Some r))) = Inr (cursorOf (Some r))"
    by (simp add: sampleCursors_def enc)
qed

definition sampleRow :: "byte \<Rightarrow> int \<Rightarrow> index_row" where
  "sampleRow b t = \<lparr>ir_stream_id = streamIDToString sampleLib (StreamID 3 (sampleCid [b])), ir_controller_did = ''did:1'',
     ir_created_at = t, ir_last_anchored_at = None, ir_stream_content = Obj [], ir_relations = []\<rparr>"

definition sampleTables :: "string \<Rightarrow> index_row list" where
  "sampleTables model = (if model = ''m'' then [sampleRow 1 7, sampleRow 2 5] else [sampleRow 3 5])"

definition sampleIndex :: index_env where
  "sampleIndex = \<lparr>ie_codec = sampleLib, ie_cursors = sampleCursors, ie_fmt = (\<lambda>_. []), ie_run = execSql sampleTables\<rparr>"

definition sampleQuery :: base_query where
  "sampleQuery = \<lparr>bq_account = None, bq_queryFilters = Undef, bq_filter = [], bq_sorting = []\<rparr>"

section \<open>Properties\<close>

text \<open>
  C25: The pages of a query are a partition of its results. For every database that obeys the laws of
  SQL, every page size above zero and every query without custom sorting: a client that follows
  \<open>endCursor\<close> while there is a next page comes to an end and gets exactly the rows of the queried models
  that satisfy the filters, each once, oldest first and by StreamID among equal timestamps. Following
  \<open>startCursor\<close> backward while there is a previous page gives the same rows.
\<close>

theorem pages_enumerate:
  assumes "sql_database tables test keyLess idLess (ie_run env)" and "cursors_ok (ie_cursors env)"
    and "bq_sorting query = []" and "applyFilters (ie_fmt env) query = Inr filters"
    and "distinct (map ir_stream_id (tableRows tables test models filters))"
    and "\<forall>r \<in> set (tableRows tables test models filters). streamIDFromString (ie_codec env) (ir_stream_id r) = Inr (node r)"
    and "0 < n" and "length (tableRows tables test models filters) < fuel"
  shows "\<exists>forward backward es bs.
    mset forward = mset (tableRows tables test models filters) \<and> sorted_wrt (insertedBefore idLess ASC) forward \<and>
    mset backward = mset (tableRows tables test models filters) \<and> sorted_wrt (insertedBefore idLess DESC) backward \<and>
    collectForward fuel (forwardPage env models query n) None = Inr es \<and> map ed_node es = map node forward \<and>
    collectBackward fuel (backwardPage env models query n) None = Inr bs \<and> map ed_node bs = rev (map node backward)"
proof -
  note db = assms(1)
  let ?q = "\<lambda>d. \<lparr>sq_tables = models, sq_filters = filters, sq_where = [], sq_order = applySorting (d = DESC) [], sq_limit = None\<rparr>"
  have "\<exists>xs. sorted_wrt (insertedBefore idLess d) xs \<and> mset xs = mset (tableRows tables test models filters)" for d
    using sql_database.run_sorted [OF db, of "?q d" d] assms(5) by force
  then obtain forward backward
    where f: "sorted_wrt (insertedBefore idLess ASC) forward" "mset forward = mset (tableRows tables test models filters)"
      and b: "sorted_wrt (insertedBefore idLess DESC) backward" "mset backward = mset (tableRows tables test models filters)"
    by metis
  have len: "length forward < fuel" "length backward < fuel"
    using assms(8) f(2) b(2) by (metis size_mset)+
  have ids: "\<forall>r \<in> set forward. streamIDFromString (ie_codec env) (ir_stream_id r) = Inr (node r)"
    "\<forall>r \<in> set backward. streamIDFromString (ie_codec env) (ir_stream_id r) = Inr (node r)"
    using assms(6) mset_eq_setD [OF f(2)] mset_eq_setD [OF b(2)] by simp_all
  have start: "cursorAt env xs 0 = None" for xs by (simp add: cursorAt_def cursorString_def)
  have cf: "collectForward fuel (forwardPage env models query n) None = Inr (map (edgeOf env node) forward)"
    using sql_database.collect_pages [OF db refl assms(2-5) f ids(1) assms(7), of 0 fuel] len(1) by (simp add: start)
  have cb: "collectBackward fuel (backwardPage env models query n) None = Inr (map (edgeOf env node) (rev backward))"
    using sql_database.collect_pages [OF db refl assms(2-5) b ids(2) assms(7), of 0 fuel] len(2) by (simp add: start)
  show ?thesis
    by (intro exI [of _ forward] exI [of _ backward] exI [of _ "map (edgeOf env node) forward"]
        exI [of _ "map (edgeOf env node) (rev backward)"]) (simp add: f b cf cb edgeOf_def rev_map)
qed

text \<open>
  Sorting by two fields loses rows. The cursor of a page sorted by the fields \<open>f1\<close> and \<open>f2\<close> holds
  the values of both in the last row \<open>r\<close>; the conditions of the next page must hold for each field
  separately. A row \<open>s\<close> that comes after \<open>r\<close> by its first field is left out if by its second field it
  comes before: it is on no page.
\<close>

theorem sorted_pages_lose_rows:
  assumes "keyLess (OrderRaw (contentKey f1) (if reverse then reverseOf d1 else d1)) r s" and "f1 \<noteq> f2"
    and "test (RawParam (contentKey f2) (getComparisonSign (Some d2) reverse) v2) = Some False"
    and "test (RawParamEq (contentKey f2) v2) = Some False"
  shows "rowLess keyLess (applySorting reverse [(f1, d1), (f2, d2)]) r s \<and>
    (\<exists>cs. applyCursor (Obj [(''type'', Str ''content''), (''id'', Str sid), (''value'', Obj [(f1, v1), (f2, v2)])])
       reverse [(f1, d1), (f2, d2)] = Inr cs \<and> \<not> clausesHold test cs)"
proof -
  have and3_False: "and3 (Some False) a = Some False" "and3 a (Some False) = Some False" for a
    by (simp_all add: and3_def)
  show ?thesis
    using assms by (simp add: applySorting_def applyCursor_def objectKeys_def clausesHold_def clausesValue_def whereC_def
        andRaw_def orRaw_def and3_False)
qed

theorem sorted_pages_lose_rows_witness:
  "let r = (sampleRow 1 0)\<lparr>ir_stream_content := Obj [(''a'', Num 1), (''b'', Num 2)]\<rparr>;
       s = (sampleRow 2 0)\<lparr>ir_stream_content := Obj [(''a'', Num 2), (''b'', Num 1)]\<rparr>
   in rowLess sampleKeyLess (applySorting False [(''a'', ASC), (''b'', ASC)]) r s \<and>
     (\<exists>cs. applyCursor (Obj [(''type'', Str ''content''), (''id'', Str (ir_stream_id r)),
         (''value'', Obj [(''a'', Num 1), (''b'', Num 2)])]) False [(''a'', ASC), (''b'', ASC)] = Inr cs \<and>
       \<not> clausesHold (sampleRowTest s) cs)"
  unfolding Let_def
  by (rule sorted_pages_lose_rows) (simp_all add: sampleKeyLess_def sampleRowTest_def contentNumber_def contentKey_def getComparisonSign_def)

lemma sampleRow_id: "streamIDFromString sampleLib (ir_stream_id (sampleRow b t)) = Inr (StreamID 3 (sampleCid [b]))"
  unfolding sampleRow_def index_row.select_convs
  by (rule streamIDFromString_toString [OF sampleLib_ok]) (simp_all add: maxSafe_def sampleCid_v1)

theorem pages_enumerate_witness:
  "\<exists>es. collectForward 9 (forwardPage sampleIndex [''m'', ''n''] sampleQuery 1) None = Inr es \<and>
     set (map ed_node es) = {StreamID 3 (sampleCid [1]), StreamID 3 (sampleCid [2]), StreamID 3 (sampleCid [3])} \<and> length es = 3"
proof -
  let ?node = "\<lambda>r. case streamIDFromString sampleLib (ir_stream_id r) of Inr sid \<Rightarrow> sid | Inl e \<Rightarrow> StreamID 0 (CID [])"
  have rows: "tableRows sampleTables sampleRowTest [''m'', ''n''] [] = [sampleRow 1 7, sampleRow 2 5, sampleRow 3 5]"
    by (simp add: tableRows_def sampleTables_def)
  have "inj_on (ir_stream_id \<circ> (\<lambda>(b, t). sampleRow b t)) {(1, 7), (2, 5), (3, 5)}"
    by (rule inj_onI) (auto dest!: arg_cong [of _ _ "streamIDFromString sampleLib"] simp: sampleRow_id sampleCid_def multihashBytes_def)
  then have dist: "distinct (map ir_stream_id (tableRows sampleTables sampleRowTest [''m'', ''n''] []))"
    by (simp add: rows inj_on_def)
  have "sql_database sampleTables sampleRowTest sampleKeyLess strLess (ie_run sampleIndex)"
    using evaluated.sql_database_axioms [of sampleTables] by (simp add: sampleIndex_def)
  from pages_enumerate [OF this _ _ _ dist, of sampleQuery ?node 1 9]
  obtain forward es where f: "mset forward = mset (tableRows sampleTables sampleRowTest [''m'', ''n''] [])"
    and es: "collectForward 9 (forwardPage sampleIndex [''m'', ''n''] sampleQuery 1) None = Inr es" "map ed_node es = map ?node forward"
    by (auto simp: sampleIndex_def sampleCursors_ok sampleQuery_def applyFilters_def rows sampleRow_id)
  have "set (map ed_node es) = ?node ` {sampleRow 1 7, sampleRow 2 5, sampleRow 3 5}"
    unfolding es(2) using mset_eq_setD [OF f] by (simp add: rows)
  moreover have "length es = 3" using arg_cong [OF es(2), of length] arg_cong [OF f, of size] by (simp add: rows)
  ultimately show ?thesis using es(1) by (simp add: sampleRow_id)
qed

end
