(* ===== verification/IndexDatabase.thy ===== *)
theory IndexDatabase
  imports "HOL-Library.AList" IndexQueries Effects ModelHandler
begin

text \<open>
  The index of a node (\<open>indexing/src/database-index-api.ts\<close>, \<open>local-index-api.ts\<close>): the configuration
  and the tables in the database, the copy of the configuration in memory, indexing of streams, and
  which models a query may read. Models are named by their StreamIDs as strings, as in the tables. A
  database without a transaction under way is a value; what the code runs in a transaction happens at
  once.
\<close>

section \<open>State\<close>

record mid_row = index_row +
  mr_tip :: string
  mr_first_anchored_at :: "int option"
  mr_updated_at :: int

record model_config =
  mc_indices :: js
  mc_is_indexed :: bool

record index_state =
  ix_models :: "(string \<times> model_config) list"
  ix_implements :: "(string \<times> string) list"
  ix_tables :: "(string \<times> mid_row list) list"
  ix_indexedModels :: "(stream_id \<times> js) list"
  ix_modelRelations :: "(string \<times> string list) list"
  ix_interfacesModels :: "(string \<times> string list) list"

record index_model_args =
  im_model :: stream_id
  im_relations :: "string list option"
  im_indices :: js
  im_implements :: "string list"

record index_stream_args =
  is_streamID :: stream_id
  is_model :: stream_id
  is_controller :: string
  is_streamContent :: js
  is_tip :: cid
  is_lastAnchor :: "int option"
  is_firstAnchor :: "int option"
  is_shouldIndex :: "bool option"
  is_createdAt :: "int option"
  is_updatedAt :: "int option"

datatype index_backend = Postgres | Sqlite

text \<open>
  The surroundings: the codecs, the clock, the history sync, the checks of the tables, the database
  that runs queries, and the loading of model streams: the content of a model with a StreamID.
\<close>

record index_world =
  iw_env :: index_env
  iw_backend :: index_backend
  iw_now :: int
  iw_cidString :: "cid \<Rightarrow> string"
  iw_allowQueriesBeforeHistoricalSync :: bool
  iw_syncComplete :: "string \<Rightarrow> bool"
  iw_verifyTables :: "index_model_args list \<Rightarrow> js_error + unit"
  iw_count :: "string list \<Rightarrow> clause list \<Rightarrow> nat"
  iw_loadModel :: "stream_ref \<Rightarrow> js_error + js"
  iw_fuel :: nat

type_synonym 'a ix = "(index_state, 'a) ef"

definition idText :: "index_world \<Rightarrow> stream_id \<Rightarrow> string" where
  "idText iw sid = streamIDToString (ie_codec (iw_env iw)) sid"

section \<open>Configuration of models\<close>

definition assertNoOngoingSyncForModel :: "index_world \<Rightarrow> stream_id \<Rightarrow> js_error + unit" where
  "assertNoOngoingSyncForModel iw model =
     throwIf (\<not> iw_allowQueriesBeforeHistoricalSync iw \<and> \<not> iw_syncComplete iw (idText iw model))
       (Err ''IndexQueryNotAvailableError'')"

definition getIndexedModel :: "index_state \<Rightarrow> stream_id \<Rightarrow> (stream_id \<times> js) option" where
  "getIndexedModel w sid = find (\<lambda>m. fst m = sid) (ix_indexedModels w)"

definition addModelImplements :: "string \<Rightarrow> string \<Rightarrow> index_state \<Rightarrow> index_state" where
  "addModelImplements modelID interfaceID w =
     (let models = (case map_of (ix_interfacesModels w) interfaceID of None \<Rightarrow> [] | Some ms \<Rightarrow> ms)
      in w\<lparr>ix_interfacesModels := AList.update interfaceID (List.insert modelID models) (ix_interfacesModels w)\<rparr>)"

text \<open>Insert the row of a model, or set its flag.\<close>

definition upsertModel :: "string \<Rightarrow> js \<Rightarrow> bool \<Rightarrow> (string \<times> model_config) list \<Rightarrow> (string \<times> model_config) list" where
  "upsertModel model indices indexed rows = (case map_of rows model of
     Some c \<Rightarrow> AList.update model (c\<lparr>mc_is_indexed := indexed\<rparr>) rows
   | None \<Rightarrow> rows @ [(model, \<lparr>mc_indices = indices, mc_is_indexed = indexed\<rparr>)])"

definition initMidTable :: "string \<Rightarrow> (string \<times> mid_row list) list \<Rightarrow> (string \<times> mid_row list) list" where
  "initMidTable model tables = (if map_of tables model = None then tables @ [(model, [])] else tables)"

definition indexModelRow :: "index_world \<Rightarrow> index_model_args \<Rightarrow> index_state \<Rightarrow> index_state" where
  "indexModelRow iw args w =
     w\<lparr>ix_models := upsertModel (idText iw (im_model args)) (if jsTruthy (im_indices args) then im_indices args else Null) True (ix_models w)\<rparr>"

definition indexModelImplements :: "index_world \<Rightarrow> index_model_args \<Rightarrow> index_state \<Rightarrow> index_state" where
  "indexModelImplements iw args w =
     fold (\<lambda>interfaceID w. let modelID = idText iw (im_model args); w' = addModelImplements modelID interfaceID w
        in w'\<lparr>ix_implements := List.insert (interfaceID, modelID) (ix_implements w')\<rparr>) (im_implements args) w"

definition indexModelsInDatabase :: "index_world \<Rightarrow> index_model_args list \<Rightarrow> unit ix" where
  "indexModelsInDatabase iw models =
     (if models = [] then returnE ()
      else
        bindE (modifyE (\<lambda>w. w\<lparr>ix_tables := fold (\<lambda>args. initMidTable (idText iw (im_model args))) models (ix_tables w)\<rparr>)) (\<lambda>_.
        bindE (liftE (iw_verifyTables iw models)) (\<lambda>_.
        modifyE (\<lambda>w. fold (indexModelImplements iw) models (fold (indexModelRow iw) models w)))))"

definition registerModel :: "index_world \<Rightarrow> index_model_args \<Rightarrow> unit ix" where
  "registerModel iw args =
     bindE (liftE (assertNoOngoingSyncForModel iw (im_model args))) (\<lambda>_.
     modifyE (\<lambda>w.
       let w1 = (if getIndexedModel w (im_model args) = None
                 then w\<lparr>ix_indexedModels := ix_indexedModels w @ [(im_model args, im_indices args)]\<rparr> else w)
       in case im_relations args of
            Some relations \<Rightarrow> w1\<lparr>ix_modelRelations := AList.update (idText iw (im_model args)) relations (ix_modelRelations w1)\<rparr>
          | None \<Rightarrow> w1))"

definition indexModels :: "index_world \<Rightarrow> index_model_args list \<Rightarrow> unit ix" where
  "indexModels iw models =
     bindE (indexModelsInDatabase iw models) (\<lambda>_. forE (registerModel iw) models)"

definition stopIndexingModels :: "index_world \<Rightarrow> stream_id list \<Rightarrow> unit ix" where
  "stopIndexingModels iw models =
     bindE (modifyE (\<lambda>w. w\<lparr>ix_models := fold (\<lambda>m. upsertModel (idText iw m) Null False) models (ix_models w)\<rparr>)) (\<lambda>_.
     modifyE (\<lambda>w. w\<lparr>ix_indexedModels := filter (\<lambda>idx. fst idx \<notin> set models) (ix_indexedModels w)\<rparr>))"

text \<open>The models in the database with a flag; SQLite gives the indices as JSON, which is parsed.\<close>

definition modelsFromDatabase :: "index_world \<Rightarrow> bool \<Rightarrow> index_state \<Rightarrow> js_error + (stream_id \<times> js) list" where
  "modelsFromDatabase iw indexed w =
     mapR (\<lambda>(model, c). bindR (streamIDFromString (ie_codec (iw_env iw)) model) (\<lambda>sid.
         Inr (sid, if jsTruthy (mc_indices c) then mc_indices c else Undef)))
       (filter (\<lambda>(model, c). mc_is_indexed c = indexed) (ix_models w))"

definition interfacesFromDatabase :: "index_state \<Rightarrow> (string \<times> string list) list" where
  "interfacesFromDatabase w = fold (\<lambda>(i, m) acc.
     AList.update i (List.insert m (case map_of acc i of None \<Rightarrow> [] | Some ms \<Rightarrow> ms)) acc) (ix_implements w) []"

definition initIndex :: "index_world \<Rightarrow> unit ix" where
  "initIndex iw =
     bindE (\<lambda>w. (modelsFromDatabase iw True w, w)) (\<lambda>indexedModels.
     modifyE (\<lambda>w. w\<lparr>ix_indexedModels := indexedModels, ix_interfacesModels := interfacesFromDatabase w\<rparr>))"

section \<open>Indexing of streams\<close>

text \<open>\<open>asTimestamp(createdAt) || now\<close> in SQLite takes the time 0 for missing.\<close>

definition timeOrNow :: "index_world \<Rightarrow> int option \<Rightarrow> int" where
  "timeOrNow iw t = (case t of
     Some n \<Rightarrow> if iw_backend iw = Sqlite \<and> n = 0 then iw_now iw else n
   | None \<Rightarrow> iw_now iw)"

definition getIndexedData :: "index_world \<Rightarrow> index_stream_args \<Rightarrow> (string \<times> js) list \<Rightarrow> mid_row" where
  "getIndexedData iw args relations =
     \<lparr>ir_stream_id = idText iw (is_streamID args), ir_controller_did = is_controller args,
      ir_created_at = timeOrNow iw (is_createdAt args), ir_last_anchored_at = is_lastAnchor args,
      ir_stream_content = jsNullishOr (is_streamContent args) (Obj []), ir_relations = relations,
      mr_tip = iw_cidString iw (is_tip args), mr_first_anchored_at = is_firstAnchor args,
      mr_updated_at = timeOrNow iw (is_updatedAt args)\<rparr>"

text \<open>A conflict on the StreamID merges all columns except \<open>created_at\<close>.\<close>

definition mergeRow :: "mid_row \<Rightarrow> mid_row \<Rightarrow> mid_row" where
  "mergeRow new old = new\<lparr>ir_created_at := ir_created_at old,
     ir_relations := foldl (\<lambda>fs (k, v). setField fs k v) (ir_relations old) (ir_relations new)\<rparr>"

definition upsertRow :: "mid_row \<Rightarrow> mid_row list \<Rightarrow> mid_row list" where
  "upsertRow new rows =
     (if ir_stream_id new \<in> ir_stream_id ` set rows
      then map (\<lambda>r. if ir_stream_id r = ir_stream_id new then mergeRow new r else r) rows
      else rows @ [new])"

definition withTable :: "string \<Rightarrow> (mid_row list \<Rightarrow> mid_row list) \<Rightarrow> unit ix" where
  "withTable name f =
     bindE (getE (\<lambda>w. map_of (ix_tables w) name)) (\<lambda>table. case table of
       None \<Rightarrow> throwE (Err ''no such table'')
     | Some rows \<Rightarrow> modifyE (\<lambda>w. w\<lparr>ix_tables := AList.update name (f rows) (ix_tables w)\<rparr>))"

definition indexStream :: "index_world \<Rightarrow> index_stream_args \<Rightarrow> unit ix" where
  "indexStream iw args =
     (let tableName = idText iw (is_model args) in
      if is_shouldIndex args = Some False then
        withTable tableName (filter (\<lambda>r. ir_stream_id r \<noteq> idText iw (is_streamID args)))
      else if jsNullish (is_streamContent args) then returnE ()
      else
        bindE (getE (\<lambda>w. case map_of (ix_modelRelations w) tableName of None \<Rightarrow> [] | Some rs \<Rightarrow> rs)) (\<lambda>relations.
        withTable tableName (upsertRow (getIndexedData iw args
          (map (\<lambda>r. (addColumnPrefix r, jsGetOpt (is_streamContent args) r)) relations)))))"

section \<open>Queries\<close>

text \<open>The models of a query: the array, or the single model of older clients.\<close>

record query_models =
  qm_models :: "string list option"
  qm_model :: "string option"

definition assertModelIsIndexed :: "index_world \<Rightarrow> index_state \<Rightarrow> stream_id \<Rightarrow> js_error + unit" where
  "assertModelIsIndexed iw w model = throwIf (getIndexedModel w model = None) (Err ''Model is not indexed on this node'')"

definition assertModelQueryable :: "index_world \<Rightarrow> index_state \<Rightarrow> stream_id \<Rightarrow> js_error + unit" where
  "assertModelQueryable iw w model =
     bindR (assertModelIsIndexed iw w model) (\<lambda>_. assertNoOngoingSyncForModel iw model)"

fun collectModels :: "index_world \<Rightarrow> index_state \<Rightarrow> string list \<Rightarrow> string list \<Rightarrow> js_error + string list" where
  "collectModels iw w acc [] = Inr acc"
| "collectModels iw w acc (i # ids) = (case map_of (ix_interfacesModels w) i of
     None \<Rightarrow> collectModels iw w (if i \<in> set acc then acc else acc @ [i]) ids
   | Some interfaceModels \<Rightarrow>
       bindR (mapR (\<lambda>m. bindR (streamIDFromString (ie_codec (iw_env iw)) m) (\<lambda>sid. Inr (m, sid))) interfaceModels) (\<lambda>pairs.
       collectModels iw w (foldl (\<lambda>acc m. if m \<in> set acc then acc else acc @ [m]) acc
         (map fst (filter (\<lambda>(m, sid). getIndexedModel w sid \<noteq> None) pairs))) ids))"

definition getQueryModels :: "index_world \<Rightarrow> index_state \<Rightarrow> query_models \<Rightarrow> js_error + string list" where
  "getQueryModels iw w query =
     bindR (case qm_models query of
         Some (i # ids) \<Rightarrow> Inr (i # ids)
       | _ \<Rightarrow> (case qm_model query of Some m \<Rightarrow> Inr [m] | None \<Rightarrow> Inl (Err ''Missing models values to execute query''))) (\<lambda>ids.
     bindR (collectModels iw w [] ids) (\<lambda>models.
     bindR (forEachR (\<lambda>i. bindR (streamIDFromString (ie_codec (iw_env iw)) i) (assertModelQueryable iw w)) models) (\<lambda>_.
     Inr models)))"

definition countQuery :: "index_world \<Rightarrow> index_state \<Rightarrow> query_models \<Rightarrow> base_query \<Rightarrow> js_error + nat" where
  "countQuery iw w qm query =
     bindR (getQueryModels iw w qm) (\<lambda>models.
     if models = [] then Inr 0
     else bindR (applyFilters (ie_fmt (iw_env iw)) query) (\<lambda>filters. Inr (iw_count iw models filters)))"

definition emptyPage :: index_page where
  "emptyPage = \<lparr>pp_edges = [], pp_hasNextPage = False, pp_hasPreviousPage = False, pp_endCursor = None, pp_startCursor = None\<rparr>"

definition pageQuery :: "index_world \<Rightarrow> index_state \<Rightarrow> query_models \<Rightarrow> base_query \<Rightarrow> pagination \<Rightarrow> js_error + index_page" where
  "pageQuery iw w qm query pagination =
     bindR (getQueryModels iw w qm) (\<lambda>models.
     if models = [] then Inr emptyPage else insertionPage (iw_env iw) models query pagination)"

section \<open>The local index\<close>

text \<open>
  \<open>loadAllModelInterfaces\<close> (\<open>stream-model/src/model.ts\<close>): the interfaces that some interfaces implement,
  and those that these implement. The table of loads under way only avoids that one is loaded twice.
\<close>

definition uniq :: "'a list \<Rightarrow> 'a list" where
  "uniq xs = rev (remdups (rev xs))"

definition loadInterfaceImplements :: "index_world \<Rightarrow> string \<Rightarrow> js_error + string list" where
  "loadInterfaceImplements iw modelID =
     bindR (streamRefFrom (ie_codec (iw_env iw)) (ArgString modelID)) (\<lambda>ref.
     bindR (throwIf (refType ref \<noteq> MODEL_TYPE) (Err ''StreamID does not refer to a 'model' stream'')) (\<lambda>_.
     bindR (iw_loadModel iw ref) (\<lambda>content.
     bindR (jsGet content ''version'') (\<lambda>version.
     bindR (jsGet content ''interface'') (\<lambda>interface.
     bindR (throwIf (jsStrictEq version (Str ''1.0'') \<or> \<not> jsTruthy interface) (Err ''Model is not an interface'')) (\<lambda>_.
     bindR (jsGet content ''implements'') (\<lambda>implements.
     bindR (jsArray (jsNullishOr implements (Arr []))) (\<lambda>vs.
     mapR (\<lambda>v. case v of Str s \<Rightarrow> Inr s | _ \<Rightarrow> Inl TypeErr) vs))))))))"

fun loadAllModelInterfaces :: "nat \<Rightarrow> (string \<Rightarrow> js_error + string list) \<Rightarrow> string list \<Rightarrow> js_error + string list" where
  "loadAllModelInterfaces 0 implementsOf interfaces = Inl Diverged"
| "loadAllModelInterfaces (Suc fuel) implementsOf interfaces =
     bindR (mapR (\<lambda>modelID.
         bindR (implementsOf modelID) (\<lambda>own.
         bindR (loadAllModelInterfaces fuel implementsOf own) (\<lambda>sub. Inr (own @ sub)))) interfaces) (\<lambda>loaded.
     Inr (uniq (interfaces @ concat loaded)))"

text \<open>\<open>_getIndexModelArgs\<close>; \<open>MODEL\<close> is the stream of all models.\<close>

definition getIndexModelArgs :: "index_world \<Rightarrow> stream_id \<times> js \<Rightarrow> js_error + index_model_args" where
  "getIndexModelArgs iw req =
     (let modelStreamId = fst req;
          opts = \<lparr>im_model = modelStreamId, im_relations = None, im_indices = Undef, im_implements = []\<rparr> in
      if sid_type modelStreamId \<noteq> MODEL_TYPE \<and> modelStreamId \<noteq> MODEL_MODEL then Inl (Err ''Cannot index, it is not a Model StreamID'')
      else if sid_type modelStreamId \<noteq> MODEL_TYPE then Inr opts
      else
        bindR (iw_loadModel iw (RefStream modelStreamId)) (\<lambda>content.
        bindR (assertVersionValid (ie_fmt (iw_env iw)) content SatisfiesMajor) (\<lambda>_.
        bindR (jsGet content ''interface'') (\<lambda>interface.
        bindR (throwIf (jsTruthy interface) (Err ''Model is an interface and cannot be indexed'')) (\<lambda>_.
        bindR (jsGet content ''relations'') (\<lambda>relations.
        bindR (jsGet content ''implements'') (\<lambda>implements.
        bindR (if jsTruthy implements
               then bindR (jsArray implements) (\<lambda>vs.
                    bindR (mapR (\<lambda>v. case v of Str s \<Rightarrow> Inr s | _ \<Rightarrow> Inl TypeErr) vs) (\<lambda>ids.
                    loadAllModelInterfaces (iw_fuel iw) (loadInterfaceImplements iw) ids))
               else Inr []) (\<lambda>all.
        Inr (opts\<lparr>im_relations := (if jsTruthy relations then Some (jsKeys relations) else None),
          im_implements := all, im_indices := snd req\<rparr>)))))))))"

definition shouldIndexStream :: "index_state \<Rightarrow> stream_id \<Rightarrow> bool" where
  "shouldIndexStream w model \<longleftrightarrow> (\<exists>idx \<in> set (ix_indexedModels w). fst idx = model)"

definition localIndexStream :: "index_world \<Rightarrow> index_stream_args \<Rightarrow> unit ix" where
  "localIndexStream iw args w = (if shouldIndexStream w (is_model args) then indexStream iw args w else (Inr (), w))"

definition convertModelData :: "index_world \<Rightarrow> (stream_id \<times> js) list \<Rightarrow> stream_id \<times> js \<Rightarrow> js_error + index_model_args" where
  "convertModelData iw modelsNoLongerIndexed modelData =
     bindR (throwIf (\<exists>old \<in> set modelsNoLongerIndexed. fst old = fst modelData) (Err ''Cannot re-index model, data may not be up-to-date'')) (\<lambda>_.
     getIndexModelArgs iw modelData)"

definition localIndexModels :: "index_world \<Rightarrow> (stream_id \<times> js) list \<Rightarrow> unit ix" where
  "localIndexModels iw models =
     bindE (\<lambda>w. (modelsFromDatabase iw False w, w)) (\<lambda>modelsNoLongerIndexed.
     bindE (liftE (mapR (convertModelData iw modelsNoLongerIndexed) models)) (indexModels iw))"

definition localInit :: "index_world \<Rightarrow> unit ix" where
  "localInit iw =
     bindE (initIndex iw) (\<lambda>_. bindE (getE ix_indexedModels) (localIndexModels iw))"

text \<open>A page of stream states; a state that is missing is \<open>null\<close>.\<close>

definition localQuery :: "index_world \<Rightarrow> (stream_id \<Rightarrow> js_error + 's option) \<Rightarrow> index_state \<Rightarrow> query_models \<Rightarrow> base_query \<Rightarrow>
    pagination \<Rightarrow> js_error + (string \<times> 's option) list \<times> index_page" where
  "localQuery iw loadStreamState w qm query pagination =
     bindR (pageQuery iw w qm query pagination) (\<lambda>page.
     bindR (mapR (\<lambda>e. bindR (loadStreamState (ed_node e)) (\<lambda>node. Inr (ed_cursor e, node))) (pp_edges page)) (\<lambda>edges.
     Inr (edges, page)))"

section \<open>The invariant of the index\<close>

definition validId :: "codec_lib \<Rightarrow> stream_id \<Rightarrow> bool" where
  "validId lib sid \<longleftrightarrow> sid_type sid < maxSafe \<and> isCidV1 lib (sid_cid sid)"

definition indexedRow :: "index_state \<Rightarrow> string \<Rightarrow> bool" where
  "indexedRow w k \<longleftrightarrow> (\<exists>c. map_of (ix_models w) k = Some c \<and> mc_is_indexed c)"

text \<open>
  The rows of models are named by StreamIDs; a model in memory is marked as indexed in the database; a
  marked model has a table; no table has two rows for a stream.
\<close>

definition indexInv :: "codec_lib \<Rightarrow> index_state \<Rightarrow> bool" where
  "indexInv lib w \<longleftrightarrow>
     distinct (map fst (ix_models w)) \<and>
     (\<forall>k \<in> fst ` set (ix_models w). \<exists>sid. validId lib sid \<and> k = streamIDToString lib sid) \<and>
     (\<forall>m \<in> set (ix_indexedModels w). validId lib (fst m) \<and> indexedRow w (streamIDToString lib (fst m))) \<and>
     (\<forall>k. indexedRow w k \<longrightarrow> map_of (ix_tables w) k \<noteq> None) \<and>
     (\<forall>k rows. map_of (ix_tables w) k = Some rows \<longrightarrow> distinct (map ir_stream_id rows))"

definition laterIndex :: "index_state \<Rightarrow> index_state \<Rightarrow> bool" where
  "laterIndex v w \<longleftrightarrow> (\<forall>k. indexedRow v k \<longrightarrow> indexedRow w k)"

interpretation ixs: later_states "indexInv lib" laterIndex for lib
  by unfold_locales (auto simp: laterIndex_def)

lemma upsertModel_map: "map_of (upsertModel m ind b rows) k = (if k = m then Some (case map_of rows m of
    Some c \<Rightarrow> c\<lparr>mc_is_indexed := b\<rparr> | None \<Rightarrow> \<lparr>mc_indices = ind, mc_is_indexed = b\<rparr>) else map_of rows k)"
  by (auto simp: upsertModel_def update_conv' map_add_def split: option.split)

lemma upsertModel_keys: "fst ` set (upsertModel m ind b rows) = insert m (fst ` set rows)"
  by (auto simp: upsertModel_def dom_update update_keys split: option.split)

lemma upsertModel_distinct: "distinct (map fst rows) \<Longrightarrow> distinct (map fst (upsertModel m ind b rows))"
  by (auto simp: upsertModel_def distinct_update map_of_eq_None_iff split: option.split)

lemma validId_inject:
  assumes "codec_lib_ok lib" and "validId lib a" and "validId lib b" and "streamIDToString lib a = streamIDToString lib b"
  shows "a = b"
proof -
  have "Inr a = streamIDFromString lib (streamIDToString lib a)" "streamIDFromString lib (streamIDToString lib b) = Inr b"
    using streamIDFromString_toString [OF assms(1)] assms(2,3) by (simp_all add: validId_def)
  then show ?thesis unfolding assms(4) by simp
qed

lemma indexedRow_upsert: "indexedRow (w\<lparr>ix_models := upsertModel m ind b (ix_models w)\<rparr>) k \<longleftrightarrow>
    (if k = m then b else indexedRow w k)"
  by (auto simp: indexedRow_def upsertModel_map split: option.split)

lemma indexedRow_only: "ix_models v = ix_models w \<Longrightarrow> indexedRow v k \<longleftrightarrow> indexedRow w k"
  by (simp add: indexedRow_def)

lemma indexedRow_fields [simp]:
  "indexedRow (w\<lparr>ix_tables := ts\<rparr>) = indexedRow w" "indexedRow (w\<lparr>ix_implements := is\<rparr>) = indexedRow w"
  "indexedRow (w\<lparr>ix_indexedModels := ms\<rparr>) = indexedRow w" "indexedRow (w\<lparr>ix_modelRelations := rs\<rparr>) = indexedRow w"
  "indexedRow (w\<lparr>ix_interfacesModels := im\<rparr>) = indexedRow w"
  by (simp_all add: fun_eq_iff indexedRow_def)

lemma indexModelImplements_only:
  "ix_models (indexModelImplements iw args w) = ix_models w" "ix_tables (indexModelImplements iw args w) = ix_tables w"
  "ix_indexedModels (indexModelImplements iw args w) = ix_indexedModels w"
proof -
  have "ix_models (fold (\<lambda>i w. let w' = addModelImplements m i w in w'\<lparr>ix_implements := List.insert (i, m) (ix_implements w')\<rparr>) is w) = ix_models w \<and>
      ix_tables (fold (\<lambda>i w. let w' = addModelImplements m i w in w'\<lparr>ix_implements := List.insert (i, m) (ix_implements w')\<rparr>) is w) = ix_tables w \<and>
      ix_indexedModels (fold (\<lambda>i w. let w' = addModelImplements m i w in w'\<lparr>ix_implements := List.insert (i, m) (ix_implements w')\<rparr>) is w) = ix_indexedModels w" for m "is"
    by (induction "is" arbitrary: w) (simp_all add: Let_def addModelImplements_def)
  then show "ix_models (indexModelImplements iw args w) = ix_models w" "ix_tables (indexModelImplements iw args w) = ix_tables w"
    "ix_indexedModels (indexModelImplements iw args w) = ix_indexedModels w"
    by (simp_all add: indexModelImplements_def Let_def)
qed

lemma implements_only:
  "ix_models (fold (indexModelImplements iw) ms w) = ix_models w" "ix_tables (fold (indexModelImplements iw) ms w) = ix_tables w"
  "ix_indexedModels (fold (indexModelImplements iw) ms w) = ix_indexedModels w"
  by (induction ms arbitrary: w) (simp_all add: indexModelImplements_only)

lemma indexInv_only:
  "indexInv lib w \<Longrightarrow> ix_models v = ix_models w \<Longrightarrow> ix_tables v = ix_tables w \<Longrightarrow> ix_indexedModels v = ix_indexedModels w \<Longrightarrow> indexInv lib v"
  by (simp add: indexInv_def indexedRow_only [of v w])

lemma upsertModel_inv:
  assumes "indexInv lib w" and "validId lib sid" and "b \<longrightarrow> map_of (ix_tables w) (streamIDToString lib sid) \<noteq> None"
    and "\<not> b \<longrightarrow> sid \<notin> fst ` set (ix_indexedModels w)" and "codec_lib_ok lib"
  shows "indexInv lib (w\<lparr>ix_models := upsertModel (streamIDToString lib sid) ind b (ix_models w)\<rparr>)"
proof -
  have "streamIDToString lib (fst m) \<noteq> streamIDToString lib sid" if "m \<in> set (ix_indexedModels w)" "\<not> b" for m
    using that assms(1,2,4) validId_inject [OF assms(5), of "fst m" sid] by (auto simp: indexInv_def)
  with assms(1-3) show ?thesis
    by (auto simp: indexInv_def indexedRow_upsert upsertModel_keys upsertModel_distinct)
qed

lemma initMidTable_map: "map_of (initMidTable m tables) k = (if k = m \<and> map_of tables m = None then Some [] else map_of tables k)"
  by (auto simp: initMidTable_def map_add_def split: option.split)

lemma initMidTables: "map_of (fold (\<lambda>a. initMidTable (f a)) ms tables) k =
    (case map_of tables k of Some rows \<Rightarrow> Some rows | None \<Rightarrow> if k \<in> f ` set ms then Some [] else None)"
  by (induction ms arbitrary: tables) (auto simp: initMidTable_map split: option.splits)

lemma tables_inv:
  assumes "indexInv lib w"
  shows "indexInv lib (w\<lparr>ix_tables := fold (\<lambda>args. initMidTable (f args)) ms (ix_tables w)\<rparr>)"
  using assms by (auto simp: indexInv_def initMidTables split: option.splits if_splits)

lemma indexModelRows_inv:
  assumes "indexInv lib w" and "codec_lib_ok lib" and "ie_codec (iw_env iw) = lib"
    and "\<forall>a \<in> set ms. validId lib (im_model a) \<and> map_of (ix_tables w) (streamIDToString lib (im_model a)) \<noteq> None"
  shows "indexInv lib (fold (indexModelRow iw) ms w) \<and> ix_tables (fold (indexModelRow iw) ms w) = ix_tables w \<and>
    laterIndex w (fold (indexModelRow iw) ms w) \<and> (\<forall>a \<in> set ms. indexedRow (fold (indexModelRow iw) ms w) (streamIDToString lib (im_model a)))"
  using assms(1,4)
proof (induction ms arbitrary: w)
  case (Cons a ms)
  let ?w = "indexModelRow iw a w"
  have w: "?w = w\<lparr>ix_models := upsertModel (streamIDToString lib (im_model a)) (if jsTruthy (im_indices a) then im_indices a else Null) True (ix_models w)\<rparr>"
    using assms(3) by (simp add: indexModelRow_def idText_def)
  have inv: "indexInv lib ?w" unfolding w by (rule upsertModel_inv [OF Cons.prems(1)]) (use Cons.prems(2) assms(2) in simp_all)
  have row: "indexedRow ?w k \<longleftrightarrow> k = streamIDToString lib (im_model a) \<or> indexedRow w k" for k
    unfolding w indexedRow_upsert by simp
  from Cons.IH [OF inv] Cons.prems(2) row show ?case
    by (auto simp: w [symmetric] laterIndex_def) (simp_all add: w)
qed (simp add: laterIndex_def)

lemma indexModelsInDatabase_safe:
  assumes lib: "codec_lib_ok lib" "ie_codec (iw_env iw) = lib" and ids: "\<forall>a \<in> set ms. validId lib (im_model a)"
  shows "ixs.safely lib (\<lambda>_. True) (indexModelsInDatabase iw ms)
    (\<lambda>_ w. \<forall>a \<in> set ms. indexedRow w (streamIDToString lib (im_model a)))"
  unfolding indexModelsInDatabase_def
proof (rule ixs.safely_if)
  assume "ms = []"
  then show "ixs.safely lib (\<lambda>_. True) (returnE ()) (\<lambda>_ w. \<forall>a \<in> set ms. indexedRow w (streamIDToString lib (im_model a)))"
    by (simp add: ixs.safely_return)
next
  let ?P = "\<lambda>w. \<forall>a \<in> set ms. map_of (ix_tables w) (streamIDToString lib (im_model a)) \<noteq> None"
  show "ixs.safely lib (\<lambda>_. True) (bindE (modifyE (\<lambda>w. w\<lparr>ix_tables := fold (\<lambda>args. initMidTable (idText iw (im_model args))) ms (ix_tables w)\<rparr>))
      (\<lambda>_. bindE (liftE (iw_verifyTables iw ms)) (\<lambda>_. modifyE (\<lambda>w. fold (indexModelImplements iw) ms (fold (indexModelRow iw) ms w)))))
    (\<lambda>_ w. \<forall>a \<in> set ms. indexedRow w (streamIDToString lib (im_model a)))"
  proof (rule ixs.safely_bind [where R = "\<lambda>_. ?P"])
    show "ixs.safely lib (\<lambda>_. True) (modifyE (\<lambda>w. w\<lparr>ix_tables := fold (\<lambda>args. initMidTable (idText iw (im_model args))) ms (ix_tables w)\<rparr>)) (\<lambda>_. ?P)"
      by (rule ixs.safely_modify) (auto simp: tables_inv laterIndex_def initMidTables idText_def lib(2) split: option.splits)
    show "ixs.safely lib ?P (bindE (liftE (iw_verifyTables iw ms)) (\<lambda>_. modifyE (\<lambda>w. fold (indexModelImplements iw) ms (fold (indexModelRow iw) ms w))))
        (\<lambda>_ w. \<forall>a \<in> set ms. indexedRow w (streamIDToString lib (im_model a)))"
    proof (rule ixs.safely_bind [where R = "\<lambda>_. ?P"])
      show "ixs.safely lib ?P (liftE (iw_verifyTables iw ms)) (\<lambda>_. ?P)" by (rule ixs.safely_lift)
    next
      fix u :: unit
      show "ixs.safely lib ?P (modifyE (\<lambda>w. fold (indexModelImplements iw) ms (fold (indexModelRow iw) ms w)))
          (\<lambda>_ w. \<forall>a \<in> set ms. indexedRow w (streamIDToString lib (im_model a)))"
      proof (rule ixs.safely_modify)
        fix w assume "indexInv lib w" "?P w"
        with ids indexModelRows_inv [OF _ lib(1,2), of w ms]
        have rows: "indexInv lib (fold (indexModelRow iw) ms w)" "laterIndex w (fold (indexModelRow iw) ms w)"
          "\<forall>a \<in> set ms. indexedRow (fold (indexModelRow iw) ms w) (streamIDToString lib (im_model a))" by blast+
        show "indexInv lib (fold (indexModelImplements iw) ms (fold (indexModelRow iw) ms w)) \<and>
            laterIndex w (fold (indexModelImplements iw) ms (fold (indexModelRow iw) ms w)) \<and>
            (\<forall>a \<in> set ms. indexedRow (fold (indexModelImplements iw) ms (fold (indexModelRow iw) ms w)) (streamIDToString lib (im_model a)))"
          using rows indexInv_only [OF rows(1) implements_only] by (simp add: laterIndex_def indexedRow_only [OF implements_only(1)])
      qed
    qed
  qed
qed

lemma registerModel_safe:
  assumes "codec_lib_ok lib" and "ie_codec (iw_env iw) = lib" and "validId lib (im_model a)"
  shows "ixs.safely lib (\<lambda>w. indexedRow w (streamIDToString lib (im_model a))) (registerModel iw a) (\<lambda>_ _. True)"
  unfolding registerModel_def
proof (rule ixs.safely_bind [where R = "\<lambda>_ w. indexedRow w (streamIDToString lib (im_model a))"])
  fix u :: unit
  show "ixs.safely lib (\<lambda>w. indexedRow w (streamIDToString lib (im_model a))) (modifyE (\<lambda>w.
       let w1 = (if getIndexedModel w (im_model a) = None
                 then w\<lparr>ix_indexedModels := ix_indexedModels w @ [(im_model a, im_indices a)]\<rparr> else w)
       in case im_relations a of
            Some relations \<Rightarrow> w1\<lparr>ix_modelRelations := AList.update (idText iw (im_model a)) relations (ix_modelRelations w1)\<rparr>
          | None \<Rightarrow> w1)) (\<lambda>_ _. True)"
    by (rule ixs.safely_modify) (use assms(3) in \<open>auto simp: indexInv_def laterIndex_def Let_def split: option.split\<close>)
qed (simp add: ixs.safely_lift)

lemma indexModels_safe:
  assumes "codec_lib_ok lib" and "ie_codec (iw_env iw) = lib" and "\<forall>a \<in> set ms. validId lib (im_model a)"
  shows "ixs.safely lib (\<lambda>_. True) (indexModels iw ms) (\<lambda>_ _. True)"
  unfolding indexModels_def
proof (rule ixs.safely_bind [OF indexModelsInDatabase_safe [OF assms]])
  fix u :: unit
  let ?P = "\<lambda>w. \<forall>a \<in> set ms. indexedRow w (streamIDToString lib (im_model a))"
  show "ixs.safely lib ?P (forE (registerModel iw) ms) (\<lambda>_ _. True)"
  proof (rule ixs.safely_for)
    show "ixs.safely lib ?P (registerModel iw a) (\<lambda>_ _. True)" if "a \<in> set ms" for a
      by (rule ixs.safely_weaken [OF registerModel_safe [OF assms(1,2)]]) (use that assms(3) in auto)
  qed (simp add: laterIndex_def)
qed

lemma convertModelData_model: "convertModelData iw old md = Inr a \<Longrightarrow> im_model a = fst md"
  by (auto simp: convertModelData_def getIndexModelArgs_def Let_def res_simps split: if_splits)

lemma localIndexModels_safe:
  assumes "codec_lib_ok lib" and "ie_codec (iw_env iw) = lib"
  shows "ixs.safely lib (\<lambda>_. \<forall>m \<in> set ms. validId lib (fst m)) (localIndexModels iw ms) (\<lambda>_ _. True)"
proof (cases "\<forall>m \<in> set ms. validId lib (fst m)")
  case True
  have "ixs.safely lib (\<lambda>_. True) (localIndexModels iw ms) (\<lambda>_ _. True)"
    unfolding localIndexModels_def
  proof (rule ixs.safely_bind [where R = "\<lambda>_ _. True"])
    fix old
    show "ixs.safely lib (\<lambda>_. True) (bindE (liftE (mapR (convertModelData iw old) ms)) (indexModels iw)) (\<lambda>_ _. True)"
    proof (cases "mapR (convertModelData iw old) ms")
      case (Inr args)
      have args: "list_all2 (\<lambda>m a. im_model a = fst m) ms args"
        by (rule mapR_all2 [OF Inr]) (rule convertModelData_model)
      from args True have "\<forall>a \<in> set args. validId lib (im_model a)" by (induction rule: list_all2_induct) auto
      with Inr indexModels_safe [OF assms] show ?thesis by simp
    qed (simp add: ixs.safely_throw)
  qed (simp add: keeps_def laterIndex_def)
  with True show ?thesis by simp
qed (auto simp: keeps_def)

lemma modelsFromDatabase_rows:
  assumes "indexInv lib w" and "codec_lib_ok lib" and "ie_codec (iw_env iw) = lib" and "modelsFromDatabase iw b w = Inr ms" and "m \<in> set ms"
  shows "validId lib (fst m) \<and> (\<exists>c. map_of (ix_models w) (streamIDToString lib (fst m)) = Some c \<and> mc_is_indexed c = b)"
proof -
  let ?rows = "filter (\<lambda>(model, c). mc_is_indexed c = b) (ix_models w)"
  have la: "list_all2 (\<lambda>r m. streamIDFromString lib (fst r) = Inr (fst m)) ?rows ms"
    using assms(4) unfolding modelsFromDatabase_def by (rule mapR_all2) (auto simp: res_simps assms(3))
  from assms(5) obtain i where i: "i < length ms" "m = ms ! i" by (auto simp: in_set_conv_nth)
  with la have "?rows ! i \<in> set ?rows" "streamIDFromString lib (fst (?rows ! i)) = Inr (fst m)"
    by (auto simp only: list_all2_conv_all_nth intro!: nth_mem)
  then obtain r where "r \<in> set ?rows" "streamIDFromString lib (fst r) = Inr (fst m)" by metis
  then obtain k c where kc: "(k, c) \<in> set (ix_models w)" "mc_is_indexed c = b" "streamIDFromString lib k = Inr (fst m)"
    by (cases r rule: prod.exhaust) auto
  then obtain sid where sid: "validId lib sid" "k = streamIDToString lib sid"
    using assms(1) by (force simp: indexInv_def)
  with kc(3) streamIDFromString_toString [OF assms(2), of sid] have "sid = fst m" by (simp add: validId_def)
  with sid kc assms(1) show ?thesis by (auto simp: indexInv_def)
qed

lemma initIndex_safe:
  assumes "codec_lib_ok lib" and "ie_codec (iw_env iw) = lib"
  shows "ixs.safely lib (\<lambda>_. True) (initIndex iw) (\<lambda>_ _. True)"
proof (rule keepsI)
  fix w assume inv: "indexInv lib w"
  show "indexInv lib (snd (initIndex iw w)) \<and> laterIndex w (snd (initIndex iw w)) \<and> (\<forall>x. fst (initIndex iw w) = Inr x \<longrightarrow> True)"
  proof (cases "modelsFromDatabase iw True w")
    case (Inl e)
    with inv show ?thesis by (simp add: initIndex_def bindE_def laterIndex_def)
  next
    case (Inr ms)
    from modelsFromDatabase_rows [OF inv assms Inr] have
      "\<forall>m \<in> set ms. validId lib (fst m) \<and> indexedRow w (streamIDToString lib (fst m))" by (auto simp: indexedRow_def)
    with inv Inr show ?thesis
      by (simp add: initIndex_def bindE_def modifyE_def laterIndex_def indexInv_def)
  qed
qed

lemma localInit_safe:
  assumes "codec_lib_ok lib" and "ie_codec (iw_env iw) = lib"
  shows "ixs.safely lib (\<lambda>_. True) (localInit iw) (\<lambda>_ _. True)"
  unfolding localInit_def
proof (rule ixs.safely_bind [OF initIndex_safe [OF assms]])
  fix u :: unit
  show "ixs.safely lib (\<lambda>_. True) (bindE (getE ix_indexedModels) (localIndexModels iw)) (\<lambda>_ _. True)"
  proof (rule ixs.safely_bind [where R = "\<lambda>ms _. \<forall>m \<in> set ms. validId lib (fst m)"])
    show "ixs.safely lib (\<lambda>_. True) (getE ix_indexedModels) (\<lambda>ms _. \<forall>m \<in> set ms. validId lib (fst m))"
      by (rule ixs.safely_get) (simp add: indexInv_def)
  qed (rule localIndexModels_safe [OF assms])
qed

lemma stopIndexing_inv:
  assumes inv: "indexInv lib w" and lib: "codec_lib_ok lib" "ie_codec (iw_env iw) = lib" and ids: "\<forall>m \<in> set ms. validId lib m"
  shows "indexInv lib (snd (stopIndexingModels iw ms w))"
proof -
  let ?w = "w\<lparr>ix_indexedModels := filter (\<lambda>idx. fst idx \<notin> set ms) (ix_indexedModels w)\<rparr>"
  have "indexInv lib (v\<lparr>ix_models := fold (\<lambda>m. upsertModel (streamIDToString lib m) Null False) ns (ix_models v)\<rparr>)"
    if "indexInv lib v" "set ns \<inter> fst ` set (ix_indexedModels v) = {}" "\<forall>m \<in> set ns. validId lib m" for ns v
    using that
  proof (induction ns arbitrary: v)
    case (Cons n ns)
    let ?v = "v\<lparr>ix_models := upsertModel (streamIDToString lib n) Null False (ix_models v)\<rparr>"
    have "indexInv lib ?v" by (rule upsertModel_inv [OF Cons.prems(1)]) (use Cons.prems lib in auto)
    from Cons.IH [OF this] Cons.prems show ?case by simp
  qed simp
  note rows = this [of ?w ms]
  have "indexInv lib ?w" using inv by (auto simp: indexInv_def)
  with rows have "indexInv lib (?w\<lparr>ix_models := fold (\<lambda>m. upsertModel (streamIDToString lib m) Null False) ms (ix_models ?w)\<rparr>)"
    using ids by auto
  from indexInv_only [OF this] show ?thesis by (simp add: stopIndexingModels_def modifyE_def bindE_def idText_def lib(2))
qed

lemma upsertRow_distinct: "distinct (map ir_stream_id rows) \<Longrightarrow> distinct (map ir_stream_id (upsertRow new rows))"
proof -
  have "map ir_stream_id (map (\<lambda>r. if ir_stream_id r = ir_stream_id new then mergeRow new r else r) rows) = map ir_stream_id rows"
    by (simp add: mergeRow_def)
  then show "distinct (map ir_stream_id rows) \<Longrightarrow> distinct (map ir_stream_id (upsertRow new rows))"
    unfolding upsertRow_def by (auto simp del: map_map)
qed

lemma localIndexStream_inv:
  assumes inv: "indexInv lib w"
  shows "indexInv lib (snd (localIndexStream iw args w))"
proof -
  have table: "indexInv lib (snd (withTable name f w))" if "\<And>rows. distinct (map ir_stream_id rows) \<Longrightarrow> distinct (map ir_stream_id (f rows))" for name f
    using inv that by (auto simp: withTable_def indexInv_def update_conv' ef_simps split: option.split)
  have "snd (bindE (getE g) h w) = snd (h (g w) w)" for g and h :: "'x \<Rightarrow> unit ix" by simp
  moreover have "distinct (map ir_stream_id (filter P rows))" if "distinct (map ir_stream_id rows)" for P and rows :: "mid_row list"
    using that by (rule distinct_map_filter)
  ultimately show ?thesis using inv
    by (auto simp: localIndexStream_def indexStream_def Let_def ef_simps intro!: table upsertRow_distinct)
qed

text \<open>
  The operations on the index of a node: models are added and removed by its operator, streams are
  indexed as they change, and the node restarts. The surroundings differ from step to step.
\<close>

inductive indexStep :: "codec_lib \<Rightarrow> index_state \<Rightarrow> index_state \<Rightarrow> bool" for lib where
  stepIndexModels: "ie_codec (iw_env iw) = lib \<Longrightarrow> \<forall>m \<in> set ms. validId lib (fst m) \<Longrightarrow>
    indexStep lib w (snd (localIndexModels iw ms w))"
| stepStopIndexing: "ie_codec (iw_env iw) = lib \<Longrightarrow> \<forall>m \<in> set ms. validId lib m \<Longrightarrow>
    indexStep lib w (snd (stopIndexingModels iw ms w))"
| stepIndexStream: "ie_codec (iw_env iw) = lib \<Longrightarrow> indexStep lib w (snd (localIndexStream iw args w))"
| stepRestart: "ie_codec (iw_env iw) = lib \<Longrightarrow> indexStep lib w (snd (localInit iw
    (w\<lparr>ix_indexedModels := [], ix_modelRelations := [], ix_interfacesModels := []\<rparr>)))"

definition emptyIndex :: index_state where
  "emptyIndex = \<lparr>ix_models = [], ix_implements = [], ix_tables = [], ix_indexedModels = [], ix_modelRelations = [], ix_interfacesModels = []\<rparr>"

lemma indexSteps_inv:
  assumes lib: "codec_lib_ok lib" and "(indexStep lib)\<^sup>*\<^sup>* emptyIndex w"
  shows "indexInv lib w"
  using assms(2)
proof (induction rule: rtranclp_induct)
  case base
  show ?case by (simp add: indexInv_def emptyIndex_def indexedRow_def)
next
  case (step u v)
  from step(2) show ?case
  proof cases
    case (stepIndexModels iw ms)
    with localIndexModels_safe [OF lib] step(3) show ?thesis by (simp add: keeps_def)
  next
    case (stepStopIndexing iw ms)
    with stopIndexing_inv [OF step(3) lib] show ?thesis by simp
  next
    case (stepIndexStream iw args)
    with localIndexStream_inv [OF step(3)] show ?thesis by simp
  next
    case (stepRestart iw)
    have "indexInv lib (u\<lparr>ix_indexedModels := [], ix_modelRelations := [], ix_interfacesModels := []\<rparr>)"
      using step(3) by (simp add: indexInv_def)
    with stepRestart localInit_safe [OF lib] show ?thesis by (simp add: keeps_def)
  qed
qed

interpretation ixm: later_states "\<lambda>_. True" "\<lambda>v w. set (ix_indexedModels v) \<subseteq> set (ix_indexedModels w)"
  by unfold_locales auto

lemma fold_keeps_models: "(\<And>x w. ix_indexedModels (f x w) = ix_indexedModels w) \<Longrightarrow> ix_indexedModels (fold f xs w) = ix_indexedModels w"
  by (induction xs arbitrary: w) simp_all

lemma localIndexModels_keeps: "ixm.safely (\<lambda>_. True) (localIndexModels iw ms) (\<lambda>_ _. True)"
proof -
  have register: "ixm.safely (\<lambda>_. True) (registerModel iw a) (\<lambda>_ _. True)" for a
    unfolding registerModel_def
    by (rule ixm.safely_bind [where R = "\<lambda>_ _. True"]) (auto intro!: ixm.safely_lift ixm.safely_modify simp: Let_def split: option.split)
  have index: "ixm.safely (\<lambda>_. True) (indexModelsInDatabase iw as) (\<lambda>_ _. True)" for as
    unfolding indexModelsInDatabase_def
    by (rule ixm.safely_if ixm.safely_bind [where R = "\<lambda>_ _. True"] ixm.safely_return ixm.safely_lift ixm.safely_modify | simp add: implements_only fold_keeps_models indexModelRow_def)+
  have "ixm.safely (\<lambda>_. True) (indexModels iw as) (\<lambda>_ _. True)" for as
    unfolding indexModels_def by (rule ixm.safely_bind [OF index]) (rule ixm.safely_for [OF register])
  then have "ixm.safely (\<lambda>_. True) (bindE (liftE r) (indexModels iw)) (\<lambda>_ _. True)" for r
    by (cases r) (simp_all add: ixm.safely_throw)
  note rest = this
  show ?thesis
    unfolding localIndexModels_def
  proof (rule ixm.safely_bind [where R = "\<lambda>_ _. True"])
    show "ixm.safely (\<lambda>_. True) (\<lambda>w. (modelsFromDatabase iw False w, w)) (\<lambda>_ _. True)" by (simp add: keeps_def)
  qed (rule rest)
qed

lemma mapR_member: "mapR f xs = Inr ys \<Longrightarrow> x \<in> set xs \<Longrightarrow> \<exists>y \<in> set ys. f x = Inr y"
  by (induction xs arbitrary: ys) (auto simp: res_simps)

lemma modelsFromDatabase_all:
  assumes "indexInv lib w" and "codec_lib_ok lib" and "ie_codec (iw_env iw) = lib"
  shows "\<exists>ms. modelsFromDatabase iw b w = Inr ms \<and> (\<forall>sid c. validId lib sid \<longrightarrow>
    map_of (ix_models w) (streamIDToString lib sid) = Some c \<longrightarrow> mc_is_indexed c = b \<longrightarrow> sid \<in> fst ` set ms)"
proof -
  have read: "\<exists>sid. streamIDFromString lib (fst r) = Inr sid" if "r \<in> set (ix_models w)" for r
    using assms(1) that streamIDFromString_toString [OF assms(2)] by (fastforce simp: indexInv_def validId_def)
  have rows: "\<exists>ms. mapR (\<lambda>(model, c). bindR (streamIDFromString lib model) (\<lambda>sid. Inr (sid, if jsTruthy (mc_indices c) then mc_indices c else Undef))) rows = Inr ms"
    if "set rows \<subseteq> set (ix_models w)" for rows
    using that
  proof (induction rows)
    case (Cons r rows)
    then obtain ms where "mapR (\<lambda>(model, c). bindR (streamIDFromString lib model) (\<lambda>sid. Inr (sid, if jsTruthy (mc_indices c) then mc_indices c else Undef))) rows = Inr ms"
      by auto
    moreover have "\<exists>sid. streamIDFromString lib (fst r) = Inr sid" using Cons.prems by (intro read) simp
    ultimately show ?case by (cases r rule: prod.exhaust) auto
  qed simp
  obtain ms where ms: "modelsFromDatabase iw b w = Inr ms"
    using rows [OF filter_is_subset] unfolding modelsFromDatabase_def assms(3) by blast
  have "sid \<in> fst ` set ms" if "validId lib sid" "map_of (ix_models w) (streamIDToString lib sid) = Some c" "mc_is_indexed c = b" for sid c
  proof -
    have "(streamIDToString lib sid, c) \<in> set (filter (\<lambda>(model, c). mc_is_indexed c = b) (ix_models w))"
      using that map_of_SomeD by auto
    from mapR_member [OF ms [unfolded modelsFromDatabase_def] this] that(1) streamIDFromString_toString [OF assms(2), of sid]
    show ?thesis by (force simp: assms(3) validId_def)
  qed
  with ms show ?thesis by blast
qed


lemma uniq_set [simp]: "set (uniq xs) = set xs"
  by (simp add: uniq_def)


lemma upsertRow_rows:
  assumes "distinct (map ir_stream_id rows)"
  shows "filter (\<lambda>r. ir_stream_id r \<noteq> ir_stream_id new) (upsertRow new rows) = filter (\<lambda>r. ir_stream_id r \<noteq> ir_stream_id new) rows"
    and "filter (\<lambda>r. ir_stream_id r = ir_stream_id new) (upsertRow new rows) =
      (case filter (\<lambda>r. ir_stream_id r = ir_stream_id new) rows of [] \<Rightarrow> [new] | old # _ \<Rightarrow> [mergeRow new old])"
proof -
  have merged: "filter (\<lambda>r. ir_stream_id r \<noteq> k) (map (\<lambda>r. if ir_stream_id r = k then mergeRow new r else r) rows) = filter (\<lambda>r. ir_stream_id r \<noteq> k) rows"
    if "k = ir_stream_id new" for k
    using that by (induction rows) (auto simp: mergeRow_def)
  then show "filter (\<lambda>r. ir_stream_id r \<noteq> ir_stream_id new) (upsertRow new rows) = filter (\<lambda>r. ir_stream_id r \<noteq> ir_stream_id new) rows"
    by (simp add: upsertRow_def)
  have id: "ir_stream_id (mergeRow new r) = ir_stream_id new" for r by (simp add: mergeRow_def)
  from assms show "filter (\<lambda>r. ir_stream_id r = ir_stream_id new) (upsertRow new rows) =
      (case filter (\<lambda>r. ir_stream_id r = ir_stream_id new) rows of [] \<Rightarrow> [new] | old # _ \<Rightarrow> [mergeRow new old])"
  proof (induction rows)
    case (Cons r rows)
    show ?case
    proof (cases "ir_stream_id r = ir_stream_id new")
      case True
      with Cons.prems have "\<forall>s \<in> set rows. ir_stream_id s \<noteq> ir_stream_id new" by (metis distinct.simps(2) image_eqI list.set_map list.simps(9))
      with True show ?thesis by (simp add: upsertRow_def id filter_empty_conv)
    next
      case False
      with Cons show ?thesis by (auto simp: upsertRow_def id split: list.splits if_splits)
    qed
  qed (simp add: upsertRow_def)
qed

text \<open>A node with one model and one stream of it.\<close>

definition sampleModelId :: stream_id where
  "sampleModelId = StreamID 2 (sampleCid [9])"

definition sampleIndexWorld :: index_world where
  "sampleIndexWorld = \<lparr>iw_env = sampleIndex, iw_backend = Sqlite, iw_now = 100, iw_cidString = (\<lambda>_. ''tip''),
     iw_allowQueriesBeforeHistoricalSync = True, iw_syncComplete = (\<lambda>_. False), iw_verifyTables = (\<lambda>_. Inr ()),
     iw_count = (\<lambda>_ _. 0), iw_loadModel = (\<lambda>_. Inr (Obj [(''version'', Str ''2.0''), (''interface'', Bool False)])), iw_fuel = 5\<rparr>"

definition sampleStreamArgs :: index_stream_args where
  "sampleStreamArgs = \<lparr>is_streamID = StreamID 3 (sampleCid [4]), is_model = sampleModelId, is_controller = ''did:1'',
     is_streamContent = Obj [(''a'', Num 1)], is_tip = CID [1], is_lastAnchor = None, is_firstAnchor = None,
     is_shouldIndex = None, is_createdAt = None, is_updatedAt = None\<rparr>"

definition sampleIndexed :: index_state where
  "sampleIndexed = snd (localIndexModels sampleIndexWorld [(sampleModelId, Undef)] emptyIndex)"

lemma sampleIndexWorld_codec: "ie_codec (iw_env sampleIndexWorld) = sampleLib"
  by (simp add: sampleIndexWorld_def sampleIndex_def)

lemma sampleModelId_valid: "validId sampleLib sampleModelId"
  by (simp add: validId_def sampleModelId_def maxSafe_def sampleCid_v1)

lemma sampleIndexed_run: "(indexStep sampleLib)\<^sup>*\<^sup>* emptyIndex sampleIndexed"
  unfolding sampleIndexed_def
  by (rule r_into_rtranclp, rule stepIndexModels) (simp_all add: sampleIndexWorld_codec sampleModelId_valid)

lemma sampleIndexed_state: "ix_indexedModels sampleIndexed = [(sampleModelId, Undef)]"
  by code_simp

section \<open>Properties\<close>

text \<open>
  C26: A query reads only what is indexed. After any sequence of adding and removing models, indexing
  streams and restarts, also when some of them fail on the way: every model of the set that a query
  runs on is the StreamID of a model the node indexes, whose history is synced if the node demands it,
  the database has it marked as indexed, its table exists, and no stream has two rows in it.
\<close>

theorem query_reads_indexed:
  assumes "codec_lib_ok lib" and "(indexStep lib)\<^sup>*\<^sup>* emptyIndex w" and "ie_codec (iw_env iw) = lib"
    and "getQueryModels iw w query = Inr models" and "m \<in> set models"
  shows "\<exists>sid rows. streamIDFromString lib m = Inr sid \<and> shouldIndexStream w sid \<and>
    (iw_allowQueriesBeforeHistoricalSync iw \<or> iw_syncComplete iw (idText iw sid)) \<and> indexedRow w (idText iw sid) \<and>
    map_of (ix_tables w) (idText iw sid) = Some rows \<and> distinct (map ir_stream_id rows)"
proof -
  have "forEachR (\<lambda>i. bindR (streamIDFromString (ie_codec (iw_env iw)) i) (assertModelQueryable iw w)) models = Inr ()"
    using assms(4) by (auto simp: getQueryModels_def res_simps)
  then obtain sid where sid: "streamIDFromString lib m = Inr sid" "assertModelQueryable iw w sid = Inr ()"
    using assms(3,5) by (auto simp: res_simps)
  then have ok: "getIndexedModel w sid \<noteq> None" "iw_allowQueriesBeforeHistoricalSync iw \<or> iw_syncComplete iw (idText iw sid)"
    by (auto simp: assertModelQueryable_def assertModelIsIndexed_def assertNoOngoingSyncForModel_def res_simps)
  from ok(1) have idx: "\<exists>x \<in> set (ix_indexedModels w). fst x = sid" unfolding getIndexedModel_def find_None_iff by blast
  with indexSteps_inv [OF assms(1,2)] have "indexedRow w (idText iw sid)" by (auto simp: indexInv_def idText_def assms(3))
  moreover with indexSteps_inv [OF assms(1,2)] obtain rows where "map_of (ix_tables w) (idText iw sid) = Some rows" "distinct (map ir_stream_id rows)"
    unfolding indexInv_def by (metis option.exhaust)
  ultimately show ?thesis using sid(1) ok(2) idx by (auto simp: shouldIndexStream_def)
qed

theorem query_reads_indexed_witness:
  "\<exists>rows. map_of (ix_tables sampleIndexed) (streamIDToString sampleLib sampleModelId) = Some rows \<and> distinct (map ir_stream_id rows)"
proof -
  let ?q = "\<lparr>qm_models = Some [streamIDToString sampleLib sampleModelId], qm_model = None\<rparr>"
  have models: "getQueryModels sampleIndexWorld sampleIndexed ?q = Inr [streamIDToString sampleLib sampleModelId]" by code_simp
  have "streamIDFromString sampleLib (streamIDToString sampleLib sampleModelId) = Inr sampleModelId"
    using streamIDFromString_toString [OF sampleLib_ok] sampleModelId_valid by (simp add: validId_def)
  with query_reads_indexed [OF sampleLib_ok sampleIndexed_run sampleIndexWorld_codec models] show ?thesis
    by (auto simp: idText_def sampleIndexWorld_codec)
qed

text \<open>
  Indexing a stream is an upsert. After any run of the index, indexing a stream of an indexed model
  succeeds and leaves exactly one row of the stream in the table of its model: with the new content,
  tip, controller and anchor times, and with the creation time of the row that was there before, if
  there was one. The other rows of the table and all other tables are unchanged.
\<close>

theorem index_stream_upsert:
  assumes "codec_lib_ok lib" and "(indexStep lib)\<^sup>*\<^sup>* emptyIndex w" and "ie_codec (iw_env iw) = lib"
    and "shouldIndexStream w (is_model args)" and "is_shouldIndex args \<noteq> Some False" and "\<not> jsNullish (is_streamContent args)"
  shows "\<exists>w' rows rows' row. localIndexStream iw args w = (Inr (), w') \<and>
    map_of (ix_tables w) (idText iw (is_model args)) = Some rows \<and> map_of (ix_tables w') (idText iw (is_model args)) = Some rows' \<and>
    (\<forall>k. k \<noteq> idText iw (is_model args) \<longrightarrow> map_of (ix_tables w') k = map_of (ix_tables w) k) \<and>
    filter (\<lambda>r. ir_stream_id r \<noteq> idText iw (is_streamID args)) rows' = filter (\<lambda>r. ir_stream_id r \<noteq> idText iw (is_streamID args)) rows \<and>
    filter (\<lambda>r. ir_stream_id r = idText iw (is_streamID args)) rows' = [row] \<and>
    ir_stream_content row = is_streamContent args \<and> mr_tip row = iw_cidString iw (is_tip args) \<and>
    ir_controller_did row = is_controller args \<and> ir_last_anchored_at row = is_lastAnchor args \<and>
    mr_first_anchored_at row = is_firstAnchor args \<and>
    ir_created_at row = (case filter (\<lambda>r. ir_stream_id r = idText iw (is_streamID args)) rows of
      [] \<Rightarrow> timeOrNow iw (is_createdAt args) | old # _ \<Rightarrow> ir_created_at old)"
proof -
  let ?t = "idText iw (is_model args)" and ?k = "idText iw (is_streamID args)"
  have inv: "indexInv lib w" by (rule indexSteps_inv [OF assms(1,2)])
  with assms(3,4) have "indexedRow w ?t" by (auto simp: indexInv_def shouldIndexStream_def idText_def)
  with inv obtain rows where rows: "map_of (ix_tables w) ?t = Some rows" "distinct (map ir_stream_id rows)"
    unfolding indexInv_def by (metis option.exhaust)
  obtain rels where run: "localIndexStream iw args w = (Inr (), w\<lparr>ix_tables := AList.update ?t (upsertRow (getIndexedData iw args rels) rows) (ix_tables w)\<rparr>)"
    using assms(4-6) rows(1) by (simp add: localIndexStream_def indexStream_def withTable_def Let_def ef_simps)
  let ?new = "getIndexedData iw args rels"
  have new: "ir_stream_id ?new = ?k" "ir_stream_content ?new = is_streamContent args" "mr_tip ?new = iw_cidString iw (is_tip args)"
    "ir_controller_did ?new = is_controller args" "ir_last_anchored_at ?new = is_lastAnchor args"
    "mr_first_anchored_at ?new = is_firstAnchor args" "ir_created_at ?new = timeOrNow iw (is_createdAt args)"
    using assms(6) by (simp_all add: getIndexedData_def jsNullishOr_def)
  note up = upsertRow_rows [OF rows(2), of ?new, unfolded new(1)]
  let ?row = "case filter (\<lambda>r. ir_stream_id r = ?k) rows of [] \<Rightarrow> ?new | old # _ \<Rightarrow> mergeRow ?new old"
  have "filter (\<lambda>r. ir_stream_id r = ?k) (upsertRow ?new rows) = [?row]" using up(2) by (simp split: list.splits)
  with up(1) run rows(1) show ?thesis
    by (intro exI [of _ "w\<lparr>ix_tables := AList.update ?t (upsertRow ?new rows) (ix_tables w)\<rparr>"] exI [of _ rows]
        exI [of _ "upsertRow ?new rows"] exI [of _ ?row])
      (simp add: update_conv' new mergeRow_def split: list.split)
qed

theorem index_stream_upsert_witness:
  "\<exists>w' rows row. localIndexStream sampleIndexWorld sampleStreamArgs sampleIndexed = (Inr (), w') \<and>
     map_of (ix_tables w') (idText sampleIndexWorld sampleModelId) = Some rows \<and>
     filter (\<lambda>r. ir_stream_id r = idText sampleIndexWorld (StreamID 3 (sampleCid [4]))) rows = [row] \<and> ir_stream_content row = Obj [(''a'', Num 1)]"
proof -
  have "shouldIndexStream sampleIndexed (is_model sampleStreamArgs)" "is_shouldIndex sampleStreamArgs \<noteq> Some False"
    "\<not> jsNullish (is_streamContent sampleStreamArgs)"
    by (simp_all add: shouldIndexStream_def sampleIndexed_state sampleStreamArgs_def)
  from index_stream_upsert [OF sampleLib_ok sampleIndexed_run sampleIndexWorld_codec this] show ?thesis
    by (auto simp: sampleStreamArgs_def)
qed

text \<open>
  C27: A restart loses no model. After any run of the index, a node that is started again over the same
  database, and starts without an error, indexes every model that it indexed before.
\<close>

theorem restart_keeps_models:
  assumes "codec_lib_ok lib" and "(indexStep lib)\<^sup>*\<^sup>* emptyIndex w" and "ie_codec (iw_env iw) = lib"
    and "localInit iw (w\<lparr>ix_indexedModels := [], ix_modelRelations := [], ix_interfacesModels := []\<rparr>) = (Inr (), w')"
    and "shouldIndexStream w model"
  shows "shouldIndexStream w' model"
proof -
  let ?w = "w\<lparr>ix_indexedModels := [], ix_modelRelations := [], ix_interfacesModels := []\<rparr>"
  have inv: "indexInv lib w" by (rule indexSteps_inv [OF assms(1,2)])
  then have inv0: "indexInv lib ?w" by (simp add: indexInv_def)
  from inv assms(5) obtain c where c: "validId lib model" "map_of (ix_models ?w) (streamIDToString lib model) = Some c" "mc_is_indexed c = True"
    by (auto simp: indexInv_def shouldIndexStream_def indexedRow_def)
  from modelsFromDatabase_all [OF inv0 assms(1,3), of True] c obtain ms where ms: "modelsFromDatabase iw True ?w = Inr ms" "model \<in> fst ` set ms"
    by blast
  then obtain v where v: "initIndex iw ?w = (Inr (), v)" "ix_indexedModels v = ms"
    by (auto simp: initIndex_def bindE_def modifyE_def)
  with assms(4) have "localIndexModels iw ms v = (Inr (), w')"
    by (simp add: localInit_def bindE_def getE_def)
  with localIndexModels_keeps [of iw ms] have "set (ix_indexedModels v) \<subseteq> set (ix_indexedModels w')"
    unfolding keeps_def by (metis snd_conv)
  with ms(2) v(2) show ?thesis by (auto simp: shouldIndexStream_def)
qed

theorem restart_keeps_models_witness:
  "shouldIndexStream (snd (localInit sampleIndexWorld
     (sampleIndexed\<lparr>ix_indexedModels := [], ix_modelRelations := [], ix_interfacesModels := []\<rparr>))) sampleModelId"
proof -
  let ?r = "localInit sampleIndexWorld (sampleIndexed\<lparr>ix_indexedModels := [], ix_modelRelations := [], ix_interfacesModels := []\<rparr>)"
  have "fst ?r = Inr ()" by code_simp
  then have "?r = (Inr (), snd ?r)" by (metis prod.collapse)
  moreover have "shouldIndexStream sampleIndexed sampleModelId" by (simp add: shouldIndexStream_def sampleIndexed_state)
  ultimately show ?thesis by (rule restart_keeps_models [OF sampleLib_ok sampleIndexed_run sampleIndexWorld_codec])
qed

text \<open>
  A model that was removed from the index is never indexed again. After any run of the index and
  the removal of a model, a call that adds it again fails with the error for re-indexing and leaves
  the index as it is.
\<close>

theorem removed_model_refused:
  assumes "codec_lib_ok lib" and "(indexStep lib)\<^sup>*\<^sup>* emptyIndex w" and "ie_codec (iw_env iw) = lib" and "ie_codec (iw_env iw2) = lib"
    and "\<forall>m \<in> set removed. validId lib m" and "fst model \<in> set removed"
  shows "let w' = snd (stopIndexingModels iw removed w) in
    localIndexModels iw2 (model # models) w' = (Inl (Err ''Cannot re-index model, data may not be up-to-date''), w')"
proof -
  let ?w = "snd (stopIndexingModels iw removed w)"
  have inv: "indexInv lib ?w" by (rule stopIndexing_inv [OF indexSteps_inv [OF assms(1,2)] assms(1,3,5)])
  have "\<exists>c. map_of (fold (\<lambda>m. upsertModel (idText iw m) Null False) ms rows) (idText iw (fst model)) = Some c \<and> \<not> mc_is_indexed c"
    if "fst model \<in> set ms \<or> (\<exists>c. map_of rows (idText iw (fst model)) = Some c \<and> \<not> mc_is_indexed c)" for ms rows
    using that by (induction ms arbitrary: rows) (auto simp: upsertModel_map split: option.split)
  with assms(6) obtain c where "map_of (ix_models ?w) (streamIDToString lib (fst model)) = Some c" "mc_is_indexed c = False"
    by (auto simp: stopIndexingModels_def modifyE_def bindE_def idText_def assms(3))
  with modelsFromDatabase_all [OF inv assms(1,4), of False] assms(5,6) obtain old
    where "modelsFromDatabase iw2 False ?w = Inr old" "fst model \<in> fst ` set old" by blast
  then have "modelsFromDatabase iw2 False ?w = Inr old" "\<exists>m \<in> set old. fst m = fst model" by (simp, metis imageE)
  then show ?thesis by (simp add: Let_def localIndexModels_def bindE_def convertModelData_def throwIf_def ef_simps)
qed

theorem removed_model_refused_witness:
  "fst (localIndexModels sampleIndexWorld [(sampleModelId, Undef)] (snd (stopIndexingModels sampleIndexWorld [sampleModelId] sampleIndexed))) =
     Inl (Err ''Cannot re-index model, data may not be up-to-date'')"
  using removed_model_refused [OF sampleLib_ok sampleIndexed_run sampleIndexWorld_codec sampleIndexWorld_codec,
      of "[sampleModelId]" "(sampleModelId, Undef)" "[]"] sampleModelId_valid
  by (simp add: Let_def)



end
