(* ===== verification/PubsubMessages.thy ===== *)
theory PubsubMessages
  imports Serialization
begin

text \<open>
  The messages nodes exchange (\<open>core/src/pubsub/pubsub-message.ts\<close>) with their codecs
  (\<open>codecs/src/stream.ts\<close>, \<open>codecs/src/ipld.ts\<close>). The codec combinators are the library codeco, a record
  of functions on dynamic values; what the library documents of them is the predicate \<open>codeco_ok\<close>.
\<close>

section \<open>The codec library\<close>

text \<open>A codec tests, encodes and decodes values.\<close>

record codec =
  cd_is :: "js \<Rightarrow> bool"
  cd_encode :: "js \<Rightarrow> js"
  cd_decode :: "js \<Rightarrow> js_error + js"

record codeco =
  co_literal :: "js \<Rightarrow> codec"
  co_string :: codec
  co_number :: codec
  co_optional :: "codec \<Rightarrow> codec"
  co_strict :: "(string \<times> codec) list \<Rightarrow> codec"
  co_sparse :: "(string \<times> codec) list \<Rightarrow> codec"
  co_union :: "codec list \<Rightarrow> codec"

text \<open>What \<open>strict\<close> and \<open>sparse\<close> make of an object: its declared fields, \<open>sparse\<close> without the undefined ones.\<close>

definition decodeFields :: "(string \<times> codec) list \<Rightarrow> (string \<times> js) list \<Rightarrow> js_error + (string \<times> js) list" where
  "decodeFields fs obj = mapR (\<lambda>(k, c). bindR (cd_decode c (lookupField obj k)) (\<lambda>v. Inr (k, v))) fs"

definition encodeFields :: "(string \<times> codec) list \<Rightarrow> (string \<times> js) list \<Rightarrow> (string \<times> js) list" where
  "encodeFields fs obj = map (\<lambda>(k, c). (k, cd_encode c (lookupField obj k))) fs"

definition defined :: "(string \<times> js) list \<Rightarrow> (string \<times> js) list" where
  "defined = filter (\<lambda>(_, v). v \<noteq> Undef)"

definition accepts :: "codec \<Rightarrow> js \<Rightarrow> bool" where
  "accepts c v \<longleftrightarrow> (\<exists>w. cd_decode c v = Inr w)"

definition primitives_ok :: "codeco \<Rightarrow> bool" where
  "primitives_ok co \<longleftrightarrow>
     (\<forall>l v. cd_is (co_literal co l) v = (v = l) \<and> cd_encode (co_literal co l) v = v \<and>
        (if v = l then cd_decode (co_literal co l) v = Inr v else \<not> accepts (co_literal co l) v)) \<and>
     (\<forall>s. cd_is (co_string co) (Str s) \<and> cd_encode (co_string co) (Str s) = Str s \<and>
        cd_decode (co_string co) (Str s) = Inr (Str s)) \<and>
     (\<forall>n. cd_is (co_number co) (Num n) \<and> cd_encode (co_number co) (Num n) = Num n \<and>
        cd_decode (co_number co) (Num n) = Inr (Num n)) \<and>
     (\<forall>c v. cd_is (co_optional co c) v = (v = Undef \<or> cd_is c v) \<and>
        cd_encode (co_optional co c) v = (if v = Undef then Undef else cd_encode c v) \<and>
        cd_decode (co_optional co c) v = (if v = Undef then Inr Undef else cd_decode c v))"

definition objects_ok :: "((string \<times> js) list \<Rightarrow> (string \<times> js) list) \<Rightarrow> ((string \<times> codec) list \<Rightarrow> codec) \<Rightarrow> bool" where
  "objects_ok keep obj \<longleftrightarrow>
     (\<forall>fs o1. cd_is (obj fs) (Obj o1) = (\<forall>(k, c) \<in> set fs. cd_is c (lookupField o1 k)) \<and>
        cd_encode (obj fs) (Obj o1) = Obj (keep (encodeFields fs o1)) \<and>
        (case decodeFields fs o1 of
           Inr kvs \<Rightarrow> cd_decode (obj fs) (Obj o1) = Inr (Obj (keep kvs))
         | Inl _ \<Rightarrow> \<not> accepts (obj fs) (Obj o1)))"

text \<open>A union is the first member that fits.\<close>

definition unions_ok :: "codeco \<Rightarrow> bool" where
  "unions_ok co \<longleftrightarrow>
     (\<forall>pre c post v. (\<forall>p \<in> set pre. \<not> cd_is p v) \<and> cd_is c v \<longrightarrow>
        cd_encode (co_union co (pre @ c # post)) v = cd_encode c v) \<and>
     (\<forall>pre c post v w. (\<forall>p \<in> set pre. \<not> accepts p v) \<and> cd_decode c v = Inr w \<longrightarrow>
        cd_decode (co_union co (pre @ c # post)) v = Inr w)"

definition codeco_ok :: "codeco \<Rightarrow> bool" where
  "codeco_ok co \<longleftrightarrow> primitives_ok co \<and> objects_ok id (co_strict co) \<and> objects_ok defined (co_sparse co) \<and> unions_ok co"

section \<open>Codecs of identifiers\<close>

abbreviation invalid :: "js_error + 'a" where
  "invalid \<equiv> Inl (Err ''Validation error'')"

definition streamIdAsString :: "codec_lib \<Rightarrow> codec" where
  "streamIdAsString lib = \<lparr>
     cd_is = (\<lambda>input. case input of SidV _ \<Rightarrow> True | _ \<Rightarrow> False),
     cd_encode = (\<lambda>v. case v of SidV streamId \<Rightarrow> Str (streamIDToString lib streamId) | _ \<Rightarrow> Undef),
     cd_decode = (\<lambda>input. case input of
       Str s \<Rightarrow> (case streamIDFromString lib s of Inr i \<Rightarrow> Inr (SidV i) | Inl _ \<Rightarrow> invalid)
     | _ \<Rightarrow> invalid)\<rparr>"

definition cidAsString :: "codec_lib \<Rightarrow> codec" where
  "cidAsString lib = \<lparr>
     cd_is = (\<lambda>input. case input of CidV _ \<Rightarrow> True | _ \<Rightarrow> False),
     cd_encode = (\<lambda>v. case v of CidV c \<Rightarrow> Str (cidToString lib c) | _ \<Rightarrow> Undef),
     cd_decode = (\<lambda>input. case input of
       Str s \<Rightarrow> (case cidParse lib s of Inr c \<Rightarrow> Inr (CidV c) | Inl _ \<Rightarrow> invalid)
     | _ \<Rightarrow> invalid)\<rparr>"

text \<open>
  \<open>CIDAsStringMap\<close>: a \<open>Map\<close> from strings to CIDs is an object whose fields are the entries. On the wire it
  is an object with the CIDs as strings; the first value that is no CID makes the decoding fail.
\<close>

definition cidAsStringMap :: "codec_lib \<Rightarrow> codec" where
  "cidAsStringMap lib = \<lparr>
     cd_is = (\<lambda>input. case input of Obj _ \<Rightarrow> True | _ \<Rightarrow> False),
     cd_encode = (\<lambda>value. Obj (foldl (\<lambda>encoded (key, val). setField encoded key (cd_encode (cidAsString lib) val)) [] (jsFields value))),
     cd_decode = (\<lambda>input. if jsNullish input then invalid
       else bindR (mapR (\<lambda>(key, val). bindR (cd_decode (cidAsString lib) val) (\<lambda>c. Inr (key, c))) (jsFields input))
              (\<lambda>decoded. Inr (Obj decoded)))\<rparr>"

section \<open>Messages\<close>

datatype msg_type = UPDATE | QUERY | RESPONSE | KEEPALIVE

fun typCode :: "msg_type \<Rightarrow> js" where
  "typCode UPDATE = Num 0"
| "typCode QUERY = Num 1"
| "typCode RESPONSE = Num 2"
| "typCode KEEPALIVE = Num 3"

datatype pubsub_message =
    UpdateMessage (um_stream: stream_id) (um_tip: cid) (um_model: "stream_id option")
  | QueryMessage (qm_id: string) (qm_stream: stream_id)
  | ResponseMessage (rm_id: string) (rm_tips: "(string \<times> cid) list")
  | KeepaliveMessage (km_ts: rat) (km_ver: string) (km_ipfsVer: string)

fun messageTyp :: "pubsub_message \<Rightarrow> msg_type" where
  "messageTyp (UpdateMessage _ _ _) = UPDATE"
| "messageTyp (QueryMessage _ _) = QUERY"
| "messageTyp (ResponseMessage _ _) = RESPONSE"
| "messageTyp (KeepaliveMessage _ _ _) = KEEPALIVE"

definition messageTypeToString :: "msg_type \<Rightarrow> string" where
  "messageTypeToString type = (case type of
     UPDATE \<Rightarrow> ''Update'' | QUERY \<Rightarrow> ''Query'' | RESPONSE \<Rightarrow> ''Response'' | KEEPALIVE \<Rightarrow> ''Keepalive'')"

text \<open>A message as the object it is in the program, and back.\<close>

fun messageObj :: "pubsub_message \<Rightarrow> (string \<times> js) list" where
  "messageObj (UpdateMessage stream tip model) =
     [(''typ'', typCode UPDATE), (''stream'', SidV stream), (''tip'', CidV tip),
      (''model'', case model of None \<Rightarrow> Undef | Some m \<Rightarrow> SidV m)]"
| "messageObj (QueryMessage i stream) = [(''typ'', typCode QUERY), (''id'', Str i), (''stream'', SidV stream)]"
| "messageObj (ResponseMessage i tips) =
     [(''typ'', typCode RESPONSE), (''id'', Str i), (''tips'', Obj (map (map_prod id CidV) tips))]"
| "messageObj (KeepaliveMessage ts ver ipfsVer) =
     [(''typ'', typCode KEEPALIVE), (''ts'', Num ts), (''ver'', Str ver), (''ipfsVer'', Str ipfsVer)]"

definition messageOf :: "js \<Rightarrow> pubsub_message option" where
  "messageOf v =
     (let f = lookupField (jsFields v) in
      if f ''typ'' = Num 0 then (case (f ''stream'', f ''tip'', f ''model'') of
          (SidV stream, CidV tip, SidV m) \<Rightarrow> Some (UpdateMessage stream tip (Some m))
        | (SidV stream, CidV tip, Undef) \<Rightarrow> Some (UpdateMessage stream tip None)
        | _ \<Rightarrow> None)
      else if f ''typ'' = Num 1 then (case (f ''id'', f ''stream'') of
          (Str i, SidV stream) \<Rightarrow> Some (QueryMessage i stream) | _ \<Rightarrow> None)
      else if f ''typ'' = Num 2 then (case (f ''id'', f ''tips'') of
          (Str i, Obj tips) \<Rightarrow> Some (ResponseMessage i (map (map_prod id (\<lambda>v. case v of CidV c \<Rightarrow> c | _ \<Rightarrow> CID [])) tips))
        | _ \<Rightarrow> None)
      else if f ''typ'' = Num 3 then (case (f ''ts'', f ''ver'', f ''ipfsVer'') of
          (Num ts, Str ver, Str ipfsVer) \<Rightarrow> Some (KeepaliveMessage ts ver ipfsVer) | _ \<Rightarrow> None)
      else None)"

definition updateCodec :: "codec_lib \<Rightarrow> codeco \<Rightarrow> codec" where
  "updateCodec lib co = co_sparse co
     [(''typ'', co_literal co (typCode UPDATE)), (''stream'', streamIdAsString lib), (''tip'', cidAsString lib),
      (''model'', co_optional co (streamIdAsString lib))]"

definition queryCodec :: "codec_lib \<Rightarrow> codeco \<Rightarrow> codec" where
  "queryCodec lib co = co_strict co
     [(''typ'', co_literal co (typCode QUERY)), (''id'', co_string co), (''stream'', streamIdAsString lib)]"

definition responseCodec :: "codec_lib \<Rightarrow> codeco \<Rightarrow> codec" where
  "responseCodec lib co = co_strict co
     [(''typ'', co_literal co (typCode RESPONSE)), (''id'', co_string co), (''tips'', cidAsStringMap lib)]"

definition keepaliveCodec :: "codeco \<Rightarrow> codec" where
  "keepaliveCodec co = co_strict co
     [(''typ'', co_literal co (typCode KEEPALIVE)), (''ts'', co_number co), (''ver'', co_string co), (''ipfsVer'', co_string co)]"

definition pubsubMessage :: "codec_lib \<Rightarrow> codeco \<Rightarrow> codec" where
  "pubsubMessage lib co = co_union co [updateCodec lib co, queryCodec lib co, responseCodec lib co, keepaliveCodec co]"

text \<open>\<open>messageHash\<close> hashes the DAG-CBOR form with libraries: the parameter \<open>hash\<close>.\<close>

definition buildQueryMessage :: "(js \<Rightarrow> string) \<Rightarrow> codec_lib \<Rightarrow> stream_id \<Rightarrow> pubsub_message" where
  "buildQueryMessage hash lib streamId =
     QueryMessage (hash (Obj [(''typ'', typCode QUERY), (''stream'', Str (streamIDToString lib streamId))])) streamId"

text \<open>The text of a message stands for the JSON value it holds.\<close>

definition serializeMessage :: "text_lib \<Rightarrow> codeco \<Rightarrow> pubsub_message \<Rightarrow> js" where
  "serializeMessage lib co message = jsonNorm lib (cd_encode (pubsubMessage (tl_codec lib) co) (Obj (messageObj message)))"

definition deserializeMessage :: "text_lib \<Rightarrow> codeco \<Rightarrow> js \<Rightarrow> js_error + js" where
  "deserializeMessage lib co parsed = cd_decode (pubsubMessage (tl_codec lib) co) parsed"

section \<open>Round trip\<close>

definition validMessage :: "codec_lib \<Rightarrow> pubsub_message \<Rightarrow> bool" where
  "validMessage lib m = (case m of
     UpdateMessage stream _ model \<Rightarrow> (\<forall>i \<in> insert stream (set_option model). sid_type i < maxSafe \<and> isCidV1 lib (sid_cid i))
   | QueryMessage _ stream \<Rightarrow> sid_type stream < maxSafe \<and> isCidV1 lib (sid_cid stream)
   | ResponseMessage _ tips \<Rightarrow> distinct (map fst tips)
   | KeepaliveMessage _ _ _ \<Rightarrow> True)"

lemma setField_new: "k \<notin> fst ` set fs \<Longrightarrow> setField fs k v = fs @ [(k, v)]"
  by (induction fs k v rule: setField.induct) auto

lemma encode_tips:
  "distinct (map fst tips) \<Longrightarrow> fst ` set acc \<inter> fst ` set tips = {} \<Longrightarrow>
   foldl (\<lambda>encoded (key, val). setField encoded key (cd_encode (cidAsString lib) val)) acc (map (map_prod id CidV) tips) =
   acc @ map (map_prod id (\<lambda>c. Str (cidToString lib c))) tips"
  by (induction tips arbitrary: acc) (auto simp: setField_new cidAsString_def)

lemma decode_cid: "codec_lib_ok lib \<Longrightarrow> cd_decode (cidAsString lib) (Str (cidToString lib c)) = Inr (CidV c)"
  by (simp add: cidAsString_def codec_lib_ok_def)

lemma decode_sid:
  "codec_lib_ok lib \<Longrightarrow> sid_type i < maxSafe \<Longrightarrow> isCidV1 lib (sid_cid i) \<Longrightarrow>
   cd_decode (streamIdAsString lib) (Str (streamIDToString lib i)) = Inr (SidV i)"
  by (simp add: streamIdAsString_def streamIDFromString_toString)

lemma decode_tips:
  "codec_lib_ok lib \<Longrightarrow>
   mapR (\<lambda>(key, val). bindR (cd_decode (cidAsString lib) val) (\<lambda>c. Inr (key, c))) (map (map_prod id (\<lambda>c. Str (cidToString lib c))) tips) =
   Inr (map (map_prod id CidV) tips)"
  by (induction tips) (auto simp: decode_cid)

text \<open>The member of the union that a message belongs to; the literal of \<open>typ\<close> rules out the others.\<close>

definition memberCodec :: "codec_lib \<Rightarrow> codeco \<Rightarrow> msg_type \<Rightarrow> codec" where
  "memberCodec lib co t = (case t of UPDATE \<Rightarrow> updateCodec lib co | QUERY \<Rightarrow> queryCodec lib co
     | RESPONSE \<Rightarrow> responseCodec lib co | KEEPALIVE \<Rightarrow> keepaliveCodec co)"

lemma typCode_inject: "typCode s = typCode t \<longleftrightarrow> s = t"
  by (cases s; cases t) simp_all

lemma literal:
  assumes "codeco_ok co"
  shows "cd_is (co_literal co l) v = (v = l)" and "cd_encode (co_literal co l) v = v"
    and "cd_decode (co_literal co l) l = Inr l" and "v \<noteq> l \<Longrightarrow> \<not> accepts (co_literal co l) v"
  using assms by (auto simp: codeco_ok_def primitives_ok_def)

lemma primitive:
  assumes "codeco_ok co"
  shows "cd_is (co_string co) (Str s)" "cd_encode (co_string co) (Str s) = Str s" "cd_decode (co_string co) (Str s) = Inr (Str s)"
    and "cd_is (co_number co) (Num n)" "cd_encode (co_number co) (Num n) = Num n" "cd_decode (co_number co) (Num n) = Inr (Num n)"
    and "cd_is (co_optional co c) v = (v = Undef \<or> cd_is c v)"
    and "cd_encode (co_optional co c) v = (if v = Undef then Undef else cd_encode c v)"
    and "cd_decode (co_optional co c) v = (if v = Undef then Inr Undef else cd_decode c v)"
  using assms by (auto simp: codeco_ok_def primitives_ok_def)

lemma objectsD:
  assumes "objects_ok keep obj"
  shows "cd_is (obj fs) (Obj o1) = (\<forall>(k, c) \<in> set fs. cd_is c (lookupField o1 k))"
    and "cd_encode (obj fs) (Obj o1) = Obj (keep (encodeFields fs o1))"
    and "decodeFields fs o1 = Inr kvs \<Longrightarrow> cd_decode (obj fs) (Obj o1) = Inr (Obj (keep kvs))"
    and "decodeFields fs o1 = Inl e \<Longrightarrow> \<not> accepts (obj fs) (Obj o1)"
proof -
  have all: "cd_is (obj fs) (Obj o1) = (\<forall>(k, c) \<in> set fs. cd_is c (lookupField o1 k)) \<and>
      cd_encode (obj fs) (Obj o1) = Obj (keep (encodeFields fs o1)) \<and>
      (case decodeFields fs o1 of Inr kvs \<Rightarrow> cd_decode (obj fs) (Obj o1) = Inr (Obj (keep kvs))
       | Inl _ \<Rightarrow> \<not> accepts (obj fs) (Obj o1))"
    using assms unfolding objects_ok_def by blast
  show "cd_is (obj fs) (Obj o1) = (\<forall>(k, c) \<in> set fs. cd_is c (lookupField o1 k))"
    "cd_encode (obj fs) (Obj o1) = Obj (keep (encodeFields fs o1))" using all by blast+
  show "decodeFields fs o1 = Inr kvs \<Longrightarrow> cd_decode (obj fs) (Obj o1) = Inr (Obj (keep kvs))"
    "decodeFields fs o1 = Inl e \<Longrightarrow> \<not> accepts (obj fs) (Obj o1)" using all by simp_all
qed

lemma object_codec:
  assumes "codeco_ok co"
  shows "cd_is (co_strict co fs) (Obj o1) = (\<forall>(k, c) \<in> set fs. cd_is c (lookupField o1 k))"
    and "cd_is (co_sparse co fs) (Obj o1) = (\<forall>(k, c) \<in> set fs. cd_is c (lookupField o1 k))"
    and "cd_encode (co_strict co fs) (Obj o1) = Obj (encodeFields fs o1)"
    and "cd_encode (co_sparse co fs) (Obj o1) = Obj (defined (encodeFields fs o1))"
    and "decodeFields fs o1 = Inr kvs \<Longrightarrow> cd_decode (co_strict co fs) (Obj o1) = Inr (Obj kvs)"
    and "decodeFields fs o1 = Inr kvs \<Longrightarrow> cd_decode (co_sparse co fs) (Obj o1) = Inr (Obj (defined kvs))"
    and "decodeFields fs o1 = Inl e \<Longrightarrow> \<not> accepts (co_strict co fs) (Obj o1)"
    and "decodeFields fs o1 = Inl e \<Longrightarrow> \<not> accepts (co_sparse co fs) (Obj o1)"
proof -
  from assms have strict: "objects_ok id (co_strict co)" and sparse: "objects_ok defined (co_sparse co)"
    by (simp_all add: codeco_ok_def)
  note s = objectsD [OF strict] and p = objectsD [OF sparse]
  show "cd_is (co_strict co fs) (Obj o1) = (\<forall>(k, c) \<in> set fs. cd_is c (lookupField o1 k))" by (rule s(1))
  show "cd_is (co_sparse co fs) (Obj o1) = (\<forall>(k, c) \<in> set fs. cd_is c (lookupField o1 k))" by (rule p(1))
  show "cd_encode (co_strict co fs) (Obj o1) = Obj (encodeFields fs o1)" using s(2) by simp
  show "cd_encode (co_sparse co fs) (Obj o1) = Obj (defined (encodeFields fs o1))" by (rule p(2))
  show "decodeFields fs o1 = Inr kvs \<Longrightarrow> cd_decode (co_strict co fs) (Obj o1) = Inr (Obj kvs)" using s(3) by simp
  show "decodeFields fs o1 = Inr kvs \<Longrightarrow> cd_decode (co_sparse co fs) (Obj o1) = Inr (Obj (defined kvs))" by (rule p(3))
  show "decodeFields fs o1 = Inl e \<Longrightarrow> \<not> accepts (co_strict co fs) (Obj o1)" by (rule s(4))
  show "decodeFields fs o1 = Inl e \<Longrightarrow> \<not> accepts (co_sparse co fs) (Obj o1)" by (rule p(4))
qed

lemma member_is:
  assumes "codeco_ok co" and "cd_is (memberCodec lib co t) (Obj o1)"
  shows "lookupField o1 ''typ'' = typCode t"
  using assms(2)
  by (cases t) (simp_all add: memberCodec_def updateCodec_def queryCodec_def responseCodec_def keepaliveCodec_def
      object_codec [OF assms(1)] literal [OF assms(1)])

lemma member_accepts:
  assumes "codeco_ok co" and "accepts (memberCodec lib co t) (Obj o1)"
  shows "lookupField o1 ''typ'' = typCode t"
proof (rule ccontr)
  assume "lookupField o1 ''typ'' \<noteq> typCode t"
  from literal(4) [OF assms(1) this] obtain e where "cd_decode (co_literal co (typCode t)) (lookupField o1 ''typ'') = Inl e"
    by (cases "cd_decode (co_literal co (typCode t)) (lookupField o1 ''typ'')") (auto simp: accepts_def)
  then have "\<exists>e. decodeFields ((''typ'', co_literal co (typCode t)) # fs) o1 = Inl e" for fs
    by (simp add: decodeFields_def)
  with assms(2) object_codec(7,8) [OF assms(1)] show False
    unfolding memberCodec_def updateCodec_def queryCodec_def responseCodec_def keepaliveCodec_def
    by (cases t) (simp, blast)+
qed

lemma union_member:
  assumes co: "codeco_ok co" and t: "lookupField o1 ''typ'' = typCode t"
  shows "cd_is (memberCodec lib co t) (Obj o1) \<Longrightarrow> cd_encode (pubsubMessage lib co) (Obj o1) = cd_encode (memberCodec lib co t) (Obj o1)"
    and "cd_decode (memberCodec lib co t) (Obj o1) = Inr w \<Longrightarrow> cd_decode (pubsubMessage lib co) (Obj o1) = Inr w"
proof -
  let ?m = "memberCodec lib co"
  define ts where "ts = [UPDATE, QUERY, RESPONSE, KEEPALIVE]"
  have u: "pubsubMessage lib co = co_union co (map ?m ts)"
    by (simp add: pubsubMessage_def memberCodec_def ts_def)
  have "\<exists>pre post. ts = pre @ t # post \<and> t \<notin> set pre"
    by (rule split_list_first) (cases t, simp_all add: ts_def)
  then obtain pre post where ts: "ts = pre @ t # post" "t \<notin> set pre" by blast
  have other: "\<not> cd_is (?m p) (Obj o1)" "\<not> accepts (?m p) (Obj o1)" if "p \<in> set pre" for p
    using member_is [OF co] member_accepts [OF co] t ts(2) that typCode_inject by metis+
  have uni: "unions_ok co" using co by (simp add: codeco_ok_def)
  show "cd_encode (pubsubMessage lib co) (Obj o1) = cd_encode (?m t) (Obj o1)" if "cd_is (?m t) (Obj o1)"
    using uni that other(1) unfolding u ts(1) unions_ok_def by simp
  show "cd_decode (pubsubMessage lib co) (Obj o1) = Inr w" if "cd_decode (?m t) (Obj o1) = Inr w"
    using uni that other(2) unfolding u ts(1) unions_ok_def by simp
qed

text \<open>What a message is on the wire.\<close>

fun wireObj :: "codec_lib \<Rightarrow> pubsub_message \<Rightarrow> (string \<times> js) list" where
  "wireObj lib (UpdateMessage stream tip model) =
     [(''typ'', typCode UPDATE), (''stream'', Str (streamIDToString lib stream)), (''tip'', Str (cidToString lib tip))] @
     (case model of None \<Rightarrow> [] | Some m \<Rightarrow> [(''model'', Str (streamIDToString lib m))])"
| "wireObj lib (QueryMessage i stream) =
     [(''typ'', typCode QUERY), (''id'', Str i), (''stream'', Str (streamIDToString lib stream))]"
| "wireObj lib (ResponseMessage i tips) =
     [(''typ'', typCode RESPONSE), (''id'', Str i), (''tips'', Obj (map (map_prod id (\<lambda>c. Str (cidToString lib c))) tips))]"
| "wireObj lib (KeepaliveMessage ts ver ipfsVer) =
     [(''typ'', typCode KEEPALIVE), (''ts'', Num ts), (''ver'', Str ver), (''ipfsVer'', Str ipfsVer)]"

lemma messageObj_typ: "lookupField (messageObj m) ''typ'' = typCode (messageTyp m)"
  by (cases m) (simp_all add: lookupField.simps)

lemma wireObj_typ: "lookupField (wireObj lib m) ''typ'' = typCode (messageTyp m)"
  by (cases m) (simp_all add: lookupField.simps)

lemmas member_defs = memberCodec_def updateCodec_def queryCodec_def responseCodec_def keepaliveCodec_def

lemma encode_message:
  assumes co: "codeco_ok co" and m: "validMessage lib m"
  shows "cd_encode (pubsubMessage lib co) (Obj (messageObj m)) = Obj (wireObj lib m)"
proof -
  note simps = member_defs object_codec [OF co] literal [OF co] primitive [OF co] encodeFields_def defined_def lookupField.simps
  have "cd_is (memberCodec lib co (messageTyp m)) (Obj (messageObj m))"
    by (cases m) (auto simp: simps streamIdAsString_def cidAsString_def cidAsStringMap_def split: option.splits)
  moreover have "cd_encode (memberCodec lib co (messageTyp m)) (Obj (messageObj m)) = Obj (wireObj lib m)"
    using m encode_tips [of _ "[]"]
    by (cases m) (auto simp: simps streamIdAsString_def cidAsString_def cidAsStringMap_def validMessage_def split: option.splits)
  ultimately show ?thesis using union_member(1) [OF co messageObj_typ] by simp
qed

lemma decode_message:
  assumes co: "codeco_ok co" and lib: "codec_lib_ok lib" and m: "validMessage lib m"
  shows "\<exists>v. cd_decode (pubsubMessage lib co) (Obj (wireObj lib m)) = Inr v \<and> messageOf v = Some m"
proof -
  let ?d = "defined (messageObj m)"
  note simps = decodeFields_def literal [OF co] primitive [OF co] lookupField.simps
  have "cd_decode (memberCodec lib co (messageTyp m)) (Obj (wireObj lib m)) = Inr (Obj ?d)"
  proof (cases m)
    case (UpdateMessage stream tip model)
    with m lib show ?thesis
      unfolding UpdateMessage by (cases model)
        (auto simp: member_defs object_codec(6) [OF co, where kvs = "messageObj m"] simps decode_sid decode_cid validMessage_def UpdateMessage)
  next
    case (QueryMessage i stream)
    with m lib show ?thesis
      by (auto simp: member_defs defined_def simps decode_sid validMessage_def intro!: object_codec(5) [OF co])
  next
    case (ResponseMessage i tips)
    with m lib show ?thesis
      by (auto simp: member_defs defined_def simps cidAsStringMap_def decode_tips validMessage_def intro!: object_codec(5) [OF co])
  next
    case KeepaliveMessage
    then show ?thesis by (auto simp: member_defs defined_def simps intro!: object_codec(5) [OF co])
  qed
  from union_member(2) [OF co wireObj_typ this] have "cd_decode (pubsubMessage lib co) (Obj (wireObj lib m)) = Inr (Obj ?d)" .
  moreover have "messageOf (Obj ?d) = Some m"
    by (cases m) (auto simp: messageOf_def defined_def lookupField.simps map_prod_def comp_def case_prod_beta split: option.splits)
  ultimately show ?thesis by blast
qed

text \<open>A codec library with the laws.\<close>

fun firstAccepting :: "codec list \<Rightarrow> js \<Rightarrow> js_error + js" where
  "firstAccepting [] v = invalid"
| "firstAccepting (c # cs) v = (case cd_decode c v of Inr w \<Rightarrow> Inr w | Inl _ \<Rightarrow> firstAccepting cs v)"

definition sampleObject :: "((string \<times> js) list \<Rightarrow> (string \<times> js) list) \<Rightarrow> (string \<times> codec) list \<Rightarrow> codec" where
  "sampleObject keep fs = \<lparr>
     cd_is = (\<lambda>v. case v of Obj o1 \<Rightarrow> list_all (\<lambda>(k, c). cd_is c (lookupField o1 k)) fs | _ \<Rightarrow> False),
     cd_encode = (\<lambda>v. Obj (keep (encodeFields fs (jsFields v)))),
     cd_decode = (\<lambda>v. case v of
       Obj o1 \<Rightarrow> bindR (decodeFields fs o1) (\<lambda>kvs. Inr (Obj (keep kvs))) | _ \<Rightarrow> invalid)\<rparr>"

definition sampleCodeco :: codeco where
  "sampleCodeco = \<lparr>
     co_literal = (\<lambda>l. \<lparr>cd_is = (\<lambda>v. v = l), cd_encode = id, cd_decode = (\<lambda>v. if v = l then Inr v else invalid)\<rparr>),
     co_string = \<lparr>cd_is = (\<lambda>v. case v of Str _ \<Rightarrow> True | _ \<Rightarrow> False), cd_encode = id,
       cd_decode = (\<lambda>v. case v of Str _ \<Rightarrow> Inr v | _ \<Rightarrow> invalid)\<rparr>,
     co_number = \<lparr>cd_is = (\<lambda>v. case v of Num _ \<Rightarrow> True | _ \<Rightarrow> False), cd_encode = id,
       cd_decode = (\<lambda>v. case v of Num _ \<Rightarrow> Inr v | _ \<Rightarrow> invalid)\<rparr>,
     co_optional = (\<lambda>c. \<lparr>cd_is = (\<lambda>v. v = Undef \<or> cd_is c v),
       cd_encode = (\<lambda>v. if v = Undef then Undef else cd_encode c v),
       cd_decode = (\<lambda>v. if v = Undef then Inr Undef else cd_decode c v)\<rparr>),
     co_strict = sampleObject id, co_sparse = sampleObject defined,
     co_union = (\<lambda>cs. \<lparr>cd_is = (\<lambda>v. list_ex (\<lambda>c. cd_is c v) cs),
       cd_encode = (\<lambda>v. case find (\<lambda>c. cd_is c v) cs of Some c \<Rightarrow> cd_encode c v | None \<Rightarrow> v),
       cd_decode = firstAccepting cs\<rparr>)\<rparr>"

lemma firstAccepting_first:
  "\<forall>p \<in> set pre. \<not> accepts p v \<Longrightarrow> cd_decode c v = Inr w \<Longrightarrow> firstAccepting (pre @ c # post) v = Inr w"
  by (induction pre) (auto simp: accepts_def split: sum.split)

lemma find_first: "\<forall>p \<in> set pre. \<not> P p \<Longrightarrow> P c \<Longrightarrow> find P (pre @ c # post) = Some c"
  by (induction pre) auto

lemma sampleObject_ok: "objects_ok keep (sampleObject keep)"
  by (auto simp: objects_ok_def sampleObject_def accepts_def list_all_iff split: sum.split)

lemma sampleCodeco_ok: "codeco_ok sampleCodeco"
  unfolding codeco_ok_def
proof (intro conjI)
  show "primitives_ok sampleCodeco" by (simp add: primitives_ok_def sampleCodeco_def accepts_def)
  show "objects_ok id (co_strict sampleCodeco)" "objects_ok defined (co_sparse sampleCodeco)"
    using sampleObject_ok by (simp_all add: sampleCodeco_def)
  show "unions_ok sampleCodeco"
    unfolding unions_ok_def sampleCodeco_def codeco.simps codec.simps
    by (simp add: firstAccepting_first find_first)
qed

section \<open>Property\<close>

text \<open>
  A message survives its way over the network: an update, a query, a response or a keepalive message is
  decoded by the receiver into the message that was sent, although the decoder tries all four kinds in
  turn, if its StreamIDs are valid and the streams of a response are distinct.
\<close>

theorem message_roundtrip:
  assumes "codeco_ok co" and "text_lib_ok lib" and "validMessage (tl_codec lib) m"
  shows "\<exists>v. deserializeMessage lib co (serializeMessage lib co m) = Inr v \<and> messageOf v = Some m"
proof -
  have "jsonNorm lib (Obj (wireObj (tl_codec lib) m)) = Obj (wireObj (tl_codec lib) m)"
    by (cases m) (auto simp: map_prod_def comp_def case_prod_beta filter_id_conv split: option.split)
  moreover have "codec_lib_ok (tl_codec lib)" using assms(2) by (simp add: text_lib_ok_def)
  ultimately show ?thesis
    using decode_message [OF assms(1) _ assms(3)]
    by (simp add: serializeMessage_def deserializeMessage_def encode_message [OF assms(1,3)] del: jsonNorm.simps)
qed

theorem message_roundtrip_witness:
  "\<exists>v. deserializeMessage sampleTextLib sampleCodeco (serializeMessage sampleTextLib sampleCodeco
     (ResponseMessage ''q'' [(''k1'', CID [1])])) = Inr v \<and> messageOf v = Some (ResponseMessage ''q'' [(''k1'', CID [1])])"
  by (rule message_roundtrip [OF sampleCodeco_ok sampleTextLib_ok]) (simp add: validMessage_def)

end
