(* ===== verification/MessageBus.thy ===== *)
theory MessageBus
  imports PubsubMessages StateCache "HOL-Library.Multiset"
begin

text \<open>
  Sending and receiving of pubsub messages (\<open>core/src/pubsub\<close>): the queries a node waits for
  (\<open>outstanding-queries.ts\<close>), keepalive messages (\<open>pubsub-keepalive.ts\<close>), the rate limit of queries
  (\<open>pubsub-ratelimit.ts\<close>) and the bus on top of them (\<open>message-bus.ts\<close>). Time is in milliseconds. The
  subscription to the topic of IPFS and its timers are below the model.
\<close>

section \<open>Outstanding queries\<close>

record query =
  qu_timestamp :: int
  qu_streamID :: stream_id
  qu_queryID :: string

definition compareQueryTimestamps :: "query \<Rightarrow> query \<Rightarrow> int" where
  "compareQueryTimestamps a b =
     (if qu_timestamp b < qu_timestamp a then 1 else if qu_timestamp a < qu_timestamp b then - 1 else - 1)"

text \<open>
  The library \<open>@datastructures-js/priority-queue\<close>; \<open>hq_elems\<close> is the content of a queue. The front is an
  element that the comparison puts after no other.
\<close>

record 'q heap_lib =
  hq_new :: 'q
  hq_enqueue :: "'q \<Rightarrow> query \<Rightarrow> 'q"
  hq_dequeue :: "'q \<Rightarrow> 'q"
  hq_front :: "'q \<Rightarrow> query option"
  hq_elems :: "'q \<Rightarrow> query multiset"

definition heap_ok :: "(query \<Rightarrow> query \<Rightarrow> int) \<Rightarrow> 'q heap_lib \<Rightarrow> bool" where
  "heap_ok compare lib \<longleftrightarrow> hq_elems lib (hq_new lib) = {#} \<and>
     (\<forall>q x. hq_elems lib (hq_enqueue lib q x) = add_mset x (hq_elems lib q)) \<and>
     (\<forall>q. hq_elems lib q = {#} \<longrightarrow> hq_front lib q = None \<and> hq_elems lib (hq_dequeue lib q) = {#}) \<and>
     (\<forall>q. hq_elems lib q \<noteq> {#} \<longrightarrow> (\<exists>x. hq_front lib q = Some x \<and> x \<in># hq_elems lib q \<and>
        (\<forall>y \<in># hq_elems lib q. compare x y \<le> 0) \<and> hq_elems lib (hq_dequeue lib q) = hq_elems lib q - {#x#}))"

record 'q outstanding =
  oq_queue :: 'q
  oq_map :: "(string \<times> query) list"

definition newOutstanding :: "'q heap_lib \<Rightarrow> 'q outstanding" where
  "newOutstanding lib = \<lparr>oq_queue = hq_new lib, oq_map = []\<rparr>"

definition minutesThreshold :: int where
  "minutesThreshold = 1"

text \<open>The age of the front of an empty queue is NaN, which is not greater than the threshold.\<close>

definition isExpired :: "int \<Rightarrow> query option \<Rightarrow> bool" where
  "isExpired now query = (case query of None \<Rightarrow> False
     | Some q \<Rightarrow> minutesThreshold < (now - qu_timestamp q) div 60000)"

definition removeQuery :: "'q heap_lib \<Rightarrow> query \<Rightarrow> 'q outstanding \<Rightarrow> 'q outstanding" where
  "removeQuery lib topQuery w =
     w\<lparr>oq_map := mapDelete (oq_map w) (qu_queryID topQuery), oq_queue := hq_dequeue lib (oq_queue w)\<rparr>"

partial_function (option) cleanUpExpiredQueries :: "'q heap_lib \<Rightarrow> int \<Rightarrow> 'q outstanding \<Rightarrow> 'q outstanding option" where
  "cleanUpExpiredQueries lib now w = (case hq_front lib (oq_queue w) of
     None \<Rightarrow> Some w
   | Some front \<Rightarrow>
       if isExpired now (Some front) then cleanUpExpiredQueries lib now (removeQuery lib front w) else Some w)"

definition putQuery :: "'q heap_lib \<Rightarrow> string \<Rightarrow> query \<Rightarrow> 'q outstanding \<Rightarrow> 'q outstanding" where
  "putQuery lib i query w = w\<lparr>oq_map := mapSet (oq_map w) i query, oq_queue := hq_enqueue lib (oq_queue w) query\<rparr>"

definition addQuery :: "'q heap_lib \<Rightarrow> int \<Rightarrow> string \<Rightarrow> query \<Rightarrow> 'q outstanding \<Rightarrow> 'q outstanding option" where
  "addQuery lib now i query w =
     map_option (\<lambda>w. if map_of (oq_map w) i = None then putQuery lib i query w
                     else putQuery lib i query (removeQuery lib query w))
       (cleanUpExpiredQueries lib now w)"

section \<open>Keepalive messages\<close>

text \<open>\<open>ka_sent\<close>: what was published on the topic, with the time.\<close>

record keepalive =
  ka_lastPublishedMessageDate :: int
  ka_lastPublishedKeepAliveMessageDate :: int
  ka_sent :: "(int \<times> pubsub_message) list"

record keepalive_env =
  kv_maxPubsubPublishInterval :: int
  kv_maxIntervalWithoutKeepalive :: int
  kv_version :: string
  kv_ipfsVersion :: string

definition newKeepalive :: "keepalive_env \<Rightarrow> int \<Rightarrow> keepalive" where
  "newKeepalive env now = \<lparr>ka_lastPublishedMessageDate = now - kv_maxPubsubPublishInterval env,
     ka_lastPublishedKeepAliveMessageDate = 0, ka_sent = []\<rparr>"

definition keepaliveNext :: "int \<Rightarrow> pubsub_message \<Rightarrow> keepalive \<Rightarrow> keepalive" where
  "keepaliveNext now message k =
     (let k' = k\<lparr>ka_lastPublishedMessageDate := now, ka_sent := ka_sent k @ [(now, message)]\<rparr>
      in if messageTyp message = KEEPALIVE then k'\<lparr>ka_lastPublishedKeepAliveMessageDate := now\<rparr> else k')"

definition publishPubsubKeepaliveIfNeeded :: "keepalive_env \<Rightarrow> int \<Rightarrow> keepalive \<Rightarrow> keepalive" where
  "publishPubsubKeepaliveIfNeeded env now k =
     (let needToPublishKeepaliveOnceADay =
            kv_maxIntervalWithoutKeepalive env < now - ka_lastPublishedKeepAliveMessageDate k;
          needToPublishKeepaliveInactivity =
            kv_maxPubsubPublishInterval env \<le> 2 * (now - ka_lastPublishedMessageDate k)
      in if \<not> needToPublishKeepaliveInactivity \<and> \<not> needToPublishKeepaliveOnceADay then k
         else keepaliveNext now (KeepaliveMessage (of_int now) (kv_version env) (kv_ipfsVersion env)) k)"

section \<open>The message bus\<close>

text \<open>
  \<open>mb_pending\<close> are the queries that wait in the queue of the rate limit. The library p-queue starts a
  query at once if none waits and the limit per second allows it, which is \<open>be_mayStart\<close>; later it
  starts the first one that waits, which is \<open>startQuery\<close>.
\<close>

record 'q message_bus =
  mb_closed :: bool
  mb_peerSyncDisabled :: bool
  mb_pending :: "pubsub_message list"
  mb_keepalive :: keepalive
  mb_outstanding :: "'q outstanding"

record 'q bus_env =
  be_now :: int
  be_mayStart :: bool
  be_queriesPerSecond :: nat
  be_heap :: "'q heap_lib"
  be_codec :: codec_lib
  be_hash :: "js \<Rightarrow> string"

definition maxQueuedQueries :: "'q bus_env \<Rightarrow> nat" where
  "maxQueuedQueries env = be_queriesPerSecond env * 10"

definition sendNow :: "'q bus_env \<Rightarrow> pubsub_message \<Rightarrow> 'q message_bus \<Rightarrow> 'q message_bus" where
  "sendNow env message b = b\<lparr>mb_keepalive := keepaliveNext (be_now env) message (mb_keepalive b)\<rparr>"

definition rateLimitNext :: "'q bus_env \<Rightarrow> pubsub_message \<Rightarrow> 'q message_bus \<Rightarrow> 'q message_bus" where
  "rateLimitNext env message b =
     (if messageTyp message = QUERY then
        if maxQueuedQueries env \<le> length (mb_pending b) then b
        else if mb_pending b = [] \<and> be_mayStart env then sendNow env message b
        else b\<lparr>mb_pending := mb_pending b @ [message]\<rparr>
      else sendNow env message b)"

definition startQuery :: "'q bus_env \<Rightarrow> 'q message_bus \<Rightarrow> 'q message_bus" where
  "startQuery env b = (case mb_pending b of [] \<Rightarrow> b | m # ms \<Rightarrow> sendNow env m (b\<lparr>mb_pending := ms\<rparr>))"

definition busNext :: "'q bus_env \<Rightarrow> pubsub_message \<Rightarrow> 'q message_bus \<Rightarrow> 'q message_bus" where
  "busNext env message b = (if mb_closed b then b else rateLimitNext env message b)"

definition busUnsubscribe :: "'q message_bus \<Rightarrow> 'q message_bus" where
  "busUnsubscribe b = b\<lparr>mb_closed := True\<rparr>"

text \<open>\<open>queryNetwork\<close> up to its return; the result is the id the returned observable filters for.\<close>

definition queryNetwork :: "'q bus_env \<Rightarrow> stream_id \<Rightarrow> 'q message_bus \<Rightarrow> string option \<times> 'q message_bus" where
  "queryNetwork env streamId b =
     (if mb_peerSyncDisabled b then (None, b)
      else
        let queryMessage = buildQueryMessage (be_hash env) (be_codec env) streamId;
            b1 = busNext env queryMessage b;
            query = \<lparr>qu_timestamp = be_now env, qu_streamID = streamId, qu_queryID = qm_id queryMessage\<rparr>
        in case addQuery (be_heap env) (be_now env) (qm_id queryMessage) query (mb_outstanding b1) of
             None \<Rightarrow> (None, b1)
           | Some oq \<Rightarrow> (Some (qm_id queryMessage), b1\<lparr>mb_outstanding := oq\<rparr>))"

definition MAX_RESPONSE_INTERVAL :: int where
  "MAX_RESPONSE_INTERVAL = 300"

text \<open>The timer is started by the first tip and restarted by each one after it.\<close>

fun betweenTimeout :: "int \<Rightarrow> int option \<Rightarrow> (int \<times> 'a) list \<Rightarrow> 'a list" where
  "betweenTimeout betweenMs trigger [] = []"
| "betweenTimeout betweenMs trigger ((t, x) # xs) =
     (case trigger of
        Some t0 \<Rightarrow> if betweenMs < t - t0 then [] else x # betweenTimeout betweenMs (Some t) xs
      | None \<Rightarrow> x # betweenTimeout betweenMs (Some t) xs)"

text \<open>The tips the observable of a query emits when the messages \<open>feed\<close> arrive.\<close>

definition networkTips :: "codec_lib \<Rightarrow> string \<Rightarrow> stream_id \<Rightarrow> (int \<times> pubsub_message) list \<Rightarrow> cid list" where
  "networkTips lib i streamId feed =
     betweenTimeout MAX_RESPONSE_INTERVAL None
       (List.map_filter (\<lambda>(t, message). case message of
          ResponseMessage j tips \<Rightarrow> if j = i then map_option (Pair t) (map_of tips (streamIDToString lib streamId)) else None
        | _ \<Rightarrow> None) feed)"

section \<open>Outstanding queries: what they hold\<close>

abbreviation elems :: "'q heap_lib \<Rightarrow> 'q outstanding \<Rightarrow> query multiset" where
  "elems lib w \<equiv> hq_elems lib (oq_queue w)"

abbreviation expired :: "int \<Rightarrow> query \<Rightarrow> bool" where
  "expired now q \<equiv> isExpired now (Some q)"

definition withoutIds :: "string set \<Rightarrow> (string \<times> query) list \<Rightarrow> (string \<times> query) list" where
  "withoutIds ids = filter (\<lambda>(k, _). k \<notin> ids)"

lemma map_of_withoutIds: "map_of (withoutIds ids m) i = (if i \<in> ids then None else map_of m i)"
  by (induction m) (auto simp: withoutIds_def)

lemma compare_le: "compareQueryTimestamps x y \<le> 0 \<longleftrightarrow> qu_timestamp x \<le> qu_timestamp y"
  by (simp add: compareQueryTimestamps_def)

lemma expired_older: "qu_timestamp x \<le> qu_timestamp y \<Longrightarrow> expired now y \<Longrightarrow> expired now x"
  by (simp add: isExpired_def minutesThreshold_def)

lemma expired_later: "now \<le> later \<Longrightarrow> expired now x \<Longrightarrow> expired later x"
  by (simp add: isExpired_def minutesThreshold_def)

lemma not_expired_new: "qu_timestamp q = now \<Longrightarrow> \<not> expired now q"
  by (simp add: isExpired_def minutesThreshold_def)

lemma heap_cases:
  assumes "heap_ok compareQueryTimestamps lib"
  obtains "hq_elems lib q = {#}" "hq_front lib q = None"
  | x where "hq_front lib q = Some x" "x \<in># hq_elems lib q" "\<forall>y \<in># hq_elems lib q. qu_timestamp x \<le> qu_timestamp y"
      "hq_elems lib (hq_dequeue lib q) = hq_elems lib q - {#x#}"
proof (cases "hq_elems lib q = {#}")
  case True
  with assms that(1) show ?thesis by (simp add: heap_ok_def)
next
  case False
  with assms obtain x where "hq_front lib q = Some x \<and> x \<in># hq_elems lib q \<and>
      (\<forall>y \<in># hq_elems lib q. compareQueryTimestamps x y \<le> 0) \<and> hq_elems lib (hq_dequeue lib q) = hq_elems lib q - {#x#}"
    unfolding heap_ok_def by blast
  with that(2) [of x] show ?thesis by (simp add: compare_le)
qed

text \<open>The loop ends, with all expired entries gone from the queue and their ids from the map.\<close>

lemma cleanUp_result:
  assumes lib: "heap_ok compareQueryTimestamps lib"
  shows "\<exists>w'. cleanUpExpiredQueries lib now w = Some w' \<and>
    elems lib w' = filter_mset (\<lambda>q. \<not> expired now q) (elems lib w) \<and>
    oq_map w' = withoutIds (qu_queryID ` set_mset (filter_mset (expired now) (elems lib w))) (oq_map w)"
proof (induction "size (elems lib w)" arbitrary: w rule: less_induct)
  case less
  have same: "withoutIds {} m = m" for m by (simp add: withoutIds_def)
  show ?case
  proof (rule heap_cases [OF lib, of "oq_queue w"])
    assume "elems lib w = {#}" "hq_front lib (oq_queue w) = None"
    then show ?thesis by (simp add: cleanUpExpiredQueries.simps [of lib now w] same)
  next
    fix x assume x: "hq_front lib (oq_queue w) = Some x" "x \<in># elems lib w" "\<forall>y \<in># elems lib w. qu_timestamp x \<le> qu_timestamp y"
      "hq_elems lib (hq_dequeue lib (oq_queue w)) = elems lib w - {#x#}"
    show ?thesis
    proof (cases "expired now x")
      case False
      with x(3) expired_older have none: "\<forall>y \<in># elems lib w. \<not> expired now y" by blast
      then have e: "set_mset (filter_mset (expired now) (elems lib w)) = {}"
        and f: "filter_mset (\<lambda>q. \<not> expired now q) (elems lib w) = filter_mset (\<lambda>_. True) (elems lib w)"
        by (auto intro: filter_mset_cong simp del: filter_mset_True)
      show ?thesis unfolding e f
        using False x(1) by (simp add: cleanUpExpiredQueries.simps [of lib now w] same)
    next
      case True
      let ?w = "removeQuery lib x w"
      have e: "elems lib ?w = elems lib w - {#x#}" using x(4) by (simp add: removeQuery_def)
      from x(2) have add: "elems lib w = add_mset x (elems lib ?w)" by (simp add: e)
      have "size (elems lib ?w) < size (elems lib w)" by (simp add: add)
      from less [OF this] obtain w' where w': "cleanUpExpiredQueries lib now ?w = Some w'"
        "elems lib w' = filter_mset (\<lambda>q. \<not> expired now q) (elems lib ?w)"
        "oq_map w' = withoutIds (qu_queryID ` set_mset (filter_mset (expired now) (elems lib ?w))) (oq_map ?w)" by blast
      have "oq_map w' = withoutIds (qu_queryID ` set_mset (filter_mset (expired now) (elems lib w))) (oq_map w)"
        unfolding w'(3) using True
        by (auto simp: add withoutIds_def removeQuery_def mapDelete_def intro!: filter_cong)
      with w'(1,2) True x(1) show ?thesis
        by (simp add: cleanUpExpiredQueries.simps [of lib now w] add)
    qed
  qed
qed

fun runQueries :: "'q heap_lib \<Rightarrow> query list \<Rightarrow> 'q outstanding \<Rightarrow> 'q outstanding option" where
  "runQueries lib [] w = Some w"
| "runQueries lib (q # qs) w = Option.bind (addQuery lib (qu_timestamp q) (qu_queryID q) q w) (runQueries lib qs)"

text \<open>
  As long as no query is added while one with its id is outstanding, the map and the queue hold the same
  queries.
\<close>

definition sameQueries :: "'q heap_lib \<Rightarrow> 'q outstanding \<Rightarrow> bool" where
  "sameQueries lib w \<longleftrightarrow> (\<forall>i q. map_of (oq_map w) i = Some q \<longleftrightarrow> q \<in># elems lib w \<and> qu_queryID q = i)"

lemma addQuery_new:
  assumes lib: "heap_ok compareQueryTimestamps lib" and w: "sameQueries lib w"
    and new: "qu_queryID q \<notin> qu_queryID ` set_mset (elems lib w)"
  shows "\<exists>w'. addQuery lib now (qu_queryID q) q w = Some w' \<and> sameQueries lib w' \<and>
    elems lib w' = add_mset q (filter_mset (\<lambda>x. \<not> expired now x) (elems lib w))"
proof -
  obtain v where v: "cleanUpExpiredQueries lib now w = Some v" "elems lib v = filter_mset (\<lambda>q. \<not> expired now q) (elems lib w)"
    "oq_map v = withoutIds (qu_queryID ` set_mset (filter_mset (expired now) (elems lib w))) (oq_map w)"
    using cleanUp_result [OF lib] by blast
  have map: "map_of (oq_map v) i = Some x \<longleftrightarrow> x \<in># elems lib v \<and> qu_queryID x = i" for i x
  proof -
    have "x = y" if "x \<in># elems lib w" "y \<in># elems lib w" "qu_queryID x = qu_queryID y" for x y
      using w that unfolding sameQueries_def by (metis option.inject)
    with w show ?thesis by (auto simp: v(2,3) map_of_withoutIds sameQueries_def)
  qed
  have none: "map_of (oq_map v) (qu_queryID q) = None"
  proof (rule ccontr)
    assume "map_of (oq_map v) (qu_queryID q) \<noteq> None"
    then obtain x where "map_of (oq_map v) (qu_queryID q) = Some x" by blast
    with map v(2) new show False by (auto simp: image_iff)
  qed
  have enq: "hq_elems lib (hq_enqueue lib u x) = add_mset x (hq_elems lib u)" for u x
    using lib by (simp add: heap_ok_def)
  have "sameQueries lib (putQuery lib (qu_queryID q) q v)"
    unfolding sameQueries_def
  proof (intro allI)
    fix i x
    have "q = x" if "qu_queryID x = qu_queryID q" "x \<in># elems lib v" for x
      using map [of "qu_queryID q" x] none that by simp
    with map [of i x] show "map_of (oq_map (putQuery lib (qu_queryID q) q v)) i = Some x \<longleftrightarrow>
        x \<in># elems lib (putQuery lib (qu_queryID q) q v) \<and> qu_queryID x = i"
      by (auto simp: putQuery_def enq)
  qed
  then show ?thesis using v(1,2) none by (simp add: addQuery_def putQuery_def enq)
qed

lemma runQueries_new:
  assumes lib: "heap_ok compareQueryTimestamps lib"
  shows "sameQueries lib w \<Longrightarrow> distinct (map qu_queryID qs) \<Longrightarrow> sorted (map qu_timestamp qs) \<Longrightarrow>
    set (map qu_queryID qs) \<inter> qu_queryID ` set_mset (elems lib w) = {} \<Longrightarrow>
    \<exists>w'. runQueries lib qs w = Some w' \<and> sameQueries lib w' \<and>
      (qs \<noteq> [] \<longrightarrow> elems lib w' = filter_mset (\<lambda>x. \<not> expired (qu_timestamp (last qs)) x) (elems lib w + mset qs))"
proof (induction qs arbitrary: w)
  case Nil
  then show ?case by simp
next
  case (Cons q qs)
  from Cons.prems have "qu_queryID q \<notin> qu_queryID ` set_mset (elems lib w)" by auto
  from addQuery_new [OF lib Cons.prems(1) this] obtain v where v: "addQuery lib (qu_timestamp q) (qu_queryID q) q w = Some v"
    "sameQueries lib v" "elems lib v = add_mset q (filter_mset (\<lambda>x. \<not> expired (qu_timestamp q) x) (elems lib w))" by blast
  have "set (map qu_queryID qs) \<inter> qu_queryID ` set_mset (elems lib v) = {}"
    using Cons.prems(2,4) by (auto simp: v(3))
  with Cons.IH [OF v(2)] Cons.prems(2,3) obtain w' where w': "runQueries lib qs v = Some w'" "sameQueries lib w'"
    "qs \<noteq> [] \<longrightarrow> elems lib w' = filter_mset (\<lambda>x. \<not> expired (qu_timestamp (last qs)) x) (elems lib v + mset qs)" by auto
  have now: "\<not> expired (qu_timestamp q) q" by (rule not_expired_new) simp
  have "elems lib w' = filter_mset (\<lambda>x. \<not> expired (qu_timestamp (last (q # qs))) x) (elems lib w + mset (q # qs))"
  proof (cases "qs = []")
    case True
    with w'(1) v(3) now show ?thesis by simp
  next
    case False
    with Cons.prems(3) have "qu_timestamp q \<le> qu_timestamp (last qs)" by simp
    then have "filter_mset (\<lambda>x. \<not> expired (qu_timestamp (last qs)) x) (filter_mset (\<lambda>x. \<not> expired (qu_timestamp q) x) (elems lib w)) =
        filter_mset (\<lambda>x. \<not> expired (qu_timestamp (last qs)) x) (elems lib w)"
      using expired_later by (auto simp: filter_filter_mset intro: filter_mset_cong)
    with w'(3) False show ?thesis by (simp add: v(3))
  qed
  with w'(1,2) v(1) show ?case by auto
qed

lemma newOutstanding_same: "heap_ok compareQueryTimestamps lib \<Longrightarrow> sameQueries lib (newOutstanding lib) \<and> elems lib (newOutstanding lib) = {#}"
  by (simp add: sameQueries_def newOutstanding_def heap_ok_def)

text \<open>A query in the map that has lost its entry in the queue stays.\<close>

lemma leaked_stays:
  assumes lib: "heap_ok compareQueryTimestamps lib"
  shows "map_of (oq_map w) i = Some f \<Longrightarrow> i \<notin> qu_queryID ` set_mset (elems lib w) \<Longrightarrow>
    i \<notin> set (map qu_queryID qs) \<Longrightarrow> \<exists>w'. runQueries lib qs w = Some w' \<and> map_of (oq_map w') i = Some f"
proof (induction qs arbitrary: w)
  case (Cons q qs)
  obtain v where v: "cleanUpExpiredQueries lib (qu_timestamp q) w = Some v"
    "elems lib v = filter_mset (\<lambda>x. \<not> expired (qu_timestamp q) x) (elems lib w)"
    "oq_map v = withoutIds (qu_queryID ` set_mset (filter_mset (expired (qu_timestamp q)) (elems lib w))) (oq_map w)"
    using cleanUp_result [OF lib] by blast
  from Cons.prems have m: "map_of (oq_map v) i = Some f" "i \<notin> qu_queryID ` set_mset (elems lib v)"
    by (auto simp: v(2,3) map_of_withoutIds)
  have enq: "hq_elems lib (hq_enqueue lib u x) = add_mset x (hq_elems lib u)" for u x
    using lib by (simp add: heap_ok_def)
  have deq: "set_mset (hq_elems lib (hq_dequeue lib u)) \<subseteq> set_mset (hq_elems lib u)" for u
    by (rule heap_cases [OF lib, of u]) (use lib in \<open>auto simp: heap_ok_def dest: in_diffD\<close>)
  let ?v = "if map_of (oq_map v) (qu_queryID q) = None then putQuery lib (qu_queryID q) q v
            else putQuery lib (qu_queryID q) q (removeQuery lib q v)"
  have "map_of (oq_map ?v) i = Some f" "i \<notin> qu_queryID ` set_mset (elems lib ?v)"
    using m Cons.prems(3) deq [of "oq_queue v"] by (auto simp: putQuery_def removeQuery_def enq)
  from Cons.IH [OF this] Cons.prems(3) show ?case by (simp add: addQuery_def v(1))
qed simp

section \<open>Keepalive messages: the gaps between messages\<close>

text \<open>The background job checks at \<open>Check t\<close>; at \<open>Publish t m\<close> the node publishes a message of its own.\<close>

datatype keepalive_event = Check (ke_time: int) | Publish (ke_time: int) pubsub_message

fun keepaliveStep :: "keepalive_env \<Rightarrow> keepalive_event \<Rightarrow> keepalive \<Rightarrow> keepalive" where
  "keepaliveStep env (Check t) k = publishPubsubKeepaliveIfNeeded env t k"
| "keepaliveStep env (Publish t m) k = keepaliveNext t m k"

text \<open>The times do not go back, and a check comes at most \<open>step\<close> after the last one, \<open>c\<close>.\<close>

fun checksEvery :: "int \<Rightarrow> int \<Rightarrow> int \<Rightarrow> keepalive_event list \<Rightarrow> bool" where
  "checksEvery step c now [] = True"
| "checksEvery step c now (e # es) = (now \<le> ke_time e \<and> ke_time e \<le> c + step \<and>
     checksEvery step (case e of Check t \<Rightarrow> t | Publish _ _ \<Rightarrow> c) (ke_time e) es)"

lemma keepaliveNext_simps [simp]:
  "ka_lastPublishedMessageDate (keepaliveNext t m k) = t" "ka_sent (keepaliveNext t m k) = ka_sent k @ [(t, m)]"
  by (simp_all add: keepaliveNext_def Let_def)

fun gapsBelow :: "int \<Rightarrow> int \<Rightarrow> int list \<Rightarrow> bool" where
  "gapsBelow d t0 [] = True"
| "gapsBelow d t0 (t # ts) = (t - t0 < d \<and> gapsBelow d t ts)"

lemma keepalive_run:
  assumes "2 * step \<le> kv_maxPubsubPublishInterval env" and "0 \<le> step" and "0 < kv_maxPubsubPublishInterval env"
  shows "checksEvery step c now es \<Longrightarrow> now \<le> c + step \<Longrightarrow> ka_lastPublishedMessageDate k \<le> now \<Longrightarrow>
    2 * (c - ka_lastPublishedMessageDate k) < kv_maxPubsubPublishInterval env \<Longrightarrow>
    \<exists>sent. ka_sent (fold (keepaliveStep env) es k) = ka_sent k @ sent \<and>
      gapsBelow (kv_maxPubsubPublishInterval env) (ka_lastPublishedMessageDate k) (map fst sent) \<and>
      last (now # map ke_time es) - ka_lastPublishedMessageDate (fold (keepaliveStep env) es k) < kv_maxPubsubPublishInterval env"
proof (induction es arbitrary: c now k)
  case Nil
  then show ?case using assms by simp
next
  case (Cons e es)
  let ?k = "keepaliveStep env e k" and ?t = "ke_time e"
  let ?c = "case e of Check t \<Rightarrow> t | Publish _ _ \<Rightarrow> c"
  from Cons.prems assms have gap: "?t - ka_lastPublishedMessageDate k < kv_maxPubsubPublishInterval env" by simp
  have gap': "?k = k \<and> (case e of Check _ \<Rightarrow> 2 * (?t - ka_lastPublishedMessageDate k) < kv_maxPubsubPublishInterval env | _ \<Rightarrow> False) \<or>
      (\<exists>m. ?k = keepaliveNext ?t m k)"
    by (cases e) (auto simp: publishPubsubKeepaliveIfNeeded_def Let_def)
  have after: "checksEvery step ?c ?t es" "?t \<le> ?c + step" "ka_lastPublishedMessageDate ?k \<le> ?t"
    "2 * (?c - ka_lastPublishedMessageDate ?k) < kv_maxPubsubPublishInterval env"
    using Cons.prems gap' assms by (auto split: keepalive_event.splits)
  from Cons.IH [OF after] obtain sent where "ka_sent (fold (keepaliveStep env) es ?k) = ka_sent ?k @ sent"
    "gapsBelow (kv_maxPubsubPublishInterval env) (ka_lastPublishedMessageDate ?k) (map fst sent)"
    "last (?t # map ke_time es) - ka_lastPublishedMessageDate (fold (keepaliveStep env) es ?k) < kv_maxPubsubPublishInterval env" by blast
  with gap' gap show ?case by (elim disjE) auto
qed

section \<open>Properties\<close>

text \<open>A priority queue with the laws of the library.\<close>

definition sampleHeap :: "query list heap_lib" where
  "sampleHeap = \<lparr>hq_new = [], hq_enqueue = (\<lambda>q x. q @ [x]),
     hq_dequeue = (\<lambda>q. if q = [] then [] else remove1 (arg_min_list qu_timestamp q) q),
     hq_front = (\<lambda>q. if q = [] then None else Some (arg_min_list qu_timestamp q)), hq_elems = mset\<rparr>"

lemma sampleHeap_ok: "heap_ok compareQueryTimestamps sampleHeap"
proof -
  have "qu_timestamp (arg_min_list qu_timestamp q) \<le> qu_timestamp y" if "y \<in> set q" for q y
  proof -
    from that have "q \<noteq> []" by auto
    with that show ?thesis by (simp add: f_arg_min_list_f)
  qed
  then show ?thesis by (auto simp: heap_ok_def sampleHeap_def compare_le arg_min_list_in)
qed

definition sampleQueryA :: query where
  "sampleQueryA = \<lparr>qu_timestamp = 0, qu_streamID = StreamID 0 (CID [1]), qu_queryID = ''a''\<rparr>"

definition sampleQueryB :: query where
  "sampleQueryB = \<lparr>qu_timestamp = 5, qu_streamID = StreamID 0 (CID [2]), qu_queryID = ''b''\<rparr>"

definition sampleOutstanding :: "query list outstanding" where
  "sampleOutstanding = \<lparr>oq_queue = [sampleQueryA, sampleQueryB], oq_map = [(''a'', sampleQueryA), (''b'', sampleQueryB)]\<rparr>"

lemma sampleOutstanding_same: "sameQueries sampleHeap sampleOutstanding"
  by (auto simp: sameQueries_def sampleOutstanding_def sampleHeap_def sampleQueryA_def sampleQueryB_def)

text \<open>
  The outstanding queries are those of the last two minutes. If no id is used twice, adding queries
  always returns, and afterwards a response finds exactly the query with its id that was less than two
  minutes old when the last one was added: no query is dropped early, none is kept.
\<close>

theorem outstanding_exact:
  assumes "heap_ok compareQueryTimestamps lib" and "distinct (map qu_queryID qs)" and "sorted (map qu_timestamp qs)" and "qs \<noteq> []"
  shows "\<exists>w. runQueries lib qs (newOutstanding lib) = Some w \<and>
    (\<forall>i q. map_of (oq_map w) i = Some q \<longleftrightarrow>
       q \<in> set qs \<and> qu_queryID q = i \<and> qu_timestamp (last qs) - qu_timestamp q < 120000)"
proof -
  have "expired now q \<longleftrightarrow> 120000 \<le> now - qu_timestamp q" for now q
    by (simp add: isExpired_def minutesThreshold_def) linarith
  moreover note runQueries_new [OF assms(1) conjunct1 [OF newOutstanding_same [OF assms(1)]] assms(2,3)]
  ultimately show ?thesis
    using assms(4) conjunct2 [OF newOutstanding_same [OF assms(1)]] by (force simp: sameQueries_def)
qed

theorem outstanding_exact_witness:
  "\<exists>w. runQueries sampleHeap [sampleQueryA, sampleQueryB] (newOutstanding sampleHeap) = Some w \<and>
     map_of (oq_map w) ''a'' = Some sampleQueryA"
proof -
  have "distinct (map qu_queryID [sampleQueryA, sampleQueryB])" "sorted (map qu_timestamp [sampleQueryA, sampleQueryB])"
    by (simp_all add: sampleQueryA_def sampleQueryB_def)
  from outstanding_exact [OF sampleHeap_ok this] show ?thesis
    by (auto simp: sampleQueryA_def sampleQueryB_def)
qed

text \<open>
  Asking again for a stream makes another query immortal. If a query is added whose id is outstanding,
  while the oldest query \<open>f\<close> in the queue is another one, the entry of \<open>f\<close> is taken from the queue and \<open>f\<close>
  stays in the map for ever, whatever queries come later and whenever they come, as long as none has
  the id of \<open>f\<close>.
\<close>

theorem replaced_query_leaks:
  assumes "heap_ok compareQueryTimestamps lib" and "sameQueries lib w" and "hq_front lib (oq_queue w) = Some f"
    and "\<not> isExpired (qu_timestamp q) (Some f)" and "map_of (oq_map w) (qu_queryID q) \<noteq> None" and "qu_queryID q \<noteq> qu_queryID f"
    and "count (elems lib w) f = 1" and "qu_queryID f \<notin> set (map qu_queryID later)"
  shows "\<exists>w'. runQueries lib (q # later) w = Some w' \<and> map_of (oq_map w') (qu_queryID f) = Some f"
proof -
  note lib = assms(1)
  have enq: "hq_elems lib (hq_enqueue lib u x) = add_mset x (hq_elems lib u)" for u x
    using lib by (simp add: heap_ok_def)
  have f: "f \<in># elems lib w" and deq: "hq_elems lib (hq_dequeue lib (oq_queue w)) = elems lib w - {#f#}"
    by (rule heap_cases [OF lib, of "oq_queue w"]; use assms(3) in simp)+
  have clean: "cleanUpExpiredQueries lib (qu_timestamp q) w = Some w"
    using assms(3,4) by (simp add: cleanUpExpiredQueries.simps [of lib _ w])
  let ?w = "putQuery lib (qu_queryID q) q (removeQuery lib q w)"
  have map: "map_of (oq_map w) (qu_queryID f) = Some f" using f assms(2) by (simp add: sameQueries_def)
  have "x = f" if "x \<in># elems lib w" "qu_queryID x = qu_queryID f" for x
    using assms(2) f that unfolding sameQueries_def by (metis option.inject)
  moreover have "f \<notin># elems lib w - {#f#}" using assms(7) by (simp add: not_in_iff)
  ultimately have "qu_queryID x \<noteq> qu_queryID f" if "x \<in># elems lib w - {#f#}" for x
    using that by (metis in_diffD)
  then have "qu_queryID f \<notin> qu_queryID ` set_mset (elems lib ?w)"
    using assms(6) by (force simp: putQuery_def removeQuery_def enq deq)
  moreover have "map_of (oq_map ?w) (qu_queryID f) = Some f"
    using map assms(6) by (simp add: putQuery_def removeQuery_def)
  ultimately show ?thesis
    using leaked_stays [OF lib _ _ assms(8), of ?w] assms(5) by (auto simp: addQuery_def clean)
qed

theorem replaced_query_leaks_witness:
  "\<exists>w'. runQueries sampleHeap [sampleQueryB\<lparr>qu_timestamp := 6\<rparr>, \<lparr>qu_timestamp = 10 ^ 9, qu_streamID = StreamID 0 (CID [3]), qu_queryID = ''c''\<rparr>]
     sampleOutstanding = Some w' \<and> map_of (oq_map w') ''a'' = Some sampleQueryA"
proof -
  let ?q = "sampleQueryB\<lparr>qu_timestamp := 6\<rparr>"
  have "hq_front sampleHeap (oq_queue sampleOutstanding) = Some sampleQueryA" by code_simp
  moreover have "\<not> isExpired (qu_timestamp ?q) (Some sampleQueryA)" by code_simp
  moreover have "map_of (oq_map sampleOutstanding) (qu_queryID ?q) \<noteq> None" "qu_queryID ?q \<noteq> qu_queryID sampleQueryA"
    by (simp_all add: sampleOutstanding_def sampleQueryA_def sampleQueryB_def)
  moreover have "count (elems sampleHeap sampleOutstanding) sampleQueryA = 1"
    by (simp add: sampleHeap_def sampleOutstanding_def sampleQueryA_def sampleQueryB_def)
  moreover have "qu_queryID sampleQueryA = ''a''" by (simp add: sampleQueryA_def)
  ultimately show ?thesis
    using replaced_query_leaks [OF sampleHeap_ok sampleOutstanding_same, of sampleQueryA ?q
        "[\<lparr>qu_timestamp = 10 ^ 9, qu_streamID = StreamID 0 (CID [3]), qu_queryID = ''c''\<rparr>]"] by simp
qed

text \<open>
  The topic is never silent for as long as \<open>maxPubsubPublishInterval\<close>. If the background job checks at
  least every half of that interval, starting from a check at time \<open>c\<close>, then, whatever other messages the
  node publishes in between, the times of any two consecutive messages after \<open>c\<close>, and the time since the
  last of them, differ by less than the interval.
\<close>

theorem keepalive_gaps:
  assumes "2 * step \<le> kv_maxPubsubPublishInterval env" and "0 \<le> step" and "0 < kv_maxPubsubPublishInterval env"
    and "ka_lastPublishedMessageDate k \<le> c" and "checksEvery step c c es"
  shows "let k1 = publishPubsubKeepaliveIfNeeded env c k; k2 = fold (keepaliveStep env) es k1 in
    \<exists>sent. ka_sent k2 = ka_sent k1 @ sent \<and>
      gapsBelow (kv_maxPubsubPublishInterval env) (ka_lastPublishedMessageDate k1) (map fst sent) \<and>
      last (c # map ke_time es) - ka_lastPublishedMessageDate k2 < kv_maxPubsubPublishInterval env"
proof -
  let ?k = "publishPubsubKeepaliveIfNeeded env c k"
  have "ka_lastPublishedMessageDate ?k \<le> c" "2 * (c - ka_lastPublishedMessageDate ?k) < kv_maxPubsubPublishInterval env"
    using assms(3,4) by (auto simp: publishPubsubKeepaliveIfNeeded_def Let_def)
  from keepalive_run [OF assms(1-3,5) _ this] assms(2) show ?thesis by (simp add: Let_def)
qed

theorem keepalive_gaps_witness:
  "let env = \<lparr>kv_maxPubsubPublishInterval = 60, kv_maxIntervalWithoutKeepalive = 10 ^ 6, kv_version = ''1'', kv_ipfsVersion = ''2''\<rparr>;
       k1 = publishPubsubKeepaliveIfNeeded env 1000 (newKeepalive env 1000);
       k2 = fold (keepaliveStep env) [Check 1030, Publish 1040 (QueryMessage ''q'' (StreamID 0 (CID []))), Check 1060] k1 in
   \<exists>sent. ka_sent k2 = ka_sent k1 @ sent \<and> gapsBelow 60 1000 (map fst sent)"
  using keepalive_gaps [of 30 "\<lparr>kv_maxPubsubPublishInterval = 60, kv_maxIntervalWithoutKeepalive = 10 ^ 6, kv_version = ''1'', kv_ipfsVersion = ''2''\<rparr>"
      "newKeepalive \<lparr>kv_maxPubsubPublishInterval = 60, kv_maxIntervalWithoutKeepalive = 10 ^ 6, kv_version = ''1'', kv_ipfsVersion = ''2''\<rparr> 1000" 1000
      "[Check 1030, Publish 1040 (QueryMessage ''q'' (StreamID 0 (CID []))), Check 1060]"]
  by (auto simp: Let_def newKeepalive_def publishPubsubKeepaliveIfNeeded_def)

text \<open>Queries that wait for the rate limit are bounded, and nothing that is no query ever waits.\<close>

lemma pending_bounded:
  assumes "length (mb_pending b) \<le> maxQueuedQueries env"
  shows "length (mb_pending (busNext env m b)) \<le> maxQueuedQueries env"
  using assms by (auto simp: busNext_def rateLimitNext_def sendNow_def)

end
