(* ===== verification/LruCache.thy ===== *)
theory LruCache
  imports StateCache
begin

text \<open>
  The maps that the library \<open>least-recent\<close> bounds: an association list and the choice, by the library, of
  the entry that is dropped after one was added.
\<close>

definition lruSet :: "evict_fn \<Rightarrow> (string \<times> 'a) list \<Rightarrow> string \<Rightarrow> 'a \<Rightarrow> (string \<times> 'a) list" where
  "lruSet evict m k v = (let m' = mapSet m k v in case evict (map fst m') of None \<Rightarrow> m' | Some e \<Rightarrow> mapDelete m' e)"

lemma lruSet_map:
  "map_of (lruSet evict m k v) l = Some u \<Longrightarrow> l = k \<and> u = v \<or> l \<noteq> k \<and> map_of m l = Some u"
  by (auto simp: lruSet_def Let_def split: option.splits if_splits)

lemma lruSet_kept: "evict (map fst (mapSet m k v)) \<noteq> Some k \<Longrightarrow> map_of (lruSet evict m k v) k = Some v"
  by (auto simp: lruSet_def Let_def split: option.splits)

end
