(* ===== verification/Dispatcher.thy ===== *)
theory Dispatcher
  imports MessageBus LruCache RepositoryTheorems
begin

text \<open>
  The dispatcher between the network and the repository of a node (\<open>core/src/dispatcher.ts\<close>): the tips
  the node publishes become messages on the bus, and the messages of other nodes become updates of the
  repository.
\<close>

section \<open>State\<close>

text \<open>\<open>dp_pubsubCache\<close>: the tips processed recently, each with the StreamID it came with.\<close>

record 'q dispatcher =
  dp_repo :: repo
  dp_pubsubCache :: "(string \<times> string) list"
  dp_bus :: "'q message_bus"

record 'q dispatcher_env =
  de_surroundings :: surroundings
  de_enableSync :: bool
  de_evict :: evict_fn
  de_bus :: "'q bus_env"

type_synonym ('q, 'a) dispatch = "('q dispatcher, 'a) ef"

section \<open>Publishing\<close>

definition publish :: "'q dispatcher_env \<Rightarrow> pubsub_message \<Rightarrow> 'q dispatcher \<Rightarrow> 'q dispatcher" where
  "publish env message w = w\<lparr>dp_bus := busNext (de_bus env) message (dp_bus w)\<rparr>"

definition publishTipMessage :: "'q dispatcher_env \<Rightarrow> stream_id \<Rightarrow> cid \<Rightarrow> stream_id option \<Rightarrow> 'q dispatcher \<Rightarrow> 'q dispatcher" where
  "publishTipMessage env streamId tip model w =
     (if \<not> de_enableSync env then w else publish env (UpdateMessage streamId tip model) w)"

text \<open>
  A command of the repository, with the tips that it publishes: those it adds to \<open>rp_published\<close>.
\<close>

definition repoE :: "'q dispatcher_env \<Rightarrow> (surroundings \<Rightarrow> 'a act) \<Rightarrow> ('q, 'a) dispatch" where
  "repoE env m w =
     (let (r, rp) = m (de_surroundings env) (dp_repo w);
          published = drop (length (rp_published (dp_repo w))) (rp_published rp)
      in (r, fold (\<lambda>(streamId, tip, model).
               publishTipMessage env streamId tip (case model of SidV m \<Rightarrow> Some m | _ \<Rightarrow> None)) published
             (w\<lparr>dp_repo := rp\<rparr>)))"

section \<open>Messages from the network\<close>

definition cidText :: "'q dispatcher_env \<Rightarrow> cid \<Rightarrow> string" where
  "cidText env c = cidToString (en_codec (de_surroundings env)) c"

definition sidText :: "'q dispatcher_env \<Rightarrow> stream_id \<Rightarrow> string" where
  "sidText env sid = idString (de_surroundings env) sid"

definition dispatchTip :: "'q dispatcher_env \<Rightarrow> cid \<Rightarrow> stream_id \<Rightarrow> stream_id option \<Rightarrow> ('q, unit) dispatch" where
  "dispatchTip env tip streamId model =
     bindE (getE (\<lambda>w. map_of (dp_pubsubCache w) (cidText env tip) = Some (sidText env streamId))) (\<lambda>seen.
     if seen then returnE ()
     else
       bindE (modifyE (\<lambda>w. w\<lparr>dp_pubsubCache := lruSet (de_evict env) (dp_pubsubCache w) (cidText env tip) (sidText env streamId)\<rparr>)) (\<lambda>_.
       repoE env (\<lambda>s. handleUpdateFromNetwork s streamId tip model)))"

definition handleUpdateMessage :: "'q dispatcher_env \<Rightarrow> stream_id \<Rightarrow> cid \<Rightarrow> stream_id option \<Rightarrow> ('q, unit) dispatch" where
  "handleUpdateMessage env stream tip model =
     (if \<not> de_enableSync env then returnE () else dispatchTip env tip stream model)"

definition handleQueryMessage :: "'q dispatcher_env \<Rightarrow> string \<Rightarrow> stream_id \<Rightarrow> ('q, unit) dispatch" where
  "handleQueryMessage env i streamId =
     bindE (repoE env (\<lambda>s. streamStateOf s streamId)) (\<lambda>streamState. case streamState of
       None \<Rightarrow> returnE ()
     | Some st \<Rightarrow>
         if st_log st = [] then throwE TypeErr
         else modifyE (publish env (ResponseMessage i [(sidText env streamId, le_cid (last (st_log st)))])))"

definition handleResponseMessage :: "'q dispatcher_env \<Rightarrow> string \<Rightarrow> (string \<times> cid) list \<Rightarrow> ('q, unit) dispatch" where
  "handleResponseMessage env queryId tips =
     (if \<not> de_enableSync env then returnE ()
      else
        bindE (getE (\<lambda>w. map_of (oq_map (mb_outstanding (dp_bus w))) queryId)) (\<lambda>outstandingQuery. case outstandingQuery of
          None \<Rightarrow> returnE ()
        | Some q \<Rightarrow> (case map_of tips (sidText env (qu_streamID q)) of
            None \<Rightarrow> throwE (Err ''Response to query is missing expected new tip'')
          | Some newTip \<Rightarrow> dispatchTip env newTip (qu_streamID q) None)))"

text \<open>Errors are logged.\<close>

definition handleMessage :: "'q dispatcher_env \<Rightarrow> pubsub_message \<Rightarrow> ('q, unit) dispatch" where
  "handleMessage env message =
     catchE (case message of
         UpdateMessage stream tip model \<Rightarrow> handleUpdateMessage env stream tip model
       | QueryMessage i stream \<Rightarrow> handleQueryMessage env i stream
       | ResponseMessage i tips \<Rightarrow> handleResponseMessage env i tips
       | KeepaliveMessage _ _ _ \<Rightarrow> returnE ())
       (\<lambda>_. returnE ())"

definition closeDispatcher :: "'q dispatcher_env \<Rightarrow> 'q dispatcher \<Rightarrow> 'q dispatcher" where
  "closeDispatcher env w = (if de_enableSync env then w\<lparr>dp_bus := busUnsubscribe (dp_bus w)\<rparr> else w)"

section \<open>What a message does to the repository\<close>

lemma catch_log: "snd (catchE m (\<lambda>_. returnE ()) w) = snd (m w)"
  by (auto simp: catchE_def ef_simps split: prod.split sum.split)

lemma publish_repo [simp]: "dp_repo (publish env m w) = dp_repo w" "dp_pubsubCache (publish env m w) = dp_pubsubCache w"
  by (simp_all add: publish_def)

lemma publishTip_repo [simp]:
  "dp_repo (publishTipMessage env s t m w) = dp_repo w" "dp_pubsubCache (publishTipMessage env s t m w) = dp_pubsubCache w"
  by (simp_all add: publishTipMessage_def)

lemma publishTips_repo [simp]:
  "dp_repo (fold (\<lambda>(s, t, m). publishTipMessage env s t (f m)) ps w) = dp_repo w \<and>
   dp_pubsubCache (fold (\<lambda>(s, t, m). publishTipMessage env s t (f m)) ps w) = dp_pubsubCache w"
  by (induction ps arbitrary: w) auto

lemma repoE_repo:
  "fst (repoE env m w) = fst (m (de_surroundings env) (dp_repo w))"
  "dp_repo (snd (repoE env m w)) = snd (m (de_surroundings env) (dp_repo w))"
  "dp_pubsubCache (snd (repoE env m w)) = dp_pubsubCache w"
  using publishTips_repo by (simp_all add: repoE_def Let_def case_prod_beta)

text \<open>Reading the state of a stream changes nothing.\<close>

lemma streamStateOf_pure: "snd (streamStateOf env sid w) = w"
  by (auto simp: streamStateOf_def bindE_def ef_simps split: option.split sum.split)

lemma repoE_pure: "snd (repoE env (\<lambda>s. streamStateOf s sid) w) = w"
proof -
  obtain r where "streamStateOf (de_surroundings env) sid (dp_repo w) = (r, dp_repo w)"
    using streamStateOf_pure [of "de_surroundings env" sid "dp_repo w"] by (metis prod.collapse)
  then show ?thesis by (simp add: repoE_def)
qed

lemma dispatchTip_run:
  "dispatchTip env tip sid model w =
     (if map_of (dp_pubsubCache w) (cidText env tip) = Some (sidText env sid) then (Inr (), w)
      else repoE env (\<lambda>s. handleUpdateFromNetwork s sid tip model)
        (w\<lparr>dp_pubsubCache := lruSet (de_evict env) (dp_pubsubCache w) (cidText env tip) (sidText env sid)\<rparr>))"
  by (simp add: dispatchTip_def ef_simps)



section \<open>Properties\<close>


text \<open>
  A tip is processed once. After an update with a tip and a StreamID, unless the cache drops it at once,
  the same tip for the same stream is ignored, whatever model it names, also when processing it failed;
  the same tip for another stream is processed, so that a forged message cannot keep a node from a tip.
\<close>

theorem tip_processed_once:
  assumes "de_enableSync env" and "\<forall>ks. de_evict env ks \<noteq> Some (cidText env tip)"
    and "handleMessage env (UpdateMessage streamId tip model) w = (r, w')"
  shows "handleMessage env (UpdateMessage streamId tip model2) w' = (Inr (), w') \<and>
    (sidText env other \<noteq> sidText env streamId \<longrightarrow>
      dp_repo (snd (handleMessage env (UpdateMessage other tip model2) w')) =
      snd (handleUpdateFromNetwork (de_surroundings env) other tip model2 (dp_repo w')))"
proof (intro conjI impI)
  have "w' = snd (dispatchTip env tip streamId model w)"
    using assms(1,3) catch_log [of "dispatchTip env tip streamId model" w] by (simp add: handleMessage_def handleUpdateMessage_def)
  then have seen: "map_of (dp_pubsubCache w') (cidText env tip) = Some (sidText env streamId)"
    using assms(2) by (simp add: dispatchTip_run repoE_repo lruSet_kept)
  then show "handleMessage env (UpdateMessage streamId tip model2) w' = (Inr (), w')"
    using assms(1) by (simp add: handleMessage_def handleUpdateMessage_def dispatchTip_run catchE_def)
  assume "sidText env other \<noteq> sidText env streamId"
  with seen assms(1) show "dp_repo (snd (handleMessage env (UpdateMessage other tip model2) w')) =
      snd (handleUpdateFromNetwork (de_surroundings env) other tip model2 (dp_repo w'))"
    by (simp add: handleMessage_def handleUpdateMessage_def catch_log dispatchTip_run repoE_repo)
qed

text \<open>
  A response changes only what was asked for. A response whose id is not that of an outstanding query
  changes nothing at all, nor does one without a tip for the stream that was asked for; otherwise the
  repository is updated, if at all, with this stream and its tip in the response, whatever else it holds.
\<close>

theorem response_only_asked:
  "let w' = snd (handleMessage env (ResponseMessage i tips) w) in
   case map_of (oq_map (mb_outstanding (dp_bus w))) i of
     None \<Rightarrow> w' = w
   | Some q \<Rightarrow> (case map_of tips (sidText env (qu_streamID q)) of
       None \<Rightarrow> w' = w
     | Some tip \<Rightarrow> w' = w \<or> dp_repo w' = snd (handleUpdateFromNetwork (de_surroundings env) (qu_streamID q) tip None (dp_repo w)))"
  by (auto simp: catch_log handleMessage_def handleResponseMessage_def ef_simps Let_def dispatchTip_run repoE_repo split: option.split)

text \<open>
  A query is answered with the current tip. If the node has a state of the stream in memory or in its
  store, one message goes to the bus: the response with the id of the query and the last commit of the
  log; otherwise, or if the state cannot be read, nothing is sent. The repository stays as it is.
\<close>

theorem query_answered:
  "snd (handleMessage env (QueryMessage i stream) w) =
   (case fst (streamStateOf (de_surroundings env) stream (dp_repo w)) of
      Inr (Some st) \<Rightarrow> if st_log st = [] then w
        else publish env (ResponseMessage i [(sidText env stream, le_cid (last (st_log st)))]) w
    | _ \<Rightarrow> w)"
proof -
  have "repoE env (\<lambda>s. streamStateOf s stream) w = (fst (streamStateOf (de_surroundings env) stream (dp_repo w)), w)"
    using repoE_pure [of env stream w] repoE_repo(1) [of env "\<lambda>s. streamStateOf s stream" w] by (metis prod.collapse)
  then show ?thesis
    by (auto simp: catch_log handleMessage_def handleQueryMessage_def bindE_def ef_simps split: sum.split option.split)
qed

section \<open>A sample\<close>

definition sampleDispatcherEnv :: "query list dispatcher_env" where
  "sampleDispatcherEnv = \<lparr>de_surroundings = sampleSurroundings, de_enableSync = True, de_evict = (\<lambda>_. None),
     de_bus = \<lparr>be_now = 0, be_mayStart = True, be_queriesPerSecond = 1, be_heap = sampleHeap, be_codec = sampleLib, be_hash = (\<lambda>_. [])\<rparr>\<rparr>"

definition sampleDispatcher :: "query list dispatcher" where
  "sampleDispatcher = \<lparr>dp_repo = emptyRepo (Some []), dp_pubsubCache = [],
     dp_bus = \<lparr>mb_closed = False, mb_peerSyncDisabled = False, mb_pending = [],
       mb_keepalive = \<lparr>ka_lastPublishedMessageDate = 0, ka_lastPublishedKeepAliveMessageDate = 0, ka_sent = []\<rparr>,
       mb_outstanding = newOutstanding sampleHeap\<rparr>\<rparr>"


theorem tip_processed_once_witness:
  "let w' = snd (handleMessage sampleDispatcherEnv (UpdateMessage sampleId (CID [2]) None) sampleDispatcher) in
     handleMessage sampleDispatcherEnv (UpdateMessage sampleId (CID [2]) None) w' = (Inr (), w')"
proof -
  let ?h = "handleMessage sampleDispatcherEnv (UpdateMessage sampleId (CID [2]) None) sampleDispatcher"
  have "?h = (fst ?h, snd ?h)" by simp
  from tip_processed_once [OF _ _ this] show ?thesis by (simp add: sampleDispatcherEnv_def Let_def)
qed

end
