(* ===== verification/IpfsAccess.thy ===== *)
theory IpfsAccess
  imports LogSync LruCache
begin

text \<open>
  How a node reads and writes IPFS (\<open>core/src/dispatcher.ts\<close>, \<open>core/src/store/ipld-records-cache.ts\<close>):
  retrieval of commits and records through a cache with retries, and storing of events as CAR files.
  IPFS, Recon, the codecs of IPLD and the CAR and LRU libraries are parameters. Their answers may change
  from request to request, so that each request has a number.
\<close>

section \<open>The cache of records\<close>

record cache_entry =
  ce_record :: js
  ce_block :: "byte list"

type_synonym records_cache = "(string \<times> cache_entry) list"

text \<open>
  \<open>io_put\<close> is \<open>put\<close> of the CAR library: the block of a value, by DAG-JOSE or by the default codec, with
  its CID. \<open>blocks.put\<close> of the library takes the CID it is given.
\<close>

record car =
  car_blocks :: "(cid \<times> byte list) list"
  car_roots :: "cid list"

record ipfs_env =
  io_codec :: codec_lib
  io_evict :: evict_fn
  io_blockGet :: "nat \<Rightarrow> cid \<Rightarrow> js_error + byte list"
  io_resolve :: "nat \<Rightarrow> cid \<Rightarrow> string \<Rightarrow> js_error + cid"
  io_dagGet :: "nat \<Rightarrow> cid \<Rightarrow> js_error + js"
  io_dagPut :: "nat \<Rightarrow> js \<Rightarrow> js_error + cid"
  io_getCodec :: "cid \<Rightarrow> js_error + unit"
  io_decode :: "cid \<Rightarrow> byte list \<Rightarrow> js_error + js"
  io_encode :: "cid \<Rightarrow> js \<Rightarrow> js_error + byte list"
  io_errorCode :: "js_error \<Rightarrow> string"
  io_errorName :: "js_error \<Rightarrow> string"
  io_put :: "bool \<Rightarrow> js \<Rightarrow> js_error + cid \<times> byte list"
  io_decodeProtected :: "js \<Rightarrow> js_error + js"
  io_dagImport :: "nat \<Rightarrow> car \<Rightarrow> js_error + unit"
  io_reconPut :: "nat \<Rightarrow> car \<Rightarrow> js_error + unit"
  io_useRustCeramic :: bool

definition cacheKey :: "ipfs_env \<Rightarrow> cid \<Rightarrow> string" where
  "cacheKey env c = cidToString (io_codec env) c"

definition ipldSet :: "ipfs_env \<Rightarrow> cid \<Rightarrow> cache_entry \<Rightarrow> records_cache \<Rightarrow> records_cache" where
  "ipldSet env c entry m = lruSet (io_evict env) m (cacheKey env c) entry"

definition ipldSetRecord :: "ipfs_env \<Rightarrow> cid \<Rightarrow> js \<Rightarrow> records_cache \<Rightarrow> js_error + records_cache" where
  "ipldSetRecord env c record m =
     (if map_of m (cacheKey env c) \<noteq> None then Inr m
      else bindR (io_getCodec env c) (\<lambda>_. bindR (io_encode env c record) (\<lambda>block.
        Inr (lruSet (io_evict env) m (cacheKey env c) \<lparr>ce_record = record, ce_block = block\<rparr>))))"

definition ipldSetBlock :: "ipfs_env \<Rightarrow> cid \<Rightarrow> byte list \<Rightarrow> records_cache \<Rightarrow> js_error + records_cache" where
  "ipldSetBlock env c bytes m =
     (if map_of m (cacheKey env c) \<noteq> None then Inr m
      else bindR (io_getCodec env c) (\<lambda>_. bindR (io_decode env c bytes) (\<lambda>record.
        Inr (lruSet (io_evict env) m (cacheKey env c) \<lparr>ce_record = record, ce_block = bytes\<rparr>))))"

definition ipldGet :: "ipfs_env \<Rightarrow> cid \<Rightarrow> records_cache \<Rightarrow> cache_entry option" where
  "ipldGet env c m = map_of m (cacheKey env c)"

definition setWithResolutionPath :: "ipfs_env \<Rightarrow> string \<Rightarrow> cache_entry \<Rightarrow> records_cache \<Rightarrow> records_cache" where
  "setWithResolutionPath env query entry m = lruSet (io_evict env) m query entry"

definition getWithResolutionPath :: "string \<Rightarrow> records_cache \<Rightarrow> cache_entry option" where
  "getWithResolutionPath query m = map_of m query"

section \<open>Retrieval\<close>

definition IPFS_GET_RETRIES :: nat where
  "IPFS_GET_RETRIES = 3"

definition IPFS_MAX_COMMIT_SIZE :: nat where
  "IPFS_MAX_COMMIT_SIZE = 256000"

definition commitSizeError :: js_error where
  "commitSizeError = Err ''commit size exceeds the maximum block size''"

definition restrictBlockSize :: "byte list \<Rightarrow> js_error + unit" where
  "restrictBlockSize block = throwIf (IPFS_MAX_COMMIT_SIZE < length block) commitSizeError"

text \<open>\<open>ic_requests\<close> counts the requests to IPFS.\<close>

record ipfs_client =
  ic_cache :: records_cache
  ic_requests :: nat

type_synonym 'a ipfs = "(ipfs_client, 'a) ef"

definition request :: "(nat \<Rightarrow> js_error + 'a) \<Rightarrow> 'a ipfs" where
  "request answer w = (answer (ic_requests w), w\<lparr>ic_requests := ic_requests w + 1\<rparr>)"

definition changeCache :: "(records_cache \<Rightarrow> records_cache) \<Rightarrow> unit ipfs" where
  "changeCache f = modifyE (\<lambda>w. w\<lparr>ic_cache := f (ic_cache w)\<rparr>)"

definition changeCacheR :: "(records_cache \<Rightarrow> js_error + records_cache) \<Rightarrow> unit ipfs" where
  "changeCacheR f w = (case f (ic_cache w) of Inl e \<Rightarrow> (Inl e, w) | Inr m \<Rightarrow> (Inr (), w\<lparr>ic_cache := m\<rparr>))"

definition isTimeout :: "ipfs_env \<Rightarrow> js_error \<Rightarrow> bool" where
  "isTimeout env err \<longleftrightarrow> io_errorCode env err = ''ERR_TIMEOUT'' \<or> io_errorName env err = ''TimeoutError'' \<or>
     err = Err ''Request timed out''"

text \<open>The body of the loop: one attempt, which may throw.\<close>

definition loadAttempt :: "ipfs_env \<Rightarrow> cid \<Rightarrow> string \<Rightarrow> string \<Rightarrow> js ipfs" where
  "loadAttempt env asCid path resolutionPath =
     bindE (if path \<noteq> [] then request (\<lambda>n. io_resolve env n asCid path) else returnE asCid) (\<lambda>blockCid.
     bindE (liftE (io_getCodec env blockCid)) (\<lambda>_.
     bindE (request (\<lambda>n. io_blockGet env n blockCid)) (\<lambda>block.
     bindE (liftE (restrictBlockSize block)) (\<lambda>_.
     bindE (liftE (io_decode env blockCid block)) (\<lambda>result.
     bindE (changeCache (setWithResolutionPath env resolutionPath \<lparr>ce_record = result, ce_block = block\<rparr>)) (\<lambda>_.
     returnE result))))))"

text \<open>A block that decodes to \<open>null\<close> has been returned by then, so that \<open>result == null\<close> always holds.\<close>

fun loadLoop :: "nat \<Rightarrow> ipfs_env \<Rightarrow> cid \<Rightarrow> string \<Rightarrow> string \<Rightarrow> js ipfs" where
  "loadLoop 0 env asCid path resolutionPath = returnE Undef"
| "loadLoop (Suc retries) env asCid path resolutionPath =
     catchE (loadAttempt env asCid path resolutionPath) (\<lambda>err.
       if isTimeout env err then
         if 0 < retries then loadLoop retries env asCid path resolutionPath
         else throwE (Err ''Timeout error while loading CID from IPFS'')
       else throwE err)"

definition parsedCid :: "ipfs_env \<Rightarrow> cid + string \<Rightarrow> js_error + cid" where
  "parsedCid env c = (case c of Inl asCid \<Rightarrow> Inr asCid | Inr s \<Rightarrow> cidParse (io_codec env) s)"

definition getFromIpfs :: "ipfs_env \<Rightarrow> cid + string \<Rightarrow> string option \<Rightarrow> js ipfs" where
  "getFromIpfs env c path =
     bindE (liftE (parsedCid env c)) (\<lambda>asCid.
     let p = (case path of None \<Rightarrow> [] | Some p \<Rightarrow> p); resolutionPath = cacheKey env asCid @ p in
     bindE (getE (\<lambda>w. getWithResolutionPath resolutionPath (ic_cache w))) (\<lambda>fromCache. case fromCache of
       Some entry \<Rightarrow> returnE (ce_record entry)
     | None \<Rightarrow> loadLoop IPFS_GET_RETRIES env asCid p resolutionPath))"

definition retrieveCommit :: "ipfs_env \<Rightarrow> cid + string \<Rightarrow> js ipfs" where
  "retrieveCommit env c = getFromIpfs env c None"

definition retrieveFromIPFS :: "ipfs_env \<Rightarrow> cid + string \<Rightarrow> string option \<Rightarrow> js ipfs" where
  "retrieveFromIPFS env c path = getFromIpfs env c path"

definition getIpfsBlock :: "ipfs_env \<Rightarrow> cid \<Rightarrow> byte list ipfs" where
  "getIpfsBlock env c =
     bindE (getE (\<lambda>w. ipldGet env c (ic_cache w))) (\<lambda>found. case found of
       Some entry \<Rightarrow> returnE (ce_block entry)
     | None \<Rightarrow>
         bindE (request (\<lambda>n. io_blockGet env n c)) (\<lambda>bytes.
         bindE (changeCacheR (ipldSetBlock env c bytes)) (\<lambda>_. returnE bytes)))"

definition cidExistsInLocalIPFSStore :: "ipfs_env \<Rightarrow> cid + string \<Rightarrow> bool ipfs" where
  "cidExistsInLocalIPFSStore env c =
     bindE (liftE (parsedCid env c)) (\<lambda>asCid.
     catchE (bindE (request (\<lambda>n. io_dagGet env n asCid)) (\<lambda>result. returnE (\<not> jsNullish result)))
       (\<lambda>_. returnE False))"

section \<open>Storing\<close>

definition storeRecord :: "ipfs_env \<Rightarrow> js \<Rightarrow> cid ipfs" where
  "storeRecord env record =
     bindE (request (\<lambda>n. io_dagPut env n record)) (\<lambda>c.
     bindE (changeCacheR (ipldSetRecord env c record)) (\<lambda>_. returnE c))"

definition jsBytes :: "js \<Rightarrow> js_error + byte list" where
  "jsBytes v = (case v of Bytes bs \<Rightarrow> Inr bs | _ \<Rightarrow> Inl TypeErr)"

definition jsCid :: "js \<Rightarrow> js_error + cid" where
  "jsCid v = (case v of CidV c \<Rightarrow> Inr c | _ \<Rightarrow> Inl TypeErr)"

definition capabilityCid :: "ipfs_env \<Rightarrow> js \<Rightarrow> js_error + cid" where
  "capabilityCid env jws =
     bindR (jsGet jws ''signatures'') (\<lambda>signatures.
     bindR (jsIndex signatures 0) (\<lambda>sig.
     bindR (jsGet sig ''protected'') (\<lambda>protected.
     bindR (io_decodeProtected env protected) (\<lambda>header.
     bindR (jsGet header ''cap'') (\<lambda>cap. case cap of
       Str uri \<Rightarrow> cidParse (io_codec env) (removeFirst ''ipfs://'' uri)
     | _ \<Rightarrow> Inl TypeErr)))))"

text \<open>A block is put into the CAR file, its size is checked, and it is put into the cache.\<close>

definition addBlock :: "ipfs_env \<Rightarrow> cid \<Rightarrow> byte list \<Rightarrow> car \<Rightarrow> car ipfs" where
  "addBlock env c block carFile =
     bindE (liftE (restrictBlockSize block)) (\<lambda>_.
     bindE (liftE (io_decode env c block)) (\<lambda>record.
     bindE (changeCache (ipldSet env c \<lparr>ce_record = record, ce_block = block\<rparr>)) (\<lambda>_.
     returnE (carFile\<lparr>car_blocks := car_blocks carFile @ [(c, block)]\<rparr>))))"

definition addRoot :: "ipfs_env \<Rightarrow> bool \<Rightarrow> js \<Rightarrow> car \<Rightarrow> car ipfs" where
  "addRoot env jose v carFile =
     bindE (liftE (io_put env jose v)) (\<lambda>(c, block).
     bindE (addBlock env c block carFile) (\<lambda>carFile. returnE (carFile\<lparr>car_roots := [c]\<rparr>)))"

definition createCAR :: "ipfs_env \<Rightarrow> js \<Rightarrow> car ipfs" where
  "createCAR env data =
     bindE (liftE (isSignedCommitContainer data)) (\<lambda>container.
     let carFile = \<lparr>car_blocks = [], car_roots = []\<rparr> in
     if container then
       bindE (liftE (jsGet data ''jws'')) (\<lambda>jws.
       bindE (liftE (jsGet data ''linkedBlock'')) (\<lambda>linkedBlock.
       bindE (liftE (jsGet data ''cacaoBlock'')) (\<lambda>cacaoBlock.
       bindE (if jsTruthy cacaoBlock then
            bindE (liftE (capabilityCid env jws)) (\<lambda>capCID.
            bindE (liftE (jsBytes cacaoBlock)) (\<lambda>block. addBlock env capCID block carFile))
          else returnE carFile) (\<lambda>carFile.
       bindE (liftE (bindR (jsGet jws ''link'') jsCid)) (\<lambda>payloadCID.
       bindE (liftE (jsBytes linkedBlock)) (\<lambda>block.
       bindE (addBlock env payloadCID block carFile) (\<lambda>carFile.
       addRoot env True jws carFile)))))))
     else addRoot env False data carFile)"

definition importCAR :: "ipfs_env \<Rightarrow> car \<Rightarrow> stream_id \<Rightarrow> unit ipfs" where
  "importCAR env car streamId =
     (if io_useRustCeramic env \<and> (sid_type streamId = 2 \<or> sid_type streamId = 3) then
        catchE (request (\<lambda>n. io_reconPut env n car))
          (\<lambda>_. throwE (Err ''Error while storing car to Recon for stream''))
      else
        catchE (request (\<lambda>n. io_dagImport env n car))
          (\<lambda>_. throwE (Err ''Error while storing car to IPFS for stream'')))"

definition storeInitEvent :: "ipfs_env \<Rightarrow> js \<Rightarrow> nat \<Rightarrow> cid ipfs" where
  "storeInitEvent env data streamType =
     bindE (createCAR env data) (\<lambda>car.
     bindE (liftE (newStreamID (io_codec env) (TypeCode streamType) (CidObj (hd (car_roots car))))) (\<lambda>streamId.
     bindE (importCAR env car streamId) (\<lambda>_. returnE (hd (car_roots car)))))"

definition storeEvent :: "ipfs_env \<Rightarrow> js \<Rightarrow> stream_id \<Rightarrow> cid ipfs" where
  "storeEvent env data streamId =
     bindE (createCAR env data) (\<lambda>car.
     bindE (importCAR env car streamId) (\<lambda>_. returnE (hd (car_roots car))))"

section \<open>The cache never lies\<close>

text \<open>
  IPFS is content addressed: \<open>blocks\<close> gives the bytes that hash to a CID, \<open>links\<close> the CID at a path below
  one. What the node gets back may fail from time to time, but if it comes it is this.
\<close>

record ipld =
  il_blocks :: "cid \<Rightarrow> byte list option"
  il_links :: "cid \<Rightarrow> string \<Rightarrow> cid option"

definition contentAddressed :: "ipfs_env \<Rightarrow> ipld \<Rightarrow> bool" where
  "contentAddressed env il \<longleftrightarrow>
     (\<forall>n c bs. io_blockGet env n c = Inr bs \<longrightarrow> il_blocks il c = Some bs) \<and>
     (\<forall>n c p d. io_resolve env n c p = Inr d \<longrightarrow> il_links il c p = Some d) \<and>
     (\<forall>n r c. io_dagPut env n r = Inr c \<longrightarrow>
        (\<exists>bs. il_blocks il c = Some bs \<and> io_encode env c r = Inr bs \<and> io_decode env c bs = Inr r)) \<and>
     (\<forall>jose v c bs. io_put env jose v = Inr (c, bs) \<longrightarrow> il_blocks il c = Some bs)"

definition blockAt :: "ipld \<Rightarrow> cid \<Rightarrow> string \<Rightarrow> (cid \<times> byte list) option" where
  "blockAt il c path = Option.bind (if path = [] then Some c else il_links il c path)
     (\<lambda>d. map_option (Pair d) (il_blocks il d))"

definition recordAt :: "ipfs_env \<Rightarrow> ipld \<Rightarrow> cid \<Rightarrow> string \<Rightarrow> js option" where
  "recordAt env il c path = Option.bind (blockAt il c path)
     (\<lambda>(d, block). case io_decode env d block of Inr r \<Rightarrow> Some r | Inl _ \<Rightarrow> None)"

text \<open>Paths start with a slash, which is in no CID.\<close>

definition isPath :: "string \<Rightarrow> bool" where
  "isPath p \<longleftrightarrow> p = [] \<or> hd p = CHR ''/''"

definition cacheTrue :: "ipfs_env \<Rightarrow> ipld \<Rightarrow> records_cache \<Rightarrow> bool" where
  "cacheTrue env il m \<longleftrightarrow> (\<forall>k e. map_of m k = Some e \<longrightarrow> (\<exists>c path d. isPath path \<and> k = cacheKey env c @ path \<and>
     blockAt il c path = Some (d, ce_block e) \<and> io_decode env d (ce_block e) = Inr (ce_record e)))"

lemma key_unique:
  assumes lib: "codec_lib_ok lib" and "isPath p" and "isPath q" and eq: "cidToString lib c @ p = cidToString lib d @ q"
  shows "c = d \<and> p = q"
proof -
  have alnum: "\<forall>x \<in> set (cidToString lib c). isAlnum x" for c using lib by (simp add: codec_lib_ok_def)
  have "takeWhile isAlnum (cidToString lib c @ p) = cidToString lib c" if "isPath p" for c p
    using that alnum [of c] by (cases p) (auto simp: isPath_def isAlnum_def)
  with assms(2,3) eq have same: "cidToString lib c = cidToString lib d" by metis
  then have "cidParse lib (cidToString lib c) = cidParse lib (cidToString lib d)" by simp
  with lib have "c = d" by (simp add: codec_lib_ok_def)
  with eq show ?thesis by simp
qed

lemma cacheTrue_lruSet:
  assumes "cacheTrue env il m" and "isPath path" and "blockAt il c path = Some (d, ce_block e)"
    and "io_decode env d (ce_block e) = Inr (ce_record e)"
  shows "cacheTrue env il (lruSet evict m (cacheKey env c @ path) e)"
  using assms lruSet_map unfolding cacheTrue_def by metis

lemma cacheTrue_set:
  assumes "cacheTrue env il m" and "il_blocks il c = Some (ce_block e)" and "io_decode env c (ce_block e) = Inr (ce_record e)"
  shows "cacheTrue env il (lruSet evict m (cacheKey env c) e)"
  using cacheTrue_lruSet [OF assms(1), of "[]" c c e evict] assms(2,3) by (simp add: blockAt_def isPath_def)

lemma cacheTrue_get:
  assumes "codec_lib_ok (io_codec env)" and "cacheTrue env il m" and "isPath path" and "map_of m (cacheKey env c @ path) = Some e"
  shows "\<exists>d. blockAt il c path = Some (d, ce_block e) \<and> io_decode env d (ce_block e) = Inr (ce_record e)"
proof -
  from assms(2,4) obtain c2 path2 d where c2: "isPath path2" "cacheKey env c @ path = cacheKey env c2 @ path2"
    "blockAt il c2 path2 = Some (d, ce_block e)" "io_decode env d (ce_block e) = Inr (ce_record e)"
    unfolding cacheTrue_def by blast
  with key_unique [OF assms(1,3) c2(1)] show ?thesis by (auto simp: cacheKey_def)
qed

interpretation ipfs: later_states "\<lambda>w. cacheTrue env il (ic_cache w)" "\<lambda>u v. ic_requests u \<le> ic_requests v" for env il
  by unfold_locales auto

abbreviation truthful :: "ipfs_env \<Rightarrow> ipld \<Rightarrow> 'a ipfs \<Rightarrow> ('a \<Rightarrow> bool) \<Rightarrow> bool" where
  "truthful env il m Q \<equiv> ipfs.safely env il (\<lambda>_. True) m (\<lambda>x _. Q x)"

lemma truthful_bind: "truthful env il m R \<Longrightarrow> (\<And>x. R x \<Longrightarrow> truthful env il (f x) Q) \<Longrightarrow> truthful env il (bindE m f) Q"
  by (rule ipfs.safely_bind [where R = "\<lambda>x _. R x"]) (auto simp: keeps_def)

lemma truthful_weaken: "truthful env il m R \<Longrightarrow> (\<And>x. R x \<Longrightarrow> Q x) \<Longrightarrow> truthful env il m Q"
  unfolding keeps_def by blast

lemma truthful_return: "Q x \<Longrightarrow> truthful env il (returnE x) Q"
  by (rule ipfs.safely_return) simp

lemma truthful_lift: "(\<And>x. r = Inr x \<Longrightarrow> Q x) \<Longrightarrow> truthful env il (liftE r) Q"
  by (rule ipfs.safely_lift) simp

lemma truthful_request: "(\<And>n x. f n = Inr x \<Longrightarrow> Q x) \<Longrightarrow> truthful env il (request f) Q"
  by (simp add: keeps_def request_def)

lemma truthful_cache:
  "(\<And>m. cacheTrue env il m \<Longrightarrow> cacheTrue env il (f m)) \<Longrightarrow> truthful env il (changeCache f) (\<lambda>_. True)"
  by (simp add: keeps_def changeCache_def ef_simps)

lemma truthful_cacheR:
  "(\<And>m m'. cacheTrue env il m \<Longrightarrow> f m = Inr m' \<Longrightarrow> cacheTrue env il m') \<Longrightarrow> truthful env il (changeCacheR f) (\<lambda>_. True)"
  by (auto simp: keeps_def changeCacheR_def split: sum.split)

lemma truthful_catch: "truthful env il m Q \<Longrightarrow> (\<And>e. truthful env il (h e) Q) \<Longrightarrow> truthful env il (catchE m h) Q"
  by (rule ipfs.safely_catch) simp_all

lemma truthful_get: "(\<And>w. cacheTrue env il (ic_cache w) \<Longrightarrow> Q (f w)) \<Longrightarrow> truthful env il (getE f) Q"
  by (rule ipfs.safely_get) simp

lemma truthful_throw: "truthful env il (throwE e) Q"
  by (rule ipfs.safely_throw)

lemma truthful_lift_bind: "(\<And>x. r = Inr x \<Longrightarrow> truthful env il (f x) Q) \<Longrightarrow> truthful env il (bindE (liftE r) f) Q"
  by (rule truthful_bind [OF truthful_lift])

lemmas truthful_intros = truthful_return truthful_lift truthful_throw truthful_catch

lemma loadAttempt_true:
  assumes ca: "contentAddressed env il" and "isPath path"
  shows "truthful env il (loadAttempt env c path (cacheKey env c @ path)) (\<lambda>r. recordAt env il c path = Some r)"
  unfolding loadAttempt_def
proof (rule truthful_bind [where R = "\<lambda>d. (if path = [] then Some c else il_links il c path) = Some d"])
  show "truthful env il (if path \<noteq> [] then request (\<lambda>n. io_resolve env n c path) else returnE c)
      (\<lambda>d. (if path = [] then Some c else il_links il c path) = Some d)"
    using ca by (auto intro!: truthful_request truthful_return simp: contentAddressed_def)
  fix d assume d: "(if path = [] then Some c else il_links il c path) = Some d"
  show "truthful env il
      (bindE (liftE (io_getCodec env d)) (\<lambda>_. bindE (request (\<lambda>n. io_blockGet env n d)) (\<lambda>block.
       bindE (liftE (restrictBlockSize block)) (\<lambda>_. bindE (liftE (io_decode env d block)) (\<lambda>result.
       bindE (changeCache (setWithResolutionPath env (cacheKey env c @ path) \<lparr>ce_record = result, ce_block = block\<rparr>))
         (\<lambda>_. returnE result)))))) (\<lambda>r. recordAt env il c path = Some r)"
  proof (rule truthful_bind [OF truthful_lift [where Q = "\<lambda>_. True"]], simp,
      rule truthful_bind [OF truthful_request [where Q = "\<lambda>block. il_blocks il d = Some block"]])
    show "il_blocks il d = Some x" if "io_blockGet env n d = Inr x" for n x
      using ca that by (simp add: contentAddressed_def)
    fix block assume "il_blocks il d = Some block"
    with d have at: "blockAt il c path = Some (d, block)" by (simp add: blockAt_def)
    show "truthful env il (bindE (liftE (restrictBlockSize block)) (\<lambda>_. bindE (liftE (io_decode env d block)) (\<lambda>result.
       bindE (changeCache (setWithResolutionPath env (cacheKey env c @ path) \<lparr>ce_record = result, ce_block = block\<rparr>))
         (\<lambda>_. returnE result)))) (\<lambda>r. recordAt env il c path = Some r)"
    proof (rule truthful_bind [OF truthful_lift [where Q = "\<lambda>_. True"]], simp,
        rule truthful_bind [OF truthful_lift [where Q = "\<lambda>r. io_decode env d block = Inr r"]], simp)
      fix r assume r: "io_decode env d block = Inr r"
      show "truthful env il (bindE (changeCache (setWithResolutionPath env (cacheKey env c @ path) \<lparr>ce_record = r, ce_block = block\<rparr>))
         (\<lambda>_. returnE r)) (\<lambda>r. recordAt env il c path = Some r)"
        by (rule truthful_bind [OF truthful_cache truthful_return])
          (use at r assms(2) in \<open>auto simp: setWithResolutionPath_def recordAt_def intro: cacheTrue_lruSet\<close>)
    qed
  qed
qed

lemma loadLoop_true:
  assumes "contentAddressed env il" and "isPath path"
  shows "truthful env il (loadLoop (Suc n) env c path (cacheKey env c @ path)) (\<lambda>r. recordAt env il c path = Some r)"
  by (induction n) (auto intro!: truthful_intros loadAttempt_true [OF assms])

lemma getFromIpfs_true:
  assumes lib: "codec_lib_ok (io_codec env)" and ca: "contentAddressed env il" and path: "isPath (case path of None \<Rightarrow> [] | Some p \<Rightarrow> p)"
  shows "truthful env il (getFromIpfs env c path)
    (\<lambda>r. \<exists>asCid. parsedCid env c = Inr asCid \<and> recordAt env il asCid (case path of None \<Rightarrow> [] | Some p \<Rightarrow> p) = Some r)"
  unfolding getFromIpfs_def Let_def
proof (rule truthful_bind [OF truthful_lift [where Q = "\<lambda>asCid. parsedCid env c = Inr asCid"]], simp)
  fix asCid assume c: "parsedCid env c = Inr asCid"
  let ?p = "case path of None \<Rightarrow> [] | Some p \<Rightarrow> p"
  let ?at = "\<lambda>entry. \<exists>d. blockAt il asCid ?p = Some (d, ce_block entry) \<and> io_decode env d (ce_block entry) = Inr (ce_record entry)"
  have "truthful env il (getE (\<lambda>w. getWithResolutionPath (cacheKey env asCid @ ?p) (ic_cache w))) (\<lambda>found. \<forall>entry. found = Some entry \<longrightarrow> ?at entry)"
    by (rule truthful_get) (auto simp: getWithResolutionPath_def intro: cacheTrue_get [OF lib _ path])
  then show "truthful env il (bindE (getE (\<lambda>w. getWithResolutionPath (cacheKey env asCid @ ?p) (ic_cache w)))
      (\<lambda>fromCache. case fromCache of Some entry \<Rightarrow> returnE (ce_record entry)
       | None \<Rightarrow> loadLoop IPFS_GET_RETRIES env asCid ?p (cacheKey env asCid @ ?p)))
      (\<lambda>r. \<exists>asCid. parsedCid env c = Inr asCid \<and> recordAt env il asCid ?p = Some r)"
  proof (rule truthful_bind)
    fix found assume found: "\<forall>entry. found = Some entry \<longrightarrow> ?at entry"
    show "truthful env il (case found of Some entry \<Rightarrow> returnE (ce_record entry)
       | None \<Rightarrow> loadLoop IPFS_GET_RETRIES env asCid ?p (cacheKey env asCid @ ?p))
      (\<lambda>r. \<exists>asCid. parsedCid env c = Inr asCid \<and> recordAt env il asCid ?p = Some r)"
    proof (cases found)
      case None
      have "truthful env il (loadLoop IPFS_GET_RETRIES env asCid ?p (cacheKey env asCid @ ?p)) (\<lambda>r. recordAt env il asCid ?p = Some r)"
        using loadLoop_true [OF ca path, of 2] by (simp add: IPFS_GET_RETRIES_def numeral_3_eq_3 numeral_2_eq_2)
      from truthful_weaken [OF this] show ?thesis using c None by auto
    next
      case (Some entry)
      with found c show ?thesis by (auto intro!: truthful_return simp: recordAt_def)
    qed
  qed
qed

lemma getIpfsBlock_true:
  assumes lib: "codec_lib_ok (io_codec env)" and ca: "contentAddressed env il"
  shows "truthful env il (getIpfsBlock env c) (\<lambda>bytes. il_blocks il c = Some bytes)"
  unfolding getIpfsBlock_def
proof (rule truthful_bind)
  show "truthful env il (getE (\<lambda>w. ipldGet env c (ic_cache w)))
      (\<lambda>found. \<forall>entry. found = Some entry \<longrightarrow> il_blocks il c = Some (ce_block entry))"
    by (rule truthful_get)
      (use cacheTrue_get [OF lib, of il _ "[]" c] in \<open>auto simp: ipldGet_def isPath_def blockAt_def\<close>)
  fix found assume found: "\<forall>entry. found = Some entry \<longrightarrow> il_blocks il c = Some (ce_block entry)"
  have set: "cacheTrue env il m'" if "cacheTrue env il m" "ipldSetBlock env c bytes m = Inr m'" "il_blocks il c = Some bytes" for m m' bytes
    using that by (auto simp: ipldSetBlock_def res_simps intro: cacheTrue_set split: if_splits)
  have "truthful env il (bindE (request (\<lambda>n. io_blockGet env n c)) (\<lambda>bytes.
      bindE (changeCacheR (ipldSetBlock env c bytes)) (\<lambda>_. returnE bytes))) (\<lambda>bytes. il_blocks il c = Some bytes)"
    by (rule truthful_bind [OF truthful_request [where Q = "\<lambda>bytes. il_blocks il c = Some bytes"]
          truthful_bind [OF truthful_cacheR truthful_return]])
      (use ca set in \<open>auto simp: contentAddressed_def\<close>)
  then show "truthful env il (case found of None \<Rightarrow> bindE (request (\<lambda>n. io_blockGet env n c)) (\<lambda>bytes.
      bindE (changeCacheR (ipldSetBlock env c bytes)) (\<lambda>_. returnE bytes))
     | Some entry \<Rightarrow> returnE (ce_block entry)) (\<lambda>bytes. il_blocks il c = Some bytes)"
    using found by (auto intro: truthful_return split: option.split)
qed

lemma storeRecord_true:
  assumes ca: "contentAddressed env il"
  shows "truthful env il (storeRecord env record) (\<lambda>c. recordAt env il c [] = Some record)"
  unfolding storeRecord_def
proof (rule truthful_bind [OF truthful_request [where Q = "\<lambda>c. \<exists>n. io_dagPut env n record = Inr c"]], blast)
  fix c assume "\<exists>n. io_dagPut env n record = Inr c"
  with ca obtain bs where bs: "il_blocks il c = Some bs" "io_encode env c record = Inr bs" "io_decode env c bs = Inr record"
    unfolding contentAddressed_def by blast
  then have "cacheTrue env il m'" if "cacheTrue env il m" "ipldSetRecord env c record m = Inr m'" for m m'
    using that by (auto simp: ipldSetRecord_def res_simps intro: cacheTrue_set split: if_splits)
  with bs show "truthful env il (bindE (changeCacheR (ipldSetRecord env c record)) (\<lambda>_. returnE c)) (\<lambda>c. recordAt env il c [] = Some record)"
    by (intro truthful_bind [OF truthful_cacheR truthful_return]) (auto simp: recordAt_def blockAt_def)
qed

lemma addBlock_true:
  assumes "il_blocks il c = Some block"
  shows "truthful env il (addBlock env c block carFile) (\<lambda>_. True)"
  unfolding addBlock_def
  by (rule truthful_bind [OF truthful_lift [where Q = "\<lambda>_. True"]], simp,
      rule truthful_bind [OF truthful_lift [where Q = "\<lambda>r. io_decode env c block = Inr r"]], simp,
      rule truthful_bind [OF truthful_cache truthful_return])
    (auto simp: ipldSet_def assms intro!: cacheTrue_set)

lemma addRoot_true:
  assumes "contentAddressed env il"
  shows "truthful env il (addRoot env jose v carFile) (\<lambda>_. True)"
  unfolding addRoot_def
  by (rule truthful_bind [OF truthful_lift [where Q = "\<lambda>(c, block). il_blocks il c = Some block"]])
    (use assms in \<open>auto simp: contentAddressed_def intro!: truthful_bind [OF addBlock_true] truthful_return\<close>)

text \<open>
  The linked blocks of an event that arrives from a client come with their CIDs; the node does not
  check that they belong together.
\<close>

definition honestEvent :: "ipfs_env \<Rightarrow> ipld \<Rightarrow> js \<Rightarrow> bool" where
  "honestEvent env il data \<longleftrightarrow> (\<forall>jws. isSignedCommitContainer data = Inr True \<and> jsGet data ''jws'' = Inr jws \<longrightarrow>
     (\<forall>c bs. bindR (jsGet jws ''link'') jsCid = Inr c \<and> jsGet data ''linkedBlock'' = Inr (Bytes bs) \<longrightarrow> il_blocks il c = Some bs) \<and>
     (\<forall>c bs. capabilityCid env jws = Inr c \<and> jsGet data ''cacaoBlock'' = Inr (Bytes bs) \<longrightarrow> il_blocks il c = Some bs))"

lemma jsBytes_Inr: "jsBytes v = Inr bs \<longleftrightarrow> v = Bytes bs"
  by (auto simp: jsBytes_def split: js.splits)

lemma createCAR_true:
  assumes ca: "contentAddressed env il" and honest: "honestEvent env il data"
  shows "truthful env il (createCAR env data) (\<lambda>_. True)"
proof -
  have key: "truthful env il (bindE (if jsTruthy cacaoBlock then
            bindE (liftE (capabilityCid env jws)) (\<lambda>capCID.
            bindE (liftE (jsBytes cacaoBlock)) (\<lambda>block. addBlock env capCID block carFile))
          else returnE carFile) (\<lambda>carFile.
       bindE (liftE (bindR (jsGet jws ''link'') jsCid)) (\<lambda>payloadCID.
       bindE (liftE (jsBytes linkedBlock)) (\<lambda>block.
       bindE (addBlock env payloadCID block carFile) (\<lambda>carFile.
       addRoot env True jws carFile))))) (\<lambda>_. True)"
    if jws: "jsGet data ''jws'' = Inr jws" "jsGet data ''linkedBlock'' = Inr linkedBlock" "jsGet data ''cacaoBlock'' = Inr cacaoBlock"
      "isSignedCommitContainer data = Inr True" for jws linkedBlock cacaoBlock carFile
  proof (rule truthful_bind [where R = "\<lambda>_. True"])
    show "truthful env il (if jsTruthy cacaoBlock then
            bindE (liftE (capabilityCid env jws)) (\<lambda>capCID.
            bindE (liftE (jsBytes cacaoBlock)) (\<lambda>block. addBlock env capCID block carFile))
          else returnE carFile) (\<lambda>_. True)"
      using honest jws
      by (auto intro!: truthful_return truthful_lift_bind addBlock_true simp: jsBytes_Inr honestEvent_def)
    show "truthful env il (bindE (liftE (bindR (jsGet jws ''link'') jsCid)) (\<lambda>payloadCID.
       bindE (liftE (jsBytes linkedBlock)) (\<lambda>block.
       bindE (addBlock env payloadCID block carFile) (\<lambda>carFile.
       addRoot env True jws carFile)))) (\<lambda>_. True)" for carFile
      using honest jws
      by (auto intro!: truthful_lift_bind truthful_bind [OF addBlock_true addRoot_true [OF ca]] simp: jsBytes_Inr honestEvent_def)
  qed
  show ?thesis
    unfolding createCAR_def Let_def
    by (auto intro!: truthful_lift_bind key addRoot_true [OF ca])
qed

lemma importCAR_true: "truthful env il (importCAR env car streamId) (\<lambda>_. True)"
  by (auto simp: importCAR_def intro!: truthful_intros truthful_request)

lemma storeEvent_true:
  assumes "contentAddressed env il" and "honestEvent env il data"
  shows "truthful env il (storeEvent env data streamId) (\<lambda>_. True)" and "truthful env il (storeInitEvent env data streamType) (\<lambda>_. True)"
  unfolding storeEvent_def storeInitEvent_def
  by (rule truthful_bind [OF createCAR_true [OF assms]] truthful_bind [OF importCAR_true] truthful_return
      truthful_bind [OF truthful_lift [where Q = "\<lambda>_. True"]] TrueI)+

lemma cidExists_true: "truthful env il (cidExistsInLocalIPFSStore env c) (\<lambda>_. True)"
  unfolding cidExistsInLocalIPFSStore_def
  by (rule truthful_bind [OF truthful_lift [where Q = "\<lambda>_. True"]] truthful_catch
      truthful_bind [OF truthful_request [where Q = "\<lambda>_. True"]] truthful_return TrueI)+

section \<open>Runs\<close>

inductive ipfsStep :: "ipfs_env \<Rightarrow> ipld \<Rightarrow> ipfs_client \<Rightarrow> ipfs_client \<Rightarrow> bool" for env il where
  "isPath (case path of None \<Rightarrow> [] | Some p \<Rightarrow> p) \<Longrightarrow> ipfsStep env il w (snd (getFromIpfs env c path w))"
| "ipfsStep env il w (snd (getIpfsBlock env c0 w))"
| "ipfsStep env il w (snd (storeRecord env record w))"
| "honestEvent env il data \<Longrightarrow> ipfsStep env il w (snd (storeEvent env data streamId w))"
| "honestEvent env il data \<Longrightarrow> ipfsStep env il w (snd (storeInitEvent env data streamType w))"
| "ipfsStep env il w (snd (cidExistsInLocalIPFSStore env c w))"

definition newIpfsClient :: ipfs_client where
  "newIpfsClient = \<lparr>ic_cache = [], ic_requests = 0\<rparr>"

lemma truthful_step: "truthful env il m Q \<Longrightarrow> cacheTrue env il (ic_cache w) \<Longrightarrow> cacheTrue env il (ic_cache (snd (m w)))"
  by (simp add: keeps_def)

lemma ipfsSteps_true:
  assumes "codec_lib_ok (io_codec env)" and "contentAddressed env il" and "(ipfsStep env il)\<^sup>*\<^sup>* newIpfsClient w"
  shows "cacheTrue env il (ic_cache w)"
  using assms(3)
proof (induction rule: rtranclp_induct)
  case base
  then show ?case by (simp add: newIpfsClient_def cacheTrue_def)
next
  case (step u v)
  from step(2) show ?case
    by cases (use step(3) in \<open>auto intro: truthful_step [OF getFromIpfs_true [OF assms(1,2)]] truthful_step [OF getIpfsBlock_true [OF assms(1,2)]]
        truthful_step [OF storeRecord_true [OF assms(2)]] truthful_step [OF storeEvent_true(1) [OF assms(2)]]
        truthful_step [OF storeEvent_true(2) [OF assms(2)]] truthful_step [OF cidExists_true]\<close>)
qed

section \<open>A sample\<close>

text \<open>Blocks are given by \<open>bs\<close>; the first \<open>k\<close> requests time out.\<close>

definition sampleIpfs :: "nat \<Rightarrow> byte list \<Rightarrow> ipfs_env" where
  "sampleIpfs k bs = \<lparr>io_codec = sampleLib, io_evict = (\<lambda>_. None),
     io_blockGet = (\<lambda>n c. if n < k then Inl (Err ''Request timed out'') else Inr bs),
     io_resolve = (\<lambda>_ _ _. Inl TypeErr), io_dagGet = (\<lambda>_ _. Inl TypeErr), io_dagPut = (\<lambda>_ _. Inl TypeErr),
     io_getCodec = (\<lambda>_. Inr ()), io_decode = (\<lambda>_ block. Inr (Bytes block)), io_encode = (\<lambda>_ _. Inl TypeErr),
     io_errorCode = (\<lambda>_. []), io_errorName = (\<lambda>_. []), io_put = (\<lambda>_ _. Inl TypeErr), io_decodeProtected = (\<lambda>_. Inl TypeErr),
     io_dagImport = (\<lambda>_ _. Inr ()), io_reconPut = (\<lambda>_ _. Inr ()), io_useRustCeramic = False\<rparr>"

lemma sampleIpfs_timeout: "isTimeout (sampleIpfs k bs) e \<longleftrightarrow> e = Err ''Request timed out''"
  by (simp add: isTimeout_def sampleIpfs_def)

section \<open>Properties\<close>

lemma attempt_simple:
  "loadAttempt env c [] k w = (case io_getCodec env c of Inl e \<Rightarrow> (Inl e, w) | Inr _ \<Rightarrow>
     (let w' = w\<lparr>ic_requests := ic_requests w + 1\<rparr> in
      case bindR (io_blockGet env (ic_requests w) c) (\<lambda>block. bindR (restrictBlockSize block) (\<lambda>_.
          bindR (io_decode env c block) (\<lambda>r. Inr (r, block)))) of
        Inl e \<Rightarrow> (Inl e, w')
      | Inr (r, block) \<Rightarrow> (Inr r, w'\<lparr>ic_cache := setWithResolutionPath env k \<lparr>ce_record = r, ce_block = block\<rparr> (ic_cache w)\<rparr>)))"
  by (simp add: loadAttempt_def bindE_def ef_simps request_def changeCache_def Let_def bindR_def split: sum.splits)

text \<open>
  Timeouts are retried, at most twice. For a commit that is not in the cache, if the
  first \<open>k\<close> requests time out: for \<open>k\<close> below three, the next answer counts, and a block of at most 256000 bytes that
  decodes is returned after \<open>k + 1\<close> requests, a larger one and any error that is no timeout are thrown
  at once; after three timeouts the node gives up, without a fourth request.
\<close>

theorem retries_on_timeout:
  assumes "getWithResolutionPath (cacheKey env c) (ic_cache w) = None" and "io_getCodec env c = Inr ()" and "k \<le> 3"
    and "\<forall>i < k. \<exists>e. io_blockGet env (ic_requests w + i) c = Inl e \<and> isTimeout env e \<and> e \<noteq> Diverged"
  shows "let next = io_blockGet env (ic_requests w + k) c; (result, w') = retrieveCommit env (Inl c) w in
    if k = 3 then result = Inl (Err ''Timeout error while loading CID from IPFS'') \<and> ic_requests w' = ic_requests w + 3
    else (\<forall>e. next = Inl e \<and> \<not> isTimeout env e \<longrightarrow> result = Inl e \<and> ic_requests w' = ic_requests w + k + 1) \<and>
      (\<forall>block. next = Inr block \<and> 256000 < length block \<and> \<not> isTimeout env commitSizeError \<longrightarrow>
        result = Inl commitSizeError \<and> ic_requests w' = ic_requests w + k + 1) \<and>
      (\<forall>block r. next = Inr block \<and> length block \<le> 256000 \<and> io_decode env c block = Inr r \<longrightarrow>
        result = Inr r \<and> ic_requests w' = ic_requests w + k + 1)"
proof -
  let ?key = "cacheKey env c" and ?next = "io_blockGet env (ic_requests w + k) c"
  define w0 where "w0 = w"
  have start: "retrieveCommit env (Inl c) w = loadLoop 3 env c [] ?key w"
    using assms(1) by (simp add: retrieveCommit_def getFromIpfs_def parsedCid_def IPFS_GET_RETRIES_def Let_def)
  have fail: "loadLoop (Suc n) env c [] ?key v = (if 0 < n then loadLoop n env c [] ?key (v\<lparr>ic_requests := ic_requests v + 1\<rparr>)
      else (Inl (Err ''Timeout error while loading CID from IPFS''), v\<lparr>ic_requests := ic_requests v + 1\<rparr>))"
    if "io_blockGet env (ic_requests v) c = Inl e" "isTimeout env e" "e \<noteq> Diverged" for n v e
    using that assms(2) by (simp add: catchE_def attempt_simple ef_simps Let_def)
  have skip: "loadLoop 3 env c [] ?key w = loadLoop (3 - j) env c [] ?key (w\<lparr>ic_requests := ic_requests w + j\<rparr>)"
    if "j < 3" "j \<le> k" for j
    using that
  proof (induction j)
    case (Suc j)
    from Suc.prems assms(4) obtain e where e: "io_blockGet env (ic_requests w + j) c = Inl e" "isTimeout env e" "e \<noteq> Diverged"
      by (meson Suc_le_lessD)
    have "3 - j = Suc (3 - Suc j)" "0 < 3 - Suc j" using Suc.prems(1) by simp_all
    with Suc fail [of "w\<lparr>ic_requests := ic_requests w + j\<rparr>" e "3 - Suc j"] e show ?case by simp
  qed simp
  show ?thesis
  proof (cases "k = 3")
    case True
    with assms(4) obtain e where e: "io_blockGet env (ic_requests w + 2) c = Inl e" "isTimeout env e" "e \<noteq> Diverged"
      by (metis (no_types) lessI numeral_3_eq_3 numeral_2_eq_2)
    have "loadLoop 3 env c [] ?key w = (Inl (Err ''Timeout error while loading CID from IPFS''), w\<lparr>ic_requests := ic_requests w + 3\<rparr>)"
      using skip [of 2] True fail [of "w\<lparr>ic_requests := ic_requests w + 2\<rparr>" e 0] e by simp
    with True show ?thesis by (simp add: start)
  next
    case False
    with assms(3) have k: "k < 3" by simp
    then obtain n where n: "3 - k = Suc n" by (metis Suc_diff_Suc)
    have run: "retrieveCommit env (Inl c) w = loadLoop (Suc n) env c [] ?key (w\<lparr>ic_requests := ic_requests w + k\<rparr>)"
      using skip [OF k] by (simp add: start n)
    show ?thesis
      unfolding run using False assms(2)
      by (cases "?next") (auto simp: catchE_def attempt_simple ef_simps Let_def restrictBlockSize_def IPFS_MAX_COMMIT_SIZE_def
          commitSizeError_def)
  qed
qed

theorem retries_on_timeout_witness:
  "\<exists>w'. retrieveCommit (sampleIpfs 2 [7]) (Inl (CID [1])) newIpfsClient = (Inr (Bytes [7]), w') \<and> ic_requests w' = 3"
proof -
  have "\<forall>i < 2. \<exists>e. io_blockGet (sampleIpfs 2 [7]) (ic_requests newIpfsClient + i) (CID [1]) = Inl e \<and>
      isTimeout (sampleIpfs 2 [7]) e \<and> e \<noteq> Diverged"
    by (simp add: sampleIpfs_timeout newIpfsClient_def) (simp add: sampleIpfs_def)
  from retries_on_timeout [OF _ _ _ this] show ?thesis
    by (cases "retrieveCommit (sampleIpfs 2 [7]) (Inl (CID [1])) newIpfsClient")
      (auto simp: newIpfsClient_def getWithResolutionPath_def sampleIpfs_def)
qed

text \<open>
  C31: What the node retrieves is what the CID names. After any sequence of retrievals, with and without a
  path, and of stored records and events whose blocks belong to their CIDs, and with whatever timeouts,
  failures and evictions: a retrieval that succeeds gives the decoded block with this CID, or the one
  its path leads to, whether from the cache or from IPFS.
\<close>

theorem retrieval_true:
  assumes "codec_lib_ok (io_codec env)" and "contentAddressed env il" and "(ipfsStep env il)\<^sup>*\<^sup>* newIpfsClient w"
    and "isPath (case path of None \<Rightarrow> [] | Some p \<Rightarrow> p)" and "retrieveFromIPFS env (Inl c) path w = (Inr r, w')"
  shows "recordAt env il c (case path of None \<Rightarrow> [] | Some p \<Rightarrow> p) = Some r"
  using getFromIpfs_true [OF assms(1,2,4), of "Inl c"] ipfsSteps_true [OF assms(1-3)] assms(5)
  by (auto simp: keeps_def retrieveFromIPFS_def parsedCid_def)

theorem retrieval_true_witness:
  "\<exists>w'. retrieveFromIPFS (sampleIpfs 0 [7]) (Inl (CID [1])) None newIpfsClient = (Inr (Bytes [7]), w') \<and>
     recordAt (sampleIpfs 0 [7]) \<lparr>il_blocks = \<lambda>_. Some [7], il_links = \<lambda>_ _. None\<rparr> (CID [1]) [] = Some (Bytes [7])"
proof -
  let ?env = "sampleIpfs 0 [7]" and ?il = "\<lparr>il_blocks = \<lambda>_. Some [7], il_links = \<lambda>_ _. None\<rparr>"
  have ca: "contentAddressed ?env ?il" by (simp add: contentAddressed_def sampleIpfs_def)
  have lib: "codec_lib_ok (io_codec ?env)" by (simp add: sampleIpfs_def sampleLib_ok)
  have run: "fst (retrieveFromIPFS ?env (Inl (CID [1])) None newIpfsClient) = Inr (Bytes [7])"
    by (simp add: retrieveFromIPFS_def getFromIpfs_def parsedCid_def getWithResolutionPath_def newIpfsClient_def IPFS_GET_RETRIES_def
        numeral_3_eq_3 catchE_def attempt_simple Let_def ef_simps)
      (simp add: sampleIpfs_def restrictBlockSize_def IPFS_MAX_COMMIT_SIZE_def)
  then obtain w' where w': "retrieveFromIPFS ?env (Inl (CID [1])) None newIpfsClient = (Inr (Bytes [7]), w')"
    by (metis prod.collapse)
  from retrieval_true [OF lib ca rtranclp.rtrancl_refl _ w'] w' show ?thesis by (simp add: isPath_def)
qed

text \<open>
  The cache can be poisoned. The node puts the linked block of an event from a client into its cache
  under the CID the client gives, before IPFS sees it and without hashing it. Whatever the block of this
  CID really is, and although storing the event fails, the next retrieval of the CID gives the
  client's block, if nothing is evicted.
\<close>

theorem cache_poisoned:
  assumes "jsGet data ''jws'' = Inr jws" and "jws \<noteq> Undef" and "isSignedCommitContainer data = Inr True"
    and "jsGet data ''linkedBlock'' = Inr (Bytes fake)" and "jsGet data ''cacaoBlock'' = Inr Undef" and "jsGet jws ''link'' = Inr (CidV c)"
    and "length fake \<le> 256000" and "io_decode env c fake = Inr r" and "io_put env True jws = Inl e"
    and "io_evict env = (\<lambda>_. None)"
  shows "let (result, w') = storeEvent env data streamId w in
    result = Inl e \<and> retrieveCommit env (Inl c) w' = (Inr r, w')"
proof -
  let ?w = "w\<lparr>ic_cache := mapSet (ic_cache w) (cacheKey env c) \<lparr>ce_record = r, ce_block = fake\<rparr>\<rparr>"
  have "storeEvent env data streamId w = (Inl e, ?w)"
    using assms by (simp add: storeEvent_def createCAR_def Let_def addBlock_def addRoot_def bindE_def ef_simps restrictBlockSize_def
        IPFS_MAX_COMMIT_SIZE_def jsBytes_def jsCid_def changeCache_def ipldSet_def lruSet_def)
  moreover have "retrieveCommit env (Inl c) ?w = (Inr r, ?w)"
    by (simp add: retrieveCommit_def getFromIpfs_def parsedCid_def getWithResolutionPath_def ef_simps Let_def)
  ultimately show ?thesis by simp
qed

definition sampleContainer :: js where
  "sampleContainer = Obj [(''jws'', Obj [(''link'', CidV (CID [1]))]), (''linkedBlock'', Bytes [9])]"

theorem cache_poisoned_witness:
  "let (result, w') = storeEvent (sampleIpfs 0 [7]) sampleContainer (StreamID 0 (CID [5])) newIpfsClient in
     result = Inl TypeErr \<and> fst (retrieveCommit (sampleIpfs 0 [7]) (Inl (CID [1])) w') = Inr (Bytes [9])"
  using cache_poisoned [of sampleContainer "Obj [(''link'', CidV (CID [1]))]" "[9]" "CID [1]" "sampleIpfs 0 [7]" "Bytes [9]" TypeErr
      "StreamID 0 (CID [5])" newIpfsClient]
  by (simp add: sampleContainer_def isSignedCommitContainer_def sampleIpfs_def Let_def case_prod_beta)

text \<open>
  The size limit does not hold. A block above the limit, which \<open>retrieveCommit\<close> refuses, is returned by it
  without a request after \<open>getIpfsBlock\<close> has put it into the cache.
\<close>

theorem size_limit_bypassed:
  assumes "map_of (ic_cache w) (cacheKey env c) = None" and "io_getCodec env c = Inr ()" and "io_evict env = (\<lambda>_. None)"
    and "\<forall>n. io_blockGet env n c = Inr block" and "io_decode env c block = Inr r" and "256000 < length block"
    and "\<not> isTimeout env commitSizeError"
  shows "fst (retrieveCommit env (Inl c) w) = Inl commitSizeError \<and>
    fst (retrieveCommit env (Inl c) (snd (getIpfsBlock env c w))) = Inr r"
proof
  show "fst (retrieveCommit env (Inl c) w) = Inl commitSizeError"
    using assms by (simp add: retrieveCommit_def getFromIpfs_def parsedCid_def getWithResolutionPath_def IPFS_GET_RETRIES_def
        numeral_3_eq_3 catchE_def attempt_simple restrictBlockSize_def IPFS_MAX_COMMIT_SIZE_def Let_def ef_simps commitSizeError_def)
  have "snd (getIpfsBlock env c w) = w\<lparr>ic_requests := ic_requests w + 1,
      ic_cache := mapSet (ic_cache w) (cacheKey env c) \<lparr>ce_record = r, ce_block = block\<rparr>\<rparr>"
    using assms by (simp add: getIpfsBlock_def ipldGet_def request_def bindE_def ef_simps changeCacheR_def ipldSetBlock_def lruSet_def)
  then show "fst (retrieveCommit env (Inl c) (snd (getIpfsBlock env c w))) = Inr r"
    by (simp add: retrieveCommit_def getFromIpfs_def parsedCid_def getWithResolutionPath_def ef_simps Let_def)
qed

theorem size_limit_bypassed_witness:
  "let env = sampleIpfs 0 (replicate 256001 0) in
     fst (retrieveCommit env (Inl (CID [1])) newIpfsClient) = Inl commitSizeError \<and>
     fst (retrieveCommit env (Inl (CID [1])) (snd (getIpfsBlock env (CID [1]) newIpfsClient))) = Inr (Bytes (replicate 256001 0))"
  using size_limit_bypassed [of newIpfsClient "sampleIpfs 0 (replicate 256001 0)" "CID [1]" "replicate 256001 0" "Bytes (replicate 256001 0)"]
  by (simp add: sampleIpfs_timeout Let_def) (simp add: sampleIpfs_def newIpfsClient_def commitSizeError_def)

end
