(* ===== verification/FeedAggregation.thy ===== *)
theory FeedAggregation
  imports Stores StreamTypes
begin

text \<open>
  The feed of the documents of a node (\<open>core/src/store/feed-aggregation-store.ts\<close>, \<open>core/src/feed.ts\<close>):
  every change of a pinned stream appends its StreamID to a store under a key made of the time, and
  readers follow the store in the order of the keys. Times are in milliseconds since 1970.
\<close>

section \<open>Keys\<close>

record monotonic_key =
  mk_previous :: nat
  mk_counter :: nat

definition newMonotonicKey :: "nat \<Rightarrow> monotonic_key" where
  "newMonotonicKey now = \<lparr>mk_previous = now, mk_counter = 0\<rparr>"

definition padStart :: "nat \<Rightarrow> char \<Rightarrow> string \<Rightarrow> string" where
  "padStart n c s = replicate (n - length s) c @ s"

definition nextKey :: "nat \<Rightarrow> monotonic_key \<Rightarrow> string \<times> monotonic_key" where
  "nextKey now k =
     (if mk_previous k = now
      then (natStr (mk_previous k) @ padStart 6 (CHR ''0'') (natStr (mk_counter k)), k\<lparr>mk_counter := mk_counter k + 1\<rparr>)
      else (natStr now @ ''000000'', \<lparr>mk_previous = now, mk_counter = 1\<rparr>))"

section \<open>The store\<close>

text \<open>The store holds the StreamIDs as strings.\<close>

definition feedPut :: "codec_lib \<Rightarrow> string \<Rightarrow> stream_id \<Rightarrow> string kv \<Rightarrow> string kv" where
  "feedPut lib key streamId m = kvPut m key (streamIDToString lib streamId)"

definition staleKeys :: "nat \<Rightarrow> string kv \<Rightarrow> string list" where
  "staleKeys lessThanMs m = kvFindKeys m (allKeys\<lparr>sp_lt := Some (natStr (lessThanMs * 1000))\<rparr>)"

definition deleteStale :: "nat \<Rightarrow> string kv \<Rightarrow> nat \<times> string kv" where
  "deleteStale lessThanMs m = (let ks = staleKeys lessThanMs m in (length ks, fold (\<lambda>k m. kvDel m k) ks m))"

definition DEFAULT_STALE_DURATION :: nat where
  "DEFAULT_STALE_DURATION = 604800000"

text \<open>The job that runs every ten minutes; \<open>busy\<close>: a task of the queue has not ended.\<close>

definition cleanupJob :: "bool \<Rightarrow> nat \<Rightarrow> nat \<Rightarrow> string kv \<Rightarrow> string kv" where
  "cleanupJob busy staleDuration now m = (if busy then m else snd (deleteStale (now - staleDuration) m))"

section \<open>A reader\<close>

text \<open>
  The source of a stream of entries reads, and when there is nothing waits for the next write. Reading
  takes time: the result is that of the store when it began.
\<close>

type_synonym feed_entry = "string \<times> string"

datatype reader = Idle | Reading "feed_entry list" | Waiting

record feed =
  fd_store :: "string kv"
  fd_key :: monotonic_key
  fd_unsent :: nat
  fd_reader :: reader
  fd_token :: string
  fd_delivered :: "feed_entry list"

definition feedSave :: "codec_lib \<Rightarrow> nat \<Rightarrow> stream_id \<Rightarrow> feed \<Rightarrow> feed" where
  "feedSave lib now streamId w = (let (key, g) = nextKey now (fd_key w) in
     w\<lparr>fd_store := feedPut lib key streamId (fd_store w), fd_key := g, fd_unsent := fd_unsent w + 1\<rparr>)"

definition feedNotify :: "feed \<Rightarrow> feed" where
  "feedNotify w = (if fd_unsent w = 0 then w
     else w\<lparr>fd_unsent := fd_unsent w - 1, fd_reader := (if fd_reader w = Waiting then Idle else fd_reader w)\<rparr>)"

definition afterToken :: "nat option \<Rightarrow> string \<Rightarrow> search_params" where
  "afterToken limit token = allKeys\<lparr>sp_limit := limit, sp_gt := Some token\<rparr>"

definition pullStart :: "nat \<Rightarrow> feed \<Rightarrow> feed" where
  "pullStart desiredSize w = (if fd_reader w = Idle
     then w\<lparr>fd_reader := Reading (kvFind (fd_store w) (afterToken (Some desiredSize) (fd_token w)))\<rparr> else w)"

definition pullEnd :: "feed \<Rightarrow> feed" where
  "pullEnd w = (case fd_reader w of
     Reading entries \<Rightarrow>
       if entries = [] then w\<lparr>fd_reader := Waiting\<rparr>
       else w\<lparr>fd_delivered := fd_delivered w @ entries, fd_token := fst (last entries), fd_reader := Idle\<rparr>
   | _ \<Rightarrow> w)"

section \<open>Documents\<close>

record feed_document =
  do_resumeToken :: string
  do_commitId :: commit_id
  do_content :: js
  do_metadata :: js
  do_eventType :: event_type

definition fromStreamState :: "codec_lib \<Rightarrow> string \<Rightarrow> stream_state \<Rightarrow> js_error + feed_document" where
  "fromStreamState lib resumeToken state =
     bindR (commitIdFromStreamState lib state) (\<lambda>commitId.
     Inr \<lparr>do_resumeToken = resumeToken, do_commitId = commitId,
       do_content = (case st_next state of Some n \<Rightarrow> nx_content n | None \<Rightarrow> st_content state),
       do_metadata = (case st_next state of Some n \<Rightarrow> nx_metadata n | None \<Rightarrow> st_metadata state),
       do_eventType = le_type (last (st_log state))\<rparr>)"

text \<open>\<open>transform\<close>: a stream that is neither in memory nor in the store is skipped.\<close>

definition transformEntry :: "codec_lib \<Rightarrow> (string \<Rightarrow> js_error + stream_state option) \<Rightarrow> feed_entry \<Rightarrow> js_error + feed_document list" where
  "transformEntry lib streamState entry =
     bindR (streamState (snd entry)) (\<lambda>found. case found of
       Some st \<Rightarrow> bindR (fromStreamState lib (fst entry) st) (\<lambda>d. Inr [d])
     | None \<Rightarrow> Inr [])"

definition feedDocuments :: "codec_lib \<Rightarrow> (string \<Rightarrow> js_error + stream_state option) \<Rightarrow> feed_entry list \<Rightarrow> js_error + feed_document list" where
  "feedDocuments lib streamState entries = bindR (mapR (transformEntry lib streamState) entries) (\<lambda>ds. Inr (concat ds))"

section \<open>Decimal texts in order\<close>

lemma strLess_append: "length a = length b \<Longrightarrow> strLess (a @ x) (b @ y) \<longleftrightarrow> strLess a b \<or> a = b \<and> strLess x y"
proof (induction a b rule: list_induct2)
  case (Cons x xs y ys)
  then show ?case by (cases "x = y") auto
qed simp

lemma digit_less: "m < 10 \<Longrightarrow> n < 10 \<Longrightarrow> strLess [digitChar m] [digitChar n] \<longleftrightarrow> m < n"
proof (cases "m = n")
  case False
  assume mn: "m < 10" "n < 10"
  then have "(of_char (digitChar m) :: nat) \<noteq> of_char (digitChar n)" using False by (simp add: of_char_digitChar)
  then have "digitChar m \<noteq> digitChar n" by auto
  with mn show ?thesis by (simp add: of_char_digitChar)
qed simp

lemma natStr_length: "length (natStr n) = 1 \<longleftrightarrow> n < 10"
  by (simp add: natStr.simps [of n])

lemma natStr_small: "n < 10 \<Longrightarrow> natStr n = [digitChar n]"
  by (simp add: natStr.simps [of n])

lemma natStr_big: "\<not> n < 10 \<Longrightarrow> natStr n = natStr (n div 10) @ [digitChar (n mod 10)]"
  by (simp add: natStr.simps [of n])

lemma div_mod_less: "r < 10 \<Longrightarrow> s < 10 \<Longrightarrow> 10 * p + r < 10 * q + s \<longleftrightarrow> p < q \<or> p = q \<and> r < s" for p q r s :: nat
  by (cases p q rule: linorder_cases) auto

lemma natStr_less: "length (natStr a) = length (natStr b) \<Longrightarrow> strLess (natStr a) (natStr b) \<longleftrightarrow> a < b"
proof (induction a arbitrary: b rule: natStr.induct)
  case (1 a)
  show ?case
  proof (cases "a < 10")
    case True
    with 1(2) natStr_length have "b < 10" by metis
    with True show ?thesis by (simp only: natStr_small digit_less)
  next
    case False
    with 1(2) natStr_length have b: "\<not> b < 10" by metis
    from 1(2) have len: "length (natStr (a div 10)) = length (natStr (b div 10))"
      unfolding natStr_big [OF False] natStr_big [OF b] by simp
    have digits: "strLess [digitChar (a mod 10)] [digitChar (b mod 10)] \<longleftrightarrow> a mod 10 < b mod 10"
      by (rule digit_less) simp_all
    have "strLess (natStr a) (natStr b) \<longleftrightarrow>
        strLess (natStr (a div 10)) (natStr (b div 10)) \<or> natStr (a div 10) = natStr (b div 10) \<and>
        strLess [digitChar (a mod 10)] [digitChar (b mod 10)]"
      by (simp only: natStr_big [OF False] natStr_big [OF b] strLess_append [OF len])
    also have "\<dots> \<longleftrightarrow> a div 10 < b div 10 \<or> a div 10 = b div 10 \<and> a mod 10 < b mod 10"
      by (simp only: 1(1) [OF False len] natStr_inject digits)
    also have "\<dots> \<longleftrightarrow> 10 * (a div 10) + a mod 10 < 10 * (b div 10) + b mod 10"
      by (rule sym, rule div_mod_less) simp_all
    also have "\<dots> \<longleftrightarrow> a < b" by simp
    finally show ?thesis .
  qed
qed

lemma natStr_strLess_append:
  assumes "length (natStr a) = length (natStr b)"
  shows "strLess (natStr a @ x) (natStr b @ y) \<longleftrightarrow> a < b \<or> a = b \<and> strLess x y"
  using strLess_append [OF assms] natStr_less [OF assms] by simp

lemma natStr_mult: "0 < n \<Longrightarrow> natStr (n * 10 ^ k) = natStr n @ replicate k (CHR ''0'')"
proof (induction k)
  case (Suc k)
  have "digitChar 0 = CHR ''0''" by code_simp
  moreover have "\<not> n * 10 ^ Suc k < 10" using Suc.prems by simp
  ultimately have "natStr (n * 10 ^ Suc k) = natStr (n * 10 ^ k) @ [CHR ''0'']"
    using natStr_big [of "n * 10 ^ Suc k"] by simp
  with Suc show ?case by (simp add: replicate_append_same)
qed simp

text \<open>Times with thirteen digits: from September 2001 to the year 2286.\<close>

definition msTime :: "nat \<Rightarrow> bool" where
  "msTime t \<longleftrightarrow> 10 ^ 12 \<le> t \<and> t < 10 ^ 13"

lemma natStr_length_range: "10 ^ k \<le> n \<Longrightarrow> n < 10 ^ Suc k \<Longrightarrow> length (natStr n) = Suc k"
proof (induction k arbitrary: n)
  case 0
  then show ?case by (simp add: natStr.simps [of n])
next
  case (Suc k)
  then have "10 ^ k \<le> n div 10" "n div 10 < 10 ^ Suc k" by (auto simp: less_eq_div_iff_mult_less_eq div_less_iff_less_mult)
  moreover have "\<not> n < 10"
  proof -
    have "(1 :: nat) \<le> 10 ^ k" by simp
    with Suc.prems(1) show ?thesis by (simp only: power_Suc)
  qed
  ultimately show ?case using Suc.IH by (simp add: natStr_big)
qed

lemma msTime_length: "msTime t \<Longrightarrow> length (natStr t) = 13"
  using natStr_length_range [of 12 t] by (simp add: msTime_def)

definition keyAt :: "nat \<Rightarrow> nat \<Rightarrow> string" where
  "keyAt t c = natStr t @ padStart 6 (CHR ''0'') (natStr c)"

lemma nextKey_keyAt: "fst (nextKey now k) = keyAt now (if mk_previous k = now then mk_counter k else 0)"
proof -
  have "padStart 6 (CHR ''0'') (natStr 0) = ''000000''" by code_simp
  then show ?thesis by (auto simp: nextKey_def keyAt_def)
qed

lemma padStart_snoc: "padStart (Suc (Suc k)) (CHR ''0'') (natStr c) = padStart (Suc k) (CHR ''0'') (natStr (c div 10)) @ [digitChar (c mod 10)]"
proof (cases "c < 10")
  case True
  have "natStr 0 = ''0''" by code_simp
  with True show ?thesis by (simp add: padStart_def natStr_small replicate_append_same)
next
  case False
  then show ?thesis by (simp add: padStart_def natStr_big)
qed

lemma natStr_pad: "0 < t \<Longrightarrow> c < 10 ^ Suc k \<Longrightarrow> natStr (t * 10 ^ Suc k + c) = natStr t @ padStart (Suc k) (CHR ''0'') (natStr c)"
proof (induction k arbitrary: c)
  case 0
  then show ?case by (simp add: natStr_big [of "t * 10 + c"] natStr_small padStart_def)
next
  case (Suc k)
  let ?n = "t * 10 ^ Suc (Suc k) + c"
  define b where "b = t * 10 ^ Suc k"
  have n: "?n = c + 10 * b" by (simp add: b_def)
  have "(c + 10 * b) div 10 = b + c div 10" "(c + 10 * b) mod 10 = c mod 10" by simp_all
  then have dm: "?n div 10 = t * 10 ^ Suc k + c div 10" "?n mod 10 = c mod 10" unfolding n b_def by simp_all
  have "0 < b" using Suc.prems(1) by (simp add: b_def)
  then have "\<not> ?n < 10" unfolding n by simp
  then have "natStr ?n = natStr (?n div 10) @ [digitChar (?n mod 10)]" by (rule natStr_big)
  also have "\<dots> = natStr (t * 10 ^ Suc k + c div 10) @ [digitChar (c mod 10)]" by (simp only: dm)
  also have "c div 10 < 10 ^ Suc k" using Suc.prems(2) by (simp add: div_less_iff_less_mult)
  note Suc.IH [OF Suc.prems(1) this]
  finally show ?case unfolding padStart_snoc by simp
qed

lemma keyAt_natStr: "0 < t \<Longrightarrow> c < 10 ^ 6 \<Longrightarrow> keyAt t c = natStr (t * 10 ^ 6 + c)"
proof -
  assume "0 < t" "c < 10 ^ 6"
  moreover have "Suc 5 = 6" by simp
  ultimately show ?thesis using natStr_pad [of t c 5] unfolding keyAt_def by metis
qed

text \<open>Keys are in the order of their times and counters.\<close>

lemma keyAt_less:
  assumes "msTime t" "msTime u" "c < 10 ^ 6" "d < 10 ^ 6"
  shows "strLess (keyAt t c) (keyAt u d) \<longleftrightarrow> t < u \<or> t = u \<and> c < d"
proof -
  have "length (natStr (x * 10 ^ 6 + y)) = 19" if "msTime x" "y < 10 ^ 6" for x y
    using natStr_length_range [of 18 "x * 10 ^ 6 + y"] that by (simp add: msTime_def)
  with assms have "strLess (keyAt t c) (keyAt u d) \<longleftrightarrow> t * 10 ^ 6 + c < u * 10 ^ 6 + d"
    by (simp add: keyAt_natStr natStr_less msTime_def)
  also have "\<dots> \<longleftrightarrow> t < u \<or> t = u \<and> c < d"
    using assms(3,4) by (cases t u rule: linorder_cases) auto
  finally show ?thesis .
qed

lemma not_less_zeros: "n \<le> length x \<Longrightarrow> \<forall>c \<in> set x. 48 \<le> (of_char c :: nat) \<Longrightarrow> \<not> strLess x (replicate n (CHR ''0''))"
proof (induction n arbitrary: x)
  case (Suc n)
  then obtain c cs where x: "x = c # cs" by (cases x) auto
  have "(of_char (CHR ''0'') :: nat) = 48" by code_simp
  with Suc x show ?case by auto
qed simp

lemma keyAt_stale:
  assumes "msTime t" "msTime u" "c < 10 ^ 6"
  shows "strLess (keyAt t c) (natStr (u * 1000)) \<longleftrightarrow> t < u"
proof -
  have zero: "(of_char (CHR ''0'') :: nat) = 48" by code_simp
  have "\<not> strLess (padStart 6 (CHR ''0'') (natStr c)) (replicate 3 (CHR ''0''))"
    by (rule not_less_zeros) (use natStr_digits zero in \<open>auto simp: padStart_def\<close>)
  moreover have "natStr (u * 1000) = natStr u @ replicate 3 (CHR ''0'')"
    using natStr_mult [of u 3] assms(2) by (simp add: msTime_def)
  moreover have "length (natStr t) = length (natStr u)" using assms by (simp add: msTime_length)
  ultimately show ?thesis by (simp add: keyAt_def natStr_strLess_append)
qed

section \<open>Runs of a feed\<close>

text \<open>
  The keys of a store are below the next one of the generator, as long as the clock does not go back
  and fewer than a million entries are made in a millisecond.
\<close>

definition goodKeys :: "monotonic_key \<Rightarrow> string kv \<Rightarrow> bool" where
  "goodKeys g m \<longleftrightarrow> kvSorted m \<and> msTime (mk_previous g) \<and>
     (\<forall>k \<in> set (map fst m). \<exists>t c. k = keyAt t c \<and> msTime t \<and> c < 10 ^ 6 \<and>
        (t < mk_previous g \<or> t = mk_previous g \<and> c < mk_counter g))"


definition openFeed :: "string kv \<Rightarrow> monotonic_key \<Rightarrow> string \<Rightarrow> feed" where
  "openFeed m g token = \<lparr>fd_store = m, fd_key = g, fd_unsent = 0, fd_reader = Idle, fd_token = token, fd_delivered = []\<rparr>"

abbreviation entriesAfter :: "string kv \<Rightarrow> string \<Rightarrow> feed_entry list" where
  "entriesAfter m token \<equiv> kvFind m (afterToken None token)"

lemma entriesAfter_filter: "entriesAfter m token = filter (\<lambda>(k, _). strLess token k) m"
  by (simp add: kvFind_def afterToken_def allKeys_def inRange_def)

lemma kvFind_limited: "kvFind m (afterToken (Some n) token) = take n (entriesAfter m token)"
  by (simp add: kvFind_def afterToken_def allKeys_def inRange_def)

lemma kvPut_last: "\<forall>l \<in> set (map fst m). strLess l k \<Longrightarrow> kvPut m k v = m @ [(k, v)]"
  by (induction m k v rule: kvPut.induct) (auto dest: strLess_asym)


lemma nextKey_above:
  assumes g: "goodKeys g m" and "mk_previous g \<le> now" "msTime now" "mk_counter g < 10 ^ 6"
  shows "\<forall>l \<in> set (map fst m). strLess l (fst (nextKey now g))"
    and "goodKeys (snd (nextKey now g)) (kvPut m (fst (nextKey now g)) v)"
proof -
  let ?c = "if mk_previous g = now then mk_counter g else 0"
  have key: "fst (nextKey now g) = keyAt now ?c" by (rule nextKey_keyAt)
  have c: "?c < 10 ^ 6" using assms(4) by simp
  have below: "strLess l (fst (nextKey now g))" if "l \<in> set (map fst m)" for l
  proof -
    from g that obtain t d where "l = keyAt t d" "msTime t" "d < 10 ^ 6" "t < mk_previous g \<or> t = mk_previous g \<and> d < mk_counter g"
      unfolding goodKeys_def by blast
    with assms(2) c show ?thesis unfolding key by (auto simp: keyAt_less [OF _ assms(3)])
  qed
  then show "\<forall>l \<in> set (map fst m). strLess l (fst (nextKey now g))" by blast
  have "\<exists>t c. k = keyAt t c \<and> msTime t \<and> c < 10 ^ 6 \<and>
      (t < mk_previous (snd (nextKey now g)) \<or> t = mk_previous (snd (nextKey now g)) \<and> c < mk_counter (snd (nextKey now g)))"
    if "k \<in> insert (fst (nextKey now g)) (set (map fst m))" for k
  proof (cases "k = fst (nextKey now g)")
    case True
    with key c assms(3) show ?thesis
      by (intro exI [of _ now] exI [of _ ?c]) (simp add: nextKey_def)
  next
    case False
    with that g obtain t c where "k = keyAt t c" "msTime t" "c < 10 ^ 6" "t < mk_previous g \<or> t = mk_previous g \<and> c < mk_counter g"
      unfolding goodKeys_def by blast
    moreover have "mk_previous (snd (nextKey now g)) = now" "mk_previous g = now \<Longrightarrow> mk_counter g \<le> mk_counter (snd (nextKey now g))"
      by (simp_all add: nextKey_def)
    ultimately show ?thesis using assms(2) by (intro exI [of _ t] exI [of _ c]) (elim disjE; simp; linarith)
  qed
  moreover have "kvSorted (kvPut m (fst (nextKey now g)) v)" 
    by (rule kvPut_sorted) (use g in \<open>simp add: goodKeys_def\<close>)
  moreover have "msTime (mk_previous (snd (nextKey now g)))" using assms(3) by (simp add: nextKey_def)
  ultimately show "goodKeys (snd (nextKey now g)) (kvPut m (fst (nextKey now g)) v)"
    unfolding goodKeys_def kvPut_keys by (intro conjI ballI)
qed





section \<open>Properties\<close>


text \<open>
  A reader can sleep for ever on an entry. If an entry is saved and announced while a reader that has
  nothing left to read is reading, the reader goes to wait after the announcement has passed: the entry
  is in the store, it was not delivered, nothing more will be announced, and no step of the reader
  changes anything until another entry is saved.
\<close>

theorem wakeup_lost:
  assumes "goodKeys (fd_key w) (fd_store w)" and "mk_previous (fd_key w) \<le> now" and "msTime now" and "mk_counter (fd_key w) < 10 ^ 6"
    and "fd_reader w = Idle" and "fd_unsent w = 0" and "kvFind (fd_store w) (afterToken None (fd_token w)) = []"
    and "strLess (fd_token w) (fst (nextKey now (fd_key w)))"
  shows "let w' = pullEnd (feedNotify (feedSave lib now streamId (pullStart n w))) in
    kvFind (fd_store w') (afterToken None (fd_token w')) = [(fst (nextKey now (fd_key w)), streamIDToString lib streamId)] \<and>
    fd_delivered w' = fd_delivered w \<and> (\<forall>step \<in> {feedNotify, pullStart k, pullEnd}. step w' = w')"
proof -
  have "kvPut (fd_store w) (fst (nextKey now (fd_key w))) v = fd_store w @ [(fst (nextKey now (fd_key w)), v)]" for v
    by (rule kvPut_last [OF nextKey_above(1) [OF assms(1-4)]])
  then show ?thesis
    using assms(5-8) by (simp add: pullStart_def kvFind_limited feedSave_def Let_def case_prod_beta feedPut_def feedNotify_def pullEnd_def
        entriesAfter_filter filter_empty_conv)
qed

text \<open>
  The cleanup removes exactly the entries older than the threshold: of a store with keys made at times of
  thirteen digits, those made before the given time go, all others stay with their values, and the
  result is the number of removed entries, although the bound it compares with has three zeros and the
  keys have six digits after the time.
\<close>

theorem stale_deleted:
  assumes "kvSorted m" and "\<forall>k \<in> set (map fst m). \<exists>t c. k = keyAt t c \<and> msTime t \<and> c < 10 ^ 6" and "msTime threshold"
    and "msTime t" and "c < 10 ^ 6"
  shows "let (n, m') = deleteStale threshold m in
    kvGet m' (keyAt t c) = (if t < threshold then None else kvGet m (keyAt t c)) \<and> n + length m' = length m"
proof -
  let ?b = "natStr (threshold * 1000)"
  have keys: "staleKeys threshold m = map fst (filter (\<lambda>(k, _). strLess k ?b) m)"
    by (simp add: staleKeys_def kvFindKeys_def kvFind_def allKeys_def inRange_def)
  have del: "fold (\<lambda>k m. kvDel m k) ks m = filter (\<lambda>(k, _). k \<notin> set ks) m" for ks and m :: "string kv"
    by (induction ks arbitrary: m) (auto simp: kvDel_def filter_filter intro!: filter_cong)
  have rest: "snd (deleteStale threshold m) = filter (\<lambda>(k, _). \<not> strLess k ?b) m"
    unfolding deleteStale_def Let_def del snd_conv keys by (rule filter_cong) force+
  have "length (filter (\<lambda>(k, _). strLess k ?b) m) + length (filter (\<lambda>(k, _). \<not> strLess k ?b) m) = length m"
    by (induction m) auto
  moreover have "map_of (filter (\<lambda>(k, _). \<not> strLess k ?b) m) k = (if strLess k ?b then None else map_of m k)" for k
    by (induction m) auto
  ultimately show ?thesis
    using rest keyAt_stale [OF assms(4,3,5)] by (simp add: kvGet_def case_prod_beta deleteStale_def Let_def keys)
qed

text \<open>
  A clock that goes back overwrites entries. Three entries are made at a time \<open>t\<close>, at another time and at
  \<open>t\<close> again, each in a new millisecond: the third takes the key of the first, which is lost.
\<close>

theorem clock_back_overwrites:
  assumes "t \<noteq> u" and "mk_previous g \<noteq> t"
  shows "let (k1, g1) = nextKey t g; (k2, g2) = nextKey u g1; (k3, g3) = nextKey t g2 in
    k3 = k1 \<and> kvGet (feedPut lib k3 c (feedPut lib k2 b (feedPut lib k1 a m))) k1 = Some (streamIDToString lib c)"
  using assms by (simp add: nextKey_def feedPut_def)

definition sampleKeys :: monotonic_key where
  "sampleKeys = \<lparr>mk_previous = 1700000000000, mk_counter = 0\<rparr>"

definition sampleFeed :: feed where
  "sampleFeed = openFeed [] sampleKeys []"

lemma sampleKeys_good: "goodKeys sampleKeys []"
  by (simp add: goodKeys_def sampleKeys_def msTime_def)


theorem wakeup_lost_witness:
  "let w' = pullEnd (feedNotify (feedSave sampleLib 1700000000000 (StreamID 0 (CID [1])) (pullStart 5 sampleFeed))) in
     kvFind (fd_store w') (afterToken None (fd_token w')) \<noteq> [] \<and> fd_delivered w' = [] \<and>
     feedNotify w' = w' \<and> pullStart 5 w' = w' \<and> pullEnd w' = w'"
proof -
  have "strLess (fd_token sampleFeed) (fst (nextKey 1700000000000 (fd_key sampleFeed)))"
    by (cases "fst (nextKey 1700000000000 (fd_key sampleFeed))") (auto simp: sampleFeed_def openFeed_def sampleKeys_def nextKey_def)
  moreover have "goodKeys (fd_key sampleFeed) (fd_store sampleFeed)"
    using sampleKeys_good by (simp add: sampleFeed_def openFeed_def)
  moreover have "mk_previous (fd_key sampleFeed) \<le> 1700000000000" "msTime 1700000000000" "mk_counter (fd_key sampleFeed) < 10 ^ 6"
    "fd_reader sampleFeed = Idle" "fd_unsent sampleFeed = 0" "kvFind (fd_store sampleFeed) (afterToken None (fd_token sampleFeed)) = []"
    "fd_delivered sampleFeed = []"
    by (simp_all add: sampleFeed_def openFeed_def sampleKeys_def msTime_def kvFind_def afterToken_def allKeys_def)
  ultimately show ?thesis
    using wakeup_lost [of sampleFeed 1700000000000 sampleLib "StreamID 0 (CID [1])" 5 5] by (simp add: Let_def)
qed

theorem stale_deleted_witness:
  "let (n, m') = deleteStale 1700000000001 [(keyAt 1700000000000 3, ''k'')] in kvGet m' (keyAt 1700000000000 3) = None \<and> n + length m' = 1"
proof -
  have "msTime 1700000000000" "msTime 1700000000001" by (simp_all add: msTime_def)
  moreover have "(3 :: nat) < 10 ^ 6" by simp
  moreover from calculation have "\<exists>t c. keyAt 1700000000000 3 = keyAt t c \<and> msTime t \<and> c < 10 ^ 6" by blast
  ultimately show ?thesis
    using stale_deleted [of "[(keyAt 1700000000000 3, ''k'')]" 1700000000001 1700000000000 3]
    by (simp add: case_prod_beta)
qed

theorem clock_back_overwrites_witness:
  "let (k1, g1) = nextKey 8 (newMonotonicKey 7); (k2, g2) = nextKey 6 g1; (k3, g3) = nextKey 8 g2 in
    k3 = k1 \<and> kvGet (feedPut sampleLib k3 (StreamID 0 (CID [3])) (feedPut sampleLib k2 (StreamID 0 (CID [2]))
      (feedPut sampleLib k1 (StreamID 0 (CID [1])) []))) k1 = Some (streamIDToString sampleLib (StreamID 0 (CID [3])))"
  using clock_back_overwrites [of 8 6 "newMonotonicKey 7"] by (simp add: newMonotonicKey_def)

end
