(* ===== verification/AnchorValidator.thy ===== *)
theory AnchorValidator
  imports StreamIds LruCache
begin

text \<open>
  Validation of anchor proofs on a blockchain (\<open>core/src/anchor/ethereum/ethereum-anchor-validator.ts\<close>,
  \<open>anchor-utils/src/cid.ts\<close>, \<open>core/src/providers-cache.ts\<close>). The providers of the library ethers are
  named by what they are made from; what they answer, and the decoding of the data of transactions, are
  parameters.
\<close>

section \<open>Chains\<close>

record eth_network =
  en_network :: string
  en_chain :: string
  en_networkChainId :: int
  en_endpoint :: "string option"

definition ETH_CHAIN_ID_MAPPINGS :: "(string \<times> eth_network) list" where
  "ETH_CHAIN_ID_MAPPINGS =
     [(''eip155:1'', \<lparr>en_network = ''mainnet'', en_chain = ''ETH'', en_networkChainId = 1, en_endpoint = None\<rparr>),
      (''eip155:3'', \<lparr>en_network = ''ropsten'', en_chain = ''ETH'', en_networkChainId = 3, en_endpoint = None\<rparr>),
      (''eip155:4'', \<lparr>en_network = ''rinkeby'', en_chain = ''ETH'', en_networkChainId = 4, en_endpoint = None\<rparr>),
      (''eip155:5'', \<lparr>en_network = ''goerli'', en_chain = ''ETH'', en_networkChainId = 5, en_endpoint = None\<rparr>),
      (''eip155:100'', \<lparr>en_network = ''mainnet'', en_chain = ''Gnosis'', en_networkChainId = 100,
         en_endpoint = Some ''https://gnosis-mainnet.public.blastapi.io''\<rparr>),
      (''eip155:11155111'', \<lparr>en_network = ''sepolia'', en_chain = ''ETH'', en_networkChainId = 11155111, en_endpoint = None\<rparr>)]"

definition BLOCK_THRESHHOLDS :: "(string \<times> int) list" where
  "BLOCK_THRESHHOLDS = [(''eip155:1'', 16688195), (''eip155:3'', 1000000000), (''eip155:5'', 8498671),
     (''eip155:100'', 26509835), (''eip155:11155111'', 5518585), (''eip155:1337'', 1)]"

definition V1_PROOF_TYPE :: string where
  "V1_PROOF_TYPE = ''f(bytes32)''"

definition ANCHOR_CONTRACT_ADDRESS :: string where
  "ANCHOR_CONTRACT_ADDRESS = ''0x231055A0852D67C7107Ad0d0DFeab60278fE6AdC''"

datatype provider = JsonRpc string | DefaultProvider string

text \<open>A transaction that is not in a block yet has neither block number nor block hash.\<close>

record transaction =
  tx_data :: string
  tx_to :: string
  tx_blockNumber :: "int option"
  tx_blockHash :: "string option"

record block =
  bk_timestamp :: int

record anchor_proof =
  pf_root :: cid
  pf_txHash :: cid
  pf_txType :: "string option"
  pf_chainId :: string

record eth_env =
  ee_codec :: codec_lib
  ee_ethereumRpcEndpoint :: string
  ee_evict :: evict_fn
  ee_getTransaction :: "provider \<Rightarrow> string \<Rightarrow> js_error + transaction option"
  ee_getBlock :: "provider \<Rightarrow> string option \<Rightarrow> js_error + block option"
  ee_getNetwork :: "provider \<Rightarrow> js_error + nat"
  ee_digest :: "cid \<Rightarrow> js_error + byte list"
  ee_toBase16 :: "byte list \<Rightarrow> string"
  ee_fromBase16 :: "string \<Rightarrow> js_error + byte list"
  ee_decodeCid :: "byte list \<Rightarrow> js_error + cid"
  ee_decodeFunctionData :: "string \<Rightarrow> js_error + string"

section \<open>Hashes and CIDs\<close>

definition convertCidToEthHash :: "eth_env \<Rightarrow> cid \<Rightarrow> js_error + string" where
  "convertCidToEthHash env c = bindR (ee_digest env c) (\<lambda>digest. Inr (''0x'' @ ee_toBase16 env digest))"

definition createCidFromHexValue :: "eth_env \<Rightarrow> string \<Rightarrow> js_error + cid" where
  "createCidFromHexValue env hexValue =
     bindR (ee_fromBase16 env (drop 2 hexValue)) (\<lambda>bs. cidCreate (ee_codec env) 1 113 (multihashBytes (ee_codec env) 18 bs))"

definition convertEthHashToCid :: "eth_env \<Rightarrow> string \<Rightarrow> js_error + cid" where
  "convertEthHashToCid env hexValue =
     bindR (ee_fromBase16 env (drop 2 hexValue)) (\<lambda>bs. cidCreate (ee_codec env) 1 147 (multihashBytes (ee_codec env) 27 bs))"

text \<open>\<open>data.replace(/^(0x0?)/, '')\<close>\<close>

definition withoutPrefix :: "string \<Rightarrow> string" where
  "withoutPrefix d = (if startsWith d ''0x0'' then drop 3 d else if startsWith d ''0x'' then drop 2 d else d)"

definition getCidFromV0Transaction :: "eth_env \<Rightarrow> transaction \<Rightarrow> js_error + cid" where
  "getCidFromV0Transaction env tx =
     bindR (ee_fromBase16 env (drop 1 (withoutPrefix (tx_data tx)))) (ee_decodeCid env)"

definition getCidFromV1Transaction :: "eth_env \<Rightarrow> transaction \<Rightarrow> js_error + cid" where
  "getCidFromV1Transaction env tx = bindR (ee_decodeFunctionData env (tx_data tx)) (createCidFromHexValue env)"

definition getCidFromTransaction :: "eth_env \<Rightarrow> string option \<Rightarrow> transaction \<Rightarrow> js_error + cid" where
  "getCidFromTransaction env txType tx =
     (if txType = Some V1_PROOF_TYPE then getCidFromV1Transaction env tx else getCidFromV0Transaction env tx)"

section \<open>The validator\<close>

record anchor_validator =
  av_chainId :: "string option"
  av_providers :: "(string \<times> provider) list"
  av_transactions :: "(string \<times> transaction option) list"
  av_blocks :: "(string \<times> block option) list"

type_synonym 'a validate = "(anchor_validator, 'a) ef"

definition newAnchorValidator :: anchor_validator where
  "newAnchorValidator = \<lparr>av_chainId = None, av_providers = [], av_transactions = [], av_blocks = []\<rparr>"

definition providerFor :: "eth_env \<Rightarrow> string \<Rightarrow> js_error + provider" where
  "providerFor env chain =
     (let ethNetwork = map_of ETH_CHAIN_ID_MAPPINGS chain;
          endpoint = (if ee_ethereumRpcEndpoint env \<noteq> [] then Some (ee_ethereumRpcEndpoint env)
                      else Option.bind ethNetwork en_endpoint)
      in case endpoint of
           Some e \<Rightarrow> Inr (JsonRpc e)
         | None \<Rightarrow> (case ethNetwork of
             None \<Rightarrow> Inl (Err ''No ethereum provider available for chainId'')
           | Some n \<Rightarrow> Inr (DefaultProvider (en_network n))))"

definition getEthProvider :: "eth_env \<Rightarrow> string \<Rightarrow> provider validate" where
  "getEthProvider env chain =
     bindE (getE (\<lambda>w. map_of (av_providers w) chain)) (\<lambda>fromCache. case fromCache of
       Some p \<Rightarrow> returnE p
     | None \<Rightarrow>
         bindE (liftE (throwIf (\<not> startsWith chain ''eip155'') (Err ''Unsupported chainId - must be eip155 namespace''))) (\<lambda>_.
         bindE (getE av_chainId) (\<lambda>configured.
         bindE (liftE (throwIf (configured \<noteq> None \<and> configured \<noteq> Some [] \<and> configured \<noteq> Some chain)
             (Err ''Unsupported chainId. Configured anchor service only supports''))) (\<lambda>_.
         bindE (liftE (providerFor env chain)) (\<lambda>p.
         bindE (modifyE (\<lambda>w. w\<lparr>av_providers := lruSet (ee_evict env) (av_providers w) chain p\<rparr>)) (\<lambda>_. returnE p))))))"

definition initValidator :: "eth_env \<Rightarrow> string option \<Rightarrow> unit validate" where
  "initValidator env chainId = (case chainId of
     None \<Rightarrow> returnE ()
   | Some c \<Rightarrow>
       if c = [] then returnE ()
       else
         bindE (getEthProvider env c) (\<lambda>p.
         bindE (liftE (ee_getNetwork env p)) (\<lambda>n.
         bindE (liftE (throwIf (c \<noteq> ''eip155'' @ '':'' @ natStr n) (Err ''Configured eth provider is for another chain''))) (\<lambda>_.
         modifyE (\<lambda>w. w\<lparr>av_chainId := Some c\<rparr>)))))"

definition getTransaction :: "eth_env \<Rightarrow> provider \<Rightarrow> string \<Rightarrow> transaction option validate" where
  "getTransaction env p txHash =
     bindE (getE (\<lambda>w. map_of (av_transactions w) txHash)) (\<lambda>found. case found of
       Some (Some tx) \<Rightarrow> returnE (Some tx)
     | _ \<Rightarrow>
         bindE (liftE (ee_getTransaction env p txHash)) (\<lambda>tx.
         bindE (modifyE (\<lambda>w. w\<lparr>av_transactions := lruSet (ee_evict env) (av_transactions w) txHash tx\<rparr>)) (\<lambda>_. returnE tx)))"

text \<open>The key \<open>null\<close> of the cache of blocks is the empty string here.\<close>

definition blockKey :: "string option \<Rightarrow> string" where
  "blockKey h = (case h of None \<Rightarrow> [] | Some s \<Rightarrow> s)"

definition getBlockOf :: "eth_env \<Rightarrow> provider \<Rightarrow> transaction \<Rightarrow> block option validate" where
  "getBlockOf env p tx =
     bindE (getE (\<lambda>w. map_of (av_blocks w) (blockKey (tx_blockHash tx)))) (\<lambda>found. case found of
       Some (Some b) \<Rightarrow> returnE (Some b)
     | _ \<Rightarrow>
         bindE (liftE (ee_getBlock env p (tx_blockHash tx))) (\<lambda>b.
         bindE (modifyE (\<lambda>w. w\<lparr>av_blocks := lruSet (ee_evict env) (av_blocks w) (blockKey (tx_blockHash tx)) b\<rparr>)) (\<lambda>_. returnE b)))"

definition getTransactionAndBlockInfo :: "eth_env \<Rightarrow> string \<Rightarrow> string \<Rightarrow> (transaction \<times> block) validate" where
  "getTransactionAndBlockInfo env chainId txHash =
     bindE (getEthProvider env chainId) (\<lambda>p.
     bindE (getTransaction env p txHash) (\<lambda>found. case found of
       None \<Rightarrow> throwE (Err ''Failed to load transaction data for transaction'')
     | Some tx \<Rightarrow>
         bindE (getBlockOf env p tx) (\<lambda>found. case found of
           None \<Rightarrow> throwE (Err ''Failed to load transaction data for block'')
         | Some b \<Rightarrow> returnE (tx, b))))"

text \<open>\<open>blockNumber <= threshold\<close>: \<open>null\<close> counts as 0, and a comparison with \<open>undefined\<close> is false.\<close>

definition beforeThreshold :: "string \<Rightarrow> int option \<Rightarrow> bool" where
  "beforeThreshold chainId blockNumber = (case map_of BLOCK_THRESHHOLDS chainId of
     None \<Rightarrow> False
   | Some t \<Rightarrow> (case blockNumber of None \<Rightarrow> 0 | Some n \<Rightarrow> n) \<le> t)"

definition validateChainInclusion :: "eth_env \<Rightarrow> anchor_proof \<Rightarrow> int validate" where
  "validateChainInclusion env proof =
     bindE (liftE (convertCidToEthHash env (pf_txHash proof))) (\<lambda>txHash.
     bindE (getTransactionAndBlockInfo env (pf_chainId proof) txHash) (\<lambda>(tx, b).
     bindE (liftE (getCidFromTransaction env (pf_txType proof) tx)) (\<lambda>txCid.
     if txCid \<noteq> pf_root proof then throwE (Err ''The root CID is not in the transaction'')
     else if beforeThreshold (pf_chainId proof) (tx_blockNumber tx) then returnE (bk_timestamp b)
     else if pf_txType proof \<noteq> Some V1_PROOF_TYPE then throwE (Err ''Any anchor proofs created after block must include the txType field'')
     else if tx_to tx \<noteq> ANCHOR_CONTRACT_ADDRESS then throwE (Err ''This is not the official anchoring contract address'')
     else returnE (bk_timestamp b))))"

section \<open>The cache of providers for reading the chain\<close>

type_synonym 'a cached = "((string \<times> provider) list, 'a) ef"

definition getProvider :: "eth_env \<Rightarrow> string option \<Rightarrow> provider cached" where
  "getProvider env chainId = (case chainId of
     None \<Rightarrow> throwE TypeErr
   | Some c \<Rightarrow>
       bindE (getE (\<lambda>m. map_of m c)) (\<lambda>fromCache. case fromCache of
         Some p \<Rightarrow> returnE p
       | None \<Rightarrow>
           bindE (liftE (throwIf (\<not> startsWith c ''eip155'') (Err ''Unsupported chainId - must be eip155 namespace''))) (\<lambda>_.
           bindE (liftE (providerFor env c)) (\<lambda>p.
           bindE (modifyE (\<lambda>m. lruSet (ee_evict env) m c p)) (\<lambda>_.
           bindE (liftE (ee_getNetwork env p)) (\<lambda>n.
           bindE (liftE (throwIf (c \<noteq> ''eip155'' @ '':'' @ natStr n) (Err ''Configured eth provider is for another chain''))) (\<lambda>_.
           returnE p)))))))"

section \<open>What the caches hold\<close>










lemma lruSet_answers:
  "map_of (lruSet evict m k v) l = Some u \<Longrightarrow> (\<And>u. map_of m l = Some u \<Longrightarrow> P l u) \<Longrightarrow> P k v \<Longrightarrow> P l u"
  using lruSet_map by metis







section \<open>A sample chain\<close>

text \<open>
  One transaction is in block 9000000 of goerli, above the threshold; another one is pending. The network
  behind every endpoint is goerli.
\<close>

definition sampleTxs :: "(string \<times> transaction) list" where
  "sampleTxs =
     [(''0xab'', \<lparr>tx_data = ''0xbb'', tx_to = ANCHOR_CONTRACT_ADDRESS, tx_blockNumber = Some 9000000, tx_blockHash = Some ''0xff''\<rparr>),
      (''0xac'', \<lparr>tx_data = ''0x0fbb'', tx_to = ''0x1'', tx_blockNumber = None, tx_blockHash = None\<rparr>)]"

definition sampleEth :: eth_env where
  "sampleEth = \<lparr> ee_codec = sampleLib, ee_ethereumRpcEndpoint = [], ee_evict = (\<lambda>_. None),
     ee_getTransaction = (\<lambda>_ h. Inr (map_of sampleTxs h)),
     ee_getBlock = (\<lambda>_ k. Inr (Some \<lparr>bk_timestamp = (if k = None then 900 else 700)\<rparr>)),
     ee_getNetwork = (\<lambda>_. Inr 5), ee_digest = (\<lambda>c. Inr (cid_bytes c)), ee_toBase16 = letters, ee_fromBase16 = unletters,
     ee_decodeCid = (\<lambda>bs. Inr (CID bs)), ee_decodeFunctionData = Inr \<rparr>"


definition pendingProof :: anchor_proof where
  "pendingProof = \<lparr>pf_root = CID [17], pf_txHash = CID [2], pf_txType = None, pf_chainId = ''eip155:5''\<rparr>"

definition sampleValidator :: anchor_validator where
  "sampleValidator = snd (initValidator sampleEth (Some ''eip155:5'') newAnchorValidator)"

section \<open>Properties\<close>



text \<open>
  A transaction that is not mined counts as anchored. The library answers for the block hash \<open>null\<close> with
  the latest block; a transaction in no block has no number, which is below every threshold. So a proof
  of the old type for a pending transaction, to any address, is accepted with the time of the latest
  block.
\<close>

theorem pending_accepted:
  assumes "map_of (av_transactions w) h = None" and "map_of (av_blocks w) [] = None" and "map_of (av_providers w) (pf_chainId proof) = Some p"
    and "convertCidToEthHash env (pf_txHash proof) = Inr h" and "ee_getTransaction env p h = Inr (Some tx)"
    and "tx_blockNumber tx = None" and "tx_blockHash tx = None" and "ee_getBlock env p None = Inr (Some latest)"
    and "pf_txType proof = None" and "getCidFromV0Transaction env tx = Inr (pf_root proof)"
    and "map_of BLOCK_THRESHHOLDS (pf_chainId proof) \<noteq> None"
  shows "fst (validateChainInclusion env proof w) = Inr (bk_timestamp latest)"
proof -
  have "beforeThreshold (pf_chainId proof) None"
    using assms(11) by (auto simp: beforeThreshold_def BLOCK_THRESHHOLDS_def split: if_splits)
  with assms(1-10) show ?thesis
    by (simp add: validateChainInclusion_def getTransactionAndBlockInfo_def getEthProvider_def getTransaction_def getBlockOf_def
        bindE_def ef_simps blockKey_def getCidFromTransaction_def)
qed

theorem pending_accepted_witness:
  "fst (validateChainInclusion sampleEth pendingProof sampleValidator) = Inr 900"
proof -
  let ?tx = "snd (sampleTxs ! 1)"
  have "map_of (av_transactions sampleValidator) ''0xac'' = None" "map_of (av_blocks sampleValidator) [] = None"
    "map_of (av_providers sampleValidator) (pf_chainId pendingProof) = Some (DefaultProvider ''goerli'')"
    "convertCidToEthHash sampleEth (pf_txHash pendingProof) = Inr ''0xac''"
    "ee_getTransaction sampleEth (DefaultProvider ''goerli'') ''0xac'' = Inr (Some ?tx)"
    "tx_blockNumber ?tx = None" "tx_blockHash ?tx = None"
    "ee_getBlock sampleEth (DefaultProvider ''goerli'') None = Inr (Some \<lparr>bk_timestamp = 900\<rparr>)"
    "pf_txType pendingProof = None" "getCidFromV0Transaction sampleEth ?tx = Inr (pf_root pendingProof)"
    "map_of BLOCK_THRESHHOLDS (pf_chainId pendingProof) \<noteq> None"
    by code_simp+
  from pending_accepted [OF this] show ?thesis by simp
qed

text \<open>
  A provider of the wrong chain is refused once. \<open>getProvider\<close> puts a provider into its cache before it
  compares the chains: the first call for the chain throws, the second returns the provider.
\<close>

theorem wrong_chain_cached:
  assumes "map_of m c = None" and "startsWith c ''eip155''" and "providerFor env c = Inr p" and "ee_getNetwork env p = Inr n"
    and "c \<noteq> ''eip155'' @ '':'' @ natStr n" and "\<forall>ks. ee_evict env ks \<noteq> Some c"
  shows "let (r1, m1) = getProvider env (Some c) m; (r2, m2) = getProvider env (Some c) m1 in
    r1 = Inl (Err ''Configured eth provider is for another chain'') \<and> r2 = Inr p"
proof -
  have "map_of (lruSet (ee_evict env) m c p) c = Some p" using assms(6) by (simp add: lruSet_kept)
  then show ?thesis using assms(1-5) by (simp add: getProvider_def bindE_def ef_simps)
qed

theorem wrong_chain_cached_witness:
  "let (r1, m1) = getProvider sampleEth (Some ''eip155:1'') []; (r2, m2) = getProvider sampleEth (Some ''eip155:1'') m1 in
    r1 = Inl (Err ''Configured eth provider is for another chain'') \<and> r2 = Inr (DefaultProvider ''mainnet'')"
proof -
  have "map_of ([] :: (string \<times> provider) list) ''eip155:1'' = None" "startsWith ''eip155:1'' ''eip155''"
    "providerFor sampleEth ''eip155:1'' = Inr (DefaultProvider ''mainnet'')"
    "ee_getNetwork sampleEth (DefaultProvider ''mainnet'') = Inr 5"
    "''eip155:1'' \<noteq> ''eip155'' @ '':'' @ natStr 5"
    by code_simp+
  moreover have "\<forall>ks. ee_evict sampleEth ks \<noteq> Some ''eip155:1''" by (simp add: sampleEth_def)
  ultimately show ?thesis by (rule wrong_chain_cached)
qed

end
