(* ===== verification/CeramicNode.thy ===== *)
theory CeramicNode
  imports RepositoryTheorems "HOL-Library.Sublist"
begin

text \<open>
  The interface of a node (\<open>core/src/ceramic.ts\<close>, \<open>core/src/local-pin-api.ts\<close>, \<open>TrieNode\<close> and \<open>PathTrie\<close> of
  \<open>core/src/utils.ts\<close>, \<open>streamFromState\<close>): what clients call, over the repository. Options are the objects
  that clients pass, with the defaults spread before and the settings of the node after them.
\<close>

section \<open>Options\<close>

definition clientInitiatedWriteOpts :: "(string \<times> js) list" where
  "clientInitiatedWriteOpts =
     [(''throwOnInvalidCommit'', Bool True), (''throwOnConflict'', Bool True), (''throwIfStale'', Bool True)]"

definition DEFAULT_APPLY_COMMIT_OPTS :: js where
  "DEFAULT_APPLY_COMMIT_OPTS =
     Obj ([(''anchor'', Bool True), (''publish'', Bool True), (''sync'', Num 0)] @ clientInitiatedWriteOpts)"

definition DEFAULT_CREATE_FROM_GENESIS_OPTS :: js where
  "DEFAULT_CREATE_FROM_GENESIS_OPTS =
     Obj ([(''anchor'', Bool True), (''publish'', Bool True), (''sync'', Num 0)] @ clientInitiatedWriteOpts)"

definition NODE_LOAD_OPTS :: js where
  "NODE_LOAD_OPTS = Obj [(''sync'', Num 0)]"

text \<open>What the repository reads of the options. \<open>pin\<close> is a boolean if it is given.\<close>

definition syncOf :: "js \<Rightarrow> sync_option" where
  "syncOf v = (if v = Num 0 then PREFER_CACHE else if v = Num 1 then SYNC_ALWAYS
     else if v = Num 2 then NEVER_SYNC else if v = Num 3 then SYNC_ON_ERROR else InvalidSync)"

definition optTime :: "js \<Rightarrow> onum" where
  "optTime v = (case v of Num n \<Rightarrow> NVal \<lfloor>n\<rfloor> | Null \<Rightarrow> NNull | Undef \<Rightarrow> NUndef | _ \<Rightarrow> NNaN)"

definition repoOpts :: "js \<Rightarrow> repo_opts" where
  "repoOpts opts = \<lparr>op_sync = map_option syncOf (map_of (jsFields opts) ''sync''),
     op_anchor = jsTruthy (jsGetOpt opts ''anchor''), op_publish = jsTruthy (jsGetOpt opts ''publish''),
     op_pin = (case jsGetOpt opts ''pin'' of Undef \<Rightarrow> None | v \<Rightarrow> Some (jsTruthy v)),
     op_atTime = optTime (jsGetOpt opts ''atTime'')\<rparr>"

section \<open>The node\<close>

text \<open>
  \<open>cn_timesOut\<close>: the loads of a multiquery that take too long; \<open>cn_blockGet\<close> and \<open>cn_cidExists\<close> are reads from
  IPFS, \<open>cn_skipCheck\<close> an environment variable.
\<close>

record ceramic_node =
  cn_env :: surroundings
  cn_readOnly :: bool
  cn_syncOverride :: js
  cn_timesOut :: "stream_ref \<Rightarrow> bool"
  cn_blockGet :: "js \<Rightarrow> js_error + js"
  cn_cidExists :: "cid \<Rightarrow> bool"
  cn_skipCheck :: bool
  cn_enableSync :: bool
  cn_historySync :: bool

text \<open>A stream that a client holds. Its state follows the node only when it is subscribed to or synced.\<close>

record node_stream =
  ns_state :: stream_state
  ns_readOnly :: bool

definition streamFromState :: "ceramic_node \<Rightarrow> stream_state \<Rightarrow> bool \<Rightarrow> js_error + node_stream" where
  "streamFromState cn state updates =
     bindR (handlersGet (nd_handlers (en_node (cn_env cn))) (TypeCode (st_type state))) (\<lambda>_.
     Inr \<lparr>ns_state = state, ns_readOnly = \<not> updates\<rparr>)"

definition streamAt :: "ceramic_node \<Rightarrow> nat \<Rightarrow> node_stream act" where
  "streamAt cn a = bindE (readRs a) (\<lambda>rs. liftE (streamFromState cn (rs_value rs) True))"

definition normalizeStreamID :: "ceramic_node \<Rightarrow> ref_arg \<Rightarrow> js_error + stream_id" where
  "normalizeStreamID cn streamId =
     bindR (streamRefFrom (en_codec (cn_env cn)) streamId) (\<lambda>ref. case ref of
       RefStream sid \<Rightarrow> Inr sid | RefCommit _ \<Rightarrow> Inl (Err ''Not StreamID''))"

text \<open>\<open>config.syncOverride ? { sync: config.syncOverride } : {}\<close>\<close>

definition loadOptsOverride :: "js \<Rightarrow> js" where
  "loadOptsOverride syncOverride = (if jsTruthy syncOverride then Obj [(''sync'', syncOverride)] else Obj [])"

definition mergedOpts :: "ceramic_node \<Rightarrow> js \<Rightarrow> js \<Rightarrow> js" where
  "mergedOpts cn defaults opts = jsSpread (jsSpread defaults opts) (loadOptsOverride (cn_syncOverride cn))"

section \<open>Writes\<close>

definition nodeApplyCommit :: "ceramic_node \<Rightarrow> ref_arg \<Rightarrow> js \<Rightarrow> js \<Rightarrow> node_stream act" where
  "nodeApplyCommit cn streamId commit opts =
     (if cn_readOnly cn then throwE (Err ''Writes to streams are not supported in readOnly mode'')
      else
        bindE (liftE (normalizeStreamID cn streamId)) (\<lambda>sid.
        bindE (applyCommit (cn_env cn) sid commit (repoOpts (mergedOpts cn DEFAULT_APPLY_COMMIT_OPTS opts))) (streamAt cn)))"

definition nodeRequestAnchor :: "ceramic_node \<Rightarrow> ref_arg \<Rightarrow> js \<Rightarrow> anchor_status act" where
  "nodeRequestAnchor cn streamId opts =
     bindE (liftE (normalizeStreamID cn streamId)) (\<lambda>sid.
     bindE (repoLoad (en_fuel (cn_env cn)) (cn_env cn) sid (repoOpts (mergedOpts cn NODE_LOAD_OPTS opts)) True) (\<lambda>a.
     bindE (anchorStream (cn_env cn) a) (\<lambda>_.
     bindE (readRs a) (\<lambda>rs. returnE (st_anchorStatus (rs_value rs))))))"

definition nodeCreateStream :: "ceramic_node \<Rightarrow> nat \<Rightarrow> js \<Rightarrow> js \<Rightarrow> node_stream act" where
  "nodeCreateStream cn type genesis opts =
     bindE (createStreamFromGenesis (cn_env cn) type genesis
       (repoOpts (mergedOpts cn DEFAULT_CREATE_FROM_GENESIS_OPTS opts))) (streamAt cn)"

section \<open>Loading\<close>

definition loadBase :: "ceramic_node \<Rightarrow> stream_id \<Rightarrow> js \<Rightarrow> node_stream act" where
  "loadBase cn sid opts = bindE (repoLoad (en_fuel (cn_env cn)) (cn_env cn) sid (repoOpts opts) True) (streamAt cn)"

definition nodeLoadRef :: "ceramic_node \<Rightarrow> stream_ref \<Rightarrow> js \<Rightarrow> node_stream act" where
  "nodeLoadRef cn ref opts0 =
     (let opts = mergedOpts cn NODE_LOAD_OPTS opts0 in case ref of
        RefCommit commitId \<Rightarrow>
          bindE (loadAtCommit (cn_env cn) commitId (repoOpts opts)) (\<lambda>s. liftE (streamFromState cn s False))
      | RefStream sid \<Rightarrow>
          if jsTruthy (jsGetOpt opts ''atTime'') then
            bindE (loadAtTime (cn_env cn) sid (repoOpts opts)) (\<lambda>s. liftE (streamFromState cn s False))
          else
            catchE (loadBase cn sid opts) (\<lambda>err.
              if syncOf (jsGetOpt opts ''sync'') \<noteq> SYNC_ON_ERROR then throwE err
              else loadBase cn sid (jsSetProp opts ''sync'' (Num 1))))"

definition nodeLoadStream :: "ceramic_node \<Rightarrow> ref_arg \<Rightarrow> js \<Rightarrow> node_stream act" where
  "nodeLoadStream cn streamId opts =
     bindE (liftE (streamRefFrom (en_codec (cn_env cn)) streamId)) (\<lambda>ref. nodeLoadRef cn ref opts)"

definition convertCommit :: "ceramic_node \<Rightarrow> js \<Rightarrow> js_error + js" where
  "convertCommit cn commit =
     bindR (isSignedCommit commit) (\<lambda>signed.
     if signed then
       bindR (jsGet commit ''link'') (\<lambda>link.
       bindR (cn_blockGet cn link) (\<lambda>block. Inr (Obj [(''jws'', commit), (''linkedBlock'', block)])))
     else Inr commit)"

definition loadStreamCommits :: "ceramic_node \<Rightarrow> ref_arg \<Rightarrow> (string \<times> js) list act" where
  "loadStreamCommits cn streamId =
     (let env = cn_env cn in
      bindE (liftE (normalizeStreamID cn streamId)) (\<lambda>sid.
      bindE (nodeLoadRef cn (RefStream sid) (Obj [])) (\<lambda>stream.
      liftE (mapR (\<lambda>entry.
        bindR (ld_retrieveCommit (nd_loader (en_node env)) (le_cid entry) sid) (\<lambda>commit.
        bindR (convertCommit cn commit) (\<lambda>value. Inr (cidToString (en_codec env) (le_cid entry), value))))
        (st_log (ns_state stream))))))"

section \<open>Paths\<close>

datatype trie_node = TrieNode (trie_children: "(string \<times> trie_node) list")

text \<open>
  The children of a node are in the order they were added; an engine lists keys that are integers first,
  which only matters for the order in which streams are loaded.
\<close>

fun trieAdd :: "string list \<Rightarrow> trie_node \<Rightarrow> trie_node" where
  "trieAdd [] node = node"
| "trieAdd (key # keys) (TrieNode children) = TrieNode (case map_of children key of
     None \<Rightarrow> children @ [(key, trieAdd keys (TrieNode []))]
   | Some child \<Rightarrow> map (\<lambda>(k, t). (k, if k = key then trieAdd keys child else t)) children)"

definition pathKeys :: "string \<Rightarrow> string list" where
  "pathKeys path = jsSplit (CHR ''/'') (if startsWith path ''/'' then drop 1 path else path)"

definition pathTrie :: "string list \<Rightarrow> trie_node" where
  "pathTrie paths = foldl (\<lambda>t path. trieAdd (pathKeys path) t) (TrieNode []) paths"

section \<open>Multiqueries\<close>

record multi_query =
  mq_streamId :: ref_arg
  mq_genesis :: js
  mq_paths :: "string list"
  mq_opts :: js

type_synonym stream_index = "(string \<times> node_stream) list"

text \<open>\<open>equals\<close> of a CommitID is false for a StreamID.\<close>

definition ensureGenesis :: "ceramic_node \<Rightarrow> js \<Rightarrow> stream_ref \<Rightarrow> js \<Rightarrow> unit act" where
  "ensureGenesis cn genesis ref opts =
     bindE (liftE (isSignedCommitContainer genesis)) (\<lambda>container.
     bindE (liftE (if container then Inr True else isSignedCommit genesis)) (\<lambda>signed.
     bindE (liftE (throwIf signed (Err ''Given genesis commit is not deterministic''))) (\<lambda>_.
     bindE (nodeCreateStream cn (refType ref) genesis opts) (\<lambda>stream.
     liftE (throwIf (ref \<noteq> RefStream (streamIdFromState (ns_state stream)))
       (Err ''StreamID generated does not match expected StreamID''))))))"

text \<open>\<open>content[key]\<close>: an element of an array, a property of anything else.\<close>

definition jsMember :: "js \<Rightarrow> string \<Rightarrow> js_error + js" where
  "jsMember content key = (case content of
     Arr xs \<Rightarrow> if key \<noteq> [] \<and> (\<forall>c \<in> set key. isAlnum c \<and> of_char c < (58 :: nat)) \<and> natStr (strNat key) = key
       then Inr (if strNat key < length xs then xs ! strNat key else Undef) else jsGet content key
   | _ \<Rightarrow> jsGet content key)"

definition tryStreamId :: "ceramic_node \<Rightarrow> js \<Rightarrow> stream_id option" where
  "tryStreamId cn v = (case v of
     Str s \<Rightarrow> (case streamIDFromString (en_codec (cn_env cn)) s of Inr sid \<Rightarrow> Some sid | Inl _ \<Rightarrow> None)
   | _ \<Rightarrow> None)"

definition refBase :: "stream_ref \<Rightarrow> stream_id" where
  "refBase ref = (case ref of RefStream sid \<Rightarrow> sid | RefCommit c \<Rightarrow> commitIDBase c)"

definition refText :: "ceramic_node \<Rightarrow> stream_ref \<Rightarrow> string" where
  "refText cn ref = (case ref of
     RefStream sid \<Rightarrow> streamIDToString (en_codec (cn_env cn)) sid
   | RefCommit c \<Rightarrow> commitIDToString (en_codec (cn_env cn)) c)"

text \<open>
  A load that times out goes on, but its stream is not used. The children of a node are walked one after
  the other here; the code starts them together.
\<close>

definition tryLoad :: "ceramic_node \<Rightarrow> stream_ref \<Rightarrow> js \<Rightarrow> node_stream option act" where
  "tryLoad cn ref opts =
     bindE (catchE (bindE (nodeLoadRef cn ref opts) (\<lambda>s. returnE (Some s))) (\<lambda>_. returnE None)) (\<lambda>found.
     returnE (if cn_timesOut cn ref then None else found))"

definition indexKey :: "ceramic_node \<Rightarrow> stream_ref \<Rightarrow> js \<Rightarrow> node_stream \<Rightarrow> js_error + string" where
  "indexKey cn ref opts stream =
     (if jsTruthy (jsGetOpt opts ''atTime'') then
        bindR (makeCommitID (en_codec (cn_env cn)) (refBase ref) (CommitCid (tipFromState (ns_state stream)))) (\<lambda>c.
        Inr (commitIDToString (en_codec (cn_env cn)) c))
      else Inr (refText cn ref))"

fun walkNext :: "ceramic_node \<Rightarrow> js \<Rightarrow> trie_node \<Rightarrow> stream_ref \<Rightarrow> stream_index \<Rightarrow> stream_index act"
and walkChildren :: "ceramic_node \<Rightarrow> js \<Rightarrow> (string \<times> trie_node) list \<Rightarrow> js \<Rightarrow> stream_index \<Rightarrow> stream_index act" where
  "walkNext cn opts (TrieNode children) ref index =
     bindE (tryLoad cn ref opts) (\<lambda>found. case found of
       None \<Rightarrow> returnE index
     | Some stream \<Rightarrow>
         bindE (liftE (indexKey cn ref opts stream)) (\<lambda>key.
         walkChildren cn opts children (streamContent (ns_state stream)) (mapSet index key stream)))"
| "walkChildren cn opts [] content index = returnE index"
| "walkChildren cn opts ((key, node) # rest) content index =
     bindE (liftE (jsMember content key)) (\<lambda>v.
     bindE (case (if jsTruthy v then tryStreamId cn v else None) of
         Some sid \<Rightarrow> walkNext cn opts node (RefStream sid) index
       | None \<Rightarrow> returnE index) (walkChildren cn opts rest content))"

definition loadLinkedStreams :: "ceramic_node \<Rightarrow> multi_query \<Rightarrow> stream_index act" where
  "loadLinkedStreams cn q =
     bindE (liftE (streamRefFrom (en_codec (cn_env cn)) (mq_streamId q))) (\<lambda>ref.
     bindE (whenE (jsTruthy (mq_genesis q)) (ensureGenesis cn (mq_genesis q) ref (mq_opts q))) (\<lambda>_.
     walkNext cn (jsNullishOr (mq_opts q) (Obj [])) (pathTrie (mq_paths q)) ref []))"

fun syncStreams :: "ceramic_node \<Rightarrow> stream_index \<Rightarrow> stream_index act" where
  "syncStreams cn [] = returnE []"
| "syncStreams cn ((key, stream) # rest) =
     bindE (if ns_readOnly stream then returnE stream
       else nodeLoadRef cn (RefStream (streamIdFromState (ns_state stream)))
         (Obj [(''sync'', Num 2), (''syncTimeoutSeconds'', Num 0)])) (\<lambda>synced.
     bindE (syncStreams cn rest) (\<lambda>index. returnE ((key, stream\<lparr>ns_state := ns_state synced\<rparr>) # index)))"

fun runQueryList :: "ceramic_node \<Rightarrow> multi_query list \<Rightarrow> stream_index list act" where
  "runQueryList cn [] = returnE []"
| "runQueryList cn (q # qs) =
     bindE (catchE (loadLinkedStreams cn q) (\<lambda>_. returnE [])) (\<lambda>r.
     bindE (runQueryList cn qs) (\<lambda>rs. returnE (r # rs)))"

definition flattenResults :: "stream_index list \<Rightarrow> stream_index" where
  "flattenResults rs = foldl (\<lambda>acc (k, s). mapSet acc k s) [] (concat rs)"

definition multiQuery :: "ceramic_node \<Rightarrow> multi_query list \<Rightarrow> stream_index act" where
  "multiQuery cn queries = bindE (runQueryList cn queries) (\<lambda>rs. syncStreams cn (flattenResults rs))"

section \<open>Pins and checks at the start\<close>

definition pinApiAdd :: "ceramic_node \<Rightarrow> stream_id \<Rightarrow> bool \<Rightarrow> unit act" where
  "pinApiAdd cn sid force =
     (let env = cn_env cn in
      bindE (repoLoad (en_fuel env) env sid (defaultOpts\<lparr>op_sync := Some PREFER_CACHE\<rparr>) True) (\<lambda>a.
      bindE (pinStream env a force) (\<lambda>_.
      bindE (readRs a) (\<lambda>rs. markPinnedAndSynced env (rs_id rs)))))"

definition pinApiRm :: "ceramic_node \<Rightarrow> stream_id \<Rightarrow> bool \<Rightarrow> unit act" where
  "pinApiRm cn sid publish =
     bindE (fromMemoryOrStore (cn_env cn) sid) (\<lambda>found. case found of
       None \<Rightarrow> returnE ()
     | Some a \<Rightarrow> unpinStream (cn_env cn) a publish)"

definition pinApiLs :: "ceramic_node \<Rightarrow> stream_id option \<Rightarrow> string list act" where
  "pinApiLs cn sid = listPinned (cn_env cn) sid"

definition checkIPFSPersistence :: "ceramic_node \<Rightarrow> unit act" where
  "checkIPFSPersistence cn =
     (if cn_skipCheck cn then returnE ()
      else
        bindE (randomPinnedStreamState (cn_env cn)) (\<lambda>found. case found of
          None \<Rightarrow> returnE ()
        | Some state \<Rightarrow>
            let commitCIDs = le_cid (hd (st_log state)) #
              (if 1 < length (st_log state) then [le_cid (last (st_log state))] else [])
            in liftE (forEachR (\<lambda>c. throwIf (\<not> cn_cidExists cn c) (Err ''IPFS data missing!'')) commitCIDs)))"

text \<open>\<open>cn_historySync\<close>: the index and the synchronisation of history are both enabled.\<close>

definition startupChecks :: "ceramic_node \<Rightarrow> unit act" where
  "startupChecks cn =
     bindE (checkIPFSPersistence cn) (\<lambda>_.
     liftE (throwIf (\<not> cn_enableSync cn \<and> cn_historySync cn)
       (Err ''Cannot enable ComposeDB Historical Data Sync while IPFS peer data sync is disabled'')))"

section \<open>Answers of multiqueries\<close>

text \<open>
  A stream that a client can update is a sound state of the stream that the reference names; other
  streams are snapshots.
\<close>

definition liveStream :: "ceramic_node \<Rightarrow> stream_ref \<Rightarrow> node_stream \<Rightarrow> bool" where
  "liveStream cn ref st \<longleftrightarrow> ns_readOnly st \<or>
     soundState (cn_env cn) (streamIdFromState (ns_state st)) (ns_state st) \<and>
     (\<exists>sid. ref = RefStream sid \<and> idString (cn_env cn) (streamIdFromState (ns_state st)) = idString (cn_env cn) sid)"

definition entryOk :: "ceramic_node \<Rightarrow> string \<Rightarrow> node_stream \<Rightarrow> bool" where
  "entryOk cn k st \<longleftrightarrow> ns_readOnly st \<or>
     soundState (cn_env cn) (streamIdFromState (ns_state st)) (ns_state st) \<and>
     k = idString (cn_env cn) (streamIdFromState (ns_state st))"

definition indexOk :: "ceramic_node \<Rightarrow> stream_index \<Rightarrow> bool" where
  "indexOk cn index \<longleftrightarrow> (\<forall>(k, st) \<in> set index. entryOk cn k st)"

abbreviation givesQ :: "ceramic_node \<Rightarrow> 'a act \<Rightarrow> ('a \<Rightarrow> bool) \<Rightarrow> bool" where
  "givesQ cn m Q \<equiv> repos.safely (cn_env cn) (\<lambda>_. True) m (\<lambda>x _. Q x)"

lemma givesQ_bind: "givesQ cn m R \<Longrightarrow> (\<And>x. R x \<Longrightarrow> givesQ cn (f x) Q) \<Longrightarrow> givesQ cn (bindE m f) Q"
  by (rule repos.safely_bind [where R = "\<lambda>x _. R x"]) (auto simp: keeps_def)

lemma givesQ_return: "Q x \<Longrightarrow> givesQ cn (returnE x) Q"
  by (rule repos.safely_return) simp

lemma givesQ_any: "any (cn_env cn) m \<Longrightarrow> givesQ cn m (\<lambda>_. True)"
  by simp

lemma safely_streamAt:
  "repos.safely (cn_env cn) (heldFor (cn_env cn) sid a) (streamAt cn a)
     (\<lambda>st _. liveStream cn (RefStream sid) st \<and> \<not> ns_readOnly st)"
proof (rule keepsI)
  fix w assume w: "soundRepo (cn_env cn) w" "heldFor (cn_env cn) sid a w"
  then have "soundState (cn_env cn) (rs_id (rp_heap w ! a)) (rs_value (rp_heap w ! a))"
    by (auto simp: soundRepo_def soundRs_def heldFor_def heldAt_def)
  moreover from this have "streamIdFromState (rs_value (rp_heap w ! a)) = rs_id (rp_heap w ! a)" by (simp add: soundState_def)
  ultimately show "soundRepo (cn_env cn) (snd (streamAt cn a w)) \<and> laterRepo w (snd (streamAt cn a w)) \<and>
      (\<forall>st. fst (streamAt cn a w) = Inr st \<longrightarrow> liveStream cn (RefStream sid) st \<and> \<not> ns_readOnly st)"
    using w by (auto simp: streamAt_def readRs_def bindE_def ef_simps streamFromState_def res_simps repos.later_refl
        liveStream_def heldFor_def heldAt_def)
qed

lemma any_streamAt: "any (cn_env cn) (streamAt cn a)"
  by (rule keepsI) (simp add: streamAt_def readRs_def bindE_def ef_simps repos.later_refl)

lemma givesQ_loadBase:
  assumes "soundWorld (cn_env cn)"
  shows "givesQ cn (loadBase cn sid opts) (\<lambda>st. liveStream cn (RefStream sid) st \<and> \<not> ns_readOnly st)"
  unfolding loadBase_def by (rule repos.safely_bind [OF loads_repoLoad [OF assms] safely_streamAt])

lemma givesQ_snapshot:
  "any (cn_env cn) m \<Longrightarrow> givesQ cn (bindE m (\<lambda>s. liftE (streamFromState cn s False))) ns_readOnly"
  by (erule givesQ_bind) (rule repos.safely_lift, auto simp: streamFromState_def res_simps)

lemma map_of_rev_distinct: "distinct (map fst fs) \<Longrightarrow> map_of (rev fs) = map_of fs"
proof (induction fs)
  case (Cons x fs)
  then have "map_of fs (fst x) = None" by (simp add: map_of_eq_None_iff)
  with Cons show ?case by (auto simp: fun_eq_iff map_add_def split: option.split)
qed simp

lemma spread_fields:
  "map_of (jsFields (jsSpread a b)) = map_of (rev (jsFields a)) ++ map_of (rev (jsFields b))"
  by (simp add: jsSpread_def map_of_foldl_setField)

lemma spread_distinct: "distinct (map fst (jsFields (jsSpread a b)))"
proof -
  have "distinct (map fst (foldl (\<lambda>fs (k, v). setField fs k v) fs gs))" if "distinct (map fst fs)" for fs gs
    using that by (induction gs arbitrary: fs) (auto simp: setField_keys)
  then show ?thesis by (simp add: jsSpread_def)
qed

lemma mergedOpts_atTime:
  assumes "distinct (jsKeys opts)"
  shows "jsGetOpt (mergedOpts cn NODE_LOAD_OPTS opts) ''atTime'' =
    (case map_of (jsFields opts) ''atTime'' of None \<Rightarrow> Undef | Some v \<Rightarrow> v)"
proof -
  obtain fs where fs: "mergedOpts cn NODE_LOAD_OPTS opts = Obj fs" by (simp add: mergedOpts_def jsSpread_def)
  have "map_of (jsFields (mergedOpts cn NODE_LOAD_OPTS opts)) ''atTime'' = map_of (jsFields opts) ''atTime''"
    using assms spread_distinct [of NODE_LOAD_OPTS opts]
    by (auto simp: mergedOpts_def spread_fields map_of_rev_distinct jsKeys_def loadOptsOverride_def NODE_LOAD_OPTS_def
        map_add_def split: option.split)
  with fs show ?thesis by (simp add: jsGetOpt_def)
qed

lemma atTime_kept:
  assumes "jsTruthy (jsGetOpt opts ''atTime'')" and "distinct (jsKeys opts)"
  shows "jsTruthy (jsGetOpt (mergedOpts cn NODE_LOAD_OPTS opts) ''atTime'')"
  unfolding mergedOpts_atTime [OF assms(2)] using assms(1) by (cases opts) (auto simp: jsGetOpt_def split: option.splits)

text \<open>The loads that give a snapshot.\<close>

definition snapshotRef :: "ceramic_node \<Rightarrow> stream_ref \<Rightarrow> js \<Rightarrow> bool" where
  "snapshotRef cn ref opts = (case ref of RefCommit _ \<Rightarrow> True
     | RefStream _ \<Rightarrow> jsTruthy (jsGetOpt (mergedOpts cn NODE_LOAD_OPTS opts) ''atTime''))"

lemma givesQ_loadRef:
  assumes w: "soundWorld (cn_env cn)"
  shows "givesQ cn (nodeLoadRef cn ref opts) (\<lambda>st. liveStream cn ref st \<and> (ns_readOnly st \<longleftrightarrow> snapshotRef cn ref opts))"
proof (cases ref)
  case (RefCommit c)
  show ?thesis unfolding nodeLoadRef_def Let_def RefCommit stream_ref.case
    by (rule repos.safely_weaken [OF givesQ_snapshot [OF safely_loadAtCommit [OF w]]])
      (auto simp: liveStream_def snapshotRef_def)
next
  case (RefStream sid)
  show ?thesis
  proof (cases "jsTruthy (jsGetOpt (mergedOpts cn NODE_LOAD_OPTS opts) ''atTime'')")
    case True
    then show ?thesis unfolding nodeLoadRef_def Let_def RefStream stream_ref.case if_P [OF True]
      by (intro repos.safely_weaken [OF givesQ_snapshot [OF safely_loadAtTime [OF w]]])
        (auto simp: liveStream_def snapshotRef_def)
  next
    case False
    have "givesQ cn (nodeLoadRef cn ref opts) (\<lambda>st. liveStream cn ref st \<and> \<not> ns_readOnly st)"
      unfolding nodeLoadRef_def Let_def RefStream stream_ref.case if_not_P [OF False]
      by (intro repos.safely_catch repos.safely_if repos.safely_throw givesQ_loadBase [OF w])
    then show ?thesis by (rule repos.safely_weaken) (use False RefStream in \<open>auto simp: snapshotRef_def\<close>)
  qed
qed

lemma any_loadRef: "soundWorld (cn_env cn) \<Longrightarrow> any (cn_env cn) (nodeLoadRef cn ref opts)"
  by (rule safely_any [OF givesQ_loadRef]) simp

lemma givesQ_tryLoad:
  assumes "soundWorld (cn_env cn)"
  shows "givesQ cn (tryLoad cn ref opts) (\<lambda>found. \<forall>st. found = Some st \<longrightarrow> liveStream cn ref st \<and>
    (ns_readOnly st \<longleftrightarrow> snapshotRef cn ref opts))"
  unfolding tryLoad_def
  by (intro givesQ_bind [OF repos.safely_catch [OF givesQ_bind [OF givesQ_loadRef [OF assms]]]] givesQ_return)
    (auto intro: givesQ_return)

lemma indexOk_mapSet: "indexOk cn m \<Longrightarrow> entryOk cn k v \<Longrightarrow> indexOk cn (mapSet m k v)"
  using set_mapSet [of m k v] by (fastforce simp: indexOk_def)

lemma indexOk_set:
  assumes "indexOk cn index" and "liveStream cn ref st" and "indexKey cn ref opts st = Inr key"
    and "jsTruthy (jsGetOpt opts ''atTime'') \<Longrightarrow> ns_readOnly st"
  shows "indexOk cn (mapSet index key st)"
proof (rule indexOk_mapSet [OF assms(1)])
  show "entryOk cn key st"
  proof (cases "ns_readOnly st")
    case False
    with assms(4) have "indexKey cn ref opts st = Inr (refText cn ref)" by (auto simp: indexKey_def)
    with False assms(2,3) show ?thesis by (auto simp: entryOk_def liveStream_def refText_def)
  qed (simp add: entryOk_def)
qed

lemma givesQ_children:
  assumes "\<And>k t ref index. (k, t) \<in> set children \<Longrightarrow> indexOk cn index \<Longrightarrow> givesQ cn (walkNext cn opts t ref index) (indexOk cn)"
    and "indexOk cn index"
  shows "givesQ cn (walkChildren cn opts children content index) (indexOk cn)"
  using assms
proof (induction children arbitrary: index)
  case (Cons c rest)
  obtain key node where c: "c = (key, node)" by (cases c)
  show ?case unfolding c walkChildren.simps
  proof (intro safely_bind_lift givesQ_bind [where R = "indexOk cn"])
    fix v
    show "givesQ cn (case (if jsTruthy v then tryStreamId cn v else None) of None \<Rightarrow> returnE index
        | Some sid \<Rightarrow> walkNext cn opts node (RefStream sid) index) (indexOk cn)"
      by (rule safely_case_option) (auto intro!: givesQ_return Cons.prems simp: c)
  qed (rule Cons.IH; use Cons.prems in auto)
qed (simp add: givesQ_return)

lemma givesQ_walk:
  assumes w: "soundWorld (cn_env cn)" and d: "distinct (jsKeys opts)" and "indexOk cn index"
  shows "givesQ cn (walkNext cn opts node ref index) (indexOk cn)"
  using assms(3)
proof (induction node arbitrary: ref index)
  case (TrieNode children)
  show ?case unfolding walkNext.simps
  proof (rule givesQ_bind [OF givesQ_tryLoad [OF w]], rule safely_case_option)
    fix found st
    assume found: "\<forall>st. found = Some st \<longrightarrow> liveStream cn ref st \<and>
        (ns_readOnly st \<longleftrightarrow> snapshotRef cn ref opts)" "found = Some st"
    show "givesQ cn (bindE (liftE (indexKey cn ref opts st)) (\<lambda>key.
        walkChildren cn opts children (streamContent (ns_state st)) (mapSet index key st))) (indexOk cn)"
    proof (intro safely_bind_lift givesQ_children)
      fix key assume key: "indexKey cn ref opts st = Inr key"
      show "indexOk cn (mapSet index key st)"
        using found atTime_kept [OF _ d] by (intro indexOk_set [OF TrieNode.prems _ key]) (auto simp: snapshotRef_def split: stream_ref.split)
    qed (rule TrieNode.IH, assumption, simp, assumption)
  qed (auto intro: givesQ_return TrieNode.prems)
qed

lemma safely_ensureGenesis:
  assumes "soundWorld (cn_env cn)"
  shows "any (cn_env cn) (ensureGenesis cn genesis ref opts)"
  unfolding ensureGenesis_def nodeCreateStream_def
  by (intro safely_bind_lift givesQ_bind [OF givesQ_bind [OF safely_create [OF assms] any_streamAt]] safely_any [OF repos.safely_lift])
    auto

lemma givesQ_query:
  assumes "soundWorld (cn_env cn)" and "distinct (jsKeys (mq_opts q))"
  shows "givesQ cn (loadLinkedStreams cn q) (indexOk cn)"
  unfolding loadLinkedStreams_def
proof (intro safely_bind_lift givesQ_bind [OF any_when [OF safely_ensureGenesis [OF assms(1)]]] givesQ_walk [OF assms(1)])
  show "distinct (jsKeys (jsNullishOr (mq_opts q) (Obj [])))"
    using assms(2) by (cases "mq_opts q") (auto simp: jsKeys_def jsNullishOr_def)
qed (simp add: indexOk_def)

lemma givesQ_queries:
  assumes w: "soundWorld (cn_env cn)" and "\<forall>q \<in> set qs. distinct (jsKeys (mq_opts q))"
  shows "givesQ cn (runQueryList cn qs) (\<lambda>rs. \<forall>r \<in> set rs. indexOk cn r)"
  using assms(2)
proof (induction qs)
  case (Cons q qs)
  have "givesQ cn (catchE (loadLinkedStreams cn q) (\<lambda>_. returnE [])) (indexOk cn)"
  proof (rule repos.safely_catch)
    show "givesQ cn (loadLinkedStreams cn q) (indexOk cn)" using Cons.prems by (intro givesQ_query [OF w]) simp
  qed (simp_all add: givesQ_return indexOk_def)
  then show ?case unfolding runQueryList.simps
  proof (rule givesQ_bind)
    fix r assume "indexOk cn r"
    with Cons show "givesQ cn (bindE (runQueryList cn qs) (\<lambda>rs. returnE (r # rs))) (\<lambda>rs. \<forall>r \<in> set rs. indexOk cn r)"
      by (intro givesQ_bind [OF Cons.IH] givesQ_return) simp_all
  qed
qed (simp add: givesQ_return)

lemma indexOk_flatten: "\<forall>r \<in> set rs. indexOk cn r \<Longrightarrow> indexOk cn (flattenResults rs)"
proof -
  assume rs: "\<forall>r \<in> set rs. indexOk cn r"
  have fold: "indexOk cn (foldl (\<lambda>acc (k, s). mapSet acc k s) acc xs)" if "indexOk cn acc" "indexOk cn xs" for acc xs
    using that
  proof (induction xs arbitrary: acc)
    case (Cons x xs)
    obtain k st where x: "x = (k, st)" by (cases x)
    from Cons.prems have ok: "entryOk cn k st" "indexOk cn xs" by (simp_all add: indexOk_def x)
    have "indexOk cn (mapSet acc k st)" by (rule indexOk_mapSet [OF Cons.prems(1) ok(1)])
    from Cons.IH [OF this ok(2)] show ?case by (simp add: x)
  qed simp
  show ?thesis unfolding flattenResults_def by (rule fold) (use rs in \<open>auto simp: indexOk_def\<close>)
qed

lemma givesQ_sync:
  assumes w: "soundWorld (cn_env cn)" and "indexOk cn index"
  shows "givesQ cn (syncStreams cn index) (indexOk cn)"
  using assms(2)
proof (induction index)
  case (Cons e rest)
  obtain key st where e: "e = (key, st)" by (cases e)
  let ?env = "cn_env cn"
  let ?ref = "RefStream (streamIdFromState (ns_state st))"
  have rest: "indexOk cn rest" using Cons.prems by (simp add: indexOk_def)
  have one: "givesQ cn (if ns_readOnly st then returnE st
       else nodeLoadRef cn ?ref (Obj [(''sync'', Num 2), (''syncTimeoutSeconds'', Num 0)]))
      (\<lambda>synced. \<not> ns_readOnly st \<longrightarrow> soundState ?env (streamIdFromState (ns_state synced)) (ns_state synced) \<and>
         idString ?env (streamIdFromState (ns_state synced)) = idString ?env (streamIdFromState (ns_state st)))"
  proof (cases "ns_readOnly st")
    case False
    let ?opts = "Obj [(''sync'', Num 2), (''syncTimeoutSeconds'', Num 0)]"
    have "\<not> snapshotRef cn ?ref ?opts"
      by (simp add: snapshotRef_def mergedOpts_atTime jsKeys_def)
    with givesQ_loadRef [OF w, of ?ref ?opts]
    have "givesQ cn (nodeLoadRef cn ?ref ?opts) (\<lambda>st'. liveStream cn ?ref st' \<and> \<not> ns_readOnly st')" by simp
    then show ?thesis using False by (auto simp: liveStream_def elim!: repos.safely_weaken)
  qed (simp add: givesQ_return)
  show ?case unfolding e syncStreams.simps
    by (rule givesQ_bind [OF one], rule givesQ_bind [OF Cons.IH [OF rest]], rule givesQ_return)
      (use Cons.prems in \<open>auto simp: indexOk_def entryOk_def e\<close>)
qed (simp add: givesQ_return indexOk_def)

lemma givesQ_multi:
  "soundWorld (cn_env cn) \<Longrightarrow> \<forall>q \<in> set qs. distinct (jsKeys (mq_opts q)) \<Longrightarrow> givesQ cn (multiQuery cn qs) (indexOk cn)"
  unfolding multiQuery_def by (rule givesQ_bind [OF givesQ_queries], assumption+) (rule givesQ_sync, assumption, rule indexOk_flatten)

section \<open>Paths of a trie\<close>

fun trieHas :: "trie_node \<Rightarrow> string list \<Rightarrow> bool" where
  "trieHas node [] = True"
| "trieHas (TrieNode children) (key # keys) = (case map_of children key of None \<Rightarrow> False | Some t \<Rightarrow> trieHas t keys)"

lemma trieHas_empty [simp]: "trieHas (TrieNode []) keys \<longleftrightarrow> keys = []"
  by (cases keys) auto

lemma map_of_replace:
  "map_of (map (\<lambda>(k, t). (k, if k = key then u else t)) ts) l =
     (if l = key then map_option (\<lambda>_. u) (map_of ts key) else map_of ts l)"
  by (induction ts) auto

lemma trieHas_add: "trieHas (trieAdd keys node) ks \<longleftrightarrow> trieHas node ks \<or> prefix ks keys"
proof (induction keys node arbitrary: ks rule: trieAdd.induct)
  case (1 node)
  then show ?case by (cases ks) auto
next
  case (2 key keys children)
  show ?case
  proof (cases ks)
    case (Cons k rest)
    show ?thesis
    proof (cases "map_of children key")
      case None
      with Cons 2(1) [OF None] show ?thesis by (auto split: option.split)
    next
      case (Some child)
      from 2(2) [OF Some] map_of_SomeD [OF Some]
      have "trieHas (trieAdd keys child) ks \<longleftrightarrow> trieHas child ks \<or> prefix ks keys" for ks by blast
      with Cons Some show ?thesis by (auto simp: map_of_replace split: option.split)
    qed
  qed simp
qed

section \<open>A sample node\<close>

definition sampleCn :: ceramic_node where
  "sampleCn = \<lparr>cn_env = sampleSurroundings\<lparr>en_fuel := 1\<rparr>, cn_readOnly = False, cn_syncOverride = Undef, cn_timesOut = \<lambda>_. False,
     cn_blockGet = Inr, cn_cidExists = \<lambda>c. c = CID [1], cn_skipCheck = False, cn_enableSync = True, cn_historySync = False\<rparr>"

definition sampleQueryFor :: "stream_id \<Rightarrow> multi_query" where
  "sampleQueryFor sid = \<lparr>mq_streamId = ArgStream sid, mq_genesis = Undef, mq_paths = [''/a/b''], mq_opts = Undef\<rparr>"

text \<open>A CAIP-10 link without a DID in the memory of the node.\<close>

definition sampleNullLink :: stream_state where
  "sampleNullLink = sampleState\<lparr>st_type := 1, st_content := Null\<rparr>"

definition sampleNullRepo :: repo where
  "sampleNullRepo = (emptyRepo (Some []))\<lparr>rp_heap := [newRunningState sampleNullLink False],
     rp_inmemory := \<lparr>sc_volatile = [(idString sampleSurroundings (StreamID 1 (CID [1])), 0)], sc_durable = []\<rparr>\<rparr>"

section \<open>Properties\<close>

text \<open>
  C40: What a multiquery answers. On a node in order, whatever the queries are (with options that have each
  property once), whatever content leads the walk along the paths, and also when loads fail or time
  out: the node stays in order, and every stream of the answer that can be updated is a sound state of
  the stream under whose StreamID it is filed.
\<close>

theorem multi_query_answers:
  assumes "soundWorld (cn_env cn)" and "soundRepo (cn_env cn) w" and "\<forall>q \<in> set qs. distinct (jsKeys (mq_opts q))"
    and "multiQuery cn qs w = (Inr answer, w')"
  shows "soundRepo (cn_env cn) w' \<and> (\<forall>(k, st) \<in> set answer. ns_readOnly st \<or>
     soundState (cn_env cn) (streamIdFromState (ns_state st)) (ns_state st) \<and>
     k = idString (cn_env cn) (streamIdFromState (ns_state st)))"
  using givesQ_multi [OF assms(1,3)] assms(2,4) by (auto simp: keeps_def indexOk_def entryOk_def)

theorem multi_query_answers_witness:
  "\<exists>st. fst (multiQuery sampleCn [sampleQueryFor sampleId] (emptyRepo (Some []))) = Inr [(idString sampleSurroundings sampleId, st)] \<and>
     soundState (cn_env sampleCn) (streamIdFromState (ns_state st)) (ns_state st)"
proof -
  let ?m = "multiQuery sampleCn [sampleQueryFor sampleId] (emptyRepo (Some []))"
  have run: "map_sum id (map (\<lambda>(k, st). (k, ns_readOnly st))) (fst ?m) = Inr [(idString sampleSurroundings sampleId, False)]"
    by code_simp
  then obtain st where st: "fst ?m = Inr [(idString sampleSurroundings sampleId, st)]" "\<not> ns_readOnly st"
    by (cases "fst ?m") auto
  have "soundRepo (cn_env sampleCn) (emptyRepo (Some []))"
    by (rule emptyRepo_sound) (simp add: soundStore_def kvGet_def)
  from multi_query_answers [OF _ this, of "[sampleQueryFor sampleId]" _ "snd ?m"] st sampleWorld show ?thesis
    by (auto simp: sampleCn_def sampleQueryFor_def jsKeys_def prod_eq_iff soundWorld_def)
qed

text \<open>
  The trie of a multiquery has exactly the paths of the query and their beginnings.
\<close>

theorem path_trie_exact: "trieHas (pathTrie paths) keys \<longleftrightarrow> keys = [] \<or> (\<exists>path \<in> set paths. prefix keys (pathKeys path))"
proof -
  have "trieHas (foldl (\<lambda>t path. trieAdd (pathKeys path) t) t paths) keys \<longleftrightarrow>
      trieHas t keys \<or> (\<exists>path \<in> set paths. prefix keys (pathKeys path))" for t
    by (induction paths arbitrary: t) (auto simp: trieHas_add)
  then show ?thesis by (simp add: pathTrie_def)
qed

text \<open>
  A load that fails is tried once more. For a stream at its current state: an answer of the repository
  is returned; after an error, \<open>SYNC_ON_ERROR\<close> gives what a load that syncs in any case gives, in the
  state the first load left behind, and with every other option the error is thrown.
\<close>

theorem load_retries_on_error:
  assumes "opts = mergedOpts cn NODE_LOAD_OPTS opts0" and "\<not> jsTruthy (jsGetOpt opts ''atTime'')"
    and "loadBase cn sid opts w = (r, w1)" and "r \<noteq> Inl Diverged"
  shows "nodeLoadRef cn (RefStream sid) opts0 w =
    (case r of Inr st \<Rightarrow> (Inr st, w1)
     | Inl e \<Rightarrow> if syncOf (jsGetOpt opts ''sync'') = SYNC_ON_ERROR
         then loadBase cn sid (jsSetProp opts ''sync'' (Num 1)) w1 else (Inl e, w1))"
  using assms(2-4) by (auto simp: nodeLoadRef_def Let_def assms(1) [symmetric] catchE_def ef_simps split: sum.split)

theorem load_retries_on_error_witness:
  "let opts = Obj [(''sync'', Num 3)]; sid = StreamID TILE_TYPE (CID [9]); w = emptyRepo (Some []) in
   fst (nodeLoadRef sampleCn (RefStream sid) opts w) = fst (loadBase sampleCn sid (Obj [(''sync'', Num 1)]) w)"
proof -
  let ?opts = "mergedOpts sampleCn NODE_LOAD_OPTS (Obj [(''sync'', Num 3)])"
  let ?sid = "StreamID TILE_TYPE (CID [9])" and ?w = "emptyRepo (Some [])"
  have "(\<not> jsTruthy (jsGetOpt ?opts ''atTime'') \<and> syncOf (jsGetOpt ?opts ''sync'') = SYNC_ON_ERROR \<and>
    jsSetProp ?opts ''sync'' (Num 1) = Obj [(''sync'', Num 1)]) \<and> loadBase sampleCn ?sid ?opts ?w = (Inl (Err ''not found''), ?w)"
    by code_simp
  then have o: "\<not> jsTruthy (jsGetOpt ?opts ''atTime'')" "syncOf (jsGetOpt ?opts ''sync'') = SYNC_ON_ERROR"
    "jsSetProp ?opts ''sync'' (Num 1) = Obj [(''sync'', Num 1)]"
    and run: "fst (loadBase sampleCn ?sid ?opts ?w) = Inl (Err ''not found'')" "snd (loadBase sampleCn ?sid ?opts ?w) = ?w"
    by simp_all
  from load_retries_on_error [OF refl o(1), of ?sid ?w "Inl (Err ''not found'')" ?w] run o show ?thesis
    by (simp add: prod_eq_iff)
qed

text \<open>
  A node in read-only mode creates streams. The warning at its start says that all write operations
  will fail; \<open>applyCommit\<close> does, without any effect, but \<open>createStreamFromGenesis\<close> and \<open>requestAnchor\<close> do
  what they do on any node.
\<close>

theorem read_only_creates:
  "nodeApplyCommit (cn\<lparr>cn_readOnly := True\<rparr>) streamId commit opts w =
     (Inl (Err ''Writes to streams are not supported in readOnly mode''), w) \<and>
   nodeCreateStream (cn\<lparr>cn_readOnly := True\<rparr>) type genesis opts w =
     nodeCreateStream (cn\<lparr>cn_readOnly := False\<rparr>) type genesis opts w \<and>
   nodeRequestAnchor (cn\<lparr>cn_readOnly := True\<rparr>) streamId opts w =
     nodeRequestAnchor (cn\<lparr>cn_readOnly := False\<rparr>) streamId opts w"
proof -
  have "streamAt (cn\<lparr>cn_readOnly := True\<rparr>) = streamAt (cn\<lparr>cn_readOnly := False\<rparr>)"
    by (simp add: fun_eq_iff streamAt_def streamFromState_def)
  then show ?thesis
    by (simp add: nodeApplyCommit_def nodeCreateStream_def nodeRequestAnchor_def ef_simps mergedOpts_def normalizeStreamID_def)
qed

text \<open>
  The check at the start. A node whose checks are not skipped starts only if IPFS has the genesis commit
  and the tip of the pinned stream it looks at, and if it does not combine the synchronisation of
  history with disabled peer data sync.
\<close>

theorem startup_requires_commits:
  assumes "startupChecks cn w = (Inr (), w')" and "\<not> cn_skipCheck cn"
    and "randomPinnedStreamState (cn_env cn) w = (Inr (Some state), v)" and "st_log state \<noteq> []"
  shows "cn_cidExists cn (genesisCid state) \<and> cn_cidExists cn (tipFromState state) \<and> (cn_enableSync cn \<or> \<not> cn_historySync cn)"
  using assms
  by (cases "st_log state")
    (auto simp: startupChecks_def checkIPFSPersistence_def bindE_def ef_simps genesisCid_def tipFromState_def res_simps Let_def
      split: prod.splits sum.splits if_splits)

text \<open>
  One stream without content loses the whole answer. The walk reads a property of the content of every
  stream on a path that goes on; for content that is \<open>null\<close>, as that of a CAIP-10 link or a deterministic
  document, this throws, and the query has no entry at all, not even for the streams that were loaded.
\<close>

theorem null_content_drops_query:
  assumes "streamRefFrom (en_codec (cn_env cn)) (mq_streamId q) = Inr ref" and "\<not> jsTruthy (mq_genesis q)"
    and "pathTrie (mq_paths q) = TrieNode (c # cs)" and "jsNullish (streamContent (ns_state st))"
    and "tryLoad cn ref (jsNullishOr (mq_opts q) (Obj [])) w = (Inr (Some st), w')"
    and "indexKey cn ref (jsNullishOr (mq_opts q) (Obj [])) st = Inr k"
  shows "loadLinkedStreams cn q w = (Inl TypeErr, w') \<and> multiQuery cn [q] w = (Inr [], w')"
proof -
  obtain key node where c: "c = (key, node)" by (cases c)
  have "jsMember (streamContent (ns_state st)) key = Inl TypeErr"
    using assms(4) by (cases "streamContent (ns_state st)") (auto simp: jsMember_def)
  with assms c have "loadLinkedStreams cn q w = (Inl TypeErr, w')"
    by (simp add: loadLinkedStreams_def whenE_def bindE_def ef_simps)
  then show ?thesis by (simp add: multiQuery_def bindE_def catchE_def ef_simps flattenResults_def)
qed

theorem null_content_drops_query_witness:
  "fst (multiQuery sampleCn [sampleQueryFor (StreamID 1 (CID [1]))] sampleNullRepo) = Inr [] \<and>
   fst (nodeLoadRef sampleCn (RefStream (StreamID 1 (CID [1]))) (Obj []) sampleNullRepo) =
     Inr \<lparr>ns_state = sampleNullLink, ns_readOnly = False\<rparr>"
proof -
  let ?ref = "RefStream (StreamID 1 (CID [1]))" and ?q = "sampleQueryFor (StreamID 1 (CID [1]))"
  let ?st = "\<lparr>ns_state = sampleNullLink, ns_readOnly = False\<rparr>"
  have a: "streamRefFrom (en_codec (cn_env sampleCn)) (mq_streamId ?q) = Inr ?ref" "\<not> jsTruthy (mq_genesis ?q)"
    "pathTrie (mq_paths ?q) = TrieNode [(''a'', TrieNode [(''b'', TrieNode [])])]" "jsNullish (streamContent (ns_state ?st))"
    "indexKey sampleCn ?ref (jsNullishOr (mq_opts ?q) (Obj [])) ?st = Inr (refText sampleCn ?ref)"
    "fst (nodeLoadRef sampleCn ?ref (Obj []) sampleNullRepo) = Inr ?st"
    by code_simp+
  have "fst (tryLoad sampleCn ?ref (jsNullishOr (mq_opts ?q) (Obj [])) sampleNullRepo) = Inr (Some ?st)" by code_simp
  then have "tryLoad sampleCn ?ref (jsNullishOr (mq_opts ?q) (Obj [])) sampleNullRepo
      = (Inr (Some ?st), snd (tryLoad sampleCn ?ref (jsNullishOr (mq_opts ?q) (Obj [])) sampleNullRepo))"
    by (simp add: prod_eq_iff)
  from null_content_drops_query [OF a(1-4) this a(5)] a(6) show ?thesis by simp
qed

end
