(* ===== verification/StreamClients.thy ===== *)
theory StreamClients
  imports CeramicNode
begin

text \<open>
  The classes that clients use to create and update streams: \<open>TileDocument\<close>
  (\<open>stream-tile/src/tile-document.ts\<close>) and \<open>Caip10Link\<close> (\<open>stream-caip10-link/src/caip10-link.ts\<close>). They write
  through an interface that a node and an HTTP client provide. JSON patch comparison, the signer, the
  encoding of payloads and random bytes are parameters.
\<close>

section \<open>What clients rely on\<close>

record client_env =
  cl_lib :: codec_lib
  cl_fmt :: "js \<Rightarrow> string"
  cl_random :: "byte list"
  cl_base64 :: "byte list \<Rightarrow> string"
  cl_utf8 :: "string \<Rightarrow> byte list"
  cl_asController :: "js_error + string"
  cl_createDagJWS :: "js \<Rightarrow> js_error + js"
  cl_cborEncode :: "js \<Rightarrow> js_error + unit"
  cl_compare :: "js \<Rightarrow> js \<Rightarrow> js_error + js"

text \<open>\<open>StreamWriter\<close> and \<open>StreamReader\<close>\<close>

record 'w stream_api =
  sa_createStreamFromGenesis :: "nat \<Rightarrow> js \<Rightarrow> js \<Rightarrow> ('w, node_stream) ef"
  sa_applyCommit :: "stream_id \<Rightarrow> js \<Rightarrow> js \<Rightarrow> ('w, node_stream) ef"
  sa_loadStream :: "stream_ref \<Rightarrow> js \<Rightarrow> ('w, node_stream) ef"

definition nodeApi :: "ceramic_node \<Rightarrow> repo stream_api" where
  "nodeApi cn = \<lparr>sa_createStreamFromGenesis = nodeCreateStream cn,
     sa_applyCommit = (\<lambda>sid. nodeApplyCommit cn (ArgStream sid)), sa_loadStream = nodeLoadRef cn\<rparr>"

definition throwReadOnlyError :: "('w, 'a) ef" where
  "throwReadOnlyError = throwE (Err ''Historical stream commits cannot be modified.'')"

text \<open>\<open>state$.next(updated.state)\<close>\<close>

definition submitCommit :: "'w stream_api \<Rightarrow> node_stream \<Rightarrow> js \<Rightarrow> js \<Rightarrow> ('w, node_stream) ef" where
  "submitCommit api st commit opts =
     bindE (sa_applyCommit api (streamIdFromState (ns_state st)) commit opts) (\<lambda>updated.
     returnE (st\<lparr>ns_state := ns_state updated\<rparr>))"

definition createDefaults :: js where
  "createDefaults = Obj [(''anchor'', Bool True), (''publish'', Bool True), (''sync'', Num 0)]"

definition updateDefaults :: js where
  "updateDefaults = Obj [(''anchor'', Bool True), (''publish'', Bool True)]"

definition streamMetadata :: "stream_state \<Rightarrow> js" where
  "streamMetadata s = (case st_next s of None \<Rightarrow> st_metadata s | Some n \<Rightarrow> jsNullishOr (nx_metadata n) (st_metadata s))"

section \<open>Headers of tiles\<close>

text \<open>The schema is given as a CommitID or as any other value.\<close>

record tile_args =
  ta_controllers :: js
  ta_family :: js
  ta_tags :: js
  ta_schema :: "commit_id + js"
  ta_deterministic :: js
  ta_unique :: js
  ta_forbidControllerChange :: js

definition noArgs :: tile_args where
  "noArgs = \<lparr>ta_controllers = Undef, ta_family = Undef, ta_tags = Undef, ta_schema = Inr Undef, ta_deterministic = Undef,
     ta_unique = Undef, ta_forbidControllerChange = Undef\<rparr>"

definition argsOfMetadata :: "js \<Rightarrow> tile_args" where
  "argsOfMetadata md = \<lparr>ta_controllers = jsGetOpt md ''controllers'', ta_family = jsGetOpt md ''family'',
     ta_tags = jsGetOpt md ''tags'', ta_schema = Inr (jsGetOpt md ''schema''),
     ta_deterministic = jsGetOpt md ''deterministic'', ta_unique = jsGetOpt md ''unique'',
     ta_forbidControllerChange = jsGetOpt md ''forbidControllerChange''\<rparr>"

definition schemaText :: "client_env \<Rightarrow> commit_id + js \<Rightarrow> js" where
  "schemaText cl schema = (case schema of
     Inl c \<Rightarrow> Str (commitIDToString (cl_lib cl) c)
   | Inr v \<Rightarrow> if jsNullish v then Undef else Str (jsString (cl_fmt cl) v))"

definition checkSchemaText :: "client_env \<Rightarrow> commit_id + js \<Rightarrow> js_error + unit" where
  "checkSchemaText cl schema = (case schema of
     Inr (Str s) \<Rightarrow> (case commitIDFromString (cl_lib cl) s of
       Inl _ \<Rightarrow> Inl (Err ''Schema must be a CommitID'') | Inr _ \<Rightarrow> Inr ())
   | _ \<Rightarrow> Inr ())"

definition headerFromMetadata :: "client_env \<Rightarrow> tile_args \<Rightarrow> bool \<Rightarrow> js_error + (string \<times> js) list" where
  "headerFromMetadata cl md genesis =
     bindR (checkSchemaText cl (ta_schema md)) (\<lambda>_.
     let header = [(''controllers'', ta_controllers md), (''family'', ta_family md),
           (''schema'', schemaText cl (ta_schema md)), (''tags'', ta_tags md)] in
     bindR (if genesis then
         Inr ((if \<not> jsTruthy (ta_deterministic md) then [(''unique'', Str (cl_base64 cl (cl_random cl)))] else [])
           @ (if jsTruthy (ta_forbidControllerChange md) then [(''forbidControllerChange'', Bool True)] else []))
       else
         bindR (throwIf (ta_deterministic md \<noteq> Undef \<or> ta_unique md \<noteq> Undef)
           (Err ''Cannot change 'deterministic' or 'unique' properties on existing Streams'')) (\<lambda>_.
         bindR (throwIf (ta_forbidControllerChange md \<noteq> Undef)
           (Err ''Cannot change 'forbidControllerChange' property on existing Streams'')) (\<lambda>_.
         Inr []))) (\<lambda>more.
     Inr (filter (\<lambda>(k, v). v \<noteq> Undef) (header @ more))))"

section \<open>Commits of tiles\<close>

definition tileMakeRawCommit :: "client_env \<Rightarrow> stream_state \<Rightarrow> js \<Rightarrow> tile_args \<Rightarrow> js_error + js" where
  "tileMakeRawCommit cl s newContent args =
     bindR (headerFromMetadata cl args False) (\<lambda>header.
     let content = (if jsNullish newContent then streamContent s else newContent);
         controllers = lookupField header ''controllers'' in
     bindR (if jsTruthy controllers then
         bindR (jsGet controllers ''length'') (\<lambda>n.
         bindR (throwIf (n \<noteq> Num 1) (Err ''Exactly one controller must be specified'')) (\<lambda>_.
         bindR (jsIndex controllers 0) (\<lambda>c.
         throwIf (\<not> jsTruthy c) (Err ''Controller cannot be updated to an undefined value.''))))
       else Inr ()) (\<lambda>_.
     bindR (cl_compare cl (streamContent s) content) (\<lambda>patch.
     Inr (Obj [(''header'', Obj header), (''data'', patch), (''prev'', CidV (tipFromState s)),
       (''id'', CidV (genesisCid s))]))))"

definition tileMakeCommit :: "client_env \<Rightarrow> stream_state \<Rightarrow> js \<Rightarrow> tile_args \<Rightarrow> js_error + js" where
  "tileMakeCommit cl s newContent args = bindR (tileMakeRawCommit cl s newContent args) (cl_createDagJWS cl)"

definition tileUpdate :: "client_env \<Rightarrow> 'w stream_api \<Rightarrow> node_stream \<Rightarrow> js \<Rightarrow> tile_args \<Rightarrow> js \<Rightarrow> ('w, node_stream) ef" where
  "tileUpdate cl api st content args opts =
     (if ns_readOnly st then throwReadOnlyError
      else bindE (liftE (tileMakeCommit cl (ns_state st) content args)) (\<lambda>commit.
        submitCommit api st commit (jsSpread updateDefaults opts)))"

definition tilePatch :: "client_env \<Rightarrow> 'w stream_api \<Rightarrow> node_stream \<Rightarrow> js \<Rightarrow> js \<Rightarrow> ('w, node_stream) ef" where
  "tilePatch cl api st jsonPatch opts =
     (if ns_readOnly st then throwReadOnlyError
      else
        bindE (liftE (headerFromMetadata cl (argsOfMetadata (streamMetadata (ns_state st))) False)) (\<lambda>header.
        bindE (liftE (cl_createDagJWS cl (Obj [(''header'', Obj header), (''data'', jsonPatch),
          (''prev'', CidV (tipFromState (ns_state st))), (''id'', CidV (genesisCid (ns_state st)))]))) (\<lambda>commit.
        submitCommit api st commit (jsSpread updateDefaults opts))))"

text \<open>The payload of a genesis commit and whether it is signed.\<close>

definition tileRawGenesis :: "client_env \<Rightarrow> js \<Rightarrow> tile_args \<Rightarrow> js_error + (js \<times> bool)" where
  "tileRawGenesis cl content args =
     bindR (if \<not> jsTruthy (ta_controllers args) \<or> jsGetOpt (ta_controllers args) ''length'' = Num 0
       then bindR (cl_asController cl) (\<lambda>c. Inr (Arr [Str c])) else Inr (ta_controllers args)) (\<lambda>controllers.
     bindR (exactlyOneController controllers) (\<lambda>_.
     bindR (headerFromMetadata cl (args\<lparr>ta_controllers := controllers\<rparr>) True) (\<lambda>header.
     bindR (throwIf (jsTruthy (ta_deterministic args) \<and> jsTruthy content)
       (Err ''Initial content must be null when creating a deterministic Tile document'')) (\<lambda>_.
     Inr (if jsNullish content then (Obj [(''header'', Obj header)], False)
          else (Obj [(''data'', content), (''header'', Obj header)], True))))))"

definition tileMakeGenesis :: "client_env \<Rightarrow> js \<Rightarrow> tile_args \<Rightarrow> js_error + js" where
  "tileMakeGenesis cl content args =
     bindR (tileRawGenesis cl content args) (\<lambda>(commit, signed).
     if signed then cl_createDagJWS cl commit
     else bindR (cl_cborEncode cl commit) (\<lambda>_. Inr commit))"

definition withoutWaiting :: "bool \<Rightarrow> js \<Rightarrow> js" where
  "withoutWaiting unique opts = (if unique \<and> jsNullish (jsGetOpt opts ''syncTimeoutSeconds'')
     then jsSetProp opts ''syncTimeoutSeconds'' (Num 0) else opts)"

definition tileCreate :: "client_env \<Rightarrow> 'w stream_api \<Rightarrow> js \<Rightarrow> tile_args \<Rightarrow> js \<Rightarrow> ('w, node_stream) ef" where
  "tileCreate cl api content args opts0 =
     (let opts = withoutWaiting (\<not> jsTruthy (ta_deterministic args)) (jsSpread createDefaults opts0) in
      bindE (liftE (tileMakeGenesis cl content args)) (\<lambda>commit. sa_createStreamFromGenesis api TILE_TYPE commit opts))"

definition tileCreateFromGenesis :: "client_env \<Rightarrow> 'w stream_api \<Rightarrow> js \<Rightarrow> js \<Rightarrow> ('w, node_stream) ef" where
  "tileCreateFromGenesis cl api genesisCommit opts0 =
     bindE (liftE (jsGet genesisCommit ''header'')) (\<lambda>header.
     let opts = withoutWaiting (jsTruthy (jsGetOpt header ''unique'')) (jsSpread createDefaults opts0) in
     bindE (liftE (jsGet genesisCommit ''data'')) (\<lambda>data.
     bindE (liftE (if jsTruthy data then cl_createDagJWS cl genesisCommit else Inr genesisCommit)) (\<lambda>commit.
     sa_createStreamFromGenesis api TILE_TYPE commit opts)))"

definition tileDeterministic :: "client_env \<Rightarrow> 'w stream_api \<Rightarrow> tile_args \<Rightarrow> js \<Rightarrow> ('w, node_stream) ef" where
  "tileDeterministic cl api args0 opts0 =
     (let args = args0\<lparr>ta_deterministic := Bool True\<rparr> in
      bindE (liftE (throwIf (jsNullish (ta_family args) \<and> jsNullish (ta_tags args))
        (Err ''Family and/or tags are required when creating a deterministic tile document''))) (\<lambda>_.
      bindE (liftE (tileMakeGenesis cl Null args)) (\<lambda>commit.
      sa_createStreamFromGenesis api TILE_TYPE commit (jsSpread createDefaults opts0))))"

definition loadOfType :: "client_env \<Rightarrow> nat \<Rightarrow> 'w stream_api \<Rightarrow> ref_arg \<Rightarrow> js \<Rightarrow> ('w, node_stream) ef" where
  "loadOfType cl type api streamId opts =
     bindE (liftE (streamRefFrom (cl_lib cl) streamId)) (\<lambda>ref.
     bindE (liftE (throwIf (refType ref \<noteq> type) (Err ''StreamID does not refer to a stream of this type''))) (\<lambda>_.
     sa_loadStream api ref (jsSpread (Obj [(''sync'', Num 0)]) opts)))"

definition tileLoad :: "client_env \<Rightarrow> 'w stream_api \<Rightarrow> ref_arg \<Rightarrow> js \<Rightarrow> ('w, node_stream) ef" where
  "tileLoad cl = loadOfType cl TILE_TYPE"

section \<open>CAIP-10 links\<close>

record account_id =
  ac_namespace :: string
  ac_reference :: string
  ac_address :: string

text \<open>\<open>AccountId\<close> of the library caip, \<open>parse\<close> of did-resolver and the wallet that signs links are parameters.\<close>

record link_env =
  le_parseAccountId :: "string \<Rightarrow> js_error + account_id"
  le_newAccountId :: "string \<Rightarrow> string \<Rightarrow> js_error + account_id"
  le_parseDid :: "string \<Rightarrow> string option"
  le_createLink :: "string \<Rightarrow> js_error + js"

definition chainIdString :: "account_id \<Rightarrow> string" where
  "chainIdString a = ac_namespace a @ '':'' @ ac_reference a"

definition normalizeAccountId :: "link_env \<Rightarrow> string \<Rightarrow> js_error + account_id" where
  "normalizeAccountId le accountId =
     (if includesChar accountId (CHR ''@'') then
        (case jsSplit (CHR ''@'') accountId of
           address # chainId # _ \<Rightarrow>
             bindR (throwIf (address = [] \<or> chainId = []) (Err ''Invalid accountId provided'')) (\<lambda>_.
             le_newAccountId le chainId address)
         | _ \<Rightarrow> Inl (Err ''Invalid accountId provided''))
      else le_parseAccountId le accountId)"

definition linkMakeGenesis :: "account_id \<Rightarrow> js" where
  "linkMakeGenesis a =
     (let address = (if ac_namespace a = ''eip155'' then toLowerCase (ac_address a) else ac_address a) in
      Obj [(''header'', Obj [(''controllers'', Arr [Str (address @ ''@'' @ chainIdString a)]),
        (''family'', Str (''caip10-'' @ chainIdString a))])])"

definition linkCreateDefaults :: js where
  "linkCreateDefaults = Obj [(''anchor'', Bool False), (''publish'', Bool True), (''sync'', Num 0)]"

definition linkFromGenesis :: "'w stream_api \<Rightarrow> js \<Rightarrow> js \<Rightarrow> ('w, node_stream) ef" where
  "linkFromGenesis api genesisCommit opts =
     sa_createStreamFromGenesis api CAIP10_TYPE genesisCommit (jsSpread linkCreateDefaults opts)"

definition linkFromAccount :: "link_env \<Rightarrow> 'w stream_api \<Rightarrow> string \<Rightarrow> js \<Rightarrow> ('w, node_stream) ef" where
  "linkFromAccount le api accountId opts =
     bindE (liftE (normalizeAccountId le accountId)) (\<lambda>a.
     linkFromGenesis api (linkMakeGenesis a) (jsSpread linkCreateDefaults opts))"

definition linkMakeCommit :: "stream_state \<Rightarrow> js \<Rightarrow> js" where
  "linkMakeCommit s proof = Obj [(''data'', proof), (''prev'', CidV (tipFromState s)), (''id'', CidV (genesisCid s))]"

definition setDidProof :: "'w stream_api \<Rightarrow> node_stream \<Rightarrow> js \<Rightarrow> js \<Rightarrow> ('w, node_stream) ef" where
  "setDidProof api st proof opts =
     (if ns_readOnly st then throwReadOnlyError
      else submitCommit api st (linkMakeCommit (ns_state st) proof) (jsSpread updateDefaults opts))"

text \<open>\<open>did\<close> has no spaces around it.\<close>

definition setDid :: "link_env \<Rightarrow> 'w stream_api \<Rightarrow> node_stream \<Rightarrow> string \<Rightarrow> js \<Rightarrow> ('w, node_stream) ef" where
  "setDid le api st did opts =
     (if ns_readOnly st then throwReadOnlyError
      else
        bindE (liftE (throwIf (le_parseDid le did \<noteq> Some did) (Err ''DID is not valid''))) (\<lambda>_.
        bindE (liftE (le_createLink le did)) (\<lambda>linkProof.
        setDidProof api st linkProof (jsSpread updateDefaults opts))))"

definition clearDid :: "link_env \<Rightarrow> 'w stream_api \<Rightarrow> node_stream \<Rightarrow> js \<Rightarrow> ('w, node_stream) ef" where
  "clearDid le api st opts =
     bindE (liftE (le_createLink le [])) (\<lambda>linkProof. setDidProof api st linkProof (jsSpread updateDefaults opts))"

definition linkLoad :: "client_env \<Rightarrow> 'w stream_api \<Rightarrow> ref_arg \<Rightarrow> js \<Rightarrow> ('w, node_stream) ef" where
  "linkLoad cl = loadOfType cl CAIP10_TYPE"

section \<open>Lemmas\<close>





section \<open>Properties\<close>


definition sampleClient :: client_env where
  "sampleClient = \<lparr>cl_lib = e_lib sampleEnv, cl_fmt = (\<lambda>_. []), cl_random = replicate 12 7, cl_base64 = (\<lambda>_. ''BwcHBwcHBwcHBwcH''),
     cl_utf8 = (\<lambda>_. []), cl_asController = Inr ''did:a'', cl_createDagJWS = Inr, cl_cborEncode = (\<lambda>_. Inr ()),
     cl_compare = (\<lambda>_ b. case b of Str _ \<Rightarrow> Inl TypeErr | _ \<Rightarrow> Inr b)\<rparr>"


text \<open>
  A tile that \<open>TileDocument.create\<close> makes without \<open>deterministic\<close> keeps the field \<open>unique\<close> of its genesis header in its
  metadata, and \<open>patch\<close> gives the whole metadata to the check that refuses that field in an update: patching such
  a tile always fails, before anything is signed or sent.
\<close>

lemma header_genesis:
  assumes "headerFromMetadata cl args True = Inr header" and "\<not> jsTruthy (ta_deterministic args)"
  shows "lookupField header ''unique'' = Str (cl_base64 cl (cl_random cl))"
  using assms by (auto simp: headerFromMetadata_def Let_def bindR_Inr_iff)

lemma tileRawGenesis_Inr:
  "tileRawGenesis cl content args = Inr (commit, isSigned) \<Longrightarrow>
   \<exists>controllers header. headerFromMetadata cl (args\<lparr>ta_controllers := controllers\<rparr>) True = Inr header \<and>
     jsGet commit ''header'' = Inr (Obj header)"
  unfolding tileRawGenesis_def bindR_Inr_iff throwIf_Inr_iff by (fastforce split: if_split_asm)

lemma tileApplyGenesis_metadata:
  "tileApplyGenesis env cd = Inr s \<Longrightarrow> jsGet (cd_commit cd) ''header'' = Inr (st_metadata s) \<and> st_next s = None"
  by (auto simp: tileApplyGenesis_def Let_def bindR_Inr_iff)

theorem tile_patch_throws:
  assumes "tileRawGenesis cl content args = Inr (cd_commit cd, isSigned)" and "\<not> jsTruthy (ta_deterministic args)"
    and "tileApplyGenesis env cd = Inr (ns_state st)" and "\<not> ns_readOnly st"
  shows "\<exists>e. tilePatch cl api st jsonPatch opts w = (Inl e, w)"
proof -
  from tileRawGenesis_Inr [OF assms(1)] obtain controllers header where h: "headerFromMetadata cl (args\<lparr>ta_controllers := controllers\<rparr>) True = Inr header"
    and c: "jsGet (cd_commit cd) ''header'' = Inr (Obj header)" by blast
  have md: "streamMetadata (ns_state st) = Obj header"
    using tileApplyGenesis_metadata [OF assms(3)] c by (simp add: streamMetadata_def)
  have "lookupField header ''unique'' \<noteq> Undef" using header_genesis [OF h] assms(2) by simp
  then have "\<exists>e. headerFromMetadata cl (argsOfMetadata (Obj header)) False = Inl e"
    by (cases "checkSchemaText cl (ta_schema (argsOfMetadata (Obj header)))")
      (simp_all add: headerFromMetadata_def Let_def argsOfMetadata_def jsGetOpt_def throwIf_def)
  then show ?thesis using assms(4) by (auto simp: tilePatch_def bindE_def liftE_def md)
qed

theorem tile_patch_throws_witness:
  "\<exists>s e. tileApplyGenesis sampleEnv (sampleCommitData (CID [1]) (Obj [(''header'', Obj [(''controllers'', Arr [Str ''did:a'']),
       (''unique'', Str ''BwcHBwcHBwcHBwcH'')])]) Undef Undef) = Inr s \<and>
     tilePatch sampleClient api \<lparr>ns_state = s, ns_readOnly = False\<rparr> (Arr []) (Obj []) w = (Inl e, w)"
proof -
  let ?cd = "sampleCommitData (CID [1]) (Obj [(''header'', Obj [(''controllers'', Arr [Str ''did:a'']),
       (''unique'', Str ''BwcHBwcHBwcHBwcH'')])]) Undef Undef"
  have raw: "tileRawGenesis sampleClient Null noArgs = Inr (cd_commit ?cd, False)"
    by (simp add: tileRawGenesis_def headerFromMetadata_def checkSchemaText_def schemaText_def noArgs_def sampleClient_def
        jsGetOpt_def exactlyOneController_def Let_def)
  have "\<exists>s. tileApplyGenesis sampleEnv ?cd = Inr s"
    by (simp add: tileApplyGenesis_def isSignedCommitData_def exactlyOneController_def validDIDString_def startsWith_def
        throwIf_def Let_def)
  then obtain s where s: "tileApplyGenesis sampleEnv ?cd = Inr s" by blast
  from tile_patch_throws [OF raw, of sampleEnv "\<lparr>ns_state = s, ns_readOnly = False\<rparr>" api] s show ?thesis
    by (auto simp: noArgs_def)
qed

end
