(* ===== verification/InstanceClient.thy ===== *)
theory InstanceClient
  imports StreamClients
begin

text \<open>
  The clients of model instances (\<open>stream-model-instance/src/model-instance-document.ts\<close>) and of models
  (\<open>stream-model/src/model.ts\<close>). Documents of a model with the relation \<open>set\<close> are created from the values of the
  unique fields, joined with \<open>|\<close>; the handler compares them with the content later.
\<close>

section \<open>Model instances\<close>

definition midCreateDefaults :: js where
  "midCreateDefaults = Obj [(''anchor'', Bool True), (''publish'', Bool True), (''sync'', Num 2), (''syncTimeoutSeconds'', Num 0)]"

definition deterministicDefaults :: js where
  "deterministicDefaults = Obj [(''anchor'', Bool False), (''publish'', Bool False), (''sync'', Num 0)]"

text \<open>The context is given as a StreamID or as any other value.\<close>

record mid_args =
  ma_controller :: js
  ma_model :: "stream_id option"
  ma_context :: "stream_id + js"
  ma_deterministic :: js
  ma_shouldIndex :: js

definition contextField :: "client_env \<Rightarrow> stream_id + js \<Rightarrow> js_error + (string \<times> js) list" where
  "contextField cl c = (case c of
     Inl sid \<Rightarrow> Inr [(''context'', Bytes (streamIDBytes (cl_lib cl) sid))]
   | Inr v \<Rightarrow> if \<not> jsTruthy v then Inr []
       else bindR (throwIf (\<not> jsTruthy (jsGetOpt v ''bytes'')) (Err ''Context must be a StreamID'')) (\<lambda>_.
         Inr [(''context'', jsGetOpt v ''bytes'')]))"

definition midRawGenesis :: "client_env \<Rightarrow> env \<Rightarrow> js \<Rightarrow> mid_args \<Rightarrow> string list option \<Rightarrow> js_error + js" where
  "midRawGenesis cl env content md unique = (case ma_model md of
     None \<Rightarrow> Inl (Err ''Must specify a 'model' when creating a ModelInstanceDocument'')
   | Some model \<Rightarrow>
       bindR (validateContentLength env content) (\<lambda>_.
       bindR (if jsTruthy (ma_controller md) then Inr (ma_controller md)
         else bindR (cl_asController cl) (\<lambda>c. Inr (Str c))) (\<lambda>controller.
       let header = [(''controllers'', Arr [controller]), (''model'', Bytes (streamIDBytes (cl_lib cl) model)), (''sep'', Str ''model'')];
           uniqueField = (if jsTruthy (ma_deterministic md)
             then (case unique of Some us \<Rightarrow> [(''unique'', Bytes (cl_utf8 cl (jsJoin ''|'' us)))] | None \<Rightarrow> [])
             else [(''unique'', Bytes (cl_random cl))]) in
       bindR (contextField cl (ma_context md)) (\<lambda>ctx.
       Inr (Obj [(''data'', content), (''header'', Obj (header @ uniqueField @ ctx))])))))"

definition midMakeGenesis :: "client_env \<Rightarrow> env \<Rightarrow> js \<Rightarrow> mid_args \<Rightarrow> string list option \<Rightarrow> js_error + js" where
  "midMakeGenesis cl env content md unique =
     bindR (midRawGenesis cl env content md unique) (\<lambda>commit.
     if jsTruthy (ma_deterministic md) then bindR (cl_cborEncode cl commit) (\<lambda>_. Inr commit)
     else cl_createDagJWS cl commit)"

definition midCreate :: "client_env \<Rightarrow> env \<Rightarrow> 'w stream_api \<Rightarrow> js \<Rightarrow> mid_args \<Rightarrow> js \<Rightarrow> ('w, node_stream) ef" where
  "midCreate cl env api content md opts =
     bindE (liftE (midMakeGenesis cl env content md None)) (\<lambda>commit.
     sa_createStreamFromGenesis api MID_TYPE commit (jsSpread midCreateDefaults opts))"

definition midSingle :: "client_env \<Rightarrow> env \<Rightarrow> 'w stream_api \<Rightarrow> mid_args \<Rightarrow> js \<Rightarrow> ('w, node_stream) ef" where
  "midSingle cl env api md opts =
     bindE (liftE (midMakeGenesis cl env Null (md\<lparr>ma_deterministic := Bool True\<rparr>) None)) (\<lambda>commit.
     sa_createStreamFromGenesis api MID_TYPE commit (jsSpread deterministicDefaults opts))"

definition midSet :: "client_env \<Rightarrow> env \<Rightarrow> 'w stream_api \<Rightarrow> mid_args \<Rightarrow> string list \<Rightarrow> js \<Rightarrow> ('w, node_stream) ef" where
  "midSet cl env api md unique opts =
     bindE (liftE (midMakeGenesis cl env Null (md\<lparr>ma_deterministic := Bool True\<rparr>) (Some unique))) (\<lambda>commit.
     sa_createStreamFromGenesis api MID_TYPE commit (jsSpread deterministicDefaults opts))"

definition midLoadStream :: "client_env \<Rightarrow> 'w stream_api \<Rightarrow> ref_arg \<Rightarrow> js \<Rightarrow> ('w, node_stream) ef" where
  "midLoadStream cl = loadOfType cl MID_TYPE"

text \<open>\<open>this.commitId\<close> and the commit that leads from the current content to the new one; \<open>None\<close> is a header that is
  not given.\<close>

definition midRawCommit :: "client_env \<Rightarrow> commit_id \<Rightarrow> js \<Rightarrow> js \<Rightarrow> js option \<Rightarrow> js_error + js" where
  "midRawCommit cl prev oldContent newContent header =
     bindR (cl_compare cl (jsNullishOr oldContent (Obj [])) (jsNullishOr newContent (Obj []))) (\<lambda>patch.
     Inr (Obj ([(''data'', patch), (''prev'', CidV (commitIDCommit prev)), (''id'', CidV (sid_cid (commitIDBase prev)))]
       @ (case header of None \<Rightarrow> [] | Some h \<Rightarrow> [(''header'', h)]))))"

definition indexHeader :: "mid_args option \<Rightarrow> js option" where
  "indexHeader metadata = (case metadata of None \<Rightarrow> None
   | Some md \<Rightarrow> if jsNullish (ma_shouldIndex md) then None else Some (Obj [(''shouldIndex'', ma_shouldIndex md)]))"

definition replaceCommit :: "client_env \<Rightarrow> env \<Rightarrow> stream_state \<Rightarrow> js \<Rightarrow> mid_args option \<Rightarrow> js_error + js" where
  "replaceCommit cl env s content metadata =
     bindR (validateContentLength env content) (\<lambda>_.
     bindR (makeCommitID (cl_lib cl) (streamIdFromState s) (CommitCid (tipFromState s))) (\<lambda>commitId.
     midRawCommit cl commitId (streamContent s) content (indexHeader metadata)))"

definition midReplace :: "client_env \<Rightarrow> env \<Rightarrow> 'w stream_api \<Rightarrow> node_stream \<Rightarrow> js \<Rightarrow> mid_args option \<Rightarrow> js \<Rightarrow> ('w, node_stream) ef" where
  "midReplace cl env api st content metadata opts =
     (if ns_readOnly st then throwReadOnlyError
      else
        bindE (liftE (replaceCommit cl env (ns_state st) content metadata)) (\<lambda>raw.
        bindE (liftE (cl_createDagJWS cl raw)) (\<lambda>commit.
        submitCommit api st commit (jsSpread updateDefaults opts))))"

definition checkPatchEntry :: "env \<Rightarrow> js \<Rightarrow> js_error + unit" where
  "checkPatchEntry env patch =
     bindR (jsGet patch ''op'') (\<lambda>op'.
     if op' = Str ''add'' \<or> op' = Str ''replace'' then bindR (jsGet patch ''value'') (validateContentLength env) else Inr ())"

definition midPatch :: "client_env \<Rightarrow> env \<Rightarrow> 'w stream_api \<Rightarrow> node_stream \<Rightarrow> js list \<Rightarrow> mid_args option \<Rightarrow> js \<Rightarrow> ('w, node_stream) ef" where
  "midPatch cl env api st jsonPatch metadata opts =
     (if ns_readOnly st then throwReadOnlyError
      else
        bindE (liftE (forEachR (checkPatchEntry env) jsonPatch)) (\<lambda>_.
        bindE (liftE (cl_createDagJWS cl (Obj ([(''data'', Arr jsonPatch), (''prev'', CidV (tipFromState (ns_state st))),
          (''id'', CidV (sid_cid (streamIdFromState (ns_state st))))]
          @ (case indexHeader metadata of None \<Rightarrow> [] | Some h \<Rightarrow> [(''header'', h)]))))) (\<lambda>commit.
        submitCommit api st commit (jsSpread updateDefaults opts))))"

definition noMidArgs :: mid_args where
  "noMidArgs = \<lparr>ma_controller = Undef, ma_model = None, ma_context = Inr Undef, ma_deterministic = Undef, ma_shouldIndex = Undef\<rparr>"

definition midShouldIndex :: "client_env \<Rightarrow> env \<Rightarrow> 'w stream_api \<Rightarrow> node_stream \<Rightarrow> bool \<Rightarrow> js \<Rightarrow> ('w, node_stream) ef" where
  "midShouldIndex cl env api st flag opts = midPatch cl env api st [] (Some (noMidArgs\<lparr>ma_shouldIndex := Bool flag\<rparr>)) opts"

section \<open>Models\<close>

definition modelRawGenesis :: "client_env \<Rightarrow> js \<Rightarrow> js \<Rightarrow> js \<Rightarrow> js_error + js" where
  "modelRawGenesis cl modelBytes content metadata =
     bindR (throwIf (jsNullish content) (Err ''Genesis content cannot be null'')) (\<lambda>_.
     bindR (if jsTruthy metadata \<and> jsTruthy (jsGetOpt metadata ''controller'') then Inr (jsGetOpt metadata ''controller'')
       else bindR (cl_asController cl) (\<lambda>c. Inr (Str c))) (\<lambda>controller.
     Inr (Obj [(''data'', content), (''header'', Obj [(''controllers'', Arr [controller]), (''model'', modelBytes),
       (''sep'', Str ''model'')])])))"

definition modelCreate :: "client_env \<Rightarrow> env \<Rightarrow> 'w stream_api \<Rightarrow> js \<Rightarrow> js \<Rightarrow> ('w, node_stream) ef" where
  "modelCreate cl env api content metadata =
     bindE (liftE (assertVersionValid (cl_fmt cl) content SatisfiesMinor)) (\<lambda>_.
     bindE (liftE (e_decodeModel env content)) (\<lambda>_.
     bindE (liftE (modelRawGenesis cl (Bytes (streamIDBytes (cl_lib cl) MODEL_MODEL)) content metadata)) (\<lambda>raw.
     bindE (liftE (cl_createDagJWS cl raw)) (\<lambda>commit.
     sa_createStreamFromGenesis api MODEL_TYPE commit
       (Obj [(''publish'', Bool True), (''anchor'', Bool True), (''sync'', Num 2)])))))"

section \<open>Lemmas\<close>

lemma makeCommitID_parts:
  "makeCommitID lib sid (CommitCid c) = Inr k \<Longrightarrow> commitIDBase k = sid \<and> commitIDCommit k = c"
  by (cases sid) (auto simp: makeCommitID_def newCommitID_def parseCommit_def bindR_Inr_iff commitIDBase_def commitIDCommit_def
      split: if_splits)

lemma replaceCommit_Inr:
  assumes "replaceCommit cl env s content md = Inr raw"
  shows "\<exists>patch. cl_compare cl (jsNullishOr (streamContent s) (Obj [])) (jsNullishOr content (Obj [])) = Inr patch \<and>
    raw = Obj ([(''data'', patch), (''prev'', CidV (tipFromState s)), (''id'', CidV (genesisCid s))] @
      (case indexHeader md of None \<Rightarrow> [] | Some h \<Rightarrow> [(''header'', h)]))"
proof -
  from assms obtain k patch where k: "makeCommitID (cl_lib cl) (streamIdFromState s) (CommitCid (tipFromState s)) = Inr k"
    and p: "cl_compare cl (jsNullishOr (streamContent s) (Obj [])) (jsNullishOr content (Obj [])) = Inr patch"
    and raw: "raw = Obj ([(''data'', patch), (''prev'', CidV (commitIDCommit k)), (''id'', CidV (sid_cid (commitIDBase k)))] @
      (case indexHeader md of None \<Rightarrow> [] | Some h \<Rightarrow> [(''header'', h)]))"
    unfolding replaceCommit_def midRawCommit_def bindR_Inr_iff by blast
  from makeCommitID_parts [OF k] p raw show ?thesis by (simp add: streamIdFromState_def genesisCid_def)
qed

text \<open>The index flag of a commit is the one the client gave.\<close>

definition givenIndex :: "mid_args option \<Rightarrow> js" where
  "givenIndex md = (case md of None \<Rightarrow> Undef | Some a \<Rightarrow> if jsNullish (ma_shouldIndex a) then Undef else ma_shouldIndex a)"

lemma indexHeader_checked:
  "(case indexHeader md of None \<Rightarrow> Undef | Some h \<Rightarrow> h) = h \<Longrightarrow>
   (if jsTruthy h then bindR (throwIf (filter (\<lambda>k. k \<noteq> ''shouldIndex'') (jsKeys h) \<noteq> []) e) (\<lambda>_. jsGet h ''shouldIndex'')
    else Inr Undef) = Inr (givenIndex md)"
  by (auto simp: indexHeader_def givenIndex_def jsKeys_def split: option.splits if_splits)

text \<open>What the handler needs to accept the commit: a log, the signature of the controller for the model.\<close>

definition instancePasses :: "env \<Rightarrow> commit_data \<Rightarrow> stream_state \<Rightarrow> bool" where
  "instancePasses env cd s \<longleftrightarrow> st_log s \<noteq> [] \<and> st_next s = None \<and> \<not> isAnchorCommitData cd \<and>
     (\<exists>cs c m. jsGet (st_metadata s) ''controllers'' = Inr cs \<and> jsIndex cs 0 = Inr c \<and>
        jsGet (st_metadata s) ''model'' = Inr (SidV m) \<and>
        verifyCommitSignature env cd c (Some m) (streamIdFromState s) = Inr ())"

definition withIndex :: "js \<Rightarrow> js \<Rightarrow> js" where
  "withIndex metadata flag = (if jsNullish flag then metadata else jsSetProp metadata ''shouldIndex'' flag)"

lemma replaced_checked:
  assumes "replaceCommit cl env s content md = Inr (cd_commit cd)" and "instancePasses env cd s"
  shows "instanceCheckSigned env cd s = Inr (givenIndex md)"
proof -
  from replaceCommit_Inr [OF assms(1)] obtain patch where
    c: "cd_commit cd = Obj ([(''data'', patch), (''prev'', CidV (tipFromState s)), (''id'', CidV (genesisCid s))] @
      (case indexHeader md of None \<Rightarrow> [] | Some h \<Rightarrow> [(''header'', h)]))" by blast
  from assms(2) obtain cs ctl m where ok: "st_log s \<noteq> []" "jsGet (st_metadata s) ''controllers'' = Inr cs" "jsIndex cs 0 = Inr ctl"
    "jsGet (st_metadata s) ''model'' = Inr (SidV m)" "verifyCommitSignature env cd ctl (Some m) (streamIdFromState s) = Inr ()"
    unfolding instancePasses_def by blast
  have link: "assertCommitLinksToState s (cd_commit cd) = Inr ()"
    using ok(1) by (simp add: assertCommitLinksToState_def c genesisCid_def tipFromState_def throwIf_def)
  have h: "jsGet (cd_commit cd) ''header'' = Inr (case indexHeader md of None \<Rightarrow> Undef | Some h \<Rightarrow> h)"
    by (simp add: c split: option.split)
  show ?thesis
    unfolding instanceCheckSigned_def Let_def link ok(2) h bindR_simps ok(3,4) modelOfMetadata.simps ok(5)
    by (rule indexHeader_checked [OF refl])
qed

section \<open>Properties\<close>

text \<open>
  C39: The commit that \<open>ModelInstanceDocument.replace\<close> builds is applied by the handler to exactly the content the client
  asked for, where no content means the empty object, and changes nothing in the metadata but the index flag, when
  one is given. The handler must accept the new content.
\<close>

theorem instance_replace_applied:
  assumes "replaceCommit cl env s content md = Inr (cd_commit cd)" and "instancePasses env cd s"
    and "\<And>a b p. cl_compare cl a b = Inr p \<Longrightarrow> snd (e_jsonPatch env a p) = Inr b"
    and "instanceValidateUpdate env s (withIndex (st_metadata s) (givenIndex md)) (jsGetOpt (cd_commit cd) ''data'')
      (jsNullishOr content (Obj [])) = Inr ()"
  shows "\<exists>s'. instanceApplyCommit env cd (Some s) = Inr s' \<and> st_content s' = jsNullishOr content (Obj []) \<and>
    st_metadata s' = withIndex (st_metadata s) (givenIndex md) \<and> logCids s' = logCids s @ [le_cid cd]"
proof -
  let ?new = "jsNullishOr content (Obj [])"
  from replaceCommit_Inr [OF assms(1)] obtain patch where
    p: "cl_compare cl (jsNullishOr (streamContent s) (Obj [])) ?new = Inr patch"
    and c: "cd_commit cd = Obj ([(''data'', patch), (''prev'', CidV (tipFromState s)), (''id'', CidV (genesisCid s))] @
      (case indexHeader md of None \<Rightarrow> [] | Some h \<Rightarrow> [(''header'', h)]))" by blast
  have old: "streamContent s = st_content s" using assms(2) by (simp add: streamContent_def instancePasses_def)
  obtain doc where doc: "e_jsonPatch env (jsNullishOr (st_content s) (Obj [])) patch = (doc, Inr ?new)"
    using assms(3) [OF p] old by (cases "e_jsonPatch env (jsNullishOr (st_content s) (Obj [])) patch") auto
  have d: "jsGet (cd_commit cd) ''data'' = Inr patch" "jsGetOpt (cd_commit cd) ''data'' = patch"
    by (simp_all add: c jsGetOpt_def)
  have md: "st_metadata (instanceTouched s (givenIndex md) doc) = withIndex (st_metadata s) (givenIndex md)"
    by (simp add: instanceTouched_def withIndex_def)
  let ?s' = "(instanceTouched s (givenIndex md) doc)\<lparr>st_signature := SIGNED, st_anchorStatus := NOT_REQUESTED,
     st_content := ?new, st_log := st_log s @ [commitDataToLogEntry (e_dateParse env) cd DATA]\<rparr>"
  have "instanceApplySigned env cd s = Inr ?s'"
    using assms(4) by (simp add: instanceApplySigned_def replaced_checked [OF assms(1,2)] d doc md)
  then have "instanceApplyCommit env cd (Some s) = Inr ?s'"
    using assms(2) by (simp add: instanceApplyCommit_def instancePasses_def)
  moreover have "st_metadata ?s' = withIndex (st_metadata s) (givenIndex md)" by (simp add: md)
  ultimately show ?thesis by (auto simp: logCids_def)
qed

definition sampleInstance :: stream_state where
  "sampleInstance = \<lparr>st_type = MID_TYPE, st_content = Obj [(''a'', Num 1)], st_next = None,
     st_metadata = Obj [(''controllers'', Arr [Str ''did:a'']), (''model'', SidV (StreamID MODEL_TYPE (CID [9])))],
     st_signature = SIGNED, st_anchorStatus = NOT_REQUESTED, st_anchorProof = Undef,
     st_log = [sampleEntry (CID [1]) INIT NUndef]\<rparr>"

definition listModel :: loaded_stream where
  "listModel = sampleMidModel\<lparr>ls_content := Obj [(''accountRelation'', Obj [(''type'', Str ''list'')]), (''schema'', Obj [])]\<rparr>"

definition listEnv :: env where
  "listEnv = sampleEnv\<lparr>e_loadStream := (\<lambda>_. Inr listModel)\<rparr>"

theorem instance_replace_applied_witness:
  "\<exists>cd s'. replaceCommit sampleClient listEnv sampleInstance (Obj [(''a'', Num 2)]) None = Inr (cd_commit cd) \<and>
     instanceApplyCommit listEnv cd (Some sampleInstance) = Inr s' \<and> st_content s' = Obj [(''a'', Num 2)]"
proof -
  let ?new = "Obj [(''a'', Num 2)]"
  let ?cd = "sampleCommitData (CID [2]) (Obj [(''data'', ?new), (''prev'', CidV (CID [1])), (''id'', CidV (CID [1]))])
     (Obj [(''by'', Str ''did:a'')]) Undef"
  have raw: "replaceCommit sampleClient listEnv sampleInstance ?new None = Inr (cd_commit ?cd)"
    by (simp add: replaceCommit_def midRawCommit_def validateContentLength_def listEnv_def sampleEnv_def sampleClient_def
        sampleInstance_def makeCommitID_def newCommitID_def parseCommit_def streamIdFromState_def tipFromState_def
        sampleEntry_def streamContent_def jsNullishOr_def indexHeader_def commitIDCommit_def commitIDBase_def)
  have ok: "instancePasses listEnv ?cd sampleInstance"
    by (simp add: instancePasses_def sampleInstance_def isAnchorCommitData_def listEnv_def sampleEnv_def
        verifyCommitSignature_def verifyCapabilityAuthz_def jsGetOpt_def)
  have val: "instanceValidateUpdate listEnv sampleInstance (withIndex (st_metadata sampleInstance) (givenIndex None))
      (jsGetOpt (cd_commit ?cd) ''data'') (jsNullishOr ?new (Obj [])) = Inr ()"
    by (simp add: instanceValidateUpdate_def instanceValidateContent_def instanceValidateSchema_def validateContentLength_def
        validateUnique_def relationTypeOf_def validateRelationsContent_def validateLockedFieldsUpdate_def sampleInstance_def
        withIndex_def givenIndex_def listEnv_def sampleEnv_def listModel_def jsNullishOr_def Let_def)
  have "\<exists>s'. instanceApplyCommit listEnv ?cd (Some sampleInstance) = Inr s' \<and> st_content s' = jsNullishOr ?new (Obj []) \<and>
    st_metadata s' = withIndex (st_metadata sampleInstance) (givenIndex None) \<and> logCids s' = logCids sampleInstance @ [le_cid ?cd]"
  proof (rule instance_replace_applied [OF raw ok _ val])
    show "snd (e_jsonPatch listEnv a p) = Inr b" if "cl_compare sampleClient a b = Inr p" for a b p
      using that by (cases b) (auto simp: sampleClient_def listEnv_def sampleEnv_def)
  qed
  then show ?thesis using raw by (intro exI [of _ ?cd]) (auto simp: jsNullishOr_def)
qed

text \<open>
  The handler compares the unique fields of a document with the values its genesis commit was built from. For a
  document of a \<open>set\<close> relation made by \<open>ModelInstanceDocument.set\<close>, content is accepted when the texts of its unique
  fields are exactly the values given at the creation; this holds as long as no value has the character that joins them.
\<close>

definition uniqueTexts :: "env \<Rightarrow> js \<Rightarrow> js list \<Rightarrow> js_error + string list" where
  "uniqueTexts env content names = mapR (\<lambda>field. bindR (jsGet content (jsString (e_fmt env) field)) (\<lambda>value.
     Inr (if jsTruthy value then jsString (e_fmt env) value else []))) names"

lemma midRawGenesis_unique:
  assumes "midRawGenesis cl env content md (Some us) = Inr raw" and "jsTruthy (ma_deterministic md)"
  shows "\<exists>header. jsGet raw ''header'' = Inr header \<and> jsGet header ''unique'' = Inr (Bytes (cl_utf8 cl (jsJoin ''|'' us)))"
  using assms by (auto simp: midRawGenesis_def bindR_Inr_iff Let_def split: option.splits)

lemma instanceApplyGenesis_unique:
  assumes "instanceApplyGenesis env cd = Inr s" and "jsGet (cd_commit cd) ''header'' = Inr header"
  shows "jsGet (st_metadata s) ''unique'' = jsGet header ''unique''"
  using assms by (auto simp: instanceApplyGenesis_def Let_def bindR_Inr_iff)

lemma jsJoin_eq_iff:
  "us \<noteq> [] \<Longrightarrow> vs \<noteq> [] \<Longrightarrow> \<forall>w \<in> set us \<union> set vs. c \<notin> set w \<Longrightarrow> jsJoin [c] us = jsJoin [c] vs \<longleftrightarrow> us = vs"
  using jsSplit_jsJoin [of us c] jsSplit_jsJoin [of vs c] by (metis UnCI)

theorem set_content_matches:
  assumes "midRawGenesis cl env Null md (Some us) = Inr (cd_commit cd)" and "jsTruthy (ma_deterministic md)"
    and "instanceApplyGenesis env cd = Inr s" and "\<And>x. e_bytesToString env (Bytes (cl_utf8 cl x)) = Inr x"
    and "relationTypeOf model = Inr (Str ''set'')" and "jsGet (ls_content model) ''accountRelation'' = Inr r"
    and "jsGet r ''fields'' = Inr (Arr names)" and "uniqueTexts env content names = Inr texts" and "\<not> jsNullish content"
    and "us \<noteq> []" and "names \<noteq> []" and "\<forall>w \<in> set us \<union> set texts. CHR ''|'' \<notin> set w"
  shows "validateUnique env model (st_metadata s) content = Inr () \<longleftrightarrow> texts = us"
proof -
  from midRawGenesis_unique [OF assms(1,2)] instanceApplyGenesis_unique [OF assms(3)]
  have u: "jsGet (st_metadata s) ''unique'' = Inr (Bytes (cl_utf8 cl (jsJoin ''|'' us)))" by auto
  have texts: "uniqueOf env content names = Inr (jsJoin ''|'' texts)" "texts \<noteq> []"
    using assms(8,11) mapR_length [of _ names texts] by (auto simp: uniqueOf_def uniqueTexts_def)
  have "validateUnique env model (st_metadata s) content = Inr () \<longleftrightarrow> jsJoin ''|'' texts = jsJoin ''|'' us"
    using assms(4-7,9) u texts by (simp add: validateUnique_def throwIf_def)
  also have "\<dots> \<longleftrightarrow> texts = us" by (rule jsJoin_eq_iff) (use assms(10,12) texts in auto)
  finally show ?thesis .
qed

definition charBytes :: "string \<Rightarrow> byte list" where
  "charBytes s = map (\<lambda>c. word_of_nat (of_char c)) s"

lemma charBytes_inverse: "map (\<lambda>b. char_of (unat b)) (charBytes s) = s"
proof -
  have "unat (word_of_nat (of_char c) :: byte) = of_char c" for c :: char
    by (simp add: unat_of_nat)
  then show ?thesis by (induction s) (simp_all add: charBytes_def)
qed

definition sampleSetArgs :: mid_args where
  "sampleSetArgs = noMidArgs\<lparr>ma_controller := Str ''did:a'', ma_model := Some (StreamID MODEL_TYPE (sampleCid [9])), ma_deterministic := Bool True\<rparr>"

definition sampleSetGenesis :: commit_data where
  "sampleSetGenesis = sampleCommitData (CID [1]) (Obj [(''data'', Null), (''header'', Obj [(''controllers'', Arr [Str ''did:a'']),
     (''model'', Bytes (streamIDBytes sampleLib (StreamID MODEL_TYPE (sampleCid [9])))), (''sep'', Str ''model''),
     (''unique'', Bytes (charBytes ''x''))])]) Undef Undef"

theorem set_content_matches_witness:
  "\<exists>s. instanceApplyGenesis midEnv sampleSetGenesis = Inr s \<and>
     validateUnique midEnv sampleMidModel (st_metadata s) (Obj [(''u'', Str ''x''), (''k'', Num 2)]) = Inr () \<and>
     validateUnique midEnv sampleMidModel (st_metadata s) (Obj [(''u'', Str ''y''), (''k'', Num 2)]) \<noteq> Inr ()"
proof -
  let ?cl = "sampleClient\<lparr>cl_utf8 := charBytes\<rparr>"
  have raw: "midRawGenesis ?cl midEnv Null sampleSetArgs (Some [''x'']) = Inr (cd_commit sampleSetGenesis)"
    by (simp add: midRawGenesis_def sampleSetArgs_def noMidArgs_def validateContentLength_def contextField_def sampleClient_def
        sampleSetGenesis_def Let_def)
  have det: "jsTruthy (ma_deterministic sampleSetArgs)" by (simp add: sampleSetArgs_def)
  have "map_sum (\<lambda>_. ()) (\<lambda>_. ()) (instanceApplyGenesis midEnv sampleSetGenesis) = Inr ()" by code_simp
  then obtain s where s: "instanceApplyGenesis midEnv sampleSetGenesis = Inr s"
    by (cases "instanceApplyGenesis midEnv sampleSetGenesis") auto
  have u: "e_bytesToString midEnv (Bytes (cl_utf8 ?cl x)) = Inr x" for x by (simp add: charBytes_inverse)
  have rel: "relationTypeOf sampleMidModel = Inr (Str ''set'')"
    "jsGet (ls_content sampleMidModel) ''accountRelation'' = Inr (Obj [(''type'', Str ''set''), (''fields'', Arr [Str ''u''])])"
    by (simp_all add: relationTypeOf_def sampleMidModel_def)
  have texts: "uniqueTexts midEnv (Obj [(''u'', Str v), (''k'', Num 2)]) [Str ''u''] = Inr [v]" for v
    by (cases v) (simp_all add: uniqueTexts_def)
  have "validateUnique midEnv sampleMidModel (st_metadata s) (Obj [(''u'', Str v), (''k'', Num 2)]) = Inr () \<longleftrightarrow> [v] = [''x'']"
    if "CHR ''|'' \<notin> set v" for v
    by (rule set_content_matches [OF raw det s u rel _ texts]) (use that in simp_all)
  from this [of "''x''"] this [of "''y''"] s show ?thesis by simp
qed

text \<open>
  Without that condition different values give the same document: the commit of a \<open>set\<close> document depends on the
  joined text only, so that two lists of values that join alike name one stream.
\<close>

theorem set_values_collide:
  "jsJoin ''|'' us = jsJoin ''|'' vs \<Longrightarrow> midSet cl env api md us opts = midSet cl env api md vs opts"
proof -
  assume "jsJoin ''|'' us = jsJoin ''|'' vs"
  then have "midRawGenesis cl env content args (Some us) = midRawGenesis cl env content args (Some vs)" for content args
    by (cases "ma_model args") (simp_all add: midRawGenesis_def)
  then show ?thesis by (simp only: midSet_def midMakeGenesis_def)
qed

theorem set_values_collide_witness:
  "midSet cl env api md [''a|b'', ''c''] opts = midSet cl env api md [''a'', ''b|c''] opts"
  by (rule set_values_collide) simp

end
