(* ===== verification/AnchorListener.thy ===== *)
theory AnchorListener
  imports AnchorValidator FeedAggregation MerkleTree
begin

text \<open>
  Reading anchors from a blockchain (\<open>packages/anchor-listener/src\<close>): the loader of the proofs in a
  range of blocks and the listener of new blocks. Observables are modelled by the list of the values they
  emit, with the error that ends them, if any. What the provider answers may differ from one attempt to
  the next: its answers are functions of the number of the attempt.
\<close>

section \<open>The provider\<close>

record chain_block =
  cb_number :: int
  cb_hash :: string
  cb_parentHash :: string

record chain_log =
  lg_blockNumber :: int
  lg_blockHash :: string
  lg_transactionHash :: string
  lg_data :: string

datatype block_tag = ByNumber int | ByHash string | Latest

record chain_provider =
  cp_block :: "nat \<Rightarrow> block_tag \<Rightarrow> js_error + chain_block"
  cp_logs :: "nat \<Rightarrow> string \<Rightarrow> int \<Rightarrow> int \<Rightarrow> js_error + chain_log list"

text \<open>\<open>retry({ count })\<close>: the attempts are numbered from \<open>i\<close>.\<close>

fun retrying :: "nat \<Rightarrow> (nat \<Rightarrow> js_error + 'a) \<Rightarrow> nat \<Rightarrow> js_error + 'a" where
  "retrying 0 f i = f i"
| "retrying (Suc k) f i = (case f i of Inr x \<Rightarrow> Inr x | Inl e \<Rightarrow> retrying k f (Suc i))"

text \<open>The values an observable emits and the error that ends it.\<close>

type_synonym 'a stream = "'a list \<times> js_error option"

fun concatMapS :: "('a \<Rightarrow> js_error + 'b) \<Rightarrow> 'a list \<Rightarrow> 'b stream" where
  "concatMapS f [] = ([], None)"
| "concatMapS f (x # xs) = (case f x of Inl e \<Rightarrow> ([], Some e) | Inr y \<Rightarrow> (let (ys, e) = concatMapS f xs in (y # ys, e)))"

section \<open>Anchor proofs of a range of blocks\<close>

record block_proofs =
  bp_blockNumber :: int
  bp_blockHash :: string
  bp_proofs :: "anchor_proof list"

definition CONTRACT_TX_TYPE :: string where
  "CONTRACT_TX_TYPE = ''f(bytes32)''"

definition LOGS_CONTRACT :: string where
  "LOGS_CONTRACT = ''0x231055a0852d67c7107ad0d0dfeab60278fe6adc''"

definition GET_LOGS_BATCH_SIZE :: nat where
  "GET_LOGS_BATCH_SIZE = 1000"

text \<open>\<open>decode\<close> reads the root from the data of a log, as the library that knows the contract does.\<close>

record listener_env =
  ln_provider :: chain_provider
  ln_chainId :: string
  ln_eth :: eth_env
  ln_decode :: "string \<Rightarrow> js_error + string"
  ln_retries :: nat

definition getCidFromAnchorEventLog :: "listener_env \<Rightarrow> chain_log \<Rightarrow> js_error + cid" where
  "getCidFromAnchorEventLog le lg = bindR (ln_decode le (lg_data lg)) (createCidFromHexValue (ln_eth le))"

definition createAnchorProof :: "listener_env \<Rightarrow> chain_log \<Rightarrow> js_error + anchor_proof" where
  "createAnchorProof le lg =
     bindR (convertEthHashToCid (ln_eth le) (lg_transactionHash lg)) (\<lambda>txHash.
     bindR (getCidFromAnchorEventLog le lg) (\<lambda>root.
     Inr \<lparr>pf_root = root, pf_txHash = txHash, pf_txType = Some CONTRACT_TX_TYPE, pf_chainId = ln_chainId le\<rparr>))"

definition createBlockLoader :: "listener_env \<Rightarrow> block_tag \<Rightarrow> js_error + chain_block" where
  "createBlockLoader le tag = retrying (ln_retries le) (\<lambda>i. cp_block (ln_provider le) i tag) 0"

text \<open>The keys of an object, as texts, and the order \<open>sort\<close> without a comparison gives them.\<close>

definition numberText :: "int \<Rightarrow> string" where
  "numberText n = (if n < 0 then CHR ''-'' # natStr (nat (- n)) else natStr (nat n))"

definition compareTexts :: "int \<Rightarrow> int \<Rightarrow> int" where
  "compareTexts a b = (if strLess (numberText a) (numberText b) then -1 else if a = b then 0 else 1)"

fun groupLogsByBlockNumber :: "chain_log list \<Rightarrow> (int \<times> chain_log list) list \<Rightarrow> (int \<times> chain_log list) list" where
  "groupLogsByBlockNumber [] acc = acc"
| "groupLogsByBlockNumber (l # ls) acc =
     groupLogsByBlockNumber ls (case map_of acc (lg_blockNumber l) of
       None \<Rightarrow> acc @ [(lg_blockNumber l, [l])]
     | Some old \<Rightarrow> map (\<lambda>(n, xs). (n, if n = lg_blockNumber l then old @ [l] else xs)) acc)"

definition ensureKey :: "(int \<times> chain_log list) list \<Rightarrow> int \<Rightarrow> (int \<times> chain_log list) list" where
  "ensureKey m n = (if map_of m n = None then m @ [(n, [])] else m)"

definition proofsOfBlock :: "listener_env \<Rightarrow> chain_block \<Rightarrow> chain_block \<Rightarrow> (int \<times> chain_log list) list \<Rightarrow> int \<Rightarrow> js_error + block_proofs" where
  "proofsOfBlock le fromBlock toBlock groups n =
     (let logs = (case map_of groups n of None \<Rightarrow> [] | Some ls \<Rightarrow> ls);
          blockHash = (if n = cb_number fromBlock then cb_hash fromBlock
            else if n = cb_number toBlock then cb_hash toBlock
            else (case logs of [] \<Rightarrow> [] | l # _ \<Rightarrow> lg_blockHash l)) in
      bindR (mapR (createAnchorProof le) logs) (\<lambda>proofs.
      Inr \<lparr>bp_blockNumber = n, bp_blockHash = blockHash, bp_proofs = proofs\<rparr>))"

definition loadRangeOnce :: "listener_env \<Rightarrow> int \<Rightarrow> int \<Rightarrow> nat \<Rightarrow> js_error + (chain_log list \<times> chain_block \<times> chain_block)" where
  "loadRangeOnce le from' to i =
     bindR (cp_logs (ln_provider le) i LOGS_CONTRACT from' to) (\<lambda>logs.
     bindR (cp_block (ln_provider le) i (ByNumber from')) (\<lambda>f.
     bindR (if from' = to then Inr f else cp_block (ln_provider le) i (ByNumber to)) (\<lambda>t. Inr (logs, f, t))))"

definition loadBlockProofsForRange :: "listener_env \<Rightarrow> int \<Rightarrow> int \<Rightarrow> js_error + block_proofs list" where
  "loadBlockProofsForRange le from' to =
     bindR (retrying (ln_retries le) (loadRangeOnce le from' to) 0) (\<lambda>(logs, f, t).
     let groups = ensureKey (ensureKey (groupLogsByBlockNumber logs []) (cb_number f)) (cb_number t) in
     mapR (proofsOfBlock le f t groups) (sortBy compareTexts (map fst groups)))"

definition loadBlockProofs :: "listener_env \<Rightarrow> chain_block \<Rightarrow> js_error + block_proofs" where
  "loadBlockProofs le b =
     bindR (loadBlockProofsForRange le (cb_number b) (cb_number b)) (\<lambda>result. case result of
       [p] \<Rightarrow> Inr p
     | _ \<Rightarrow> Inl (Err ''Did not receive exactly one set of proofs for block''))"

text \<open>\<open>range(from, to - from + 1)\<close> in buffers of \<open>buf\<close> numbers, each given by its first and last.\<close>

fun rangeBatches :: "nat \<Rightarrow> int \<Rightarrow> nat \<Rightarrow> (int \<times> int) list" where
  "rangeBatches buf from' 0 = []"
| "rangeBatches buf from' (Suc n) =
     (let k = min (max buf 1) (Suc n) in (from', from' + int k - 1) # rangeBatches buf (from' + int k) (Suc n - k))"

definition createBlocksProofsLoader :: "listener_env \<Rightarrow> nat option \<Rightarrow> int \<Rightarrow> int \<Rightarrow> block_proofs stream" where
  "createBlocksProofsLoader le blockLoadBuffer from' to =
     (let buf = (case blockLoadBuffer of Some b \<Rightarrow> b | None \<Rightarrow> GET_LOGS_BATCH_SIZE);
          (ranges, e) = concatMapS (\<lambda>(a, b). loadBlockProofsForRange le a b) (rangeBatches buf from' (nat (to - from' + 1)))
      in (concat ranges, e))"

text \<open>Walking from a block to the ancestors may never reach the target; then the result is \<open>None\<close>.\<close>

partial_function (option) ancestors :: "listener_env \<Rightarrow> string \<Rightarrow> chain_block \<Rightarrow> chain_block list \<Rightarrow> chain_block stream option" where
  "ancestors le targetAncestorHash b acc =
     (if cb_parentHash b = targetAncestorHash then Some (acc @ [b], None)
      else case createBlockLoader le (ByHash (cb_parentHash b)) of
        Inl e \<Rightarrow> Some (acc @ [b], Some e)
      | Inr p \<Rightarrow> ancestors le targetAncestorHash p (acc @ [b]))"

declare ancestors.simps [code]

definition createAncestorBlocksProofsLoader :: "listener_env \<Rightarrow> block_tag \<Rightarrow> string \<Rightarrow> block_proofs stream option" where
  "createAncestorBlocksProofsLoader le initialBlock targetAncestorHash =
     (case createBlockLoader le initialBlock of
        Inl e \<Rightarrow> Some ([], Some e)
      | Inr b \<Rightarrow> map_option (\<lambda>(blocks, e). let (ps, e') = concatMapS (loadBlockProofs le) blocks in
          (ps, case e' of Some x \<Rightarrow> Some x | None \<Rightarrow> e)) (ancestors le targetAncestorHash b []))"

section \<open>New blocks\<close>

record load_state =
  ls_load :: "int list"
  ls_highest :: "int option"

definition continuousStep :: "load_state \<Rightarrow> int \<Rightarrow> load_state" where
  "continuousStep state blockNumber = (case ls_highest state of
     None \<Rightarrow> \<lparr>ls_load = [blockNumber], ls_highest = Some blockNumber\<rparr>
   | Some lastLoaded \<Rightarrow>
       if blockNumber \<le> lastLoaded then state\<lparr>ls_load := []\<rparr>
       else \<lparr>ls_load = [lastLoaded + 1..blockNumber], ls_highest = Some blockNumber\<rparr>)"

fun scanList :: "('s \<Rightarrow> 'a \<Rightarrow> 's) \<Rightarrow> 's \<Rightarrow> 'a list \<Rightarrow> 's list" where
  "scanList f s [] = []"
| "scanList f s (x # xs) = (let s' = f s x in s' # scanList f s' xs)"

definition createContinuousBlocksListener :: "int \<Rightarrow> int list \<Rightarrow> int list list" where
  "createContinuousBlocksListener confirmations blockNumbers =
     filter (\<lambda>blocks. blocks \<noteq> [])
       (map ls_load (scanList continuousStep \<lparr>ls_load = [], ls_highest = None\<rparr> (map (\<lambda>n. n - confirmations) blockNumbers)))"

record block_data =
  bd_block :: chain_block
  bd_proofs :: block_proofs

record listener_event = block_data +
  ev_expectedParentHash :: "string option"

text \<open>An event without expected hash is one of the status \<open>process\<close>, with it one of \<open>reorganized\<close>.\<close>

definition reorganized :: "listener_event \<Rightarrow> bool" where
  "reorganized e \<longleftrightarrow> ev_expectedParentHash e \<noteq> None"

record processing_state =
  ps_data :: block_data
  ps_process :: bool
  ps_previousHash :: string

definition processStep :: "string option \<Rightarrow> processing_state option \<Rightarrow> block_data \<Rightarrow> processing_state option" where
  "processStep expectedParentHash state data = Some (case state of
     None \<Rightarrow>
       (case expectedParentHash of
          None \<Rightarrow> \<lparr>ps_data = data, ps_process = True, ps_previousHash = cb_hash (bd_block data)\<rparr>
        | Some h \<Rightarrow> if cb_parentHash (bd_block data) = h
            then \<lparr>ps_data = data, ps_process = True, ps_previousHash = cb_hash (bd_block data)\<rparr>
            else \<lparr>ps_data = data, ps_process = False, ps_previousHash = h\<rparr>)
   | Some s \<Rightarrow>
       if cb_parentHash (bd_block data) = cb_hash (bd_block (ps_data s))
       then \<lparr>ps_data = data, ps_process = True, ps_previousHash = cb_hash (bd_block data)\<rparr>
       else \<lparr>ps_data = data, ps_process = False, ps_previousHash = ps_previousHash s\<rparr>)"

definition eventOf :: "processing_state \<Rightarrow> listener_event" where
  "eventOf s = \<lparr>bd_block = bd_block (ps_data s), bd_proofs = bd_proofs (ps_data s),
     ev_expectedParentHash = (if ps_process s then None else Some (ps_previousHash s))\<rparr>"

definition mapProcessBlockProofs :: "string option \<Rightarrow> block_data list \<Rightarrow> listener_event list" where
  "mapProcessBlockProofs expectedParentHash datas =
     map (\<lambda>s. eventOf (the s)) (scanList (processStep expectedParentHash) None datas)"

definition loadBlockFor :: "listener_env \<Rightarrow> block_proofs \<Rightarrow> js_error + block_data" where
  "loadBlockFor le proofs =
     bindR (createBlockLoader le (ByHash (bp_blockHash proofs))) (\<lambda>b. Inr \<lparr>bd_block = b, bd_proofs = proofs\<rparr>)"

definition orError :: "js_error option \<Rightarrow> js_error option \<Rightarrow> js_error option" where
  "orError a b = (case a of Some e \<Rightarrow> Some e | None \<Rightarrow> b)"

definition createBlockProofsListener :: "listener_env \<Rightarrow> int \<Rightarrow> string option \<Rightarrow> int list \<Rightarrow> listener_event stream" where
  "createBlockProofsListener le confirmations expectedParentHash blockNumbers =
     (let (ranges, e) = concatMapS (\<lambda>ns. loadBlockProofsForRange le (hd ns) (last ns)) (createContinuousBlocksListener confirmations blockNumbers);
          (datas, e') = concatMapS (loadBlockFor le) (concat ranges)
      in (mapProcessBlockProofs expectedParentHash datas, orError e' e))"

section \<open>Lemmas\<close>

lemma retrying_Inr: "retrying k f i = Inr x \<Longrightarrow> \<exists>j. i \<le> j \<and> j \<le> i + k \<and> f j = Inr x"
proof (induction k f i rule: retrying.induct)
  case (2 k f i)
  show ?case
  proof (cases "f i")
    case (Inl e)
    with 2(1) [OF Inl] 2(2) obtain j where "Suc i \<le> j" "j \<le> Suc i + k" "f j = Inr x" by auto
    then show ?thesis by (intro exI [of _ j]) auto
  qed (use 2(2) in auto)
qed auto

lemma concatMapS_done: "concatMapS f xs = (ys, None) \<longleftrightarrow> mapR f xs = Inr ys"
proof (induction xs arbitrary: ys)
  case (Cons x xs)
  obtain zs e where z: "concatMapS f xs = (zs, e)" by (cases "concatMapS f xs")
  from Cons.IH have IH: "mapR f xs = Inr us \<longleftrightarrow> zs = us \<and> e = None" for us by (simp add: z)
  show ?case by (cases "f x") (auto simp: z bindR_Inr_iff IH)
qed simp

lemma map_of_group:
  "map_of (groupLogsByBlockNumber ls acc) n =
     (let xs = filter (\<lambda>l. lg_blockNumber l = n) ls in
      case map_of acc n of Some old \<Rightarrow> Some (old @ xs) | None \<Rightarrow> if xs = [] then None else Some xs)"
proof (induction ls acc rule: groupLogsByBlockNumber.induct)
  case (2 l ls acc)
  have upd: "map_of (map (\<lambda>(k, xs). (k, if k = lg_blockNumber l then old @ [l] else xs)) acc) n =
      (if n = lg_blockNumber l then map_option (\<lambda>_. old @ [l]) (map_of acc n) else map_of acc n)" for old
    by (induction acc) auto
  from 2 show ?case
    by (cases "map_of acc (lg_blockNumber l)") (auto simp: upd Let_def map_add_def split: option.splits)
qed (auto split: option.splits)

lemma group_keys_distinct: "distinct (map fst acc) \<Longrightarrow> distinct (map fst (groupLogsByBlockNumber ls acc))"
proof (induction ls acc rule: groupLogsByBlockNumber.induct)
  case (2 l ls acc)
  have "distinct (map fst (case map_of acc (lg_blockNumber l) of None \<Rightarrow> acc @ [(lg_blockNumber l, [l])]
      | Some old \<Rightarrow> map (\<lambda>(n, xs). (n, if n = lg_blockNumber l then old @ [l] else xs)) acc))"
    using 2(2) by (auto simp: map_of_eq_None_iff comp_def case_prod_unfold split: option.split)
  from 2(1) [OF this] show ?case by simp
qed simp

lemma ensureKey_simps:
  "map_of (ensureKey m n) k = (if k = n \<and> map_of m n = None then Some [] else map_of m k)"
  "distinct (map fst m) \<Longrightarrow> distinct (map fst (ensureKey m n))"
proof -
  show "map_of (ensureKey m n) k = (if k = n \<and> map_of m n = None then Some [] else map_of m k)"
    by (cases "map_of m n") (auto simp: ensureKey_def map_add_def split: option.split)
  show "distinct (map fst (ensureKey m n))" if "distinct (map fst m)"
    using that by (auto simp: ensureKey_def map_of_eq_None_iff)
qed

definition rangeGroups :: "chain_log list \<Rightarrow> chain_block \<Rightarrow> chain_block \<Rightarrow> (int \<times> chain_log list) list" where
  "rangeGroups logs f t = ensureKey (ensureKey (groupLogsByBlockNumber logs []) (cb_number f)) (cb_number t)"

lemma rangeGroups_simps:
  "distinct (map fst (rangeGroups logs f t))"
  "fst ` set (rangeGroups logs f t) = insert (cb_number f) (insert (cb_number t) (lg_blockNumber ` set logs))"
  "(case map_of (rangeGroups logs f t) n of None \<Rightarrow> [] | Some ls \<Rightarrow> ls) = filter (\<lambda>l. lg_blockNumber l = n) logs"
proof -
  show "distinct (map fst (rangeGroups logs f t))"
    by (simp add: rangeGroups_def ensureKey_simps(2) group_keys_distinct)
  have "k \<in> fst ` set (rangeGroups logs f t) \<longleftrightarrow> k = cb_number f \<or> k = cb_number t \<or> k \<in> lg_blockNumber ` set logs" for k
  proof -
    have "k \<in> fst ` set (rangeGroups logs f t) \<longleftrightarrow> map_of (rangeGroups logs f t) k \<noteq> None"
      by (simp add: map_of_eq_None_iff)
    then show ?thesis by (auto simp: rangeGroups_def ensureKey_simps(1) map_of_group filter_empty_conv)
  qed
  then show "fst ` set (rangeGroups logs f t) = insert (cb_number f) (insert (cb_number t) (lg_blockNumber ` set logs))"
    by auto
  show "(case map_of (rangeGroups logs f t) n of None \<Rightarrow> [] | Some ls \<Rightarrow> ls) = filter (\<lambda>l. lg_blockNumber l = n) logs"
    by (auto simp: rangeGroups_def ensureKey_simps(1) map_of_group filter_empty_conv)
qed

lemma loadRange_Inr:
  assumes "loadBlockProofsForRange le from' to = Inr ps"
  obtains i logs f t where "loadRangeOnce le from' to i = Inr (logs, f, t)"
    "mapR (proofsOfBlock le f t (rangeGroups logs f t)) (sortBy compareTexts (map fst (rangeGroups logs f t))) = Inr ps"
proof -
  from assms obtain x where x: "retrying (ln_retries le) (loadRangeOnce le from' to) 0 = Inr x"
    and m: "(case x of (logs, f, t) \<Rightarrow> mapR (proofsOfBlock le f t (rangeGroups logs f t))
      (sortBy compareTexts (map fst (rangeGroups logs f t)))) = Inr ps"
    unfolding loadBlockProofsForRange_def bindR_Inr_iff rangeGroups_def Let_def by blast
  obtain logs f t where "x = (logs, f, t)" by (cases x)
  with m retrying_Inr [OF x] that show thesis by auto
qed

lemma concat_filter_nonempty: "concat (filter (\<lambda>xs. xs \<noteq> []) xss) = concat xss"
  by (induction xss) auto

lemma scan_continuous:
  "concat (map ls_load (scanList continuousStep \<lparr>ls_load = l, ls_highest = Some h\<rparr> ns)) = [h + 1..foldl max h ns]"
proof (induction ns arbitrary: l h)
  case (Cons n ns)
  have le: "h \<le> foldl max h ns" for h and ns :: "int list"
    by (induction ns arbitrary: h) (auto intro: order_trans [OF max.cobounded1])
  show ?case
  proof (cases "n \<le> h")
    case True
    then have "continuousStep \<lparr>ls_load = l, ls_highest = Some h\<rparr> n = \<lparr>ls_load = [], ls_highest = Some h\<rparr>"
      by (simp add: continuousStep_def)
    then show ?thesis using Cons.IH [of "[]" h] True by (simp add: Let_def max_absorb1)
  next
    case False
    then have "continuousStep \<lparr>ls_load = l, ls_highest = Some h\<rparr> n = \<lparr>ls_load = [h + 1..n], ls_highest = Some n\<rparr>"
      by (simp add: continuousStep_def)
    moreover have "[h + 1..n] @ [n + 1..foldl max n ns] = [h + 1..foldl max n ns]"
      using False le [of n ns] upto_split2 [of "h + 1" n "foldl max n ns"] by simp
    ultimately show ?thesis using Cons.IH [of "[h + 1..n]" n] False by (simp add: Let_def max_absorb2)
  qed
qed simp

lemma compareTexts_sorted:
  assumes "\<forall>x \<in> set xs. 0 \<le> x \<and> length (numberText x) = k"
  shows "sortBy compareTexts xs = sort xs"
proof -
  have cmp: "compareTexts a b \<le> 0 \<longleftrightarrow> a \<le> b" if "0 \<le> a" "length (numberText a) = k" "0 \<le> b" "length (numberText b) = k" for a b
    using that natStr_less [of "nat a" "nat b"] by (auto simp: compareTexts_def numberText_def)
  have ins: "insertBy compareTexts x ys = insort x ys"
    if "0 \<le> x" "length (numberText x) = k" "\<forall>y \<in> set ys. 0 \<le> y \<and> length (numberText y) = k" for x ys
    using that by (induction ys) (auto simp: cmp)
  show ?thesis using assms
  proof (induction xs)
    case (Cons x xs)
    then have "sortBy compareTexts (x # xs) = insertBy compareTexts x (sort xs)" by (simp add: sortBy_def)
    then show ?case using Cons.prems ins [of x "sort xs"] by simp
  qed (simp add: sortBy_def)
qed

lemma digitChar_9: "digitChar 9 = CHR ''9''"
  by code_simp

lemma natStr_nines: "natStr (10 ^ Suc k - 1) = replicate (Suc k) (CHR ''9'')"
proof (induction k)
  case 0
  show ?case by (simp add: natStr_small digitChar_9)
next
  case (Suc k)
  obtain y where y: "10 ^ Suc k = Suc y" by (metis not0_implies_Suc power_not_zero zero_neq_numeral)
  then have eq: "10 ^ Suc (Suc k) - 1 = 10 * y + (9::nat)" by simp
  have "y \<noteq> 0"
  proof
    assume "y = 0"
    with y have "(10::nat) ^ Suc k = Suc 0" by (simp only:)
    then show False by (simp only: nat_power_eq_Suc_0_iff) simp
  qed
  then have "\<not> 10 ^ Suc (Suc k) - 1 < (10::nat)" unfolding eq by simp
  moreover have "(10 ^ Suc (Suc k) - 1) div 10 = 10 ^ Suc k - (1::nat)" "(10 ^ Suc (Suc k) - 1) mod 10 = (9::nat)"
    unfolding eq y by simp_all
  ultimately have "natStr (10 ^ Suc (Suc k) - 1) = natStr (10 ^ Suc k - 1) @ [digitChar 9]"
    using natStr_big by metis
  also have "\<dots> = replicate (Suc (Suc k)) (CHR ''9'')"
    by (subst Suc) (simp add: digitChar_9 replicate_append_same)
  finally show ?case .
qed

text \<open>
  A provider that tells the truth: its logs are those of the chain in the range it is asked for, and its blocks are
  those of the chain. It may fail.
\<close>

definition honest :: "listener_env \<Rightarrow> chain_log list \<Rightarrow> (int \<Rightarrow> chain_block) \<Rightarrow> bool" where
  "honest le logs chain \<longleftrightarrow> (\<forall>n. cb_number (chain n) = n) \<and>
     (\<forall>i a b ls. cp_logs (ln_provider le) i LOGS_CONTRACT a b = Inr ls \<longrightarrow>
        ls = filter (\<lambda>l. a \<le> lg_blockNumber l \<and> lg_blockNumber l \<le> b) logs) \<and>
     (\<forall>i n b. cp_block (ln_provider le) i (ByNumber n) = Inr b \<longrightarrow> b = chain n)"

text \<open>The proofs of a block are those of its logs.\<close>

definition exactProofs :: "listener_env \<Rightarrow> chain_log list \<Rightarrow> block_proofs \<Rightarrow> bool" where
  "exactProofs le logs p \<longleftrightarrow>
     mapR (createAnchorProof le) (filter (\<lambda>l. lg_blockNumber l = bp_blockNumber p) logs) = Inr (bp_proofs p)"

lemma honestD:
  assumes "honest le logs chain"
  shows "cb_number (chain n) = n"
    and "loadRangeOnce le a b i = Inr (ls, f, t) \<Longrightarrow>
      ls = filter (\<lambda>l. a \<le> lg_blockNumber l \<and> lg_blockNumber l \<le> b) logs \<and> f = chain a \<and> t = chain b"
proof -
  show "cb_number (chain n) = n" using assms by (simp add: honest_def)
  assume "loadRangeOnce le a b i = Inr (ls, f, t)"
  then have "cp_logs (ln_provider le) i LOGS_CONTRACT a b = Inr ls" "cp_block (ln_provider le) i (ByNumber a) = Inr f"
    "t = f \<and> a = b \<or> cp_block (ln_provider le) i (ByNumber b) = Inr t"
    by (auto simp: loadRangeOnce_def bindR_Inr_iff split: if_splits)
  with assms show "ls = filter (\<lambda>l. a \<le> lg_blockNumber l \<and> lg_blockNumber l \<le> b) logs \<and> f = chain a \<and> t = chain b"
    unfolding honest_def by blast
qed

lemma proofsOfBlock_numbers: "mapR (proofsOfBlock le f t groups) ns = Inr ps \<Longrightarrow> map bp_blockNumber ps = ns"
  by (induction ns arbitrary: ps) (auto simp: bindR_Inr_iff proofsOfBlock_def Let_def)

lemma mapR_all: "mapR f xs = Inr ys \<Longrightarrow> (\<And>x y. f x = Inr y \<Longrightarrow> P y) \<Longrightarrow> \<forall>y \<in> set ys. P y"
  by (induction xs arbitrary: ys) (auto simp: bindR_Inr_iff)

lemma loadRange_exact:
  assumes h: "honest le logs chain" and le: "from' \<le> to" and r: "loadBlockProofsForRange le from' to = Inr ps"
  shows "\<exists>ns. map bp_blockNumber ps = sortBy compareTexts ns \<and> distinct ns \<and>
      set ns = {from', to} \<union> lg_blockNumber ` {l \<in> set logs. from' \<le> lg_blockNumber l \<and> lg_blockNumber l \<le> to}"
    and "\<forall>p \<in> set ps. exactProofs le logs p"
proof -
  obtain i ls f t where once: "loadRangeOnce le from' to i = Inr (ls, f, t)"
    and m: "mapR (proofsOfBlock le f t (rangeGroups ls f t)) (sortBy compareTexts (map fst (rangeGroups ls f t))) = Inr ps"
    by (rule loadRange_Inr [OF r])
  from honestD(2) [OF h once] have ls: "ls = filter (\<lambda>l. from' \<le> lg_blockNumber l \<and> lg_blockNumber l \<le> to) logs"
    and f: "f = chain from'" and t: "t = chain to" by simp_all
  let ?ns = "map fst (rangeGroups ls f t)"
  have ns: "set ?ns = {from', to} \<union> lg_blockNumber ` {l \<in> set logs. from' \<le> lg_blockNumber l \<and> lg_blockNumber l \<le> to}"
    using rangeGroups_simps(2) [of ls f t] honestD(1) [OF h] by (simp add: ls f t)
  then show "\<exists>ns. map bp_blockNumber ps = sortBy compareTexts ns \<and> distinct ns \<and>
      set ns = {from', to} \<union> lg_blockNumber ` {l \<in> set logs. from' \<le> lg_blockNumber l \<and> lg_blockNumber l \<le> to}"
    using proofsOfBlock_numbers [OF m] rangeGroups_simps(1) by blast
  have inRange: "\<forall>p \<in> set ps. from' \<le> bp_blockNumber p \<and> bp_blockNumber p \<le> to"
  proof
    fix p assume "p \<in> set ps"
    then have "bp_blockNumber p \<in> set ?ns" using proofsOfBlock_numbers [OF m] by (metis image_eqI list.set_map sortBy_set)
    with ns le show "from' \<le> bp_blockNumber p \<and> bp_blockNumber p \<le> to" by auto
  qed
  have "\<forall>p \<in> set ps. mapR (createAnchorProof le) (filter (\<lambda>l. lg_blockNumber l = bp_blockNumber p) ls) = Inr (bp_proofs p)"
    by (rule mapR_all [OF m]) (auto simp: proofsOfBlock_def Let_def bindR_Inr_iff rangeGroups_simps(3))
  with inRange show "\<forall>p \<in> set ps. exactProofs le logs p"
    unfolding exactProofs_def ls filter_filter by (metis (mono_tags, lifting) filter_cong)
qed

definition sameDigits :: "int \<Rightarrow> int \<Rightarrow> bool" where
  "sameDigits a b \<longleftrightarrow> 0 \<le> a \<and> (\<exists>k. \<forall>n \<in> {a..b}. length (numberText n) = k)"

lemma sameDigits_sub: "sameDigits a b \<Longrightarrow> a \<le> c \<Longrightarrow> d \<le> b \<Longrightarrow> sameDigits c d"
  unfolding sameDigits_def by (metis atLeastAtMost_iff order_trans)

lemma loadRange_sorted:
  assumes "honest le logs chain" and "from' \<le> to" and "loadBlockProofsForRange le from' to = Inr ps" and "sameDigits from' to"
  shows "sorted_wrt (<) (map bp_blockNumber ps)"
proof -
  from loadRange_exact(1) [OF assms(1-3)] obtain ns where ns: "map bp_blockNumber ps = sortBy compareTexts ns" "distinct ns"
    "set ns = {from', to} \<union> lg_blockNumber ` {l \<in> set logs. from' \<le> lg_blockNumber l \<and> lg_blockNumber l \<le> to}" by blast
  from assms(4) obtain k where k: "0 \<le> from'" "\<forall>n \<in> {from'..to}. length (numberText n) = k" by (auto simp: sameDigits_def)
  have "\<forall>n \<in> set ns. n \<in> {from'..to}" using ns(3) assms(2) by auto
  then have "sortBy compareTexts ns = sort ns"
    using k by (intro compareTexts_sorted [of _ k]) force
  then show ?thesis using ns(1,2) by (simp add: strict_sorted_iff)
qed

lemma rangeBatches_bounds:
  "(a, b) \<in> set (rangeBatches k x n) \<Longrightarrow> x \<le> a \<and> a \<le> b \<and> b \<le> x + int n - 1"
proof (induction k x n rule: rangeBatches.induct)
  case (2 k x n)
  let ?k = "min (max k 1) (Suc n)"
  have k: "0 < ?k" "?k \<le> Suc n" by auto
  from 2(2) have "(a, b) = (x, x + int ?k - 1) \<or> (a, b) \<in> set (rangeBatches k (x + int ?k) (Suc n - ?k))"
    unfolding rangeBatches.simps Let_def list.set insert_iff .
  then show ?case
  proof
    assume "(a, b) \<in> set (rangeBatches k (x + int ?k) (Suc n - ?k))"
    from "2.IH" [OF refl this] k show ?thesis by (simp add: of_nat_diff)
  qed (use k in simp)
qed simp

text \<open>What a sequence of sets of proofs must be to be the proofs of the blocks from \<open>x\<close> on.\<close>

definition exactRange :: "listener_env \<Rightarrow> chain_log list \<Rightarrow> int \<Rightarrow> int \<Rightarrow> block_proofs list \<Rightarrow> bool" where
  "exactRange le logs a b ps \<longleftrightarrow> (\<forall>p \<in> set ps. exactProofs le logs p \<and> a \<le> bp_blockNumber p \<and> bp_blockNumber p \<le> b) \<and>
     (\<forall>l \<in> set logs. a \<le> lg_blockNumber l \<and> lg_blockNumber l \<le> b \<longrightarrow> lg_blockNumber l \<in> bp_blockNumber ` set ps) \<and>
     (sameDigits a b \<longrightarrow> sorted_wrt (<) (map bp_blockNumber ps))"

lemma exactRange_load:
  assumes "honest le logs chain" and "a \<le> b" and "loadBlockProofsForRange le a b = Inr ps"
  shows "exactRange le logs a b ps"
proof -
  from loadRange_exact(1) [OF assms] obtain ns where ns: "map bp_blockNumber ps = sortBy compareTexts ns"
    "set ns = {a, b} \<union> lg_blockNumber ` {l \<in> set logs. a \<le> lg_blockNumber l \<and> lg_blockNumber l \<le> b}" by blast
  have "bp_blockNumber ` set ps = set ns" by (metis list.set_map ns(1) sortBy_set)
  with ns(2) have numbers: "bp_blockNumber ` set ps =
      {a, b} \<union> lg_blockNumber ` {l \<in> set logs. a \<le> lg_blockNumber l \<and> lg_blockNumber l \<le> b}" by simp
  have "a \<le> bp_blockNumber p \<and> bp_blockNumber p \<le> b" if "p \<in> set ps" for p
  proof -
    have "bp_blockNumber p \<in> bp_blockNumber ` set ps" using that by (rule imageI)
    then show ?thesis unfolding numbers using assms(2) by auto
  qed
  then show ?thesis
    using numbers loadRange_exact(2) [OF assms] loadRange_sorted [OF assms] by (simp add: exactRange_def)
qed

lemma exactRange_append:
  assumes "exactRange le logs a m ps" and "exactRange le logs (m + 1) b qs" and "a \<le> m" and "m \<le> b"
  shows "exactRange le logs a b (ps @ qs)"
proof -
  have "sorted_wrt (<) (map bp_blockNumber ps @ map bp_blockNumber qs)" if s: "sameDigits a b"
  proof -
    have "sameDigits a m" "sameDigits (m + 1) b" using assms(3,4) by (auto intro!: sameDigits_sub [OF s])
    then have "sorted_wrt (<) (map bp_blockNumber ps)" "sorted_wrt (<) (map bp_blockNumber qs)"
      using assms(1,2) by (simp_all add: exactRange_def)
    moreover have "bp_blockNumber p < bp_blockNumber q" if "p \<in> set ps" "q \<in> set qs" for p q
      using that assms(1,2) by (fastforce simp: exactRange_def)
    ultimately show ?thesis by (simp add: sorted_wrt_append)
  qed
  moreover have "lg_blockNumber l \<in> bp_blockNumber ` set (ps @ qs)"
    if "l \<in> set logs" "a \<le> lg_blockNumber l" "lg_blockNumber l \<le> b" for l
    using that assms(1,2) unfolding exactRange_def by (cases "lg_blockNumber l \<le> m") (simp_all add: image_Un)
  moreover have "exactProofs le logs p \<and> a \<le> bp_blockNumber p \<and> bp_blockNumber p \<le> b" if "p \<in> set (ps @ qs)" for p
    using that assms unfolding exactRange_def by fastforce
  ultimately show ?thesis unfolding exactRange_def by simp
qed

lemma batches_exact:
  assumes h: "honest le logs chain"
  shows "mapR (\<lambda>(a, b). loadBlockProofsForRange le a b) (rangeBatches k x n) = Inr rss \<Longrightarrow>
    exactRange le logs x (x + int n - 1) (concat rss)"
proof (induction k x n arbitrary: rss rule: rangeBatches.induct)
  case (2 k x n)
  let ?k = "min (max k 1) (Suc n)"
  have k: "0 < ?k" "?k \<le> Suc n" by auto
  let ?rest = "rangeBatches k (x + int ?k) (Suc n - ?k)"
  from 2(2) have "mapR (\<lambda>(a, b). loadBlockProofsForRange le a b) ((x, x + int ?k - 1) # ?rest) = Inr rss"
    unfolding rangeBatches.simps Let_def .
  then obtain r rs where r: "loadBlockProofsForRange le x (x + int ?k - 1) = Inr r" and rss: "rss = r # rs"
    and rs: "mapR (\<lambda>(a, b). loadBlockProofsForRange le a b) ?rest = Inr rs"
    by (auto simp: bindR_Inr_iff simp del: rangeBatches.simps)
  from "2.IH" [OF refl rs] have "exactRange le logs (x + int ?k) (x + int (Suc n) - 1) (concat rs)"
    using k by (simp add: of_nat_diff algebra_simps)
  with exactRange_load [OF h _ r] exactRange_append [of le logs x "x + int ?k - 1" r "x + int (Suc n) - 1" "concat rs"] k
  show ?case by (simp add: rss)
qed (simp add: exactRange_def sameDigits_def)

text \<open>A provider that knows a whole chain and never fails.\<close>

definition faithful :: "listener_env \<Rightarrow> chain_log list \<Rightarrow> (int \<Rightarrow> chain_block) \<Rightarrow> bool" where
  "faithful le logs chain \<longleftrightarrow> (\<forall>n. cb_number (chain n) = n) \<and>
     (\<forall>m n. cb_hash (chain m) = cb_hash (chain n) \<longrightarrow> m = n) \<and>
     (\<forall>n. cb_parentHash (chain (n + 1)) = cb_hash (chain n)) \<and>
     (\<forall>i a b. cp_logs (ln_provider le) i LOGS_CONTRACT a b =
        Inr (filter (\<lambda>l. a \<le> lg_blockNumber l \<and> lg_blockNumber l \<le> b) logs)) \<and>
     (\<forall>i n. cp_block (ln_provider le) i (ByNumber n) = Inr (chain n)) \<and>
     (\<forall>i n. cp_block (ln_provider le) i (ByHash (cb_hash (chain n))) = Inr (chain n))"

section \<open>A sample chain\<close>

text \<open>Hashes that count in unary.\<close>

definition unary :: "int \<Rightarrow> string" where
  "unary n = (if n < 0 then replicate (nat (- n)) (CHR ''b'') else replicate (nat n) (CHR ''a''))"

definition fromUnary :: "string \<Rightarrow> int" where
  "fromUnary s = (case s of [] \<Rightarrow> 0 | c # _ \<Rightarrow> if c = CHR ''b'' then - int (length s) else int (length s))"

definition sampleChain :: "int \<Rightarrow> chain_block" where
  "sampleChain n = \<lparr>cb_number = n, cb_hash = unary n, cb_parentHash = unary (n - 1)\<rparr>"

definition sampleListener :: "chain_log list \<Rightarrow> listener_env" where
  "sampleListener logs = \<lparr>ln_provider = \<lparr>cp_block = (\<lambda>_ tag. case tag of ByNumber n \<Rightarrow> Inr (sampleChain n)
       | ByHash h \<Rightarrow> Inr (sampleChain (fromUnary h)) | Latest \<Rightarrow> Inr (sampleChain 30)),
       cp_logs = (\<lambda>_ _ a b. Inr (filter (\<lambda>l. a \<le> lg_blockNumber l \<and> lg_blockNumber l \<le> b) logs))\<rparr>,
     ln_chainId = ''eip155:5'', ln_eth = sampleEth, ln_decode = Inr, ln_retries = 3\<rparr>"

lemma fromUnary_unary [simp]: "fromUnary (unary n) = n"
  by (cases "nat n"; cases "nat (- n)") (auto simp: fromUnary_def unary_def split: list.split)

lemma sampleListener_faithful: "faithful (sampleListener logs) logs sampleChain"
  unfolding faithful_def by (auto simp: sampleListener_def sampleChain_def) (metis fromUnary_unary)

lemma faithful_honest: "faithful le logs chain \<Longrightarrow> honest le logs chain"
  by (simp add: faithful_def honest_def)

definition sampleLog :: "int \<Rightarrow> chain_log" where
  "sampleLog n = \<lparr>lg_blockNumber = n, lg_blockHash = unary n, lg_transactionHash = ''0x'' @ letters [1], lg_data = ''0x'' @ letters [2]\<rparr>"

section \<open>Properties\<close>

text \<open>
  The listener asks for the anchors of every block exactly once and in order: whatever numbers of new blocks the
  provider announces (repeated, out of order, with gaps), the lists of blocks to load joined together count up
  from the first block to the highest one, less the confirmations.
\<close>

theorem continuous_blocks_exact:
  "concat (createContinuousBlocksListener confirmations (n # ns)) = [n - confirmations..Max (set (n # ns)) - confirmations]"
proof -
  have "foldl max n ns - confirmations = foldl max (n - confirmations) (map (\<lambda>m. m - confirmations) ns)" for n
    by (induction ns arbitrary: n) (simp_all add: max_diff_distrib_left)
  moreover have "foldl max n ns = Max (set (n # ns))"
  proof -
    have "(\<lambda>x s. max s x) = (max :: int \<Rightarrow> int \<Rightarrow> int)" by (simp add: fun_eq_iff max.commute)
    then show ?thesis by (simp add: Max.set_eq_fold foldl_conv_fold del: set_simps list.set)
  qed
  ultimately have m: "foldl max (n - confirmations) (map (\<lambda>m. m - confirmations) ns) = Max (set (n # ns)) - confirmations"
    by metis
  have le: "h \<le> foldl max h xs" for h and xs :: "int list"
    by (induction xs arbitrary: h) (auto intro: order_trans [OF max.cobounded1])
  show ?thesis
    using scan_continuous [of "[n - confirmations]" "n - confirmations" "map (\<lambda>m. m - confirmations) ns"]
      m le [of "n - confirmations" "map (\<lambda>m. m - confirmations) ns"]
    by (simp add: createContinuousBlocksListener_def concat_filter_nonempty Let_def continuousStep_def upto_rec1)
qed

text \<open>
  C37: The loader of a range of blocks gives exactly the anchor proofs of the range, in whatever buffers it asks
  for them: each set has the proofs of all logs of one block of the range, and every log of the range is in the
  set of its block. The blocks are in order as long as their numbers have the same number of digits.
\<close>

theorem range_loader_exact:
  assumes "honest le logs chain" and "createBlocksProofsLoader le buf from' to = (ps, None)" and "from' \<le> to"
  shows "exactRange le logs from' to ps"
proof -
  obtain rss where "mapR (\<lambda>(a, b). loadBlockProofsForRange le a b)
      (rangeBatches (case buf of Some b \<Rightarrow> b | None \<Rightarrow> GET_LOGS_BATCH_SIZE) from' (nat (to - from' + 1))) = Inr rss"
    and "ps = concat rss"
    using assms(2) by (auto simp: createBlocksProofsLoader_def concatMapS_done Let_def split: prod.splits
        dest: concatMapS_done [THEN iffD1])
  with batches_exact [OF assms(1)] assms(3) show ?thesis by fastforce
qed

theorem range_loader_exact_witness:
  "\<exists>ps. createBlocksProofsLoader (sampleListener [sampleLog 4, sampleLog 4, sampleLog 6]) (Some 2) 3 7 = (ps, None) \<and>
     exactRange (sampleListener [sampleLog 4, sampleLog 4, sampleLog 6]) [sampleLog 4, sampleLog 4, sampleLog 6] 3 7 ps"
proof -
  let ?le = "sampleListener [sampleLog 4, sampleLog 4, sampleLog 6]"
  have "snd (createBlocksProofsLoader ?le (Some 2) 3 7) = None" by code_simp
  then obtain ps where "createBlocksProofsLoader ?le (Some 2) 3 7 = (ps, None)" by (metis prod.collapse)
  with range_loader_exact [OF faithful_honest [OF sampleListener_faithful] this] show ?thesis by simp
qed

text \<open>
  The blocks are sorted as texts. Where the numbers of a range get one more digit, the higher block comes first.
\<close>

theorem range_out_of_order:
  assumes "honest le [] chain" and "loadBlockProofsForRange le (10 ^ Suc k - 1) (10 ^ Suc k) = Inr ps"
  shows "map bp_blockNumber ps = [10 ^ Suc k, 10 ^ Suc k - 1]"
proof -
  let ?n = "10 ^ Suc k :: int"
  have texts: "numberText ?n = CHR ''1'' # replicate (Suc k) (CHR ''0'')" "numberText (?n - 1) = replicate (Suc k) (CHR ''9'')"
  proof -
    have "?n = int (1 * 10 ^ Suc k)" "?n - 1 = int (10 ^ Suc k - 1)" by (simp_all add: of_nat_diff)
    moreover have "numberText (int m) = natStr m" for m by (simp add: numberText_def)
    ultimately show "numberText ?n = CHR ''1'' # replicate (Suc k) (CHR ''0'')" "numberText (?n - 1) = replicate (Suc k) (CHR ''9'')"
      using natStr_mult [of 1 "Suc k"] natStr_1 natStr_nines [of k] by (simp_all only: One_nat_def) simp_all
  qed
  obtain i ls f t where once: "loadRangeOnce le (?n - 1) ?n i = Inr (ls, f, t)"
    and m: "mapR (proofsOfBlock le f t (rangeGroups ls f t)) (sortBy compareTexts (map fst (rangeGroups ls f t))) = Inr ps"
    by (rule loadRange_Inr [OF assms(2)])
  from honestD(2) [OF assms(1) once] honestD(1) [OF assms(1)] have "cb_number f = ?n - 1" "cb_number t = ?n" "ls = []" by simp_all
  then have "map fst (rangeGroups ls f t) = [?n - 1, ?n]" by (simp add: rangeGroups_def ensureKey_def)
  moreover have "\<not> compareTexts (?n - 1) ?n \<le> 0" by (simp add: compareTexts_def texts del: power_Suc)
  ultimately show ?thesis using proofsOfBlock_numbers [OF m] by (simp add: sortBy_def)
qed

lemma retrying_first: "f i = Inr x \<Longrightarrow> retrying k f i = Inr x"
  by (cases k) auto

lemma faithful_range:
  assumes "faithful le [] chain" and "a < b" and "sameDigits a b"
  shows "loadBlockProofsForRange le a b = Inr [\<lparr>bp_blockNumber = a, bp_blockHash = cb_hash (chain a), bp_proofs = []\<rparr>,
     \<lparr>bp_blockNumber = b, bp_blockHash = cb_hash (chain b), bp_proofs = []\<rparr>]"
    and "loadBlockProofsForRange le a a = Inr [\<lparr>bp_blockNumber = a, bp_blockHash = cb_hash (chain a), bp_proofs = []\<rparr>]"
    and "loadBlockFor le \<lparr>bp_blockNumber = n, bp_blockHash = cb_hash (chain n), bp_proofs = ps\<rparr>
      = Inr \<lparr>bd_block = chain n, bd_proofs = \<lparr>bp_blockNumber = n, bp_blockHash = cb_hash (chain n), bp_proofs = ps\<rparr>\<rparr>"
proof -
  from assms(3) obtain k where k: "0 \<le> a" "\<forall>n \<in> {a..b}. length (numberText n) = k" by (auto simp: sameDigits_def)
  have sort: "sortBy compareTexts [a, b] = [a, b]"
    using compareTexts_sorted [of "[a, b]" k] k assms(2) by simp
  have n: "cb_number (chain n) = n" for n using assms(1) by (simp add: faithful_def)
  have "loadRangeOnce le x y 0 = Inr ([], chain x, chain y)" for x y
    using assms(1) by (simp add: loadRangeOnce_def faithful_def)
  note r = retrying_first [of "loadRangeOnce le x y" 0 _ "ln_retries le" for x y, OF this]
  show "loadBlockProofsForRange le a b = Inr [\<lparr>bp_blockNumber = a, bp_blockHash = cb_hash (chain a), bp_proofs = []\<rparr>,
     \<lparr>bp_blockNumber = b, bp_blockHash = cb_hash (chain b), bp_proofs = []\<rparr>]"
    using sort assms(2) by (simp add: loadBlockProofsForRange_def r n ensureKey_def proofsOfBlock_def Let_def)
  show "loadBlockProofsForRange le a a = Inr [\<lparr>bp_blockNumber = a, bp_blockHash = cb_hash (chain a), bp_proofs = []\<rparr>]"
    by (simp add: loadBlockProofsForRange_def r n ensureKey_def proofsOfBlock_def sortBy_def Let_def)
  show "loadBlockFor le \<lparr>bp_blockNumber = n, bp_blockHash = cb_hash (chain n), bp_proofs = ps\<rparr>
      = Inr \<lparr>bd_block = chain n, bd_proofs = \<lparr>bp_blockNumber = n, bp_blockHash = cb_hash (chain n), bp_proofs = ps\<rparr>\<rparr>"
    using assms(1) by (simp add: loadBlockFor_def createBlockLoader_def faithful_def retrying_first)
qed

theorem range_out_of_order_witness:
  "\<exists>ps. loadBlockProofsForRange (sampleListener []) 9 10 = Inr ps \<and> map bp_blockNumber ps = [10, 9]"
proof -
  have "map_sum (\<lambda>_. ()) (\<lambda>_. ()) (loadBlockProofsForRange (sampleListener []) 9 10) = Inr ()" by code_simp
  then obtain ps where ps: "loadBlockProofsForRange (sampleListener []) 9 10 = Inr ps"
    by (cases "loadBlockProofsForRange (sampleListener []) 9 10") auto
  from range_out_of_order [OF faithful_honest [OF sampleListener_faithful], of 0 ps] ps show ?thesis by simp
qed

text \<open>
  A reorganisation is reported where there is none. When the provider announces a block three or more after the
  last one, the blocks between that have no anchors are left out, so that the last block of the range is compared with
  one that is not its parent.
\<close>

theorem gap_is_reorganized:
  assumes "faithful le [] chain" and "sameDigits n (n + k)" and "3 \<le> k"
  shows "\<exists>es. createBlockProofsListener le c (Some (cb_hash (chain (n - 1)))) [n + c, n + k + c] = (es, None) \<and>
    map (\<lambda>e. (cb_number (bd_block e), reorganized e)) es = [(n, False), (n + 1, False), (n + k, True)]"
proof -
  have blocks: "createContinuousBlocksListener c [n + c, n + k + c] = [[n], [n + 1..n + k]]"
    using assms(3) by (simp add: createContinuousBlocksListener_def Let_def continuousStep_def)
  have ends: "hd [n + 1..n + k] = n + 1" "last [n + 1..n + k] = n + k"
    using assms(3) by (simp add: upto_rec1, subst upto_rec2, simp_all)
  have d: "sameDigits (n + 1) (n + k)" by (rule sameDigits_sub [OF assms(2)]) simp_all
  have lt: "n < n + k" "n + 1 < n + k" using assms(3) by simp_all
  note R = faithful_range(2) [OF assms(1) lt(1) assms(2)] faithful_range(1) [OF assms(1) lt(2) d]
    faithful_range(3) [OF assms(1) lt(1) assms(2)]
  have num: "cb_number (chain m) = m" and par: "cb_parentHash (chain (m + 1)) = cb_hash (chain m)" for m
    using assms(1) by (simp_all add: faithful_def)
  have inj: "cb_hash (chain a) = cb_hash (chain b) \<longleftrightarrow> a = b" for a b using assms(1) by (auto simp: faithful_def)
  have p: "cb_parentHash (chain n) = cb_hash (chain (n - 1))" "cb_parentHash (chain (n + k)) \<noteq> cb_hash (chain (n + 1))"
    using par [of "n - 1"] par [of "n + k - 1"] inj [of "n + k - 1" "n + 1"] assms(3) by simp_all
  show ?thesis
    by (simp add: createBlockProofsListener_def blocks ends R p par num orError_def mapProcessBlockProofs_def
        processStep_def eventOf_def reorganized_def Let_def)
qed

theorem gap_is_reorganized_witness:
  "\<exists>es. createBlockProofsListener (sampleListener []) 20 (Some (unary 2)) [23, 26] = (es, None) \<and>
     map (\<lambda>e. (cb_number (bd_block e), reorganized e)) es = [(3, False), (4, False), (6, True)]"
proof -
  have "{3..6::int} = {3, 4, 5, 6}" by auto
  then have "sameDigits 3 (3 + 3)" by (auto simp: sameDigits_def numberText_def natStr_small)
  from gap_is_reorganized [OF sampleListener_faithful this, of 20] show ?thesis by (simp add: sampleChain_def)
qed

end
