(* ===== verification/HistorySync.thy ===== *)
theory HistorySync
  imports AnchorListener StateCache
begin

text \<open>
  The synchronisation of a node with the history of anchors on the blockchain: the queue of jobs
  (\<open>job-queue/src/index.ts\<close>), the jobs and their workers (\<open>indexing/src/history-sync/workers\<close>) and the API that
  makes the jobs (\<open>indexing/src/history-sync/sync-api.ts\<close>). The queue is a table of the library pg-boss: a job
  that is sent is a row in the state \<open>created\<close>; when a send fails is a parameter.
\<close>

section \<open>The queue of jobs\<close>

datatype sync_job_type = Catchup | Reorg | Full | Continuous

record sync_job_data =
  sj_currentBlock :: "int option"
  sj_jobType :: sync_job_type
  sj_fromBlock :: int
  sj_toBlock :: int
  sj_models :: "string list"

record rebuild_job_data =
  rj_models :: "string list"
  rj_chainId :: string
  rj_txHash :: string
  rj_root :: string
  rj_txType :: "string option"

datatype job_data = SyncJob sync_job_data | RebuildJob rebuild_job_data

datatype job_state = JobCreated | JobRetry | JobActive | JobCompleted | JobExpired | JobCancelled | JobFailed

record send_options =
  so_retryLimit :: nat
  so_retryDelay :: nat
  so_retryBackoff :: bool
  so_expireInHours :: nat
  so_retentionDays :: nat

record new_job =
  nj_name :: string
  nj_data :: job_data
  nj_options :: "send_options option"

record queue_job =
  qj_id :: nat
  qj_name :: string
  qj_data :: job_data
  qj_options :: "send_options option"
  qj_state :: job_state

record job_queue =
  jq_jobs :: "queue_job list"
  jq_names :: "string list"
  jq_nextId :: nat

definition REBUILD_ANCHOR_JOB :: string where "REBUILD_ANCHOR_JOB = ''rebuildAnchorJob''"
definition HISTORY_SYNC_JOB :: string where "HISTORY_SYNC_JOB = ''historySyncJob''"
definition CONTINUOUS_SYNC_JOB :: string where "CONTINUOUS_SYNC_JOB = ''continuousSyncJob''"

definition SYNC_JOB_OPTIONS :: send_options where
  "SYNC_JOB_OPTIONS = \<lparr>so_retryLimit = 5, so_retryDelay = 60, so_retryBackoff = True, so_expireInHours = 12, so_retentionDays = 3\<rparr>"

definition REBUILD_ANCHOR_JOB_OPTIONS :: send_options where
  "REBUILD_ANCHOR_JOB_OPTIONS =
     \<lparr>so_retryLimit = 5, so_retryDelay = 60, so_retryBackoff = True, so_expireInHours = 12, so_retentionDays = 3\<rparr>"

text \<open>A row of the table for a job.\<close>

definition insertJob :: "job_queue \<Rightarrow> new_job \<Rightarrow> job_queue" where
  "insertJob q j = q\<lparr>jq_jobs := jq_jobs q @ [\<lparr>qj_id = jq_nextId q, qj_name = nj_name j, qj_data = nj_data j,
     qj_options = nj_options j, qj_state = JobCreated\<rparr>], jq_nextId := Suc (jq_nextId q)\<rparr>"

definition getJobIds :: "job_queue \<Rightarrow> job_state \<Rightarrow> string list \<Rightarrow> nat list" where
  "getJobIds q state jobTypes = map qj_id (filter (\<lambda>j. qj_state j = state \<and> qj_name j \<in> set jobTypes) (jq_jobs q))"

definition getJobs :: "job_queue \<Rightarrow> job_state \<Rightarrow> string list \<Rightarrow> (string \<times> queue_job list) list" where
  "getJobs q state jobTypes =
     foldl (\<lambda>acc jobId. case find (\<lambda>j. qj_id j = jobId) (jq_jobs q) of
         None \<Rightarrow> acc
       | Some job \<Rightarrow> mapSet acc (qj_name job) ((case map_of acc (qj_name job) of Some js \<Rightarrow> js | None \<Rightarrow> []) @ [job]))
       [] (getJobIds q state jobTypes)"

text \<open>Active jobs of an earlier run are cancelled and resumed: they are created again.\<close>

definition initQueue :: "string list \<Rightarrow> bool \<Rightarrow> job_queue \<Rightarrow> job_queue" where
  "initQueue names resumeActive q =
     (let ids = getJobIds q JobActive names in
      q\<lparr>jq_names := names, jq_jobs := (if resumeActive then map (\<lambda>j. if qj_id j \<in> set ids then j\<lparr>qj_state := JobCreated\<rparr> else j) (jq_jobs q)
        else jq_jobs q)\<rparr>)"

definition workerExistsForJob :: "job_queue \<Rightarrow> string \<Rightarrow> bool" where
  "workerExistsForJob q name \<longleftrightarrow> name \<in> set (jq_names q)"

definition addJob :: "(job_queue \<Rightarrow> js_error option) \<Rightarrow> new_job \<Rightarrow> (job_queue, unit) ef" where
  "addJob fails j =
     bindE (getE (\<lambda>q. workerExistsForJob q (nj_name j))) (\<lambda>exists.
     bindE (liftE (throwIf (\<not> exists) (Err ''Cannot add job to queue because no workers for that job exist''))) (\<lambda>_.
     bindE (getE fails) (\<lambda>failure. case failure of
       Some e \<Rightarrow> throwE e
     | None \<Rightarrow> modifyE (\<lambda>q. insertJob q j))))"

text \<open>Many jobs are inserted with their names and data only.\<close>

definition addJobs :: "(job_queue \<Rightarrow> js_error option) \<Rightarrow> new_job list \<Rightarrow> (job_queue, unit) ef" where
  "addJobs fails js =
     bindE (getE (\<lambda>q. find (\<lambda>j. \<not> workerExistsForJob q (nj_name j)) js)) (\<lambda>without.
     bindE (liftE (throwIf (without \<noteq> None) (Err ''Cannot add job to queue because no workers for that job exist''))) (\<lambda>_.
     bindE (getE fails) (\<lambda>failure. case failure of
       Some e \<Rightarrow> throwE e
     | None \<Rightarrow> modifyE (\<lambda>q. foldl (\<lambda>q j. insertJob q (j\<lparr>nj_options := None\<rparr>)) q js))))"

definition updateJob :: "nat \<Rightarrow> job_data \<Rightarrow> (job_queue, unit) ef" where
  "updateJob jobId data =
     bindE (getE (\<lambda>q. length (filter (\<lambda>j. qj_id j = jobId) (jq_jobs q)))) (\<lambda>rowCount.
     bindE (modifyE (\<lambda>q. q\<lparr>jq_jobs := map (\<lambda>j. if qj_id j = jobId then j\<lparr>qj_data := data\<rparr> else j) (jq_jobs q)\<rparr>)) (\<lambda>_.
     liftE (throwIf (rowCount \<noteq> 1) (Err ''Unable to update job''))))"

section \<open>The API\<close>

text \<open>
  The table of the state has one row with the hash and the number of the last processed block; \<open>None\<close> is no
  table. The sets and maps of the object keep the order of insertion.
\<close>

record sync_api =
  sy_modelsToSync :: "string list"
  sy_modelsToHistoricSync :: "(string \<times> nat) list"
  sy_table :: "(string option \<times> int option) option"
  sy_queue :: job_queue
  sy_chainId :: string
  sy_defaultStartBlock :: int
  sy_currentBlock :: "int option"
  sy_startBlock :: "int option"
  sy_subscribed :: "string option option"

type_synonym 'a sync = "(sync_api, 'a) ef"

text \<open>\<open>se_indexedModels\<close> is the number of objects the index lists, each with a StreamID and indices.\<close>

record sync_env =
  se_on :: bool
  se_chainIdNumber :: "js_error + nat"
  se_getBlock :: "sync_api \<Rightarrow> block_tag \<Rightarrow> js_error + chain_block"
  se_indexedModels :: nat
  se_sendFails :: "job_queue \<Rightarrow> js_error option"

definition BLOCK_CONFIRMATIONS :: int where
  "BLOCK_CONFIRMATIONS = 20"

definition INITIAL_INDEXING_BLOCKS :: "(string \<times> int) list" where
  "INITIAL_INDEXING_BLOCKS = [(''eip155:1'', 16695723), (''eip155:5'', 8503000), (''eip155:100'', 26511896), (''eip155:11155111'', 5518614)]"

text \<open>\<open>toString()\<close> of an object literal.\<close>

definition objectText :: string where
  "objectText = ''[object Object]''"

definition onQueue :: "(job_queue, 'a) ef \<Rightarrow> 'a sync" where
  "onQueue m w = (let (r, q) = m (sy_queue w) in (r, w\<lparr>sy_queue := q\<rparr>))"

definition setAdd :: "string list \<Rightarrow> string \<Rightarrow> string list" where
  "setAdd xs x = (if x \<in> set xs then xs else xs @ [x])"

definition upsertModelForHistoricSync :: "string \<Rightarrow> sync_api \<Rightarrow> sync_api" where
  "upsertModelForHistoricSync model w =
     (let n = (case map_of (sy_modelsToHistoricSync w) model of Some k \<Rightarrow> if k = 0 then 1 else k + 1 | None \<Rightarrow> 1)
      in w\<lparr>sy_modelsToHistoricSync := mapSet (sy_modelsToHistoricSync w) model n\<rparr>)"

definition initModelsToSync :: "sync_env \<Rightarrow> sync_api \<Rightarrow> sync_api" where
  "initModelsToSync env w = w\<lparr>sy_modelsToSync := foldl setAdd (sy_modelsToSync w) (replicate (se_indexedModels env) objectText)\<rparr>"

definition initStateTable :: "(string option \<times> int option) sync" where
  "initStateTable w = (case sy_table w of
     None \<Rightarrow> (Inr (None, None), w\<lparr>sy_table := Some (None, None)\<rparr>)
   | Some row \<Rightarrow> (Inr row, w))"

definition createSyncJob :: "string \<Rightarrow> sync_job_data \<Rightarrow> new_job" where
  "createSyncJob name data = \<lparr>nj_name = name, nj_data = SyncJob data, nj_options = Some SYNC_JOB_OPTIONS\<rparr>"

definition isHistoric :: "sync_job_type \<Rightarrow> bool" where
  "isHistoric t \<longleftrightarrow> t \<noteq> Reorg \<and> t \<noteq> Continuous"

definition addSyncJob :: "sync_env \<Rightarrow> string \<Rightarrow> sync_job_data \<Rightarrow> unit sync" where
  "addSyncJob env type data =
     (if sj_models data = [] then returnE ()
      else
        bindE (whenE (isHistoric (sj_jobType data)) (modifyE (\<lambda>w. foldl (\<lambda>w m. upsertModelForHistoricSync m w) w (sj_models data)))) (\<lambda>_.
        onQueue (addJob (se_sendFails env) (createSyncJob type data))))"

definition updateStoredState :: "string \<Rightarrow> int \<Rightarrow> unit sync" where
  "updateStoredState hash number = modifyE (\<lambda>w. w\<lparr>sy_table := map_option (\<lambda>_. (Some hash, Some number)) (sy_table w)\<rparr>)"

text \<open>The job for a block of the listener. The models are those to be synchronised when the block arrives.\<close>

definition blockJob :: "sync_api \<Rightarrow> chain_block \<Rightarrow> bool \<Rightarrow> string \<times> sync_job_data" where
  "blockJob w b reorg =
     (if reorg then (HISTORY_SYNC_JOB, \<lparr>sj_currentBlock = None, sj_jobType = Reorg, sj_fromBlock = cb_number b - BLOCK_CONFIRMATIONS,
        sj_toBlock = cb_number b, sj_models = sy_modelsToSync w\<rparr>)
      else (CONTINUOUS_SYNC_JOB, \<lparr>sj_currentBlock = None, sj_jobType = Continuous, sj_fromBlock = cb_number b,
        sj_toBlock = cb_number b, sj_models = sy_modelsToSync w\<rparr>))"

definition handleBlockProofs :: "sync_env \<Rightarrow> chain_block \<Rightarrow> bool \<Rightarrow> unit sync" where
  "handleBlockProofs env b reorg =
     bindE (modifyE (\<lambda>w. w\<lparr>sy_currentBlock := Some (cb_number b)\<rparr>)) (\<lambda>_.
     bindE (getE (\<lambda>w. blockJob w b reorg)) (\<lambda>(type, data).
     bindE (addSyncJob env type data) (\<lambda>_.
     updateStoredState (cb_hash b) (cb_number b))))"

definition catchupJob :: "sync_api \<Rightarrow> int \<Rightarrow> int \<Rightarrow> sync_job_data" where
  "catchupJob w from' to = \<lparr>sj_currentBlock = None, sj_jobType = Catchup, sj_fromBlock = from', sj_toBlock = to, sj_models = sy_modelsToSync w\<rparr>"

definition syncInit :: "sync_env \<Rightarrow> unit sync" where
  "syncInit env =
     (if \<not> se_on env then returnE ()
      else
        bindE (liftE (se_chainIdNumber env)) (\<lambda>n.
        let chain = ''eip155:'' @ natStr n in
        bindE (modifyE (\<lambda>w. w\<lparr>sy_chainId := chain, sy_defaultStartBlock := (case map_of INITIAL_INDEXING_BLOCKS chain of Some b \<Rightarrow> b | None \<Rightarrow> 0)\<rparr>)) (\<lambda>_.
        bindE initStateTable (\<lambda>(processedBlockHash, processedBlockNumber).
        bindE (modifyE (initModelsToSync env)) (\<lambda>_.
        bindE (modifyE (\<lambda>w. w\<lparr>sy_queue := initQueue [REBUILD_ANCHOR_JOB, HISTORY_SYNC_JOB, CONTINUOUS_SYNC_JOB] True (sy_queue w)\<rparr>)) (\<lambda>_.
        bindE (\<lambda>w. liftE (se_getBlock env w (ByNumber (- BLOCK_CONFIRMATIONS))) w) (\<lambda>latestBlock.
        bindE (modifyE (\<lambda>w. w\<lparr>sy_startBlock := Some (cb_number latestBlock), sy_subscribed := Some (Some (cb_hash latestBlock))\<rparr>)) (\<lambda>_.
        bindE (getE id) (\<lambda>w. case processedBlockNumber of
          None \<Rightarrow> addSyncJob env HISTORY_SYNC_JOB (catchupJob w (sy_defaultStartBlock w) (cb_number latestBlock))
        | Some p \<Rightarrow> if p < cb_number latestBlock then addSyncJob env HISTORY_SYNC_JOB (catchupJob w p (cb_number latestBlock))
            else returnE ())))))))))"

text \<open>Absent options and 0 count alike.\<close>

record model_sync_options =
  ms_startBlock :: "int option"
  ms_endBlock :: "int option"

definition orZero :: "int option \<Rightarrow> int" where
  "orZero v = (case v of Some n \<Rightarrow> n | None \<Rightarrow> 0)"

definition startModelSync :: "sync_env \<Rightarrow> string list \<Rightarrow> model_sync_options \<Rightarrow> unit sync" where
  "startModelSync env models opts =
     (if \<not> se_on env then returnE ()
      else
        bindE (modifyE (\<lambda>w. w\<lparr>sy_modelsToSync := foldl setAdd (sy_modelsToSync w) models\<rparr>)) (\<lambda>_.
        bindE (getE sy_defaultStartBlock) (\<lambda>default.
        let startBlock = max default (orZero (ms_startBlock opts)) in
        bindE (if orZero (ms_endBlock opts) = 0 \<or> orZero (ms_endBlock opts) < startBlock
          then (\<lambda>w. liftE (bindR (se_getBlock env w Latest) (\<lambda>b. Inr (cb_number b - BLOCK_CONFIRMATIONS))) w)
          else returnE (orZero (ms_endBlock opts))) (\<lambda>endBlock.
        addSyncJob env HISTORY_SYNC_JOB \<lparr>sj_currentBlock = None, sj_jobType = Full, sj_fromBlock = startBlock, sj_toBlock = endBlock,
          sj_models = models\<rparr>))))"

definition stopModelSync :: "sync_env \<Rightarrow> string list \<Rightarrow> unit sync" where
  "stopModelSync env models =
     (if \<not> se_on env then returnE ()
      else modifyE (\<lambda>w. w\<lparr>sy_modelsToSync := filter (\<lambda>m. m \<notin> set models) (sy_modelsToSync w)\<rparr>))"

definition syncCompletedForModel :: "sync_job_type \<Rightarrow> string \<Rightarrow> sync_api \<Rightarrow> sync_api" where
  "syncCompletedForModel jobType modelId w =
     (if \<not> isHistoric jobType then w
      else case map_of (sy_modelsToHistoricSync w) modelId of
        None \<Rightarrow> w
      | Some existing \<Rightarrow>
          if existing = 0 then w
          else if existing \<le> 1 then w\<lparr>sy_modelsToHistoricSync := mapDelete (sy_modelsToHistoricSync w) modelId\<rparr>
          else w\<lparr>sy_modelsToHistoricSync := mapSet (sy_modelsToHistoricSync w) modelId (existing - 1)\<rparr>)"

definition syncComplete :: "sync_api \<Rightarrow> string \<Rightarrow> bool" where
  "syncComplete w model \<longleftrightarrow> (case map_of (sy_modelsToHistoricSync w) model of Some k \<Rightarrow> k | None \<Rightarrow> 0) = 0"

definition syncShutdown :: "sync_env \<Rightarrow> unit sync" where
  "syncShutdown env = (if \<not> se_on env then returnE () else modifyE (\<lambda>w. w\<lparr>sy_subscribed := None\<rparr>))"

section \<open>The status\<close>

record active_status =
  as_startBlock :: int
  as_currentBlock :: int
  as_endBlock :: int
  as_models :: "string list"

record continuous_status =
  ct_startBlock :: "int option"
  ct_latestBlock :: "int option"
  ct_confirmations :: int
  ct_currentBlock :: "int option"
  ct_models :: "string list"

record pending_status =
  pe_startBlock :: int
  pe_endBlock :: int
  pe_models :: "string list"

record model_syncs =
  ss_activeSyncs :: "active_status list"
  ss_continuousSync :: "continuous_status list"
  ss_pendingSyncs :: "pending_status list"

definition syncDataOf :: "queue_job \<Rightarrow> sync_job_data option" where
  "syncDataOf j = (case qj_data j of SyncJob d \<Rightarrow> Some d | RebuildJob _ \<Rightarrow> None)"

definition currentOf :: "sync_job_data \<Rightarrow> int" where
  "currentOf d = (case sj_currentBlock d of Some n \<Rightarrow> if n = 0 then sj_fromBlock d else n | None \<Rightarrow> sj_fromBlock d)"

definition jobsNamed :: "(string \<times> queue_job list) list \<Rightarrow> string \<Rightarrow> queue_job list option" where
  "jobsNamed m name = map_of m name"

text \<open>Jobs of these names carry the data of a sync.\<close>

definition syncStatus :: "sync_api \<Rightarrow> model_syncs" where
  "syncStatus w =
     (let active = getJobs (sy_queue w) JobActive [CONTINUOUS_SYNC_JOB, HISTORY_SYNC_JOB];
          waiting = getJobs (sy_queue w) JobCreated [CONTINUOUS_SYNC_JOB, HISTORY_SYNC_JOB];
          orEmpty = (\<lambda>o'. case o' of Some js \<Rightarrow> js | None \<Rightarrow> []);
          historyJobs = orEmpty (jobsNamed active HISTORY_SYNC_JOB);
          continuousJobs = (case jobsNamed active CONTINUOUS_SYNC_JOB of Some js \<Rightarrow> js
            | None \<Rightarrow> orEmpty (jobsNamed waiting CONTINUOUS_SYNC_JOB));
          pendingJobs = orEmpty (jobsNamed waiting HISTORY_SYNC_JOB)
      in \<lparr>ss_activeSyncs = map (\<lambda>d. \<lparr>as_startBlock = sj_fromBlock d, as_currentBlock = currentOf d, as_endBlock = sj_toBlock d,
            as_models = sj_models d\<rparr>) (List.map_filter syncDataOf historyJobs),
          ss_continuousSync = (if continuousJobs \<noteq> [] then map (\<lambda>d. \<lparr>ct_startBlock = sy_startBlock w, ct_latestBlock = sy_currentBlock w,
              ct_confirmations = BLOCK_CONFIRMATIONS, ct_currentBlock = Some (sj_fromBlock d), ct_models = sj_models d\<rparr>)
              (List.map_filter syncDataOf continuousJobs)
            else [\<lparr>ct_startBlock = sy_startBlock w, ct_latestBlock = sy_currentBlock w, ct_confirmations = BLOCK_CONFIRMATIONS,
              ct_currentBlock = map_option (\<lambda>n. n - BLOCK_CONFIRMATIONS) (sy_currentBlock w), ct_models = sy_modelsToSync w\<rparr>]),
          ss_pendingSyncs = map (\<lambda>d. \<lparr>pe_startBlock = sj_fromBlock d, pe_endBlock = sj_toBlock d, pe_models = sj_models d\<rparr>)
            (List.map_filter syncDataOf pendingJobs)\<rparr>)"

section \<open>The worker of sync jobs\<close>

definition createRebuildAnchorJob :: "codec_lib \<Rightarrow> anchor_proof \<Rightarrow> string list \<Rightarrow> new_job" where
  "createRebuildAnchorJob lib proof models = \<lparr>nj_name = REBUILD_ANCHOR_JOB,
     nj_data = RebuildJob \<lparr>rj_models = models, rj_chainId = pf_chainId proof, rj_txHash = cidToString lib (pf_txHash proof),
       rj_root = cidToString lib (pf_root proof), rj_txType = pf_txType proof\<rparr>,
     nj_options = Some REBUILD_ANCHOR_JOB_OPTIONS\<rparr>"

definition handleBlockSet :: "sync_env \<Rightarrow> codec_lib \<Rightarrow> nat \<Rightarrow> sync_job_data \<Rightarrow> block_proofs \<Rightarrow> unit sync" where
  "handleBlockSet env lib jobId d p =
     bindE (whenE (bp_proofs p \<noteq> []) (onQueue (addJobs (se_sendFails env) (map (\<lambda>proof. createRebuildAnchorJob lib proof (sj_models d)) (bp_proofs p))))) (\<lambda>_.
     onQueue (updateJob jobId (SyncJob (d\<lparr>sj_currentBlock := Some (bp_blockNumber p + 1)\<rparr>))))"

definition syncHandler :: "sync_env \<Rightarrow> listener_env \<Rightarrow> codec_lib \<Rightarrow> nat \<Rightarrow> sync_job_data \<Rightarrow> unit sync" where
  "syncHandler env le lib jobId d =
     (let (sets, failure) = createBlocksProofsLoader le None (currentOf d) (sj_toBlock d) in
      bindE (forE (handleBlockSet env lib jobId d) sets) (\<lambda>_.
      bindE (liftE (throwIf (failure \<noteq> None) (Err ''Error loading block proof''))) (\<lambda>_.
      bindE (liftE (throwIf (sets = []) (Err ''no elements in sequence''))) (\<lambda>_.
      modifyE (\<lambda>w. foldl (\<lambda>w m. syncCompletedForModel (sj_jobType d) m w) w (sj_models d))))))"

section \<open>The worker that rebuilds anchors\<close>

record 'w rebuild_env =
  rb_lib :: codec_lib
  rb_parseCid :: "string \<Rightarrow> js_error + cid"
  rb_storeRecord :: "js \<Rightarrow> js_error + cid"
  rb_retrieveFromIPFS :: "cid \<Rightarrow> string \<Rightarrow> js_error + js"
  rb_retrieveCommit :: "cid \<Rightarrow> stream_id \<Rightarrow> js_error + js"
  rb_storeEvent :: "js \<Rightarrow> stream_id \<Rightarrow> js_error + cid"
  rb_streamIDOfBytes :: "js \<Rightarrow> js_error + stream_id"
  rb_handleCommit :: "stream_id \<Rightarrow> cid \<Rightarrow> stream_id \<Rightarrow> ('w, unit) ef"

record tree_metadata =
  tm_numEntries :: nat
  tm_streamIds :: "js list"

definition metadataOf :: "js \<Rightarrow> js_error + tree_metadata" where
  "metadataOf v =
     bindR (jsGet v ''streamIds'') (\<lambda>ids.
     bindR (jsArray ids) (\<lambda>streamIds.
     Inr \<lparr>tm_numEntries = (case jsGetOpt v ''numEntries'' of Num q \<Rightarrow> nat \<lfloor>q\<rfloor> | _ \<Rightarrow> 0), tm_streamIds = streamIds\<rparr>))"

definition METADATA_PATH :: string where
  "METADATA_PATH = ''2''"

fun directionIndex :: "path_direction \<Rightarrow> nat" where
  "directionIndex L = 0"
| "directionIndex R = 1"

definition getLeafData :: "'w rebuild_env \<Rightarrow> cid \<Rightarrow> nat \<Rightarrow> nat \<Rightarrow> js_error + (js \<times> path_direction list)" where
  "getLeafData rb rootCid numEntries i =
     bindR (pathByIndex i numEntries) (\<lambda>path.
     bindR (rb_retrieveFromIPFS rb rootCid (pathString (butlast path))) (\<lambda>parent.
     bindR (jsIndex parent (directionIndex (last path))) (\<lambda>c. Inr (c, path))))"

definition getModelForStream :: "'w rebuild_env \<Rightarrow> stream_id \<Rightarrow> js_error + stream_id option" where
  "getModelForStream rb sid =
     bindR (rb_retrieveCommit rb (sid_cid sid) sid) (\<lambda>signedCommit.
     bindR (case jsGetOpt signedCommit ''link'' of CidV c \<Rightarrow> rb_retrieveCommit rb c sid | _ \<Rightarrow> Inr signedCommit) (\<lambda>genesisCommit.
     let model = jsGetOpt (jsGetOpt genesisCommit ''header'') ''model'' in
     if \<not> jsTruthy model then Inr None else bindR (rb_streamIDOfBytes rb model) (\<lambda>m. Inr (Some m))))"

definition proofRecord :: "rebuild_job_data \<Rightarrow> cid \<Rightarrow> cid \<Rightarrow> js" where
  "proofRecord d txHash rootCid = Obj [(''chainId'', Str (rj_chainId d)), (''txHash'', CidV txHash), (''root'', CidV rootCid),
     (''txType'', case rj_txType d of Some t \<Rightarrow> Str t | None \<Rightarrow> Undef)]"

definition anchorCommitOf :: "stream_id \<Rightarrow> js \<Rightarrow> cid \<Rightarrow> path_direction list \<Rightarrow> js" where
  "anchorCommitOf sid prev proofCid path =
     Obj [(''id'', CidV (sid_cid sid)), (''prev'', prev), (''proof'', CidV proofCid), (''path'', Str (pathString path))]"

definition rebuildTask :: "'w rebuild_env \<Rightarrow> rebuild_job_data \<Rightarrow> cid \<Rightarrow> cid \<Rightarrow> nat \<Rightarrow> js \<Rightarrow> nat \<Rightarrow> ('w, unit) ef" where
  "rebuildTask rb d rootCid proofCid numEntries stream i =
     bindE (liftE (case stream of Str s \<Rightarrow> streamIDFromString (rb_lib rb) s | _ \<Rightarrow> Inl TypeErr)) (\<lambda>sid.
     bindE (liftE (getModelForStream rb sid)) (\<lambda>model. case model of
       None \<Rightarrow> returnE ()
     | Some m \<Rightarrow>
         if \<not> (\<exists>t \<in> set (rj_models d). t = streamIDToString (rb_lib rb) m) then returnE ()
         else
           bindE (liftE (getLeafData rb rootCid numEntries i)) (\<lambda>(c, path).
           bindE (liftE (rb_storeEvent rb (anchorCommitOf sid c proofCid path) sid)) (\<lambda>anchorCommitCid.
           rb_handleCommit rb sid anchorCommitCid m))))"

text \<open>
  The tasks of a tree; each one has its errors logged. They are run in the order of the tree here; the source runs up
  to 16 of them at a time.
\<close>

definition rebuildHandler :: "'w rebuild_env \<Rightarrow> rebuild_job_data \<Rightarrow> ('w, unit) ef" where
  "rebuildHandler rb d =
     bindE (liftE (rb_parseCid rb (rj_txHash d))) (\<lambda>txHash.
     bindE (liftE (rb_parseCid rb (rj_root d))) (\<lambda>rootCid.
     case rb_storeRecord rb (proofRecord d txHash rootCid) of
       Inl _ \<Rightarrow> returnE ()
     | Inr proofCid \<Rightarrow>
         (case rb_retrieveFromIPFS rb rootCid METADATA_PATH of
            Inl _ \<Rightarrow> returnE ()
          | Inr v \<Rightarrow> if \<not> jsTruthy v then returnE ()
              else bindE (liftE (metadataOf v)) (\<lambda>md.
                forE (\<lambda>(i, stream). catchE (rebuildTask rb d rootCid proofCid (tm_numEntries md) stream i) (\<lambda>_. returnE ()))
                  (zip [0..<length (tm_streamIds md)] (tm_streamIds md))))))"

section \<open>Where to start the synchronisation of models\<close>

definition NUMBER_OF_BLOCKS_BEFORE_TX_TO_START_SYNC :: int where
  "NUMBER_OF_BLOCKS_BEFORE_TX_TO_START_SYNC = 7200"

definition oldestModel :: "stream_state list \<Rightarrow> stream_state" where
  "oldestModel models = foldl (\<lambda>oldest current.
     (case (onumVal (le_timestamp (hd (st_log oldest))), onumVal (le_timestamp (hd (st_log current)))) of
        (Some a, Some b) \<Rightarrow> if b < a then current else oldest
      | _ \<Rightarrow> oldest)) (hd models) (tl models)"

text \<open>
  \<open>getTransaction\<close> gives the block of the transaction whose hash is the \<open>txHash\<close> of an anchor proof. All models are
  loaded before.
\<close>

definition getStartBlock :: "(js \<Rightarrow> js_error + int option) \<Rightarrow> stream_state list \<Rightarrow> js_error + int option" where
  "getStartBlock getTransactionBlock models =
     (if (\<exists>m \<in> set models. \<not> onumTruthy (le_timestamp (hd (st_log m)))) then Inr None
      else if models = [] then Inl TypeErr
      else
        bindR (jsGet (st_anchorProof (oldestModel models)) ''txHash'') (\<lambda>txHash.
        bindR (getTransactionBlock txHash) (\<lambda>blockNumber.
        case blockNumber of
          None \<Rightarrow> Inr None
        | Some n \<Rightarrow> if n = 0 then Inr None else Inr (Some (n - NUMBER_OF_BLOCKS_BEFORE_TX_TO_START_SYNC)))))"

end
