(* ===== verification/HistoryBehaviour.thy ===== *)
theory HistoryBehaviour
  imports HistorySync
begin

text \<open>
  Properties of the synchronisation with the history of anchors: which blocks have a job, what a worker has done
  when it stops, and what a rebuilt anchor commit is.
\<close>

section \<open>Jobs and the blocks they cover\<close>

definition covers :: "sync_job_data \<Rightarrow> int \<Rightarrow> string \<Rightarrow> bool" where
  "covers d b m \<longleftrightarrow> sj_fromBlock d \<le> b \<and> b \<le> sj_toBlock d \<and> m \<in> set (sj_models d)"

definition covered :: "sync_api \<Rightarrow> int \<Rightarrow> string \<Rightarrow> bool" where
  "covered w b m \<longleftrightarrow> (\<exists>j \<in> set (jq_jobs (sy_queue w)). \<exists>d. qj_data j = SyncJob d \<and> covers d b m)"

definition sameRange :: "sync_job_data \<Rightarrow> sync_job_data \<Rightarrow> bool" where
  "sameRange d d' \<longleftrightarrow> sj_fromBlock d = sj_fromBlock d' \<and> sj_toBlock d = sj_toBlock d' \<and> sj_models d = sj_models d'"


definition queueOk :: "job_queue \<Rightarrow> bool" where
  "queueOk q \<longleftrightarrow> distinct (map qj_id (jq_jobs q)) \<and> (\<forall>i \<in> set (map qj_id (jq_jobs q)). i < jq_nextId q)"

text \<open>\<open>hasJob q i d\<close>: the job \<open>i\<close> has the range and the models of \<open>d\<close>.\<close>

definition hasJob :: "job_queue \<Rightarrow> nat \<Rightarrow> sync_job_data \<Rightarrow> bool" where
  "hasJob q i d \<longleftrightarrow> (\<exists>j \<in> set (jq_jobs q). qj_id j = i \<and> (\<exists>d'. qj_data j = SyncJob d' \<and> sameRange d' d))"

text \<open>\<open>grows q q'\<close>: the queue has changed without losing a range, and stays in order.\<close>

definition grows :: "job_queue \<Rightarrow> job_queue \<Rightarrow> bool" where
  "grows q q' \<longleftrightarrow> (queueOk q \<longrightarrow> queueOk q') \<and>
     (\<forall>j \<in> set (jq_jobs q). \<forall>d. qj_data j = SyncJob d \<longrightarrow>
        (\<exists>j' \<in> set (jq_jobs q'). \<exists>d'. qj_id j' = qj_id j \<and> qj_data j' = SyncJob d' \<and> sameRange d' d))"

lemma grows_refl [simp]: "grows q q"
  by (auto simp: grows_def sameRange_def)

lemma grows_trans: "grows q q' \<Longrightarrow> grows q' q'' \<Longrightarrow> grows q q''"
  unfolding grows_def sameRange_def by (metis (no_types, lifting))

lemma grows_hasJob: "grows q q' \<Longrightarrow> hasJob q i d \<Longrightarrow> hasJob q' i d"
  unfolding grows_def hasJob_def sameRange_def by (metis (no_types, lifting))


lemma insertJob_grows: "grows q (insertJob q j)"
  by (auto simp: grows_def insertJob_def queueOk_def sameRange_def less_Suc_eq)

lemma insertJobs_grows: "grows q (foldl (\<lambda>q j. insertJob q (f j)) q js)"
proof (induction js arbitrary: q)
  case (Cons j js)
  show ?case using grows_trans [OF insertJob_grows Cons.IH] by simp
qed simp

lemma addJob_result:
  "addJob fails j q = (r, q') \<Longrightarrow> grows q q' \<and> (r = Inr () \<longrightarrow> q' = insertJob q j)"
  by (auto simp: addJob_def bindE_def ef_simps throwIf_def insertJob_grows split: option.splits if_splits)

lemma addJobs_result:
  "addJobs fails js q = (r, q') \<Longrightarrow> grows q q' \<and>
     (r = Inr () \<longrightarrow> q' = foldl (\<lambda>q j. insertJob q (j\<lparr>nj_options := None\<rparr>)) q js)"
  by (auto simp: addJobs_def bindE_def ef_simps throwIf_def insertJobs_grows split: option.splits if_splits)

lemma updateJob_grows:
  assumes "updateJob i (SyncJob d') q = (r, q')" and "queueOk q" and "hasJob q i d" and "sameRange d' d"
  shows "grows q q'"
proof -
  have q': "q' = q\<lparr>jq_jobs := map (\<lambda>j. if qj_id j = i then j\<lparr>qj_data := SyncJob d'\<rparr> else j) (jq_jobs q)\<rparr>"
    using assms(1) by (auto simp: updateJob_def bindE_def ef_simps split: prod.splits sum.splits)
  have ids: "map qj_id (jq_jobs q') = map qj_id (jq_jobs q)" "jq_nextId q' = jq_nextId q" by (simp_all add: q')
  have "queueOk q'"
    using assms(2) unfolding queueOk_def ids .
  moreover have "\<exists>j' \<in> set (jq_jobs q'). \<exists>e'. qj_id j' = qj_id j \<and> qj_data j' = SyncJob e' \<and> sameRange e' e"
    if j: "j \<in> set (jq_jobs q)" "qj_data j = SyncJob e" for j e
  proof (cases "qj_id j = i")
    case True
    from assms(3) obtain k e' where k: "k \<in> set (jq_jobs q)" "qj_id k = i" "qj_data k = SyncJob e'" "sameRange e' d"
      by (auto simp: hasJob_def)
    then have "k = j" using assms(2) j(1) True by (auto simp: queueOk_def distinct_map dest: inj_onD)
    then have "sameRange d' e" using assms(4) k j(2) by (simp add: sameRange_def)
    moreover have "j\<lparr>qj_data := SyncJob d'\<rparr> \<in> set (jq_jobs q')" using j(1) True by (force simp: q')
    ultimately show ?thesis by (intro bexI [of _ "j\<lparr>qj_data := SyncJob d'\<rparr>"]) auto
  next
    case False
    then have "j \<in> set (jq_jobs q')" using j(1) by (force simp: q')
    then show ?thesis using j(2) by (auto simp: sameRange_def)
  qed
  ultimately show ?thesis by (auto simp: grows_def)
qed

lemma onQueue_run: "onQueue m w = (r, w') \<longleftrightarrow> (\<exists>q. m (sy_queue w) = (r, q) \<and> w' = w\<lparr>sy_queue := q\<rparr>)"
  by (cases "m (sy_queue w)") (auto simp: onQueue_def)

lemma upserts_fields:
  "sy_queue (foldl (\<lambda>w m. upsertModelForHistoricSync m w) w ms) = sy_queue w"
  "sy_modelsToSync (foldl (\<lambda>w m. upsertModelForHistoricSync m w) w ms) = sy_modelsToSync w"
  "sy_table (foldl (\<lambda>w m. upsertModelForHistoricSync m w) w ms) = sy_table w"
  by (induction ms arbitrary: w) (simp_all add: upsertModelForHistoricSync_def Let_def)

lemma completions_fields:
  "sy_queue (foldl (\<lambda>w m. syncCompletedForModel t m w) w ms) = sy_queue w"
  "sy_modelsToSync (foldl (\<lambda>w m. syncCompletedForModel t m w) w ms) = sy_modelsToSync w"
  "sy_table (foldl (\<lambda>w m. syncCompletedForModel t m w) w ms) = sy_table w"
  by (induction ms arbitrary: w) (simp_all add: syncCompletedForModel_def split: option.split)

lemma addSyncJob_result:
  assumes "addSyncJob env t d w = (r, w')"
  shows "grows (sy_queue w) (sy_queue w')" and "sy_modelsToSync w' = sy_modelsToSync w" and "sy_table w' = sy_table w"
    and "r = Inr () \<Longrightarrow> sj_models d \<noteq> [] \<Longrightarrow> sy_queue w' = insertJob (sy_queue w) (createSyncJob t d)"
    and "r = Inr () \<Longrightarrow> covers d b m \<Longrightarrow> covered w' b m"
proof -
  have "grows (sy_queue w) (sy_queue w') \<and> sy_modelsToSync w' = sy_modelsToSync w \<and> sy_table w' = sy_table w \<and>
    (r = Inr () \<longrightarrow> sj_models d \<noteq> [] \<longrightarrow> sy_queue w' = insertJob (sy_queue w) (createSyncJob t d))"
  proof (cases "sj_models d = []")
    case True
    with assms show ?thesis by (auto simp: addSyncJob_def ef_simps)
  next
    case False
    define w1 where "w1 = (if isHistoric (sj_jobType d) then foldl (\<lambda>w m. upsertModelForHistoricSync m w) w (sj_models d) else w)"
    from assms False have "onQueue (addJob (se_sendFails env) (createSyncJob t d)) w1 = (r, w')"
      by (simp add: addSyncJob_def w1_def whenE_def split: if_splits)
    moreover have "sy_queue w1 = sy_queue w" "sy_modelsToSync w1 = sy_modelsToSync w" "sy_table w1 = sy_table w"
      by (simp_all add: w1_def upserts_fields)
    ultimately show ?thesis using addJob_result by (auto simp: onQueue_run)
  qed
  then show "grows (sy_queue w) (sy_queue w')" "sy_modelsToSync w' = sy_modelsToSync w" "sy_table w' = sy_table w"
    and new: "r = Inr () \<Longrightarrow> sj_models d \<noteq> [] \<Longrightarrow> sy_queue w' = insertJob (sy_queue w) (createSyncJob t d)"
    by simp_all
  show "r = Inr () \<Longrightarrow> covers d b m \<Longrightarrow> covered w' b m"
    using new by (force simp: covered_def covers_def insertJob_def createSyncJob_def)
qed

lemma handleBlockSet_result:
  assumes "handleBlockSet env lib i d p w = (r, w')" and "queueOk (sy_queue w)" and "hasJob (sy_queue w) i d"
  shows "grows (sy_queue w) (sy_queue w')" and "sy_modelsToSync w' = sy_modelsToSync w" and "sy_table w' = sy_table w"
proof -
  let ?jobs = "map (\<lambda>proof. createRebuildAnchorJob lib proof (sj_models d)) (bp_proofs p)"
  obtain r1 w1 where a: "whenE (bp_proofs p \<noteq> []) (onQueue (addJobs (se_sendFails env) ?jobs)) w = (r1, w1)" by (metis prod.exhaust)
  then have g: "grows (sy_queue w) (sy_queue w1) \<and> sy_modelsToSync w1 = sy_modelsToSync w \<and> sy_table w1 = sy_table w"
    by (auto simp: whenE_def onQueue_run ef_simps split: if_splits dest: addJobs_result)
  have "grows (sy_queue w) (sy_queue w') \<and> sy_modelsToSync w' = sy_modelsToSync w \<and> sy_table w' = sy_table w"
  proof (cases r1)
    case (Inl e)
    then show ?thesis using assms(1) a g by (auto simp: handleBlockSet_def bindE_def)
  next
    case (Inr u)
    let ?d = "d\<lparr>sj_currentBlock := Some (bp_blockNumber p + 1)\<rparr>"
    from assms(1) a Inr have u: "onQueue (updateJob i (SyncJob ?d)) w1 = (r, w')" by (simp add: handleBlockSet_def bindE_def)
    have "queueOk (sy_queue w1)" "hasJob (sy_queue w1) i d"
      using g assms(2,3) grows_hasJob by (auto simp: grows_def)
    with u updateJob_grows [of i ?d "sy_queue w1"] g show ?thesis
      by (auto simp: onQueue_run sameRange_def intro: grows_trans)
  qed
  then show "grows (sy_queue w) (sy_queue w')" "sy_modelsToSync w' = sy_modelsToSync w" "sy_table w' = sy_table w" by simp_all
qed



section \<open>Runs\<close>

text \<open>
  A block of the listener is handled in three steps, between which others may come: its job is made when it arrives,
  the job is sent, and the block is stored as the last one processed. A job that cannot be sent ends the
  subscription. With \<open>seq\<close>, a block is only taken when the one before is done.
\<close>

record sync_run =
  sr_api :: sync_api
  sr_pending :: "(chain_block \<times> string \<times> sync_job_data \<times> bool) list"
  sr_last :: int
  sr_open :: bool

text \<open>
  \<open>follows A n b reorg\<close>: the block \<open>b\<close> may come from the listener after block \<open>n\<close>. The blocks between them
  have no anchors, or they are reported as reorganised and lie within the confirmations.
\<close>

definition follows :: "int set \<Rightarrow> int \<Rightarrow> chain_block \<Rightarrow> bool \<Rightarrow> bool" where
  "follows A n b reorg \<longleftrightarrow> n < cb_number b \<and>
     (\<forall>k \<in> A. n < k \<and> k < cb_number b \<longrightarrow> reorg \<and> cb_number b - BLOCK_CONFIRMATIONS \<le> k)"

inductive syncStep :: "sync_env \<Rightarrow> listener_env \<Rightarrow> codec_lib \<Rightarrow> int set \<Rightarrow> string \<Rightarrow> bool \<Rightarrow> sync_run \<Rightarrow> sync_run \<Rightarrow> bool"
  for env le lib A m seq where
  arrive: "sr_open s \<Longrightarrow> seq \<longrightarrow> sr_pending s = [] \<Longrightarrow> follows A (sr_last s) b reorg \<Longrightarrow> blockJob (sr_api s) b reorg = (t, d) \<Longrightarrow>
    syncStep env le lib A m seq s
      (s\<lparr>sr_api := (sr_api s)\<lparr>sy_currentBlock := Some (cb_number b)\<rparr>, sr_pending := sr_pending s @ [(b, t, d, False)],
         sr_last := cb_number b\<rparr>)"
| sent: "sr_pending s = xs @ (b, t, d, False) # ys \<Longrightarrow> addSyncJob env t d (sr_api s) = (Inr (), w) \<Longrightarrow>
    syncStep env le lib A m seq s (s\<lparr>sr_api := w, sr_pending := xs @ (b, t, d, True) # ys\<rparr>)"
| failed: "sr_pending s = xs @ (b, t, d, False) # ys \<Longrightarrow> addSyncJob env t d (sr_api s) = (Inl e, w) \<Longrightarrow>
    syncStep env le lib A m seq s (s\<lparr>sr_api := w, sr_pending := xs @ ys, sr_open := False\<rparr>)"
| stored: "sr_pending s = xs @ (b, t, d, True) # ys \<Longrightarrow> updateStoredState (cb_hash b) (cb_number b) (sr_api s) = (r, w) \<Longrightarrow>
    syncStep env le lib A m seq s (s\<lparr>sr_api := w, sr_pending := xs @ ys\<rparr>)"
| start: "startModelSync env ms opts (sr_api s) = (r, w) \<Longrightarrow> syncStep env le lib A m seq s (s\<lparr>sr_api := w\<rparr>)"
| stop: "m \<notin> set ms \<Longrightarrow> stopModelSync env ms (sr_api s) = (r, w) \<Longrightarrow> syncStep env le lib A m seq s (s\<lparr>sr_api := w\<rparr>)"
| work: "hasJob (sy_queue (sr_api s)) i d \<Longrightarrow> syncHandler env le lib i d (sr_api s) = (r, w) \<Longrightarrow>
    syncStep env le lib A m seq s (s\<lparr>sr_api := w\<rparr>)"


definition processedBlock :: "sync_api \<Rightarrow> int option" where
  "processedBlock w = Option.bind (sy_table w) snd"




lemma setAdds_set: "set (foldl setAdd xs ys) = set xs \<union> set ys"
  by (induction ys arbitrary: xs) (auto simp: setAdd_def)





section \<open>What a worker has done\<close>

definition rebuiltIn :: "job_queue \<Rightarrow> codec_lib \<Rightarrow> anchor_proof \<Rightarrow> string list \<Rightarrow> bool" where
  "rebuiltIn q lib proof models \<longleftrightarrow> (\<exists>j \<in> set (jq_jobs q). qj_data j = nj_data (createRebuildAnchorJob lib proof models))"

definition dataOf :: "job_queue \<Rightarrow> nat \<Rightarrow> job_data option" where
  "dataOf q i = map_option qj_data (find (\<lambda>j. qj_id j = i) (jq_jobs q))"

lemma find_id:
  "distinct (map qj_id js) \<Longrightarrow> find (\<lambda>j. qj_id j = i) js = Some j \<longleftrightarrow> j \<in> set js \<and> qj_id j = i"
  by (induction js) auto

lemma dataOf_iff: "queueOk q \<Longrightarrow> dataOf q i = Some v \<longleftrightarrow> (\<exists>j \<in> set (jq_jobs q). qj_id j = i \<and> qj_data j = v)"
  unfolding dataOf_def queueOk_def by (auto simp: find_id)

lemma insertJobs_jobs:
  "\<exists>new. jq_jobs (foldl (\<lambda>q j. insertJob q (f j)) q js) = jq_jobs q @ new \<and> map qj_data new = map (\<lambda>j. nj_data (f j)) js"
proof (induction js arbitrary: q)
  case (Cons j js)
  from Cons.IH [of "insertJob q (f j)"] obtain new where
    "jq_jobs (foldl (\<lambda>q j. insertJob q (f j)) (insertJob q (f j)) js) = jq_jobs (insertJob q (f j)) @ new"
    "map qj_data new = map (\<lambda>j. nj_data (f j)) js" by blast
  then show ?case by (auto simp: insertJob_def)
qed simp

lemma filter_id: "distinct (map f xs) \<Longrightarrow> k \<in> set xs \<Longrightarrow> filter (\<lambda>x. f x = f k) xs = [k]"
  by (induction xs) (auto simp: filter_empty_conv image_iff)

text \<open>One set of proofs: either nothing but jobs has been added, or the set is done and the progress is noted.\<close>

lemma handleBlockSet_progress:
  assumes "handleBlockSet env lib i d p w = (r, w')" and ok: "queueOk (sy_queue w)" "hasJob (sy_queue w) i d"
  shows "(\<forall>x ms. rebuiltIn (sy_queue w) lib x ms \<longrightarrow> rebuiltIn (sy_queue w') lib x ms) \<and>
    (r \<noteq> Inr () \<and> dataOf (sy_queue w') i = dataOf (sy_queue w) i \<or>
     r = Inr () \<and> dataOf (sy_queue w') i = Some (SyncJob (d\<lparr>sj_currentBlock := Some (bp_blockNumber p + 1)\<rparr>)) \<and>
       (\<forall>x \<in> set (bp_proofs p). rebuiltIn (sy_queue w') lib x (sj_models d)))"
proof -
  let ?jobs = "map (\<lambda>proof. createRebuildAnchorJob lib proof (sj_models d)) (bp_proofs p)"
  let ?d = "d\<lparr>sj_currentBlock := Some (bp_blockNumber p + 1)\<rparr>"
  obtain r1 w1 where a: "whenE (bp_proofs p \<noteq> []) (onQueue (addJobs (se_sendFails env) ?jobs)) w = (r1, w1)" by (metis prod.exhaust)
  let ?q = "sy_queue w" and ?q1 = "sy_queue w1"
  have add: "r1 \<noteq> Inr () \<and> ?q1 = ?q \<or> r1 = Inr () \<and> (\<exists>new. jq_jobs ?q1 = jq_jobs ?q @ new \<and> map qj_data new = map nj_data ?jobs)"
  proof (cases "bp_proofs p = []")
    case True
    then show ?thesis using a by (auto simp: whenE_def ef_simps)
  next
    case False
    then obtain q1 where q1: "addJobs (se_sendFails env) ?jobs ?q = (r1, q1)" "w1 = w\<lparr>sy_queue := q1\<rparr>"
      using a by (auto simp: whenE_def onQueue_run)
    have "r1 \<noteq> Inr () \<longrightarrow> q1 = ?q"
      using q1(1) by (auto simp: addJobs_def bindE_def ef_simps throwIf_def split: option.splits if_splits)
    with q1 addJobs_result [OF q1(1)] insertJobs_jobs [of "\<lambda>j. j\<lparr>nj_options := None\<rparr>" ?q ?jobs] show ?thesis
      by (auto simp: comp_def)
  qed
  have g: "grows ?q ?q1" using a by (auto simp: whenE_def onQueue_run ef_simps split: if_splits dest: addJobs_result)
  show ?thesis
  proof (cases "r1 = Inr ()")
    case False
    then obtain e where "r1 = Inl e" by (cases r1) auto
    then have "r = Inl e" "w' = w1" using assms(1) a by (auto simp: handleBlockSet_def bindE_def)
    then show ?thesis using add False by simp
  next
    case True
    with add obtain new where new: "jq_jobs ?q1 = jq_jobs ?q @ new" "map qj_data new = map nj_data ?jobs" by blast
    from assms(1) a True have "onQueue (updateJob i (SyncJob ?d)) w1 = (r, w')" by (simp add: handleBlockSet_def bindE_def)
    then obtain q' where u: "updateJob i (SyncJob ?d) ?q1 = (r, q')" "w' = w1\<lparr>sy_queue := q'\<rparr>" by (auto simp: onQueue_run)
    have ok1: "queueOk ?q1" "hasJob ?q1 i d" using g ok grows_hasJob by (auto simp: grows_def)
    from ok1(2) obtain k dk where k: "k \<in> set (jq_jobs ?q1)" "qj_id k = i" "qj_data k = SyncJob dk" by (auto simp: hasJob_def)
    have one: "filter (\<lambda>j. qj_id j = i) (jq_jobs ?q1) = [k]"
      using filter_id [of qj_id "jq_jobs ?q1" k] ok1(1) k by (simp add: queueOk_def)
    then have r: "r = Inr ()" and q': "jq_jobs q' = map (\<lambda>j. if qj_id j = i then j\<lparr>qj_data := SyncJob ?d\<rparr> else j) (jq_jobs ?q1)"
      using u(1) by (auto simp: updateJob_def ef_simps)
    have same: "j \<in> set (jq_jobs q')" if "j \<in> set (jq_jobs ?q1)" "qj_data j = RebuildJob x" for j x
    proof -
      have "qj_id j \<noteq> i" using that k ok1(1) by (auto simp: queueOk_def distinct_map dest: inj_onD)
      then show ?thesis using that(1) by (force simp: q')
    qed
    have "queueOk q'" using updateJob_grows [OF u(1) ok1] ok1(1) by (simp add: sameRange_def grows_def)
    moreover have "k\<lparr>qj_data := SyncJob ?d\<rparr> \<in> set (jq_jobs q')" using k by (force simp: q')
    ultimately have "dataOf q' i = Some (SyncJob ?d)"
      using k by (auto simp: dataOf_iff intro!: bexI [of _ "k\<lparr>qj_data := SyncJob ?d\<rparr>"])
    moreover have "rebuiltIn q' lib x ms" if "rebuiltIn ?q lib x ms" for x ms
      using that same by (fastforce simp: rebuiltIn_def new(1) createRebuildAnchorJob_def)
    moreover have "rebuiltIn q' lib x (sj_models d)" if x: "x \<in> set (bp_proofs p)" for x
    proof -
      have "nj_data (createRebuildAnchorJob lib x (sj_models d)) \<in> qj_data ` set new"
        using new(2) x by (metis (no_types, lifting) image_eqI list.set_map map_map comp_apply)
      then obtain j where j: "j \<in> set new" "qj_data j = nj_data (createRebuildAnchorJob lib x (sj_models d))" by auto
      then have "j \<in> set (jq_jobs q')" by (intro same) (auto simp: new(1) createRebuildAnchorJob_def)
      then show ?thesis using j(2) by (auto simp: rebuiltIn_def)
    qed
    ultimately show ?thesis by (simp add: r u(2))
  qed
qed

lemma handleBlockSets_progress:
  assumes "forE (handleBlockSet env lib i d) ps w = (r, w')" and "queueOk (sy_queue w)" and "hasJob (sy_queue w) i d"
  shows "(\<forall>x ms. rebuiltIn (sy_queue w) lib x ms \<longrightarrow> rebuiltIn (sy_queue w') lib x ms) \<and>
    (\<exists>k \<le> length ps. (r = Inr () \<longrightarrow> k = length ps) \<and>
      (\<forall>p \<in> set (take k ps). \<forall>x \<in> set (bp_proofs p). rebuiltIn (sy_queue w') lib x (sj_models d)) \<and>
      dataOf (sy_queue w') i = (if k = 0 then dataOf (sy_queue w) i
        else Some (SyncJob (d\<lparr>sj_currentBlock := Some (bp_blockNumber (ps ! (k - 1)) + 1)\<rparr>))))"
  using assms
proof (induction ps arbitrary: w)
  case Nil
  then show ?case by (auto simp: ef_simps)
next
  case (Cons p ps)
  obtain r1 w1 where a: "handleBlockSet env lib i d p w = (r1, w1)" by (metis prod.exhaust)
  note g = handleBlockSet_progress [OF a Cons.prems(2,3)]
  show ?case
  proof (cases r1)
    case (Inl e)
    then have "r = Inl e" "w' = w1" using Cons.prems(1) a by (auto simp: bindE_def)
    with g Inl show ?thesis by (intro conjI exI [of _ 0]) auto
  next
    case (Inr u)
    then have f: "forE (handleBlockSet env lib i d) ps w1 = (r, w')" using Cons.prems(1) a by (simp add: bindE_def)
    have "queueOk (sy_queue w1)" "hasJob (sy_queue w1) i d"
      using handleBlockSet_result(1) [OF a Cons.prems(2,3)] Cons.prems(2,3) grows_hasJob by (auto simp: grows_def)
    from Cons.IH [OF f this] obtain k where k: "k \<le> length ps" "r = Inr () \<longrightarrow> k = length ps"
      "\<forall>p \<in> set (take k ps). \<forall>x \<in> set (bp_proofs p). rebuiltIn (sy_queue w') lib x (sj_models d)"
      "dataOf (sy_queue w') i = (if k = 0 then dataOf (sy_queue w1) i
        else Some (SyncJob (d\<lparr>sj_currentBlock := Some (bp_blockNumber (ps ! (k - 1)) + 1)\<rparr>)))"
      and mono: "\<forall>x ms. rebuiltIn (sy_queue w1) lib x ms \<longrightarrow> rebuiltIn (sy_queue w') lib x ms" by blast
    show ?thesis
    proof (intro conjI exI [of _ "Suc k"])
      show "\<forall>q \<in> set (take (Suc k) (p # ps)). \<forall>x \<in> set (bp_proofs q). rebuiltIn (sy_queue w') lib x (sj_models d)"
        using g Inr k(3) mono by auto
      show "dataOf (sy_queue w') i = (if Suc k = 0 then dataOf (sy_queue w) i
        else Some (SyncJob (d\<lparr>sj_currentBlock := Some (bp_blockNumber ((p # ps) ! (Suc k - 1)) + 1)\<rparr>)))"
        using g Inr k(4) by (cases k) auto
    qed (use g Inr mono k in auto)
  qed
qed

text \<open>The sets a loader has given when it stops at an error are those of a first part of the range.\<close>

lemma concatMapS_prefix: "concatMapS f xs = (ys, e) \<Longrightarrow> \<exists>k \<le> length xs. mapR f (take k xs) = Inr ys \<and> (e = None \<longrightarrow> k = length xs)"
proof (induction xs arbitrary: ys e)
  case (Cons x xs)
  obtain zs e' where z: "concatMapS f xs = (zs, e')" by (cases "concatMapS f xs")
  show ?case
  proof (cases "f x")
    case (Inl a)
    then show ?thesis using Cons.prems by (intro exI [of _ 0]) auto
  next
    case (Inr y)
    from Cons.IH [OF z] obtain k where "k \<le> length xs" "mapR f (take k xs) = Inr zs" "e' = None \<longrightarrow> k = length xs" by blast
    then show ?thesis using Cons.prems Inr z by (intro exI [of _ "Suc k"]) (auto simp: bindR_Inr_iff)
  qed
qed auto

lemma batches_prefix:
  assumes h: "honest le logs chain"
  shows "mapR (\<lambda>(a, b). loadBlockProofsForRange le a b) (take j (rangeBatches k x n)) = Inr rss \<Longrightarrow>
    \<exists>y. x - 1 \<le> y \<and> exactRange le logs x y (concat rss) \<and> (length (rangeBatches k x n) \<le> j \<longrightarrow> y = x + int n - 1) \<and>
      y \<le> x + int n - 1"
proof (induction k x n arbitrary: rss j rule: rangeBatches.induct)
  case (1 k x)
  then show ?case by (intro exI [of _ "x - 1"]) (simp add: exactRange_def)
next
  case (2 k x n)
  let ?k = "min (max k 1) (Suc n)"
  have k: "0 < ?k" "?k \<le> Suc n" by auto
  let ?rest = "rangeBatches k (x + int ?k) (Suc n - ?k)"
  have bs: "rangeBatches k x (Suc n) = (x, x + int ?k - 1) # ?rest" unfolding rangeBatches.simps Let_def ..
  show ?case
  proof (cases j)
    case 0
    then show ?thesis using 2(2) bs by (intro exI [of _ "x - 1"]) (auto simp: exactRange_def)
  next
    case (Suc j')
    from 2(2) obtain r rs where r: "loadBlockProofsForRange le x (x + int ?k - 1) = Inr r" and rss: "rss = r # rs"
      and rs: "mapR (\<lambda>(a, b). loadBlockProofsForRange le a b) (take j' ?rest) = Inr rs"
      unfolding bs Suc by (auto simp: bindR_Inr_iff simp del: rangeBatches.simps)
    from "2.IH" [OF refl rs] obtain y where y: "x + int ?k - 1 \<le> y" "exactRange le logs (x + int ?k) y (concat rs)"
      "length ?rest \<le> j' \<longrightarrow> y = x + int (Suc n) - 1" "y \<le> x + int (Suc n) - 1"
      using k by (auto simp: of_nat_diff algebra_simps)
    have "exactRange le logs x y (r @ concat rs)"
      using exactRange_append [of le logs x "x + int ?k - 1" r y "concat rs"] exactRange_load [OF h _ r] y(1,2) k by simp
    then show ?thesis using y k by (intro exI [of _ y]) (simp add: rss bs Suc del: rangeBatches.simps)
  qed
qed

lemma loader_prefix:
  assumes "honest le logs chain" and "createBlocksProofsLoader le buf a b = (ps, e)" and "a \<le> b"
  shows "\<exists>y. exactRange le logs a y ps \<and> y \<le> b \<and> (e = None \<longrightarrow> y = b)"
proof -
  let ?bs = "rangeBatches (case buf of Some b \<Rightarrow> b | None \<Rightarrow> GET_LOGS_BATCH_SIZE) a (nat (b - a + 1))"
  obtain rss where c: "concatMapS (\<lambda>(a, b). loadBlockProofsForRange le a b) ?bs = (rss, e)" and ps: "ps = concat rss"
    using assms(2) by (cases "concatMapS (\<lambda>(a, b). loadBlockProofsForRange le a b) ?bs") (simp add: createBlocksProofsLoader_def Let_def)
  from concatMapS_prefix [OF c] obtain k where k: "k \<le> length ?bs"
    "mapR (\<lambda>(a, b). loadBlockProofsForRange le a b) (take k ?bs) = Inr rss" "e = None \<longrightarrow> k = length ?bs" by blast
  from batches_prefix [OF assms(1) k(2)] obtain y where "exactRange le logs a y (concat rss)"
    "length ?bs \<le> k \<longrightarrow> y = a + int (nat (b - a + 1)) - 1" "y \<le> a + int (nat (b - a + 1)) - 1" by blast
  then show ?thesis using k(3) assms(3) by (intro exI [of _ y]) (auto simp: ps)
qed

text \<open>In a list of sets in order, the block of a log that is not above the last set taken has been taken.\<close>

lemma taken_set:
  assumes "sorted_wrt (<) (map bp_blockNumber ps)" and "p \<in> set ps" and "0 < k" and "k \<le> length ps"
    and "bp_blockNumber p \<le> bp_blockNumber (ps ! (k - 1))"
  shows "p \<in> set (take k ps)"
proof -
  from assms(2) obtain i where i: "i < length ps" "ps ! i = p" by (auto simp: in_set_conv_nth)
  have "\<not> k - 1 < i"
    using sorted_wrt_nth_less [OF assms(1), of "k - 1" i] assms(5) i by auto
  then have "i < k" using assms(3) by simp
  then show ?thesis using i by (auto simp: in_set_conv_nth intro!: exI [of _ i])
qed

lemma mapR_in: "mapR f xs = Inr ys \<Longrightarrow> x \<in> set xs \<Longrightarrow> \<exists>y \<in> set ys. f x = Inr y"
  by (induction xs arbitrary: ys) (auto simp: bindR_Inr_iff)

section \<open>After a restart\<close>

definition namesNoModel :: "sync_api \<Rightarrow> bool" where
  "namesNoModel w \<longleftrightarrow> set (sy_modelsToSync w) \<subseteq> {objectText}"

interpretation nameless: later_states namesNoModel "\<lambda>_ _. True"
  by unfold_locales auto

lemma nameless_addSyncJob: "nameless.safely (\<lambda>_. True) (addSyncJob env t d) (\<lambda>_ _. True)"
  by (rule keepsI) (metis addSyncJob_result(2) namesNoModel_def prod.collapse)

lemma nameless_init: "nameless.safely (\<lambda>_. True) (syncInit env) (\<lambda>_ _. True)"
proof -
  have table: "nameless.safely (\<lambda>_. True) initStateTable (\<lambda>_ _. True)"
    by (rule keepsI) (auto simp: initStateTable_def namesNoModel_def split: option.splits)
  have models: "namesNoModel (initModelsToSync env w)" if "namesNoModel w" for w
    using that by (auto simp: namesNoModel_def initModelsToSync_def setAdds_set)
  have block: "nameless.safely (\<lambda>_. True) (\<lambda>w. liftE (se_getBlock env w tag) w) (\<lambda>_ _. True)" for tag
    by (rule keepsI) (simp add: ef_simps)
  have any: "nameless.safely (\<lambda>_. True) (modifyE f) (\<lambda>_ _. True)" if "\<And>w. namesNoModel w \<Longrightarrow> namesNoModel (f w)" for f
    by (rule nameless.safely_modify) (simp add: that)
  have prod: "nameless.safely (\<lambda>_. True) (case x of (a, b) \<Rightarrow> f a b) (\<lambda>_ _. True)"
    if "\<And>a b. nameless.safely (\<lambda>_. True) (f a b) (\<lambda>_ _. True)" for x and f :: "_ \<Rightarrow> _ \<Rightarrow> unit sync"
    using that by (cases x) simp
  have opt: "nameless.safely (\<lambda>_. True) (case x of None \<Rightarrow> m | Some a \<Rightarrow> f a) (\<lambda>_ _. True)"
    if "nameless.safely (\<lambda>_. True) m (\<lambda>_ _. True)" "\<And>a. nameless.safely (\<lambda>_. True) (f a) (\<lambda>_ _. True)"
    for x and m :: "unit sync" and f
    using that by (cases x) simp_all
  show ?thesis unfolding syncInit_def Let_def
    by (intro nameless.safely_if nameless.safely_return nameless.safely_bind [where R = "\<lambda>_ _. True"] nameless.safely_lift
        table any block nameless.safely_get prod opt nameless_addSyncJob)
      (simp_all add: models, simp_all add: namesNoModel_def)
qed

lemma objectText_no_streamID:
  assumes "codec_lib_ok lib"
  shows "streamIDToString lib sid \<noteq> objectText"
proof
  assume "streamIDToString lib sid = objectText"
  moreover have "\<forall>c \<in> set (streamIDToString lib sid). isAlnum c"
    using assms by (simp add: streamIDToString_def codec_lib_ok_def)
  moreover have "\<not> (\<forall>c \<in> set objectText. isAlnum c)" by code_simp
  ultimately show False by simp
qed

lemma rebuildTask_nameless:
  assumes "codec_lib_ok (rb_lib rb)" and "set (rj_models rd) \<subseteq> {objectText}"
  shows "snd (rebuildTask rb rd rootCid proofCid n stream i x) = x"
proof -
  have "\<not> (\<exists>t \<in> set (rj_models rd). t = streamIDToString (rb_lib rb) m)" for m
    using assms objectText_no_streamID by (auto dest: subsetD)
  then show ?thesis
    by (simp add: rebuildTask_def bindE_def ef_simps split: prod.split sum.split option.split)
qed

lemma rebuildHandler_nameless:
  assumes "codec_lib_ok (rb_lib rb)" and "set (rj_models rd) \<subseteq> {objectText}"
  shows "snd (rebuildHandler rb rd x) = x"
proof -
  have loop: "snd (forE (\<lambda>(i, stream). catchE (rebuildTask rb rd c p n stream i) (\<lambda>_. returnE ())) xs x) = x" for c p n xs
  proof (induction xs)
    case (Cons y ys)
    obtain i stream where y: "y = (i, stream)" by (cases y)
    obtain r where "rebuildTask rb rd c p n stream i x = (r, x)"
      using rebuildTask_nameless [OF assms, of c p n stream i x] by (metis prod.collapse)
    then show ?case using Cons.IH by (cases r) (simp_all add: y bindE_def catchE_def ef_simps)
  qed (simp add: ef_simps)
  show ?thesis unfolding rebuildHandler_def
    by (auto simp: bindE_def ef_simps loop split: sum.split)
qed

section \<open>Rebuilt anchors\<close>

text \<open>
  \<open>treeStored rb read rootCid\<close>: below the root, IPFS resolves a path of directions to the record of the node it leads to.
\<close>

definition treeStored :: "'w rebuild_env \<Rightarrow> (cid \<Rightarrow> js) \<Rightarrow> cid \<Rightarrow> bool" where
  "treeStored rb read rootCid \<longleftrightarrow> (\<forall>path c. resolveDag read rootCid path = Some c \<longrightarrow>
     rb_retrieveFromIPFS rb rootCid (pathString path) = Inr (read c))"

lemma jsFields_index:
  "map_of (jsFields (Arr xs)) (directionString d) = Some v \<Longrightarrow> jsIndex (Arr xs) (directionIndex d) = Inr v"
proof -
  assume v: "map_of (jsFields (Arr xs)) (directionString d) = Some v"
  show ?thesis
  proof (cases xs)
    case (Cons x ys)
    show ?thesis
    proof (cases ys)
      case Nil
      then show ?thesis using v Cons by (cases d) (simp_all add: directionString_def natStr_0)
    next
      case (Cons y zs)
      then show ?thesis using v \<open>xs = x # ys\<close> jsFields_pair [of x y zs d] by (cases d) simp_all
    qed
  qed (use v in simp)
qed

lemma getLeafData_built:
  assumes read: "\<And>r c. storeRecord r = Inr c \<Longrightarrow> read c = r" and b: "buildTree (ipfsMerge storeRecord) cmp mf limit tips = Inr t"
    and i: "i < length tips" and stored: "treeStored rb read (mn_data (mt_heap t ! mt_root t))"
  obtains path where "getLeafData rb (mn_data (mt_heap t ! mt_root t)) (length tips) i = Inr (CidV (tips ! (mt_leaves t ! i)), path)"
    "path \<noteq> []" "getDirectPathFromRoot t i = Some (Inr path)"
    "resolveDag read (mn_data (mt_heap t ! mt_root t)) path = Some (tips ! (mt_leaves t ! i))"
proof -
  let ?rootCid = "mn_data (mt_heap t ! mt_root t)"
  obtain path where path: "getDirectPathFromRoot t i = Some (Inr path)" "path \<noteq> []"
    "resolveDag read ?rootCid path = Some (tips ! (mt_leaves t ! i))"
    by (rule resolve_direct_path [OF read b i])
  have idx: "pathByIndex i (length tips) = Inr path" using direct_path_by_index [OF b i] path(1) by auto
  from path(2) obtain p d where pd: "path = p @ [d]" by (metis rev_exhaust)
  from path(3) [unfolded pd resolveDag_append] obtain c' where c': "resolveDag read ?rootCid p = Some c'"
    "resolveDag read c' [d] = Some (tips ! (mt_leaves t ! i))" by (auto split: option.splits)
  from c'(2) obtain xs where xs: "read c' = Arr xs" "map_of (jsFields (Arr xs)) (directionString d) = Some (CidV (tips ! (mt_leaves t ! i)))"
    by (auto split: js.splits option.splits)
  have "rb_retrieveFromIPFS rb ?rootCid (pathString p) = Inr (Arr xs)"
    using stored c'(1) xs(1) by (simp add: treeStored_def)
  then have "getLeafData rb ?rootCid (length tips) i = Inr (CidV (tips ! (mt_leaves t ! i)), path)"
    using jsFields_index [OF xs(2)] by (simp add: getLeafData_def idx pd del: jsIndex.simps)
  with that path show thesis by blast
qed

section \<open>A sample\<close>

definition sampleSync :: sync_env where
  "sampleSync = \<lparr>se_on = True, se_chainIdNumber = Inr 1337,
     se_getBlock = (\<lambda>_ tag. Inr (sampleChain (case tag of ByNumber n \<Rightarrow> if n < 0 then 30 + n else n | ByHash h \<Rightarrow> fromUnary h | Latest \<Rightarrow> 30))),
     se_indexedModels = 1, se_sendFails = (\<lambda>_. None)\<rparr>"

text \<open>The object of a node that has just started, with the table and the queue that the database has kept.\<close>

definition restarted :: "sync_api \<Rightarrow> sync_api" where
  "restarted w = \<lparr>sy_modelsToSync = [], sy_modelsToHistoricSync = [], sy_table = sy_table w, sy_queue = sy_queue w,
     sy_chainId = [], sy_defaultStartBlock = 0, sy_currentBlock = None, sy_startBlock = None, sy_subscribed = None\<rparr>"

definition newSync :: sync_api where
  "newSync = restarted \<lparr>sy_modelsToSync = [], sy_modelsToHistoricSync = [], sy_table = Some (None, None),
     sy_queue = \<lparr>jq_jobs = [], jq_names = [REBUILD_ANCHOR_JOB, HISTORY_SYNC_JOB, CONTINUOUS_SYNC_JOB], jq_nextId = 0\<rparr>,
     sy_chainId = [], sy_defaultStartBlock = 0, sy_currentBlock = None, sy_startBlock = None, sy_subscribed = None\<rparr>"

definition sampleOptions :: model_sync_options where
  "sampleOptions = \<lparr>ms_startBlock = None, ms_endBlock = None\<rparr>"

definition startedSync :: sync_api where
  "startedSync = snd (startModelSync sampleSync [''m''] sampleOptions newSync)"

definition startedRun :: sync_run where
  "startedRun = \<lparr>sr_api = startedSync, sr_pending = [], sr_last = 10, sr_open = True\<rparr>"


section \<open>Properties\<close>


definition afterBlock :: "int \<Rightarrow> sync_api \<Rightarrow> sync_api" where
  "afterBlock n w = snd (handleBlockProofs sampleSync (sampleChain n) False w)"

lemma one_block:
  assumes "follows A (sr_last s) (sampleChain n) False" and "sr_open s" and "seq \<longrightarrow> sr_pending s = []"
    and "fst (handleBlockProofs sampleSync (sampleChain n) False (sr_api s)) = Inr ()"
  shows "(syncStep sampleSync le lib A m seq)\<^sup>*\<^sup>* s (s\<lparr>sr_api := afterBlock n (sr_api s), sr_last := n\<rparr>)"
proof -
  let ?b = "sampleChain n" and ?w = "(sr_api s)\<lparr>sy_currentBlock := Some n\<rparr>"
  obtain t d where job: "blockJob (sr_api s) ?b False = (t, d)" by (metis prod.exhaust)
  have num: "cb_number ?b = n" by (simp add: sampleChain_def)
  have job': "blockJob ?w ?b False = (t, d)" using job by (simp add: blockJob_def)
  have run: "handleBlockProofs sampleSync ?b False (sr_api s) =
      bindE (addSyncJob sampleSync t d) (\<lambda>_. updateStoredState (cb_hash ?b) n) ?w"
    by (simp add: handleBlockProofs_def num job')
  obtain r w1 where a: "addSyncJob sampleSync t d ?w = (r, w1)" by (metis prod.exhaust)
  with assms(4) run have r: "r = Inr ()" by (cases r) (auto simp: bindE_def)
  obtain w2 where u: "updateStoredState (cb_hash ?b) (cb_number ?b) w1 = (Inr (), w2)" by (simp add: updateStoredState_def ef_simps)
  have w2: "afterBlock n (sr_api s) = w2" using run a r u by (simp add: afterBlock_def bindE_def num)
  let ?s1 = "s\<lparr>sr_api := ?w, sr_pending := sr_pending s @ [(?b, t, d, False)], sr_last := n\<rparr>"
  let ?s2 = "?s1\<lparr>sr_api := w1, sr_pending := sr_pending s @ [(?b, t, d, True)]\<rparr>"
  have "syncStep sampleSync le lib A m seq s ?s1"
    using syncStep.arrive [of s seq A ?b False t d sampleSync le lib m] assms job by (simp add: num)
  moreover have "syncStep sampleSync le lib A m seq ?s1 ?s2"
    using syncStep.sent [of ?s1 "sr_pending s" ?b t d "[]" sampleSync w1 le lib A m seq] a r by simp
  moreover have "syncStep sampleSync le lib A m seq ?s2 (s\<lparr>sr_api := w2, sr_last := n\<rparr>)"
    using syncStep.stored [of ?s2 "sr_pending s" ?b t d "[]" "Inr ()" w2 sampleSync le lib A m seq] u by (cases s) simp
  ultimately show ?thesis unfolding w2 by (meson converse_rtranclp_into_rtranclp r_into_rtranclp)
qed


text \<open>
  The listener of the source does not wait: it handles the blocks that arrive concurrently. Then the block 12 can be stored
  as processed while the job of block 11 has not been sent, and when the node stops at that moment, the block 11 is
  not in the range of any job after the restart either.
\<close>

theorem overlap_loses_block:
  "\<exists>s w. (syncStep sampleSync le lib {11} ''m'' False)\<^sup>*\<^sup>* startedRun s \<and> processedBlock (sr_api s) = Some 12 \<and>
     syncInit sampleSync (restarted (sr_api s)) = (Inr (), w) \<and> (\<forall>m. \<not> covered w 11 m)"
proof -
  let ?w1 = "startedSync\<lparr>sy_currentBlock := Some 11\<rparr>"
  obtain t d where job: "blockJob startedSync (sampleChain 11) False = (t, d)" by (metis prod.exhaust)
  let ?s1 = "startedRun\<lparr>sr_api := ?w1, sr_pending := [(sampleChain 11, t, d, False)], sr_last := 11\<rparr>"
  let ?s2 = "?s1\<lparr>sr_api := afterBlock 12 ?w1, sr_last := 12\<rparr>"
  let ?init = "syncInit sampleSync (restarted (afterBlock 12 ?w1))"
  let ?range = "\<lambda>j. case qj_data j of SyncJob d \<Rightarrow> (sj_fromBlock d, sj_toBlock d) | RebuildJob _ \<Rightarrow> (0, 0)"
  have ok: "fst (handleBlockProofs sampleSync (sampleChain 12) False ?w1) = Inr () \<and> processedBlock (afterBlock 12 ?w1) = Some 12 \<and>
      fst ?init = Inr () \<and> map ?range (jq_jobs (sy_queue (snd ?init))) = [(0, 10), (12, 12)]"
    by code_simp
  have "syncStep sampleSync le lib {11} ''m'' False startedRun ?s1"
    using syncStep.arrive [of startedRun False "{11}" "sampleChain 11" False t d sampleSync le lib "''m''"] job
    by (simp add: startedRun_def follows_def sampleChain_def)
  moreover have "(syncStep sampleSync le lib {11} ''m'' False)\<^sup>*\<^sup>* ?s1 ?s2"
    using one_block [of "{11}" ?s1 12 False] ok by (simp add: startedRun_def follows_def sampleChain_def)
  moreover have "\<not> covered (snd ?init) 11 m" for m
  proof
    assume "covered (snd ?init) 11 m"
    then obtain j d where j: "j \<in> set (jq_jobs (sy_queue (snd ?init)))" "qj_data j = SyncJob d" "covers d 11 m"
      by (auto simp: covered_def)
    then have "(sj_fromBlock d, sj_toBlock d) \<in> set (map ?range (jq_jobs (sy_queue (snd ?init))))" by force
    then show False using j(3) ok by (auto simp: covers_def)
  qed
  ultimately show ?thesis
    using ok by (intro exI [of _ ?s2] exI [of _ "snd ?init"]) (auto simp: prod_eq_iff intro: converse_rtranclp_into_rtranclp)
qed

text \<open>
  After a restart no model is synchronised. The models to synchronise are read from the index as the texts of objects, which
  all are the same and no StreamID: whatever the index lists, the jobs that a restarted node makes for its blocks name
  no model, and a worker that rebuilds anchors for such a job does nothing.
\<close>

theorem restart_forgets_models:
  assumes "syncInit env (restarted v) = (r, w)" and "codec_lib_ok (rb_lib rb)" and "blockJob w b reorg = (t, d)"
    and "set (rj_models rd) \<subseteq> set (sj_models d)"
  shows "set (sy_modelsToSync w) \<subseteq> {objectText} \<and> snd (rebuildHandler rb rd x) = x"
proof -
  have "namesNoModel (restarted v)" by (simp add: namesNoModel_def restarted_def)
  with keepsD(1) [OF nameless_init _ _ assms(1)] have w: "set (sy_modelsToSync w) \<subseteq> {objectText}" by (simp add: namesNoModel_def)
  have "sj_models d = sy_modelsToSync w" using assms(3) by (auto simp: blockJob_def split: if_splits)
  with w assms(4) rebuildHandler_nameless [OF assms(2), of rd x] show ?thesis by auto
qed

theorem restart_forgets_models_witness:
  "\<exists>w. syncInit sampleSync (restarted startedSync) = (Inr (), w) \<and> sy_modelsToSync startedSync = [''m''] \<and>
     set (sy_modelsToSync w) \<subseteq> {objectText}"
proof -
  have "fst (syncInit sampleSync (restarted startedSync)) = Inr () \<and> sy_modelsToSync startedSync = [''m'']" by code_simp
  then obtain w where w: "syncInit sampleSync (restarted startedSync) = (Inr (), w)" "sy_modelsToSync startedSync = [''m'']"
    by (metis prod.collapse)
  obtain t d where "blockJob w (sampleChain 11) False = (t, d)" by (metis prod.exhaust)
  from restart_forgets_models [OF w(1) _ this, of
      "\<lparr>rb_lib = sampleLib, rb_parseCid = \<lambda>_. Inl TypeErr, rb_storeRecord = \<lambda>_. Inl TypeErr, rb_retrieveFromIPFS = \<lambda>_ _. Inl TypeErr,
         rb_retrieveCommit = \<lambda>_ _. Inl TypeErr, rb_storeEvent = \<lambda>_ _. Inl TypeErr, rb_streamIDOfBytes = \<lambda>_. Inl TypeErr,
         rb_handleCommit = \<lambda>_ _ _. returnE ()\<rparr>"
      "\<lparr>rj_models = [], rj_chainId = [], rj_txHash = [], rj_root = [], rj_txType = None\<rparr>" "()"] w sampleLib_ok
  show ?thesis by auto
qed

text \<open>
  A sync that starts above the last confirmed block never ends. Its job has an empty range, on which the worker
  always throws; so the model counts as not complete until the node is restarted.
\<close>

theorem empty_range_fails:
  assumes "sj_toBlock d < currentOf d"
  shows "syncHandler env le lib i d w = (Inl (Err ''no elements in sequence''), w)"
  using assms by (simp add: syncHandler_def createBlocksProofsLoader_def bindE_def ef_simps throwIf_def)

theorem empty_range_fails_witness:
  "syncHandler sampleSync (sampleListener []) sampleLib 0
     \<lparr>sj_currentBlock = Some 12, sj_jobType = Full, sj_fromBlock = 5, sj_toBlock = 11, sj_models = [''m'']\<rparr> newSync =
     (Inl (Err ''no elements in sequence''), newSync)"
  by (rule empty_range_fails) (simp add: currentOf_def)

text \<open>
  C34: A worker loses no anchor. Whatever happens to it, an error of the provider, of the queue or none: every log of
  the range below the block it has noted as its progress has a job that rebuilds its anchors, so that it can go on from
  there; and when it ends without an error, every log of the range has one. The numbers of the range have the same
  number of digits.
\<close>

theorem sync_progress_safe:
  assumes "honest le logs chain" and "syncHandler env le lib i d w = (r, w')" and "queueOk (sy_queue w)"
    and "dataOf (sy_queue w) i = Some (SyncJob d)" and "dataOf (sy_queue w') i = Some (SyncJob d')"
    and "sameDigits (currentOf d) (sj_toBlock d)" and "l \<in> set logs" and "currentOf d \<le> lg_blockNumber l"
    and "lg_blockNumber l \<le> sj_toBlock d" and "lg_blockNumber l < currentOf d' \<or> r = Inr ()"
  shows "\<exists>x. createAnchorProof le l = Inr x \<and> rebuiltIn (sy_queue w') lib x (sj_models d)"
proof -
  obtain sets e where load: "createBlocksProofsLoader le None (currentOf d) (sj_toBlock d) = (sets, e)" by (metis prod.exhaust)
  from loader_prefix [OF assms(1) load] assms(8,9) obtain y where y: "exactRange le logs (currentOf d) y sets"
    "y \<le> sj_toBlock d" "e = None \<longrightarrow> y = sj_toBlock d" by force
  have sorted: "sorted_wrt (<) (map bp_blockNumber sets)"
    using y(1,2) sameDigits_sub [OF assms(6) order_refl y(2)] by (simp add: exactRange_def)
  have job: "hasJob (sy_queue w) i d"
    using assms(3,4) by (auto simp: dataOf_iff hasJob_def sameRange_def)
  obtain r1 w1 where loop: "forE (handleBlockSet env lib i d) sets w = (r1, w1)" by (metis prod.exhaust)
  have fin: "sy_queue w' = sy_queue w1" "r = Inr () \<longrightarrow> r1 = Inr () \<and> e = None"
    using assms(2) loop by (auto simp: syncHandler_def load bindE_def throwIf_def ef_simps completions_fields split: sum.splits if_splits)
  from handleBlockSets_progress [OF loop assms(3) job] obtain k where k: "k \<le> length sets" "r1 = Inr () \<longrightarrow> k = length sets"
    "\<forall>p \<in> set (take k sets). \<forall>x \<in> set (bp_proofs p). rebuiltIn (sy_queue w1) lib x (sj_models d)"
    "dataOf (sy_queue w1) i = (if k = 0 then dataOf (sy_queue w) i
        else Some (SyncJob (d\<lparr>sj_currentBlock := Some (bp_blockNumber (sets ! (k - 1)) + 1)\<rparr>)))" by blast
  have "\<exists>p \<in> set (take k sets). bp_blockNumber p = lg_blockNumber l"
  proof (cases "r = Inr ()")
    case True
    then have "lg_blockNumber l \<in> bp_blockNumber ` set sets" using y assms(7-9) fin by (simp add: exactRange_def)
    then show ?thesis using True fin k(2) by auto
  next
    case False
    then have lt: "lg_blockNumber l < currentOf d'" using assms(10) by simp
    have "k \<noteq> 0" using lt k(4) assms(4,5,8) fin by (cases k) auto
    let ?last = "sets ! (k - 1)"
    have d': "d' = d\<lparr>sj_currentBlock := Some (bp_blockNumber ?last + 1)\<rparr>" using k(4) assms(5) fin \<open>k \<noteq> 0\<close> by simp
    have last: "?last \<in> set sets" using k(1) \<open>k \<noteq> 0\<close> by simp
    then have "currentOf d \<le> bp_blockNumber ?last" "bp_blockNumber ?last \<le> y" using y(1) by (auto simp: exactRange_def)
    moreover have "0 \<le> currentOf d" using assms(6) by (simp add: sameDigits_def)
    ultimately have le: "lg_blockNumber l \<le> bp_blockNumber ?last" "bp_blockNumber ?last \<le> y"
      using lt by (simp_all add: d' currentOf_def split: if_splits)
    then have "lg_blockNumber l \<in> bp_blockNumber ` set sets" using y(1) assms(7,8) by (auto simp: exactRange_def)
    then obtain p where "p \<in> set sets" "bp_blockNumber p = lg_blockNumber l" by auto
    with taken_set [OF sorted this(1) _ k(1)] le \<open>k \<noteq> 0\<close> show ?thesis by auto
  qed
  then obtain p where p: "p \<in> set (take k sets)" "bp_blockNumber p = lg_blockNumber l" by blast
  then have "exactProofs le logs p" using y(1) by (auto simp: exactRange_def dest: in_set_takeD)
  then have "\<exists>x \<in> set (bp_proofs p). createAnchorProof le l = Inr x"
    unfolding exactProofs_def using assms(7) p(2) by (auto dest: mapR_in)
  then show ?thesis using k(3) p(1) fin(1) by auto
qed

definition sampleJob :: sync_job_data where
  "sampleJob = \<lparr>sj_currentBlock = None, sj_jobType = Full, sj_fromBlock = 4, sj_toBlock = 6, sj_models = [''m'']\<rparr>"

definition queuedSync :: sync_api where
  "queuedSync = newSync\<lparr>sy_queue := insertJob (sy_queue newSync) (createSyncJob HISTORY_SYNC_JOB sampleJob)\<rparr>"

theorem sync_progress_safe_witness:
  "\<exists>w' x. syncHandler sampleSync (sampleListener [sampleLog 5]) sampleLib 0 sampleJob queuedSync = (Inr (), w') \<and>
     createAnchorProof (sampleListener [sampleLog 5]) (sampleLog 5) = Inr x \<and> rebuiltIn (sy_queue w') sampleLib x [''m'']"
proof -
  let ?run = "syncHandler sampleSync (sampleListener [sampleLog 5]) sampleLib 0 sampleJob queuedSync"
  have ok: "fst ?run = Inr () \<and> dataOf (sy_queue queuedSync) 0 = Some (SyncJob sampleJob) \<and>
      dataOf (sy_queue (snd ?run)) 0 = Some (SyncJob (sampleJob\<lparr>sj_currentBlock := Some 7\<rparr>))"
    by code_simp
  have digits: "\<exists>k. \<forall>n \<in> {4..6}. length (numberText n) = k"
  proof -
    have "length (numberText 4) = 1 \<and> length (numberText 5) = 1 \<and> length (numberText 6) = 1" by code_simp
    moreover have "{4..6::int} = {4, 5, 6}" by auto
    ultimately show ?thesis by (intro exI [of _ 1]) simp
  qed
  have "\<exists>x. createAnchorProof (sampleListener [sampleLog 5]) (sampleLog 5) = Inr x \<and>
      rebuiltIn (sy_queue (snd ?run)) sampleLib x (sj_models sampleJob)"
  proof (rule sync_progress_safe [OF faithful_honest [OF sampleListener_faithful] _ _ conjunct1 [OF conjunct2 [OF ok]]
        conjunct2 [OF conjunct2 [OF ok]]])
    show "?run = (Inr (), snd ?run)" using ok by (simp add: prod_eq_iff)
    show "queueOk (sy_queue queuedSync)"
      by (simp add: queueOk_def queuedSync_def insertJob_def newSync_def restarted_def)
    show "sameDigits (currentOf sampleJob) (sj_toBlock sampleJob)"
      using digits by (simp add: sameDigits_def currentOf_def sampleJob_def)
  qed (simp_all add: sampleLog_def currentOf_def sampleJob_def)
  then show ?thesis using ok by (auto simp: prod_eq_iff sampleJob_def)
qed

text \<open>
  C36: The anchor commits that the worker rebuilds are those of the anchor service. For a Merkle tree built by the factory and
  stored in IPFS, the commit rebuilt for leaf number \<open>i\<close> points back to the tip that was anchored there, and
  a node that validates it arrives at this tip, so that only the look-up on the chain is left.
\<close>

theorem rebuilt_anchor_verifies:
  assumes "\<And>r c. storeRecord r = Inr c \<Longrightarrow> read c = r" and "buildTree (ipfsMerge storeRecord) cmp mf limit tips = Inr t"
    and "i < length tips" and "treeStored rb read (mn_data (mt_heap t ! mt_root t))"
    and "ipldPaths ld read (CidV proofCid) (mn_data (mt_heap t ! mt_root t))"
    and "getLeafData rb (mn_data (mt_heap t ! mt_root t)) (length tips) i = Inr (prev, path)"
    and "cd_commit cd = anchorCommitOf sid prev proofCid path"
  shows "prev = CidV (tips ! (mt_leaves t ! i)) \<and> verifyAnchorCommit ld cd = ld_validateChainInclusion ld (cd_proof cd)"
proof -
  obtain p where p: "getLeafData rb (mn_data (mt_heap t ! mt_root t)) (length tips) i = Inr (CidV (tips ! (mt_leaves t ! i)), p)"
    "p \<noteq> []" "resolveDag read (mn_data (mt_heap t ! mt_root t)) p = Some (tips ! (mt_leaves t ! i))"
    by (rule getLeafData_built [OF assms(1-4)])
  with assms(6) have eq: "prev = CidV (tips ! (mt_leaves t ! i))" "path = p" by simp_all
  from anchorPrev_resolves [OF assms(5) p(2,3)] show ?thesis
    by (simp add: eq verifyAnchorCommit_def assms(7) anchorCommitOf_def)
qed

definition sampleRebuild :: "unit rebuild_env" where
  "sampleRebuild = \<lparr>rb_lib = sampleLib, rb_parseCid = \<lambda>_. Inl TypeErr, rb_storeRecord = \<lambda>_. Inl TypeErr,
     rb_retrieveFromIPFS = \<lambda>_ path. (case map_of [([], CID [200]), (''0'', CID [1]), (''1'', CID [201]), (''1/0'', CID [2]), (''1/1'', CID [3])] path of
        Some c \<Rightarrow> Inr (sampleRead c) | None \<Rightarrow> Inl TypeErr),
     rb_retrieveCommit = \<lambda>_ _. Inl TypeErr, rb_storeEvent = \<lambda>_ _. Inl TypeErr, rb_streamIDOfBytes = \<lambda>_. Inl TypeErr,
     rb_handleCommit = \<lambda>_ _ _. returnE ()\<rparr>"

lemma sampleRebuild_stored: "treeStored sampleRebuild sampleRead (CID [200])"
proof -
  have "rb_retrieveFromIPFS sampleRebuild (CID [200]) (pathString path) = Inr (sampleRead c)"
    if "resolveDag sampleRead (CID [200]) path = Some c" for path c
    using sample_resolve [OF that] by (auto simp: sampleRebuild_def pathString_def directionString_def)
  then show ?thesis by (simp add: treeStored_def)
qed

theorem rebuilt_anchor_verifies_witness:
  "\<exists>cd. cd_commit cd = anchorCommitOf (StreamID 0 (CID [3])) (CidV (CID [3])) (CID [9]) [R, R] \<and>
     getLeafData sampleRebuild (CID [200]) 3 2 = Inr (CidV (CID [3]), [R, R]) \<and>
     verifyAnchorCommit sampleDagLoader cd = ld_validateChainInclusion sampleDagLoader (cd_proof cd)"
proof -
  let ?cd = "sampleAnchorCommit\<lparr>cd_commit := anchorCommitOf (StreamID 0 (CID [3])) (CidV (CID [3])) (CID [9]) [R, R]\<rparr>"
  let ?rootCid = "mn_data (mt_heap sampleAnchorTree ! mt_root sampleAnchorTree)"
  have leaf: "getLeafData sampleRebuild (CID [200]) 3 2 = Inr (CidV (CID [3]), [R, R])" by code_simp
  have len: "length sampleTips = 3" by (simp add: sampleTips_def)
  have "CidV (CID [3]) = CidV (sampleTips ! (mt_leaves sampleAnchorTree ! 2)) \<and>
      verifyAnchorCommit sampleDagLoader ?cd = ld_validateChainInclusion sampleDagLoader (cd_proof ?cd)"
  proof (rule rebuilt_anchor_verifies [OF _ sample_buildAnchorTree])
    show "sampleStoreRecord r = Inr c \<Longrightarrow> sampleRead c = r" for r c
      by (auto simp: sampleStoreRecord_def split: if_splits)
    show "treeStored sampleRebuild sampleRead ?rootCid" by (simp only: sampleAnchorTree_simps sampleRebuild_stored)
    show "ipldPaths sampleDagLoader sampleRead (CidV (CID [9])) ?rootCid"
      by (simp only: sampleAnchorTree_simps sample_ipldPaths)
    show "getLeafData sampleRebuild ?rootCid (length sampleTips) 2 = Inr (CidV (CID [3]), [R, R])"
      using leaf len by (simp add: sampleAnchorTree_simps)
  qed (simp_all add: sampleTips_def)
  then have "verifyAnchorCommit sampleDagLoader ?cd = ld_validateChainInclusion sampleDagLoader (cd_proof ?cd)" ..
  then show ?thesis using leaf by (intro exI [of _ ?cd]) simp
qed

end
