(* ===== verification/AdminApi.thy ===== *)
theory AdminApi
  imports IndexDatabase HistoryBehaviour
begin

text \<open>
  The admin API of a node (\<open>core/src/local-admin-api.ts\<close>), which starts and stops the indexing of models. It works on
  two components at once: the index of the node (theory \<open>IndexDatabase\<close>) and the synchronisation of history (theory
  \<open>HistorySync\<close>). The index asks the synchronisation whether the history of a model is complete.
\<close>

section \<open>The two components\<close>

record admin_state =
  ad_index :: index_state
  ad_sync :: sync_api

text \<open>
  Recon, the loading of models and the look-up of the block of a transaction are arguments of the constructor.
\<close>

record admin_env =
  ad_world :: index_world
  ad_syncEnv :: sync_env
  ad_reconEnabled :: bool
  ad_registerInterest :: "stream_id \<Rightarrow> js_error + unit"
  ad_load :: "stream_id \<Rightarrow> js_error + stream_state"
  ad_transactionBlock :: "js \<Rightarrow> js_error + int option"

type_synonym 'a admin = "(admin_state, 'a) ef"

definition worldOf :: "admin_env \<Rightarrow> admin_state \<Rightarrow> index_world" where
  "worldOf env w = (ad_world env)\<lparr>iw_syncComplete := syncComplete (ad_sync w)\<rparr>"

definition onIndex :: "(admin_state \<Rightarrow> 'a ix) \<Rightarrow> 'a admin" where
  "onIndex m w = (let (r, i) = m w (ad_index w) in (r, w\<lparr>ad_index := i\<rparr>))"

definition onSync :: "'a sync \<Rightarrow> 'a admin" where
  "onSync m w = (let (r, s) = m (ad_sync w) in (r, w\<lparr>ad_sync := s\<rparr>))"

section \<open>Operations\<close>

definition convertModelIds :: "stream_id list \<Rightarrow> (stream_id \<times> js) list" where
  "convertModelIds ids = map (\<lambda>m. (m, Undef)) ids"

definition startBlockFor :: "admin_env \<Rightarrow> stream_id list \<Rightarrow> js_error + int option" where
  "startBlockFor env ids = bindR (mapR (ad_load env) ids) (getStartBlock (ad_transactionBlock env))"

definition startIndexingModelData :: "admin_env \<Rightarrow> (stream_id \<times> js) list \<Rightarrow> unit admin" where
  "startIndexingModelData env modelData =
     bindE (onIndex (\<lambda>w. localIndexModels (worldOf env w) modelData)) (\<lambda>_.
     bindE (whenE (ad_reconEnabled env) (liftE (bindR (mapR (ad_registerInterest env) (map fst modelData)) (\<lambda>_. Inr ())))) (\<lambda>_.
     if \<not> se_on (ad_syncEnv env) then returnE ()
     else
       bindE (liftE (startBlockFor env (map fst modelData))) (\<lambda>startBlock.
       onSync (startModelSync (ad_syncEnv env) (map (idText (ad_world env)) (map fst modelData))
         \<lparr>ms_startBlock = startBlock, ms_endBlock = None\<rparr>))))"

definition startIndexingModels :: "admin_env \<Rightarrow> stream_id list \<Rightarrow> unit admin" where
  "startIndexingModels env ids = startIndexingModelData env (convertModelIds ids)"

definition stopIndexingModelData :: "admin_env \<Rightarrow> (stream_id \<times> js) list \<Rightarrow> unit admin" where
  "stopIndexingModelData env modelData =
     bindE (onIndex (\<lambda>w. stopIndexingModels (worldOf env w) (map fst modelData))) (\<lambda>_.
     onSync (stopModelSync (ad_syncEnv env) (map (idText (ad_world env)) (map fst modelData))))"

definition adminStopIndexing :: "admin_env \<Rightarrow> stream_id list \<Rightarrow> unit admin" where
  "adminStopIndexing env ids = stopIndexingModelData env (convertModelIds ids)"

definition getIndexedModelData :: "admin_state \<Rightarrow> (stream_id \<times> js) list" where
  "getIndexedModelData w = ix_indexedModels (ad_index w)"

definition getIndexedModels :: "admin_state \<Rightarrow> stream_id list" where
  "getIndexedModels w = map fst (getIndexedModelData w)"

section \<open>Lemmas\<close>


lemma registerModel_indexed:
  assumes "registerModel iw a w = (Inr (), w')" and "getIndexedModel w m \<noteq> None \<or> m = im_model a"
  shows "getIndexedModel w' m \<noteq> None"
proof -
  let ?w1 = "if getIndexedModel w (im_model a) = None
    then w\<lparr>ix_indexedModels := ix_indexedModels w @ [(im_model a, im_indices a)]\<rparr> else w"
  have "ix_indexedModels w' = ix_indexedModels ?w1"
    using assms(1) by (auto simp: registerModel_def bindE_Inr ef_simps Let_def split: option.splits)
  moreover have "getIndexedModel ?w1 m \<noteq> None"
    using assms(2) by (auto simp: getIndexedModel_def find_None_iff)
  ultimately show ?thesis by (simp add: getIndexedModel_def)
qed

lemma registerModels_indexed:
  "forE (registerModel iw) as w = (Inr (), w') \<Longrightarrow> getIndexedModel w m \<noteq> None \<or> m \<in> im_model ` set as \<Longrightarrow>
   getIndexedModel w' m \<noteq> None"
proof (induction as arbitrary: w)
  case Nil
  then show ?case by (simp add: ef_simps)
next
  case (Cons a as)
  then obtain w1 where w1: "registerModel iw a w = (Inr (), w1)" "forE (registerModel iw) as w1 = (Inr (), w')"
    by (auto simp: bindE_Inr)
  from Cons.prems(2) registerModel_indexed [OF w1(1), of m]
  have "getIndexedModel w1 m \<noteq> None \<or> m \<in> im_model ` set as" by auto
  with Cons.IH [OF w1(2)] show ?case .
qed

lemma localIndexModels_indexed:
  assumes "localIndexModels iw md w = (Inr (), w')" and "m \<in> fst ` set md"
  shows "getIndexedModel w' m \<noteq> None"
proof -
  from assms(1) obtain old args w1 where args: "mapR (convertModelData iw old) md = Inr args"
    and reg: "forE (registerModel iw) args w1 = (Inr (), w')"
    by (auto simp: localIndexModels_def indexModels_def bindE_Inr ef_simps)
  from assms(2) obtain x where x: "x \<in> set md" "m = fst x" by auto
  from mapR_in [OF args x(1)] obtain a where "a \<in> set args" "convertModelData iw old x = Inr a" by blast
  then have "im_model a = m" "a \<in> set args" using convertModelData_model [of iw old x a] x(2) by simp_all
  then have "m \<in> im_model ` set args" by blast
  with registerModels_indexed [OF reg] show ?thesis by blast
qed


lemma addSyncJob_historic:
  assumes "addSyncJob env t d w = (r, w')"
  shows "sy_modelsToHistoricSync w' = sy_modelsToHistoricSync
      (if isHistoric (sj_jobType d) then foldl (\<lambda>w m. upsertModelForHistoricSync m w) w (sj_models d) else w)"
  using assms by (auto simp: addSyncJob_def whenE_def onQueue_def bindE_def ef_simps split: if_splits prod.splits)


lemma idText_worldOf [simp]: "idText (worldOf env w) = idText (ad_world env)"
  by (simp add: fun_eq_iff idText_def worldOf_def)

text \<open>The initialisation adds at most one job of history, for the models that the index lists.\<close>

lemma syncInit_historic:
  assumes "syncInit env w = (r, w')"
  shows "sy_modelsToHistoricSync w' = sy_modelsToHistoricSync w \<or>
    (\<exists>w0 a b r. sy_modelsToSync w0 = foldl setAdd (sy_modelsToSync w) (replicate (se_indexedModels env) objectText) \<and>
      sy_modelsToHistoricSync w0 = sy_modelsToHistoricSync w \<and> addSyncJob env HISTORY_SYNC_JOB (catchupJob w0 a b) w0 = (r, w'))"
  using assms
  by (auto simp: syncInit_def bindE_def ef_simps Let_def initStateTable_def initModelsToSync_def split: if_splits sum.splits option.splits prod.splits)

lemma upserts_other:
  "m \<notin> set ms \<Longrightarrow> syncComplete (foldl (\<lambda>w m. upsertModelForHistoricSync m w) w ms) m = syncComplete w m"
proof (induction ms arbitrary: w)
  case (Cons a ms)
  have "syncComplete (upsertModelForHistoricSync a w) m = syncComplete w m"
    using Cons.prems by (simp add: syncComplete_def upsertModelForHistoricSync_def Let_def)
  with Cons show ?case by simp
qed simp

section \<open>A sample\<close>

definition anchoredModel :: stream_state where
  "anchoredModel = \<lparr>st_type = MODEL_TYPE, st_content = Obj [], st_next = None, st_metadata = Obj [], st_signature = SIGNED,
     st_anchorStatus = ANCHORED, st_anchorProof = Obj [(''txHash'', CidV (CID [7]))],
     st_log = [sampleEntry (CID [1]) INIT (NVal 5)]\<rparr>"

definition sampleAdmin :: "(js \<Rightarrow> js_error + int option) \<Rightarrow> admin_env" where
  "sampleAdmin getBlock = \<lparr>ad_world = sampleIndexWorld\<lparr>iw_allowQueriesBeforeHistoricalSync := False\<rparr>, ad_syncEnv = sampleSync,
     ad_reconEnabled = False, ad_registerInterest = (\<lambda>_. Inl TypeErr), ad_load = (\<lambda>_. Inr anchoredModel),
     ad_transactionBlock = getBlock\<rparr>"

definition freshAdmin :: admin_state where
  "freshAdmin = \<lparr>ad_index = emptyIndex, ad_sync = newSync\<rparr>"

section \<open>Properties\<close>



text \<open>
  An error after the first step leaves a model that is indexed and never synchronised. When the start block cannot be
  found, the caller gets the error, but the model stays in the index, has no job, and can be queried at once.
\<close>

theorem failed_start_queryable:
  assumes "localIndexModels (worldOf env w) modelData (ad_index w) = (Inr (), i)" and "\<not> ad_reconEnabled env"
    and "se_on (ad_syncEnv env)" and "startBlockFor env (map fst modelData) = Inl e" and "m \<in> fst ` set modelData"
    and "syncComplete (ad_sync w) (idText (ad_world env) m)"
  shows "startIndexingModelData env modelData w = (Inl e, w\<lparr>ad_index := i\<rparr>) \<and>
    assertModelQueryable (worldOf env (w\<lparr>ad_index := i\<rparr>)) i m = Inr ()"
proof -
  have "getIndexedModel i m \<noteq> None" by (rule localIndexModels_indexed [OF assms(1,5)])
  then have "assertModelQueryable (worldOf env (w\<lparr>ad_index := i\<rparr>)) i m = Inr ()"
    using assms(6) by (simp add: assertModelQueryable_def assertModelIsIndexed_def assertNoOngoingSyncForModel_def throwIf_def)
      (simp add: worldOf_def)
  then show ?thesis
    using assms(1-4) by (simp add: startIndexingModelData_def bindE_def onIndex_def whenE_def ef_simps del: map_map)
qed

theorem failed_start_queryable_witness:
  "\<exists>i. startIndexingModelData (sampleAdmin (\<lambda>_. Inl (Err ''offline''))) [(sampleModelId, Undef)] freshAdmin =
       (Inl (Err ''offline''), freshAdmin\<lparr>ad_index := i\<rparr>) \<and>
     assertModelQueryable (worldOf (sampleAdmin (\<lambda>_. Inl (Err ''offline''))) (freshAdmin\<lparr>ad_index := i\<rparr>)) i sampleModelId = Inr ()"
proof -
  let ?env = "sampleAdmin (\<lambda>_. Inl (Err ''offline''))"
  have ok: "fst (localIndexModels (worldOf ?env freshAdmin) [(sampleModelId, Undef)] (ad_index freshAdmin)) = Inr () \<and>
      startBlockFor ?env (map fst [(sampleModelId, Undef)]) = Inl (Err ''offline'') \<and> \<not> ad_reconEnabled ?env \<and> se_on (ad_syncEnv ?env) \<and>
      sy_modelsToHistoricSync (ad_sync freshAdmin) = []"
    by code_simp
  then obtain i where "localIndexModels (worldOf ?env freshAdmin) [(sampleModelId, Undef)] (ad_index freshAdmin) = (Inr (), i)"
    by (metis prod.collapse)
  from failed_start_queryable [OF this, of "Err ''offline''" sampleModelId] ok show ?thesis
    by (auto simp: syncComplete_def)
qed

text \<open>
  A restart opens all models to queries. The counts of jobs that run for the history of a model are kept in memory only:
  after a restart every model counts as complete, whatever jobs for its history are still in the queue.
\<close>

theorem restart_opens_queries:
  assumes "codec_lib_ok (ie_codec (iw_env (ad_world env)))" and "syncInit (ad_syncEnv env) (restarted v) = (r, ad_sync w)"
  shows "assertNoOngoingSyncForModel (worldOf env w) m = Inr ()"
proof -
  let ?t = "idText (ad_world env) m"
  have no: "?t \<noteq> objectText" using objectText_no_streamID [OF assms(1)] by (simp add: idText_def)
  have "syncComplete (ad_sync w) ?t"
    using syncInit_historic [OF assms(2)]
  proof
    assume "sy_modelsToHistoricSync (ad_sync w) = sy_modelsToHistoricSync (restarted v)"
    then show ?thesis by (simp add: syncComplete_def restarted_def)
  next
    assume "\<exists>w0 a b r. sy_modelsToSync w0 = foldl setAdd (sy_modelsToSync (restarted v)) (replicate (se_indexedModels (ad_syncEnv env)) objectText) \<and>
      sy_modelsToHistoricSync w0 = sy_modelsToHistoricSync (restarted v) \<and>
      addSyncJob (ad_syncEnv env) HISTORY_SYNC_JOB (catchupJob w0 a b) w0 = (r, ad_sync w)"
    then obtain w0 a b r where w0: "sy_modelsToSync w0 = foldl setAdd [] (replicate (se_indexedModels (ad_syncEnv env)) objectText)"
      "sy_modelsToHistoricSync w0 = []" "addSyncJob (ad_syncEnv env) HISTORY_SYNC_JOB (catchupJob w0 a b) w0 = (r, ad_sync w)"
      by (auto simp: restarted_def)
    have "?t \<notin> set (sj_models (catchupJob w0 a b))" using no by (simp add: catchupJob_def w0(1) setAdds_set)
    from upserts_other [OF this, of w0] addSyncJob_historic [OF w0(3)] show ?thesis
      by (simp add: syncComplete_def catchupJob_def isHistoric_def w0(2))
  qed
  then show ?thesis
    by (simp add: assertNoOngoingSyncForModel_def throwIf_def) (simp add: worldOf_def)
qed

theorem restart_opens_queries_witness:
  "\<exists>s w. startModelSync sampleSync [idText sampleIndexWorld sampleModelId] sampleOptions newSync = (Inr (), s) \<and>
     \<not> syncComplete s (idText sampleIndexWorld sampleModelId) \<and> syncInit sampleSync (restarted s) = (Inr (), w) \<and>
     assertNoOngoingSyncForModel (worldOf (sampleAdmin (\<lambda>_. Inr None)) (freshAdmin\<lparr>ad_sync := w\<rparr>)) sampleModelId = Inr ()"
proof -
  let ?s = "snd (startModelSync sampleSync [idText sampleIndexWorld sampleModelId] sampleOptions newSync)"
  have ok: "fst (startModelSync sampleSync [idText sampleIndexWorld sampleModelId] sampleOptions newSync) = Inr () \<and>
      \<not> syncComplete ?s (idText sampleIndexWorld sampleModelId) \<and> fst (syncInit sampleSync (restarted ?s)) = Inr ()"
    by code_simp
  then obtain w where w: "syncInit sampleSync (restarted ?s) = (Inr (), w)" by (metis prod.collapse)
  have "assertNoOngoingSyncForModel (worldOf (sampleAdmin (\<lambda>_. Inr None)) (freshAdmin\<lparr>ad_sync := w\<rparr>)) sampleModelId = Inr ()"
  proof (rule restart_opens_queries [where v = ?s and r = "Inr ()"])
    show "codec_lib_ok (ie_codec (iw_env (ad_world (sampleAdmin (\<lambda>_. Inr None)))))"
      using sampleLib_ok sampleIndexWorld_codec by (simp add: sampleAdmin_def)
  qed (simp add: sampleAdmin_def w)
  then show ?thesis using ok w by (intro exI [of _ ?s] exI [of _ w]) (simp add: prod_eq_iff)
qed

end
