(* ===== verification/Spec2Isabelle.thy ===== *)
theory Spec2Isabelle
  imports RepositoryBehaviour AnchorService ExecutionQueues MerkleTree IndexDatabase Dispatcher IpfsAccess
    FeedAggregation AnchorValidator InstanceClient AdminApi
begin

text \<open>
  A verification development for js-ceramic, the TypeScript node of the Ceramic protocol. Paths are
  below \<open>src/packages\<close>.

  The program. A stream is an append-only log of commits, each the hash-linked successor of the one
  before: a genesis commit, signed data commits of its controller, and anchor commits that prove a
  time on a blockchain. A node replays logs into states by the handler of the stream's type, picks one
  of two histories by a deterministic rule, keeps running states in a cache and pinned states in a
  store, requests anchors from a remote service and polls them, and learns of new tips from the
  network.

  Conventions. A function that may throw returns a sum, \<open>Inl\<close> the error. A method with side effects is
  a function from the state of the node to a result and the new state (theory \<open>Effects\<close>); a method that
  throws keeps the changes made before. Values typed \<open>any\<close> are of type \<open>js\<close>. An asynchronous method runs
  to its end before the next one on the same stream, which the queues of a node ensure (theory
  \<open>ExecutionQueues\<close>); where operations do interleave, as in the polling of anchors, there is a step
  relation. Definitions have the names of the source.

  Theories, from the bottom up:
  \<^item> \<open>Prelude\<close>, \<open>JsValue\<close>, \<open>Effects\<close>: results, lists and strings of JavaScript, dynamic values, commands.
  \<^item> \<open>StreamIds\<close> (\<open>streamid\<close>): StreamIDs, CommitIDs, their byte, base36 and URL forms and round trips.
  \<^item> \<open>StreamTypes\<close> (\<open>common/src/stream.ts\<close>, \<open>utils/stream-utils.ts\<close>): states, logs, commit data.
  \<^item> \<open>Serialization\<close> (\<open>stream-utils.ts\<close>): the stored and transmitted forms of commits and states.
  \<^item> \<open>Signatures\<close> (\<open>stream-handler-common\<close>): signatures, delegated capabilities, anchor commits.
  \<^item> \<open>LogApplication\<close> (\<open>state-manipulator.ts\<close>, \<open>_applyLog\<close>): the interface of handlers as the locale
    \<open>stream_handler\<close>; \<open>TileHandler\<close>, \<open>Caip10Handler\<close>, \<open>ModelHandler\<close> and \<open>InstanceHandler\<close> model the four
    stream types and interpret it, \<open>ModelInterfaces\<close> the comparison of JSON schemas, \<open>Handlers\<close> the
    registry.
  \<^item> \<open>LogSync\<close>, \<open>StateManipulator\<close>, \<open>StreamLoading\<close> (\<open>core/src/stream-loading\<close>): the commits between a tip and
    what is known, timestamps of anchors, building of states, conflict resolution, loading and
    updating of streams.
  \<^item> \<open>StateCache\<close>, \<open>RunningStates\<close>, \<open>Stores\<close>, \<open>PinStore\<close>, \<open>Repository\<close> (\<open>core/src/state-management\<close>,
    \<open>core/src/store\<close>): the memory and the stores of a node and every method of the repository that changes
    them. \<open>RepositoryInv\<close>, \<open>RepositoryProps\<close> and \<open>RepositorySteps\<close> prove that each operation keeps the invariant
    \<open>soundRepo\<close>, \<open>RepositoryTheorems\<close> and \<open>RepositoryBehaviour\<close> hold the properties.
  \<^item> \<open>AnchorService\<close> (\<open>core/src/anchor\<close>): the remote service, requests, and the polling loop.
  \<^item> \<open>ExecutionQueues\<close> (\<open>execution-queue.ts\<close>, \<open>named-task-queue.ts\<close>): lanes of tasks by stream.
  \<^item> \<open>MerkleTree\<close> (\<open>anchor-utils/src/merkle\<close>): the trees that anchor many streams at once.
  \<^item> \<open>AnchorValidator\<close> (\<open>core/src/anchor/ethereum/ethereum-anchor-validator.ts\<close>, \<open>core/src/providers-cache.ts\<close>): proofs of
    anchors checked on a chain, and what the caches of transactions and blocks may hold.
  \<^item> \<open>PubsubMessages\<close>, \<open>MessageBus\<close> (\<open>core/src/pubsub\<close>): the messages between nodes and their codecs,
    outstanding queries, keepalive and rate limit; \<open>Dispatcher\<close> (\<open>core/src/dispatcher.ts\<close>): what a node does
    with a message, over the repository.
  \<^item> \<open>LruCache\<close>, \<open>IpfsAccess\<close> (\<open>core/src/dispatcher.ts\<close>, \<open>core/src/store/ipld-records-cache.ts\<close>): reading records
    with retries, writing CAR files, and the cache of records.
  \<^item> \<open>FeedAggregation\<close> (\<open>core/src/feed.ts\<close>, \<open>core/src/store/feed-aggregation-store.ts\<close>): the feed of changed
    documents, its keys and a reader that waits for writes.
  \<^item> \<open>QueryFilters\<close>, \<open>IndexQueries\<close>, \<open>IndexDatabase\<close> (\<open>indexing\<close>): filters and their meaning in three-valued
    logic, cursors and pages, the models a node indexes and the rows it keeps. The database is the locale
    \<open>sql_database\<close>, interpreted on an evaluator of the clauses.
  \<^item> \<open>CeramicNode\<close> (\<open>core/src/ceramic.ts\<close>, \<open>local-pin-api.ts\<close>): the interface of a node over the repository, multiqueries
    along the trie of their paths, the checks at the start.
  \<^item> \<open>StreamClients\<close>, \<open>InstanceClient\<close> (\<open>stream-tile\<close>, \<open>stream-caip10-link\<close>, \<open>stream-model\<close>, \<open>stream-model-instance\<close>): the
    classes with which clients make commits. They write to a record of operations that a node provides; the
    properties relate the commits they make to what the handlers do with them.
  \<^item> \<open>AnchorListener\<close> (\<open>anchor-listener\<close>): the anchor proofs of blocks, by range, by ancestor and as blocks arrive. An
    observable is the list of its values and the error that ends it, so that an error comes after all values
    of the blocks before it.
  \<^item> \<open>HistorySync\<close>, \<open>HistoryBehaviour\<close> (\<open>indexing/src/history-sync\<close>, \<open>job-queue\<close>): the jobs that rebuild anchor commits from
    the chain. The table of pg-boss is a list of rows. \<open>syncStep\<close> is a run in which blocks, workers, starts and
    stops of models and failing sends interleave, one block after the other or several at once; the tasks of
    one tree are run in the order of its leaves. \<open>AdminApi\<close> (\<open>core/src/local-admin-api.ts\<close>) is the composition of the
    index and the synchronisation, by which models are started and stopped.

  Bounds. Loops over hash links end when the commits do not form a cycle; their fuel is bounded by a
  rank of the block store (\<open>ld_fuel\<close> of a loader, hypothesis \<open>boundedStore\<close>), and running out is the value
  \<open>Diverged\<close>, which nothing catches. \<open>en_fuel\<close> bounds the chain of models that pinning follows and
  \<open>infiniteRound\<close> the batches of one round of polling; the properties say how much is enough. Loops whose
  end is not bounded by data are \<open>partial_function (option)\<close>. Reading a record is tried \<open>IPFS_GET_RETRIES\<close>
  times, as in the code.

  Code that is not in the repository is a parameter: the multiformats codecs and hashes, JOSE and
  blockchain signature checks, Ajv, JSON patch, LevelDB as an ordered map, the LRU library as an
  arbitrary choice of evictions, p-queue, await-semaphore, the priority queue, codeco, knex, ethers, IPFS. What is assumed of it are named
  predicates, and each property that assumes one has a witness that instantiates it.

  Not modelled: what only forwards to I/O (network clients, HTTP routes, the command line, pinning
  backends), metrics and logging, timers (their ticks are inputs), creation and migration of tables, the
  declarations of runtime types for codeco, and the construction of a node from its configuration.
\<close>

end
